(* ===== verification/Prelude.thy ===== *)
theory Prelude
  imports Complex_Main "HOL-Library.Word"
begin

text \<open>
  Shared vocabulary of the development: the machine integer types the C++ sources use, the
  collections of rewrite rules that the component theories extend, and the generic facts on words
  and lists that several components rely on.
\<close>

type_synonym u8 = "8 word"
type_synonym u16 = "16 word"
type_synonym u32 = "32 word"
type_synonym u64 = "64 word"

named_theorems f32_simps "evaluation of binary32 operations on finite operands"
named_theorems rnd_simps "values that binary32 represents exactly"

section \<open>Loops that end\<close>

text \<open>
  The contract of a \<open>while\<close> loop of the sources that is modelled as a partial function: under an
  invariant, every turn lowers a rational measure by at least one, and the measure is not negative
  while the guard holds. Such a loop returns a state that satisfies the invariant and fails the guard.
\<close>

locale ending_loop =
  fixes run :: "'s \<Rightarrow> 's option"
    and guard :: "'s \<Rightarrow> bool"
    and body :: "'s \<Rightarrow> 's"
    and inv :: "'s \<Rightarrow> bool"
    and measure_of :: "'s \<Rightarrow> rat"
  assumes run_unfold: "run s = (if guard s then run (body s) else Some s)"
    and body_inv: "inv s \<Longrightarrow> guard s \<Longrightarrow> inv (body s)"
    and body_decreases: "inv s \<Longrightarrow> guard s \<Longrightarrow> measure_of (body s) + 1 \<le> measure_of s"
    and guard_nonneg: "inv s \<Longrightarrow> guard s \<Longrightarrow> 0 \<le> measure_of s"
begin

lemma run_ends_below: "inv s \<Longrightarrow> measure_of s < of_nat n \<Longrightarrow> \<exists>r. run s = Some r \<and> inv r \<and> \<not> guard r"
proof (induction n arbitrary: s)
  case 0
  then have "\<not> guard s" using guard_nonneg by fastforce
  then show ?case using 0 by (simp add: run_unfold [of s])
next
  case (Suc n)
  show ?case
  proof (cases "guard s")
    case True
    have "measure_of (body s) < of_nat n" using body_decreases [OF Suc.prems(1) True] Suc.prems(2) by simp
    with Suc.IH body_inv [OF Suc.prems(1) True] True show ?thesis by (simp add: run_unfold [of s])
  next
    case False
    with Suc.prems show ?thesis by (simp add: run_unfold [of s])
  qed
qed

theorem run_ends:
  assumes "inv s"
  obtains r where "run s = Some r" "inv r" "\<not> guard r"
proof -
  obtain n :: nat where "measure_of s < of_nat n" using reals_Archimedean2 by blast
  from run_ends_below [OF assms this] that show ?thesis by blast
qed

end

section \<open>Ring buffers\<close>

text \<open>The \<open>n\<close> elements of a ring from index \<open>s\<close> on, in order.\<close>

definition ring_list :: "'a list \<Rightarrow> nat \<Rightarrow> nat \<Rightarrow> 'a list" where
  "ring_list es s n = map (\<lambda>i. es ! ((s + i) mod length es)) [0..<n]"

lemma length_ring_list [simp]: "length (ring_list es s n) = n"
  by (simp add: ring_list_def)

lemma ring_list_0 [simp]: "ring_list es s 0 = []"
  by (simp add: ring_list_def)

lemma ring_list_start_mod: "s mod length es = t mod length es \<Longrightarrow> ring_list es s n = ring_list es t n"
  unfolding ring_list_def by (intro map_cong refl) (metis mod_add_left_eq)

lemma ring_list_Suc: "ring_list es s (Suc n) = es ! (s mod length es) # ring_list es (Suc s) n"
  by (simp add: ring_list_def map_upt_Suc del: upt_Suc)

lemma ring_list_split: "ring_list es s (m + n) = ring_list es s m @ ring_list es (s + m) n"
  by (induction m arbitrary: s) (simp_all add: ring_list_Suc)

lemma ring_index_neq:
  assumes "i < n" "n < (N :: nat)"
  shows "(s + i) mod N \<noteq> (s + n) mod N"
proof
  assume "(s + i) mod N = (s + n) mod N"
  then have "N dvd (s + n) - (s + i)" using assms by (intro mod_eq_dvd_iff_nat [THEN iffD1]) simp_all
  then show False using assms by (simp add: dvd_imp_le nat_dvd_not_less)
qed

text \<open>Writing the slot behind the last element changes none of them and appends one.\<close>

lemma ring_list_write:
  assumes "n < length es"
  shows "ring_list (es[(s + n) mod length es := e]) s n = ring_list es s n"
    "ring_list (es[(s + n) mod length es := e]) s (Suc n) = ring_list es s n @ [e]"
proof -
  show w: "ring_list (es[(s + n) mod length es := e]) s n = ring_list es s n"
    unfolding ring_list_def using ring_index_neq [of _ n "length es" s] assms
    by (auto simp del: upt_Suc) (metis nth_list_update_neq)
  have "(s + n) mod length es < length es" using assms by (intro mod_less_divisor) auto
  then show "ring_list (es[(s + n) mod length es := e]) s (Suc n) = ring_list es s n @ [e]"
    using w by (simp add: ring_list_def)
qed

section \<open>Bounded queues\<close>

text \<open>
  The contract of the queues between two contexts: a push appends when there is room and is refused
  (and leaves the contents alone) when the queue is full, a pop takes the oldest element.
\<close>

datatype 'a queue_op = Enqueue 'a | Dequeue

locale bounded_queue =
  fixes invar :: "'q \<Rightarrow> bool"
    and contents :: "'q \<Rightarrow> 'a list"
    and capacity :: nat
    and push :: "'a \<Rightarrow> 'q \<Rightarrow> bool \<times> 'q"
    and pop :: "'q \<Rightarrow> 'a option \<times> 'q"
  assumes contents_bounded: "invar q \<Longrightarrow> length (contents q) \<le> capacity"
    and push_invar: "invar q \<Longrightarrow> invar (snd (push x q))"
    and push_result: "invar q \<Longrightarrow> fst (push x q) \<longleftrightarrow> length (contents q) < capacity"
    and push_contents: "invar q \<Longrightarrow>
      contents (snd (push x q)) = (if length (contents q) < capacity then contents q @ [x] else contents q)"
    and pop_invar: "invar q \<Longrightarrow> invar (snd (pop q))"
    and pop_empty: "invar q \<Longrightarrow> contents q = [] \<Longrightarrow> fst (pop q) = None \<and> contents (snd (pop q)) = []"
    and pop_contents: "invar q \<Longrightarrow> contents q = x # xs \<Longrightarrow> fst (pop q) = Some x \<and> contents (snd (pop q)) = xs"
begin

text \<open>A run of operations: the accepted elements, the elements taken, the final queue.\<close>

fun run_ops :: "'a queue_op list \<Rightarrow> 'q \<Rightarrow> 'a list \<times> 'a list \<times> 'q" where
  "run_ops [] q = ([], [], q)"
| "run_ops (Enqueue x # ops) q =
     (let (ok, q') = push x q; (ins, outs, r) = run_ops ops q' in ((if ok then x # ins else ins), outs, r))"
| "run_ops (Dequeue # ops) q =
     (let (y, q') = pop q; (ins, outs, r) = run_ops ops q'
      in (ins, (case y of None \<Rightarrow> outs | Some x \<Rightarrow> x # outs), r))"

text \<open>First in, first out: nothing accepted is lost, duplicated or reordered.\<close>

theorem run_ops_fifo:
  assumes "invar q" "run_ops ops q = (ins, outs, r)"
  shows "invar r" "contents q @ ins = outs @ contents r"
proof -
  have "invar r \<and> contents q @ ins = outs @ contents r"
    using assms
  proof (induction ops arbitrary: q ins outs r)
    case Nil
    then show ?case by simp
  next
    case (Cons op ops)
    show ?case
    proof (cases op)
      case (Enqueue x)
      obtain ok q' where p: "push x q = (ok, q')" by fastforce
      obtain i o' r' where r: "run_ops ops q' = (i, o', r')" by (cases "run_ops ops q'") auto
      show ?thesis
        using Cons.IH [OF _ r] Cons.prems Enqueue p r push_invar [of q x] push_result [of q x] push_contents [of q x]
        by (auto split: if_splits)
    next
      case Dequeue
      obtain y q' where p: "pop q = (y, q')" by fastforce
      obtain i o' r' where r: "run_ops ops q' = (i, o', r')" by (cases "run_ops ops q'") auto
      show ?thesis
        using Cons.IH [OF _ r] Cons.prems Dequeue p r pop_invar [of q] pop_empty [of q] pop_contents [of q]
        by (cases "contents q") auto
    qed
  qed
  then show "invar r" "contents q @ ins = outs @ contents r" by auto
qed

end

section \<open>Interleaved systems\<close>

text \<open>
  The contract of a step relation between contexts that preempt each other: an invariant that holds
  initially and that every step keeps. It then holds in every state that any interleaving reaches.
\<close>

locale interleaving =
  fixes init :: "'s \<Rightarrow> bool"
    and step :: "'s \<Rightarrow> 's \<Rightarrow> bool"
    and inv :: "'s \<Rightarrow> bool"
  assumes init_inv: "init s \<Longrightarrow> inv s"
    and step_inv: "step s t \<Longrightarrow> inv s \<Longrightarrow> inv t"
begin

theorem reachable_inv: "step\<^sup>*\<^sup>* s t \<Longrightarrow> init s \<Longrightarrow> inv t"
  by (induction rule: rtranclp_induct) (auto intro: init_inv step_inv)

end

section \<open>Bytes\<close>

text \<open>A fact about one byte holds when it holds for the 256 of them.\<close>

lemma u8_all:
  assumes "list_all (\<lambda>n. P (word_of_nat n)) [0..<256]"
  shows "P (x :: u8)"
proof -
  have x: "unat x \<in> {0..<256}" using unsigned_less [of x] by simp
  have "\<forall>n \<in> {0..<256}. P (word_of_nat n)" using assms by (simp only: list_all_iff set_upt)
  from bspec [OF this x] show ?thesis by simp
qed

end
