(* ===== verification/Hall_Capture.thy ===== *)
theory Hall_Capture
  imports Prelude
begin

unbundle bit_operations_syntax

text \<open>
  The single-producer, single-consumer queue of Hall events, \<open>HallEventQueue<N>\<close> of
  \<open>lib/motor_control/src/hall_capture.hpp\<close>. The capacity \<open>N\<close> is a power of two (a static assertion of
  the class), \<open>N = 2 ^ k\<close> below; the indices are free-running 32-bit counters. The first part models
  the operations as a whole, the second one splits them at every access to shared memory and
  interleaves the edge interrupt (producer) with the observer (consumer).
\<close>

record HallEvent =
  he_code :: u8
  he_timestamp :: u32

record HallEventQueue =
  hq_events :: "HallEvent list"
  hq_head :: u32
  hq_tail :: u32
  hq_latest_code :: u8
  hq_overflows :: u32

definition slot :: "nat \<Rightarrow> u32 \<Rightarrow> nat" where
  "slot k i = unat (i AND (2 ^ k - 1))"

definition HallEventQueue_init :: "nat \<Rightarrow> HallEventQueue" where
  "HallEventQueue_init k =
     \<lparr>hq_events = replicate (2 ^ k) \<lparr>he_code = 0, he_timestamp = 0\<rparr>, hq_head = 0, hq_tail = 0, hq_latest_code = 0, hq_overflows = 0\<rparr>"

definition HallPush :: "nat \<Rightarrow> HallEvent \<Rightarrow> HallEventQueue \<Rightarrow> bool \<times> HallEventQueue" where
  "HallPush k event q =
     (let q = q\<lparr>hq_latest_code := he_code event\<rparr>; kHead = hq_head q; kTail = hq_tail q in
      if 2 ^ k \<le> unat (kHead - kTail) then (False, q\<lparr>hq_overflows := hq_overflows q + 1\<rparr>)
      else (True, q\<lparr>hq_events := (hq_events q)[slot k kHead := event], hq_head := kHead + 1\<rparr>))"

definition HallPop :: "nat \<Rightarrow> HallEventQueue \<Rightarrow> HallEvent option \<times> HallEventQueue" where
  "HallPop k q =
     (let kTail = hq_tail q; kHead = hq_head q in
      if kHead = kTail then (None, q)
      else (Some (hq_events q ! slot k kTail), q\<lparr>hq_tail := kTail + 1\<rparr>))"

definition HallClear :: "HallEventQueue \<Rightarrow> HallEventQueue" where
  "HallClear q = q\<lparr>hq_tail := hq_head q\<rparr>"

definition LatestCode :: "HallEventQueue \<Rightarrow> u8" where
  "LatestCode q = hq_latest_code q"

definition Overflows :: "HallEventQueue \<Rightarrow> u32" where
  "Overflows q = hq_overflows q"

section \<open>Index arithmetic\<close>

lemma slot_mod: "k \<le> 32 \<Longrightarrow> slot k i = unat i mod 2 ^ k"
  unfolding slot_def mask_eq_exp_minus_1 [symmetric] take_bit_eq_mask [symmetric]
  by (simp add: unsigned_take_bit_eq take_bit_nat_def)

lemma slot_add: 
  assumes "k \<le> 32"
  shows "slot k (i + of_nat n) = (unat i + n) mod 2 ^ k"
proof -
  have "(2::nat) ^ k dvd 2 ^ 32" using assms by (rule le_imp_power_dvd)
  then have "(unat i + n) mod 2 ^ 32 mod 2 ^ k = (unat i + n) mod 2 ^ k" by (rule mod_mod_cancel)
  moreover have "unat (i + of_nat n) = (unat i + n) mod 2 ^ 32"
    by (simp add: unat_word_ariths unat_of_nat mod_simps)
  ultimately show ?thesis using assms by (simp add: slot_mod)
qed

lemma slot_head:
  assumes "k \<le> 32"
  shows "slot k head = (unat tail + unat (head - tail)) mod 2 ^ k"
  using slot_add [OF assms, of tail "unat (head - tail)"] by simp

lemma unat_diff_Suc: "unat (h - t :: u32) < 2 ^ 31 \<Longrightarrow> unat (h + 1 - t) = Suc (unat (h - t))"
proof -
  assume a: "unat (h - t) < 2 ^ 31"
  have eq: "h + 1 - t = (h - t) + 1" by simp
  have "(h - t) + 1 \<noteq> 0"
  proof
    assume "h - t + 1 = 0"
    then have "h - t = - 1" by (metis add_eq_0_iff2)
    with a show False by (simp add: unsigned_minus_1_eq_mask mask_eq_exp_minus_1)
  qed
  then show ?thesis unfolding eq by (metis add.commute unatSuc)
qed

lemma unat_diff_pred: "h \<noteq> t \<Longrightarrow> unat (h - t :: u32) = Suc (unat (h - (t + 1)))"
proof -
  assume "h \<noteq> t"
  then have "(h - (t + 1)) + 1 \<noteq> 0" by simp
  then show ?thesis by (subst unatSuc [symmetric]) (simp_all add: algebra_simps)
qed

section \<open>The queue holds the events in order\<close>

definition queue_length :: "HallEventQueue \<Rightarrow> nat" where
  "queue_length q = unat (hq_head q - hq_tail q)"

definition queue_contents :: "HallEventQueue \<Rightarrow> HallEvent list" where
  "queue_contents q = ring_list (hq_events q) (unat (hq_tail q)) (queue_length q)"

definition queue_invar :: "nat \<Rightarrow> HallEventQueue \<Rightarrow> bool" where
  "queue_invar k q \<longleftrightarrow> k \<le> 31 \<and> length (hq_events q) = 2 ^ k \<and> queue_length q \<le> 2 ^ k"

lemma power_le_31: "k \<le> 31 \<Longrightarrow> (2::nat) ^ k \<le> 2 ^ 31"
  by (rule power_increasing) simp_all

lemma unat_inc_mod: "k \<le> 31 \<Longrightarrow> unat (t + 1 :: u32) mod 2 ^ k = Suc (unat t) mod 2 ^ k"
  using slot_add [of k t 1] slot_mod [of k "t + 1"] by simp

lemma HallPush_full:
  assumes "queue_invar k q" "\<not> length (queue_contents q) < 2 ^ k"
  shows "HallPush k e q = (False, q\<lparr>hq_latest_code := he_code e, hq_overflows := hq_overflows q + 1\<rparr>)"
  using assms by (simp add: HallPush_def Let_def queue_contents_def queue_length_def)

lemma HallPush_room:
  assumes "queue_invar k q" "length (queue_contents q) < 2 ^ k" "HallPush k e q = (b, r)"
  shows "b" "queue_contents r = queue_contents q @ [e]" "queue_invar k r"
proof -
  let ?n = "queue_length q" and ?N = "length (hq_events q)"
  have k: "k \<le> 31" and N: "?N = 2 ^ k" and n: "?n < 2 ^ k"
    using assms by (simp_all add: queue_invar_def queue_contents_def)
  have r: "r = q\<lparr>hq_latest_code := he_code e, hq_events := (hq_events q)[slot k (hq_head q) := e], hq_head := hq_head q + 1\<rparr>"
    and b: "b" using assms n by (auto simp: HallPush_def Let_def queue_length_def)
  have l: "queue_length r = Suc ?n"
    using n power_le_31 [OF k] by (simp add: r queue_length_def unat_diff_Suc)
  have s: "slot k (hq_head q) = (unat (hq_tail q) + ?n) mod ?N"
    using slot_head [of k "hq_head q" "hq_tail q"] k N by (simp add: queue_length_def)
  show "b" by (rule b)
  show "queue_contents r = queue_contents q @ [e]"
    using ring_list_write(2) [of ?n "hq_events q" "unat (hq_tail q)" e] n N l by (simp add: queue_contents_def r s)
  show "queue_invar k r" using k N n l by (simp add: queue_invar_def r)
qed

lemma HallPop_empty: "queue_contents q = [] \<Longrightarrow> HallPop k q = (None, q)"
proof -
  assume "queue_contents q = []"
  then have "queue_length q = 0" by (metis length_ring_list list.size(3) queue_contents_def)
  then have "hq_head q = hq_tail q" by (simp add: queue_length_def unsigned_eq_0_iff)
  then show ?thesis by (simp add: HallPop_def)
qed

lemma HallPop_cons:
  assumes "queue_invar k q" "queue_contents q = x # xs" "HallPop k q = (y, r)"
  shows "y = Some x" "queue_contents r = xs" "queue_invar k r"
proof -
  have k: "k \<le> 31" and N: "length (hq_events q) = 2 ^ k" using assms(1) by (simp_all add: queue_invar_def)
  have ne: "hq_head q \<noteq> hq_tail q" using assms(2) by (auto simp: queue_contents_def queue_length_def)
  then have r: "r = q\<lparr>hq_tail := hq_tail q + 1\<rparr>" and y: "y = Some (hq_events q ! slot k (hq_tail q))"
    using assms(3) by (auto simp: HallPop_def Let_def)
  have l: "queue_length q = Suc (queue_length r)" using unat_diff_pred [OF ne] by (simp add: queue_length_def r)
  have "queue_contents q = hq_events q ! (unat (hq_tail q) mod 2 ^ k) # ring_list (hq_events q) (Suc (unat (hq_tail q))) (queue_length r)"
    using N by (simp add: queue_contents_def l ring_list_Suc)
  moreover have "ring_list (hq_events q) (Suc (unat (hq_tail q))) (queue_length r) = queue_contents r"
    using ring_list_start_mod [of "Suc (unat (hq_tail q))" "hq_events q" "unat (hq_tail q + 1)"] N unat_inc_mod [OF k]
    by (simp add: queue_contents_def r)
  ultimately show "y = Some x" "queue_contents r = xs" using assms(2) y k by (simp_all add: slot_mod)
  show "queue_invar k r" using assms(1) l by (simp add: queue_invar_def r)
qed

text \<open>The queue with its default capacity 16 fulfils the contract of a bounded queue.\<close>

interpretation hall: bounded_queue "queue_invar 4" queue_contents 16 "HallPush 4" "HallPop 4"
proof (unfold_locales, goal_cases)
  case (1 q)
  then show ?case by (simp add: queue_invar_def queue_contents_def)
next
  case (2 q x)
  then show ?case
    using HallPush_room(3) [of 4 q x "fst (HallPush 4 x q)" "snd (HallPush 4 x q)"] HallPush_full [of 4 q x]
    by (cases "length (queue_contents q) < 2 ^ 4") (auto simp: queue_invar_def queue_length_def)
next
  case (3 q x)
  then show ?case
    using HallPush_room(1) [of 4 q x "fst (HallPush 4 x q)" "snd (HallPush 4 x q)"] HallPush_full [of 4 q x]
    by (cases "length (queue_contents q) < 2 ^ 4") auto
next
  case (4 q x)
  then show ?case
    using HallPush_room(2) [of 4 q x "fst (HallPush 4 x q)" "snd (HallPush 4 x q)"] HallPush_full [of 4 q x]
    by (auto simp: queue_contents_def queue_length_def)
next
  case (5 q)
  then show ?case
    using HallPop_cons(3) [of 4 q _ _ "fst (HallPop 4 q)" "snd (HallPop 4 q)"] HallPop_empty [of q 4]
    by (cases "queue_contents q") auto
next
  case (6 q)
  then show ?case using HallPop_empty [of q 4] by simp
next
  case (7 q x xs)
  then show ?case using HallPop_cons(1,2) [of 4 q x xs "fst (HallPop 4 q)" "snd (HallPop 4 q)"] by (metis prod.collapse)
qed

lemma queue_init: "k \<le> 31 \<Longrightarrow> queue_invar k (HallEventQueue_init k)" "queue_contents (HallEventQueue_init k) = []"
  by (simp_all add: queue_invar_def queue_contents_def queue_length_def HallEventQueue_init_def)

section \<open>Interleaving of the edge interrupt and the observer\<close>

text \<open>
  \<open>Push\<close> and \<open>Pop\<close> may preempt each other at any point. A state of the interleaved system is the
  shared queue, the position of either side inside its operation with the values it has loaded, and
  two ghost lists: the events whose publication (the store to \<open>head_\<close>) has happened and the events
  that have left the queue (the store to \<open>tail_\<close>). One rule is one access to shared memory; the
  acquire and release orderings of the sources make these accesses sequentially consistent.
\<close>

datatype producer = PIdle | PHead HallEvent u32 | PWrite HallEvent u32 | PPublish HallEvent u32

datatype consumer = CIdle | CTail u32 | CRead u32 | CCommit u32 HallEvent | CClear u32

record spsc =
  shared :: HallEventQueue
  prod :: producer
  cons :: consumer
  published :: "HallEvent list"
  consumed :: "HallEvent list"

definition spsc_init :: "nat \<Rightarrow> spsc" where
  "spsc_init k = \<lparr>shared = HallEventQueue_init k, prod = PIdle, cons = CIdle, published = [], consumed = []\<rparr>"

inductive spsc_step :: "nat \<Rightarrow> spsc \<Rightarrow> spsc \<Rightarrow> bool" for k where
  push_load_head: "prod s = PIdle \<Longrightarrow>
    spsc_step k s (s\<lparr>shared := shared s\<lparr>hq_latest_code := he_code e\<rparr>, prod := PHead e (hq_head (shared s))\<rparr>)"
| push_full: "prod s = PHead e h \<Longrightarrow> 2 ^ k \<le> unat (h - hq_tail (shared s)) \<Longrightarrow>
    spsc_step k s (s\<lparr>shared := shared s\<lparr>hq_overflows := hq_overflows (shared s) + 1\<rparr>, prod := PIdle\<rparr>)"
| push_room: "prod s = PHead e h \<Longrightarrow> unat (h - hq_tail (shared s)) < 2 ^ k \<Longrightarrow>
    spsc_step k s (s\<lparr>prod := PWrite e h\<rparr>)"
| push_write: "prod s = PWrite e h \<Longrightarrow>
    spsc_step k s (s\<lparr>shared := shared s\<lparr>hq_events := (hq_events (shared s))[slot k h := e]\<rparr>, prod := PPublish e h\<rparr>)"
| push_publish: "prod s = PPublish e h \<Longrightarrow>
    spsc_step k s (s\<lparr>shared := shared s\<lparr>hq_head := h + 1\<rparr>, prod := PIdle, published := published s @ [e]\<rparr>)"
| pop_load_tail: "cons s = CIdle \<Longrightarrow> spsc_step k s (s\<lparr>cons := CTail (hq_tail (shared s))\<rparr>)"
| pop_empty: "cons s = CTail t \<Longrightarrow> hq_head (shared s) = t \<Longrightarrow> spsc_step k s (s\<lparr>cons := CIdle\<rparr>)"
| pop_some: "cons s = CTail t \<Longrightarrow> hq_head (shared s) \<noteq> t \<Longrightarrow> spsc_step k s (s\<lparr>cons := CRead t\<rparr>)"
| pop_read: "cons s = CRead t \<Longrightarrow>
    spsc_step k s (s\<lparr>cons := CCommit t (hq_events (shared s) ! slot k t)\<rparr>)"
| pop_commit: "cons s = CCommit t e \<Longrightarrow>
    spsc_step k s (s\<lparr>shared := shared s\<lparr>hq_tail := t + 1\<rparr>, cons := CIdle, consumed := consumed s @ [e]\<rparr>)"
| clear_load: "cons s = CIdle \<Longrightarrow> spsc_step k s (s\<lparr>cons := CClear (hq_head (shared s))\<rparr>)"
| clear_store: "cons s = CClear h \<Longrightarrow>
    spsc_step k s (s\<lparr>shared := shared s\<lparr>hq_tail := h\<rparr>, cons := CIdle,
      consumed := consumed s @ take (unat (h - hq_tail (shared s))) (queue_contents (shared s))\<rparr>)"

inductive_simps spsc_step_simps: "spsc_step k s t"

inductive spsc_reachable :: "nat \<Rightarrow> spsc \<Rightarrow> bool" for k where
  start: "spsc_reachable k (spsc_init k)"
| step: "spsc_reachable k s \<Longrightarrow> spsc_step k s t \<Longrightarrow> spsc_reachable k t"

text \<open>What each side knows at each point of its operation, whatever the other side has done since.\<close>

definition prod_ok :: "nat \<Rightarrow> spsc \<Rightarrow> bool" where
  "prod_ok k s \<longleftrightarrow> (case prod s of
      PIdle \<Rightarrow> True
    | PHead e h \<Rightarrow> h = hq_head (shared s)
    | PWrite e h \<Rightarrow> h = hq_head (shared s) \<and> queue_length (shared s) < 2 ^ k
    | PPublish e h \<Rightarrow> h = hq_head (shared s) \<and> queue_length (shared s) < 2 ^ k \<and> hq_events (shared s) ! slot k h = e)"

definition cons_ok :: "nat \<Rightarrow> spsc \<Rightarrow> bool" where
  "cons_ok k s \<longleftrightarrow> (case cons s of
      CIdle \<Rightarrow> True
    | CTail t \<Rightarrow> t = hq_tail (shared s)
    | CRead t \<Rightarrow> t = hq_tail (shared s) \<and> hq_head (shared s) \<noteq> t
    | CCommit t e \<Rightarrow> t = hq_tail (shared s) \<and> hq_head (shared s) \<noteq> t \<and> e = hq_events (shared s) ! slot k t
    | CClear h \<Rightarrow> unat (h - hq_tail (shared s)) \<le> queue_length (shared s))"

definition spsc_inv :: "nat \<Rightarrow> spsc \<Rightarrow> bool" where
  "spsc_inv k s \<longleftrightarrow> queue_invar k (shared s) \<and> prod_ok k s \<and> cons_ok k s \<and>
     published s = consumed s @ queue_contents (shared s)"

lemmas spsc_defs = spsc_inv_def prod_ok_def cons_ok_def

lemma advance_tail:
  assumes "queue_invar k q" "unat (h - hq_tail q) \<le> queue_length q"
  shows "queue_length (q\<lparr>hq_tail := h\<rparr>) = queue_length q - unat (h - hq_tail q)"
    "queue_contents (q\<lparr>hq_tail := h\<rparr>) = drop (unat (h - hq_tail q)) (queue_contents q)"
    "queue_invar k (q\<lparr>hq_tail := h\<rparr>)"
proof -
  let ?t = "hq_tail q" and ?m = "unat (h - hq_tail q)" and ?r = "q\<lparr>hq_tail := h\<rparr>"
  have k: "k \<le> 31" and N: "length (hq_events q) = 2 ^ k" using assms(1) by (simp_all add: queue_invar_def)
  have d: "hq_head q - h = (hq_head q - ?t) - (h - ?t)" by simp
  have "h - ?t \<le> hq_head q - ?t" using assms(2) by (simp add: word_le_nat_alt queue_length_def)
  then have "unat (hq_head q - h) = queue_length q - ?m" unfolding d queue_length_def by (rule unat_sub)
  then show l: "queue_length ?r = queue_length q - ?m" by (simp add: queue_length_def)
  have "unat h mod 2 ^ k = (unat ?t + ?m) mod 2 ^ k"
    using slot_head [of k h ?t] slot_mod [of k h] k by simp
  then have "queue_contents ?r = ring_list (hq_events q) (unat ?t + ?m) (queue_length q - ?m)"
    using l N by (simp add: queue_contents_def) (rule ring_list_start_mod, simp)
  also have "\<dots> = drop ?m (ring_list (hq_events q) (unat ?t) (?m + (queue_length q - ?m)))"
    by (simp only: ring_list_split) simp
  finally show "queue_contents ?r = drop ?m (queue_contents q)"
    using assms(2) by (simp add: queue_contents_def)
  show "queue_invar k ?r" using assms(1) l by (auto simp: queue_invar_def)
qed

lemma queue_contents_cons:
  assumes "queue_invar k q" "hq_head q \<noteq> hq_tail q"
  shows "queue_contents q = hq_events q ! slot k (hq_tail q) # drop 1 (queue_contents q)"
proof -
  have "queue_length q = Suc (unat (hq_head q - (hq_tail q + 1)))"
    using unat_diff_pred [OF assms(2)] by (simp add: queue_length_def)
  then show ?thesis using assms(1) by (simp add: queue_contents_def ring_list_Suc queue_invar_def slot_mod)
qed

lemma queue_invar_frame [simp]:
  "queue_invar k (q\<lparr>hq_latest_code := c\<rparr>) = queue_invar k q" "queue_invar k (q\<lparr>hq_overflows := n\<rparr>) = queue_invar k q"
  "queue_contents (q\<lparr>hq_latest_code := c\<rparr>) = queue_contents q" "queue_contents (q\<lparr>hq_overflows := n\<rparr>) = queue_contents q"
  "queue_length (q\<lparr>hq_latest_code := c\<rparr>) = queue_length q" "queue_length (q\<lparr>hq_overflows := n\<rparr>) = queue_length q"
  "queue_length (q\<lparr>hq_events := es\<rparr>) = queue_length q"
  by (simp_all add: queue_invar_def queue_contents_def queue_length_def)

text \<open>Writing the slot at \<open>head_\<close> of a queue with room touches no queued event.\<close>

lemma write_slot:
  assumes "queue_invar k q" "queue_length q < 2 ^ k"
  shows "queue_contents (q\<lparr>hq_events := (hq_events q)[slot k (hq_head q) := e]\<rparr>) = queue_contents q"
    "queue_invar k (q\<lparr>hq_events := (hq_events q)[slot k (hq_head q) := e]\<rparr>)"
    "(hq_events q)[slot k (hq_head q) := e] ! slot k (hq_head q) = e"
    "hq_head q \<noteq> hq_tail q \<Longrightarrow>
       (hq_events q)[slot k (hq_head q) := e] ! slot k (hq_tail q) = hq_events q ! slot k (hq_tail q)"
proof -
  have k: "k \<le> 32" and N: "length (hq_events q) = 2 ^ k" using assms(1) by (simp_all add: queue_invar_def)
  have s: "slot k (hq_head q) = (unat (hq_tail q) + queue_length q) mod length (hq_events q)"
    using slot_head [OF k] N by (simp add: queue_length_def)
  show "queue_contents (q\<lparr>hq_events := (hq_events q)[slot k (hq_head q) := e]\<rparr>) = queue_contents q"
    using ring_list_write(1) [of "queue_length q" "hq_events q" "unat (hq_tail q)" e] assms(2) N s
    by (simp add: queue_contents_def)
  show "queue_invar k (q\<lparr>hq_events := (hq_events q)[slot k (hq_head q) := e]\<rparr>)"
    using assms(1) by (simp add: queue_invar_def)
  have "slot k (hq_head q) < 2 ^ k" using k by (simp add: slot_mod)
  then show "(hq_events q)[slot k (hq_head q) := e] ! slot k (hq_head q) = e" using N by simp
  show "(hq_events q)[slot k (hq_head q) := e] ! slot k (hq_tail q) = hq_events q ! slot k (hq_tail q)"
    if "hq_head q \<noteq> hq_tail q"
  proof -
    have "0 < queue_length q" using that by (simp add: queue_length_def unsigned_eq_0_iff zero_less_iff_neq_zero)
    then have "slot k (hq_tail q) \<noteq> slot k (hq_head q)"
      using ring_index_neq [of 0 "queue_length q" "2 ^ k" "unat (hq_tail q)"] assms(2) s N k by (simp add: slot_mod)
    then show ?thesis by simp
  qed
qed

lemma publish_head:
  assumes "queue_invar k q" "queue_length q < 2 ^ k"
  shows "queue_length (q\<lparr>hq_head := hq_head q + 1\<rparr>) = Suc (queue_length q)"
    "queue_contents (q\<lparr>hq_head := hq_head q + 1\<rparr>) = queue_contents q @ [hq_events q ! slot k (hq_head q)]"
    "queue_invar k (q\<lparr>hq_head := hq_head q + 1\<rparr>)"
proof -
  have k: "k \<le> 31" and N: "length (hq_events q) = 2 ^ k" using assms(1) by (simp_all add: queue_invar_def)
  show l: "queue_length (q\<lparr>hq_head := hq_head q + 1\<rparr>) = Suc (queue_length q)"
    using assms(2) power_le_31 [OF k] by (simp add: queue_length_def unat_diff_Suc)
  have "slot k (hq_head q) = (unat (hq_tail q) + queue_length q) mod length (hq_events q)"
    using slot_head [of k] N k by (simp add: queue_length_def)
  then show "queue_contents (q\<lparr>hq_head := hq_head q + 1\<rparr>) = queue_contents q @ [hq_events q ! slot k (hq_head q)]"
    using l by (simp add: queue_contents_def ring_list_def)
  show "queue_invar k (q\<lparr>hq_head := hq_head q + 1\<rparr>)" using assms l N by (simp add: queue_invar_def)
qed

lemma spsc_inv_init: "k \<le> 31 \<Longrightarrow> spsc_inv k (spsc_init k)"
  by (simp add: spsc_defs spsc_init_def queue_init)

text \<open>Every access of either side keeps the invariant; the two sides are split for the proof.\<close>

lemma spsc_inv_step:
  assumes "spsc_step k s t" "spsc_inv k s"
  shows "spsc_inv k t"
  using assms
proof (induction rule: spsc_step.induct)
  case (push_write s e h)
  then have "h = hq_head (shared s)" "queue_length (shared s) < 2 ^ k" "queue_invar k (shared s)"
    by (auto simp: spsc_defs)
  note w = write_slot [OF this(3,2), of e]
  show ?case using push_write w \<open>h = _\<close> by (auto simp: spsc_defs split: consumer.splits)
next
  case (push_publish s e h)
  then have h: "h = hq_head (shared s)" "hq_events (shared s) ! slot k h = e"
    and q: "queue_length (shared s) < 2 ^ k" "queue_invar k (shared s)"
    by (auto simp: spsc_defs)
  note p = publish_head [OF q(2,1)]
  have "hq_head (shared s) + 1 \<noteq> hq_tail (shared s)"
    using p(1) by (auto simp: queue_length_def)
  then show ?case using push_publish h p by (auto simp: spsc_defs split: consumer.splits)
next
  case (pop_commit s t e)
  then have t: "t = hq_tail (shared s)" "hq_head (shared s) \<noteq> hq_tail (shared s)"
    and q: "queue_invar k (shared s)" by (auto simp: spsc_defs)
  have "unat (t + 1 - hq_tail (shared s)) \<le> queue_length (shared s)"
    using unat_diff_pred [OF t(2)] t(1) by (simp add: queue_length_def)
  note a = advance_tail [OF q this]
  show ?case
    using pop_commit t a queue_contents_cons [OF q t(2)]
    by (auto simp: spsc_defs split: producer.splits)
next
  case (clear_store s h)
  then have q: "queue_invar k (shared s)" and h: "unat (h - hq_tail (shared s)) \<le> queue_length (shared s)"
    by (auto simp: spsc_defs)
  note a = advance_tail [OF q h]
  show ?case using clear_store a by (auto simp: spsc_defs split: producer.splits)
qed (auto simp: spsc_defs queue_length_def split: consumer.splits producer.splits)

lemma spsc_reachable_inv: "spsc_reachable k s \<Longrightarrow> k \<le> 31 \<Longrightarrow> spsc_inv k s"
  by (induction rule: spsc_reachable.induct) (auto intro: spsc_inv_init spsc_inv_step)

section \<open>Properties\<close>

text \<open>
  C10. However the edge interrupt and the observer interleave, the events that have left the queue are
  exactly the first ones that were published, in order; the rest are in the queue, and there are at
  most \<open>N\<close> of them. No event is lost, duplicated, torn or reordered.
\<close>

theorem hall_queue_interleaved_fifo:
  assumes "spsc_reachable k s" "k \<le> 31"
  shows "published s = consumed s @ queue_contents (shared s) \<and> length (queue_contents (shared s)) \<le> 2 ^ k"
  using spsc_reachable_inv [OF assms] by (simp add: spsc_inv_def queue_invar_def queue_contents_def)

definition pushed_once :: "HallEvent \<Rightarrow> spsc" where
  "pushed_once e = (let q = HallEventQueue_init 4 in
     \<lparr>shared = q\<lparr>hq_latest_code := he_code e, hq_events := (hq_events q)[0 := e], hq_head := 1\<rparr>,
      prod = PIdle, cons = CIdle, published = [e], consumed = []\<rparr>)"

lemma pushed_once_reachable: "spsc_reachable 4 (pushed_once e)"
proof -
  let ?q = "HallEventQueue_init 4"
  let ?s1 = "(spsc_init 4)\<lparr>shared := ?q\<lparr>hq_latest_code := he_code e\<rparr>, prod := PHead e 0\<rparr>"
  have "spsc_step 4 (spsc_init 4) ?s1"
    using spsc_step.push_load_head [of "spsc_init 4" 4 e] by (simp add: spsc_init_def HallEventQueue_init_def)
  moreover have "spsc_step 4 ?s1 (?s1\<lparr>prod := PWrite e 0\<rparr>)"
    by (rule spsc_step.push_room) (simp_all add: HallEventQueue_init_def)
  moreover have "spsc_step 4 (?s1\<lparr>prod := PWrite e 0\<rparr>)
      (?s1\<lparr>shared := ?q\<lparr>hq_latest_code := he_code e, hq_events := (hq_events ?q)[0 := e]\<rparr>, prod := PPublish e 0\<rparr>)"
    using spsc_step.push_write [of "?s1\<lparr>prod := PWrite e 0\<rparr>" e 0 4] by (simp add: slot_mod)
  moreover have "spsc_step 4
      (?s1\<lparr>shared := ?q\<lparr>hq_latest_code := he_code e, hq_events := (hq_events ?q)[0 := e]\<rparr>, prod := PPublish e 0\<rparr>)
      (pushed_once e)"
    using spsc_step.push_publish [of "?s1\<lparr>shared := ?q\<lparr>hq_latest_code := he_code e, hq_events := (hq_events ?q)[0 := e]\<rparr>,
      prod := PPublish e 0\<rparr>" e 0 4] by (simp add: pushed_once_def Let_def spsc_init_def)
  ultimately show ?thesis by (meson spsc_reachable.intros)
qed

theorem hall_queue_interleaved_fifo_witness:
  "published (pushed_once \<lparr>he_code = 5, he_timestamp = 7\<rparr>) = [\<lparr>he_code = 5, he_timestamp = 7\<rparr>] \<and>
   length (queue_contents (shared (pushed_once \<lparr>he_code = 5, he_timestamp = 7\<rparr>))) \<le> 16"
  using hall_queue_interleaved_fifo [OF pushed_once_reachable, of "\<lparr>he_code = 5, he_timestamp = 7\<rparr>"]
  by (simp add: pushed_once_def Let_def)

text \<open>
  A push on a full queue is refused and counted; the queued events stay as they are, and the
  newest code is still visible through \<open>LatestCode\<close>.
\<close>

theorem hall_push_full:
  assumes "queue_invar k q" "length (queue_contents q) = 2 ^ k"
  shows "fst (HallPush k e q) = False \<and> queue_contents (snd (HallPush k e q)) = queue_contents q \<and>
    Overflows (snd (HallPush k e q)) = Overflows q + 1 \<and> LatestCode (snd (HallPush k e q)) = he_code e"
  using HallPush_full [OF assms(1)] assms(2)
  by (simp add: Overflows_def LatestCode_def queue_contents_def queue_length_def)

definition full_queue :: HallEventQueue where
  "full_queue = (HallEventQueue_init 1)\<lparr>hq_head := 1, hq_tail := - 1\<rparr>"

theorem hall_push_full_witness:
  "fst (HallPush 1 \<lparr>he_code = 3, he_timestamp = 9\<rparr> full_queue) = False \<and>
   LatestCode (snd (HallPush 1 \<lparr>he_code = 3, he_timestamp = 9\<rparr> full_queue)) = 3"
proof -
  have "queue_invar 1 full_queue" "length (queue_contents full_queue) = 2 ^ 1"
    by (simp_all add: full_queue_def HallEventQueue_init_def queue_invar_def queue_contents_def queue_length_def)
  from hall_push_full [OF this, of "\<lparr>he_code = 3, he_timestamp = 9\<rparr>"] show ?thesis by simp
qed

end
