(* ===== verification/Float32.thy ===== *)
theory Float32
  imports Prelude "HOL-Library.Log_Nat"
begin

text \<open>
  The type \<open>float\<close> of the sources: IEEE 754 binary32 with the rounding mode round-to-nearest, ties to
  even, which the targets use and no source changes. A finite number is a rational; an operation
  computes the exact result and rounds it. The comparisons follow the language (NaN is unordered,
  both zeros are equal), so HOL equality on \<open>f32\<close> is not the operator \<open>==\<close>, which is \<open>feq\<close>. Every
  operation of the sources is one rounding: no contraction into fused multiply-adds and no excess
  precision. The second half of the theory proves that rounding is monotone and exact on the values
  of the format, which carries every bound of the later theories.
\<close>

section \<open>Rounding to 24 significant bits\<close>

definition pow2 :: "int \<Rightarrow> rat" where
  "pow2 e = (if 0 \<le> e then 2 ^ nat e else 1 / 2 ^ nat (- e))"

definition ilog2 :: "rat \<Rightarrow> int" where
  "ilog2 q = (let (n, d) = quotient_of q; e = bitlen n - bitlen d
              in if pow2 e \<le> q then e else e - 1)"

definition round_even :: "rat \<Rightarrow> int" where
  "round_even q = (let n = \<lfloor>q\<rfloor>; r = q - of_int n
     in if r < 1 / 2 then n else if 1 / 2 < r then n + 1 else if even n then n else n + 1)"

definition ulp_exp :: "rat \<Rightarrow> int" where
  "ulp_exp q = max (- 149) (ilog2 \<bar>q\<bar> - 23)"

definition rnd :: "rat \<Rightarrow> rat" where
  "rnd q = (if q = 0 then 0 else of_int (round_even (q / pow2 (ulp_exp q))) * pow2 (ulp_exp q))"

subsection \<open>Powers of two\<close>

lemma pow2_pos [simp]: "0 < pow2 e" "0 \<le> pow2 e" "pow2 e \<noteq> 0"
  by (simp_all add: pow2_def)

lemma pow2_powi: "pow2 e = 2 powi e"
  by (simp add: pow2_def power_int_def inverse_eq_divide power_one_over)

lemma pow2_add: "pow2 (a + b) = pow2 a * pow2 b"
  by (simp add: pow2_powi power_int_add)

lemma pow2_0 [simp]: "pow2 0 = 1"
  by (simp add: pow2_def)

lemma pow2_Suc: "pow2 (e + 1) = 2 * pow2 e"
  by (simp add: pow2_add pow2_def [of 1])

lemma pow2_less: "a < b \<Longrightarrow> pow2 a < pow2 b"
  by (simp add: pow2_powi power_int_strict_increasing)

lemma pow2_less_iff [simp]: "pow2 a < pow2 b \<longleftrightarrow> a < b"
  using pow2_less [of a b] pow2_less [of b a] by (cases a b rule: linorder_cases) auto

lemma pow2_le_iff [simp]: "pow2 a \<le> pow2 b \<longleftrightarrow> a \<le> b"
  by (metis linorder_not_le pow2_less_iff)

lemma pow2_nat: "0 \<le> e \<Longrightarrow> pow2 e = of_int (2 ^ nat e)"
  by (simp add: pow2_def)

lemma pow2_diff: "pow2 (a - b) = pow2 a / pow2 b"
  by (simp add: pow2_powi power_int_diff)

subsection \<open>The binary exponent\<close>

lemma bitlen_pow2:
  assumes "0 < n"
  shows "pow2 (bitlen n - 1) \<le> of_int n" "of_int n < pow2 (bitlen n)"
proof -
  have b: "1 \<le> bitlen n"
    using assms bitlen_nonneg [of n] bitlen_eq_zero_iff [of n] by linarith
  have "of_int (2 ^ nat (bitlen n - 1)) \<le> (of_int n :: rat)" "of_int n < (of_int (2 ^ nat (bitlen n)) :: rat)"
    using bitlen_bounds [OF assms] by (simp_all only: of_int_le_iff of_int_less_iff)
  then show "pow2 (bitlen n - 1) \<le> of_int n" "of_int n < pow2 (bitlen n)"
    using b by (simp_all add: pow2_nat)
qed

lemma ilog2_bounds:
  assumes "0 < q"
  shows "pow2 (ilog2 q) \<le> q" "q < pow2 (ilog2 q + 1)"
proof -
  obtain n d where nd: "quotient_of q = (n, d)" by fastforce
  have d: "0 < d" using quotient_of_denom_pos [OF nd] .
  have q: "q = of_int n / of_int d" using quotient_of_div [OF nd] .
  have n: "0 < n" using assms d unfolding q by (simp add: zero_less_divide_iff)
  let ?e = "bitlen n - bitlen d"
  have "of_int n < pow2 (bitlen n)" "pow2 (bitlen d - 1) \<le> of_int d"
    using bitlen_pow2 n d by blast+
  then have "of_int n / of_int d < pow2 (bitlen n) / pow2 (bitlen d - 1)"
    using d n by (intro frac_less) auto
  then have up: "q < pow2 (?e + 1)"
    by (simp add: q pow2_diff [symmetric] algebra_simps)
  have "pow2 (bitlen n - 1) \<le> of_int n" "of_int d < pow2 (bitlen d)"
    using bitlen_pow2 n d by blast+
  then have "pow2 (bitlen n - 1) / pow2 (bitlen d) \<le> of_int n / of_int d"
    using d n by (intro frac_le) auto
  then have lo: "pow2 (?e - 1) \<le> q"
    by (simp add: q pow2_diff [symmetric] algebra_simps)
  have e: "ilog2 q = (if pow2 ?e \<le> q then ?e else ?e - 1)"
    by (simp add: ilog2_def nd Let_def)
  show "pow2 (ilog2 q) \<le> q" "q < pow2 (ilog2 q + 1)"
    using up lo by (simp_all add: e)
qed

lemma ilog2_unique:
  assumes "pow2 e \<le> q" "q < pow2 (e + 1)"
  shows "ilog2 q = e"
proof -
  have "0 < q" using assms(1) pow2_pos(1) [of e] by linarith
  note b = ilog2_bounds [OF this]
  have "pow2 (ilog2 q) < pow2 (e + 1)" "pow2 e < pow2 (ilog2 q + 1)"
    using b assms by linarith+
  then show ?thesis by simp
qed

lemma ilog2_mono: "0 < q \<Longrightarrow> q \<le> r \<Longrightarrow> ilog2 q \<le> ilog2 r"
proof -
  assume "0 < q" "q \<le> r"
  then have "pow2 (ilog2 q) < pow2 (ilog2 r + 1)"
    using ilog2_bounds(1) [of q] ilog2_bounds(2) [of r] by linarith
  then show ?thesis by simp
qed

subsection \<open>Rounding to the nearest integer, ties to even\<close>

lemma round_even_bounds: "\<bar>q - of_int (round_even q)\<bar> \<le> 1 / 2"
proof -
  define n where "n = \<lfloor>q\<rfloor>"
  have n: "\<lfloor>q\<rfloor> = n" "of_int n \<le> q" "q < of_int n + 1"
    using floor_correct [of q] by (simp_all only: n_def of_int_add of_int_1)
  have "round_even q = n \<and> q - of_int n \<le> 1 / 2 \<or> round_even q = n + 1 \<and> 1 / 2 \<le> q - of_int n"
    unfolding round_even_def Let_def n(1) by (simp only: split: if_split) linarith
  then show ?thesis
  proof (elim disjE conjE)
    assume "round_even q = n" "q - of_int n \<le> 1 / 2"
    then show ?thesis using n(2) by (intro abs_leI) simp_all
  next
    assume "round_even q = n + 1" "1 / 2 \<le> q - of_int n"
    then show ?thesis using n(3) by (intro abs_leI) simp_all
  qed
qed

lemma round_even_of_int [simp]: "round_even (of_int n) = n"
  by (simp add: round_even_def)

lemma round_even_mono: "q \<le> r \<Longrightarrow> round_even q \<le> round_even r"
proof -
  assume le: "q \<le> r"
  have fl: "\<lfloor>q\<rfloor> \<le> \<lfloor>r\<rfloor>" using le by (rule floor_mono)
  show ?thesis
  proof (cases "\<lfloor>q\<rfloor> = \<lfloor>r\<rfloor>")
    case True
    then show ?thesis using le by (auto simp: round_even_def Let_def)
  next
    case False
    then have "\<lfloor>q\<rfloor> + 1 \<le> \<lfloor>r\<rfloor>" using fl by linarith
    then show ?thesis by (auto simp: round_even_def Let_def)
  qed
qed

lemma round_even_minus: "round_even (- q) = - round_even q"
proof (cases "q = of_int \<lfloor>q\<rfloor>")
  case True
  then have "- q = of_int (- \<lfloor>q\<rfloor>)" by simp
  then show ?thesis by (metis True round_even_of_int)
next
  case False
  let ?n = "\<lfloor>q\<rfloor>"
  have b: "of_int ?n < q" "q < of_int ?n + 1"
    using floor_correct [of q] False by linarith+
  then have fl: "\<lfloor>- q\<rfloor> = - ?n - 1"
    by (intro floor_unique) (auto simp: algebra_simps)
  show ?thesis
    using b by (auto simp: round_even_def Let_def fl)
qed

subsection \<open>Rounding to 24 significant bits: sign, monotonicity, exactness\<close>

lemma rnd_0 [simp]: "rnd 0 = 0"
  by (simp add: rnd_def)

lemma rnd_minus [simp]: "rnd (- q) = - rnd q"
  by (simp add: rnd_def ulp_exp_def round_even_minus)

lemma rnd_nonneg: "0 \<le> q \<Longrightarrow> 0 \<le> rnd q"
proof -
  assume "0 \<le> q"
  then have "round_even 0 \<le> round_even (q / pow2 (ulp_exp q))"
    by (intro round_even_mono) simp
  then show ?thesis
    using round_even_of_int [of 0] by (simp add: rnd_def)
qed

lemma round_even_le: "q \<le> of_int n \<Longrightarrow> round_even q \<le> n"
  using round_even_mono [of q "of_int n"] by simp

lemma round_even_ge: "of_int n \<le> q \<Longrightarrow> n \<le> round_even q"
  using round_even_mono [of "of_int n" q] by simp

text \<open>A power of two that is not below the unit in the last place is a multiple of it.\<close>

lemma pow2_multiple: "k \<le> e \<Longrightarrow> \<exists>n. pow2 e / pow2 k = of_int n"
  by (metis diff_ge_0_iff_ge pow2_diff pow2_nat)

lemma rnd_le_pow2:
  assumes "0 < q" "q \<le> pow2 e" "ulp_exp q \<le> e"
  shows "rnd q \<le> pow2 e"
proof -
  obtain n where n: "pow2 e / pow2 (ulp_exp q) = of_int n"
    using pow2_multiple [OF assms(3)] by blast
  have "q / pow2 (ulp_exp q) \<le> of_int n"
    using assms(2) by (simp flip: n add: divide_right_mono)
  then have "round_even (q / pow2 (ulp_exp q)) \<le> n" by (rule round_even_le)
  then have "of_int (round_even (q / pow2 (ulp_exp q))) * pow2 (ulp_exp q) \<le> of_int n * pow2 (ulp_exp q)"
    by (intro mult_right_mono) simp_all
  then show ?thesis using assms(1) by (simp add: rnd_def flip: n)
qed

lemma rnd_ge_pow2:
  assumes "pow2 e \<le> q" "ulp_exp q \<le> e"
  shows "pow2 e \<le> rnd q"
proof -
  obtain n where n: "pow2 e / pow2 (ulp_exp q) = of_int n"
    using pow2_multiple [OF assms(2)] by blast
  have "of_int n \<le> q / pow2 (ulp_exp q)"
    using assms(1) by (simp flip: n add: divide_right_mono)
  then have "n \<le> round_even (q / pow2 (ulp_exp q))" by (rule round_even_ge)
  then have "of_int n * pow2 (ulp_exp q) \<le> of_int (round_even (q / pow2 (ulp_exp q))) * pow2 (ulp_exp q)"
    by (intro mult_right_mono) simp_all
  then show ?thesis using assms(1) pow2_pos(1) [of e] by (auto simp: rnd_def simp flip: n)
qed

lemma rnd_mono_pos:
  assumes "0 < q" "q \<le> r"
  shows "rnd q \<le> rnd r"
proof (cases "ulp_exp q = ulp_exp r")
  case True
  have "round_even (q / pow2 (ulp_exp r)) \<le> round_even (r / pow2 (ulp_exp r))"
    using assms by (intro round_even_mono divide_right_mono) simp_all
  then show ?thesis using assms True by (simp add: rnd_def mult_right_mono)
next
  case False
  then have lt: "ilog2 q < ilog2 r" and ur: "ulp_exp r = ilog2 r - 23"
    and uq: "ulp_exp q \<le> ilog2 r"
    using ilog2_mono [OF assms] assms by (auto simp: ulp_exp_def max_def split: if_splits)
  have "q < pow2 (ilog2 q + 1)" using ilog2_bounds(2) assms(1) .
  also have "\<dots> \<le> pow2 (ilog2 r)" using lt by simp
  finally have "rnd q \<le> pow2 (ilog2 r)"
    using assms(1) uq by (intro rnd_le_pow2) simp_all
  also have "\<dots> \<le> rnd r"
    using ilog2_bounds(1) [of r] assms ur by (intro rnd_ge_pow2) simp_all
  finally show ?thesis .
qed

theorem rnd_mono: "q \<le> r \<Longrightarrow> rnd q \<le> rnd r"
proof -
  assume le: "q \<le> r"
  consider "0 < q" | "q \<le> 0" "0 \<le> r" | "r < 0" using le by linarith
  then show ?thesis
  proof cases
    case 1
    then show ?thesis using le by (rule rnd_mono_pos)
  next
    case 2
    then show ?thesis using rnd_nonneg [of r] rnd_nonneg [of "- q"] by simp
  next
    case 3
    then show ?thesis using rnd_mono_pos [of "- r" "- q"] le by simp
  qed
qed

text \<open>The values of the format: at most 24 significant bits, least exponent \<open>-149\<close>.\<close>

definition representable :: "rat \<Rightarrow> bool" where
  "representable q \<longleftrightarrow> (\<exists>m k. q = of_int m * pow2 k \<and> \<bar>m\<bar> \<le> 2 ^ 24 \<and> - 149 \<le> k)"

lemma representable_multiple:
  assumes "representable q" "q \<noteq> 0"
  shows "\<exists>n. q / pow2 (ulp_exp q) = of_int n"
proof -
  obtain m k where q: "q = of_int m * pow2 k" and m: "\<bar>m\<bar> \<le> 2 ^ 24" and k: "- 149 \<le> k"
    using assms(1) by (auto simp: representable_def)
  show ?thesis
  proof (cases "ulp_exp q \<le> k")
    case True
    then obtain n where "pow2 k / pow2 (ulp_exp q) = of_int n" using pow2_multiple by blast
    then have "q / pow2 (ulp_exp q) = of_int (m * n)" by (metis of_int_mult q times_divide_eq_right)
    then show ?thesis by blast
  next
    case False
    then have u: "ulp_exp q = ilog2 \<bar>q\<bar> - 23" and lt: "k < ulp_exp q"
      using k by (auto simp: ulp_exp_def max_def split: if_splits)
    have "pow2 (k + 24) \<le> pow2 (ilog2 \<bar>q\<bar>)" using u lt by simp
    also have "\<dots> \<le> \<bar>q\<bar>" using ilog2_bounds(1) assms(2) by simp
    also have "\<bar>q\<bar> = of_int \<bar>m\<bar> * pow2 k" by (simp add: q abs_mult)
    finally have "pow2 24 \<le> of_int \<bar>m\<bar>" by (simp add: pow2_add)
    then have "(of_int (2 ^ 24) :: rat) \<le> of_int \<bar>m\<bar>" by (simp add: pow2_def)
    then have m24: "\<bar>m\<bar> = 2 ^ 24" using m by (simp only: of_int_le_iff)
    then have "\<bar>q\<bar> = pow2 (k + 24)" by (simp add: q abs_mult pow2_add pow2_def [of 24])
    then have "ilog2 \<bar>q\<bar> = k + 24" by (intro ilog2_unique) simp_all
    then have "ulp_exp q = k + 1" using u by simp
    then have "q / pow2 (ulp_exp q) = of_int m / 2" by (simp add: q pow2_Suc)
    also have "\<dots> = of_int (sgn m * 2 ^ 23)" using m24 by (auto simp: abs_if sgn_if split: if_splits)
    finally show ?thesis by blast
  qed
qed

theorem rnd_representable: "representable q \<Longrightarrow> rnd q = q"
proof (cases "q = 0")
  case False
  assume "representable q"
  then obtain n where n: "q / pow2 (ulp_exp q) = of_int n"
    using representable_multiple False by blast
  then have "rnd q = of_int n * pow2 (ulp_exp q)" using False by (simp add: rnd_def)
  also have "\<dots> = q" by (simp flip: n)
  finally show ?thesis .
qed simp

lemma rnd_error: "\<bar>rnd q - q\<bar> \<le> pow2 (ulp_exp q - 1)"
proof (cases "q = 0")
  case False
  let ?u = "pow2 (ulp_exp q)"
  let ?x = "q / ?u"
  have "rnd q - q = (of_int (round_even ?x) - ?x) * ?u" using False by (simp add: rnd_def algebra_simps)
  then have "\<bar>rnd q - q\<bar> = \<bar>?x - of_int (round_even ?x)\<bar> * ?u" by (simp add: abs_mult abs_minus_commute)
  also have "\<dots> \<le> 1 / 2 * ?u" using round_even_bounds [of ?x] by (intro mult_right_mono) simp_all
  finally show ?thesis by (simp add: pow2_diff pow2_def [of 1])
qed simp

lemma ulp_exp_le: "\<bar>q\<bar> < pow2 e \<Longrightarrow> q \<noteq> 0 \<Longrightarrow> - 125 \<le> e \<Longrightarrow> ulp_exp q \<le> e - 24"
proof -
  assume "\<bar>q\<bar> < pow2 e" "q \<noteq> 0" "- 125 \<le> e"
  then have "pow2 (ilog2 \<bar>q\<bar>) < pow2 e" using ilog2_bounds(1) [of "\<bar>q\<bar>"] by (meson le_less_trans zero_less_abs_iff)
  then show ?thesis using \<open>- 125 \<le> e\<close> by (simp add: ulp_exp_def)
qed

text \<open>Below \<open>2 ^ e\<close> the rounding error is at most half a unit of that binade.\<close>

lemma rnd_error_below: "\<bar>q\<bar> < pow2 e \<Longrightarrow> - 125 \<le> e \<Longrightarrow> \<bar>rnd q - q\<bar> \<le> pow2 (e - 25)"
  using rnd_error [of q] ulp_exp_le [of q e] pow2_le_iff [of "ulp_exp q - 1" "e - 25"]
  by (cases "q = 0") (auto intro: order_trans)

lemma representable_pow2: "- 149 \<le> e \<Longrightarrow> representable (pow2 e)"
  unfolding representable_def by (rule exI [of _ 1]) auto

lemma rnd_abs_less_pow2: "\<bar>q\<bar> \<le> pow2 e \<Longrightarrow> - 149 \<le> e \<Longrightarrow> \<bar>rnd q\<bar> \<le> pow2 e"
  using rnd_mono [of q "pow2 e"] rnd_mono [of "- pow2 e" q]
  by (simp add: rnd_representable representable_pow2 abs_le_iff)

lemma rnd_between: "representable l \<Longrightarrow> representable u \<Longrightarrow> l \<le> q \<Longrightarrow> q \<le> u \<Longrightarrow> l \<le> rnd q \<and> rnd q \<le> u"
  using rnd_mono [of l q] rnd_mono [of q u] by (simp add: rnd_representable)

lemma representable_rnd: "representable (rnd q)"
proof (cases "q = 0")
  case True
  then show ?thesis unfolding representable_def by (intro exI [of _ 0]) auto
next
  case False
  let ?m = "round_even (q / pow2 (ulp_exp q))"
  have "\<bar>q\<bar> < pow2 (ilog2 \<bar>q\<bar> + 1)" using ilog2_bounds(2) False by simp
  also have "\<dots> \<le> pow2 (ulp_exp q + 24)" by (simp add: ulp_exp_def)
  finally have "\<bar>q / pow2 (ulp_exp q)\<bar> \<le> pow2 24" by (simp add: abs_mult pow2_add field_simps)
  then have "\<bar>q / pow2 (ulp_exp q)\<bar> \<le> of_int (2 ^ 24)" by (simp add: pow2_def [of 24])
  then have "q / pow2 (ulp_exp q) \<le> of_int (2 ^ 24)" "of_int (- (2 ^ 24)) \<le> q / pow2 (ulp_exp q)"
    unfolding abs_le_iff of_int_minus by linarith+
  then have "?m \<le> 2 ^ 24" "- (2 ^ 24) \<le> ?m"
    by (blast intro: round_even_le round_even_ge)+
  then have "\<bar>?m\<bar> \<le> 2 ^ 24" by linarith
  moreover have "rnd q = of_int ?m * pow2 (ulp_exp q)" using False by (simp add: rnd_def)
  moreover have "- 149 \<le> ulp_exp q" by (simp add: ulp_exp_def)
  ultimately show ?thesis unfolding representable_def by blast
qed

lemma rnd_idem [simp]: "rnd (rnd q) = rnd q"
  by (simp add: rnd_representable representable_rnd)

subsection \<open>Evaluation on dyadic literals\<close>

text \<open>
  Numerals and quotients of numerals whose denominator is a power of two are recognised
  syntactically, so that the simplifier evaluates the arithmetic of concrete runs.
\<close>

fun num_pow2 :: "num \<Rightarrow> nat option" where
  "num_pow2 num.One = Some 0"
| "num_pow2 (num.Bit0 n) = map_option Suc (num_pow2 n)"
| "num_pow2 (num.Bit1 n) = None"

lemma num_pow2_Some: "num_pow2 n = Some k \<Longrightarrow> numeral n = (2 :: rat) ^ k"
proof (induction n arbitrary: k)
  case (Bit0 n)
  then obtain j where j: "num_pow2 n = Some j" "k = Suc j" by auto
  have "numeral (num.Bit0 n) = 2 * (numeral n :: rat)" by (rule numeral_Bit0_eq_double)
  then show ?case using Bit0.IH [OF j(1)] j(2) by simp
qed auto

text \<open>The rounded value of a literal, from its exponent and its significand.\<close>

lemma rnd_eval:
  assumes "pow2 (k + 23) \<le> q" "q < pow2 (k + 24)" "- 149 \<le> k" "\<bar>q / pow2 k - of_int n\<bar> < 1 / 2"
  shows "rnd q = of_int n * pow2 k"
proof -
  have "0 < q" using assms(1) pow2_pos(1) [of "k + 23"] by linarith
  have "ilog2 q = k + 23"
    using assms(1,2) by (intro ilog2_unique) (simp_all add: add.assoc)
  then have k: "ulp_exp q = k"
    using \<open>0 < q\<close> assms(3) by (simp add: ulp_exp_def)
  have "round_even (q / pow2 k) = n"
  proof -
    have "\<bar>of_int (round_even (q / pow2 k)) - of_int n :: rat\<bar> < 1"
      using round_even_bounds [of "q / pow2 k"] assms(4) by linarith
    then show ?thesis by linarith
  qed
  with k \<open>0 < q\<close> show ?thesis by (simp add: rnd_def)
qed

lemma rnd_of_int: "\<bar>n\<bar> \<le> 2 ^ 24 \<Longrightarrow> rnd (of_int n) = of_int n"
  by (rule rnd_representable) (simp add: representable_def, rule exI [of _ n], rule exI [of _ "0 :: int"], simp)

lemma rnd_1 [simp, rnd_simps]: "rnd 1 = 1"
  using rnd_of_int [of 1] by simp

lemma rnd_numeral [simp, rnd_simps]: "(numeral n :: int) \<le> 16777216 \<Longrightarrow> rnd (numeral n) = numeral n"
  using rnd_of_int [of "numeral n"] by simp

definition dyadic_den :: "num \<Rightarrow> bool" where
  "dyadic_den d \<longleftrightarrow> (case num_pow2 d of None \<Rightarrow> False | Some k \<Rightarrow> k \<le> 149)"

lemma representable_dyadic:
  assumes "\<bar>n\<bar> \<le> 2 ^ 24" "dyadic_den d"
  shows "representable (of_int n / numeral d)"
proof -
  obtain k where k: "num_pow2 d = Some k" "k \<le> 149"
    using assms(2) by (auto simp: dyadic_den_def split: option.splits)
  have "of_int n / numeral d = of_int n * pow2 (- int k)"
    unfolding num_pow2_Some [OF k(1)] by (simp add: pow2_def)
  then show ?thesis unfolding representable_def using assms(1) k(2)
    by (intro exI [of _ n] exI [of _ "- int k"]) simp
qed

lemma rnd_quotient [simp, rnd_simps]:
  "(numeral n :: int) \<le> 16777216 \<Longrightarrow> dyadic_den d \<Longrightarrow> rnd (numeral n / numeral d) = numeral n / numeral d"
  "dyadic_den d \<Longrightarrow> rnd (1 / numeral d) = 1 / numeral d"
  using rnd_representable [OF representable_dyadic [of "numeral n" d]]
    rnd_representable [OF representable_dyadic [of 1 d]] by simp_all

section \<open>The binary32 format\<close>

text \<open>
  \<open>Fin q\<close> is a finite number (\<open>Fin 0\<close> is the positive zero), \<open>NZero\<close> the negative zero. The
  payload and the sign of a NaN are not part of the model.
\<close>

datatype f32 = NaN | PInf | NInf | NZero | Fin rat

fun val :: "f32 \<Rightarrow> rat" where
  "val (Fin q) = q"
| "val _ = 0"

fun is_nan :: "f32 \<Rightarrow> bool" where
  "is_nan NaN = True"
| "is_nan _ = False"

fun is_inf :: "f32 \<Rightarrow> bool" where
  "is_inf PInf = True"
| "is_inf NInf = True"
| "is_inf _ = False"

fun isfinite :: "f32 \<Rightarrow> bool" where
  "isfinite (Fin q) = True"
| "isfinite NZero = True"
| "isfinite _ = False"

fun signbit :: "f32 \<Rightarrow> bool" where
  "signbit NInf = True"
| "signbit NZero = True"
| "signbit (Fin q) = (q < 0)"
| "signbit _ = False"

definition inf_of :: "bool \<Rightarrow> f32" where
  "inf_of s = (if s then NInf else PInf)"

definition zero_of :: "bool \<Rightarrow> f32" where
  "zero_of s = (if s then NZero else Fin 0)"

text \<open>
  Rounding of an exact result: a result that rounds to zero gets the sign \<open>s\<close>, one that rounds to
  \<open>2 ^ 128\<close> or more overflows to an infinity.
\<close>

definition f32_round :: "bool \<Rightarrow> rat \<Rightarrow> f32" where
  "f32_round s q = (let r = rnd q in
     if r = 0 then zero_of s else if 2 ^ 128 \<le> \<bar>r\<bar> then inf_of (r < 0) else Fin r)"

text \<open>A decimal literal and the conversion of an integer.\<close>

definition f32_of :: "rat \<Rightarrow> f32" where
  "f32_of q = f32_round (q < 0) q"

definition f32_of_int :: "int \<Rightarrow> f32" where
  "f32_of_int n = f32_of (of_int n)"

instantiation f32 :: "{zero, one, plus, minus, uminus, times, inverse, ord}"
begin

definition zero_f32 :: f32 where "0 = Fin 0"

definition one_f32 :: f32 where "1 = Fin 1"

fun uminus_f32 :: "f32 \<Rightarrow> f32" where
  "- NaN = NaN"
| "- PInf = NInf"
| "- NInf = PInf"
| "- NZero = Fin 0"
| "- Fin q = (if q = 0 then NZero else Fin (- q))"

definition plus_f32 :: "f32 \<Rightarrow> f32 \<Rightarrow> f32" where
  "x + y =
     (if is_nan x \<or> is_nan y then NaN
      else if is_inf x then (if is_inf y \<and> x \<noteq> y then NaN else x)
      else if is_inf y then y
      else f32_round (signbit x \<and> signbit y) (val x + val y))"

definition minus_f32 :: "f32 \<Rightarrow> f32 \<Rightarrow> f32" where
  "x - y = x + (- y :: f32)"

definition times_f32 :: "f32 \<Rightarrow> f32 \<Rightarrow> f32" where
  "x * y =
     (let s = (signbit x \<noteq> signbit y) in
      if is_nan x \<or> is_nan y then NaN
      else if is_inf x \<or> is_inf y
        then (if isfinite x \<and> val x = 0 \<or> isfinite y \<and> val y = 0 then NaN else inf_of s)
      else f32_round s (val x * val y))"

definition divide_f32 :: "f32 \<Rightarrow> f32 \<Rightarrow> f32" where
  "x div y =
     (let s = (signbit x \<noteq> signbit y) in
      if is_nan x \<or> is_nan y then NaN
      else if is_inf x then (if is_inf y then NaN else inf_of s)
      else if is_inf y then zero_of s
      else if val y = 0 then (if val x = 0 then NaN else inf_of s)
      else f32_round s (val x / val y))"

definition inverse_f32 :: "f32 \<Rightarrow> f32" where
  "inverse x = (1 :: f32) div x"

text \<open>The comparisons of the language: every comparison with a NaN is false, both zeros are equal.\<close>

definition less_f32 :: "f32 \<Rightarrow> f32 \<Rightarrow> bool" where
  "x < y \<longleftrightarrow> \<not> is_nan x \<and> \<not> is_nan y \<and>
     (if isfinite x \<and> isfinite y then val x < val y else x \<noteq> y \<and> (x = NInf \<or> y = PInf))"

definition less_eq_f32 :: "f32 \<Rightarrow> f32 \<Rightarrow> bool" where
  "x \<le> y \<longleftrightarrow> \<not> is_nan x \<and> \<not> is_nan y \<and> \<not> y < (x :: f32)"

instance ..

end

definition feq :: "f32 \<Rightarrow> f32 \<Rightarrow> bool" where
  "feq x y \<longleftrightarrow> x \<le> y \<and> y \<le> x"

text \<open>
  \<open>static_cast\<close> of a float to an integer type with the range \<open>lo..hi\<close>: truncation towards zero,
  undefined (\<open>None\<close>) for a value outside the range.
\<close>

definition rtrunc :: "rat \<Rightarrow> int" where
  "rtrunc q = (if 0 \<le> q then \<lfloor>q\<rfloor> else \<lceil>q\<rceil>)"

definition f32_cast :: "int \<Rightarrow> int \<Rightarrow> f32 \<Rightarrow> int option" where
  "f32_cast lo hi x =
     (if isfinite x \<and> lo \<le> rtrunc (val x) \<and> rtrunc (val x) \<le> hi then Some (rtrunc (val x)) else None)"

section \<open>Facts about the format\<close>

lemma class_cases:
  obtains (nan) "x = NaN" | (inf) "x = PInf" | (ninf) "x = NInf" | (finite) "isfinite x"
  by (cases x) auto

lemma isfinite_iff: "isfinite x \<longleftrightarrow> \<not> is_nan x \<and> \<not> is_inf x"
  by (cases x) auto

lemma isfinite_not_nan [simp]: "isfinite x \<Longrightarrow> \<not> is_nan x" and isfinite_not_inf [simp]: "isfinite x \<Longrightarrow> \<not> is_inf x"
  by (simp_all add: isfinite_iff)

lemma is_nan_iff: "is_nan x \<longleftrightarrow> x = NaN"
  by (cases x) auto

subsection \<open>Comparisons\<close>

lemma less_finite: "isfinite x \<Longrightarrow> isfinite y \<Longrightarrow> x < y \<longleftrightarrow> val x < val y"
  by (simp add: less_f32_def)

lemma le_finite: "isfinite x \<Longrightarrow> isfinite y \<Longrightarrow> x \<le> y \<longleftrightarrow> val x \<le> val y"
  by (auto simp: less_eq_f32_def less_f32_def)

lemma feq_finite: "isfinite x \<Longrightarrow> isfinite y \<Longrightarrow> feq x y \<longleftrightarrow> val x = val y"
  by (auto simp: feq_def le_finite)

lemma less_Fin [simp, f32_simps]: "Fin a < Fin b \<longleftrightarrow> a < b"
  and le_Fin [simp, f32_simps]: "Fin a \<le> Fin b \<longleftrightarrow> a \<le> b"
  and feq_Fin [simp, f32_simps]: "feq (Fin a) (Fin b) \<longleftrightarrow> a = b"
  by (simp_all add: less_finite le_finite feq_finite)

lemma less_nan [simp]: "\<not> NaN < y" "\<not> x < NaN" "\<not> NaN \<le> y" "\<not> x \<le> NaN"
  by (simp_all add: less_f32_def less_eq_f32_def)

lemma le_PInf [simp]: "x \<le> PInf \<longleftrightarrow> x \<noteq> NaN" and NInf_le [simp]: "NInf \<le> x \<longleftrightarrow> x \<noteq> NaN"
  by (cases x; simp add: less_f32_def less_eq_f32_def)+

lemma not_less_NInf [simp]: "\<not> x < NInf" and not_PInf_less [simp]: "\<not> PInf < x"
  by (cases x; simp add: less_f32_def)+

lemma le_refl_f32: "x \<noteq> NaN \<Longrightarrow> x \<le> (x :: f32)"
  by (cases x) (auto simp: less_f32_def less_eq_f32_def)

lemma not_less_f32: "x \<noteq> NaN \<Longrightarrow> y \<noteq> NaN \<Longrightarrow> \<not> x < y \<longleftrightarrow> y \<le> (x :: f32)"
  by (auto simp: less_eq_f32_def is_nan_iff)

lemma less_imp_le_f32: "x < y \<Longrightarrow> x \<le> (y :: f32)"
  by (cases x; cases y) (auto simp: less_f32_def less_eq_f32_def split: if_splits)

lemma le_trans_f32 [trans]: "x \<le> y \<Longrightarrow> y \<le> z \<Longrightarrow> x \<le> (z :: f32)"
  by (cases x; cases y; cases z) (auto simp: less_f32_def less_eq_f32_def split: if_splits)

lemma less_le_trans_f32 [trans]: "x < y \<Longrightarrow> y \<le> z \<Longrightarrow> x < (z :: f32)"
  by (cases x; cases y; cases z) (auto simp: less_f32_def less_eq_f32_def split: if_splits)

lemma le_less_trans_f32 [trans]: "x \<le> y \<Longrightarrow> y < z \<Longrightarrow> x < (z :: f32)"
  by (cases x; cases y; cases z) (auto simp: less_f32_def less_eq_f32_def split: if_splits)

lemma le_not_nan: "x \<le> y \<Longrightarrow> x \<noteq> NaN \<and> y \<noteq> NaN" and less_not_nan: "x < y \<Longrightarrow> x \<noteq> NaN \<and> y \<noteq> NaN"
  by auto

lemma between_finite: "Fin a \<le> x \<Longrightarrow> x \<le> Fin b \<Longrightarrow> isfinite x \<and> a \<le> val x \<and> val x \<le> b"
  by (cases x) (auto simp: less_f32_def less_eq_f32_def)

subsection \<open>Arithmetic on finite operands\<close>

text \<open>The largest power of two that does not overflow, as the bound of the finite results.\<close>

lemma f32_round_finite:
  assumes "\<bar>q\<bar> \<le> pow2 127"
  shows "isfinite (f32_round s q)" "val (f32_round s q) = rnd q"
proof -
  have "\<bar>rnd q\<bar> \<le> pow2 127" using assms by (intro rnd_abs_less_pow2) simp_all
  also have "\<dots> < 2 ^ 128" by (simp add: pow2_def)
  finally show "isfinite (f32_round s q)" "val (f32_round s q) = rnd q"
    by (auto simp: f32_round_def Let_def zero_of_def)
qed

lemma val_uminus [simp]: "val (- x) = - val x" and isfinite_uminus [simp]: "isfinite (- x) = isfinite x"
  and is_nan_uminus [simp]: "is_nan (- x) = is_nan x" and is_inf_uminus [simp]: "is_inf (- x) = is_inf x"
  by (cases x; simp)+

lemma uminus_f32_eq_NaN [simp]: "- x = NaN \<longleftrightarrow> x = NaN"
  by (cases x) auto

lemma add_f32_finite:
  assumes "isfinite x" "isfinite y" "\<bar>val x + val y\<bar> \<le> pow2 127"
  shows "isfinite (x + y)" "val (x + y) = rnd (val x + val y)"
  using assms f32_round_finite by (simp_all add: plus_f32_def)

lemma sub_f32_finite:
  assumes "isfinite x" "isfinite y" "\<bar>val x - val y\<bar> \<le> pow2 127"
  shows "isfinite (x - y)" "val (x - y) = rnd (val x - val y)"
  using add_f32_finite [of x "- y"] assms by (simp_all add: minus_f32_def)

lemma mul_f32_finite:
  assumes "isfinite x" "isfinite y" "\<bar>val x * val y\<bar> \<le> pow2 127"
  shows "isfinite (x * y)" "val (x * y) = rnd (val x * val y)"
  using assms f32_round_finite by (simp_all add: times_f32_def Let_def)

lemma div_f32_finite:
  assumes "isfinite x" "isfinite y" "val y \<noteq> 0" "\<bar>val x / val y\<bar> \<le> pow2 127"
  shows "isfinite (x / y)" "val (x / y) = rnd (val x / val y)"
  using assms f32_round_finite by (simp_all add: divide_f32_def Let_def)

lemma f32_of_finite:
  assumes "\<bar>q\<bar> \<le> pow2 127"
  shows "isfinite (f32_of q)" "val (f32_of q) = rnd q"
  using f32_round_finite [OF assms] by (simp_all add: f32_of_def)

lemma nan_operand [simp]:
  "NaN + y = NaN" "x + NaN = NaN" "NaN - y = NaN" "x - NaN = NaN"
  "NaN * y = NaN" "x * NaN = NaN" "NaN / y = NaN" "x / NaN = NaN"
  by (simp_all add: plus_f32_def minus_f32_def times_f32_def divide_f32_def)

subsection \<open>Well-formed values\<close>

fun f32_ok :: "f32 \<Rightarrow> bool" where
  "f32_ok (Fin q) = (representable q \<and> \<bar>q\<bar> < 2 ^ 128)"
| "f32_ok _ = True"

lemma representable_0 [simp]: "representable 0"
  using representable_rnd [of 0] by simp

lemma f32_ok_round [simp]: "f32_ok (f32_round s q)"
  by (auto simp: f32_round_def Let_def zero_of_def inf_of_def representable_rnd not_le)

lemma representable_minus [simp]: "representable (- q) = representable q"
proof -
  have "representable q \<Longrightarrow> representable (- q)" for q
    using rnd_minus [of q] representable_rnd [of "- q"] by (simp add: rnd_representable)
  from this [of q] this [of "- q"] show ?thesis by auto
qed

lemma f32_ok_ops [simp]:
  "f32_ok x \<Longrightarrow> f32_ok (- x)"
  "f32_ok x \<Longrightarrow> f32_ok y \<Longrightarrow> f32_ok (x + y)"
  "f32_ok x \<Longrightarrow> f32_ok y \<Longrightarrow> f32_ok (x - y)"
  "f32_ok x \<Longrightarrow> f32_ok y \<Longrightarrow> f32_ok (x * y)"
  "f32_ok x \<Longrightarrow> f32_ok y \<Longrightarrow> f32_ok (x / y)"
  "f32_ok (f32_of q)"
proof -
  show n: "f32_ok x \<Longrightarrow> f32_ok (- x)" for x by (cases x) auto
  have z: "f32_ok (zero_of s)" "f32_ok (inf_of s)" for s
    by (simp_all add: zero_of_def inf_of_def)
  show a: "f32_ok x \<Longrightarrow> f32_ok y \<Longrightarrow> f32_ok (x + y)" for x y by (simp add: plus_f32_def)
  show "f32_ok x \<Longrightarrow> f32_ok y \<Longrightarrow> f32_ok (x - y)" using a [of x "- y"] n [of y] by (simp add: minus_f32_def)
  show "f32_ok x \<Longrightarrow> f32_ok y \<Longrightarrow> f32_ok (x * y)" using z by (simp add: times_f32_def Let_def)
  show "f32_ok x \<Longrightarrow> f32_ok y \<Longrightarrow> f32_ok (x / y)" using z by (simp add: divide_f32_def Let_def)
  show "f32_ok (f32_of q)" by (simp add: f32_of_def)
qed

lemmas f32_eval = plus_f32_def minus_f32_def times_f32_def divide_f32_def f32_round_def f32_of_def f32_of_int_def
  zero_of_def inf_of_def Let_def zero_f32_def one_f32_def dyadic_den_def

end
