(* ===== verification/Units.thy ===== *)
theory Units
  imports Float32
begin

text \<open>
  The operations of \<open>lib/units/units.hpp\<close> on quantities. All quantities of the sources are \<open>Unit<float, ratio<1>, _>\<close>:
  the dimension is checked by the C++ compiler and does not exist at run time, so a quantity is its
  \<open>f32\<close> value and the operators of \<open>Unit\<close> are those of \<open>f32\<close>.
\<close>

section \<open>Selection and clamping\<close>

text \<open>\<open>std::max\<close> and \<open>std::min\<close> return the first argument unless the second one is better.\<close>

definition std_max :: "f32 \<Rightarrow> f32 \<Rightarrow> f32" where
  "std_max a b = (if a < b then b else a)"

definition std_min :: "f32 \<Rightarrow> f32 \<Rightarrow> f32" where
  "std_min a b = (if b < a then b else a)"

definition Clamp :: "f32 \<Rightarrow> f32 \<Rightarrow> f32 \<Rightarrow> f32" where
  "Clamp v min_val max_val = std_min (std_max v min_val) max_val"

definition Abs :: "f32 \<Rightarrow> f32" where
  "Abs x = (if x < 0 then - x else x)"

definition Min :: "f32 \<Rightarrow> f32 \<Rightarrow> f32" where
  "Min lhs rhs = (if rhs < lhs then rhs else lhs)"

definition Max :: "f32 \<Rightarrow> f32 \<Rightarrow> f32" where
  "Max lhs rhs = (if lhs < rhs then rhs else lhs)"

text \<open>
  The converting constructor of \<open>Unit\<close> scales by the ratio of the two periods; from the milli and the
  kilo period to the base unit the target period is \<open>ratio<1>\<close>.
\<close>

definition from_period :: "int \<Rightarrow> int \<Rightarrow> f32 \<Rightarrow> f32" where
  "from_period num den v = v * f32_of_int num / f32_of_int den * f32_of_int 1 / f32_of_int 1"

abbreviation from_milli :: "f32 \<Rightarrow> f32" where
  "from_milli \<equiv> from_period 1 1000"

abbreviation from_kilo :: "f32 \<Rightarrow> f32" where
  "from_kilo \<equiv> from_period 1000 1"

lemma f32_ok_from_period [simp]: "f32_ok v \<Longrightarrow> f32_ok (from_period n d v)"
  by (simp add: from_period_def f32_of_int_def)

lemma Clamp_nan: "Clamp NaN lo hi = NaN"
  by (simp add: Clamp_def std_min_def std_max_def)

lemma Clamp_range:
  assumes "v \<noteq> NaN" "lo \<le> hi"
  shows "lo \<le> Clamp v lo hi" "Clamp v lo hi \<le> hi"
  using assms le_not_nan [OF assms(2)] less_imp_le_f32
  by (auto simp: Clamp_def std_min_def std_max_def not_less_f32 le_refl_f32)

text \<open>A clamp never turns a number into a NaN, whatever its bounds are.\<close>

lemma Clamp_not_nan: "v \<noteq> NaN \<Longrightarrow> Clamp v lo hi \<noteq> NaN"
  using less_not_nan by (auto simp: Clamp_def std_min_def std_max_def)

lemma Clamp_inside: "lo \<le> v \<Longrightarrow> v \<le> hi \<Longrightarrow> Clamp v lo hi = v"
  by (auto simp: Clamp_def std_min_def std_max_def less_eq_f32_def)

lemma Clamp_cases: "Clamp v lo hi = v \<or> Clamp v lo hi = lo \<or> Clamp v lo hi = hi"
  by (simp add: Clamp_def std_min_def std_max_def)

lemma Clamp_finite: "isfinite v \<Longrightarrow> isfinite lo \<Longrightarrow> isfinite hi \<Longrightarrow>
   isfinite (Clamp v lo hi) \<and> val (Clamp v lo hi) = min (max (val v) (val lo)) (val hi)"
  by (auto simp: Clamp_def std_min_def std_max_def less_finite)

lemma Abs_finite [simp]: "isfinite (Abs x) = isfinite x" "isfinite x \<Longrightarrow> val (Abs x) = \<bar>val x\<bar>"
  by (cases x; auto simp: Abs_def zero_f32_def less_finite)+

lemma Abs_nan [simp]: "Abs x = NaN \<longleftrightarrow> x = NaN"
  by (cases x) (auto simp: Abs_def)

lemma Min_finite: "isfinite x \<Longrightarrow> isfinite y \<Longrightarrow> isfinite (Min x y) \<and> val (Min x y) = min (val x) (val y)"
  and Max_finite: "isfinite x \<Longrightarrow> isfinite y \<Longrightarrow> isfinite (Max x y) \<and> val (Max x y) = max (val x) (val y)"
  by (auto simp: Min_def Max_def less_finite)

section \<open>Exact differences\<close>

text \<open>The difference of two floats within a factor of two of each other needs no rounding.\<close>

lemma representable_common:
  assumes "representable x" "0 < x" "representable y" "x \<le> y"
  shows "\<exists>a b. x = of_int a * pow2 (ulp_exp x) \<and> y = of_int b * pow2 (ulp_exp x)"
proof -
  obtain a where a: "x / pow2 (ulp_exp x) = of_int a" using representable_multiple assms by force
  obtain b where b: "y / pow2 (ulp_exp y) = of_int b" using representable_multiple assms by force
  have "ulp_exp x \<le> ulp_exp y" using ilog2_mono [of x y] assms by (auto simp: ulp_exp_def)
  then obtain n where n: "pow2 (ulp_exp y) / pow2 (ulp_exp x) = of_int n" using pow2_multiple by blast
  have "y = of_int (b * n) * pow2 (ulp_exp x)"
    using b n by (simp add: field_simps)
  moreover have "x = of_int a * pow2 (ulp_exp x)" using a by (simp add: field_simps)
  ultimately show ?thesis by blast
qed

lemma sterbenz:
  assumes "representable x" "representable y" "0 < x" "x \<le> y" "y \<le> 2 * x"
  shows "representable (y - x)"
proof -
  let ?u = "ulp_exp x"
  obtain a b where ab: "x = of_int a * pow2 ?u" "y = of_int b * pow2 ?u"
    using representable_common assms by blast
  have "y - x \<le> x" using assms by simp
  also have "x < pow2 (ilog2 \<bar>x\<bar> + 1)" using ilog2_bounds(2) [of x] assms(3) by simp
  also have "\<dots> \<le> pow2 (?u + 24)" by (simp add: ulp_exp_def)
  finally have "of_int (b - a) * pow2 ?u < of_int (2 ^ 24) * pow2 ?u"
    by (simp add: ab [symmetric] algebra_simps pow2_add pow2_def [of 24])
  then have "b - a < 2 ^ 24" by (simp only: mult_less_cancel_right_pos pow2_pos of_int_less_iff)
  moreover have "of_int a * pow2 ?u \<le> of_int b * pow2 ?u" using assms(4) ab by simp
  then have "a \<le> b" by (simp only: mult_le_cancel_right_pos pow2_pos of_int_le_iff)
  moreover have "y - x = of_int (b - a) * pow2 ?u" using ab by (simp add: algebra_simps)
  moreover have "- 149 \<le> ?u" by (simp add: ulp_exp_def)
  ultimately show ?thesis unfolding representable_def by (intro exI [of _ "b - a"] exI [of _ ?u]) simp
qed

lemma rnd_exact_difference:
  assumes "representable x" "representable y" "0 < y" "y \<le> 2 * x" "x \<le> 2 * y"
  shows "rnd (x - y) = x - y"
proof (cases "x \<le> y")
  case True
  then have "representable (- (x - y))" using sterbenz [of x y] assms by simp
  then show ?thesis unfolding representable_minus by (rule rnd_representable)
next
  case False
  then show ?thesis using sterbenz [of y x] assms by (simp add: rnd_representable)
qed

lemma f32_ok_representable: "f32_ok x \<Longrightarrow> representable (val x)"
  by (cases x) auto

end
