(* ===== verification/Float_Bounds.thy ===== *)
theory Float_Bounds
  imports Units
begin

text \<open>
  Bounds and monotonicity of single binary32 operations: rounding is monotone, a product with a factor of at most one
  and a result between two floats stay finite. The control components take their range lemmas from here.
\<close>

section \<open>Monotone rounding\<close>

lemma f32_round_le:
  assumes "q \<le> r"
  shows "f32_round s q \<le> f32_round t r"
  using rnd_mono [OF assms]
  by (auto simp: f32_round_def Let_def zero_of_def inf_of_def less_eq_f32_def less_f32_def)

lemma f32_round_bound:
  assumes "\<bar>q\<bar> \<le> B" "representable B" "B < 2 ^ 128"
  shows "isfinite (f32_round s q)" "val (f32_round s q) = rnd q" "\<bar>val (f32_round s q)\<bar> \<le> B"
proof -
  have B: "\<bar>rnd q\<bar> \<le> B"
    using rnd_between [of "- B" B q] assms(1,2) by (simp add: abs_le_iff minus_le_iff)
  with assms(3) show "isfinite (f32_round s q)" "val (f32_round s q) = rnd q"
    by (auto simp: f32_round_def Let_def zero_of_def)
  with B show "\<bar>val (f32_round s q)\<bar> \<le> B" by simp
qed

lemma f32_okD: "f32_ok x \<Longrightarrow> representable \<bar>val x\<bar> \<and> \<bar>val x\<bar> < 2 ^ 128"
  by (cases x) (auto simp: abs_if)

section \<open>Products and quotients\<close>

lemma times_f32_commute: "x * y = y * (x :: f32)"
  by (cases "signbit x = signbit y") (auto simp: times_f32_def Let_def mult.commute)

lemma f32_ok_times [simp]: "f32_ok (x * y)" and f32_ok_divide [simp]: "f32_ok (x / y)"
  by (simp_all add: times_f32_def divide_f32_def Let_def zero_of_def inf_of_def)

lemma mul_f32_shrinks:
  assumes "f32_ok x" "isfinite x" "isfinite y" "\<bar>val y\<bar> \<le> 1"
  shows "isfinite (x * y)" "val (x * y) = rnd (val x * val y)" "\<bar>val (x * y)\<bar> \<le> \<bar>val x\<bar>"
proof -
  have "\<bar>val x * val y\<bar> \<le> \<bar>val x\<bar>"
    using mult_left_mono [OF assms(4), of "\<bar>val x\<bar>"] by (simp add: abs_mult)
  then show "isfinite (x * y)" "val (x * y) = rnd (val x * val y)" "\<bar>val (x * y)\<bar> \<le> \<bar>val x\<bar>"
    using f32_round_bound [of "val x * val y" "\<bar>val x\<bar>"] f32_okD [OF assms(1)] assms(2,3)
    by (simp_all add: times_f32_def Let_def)
qed

lemma val_mult_sign: "isfinite (x * y) \<Longrightarrow> isfinite x \<Longrightarrow> isfinite y \<Longrightarrow> 0 \<le> val x \<Longrightarrow> 0 \<le> val y \<Longrightarrow> 0 \<le> val (x * y)"
  using rnd_nonneg [of "val x * val y"]
  by (auto simp: times_f32_def Let_def f32_round_def zero_of_def inf_of_def split: if_splits)

text \<open>A quotient of a number that is not negative by a positive number is not NaN and not negative.\<close>

lemma zero_le_not_finite: "\<not> isfinite x \<Longrightarrow> 0 \<le> x \<longleftrightarrow> x = PInf"
  by (cases x) (auto simp: zero_f32_def less_eq_f32_def less_f32_def)

lemma zero_le_finite: "isfinite x \<Longrightarrow> 0 \<le> x \<longleftrightarrow> 0 \<le> val x"
  by (simp add: le_finite zero_f32_def)

lemma zero_less_finite: "isfinite x \<Longrightarrow> 0 < x \<longleftrightarrow> 0 < val x"
  by (simp add: less_finite zero_f32_def)

lemma div_f32_nonneg:
  assumes "0 \<le> x" "isfinite y" "0 < val y"
  shows "0 \<le> x / y"
proof (cases "isfinite x")
  case True
  then have "x / y = f32_round (signbit x \<noteq> signbit y) (val x / val y)" using assms by (simp add: divide_f32_def Let_def)
  moreover have "f32_round False 0 \<le> f32_round (signbit x \<noteq> signbit y) (val x / val y)"
    using assms True by (intro f32_round_le) (simp add: zero_le_finite)
  moreover have "f32_round False 0 = 0" by (simp add: f32_round_def zero_of_def zero_f32_def)
  ultimately show ?thesis by simp
next
  case False
  then have "x = PInf" using assms by (simp add: zero_le_not_finite)
  moreover have "\<not> signbit y" using assms(2,3) by (cases y) auto
  ultimately show ?thesis using assms(2,3) by (simp add: divide_f32_def Let_def inf_of_def zero_f32_def)
qed

lemma Abs_nonneg: "x \<noteq> NaN \<Longrightarrow> 0 \<le> Abs x"
  by (cases x) (auto simp: Abs_def zero_f32_def less_eq_f32_def less_f32_def)

lemma Min_one:
  assumes "0 \<le> x"
  shows "isfinite (Min x (f32_of 1))" "0 \<le> val (Min x (f32_of 1))" "val (Min x (f32_of 1)) \<le> 1"
proof -
  have one: "f32_of 1 = Fin 1" by (simp add: f32_eval)
  show "isfinite (Min x (f32_of 1))" "0 \<le> val (Min x (f32_of 1))" "val (Min x (f32_of 1)) \<le> 1"
    using assms unfolding one by (cases x; auto simp: Min_def zero_f32_def less_eq_f32_def less_f32_def)+
qed

section \<open>Clamps around a value\<close>

lemma sub_le_add:
  assumes "isfinite x" "isfinite s" "0 \<le> val s"
  shows "x - s \<le> x + s"
  using f32_round_le [of "val x - val s" "val x + val s"] assms by (simp add: minus_f32_def plus_f32_def)

lemma sub_le_self:
  assumes "f32_ok x" "isfinite x" "isfinite s" "0 \<le> val s"
  shows "x - s \<le> x" "x \<le> x + s"
proof -
  have x: "f32_round b (val x) \<le> x \<and> x \<le> f32_round b (val x)" for b
    using assms(1,2) by (cases x) (auto simp: f32_round_def Let_def zero_of_def inf_of_def rnd_representable less_eq_f32_def less_f32_def)
  show "x - s \<le> x"
    using f32_round_le [of "val x - val s" "val x"] x assms le_trans_f32 by (simp add: minus_f32_def plus_f32_def) blast
  show "x \<le> x + s"
    using f32_round_le [of "val x" "val x + val s"] x assms le_trans_f32 by (simp add: plus_f32_def) blast
qed

lemma between_f32_finite:
  assumes "isfinite a" "isfinite b" "a \<le> x" "x \<le> b"
  shows "isfinite x"
  using assms by (cases x; cases a; cases b) (auto simp: less_eq_f32_def less_f32_def)

lemma zero_le_cases: "0 \<le> s \<longleftrightarrow> s = PInf \<or> isfinite s \<and> 0 \<le> val s"
  by (cases s) (auto simp: zero_f32_def less_eq_f32_def less_f32_def)

text \<open>A band around a finite value is not empty and contains the value, even if it overflows.\<close>

lemma band:
  assumes "f32_ok x" "isfinite x" "0 \<le> s"
  shows "x - s \<le> x" "x \<le> x + s" "x - s \<le> x + s"
proof -
  have "x - PInf = NInf" "x + PInf = PInf" "x \<noteq> NaN" using assms(2) by (cases x; simp add: minus_f32_def plus_f32_def)+
  then show "x - s \<le> x" "x \<le> x + s" "x - s \<le> x + s"
    using assms sub_le_self sub_le_add by (auto simp: zero_le_cases)
qed

text \<open>Clamping a target into a band around a value moves the value towards the target and never past it.\<close>

lemma Clamp_towards:
  assumes "lo \<le> t" "t \<le> hi"
  shows "v \<le> t \<Longrightarrow> v \<le> Clamp v lo hi \<and> Clamp v lo hi \<le> t" "t \<le> v \<Longrightarrow> t \<le> Clamp v lo hi \<and> Clamp v lo hi \<le> v"
  using assms le_not_nan [OF assms(1)] le_not_nan [OF assms(2)]
  by (auto simp: Clamp_def std_min_def std_max_def not_less_f32 less_imp_le_f32 le_refl_f32
      intro: le_trans_f32 dest: le_not_nan) (meson le_trans_f32 less_imp_le_f32)+

lemma Clamp_towards_finite:
  assumes "lo \<le> t" "t \<le> hi" "isfinite t" "isfinite v"
  shows "isfinite (Clamp v lo hi)" "min (val v) (val t) \<le> val (Clamp v lo hi)" "val (Clamp v lo hi) \<le> max (val v) (val t)"
proof -
  have c: "v \<le> t \<or> t \<le> v" using assms(3,4) by (auto simp: le_finite)
  then show f: "isfinite (Clamp v lo hi)"
    using Clamp_towards [OF assms(1,2), of v] between_f32_finite assms(3,4) by blast
  show "min (val v) (val t) \<le> val (Clamp v lo hi)" "val (Clamp v lo hi) \<le> max (val v) (val t)"
    using c Clamp_towards [OF assms(1,2), of v] f assms(3,4) by (auto simp: le_finite)
qed

lemma of_u64_bound: "(of_int (uint (d :: u64)) :: rat) \<le> pow2 64"
proof -
  have "uint d \<le> 2 ^ 64" using uint_lt2p [of d] by simp
  then have "(of_int (uint d) :: rat) \<le> of_int (2 ^ 64)" by (simp only: of_int_le_iff)
  then show ?thesis by (simp add: pow2_def)
qed

text \<open>A wrapped 64-bit count of microseconds as a time.\<close>

lemma u64_to_float:
  "isfinite (f32_of_int (uint (d :: u64)))" "0 \<le> val (f32_of_int (uint d))" "val (f32_of_int (uint d)) \<le> pow2 64"
proof -
  define n where "n = uint d"
  have n: "0 \<le> n" "(of_int n :: rat) \<le> pow2 64" using of_u64_bound [of d] by (simp_all only: n_def uint_ge_0)
  have bound: "\<bar>of_int n :: rat\<bar> \<le> pow2 127"
    using n order.trans [OF n(2), of "pow2 127"] by simp
  note f = f32_of_finite [OF bound, folded f32_of_int_def]
  show "isfinite (f32_of_int (uint d))" "0 \<le> val (f32_of_int (uint d))" "val (f32_of_int (uint d)) \<le> pow2 64"
    unfolding n_def [symmetric] using f rnd_nonneg [of "of_int n"] rnd_abs_less_pow2 [of "of_int n" 64] n
    by simp_all
qed

end
