(* ===== verification/Angle_Wrap.thy ===== *)
theory Angle_Wrap
  imports Float_Bounds
begin

text \<open>
  The angle wraps of \<open>lib/motor_control/src/angle_wrap.hpp\<close>. The loops subtract or add one
  revolution at a time in float arithmetic and need not end: a large angle absorbs the subtraction.
  They are therefore partial functions, \<open>None\<close> is a loop that does not end.
\<close>

definition kPi :: f32 where
  "kPi = f32_of (314159265358979323846 / 100000000000000000000)"

definition kTwoPi :: f32 where
  "kTwoPi = f32_of 2 * kPi"

partial_function (option) wrap_down :: "f32 \<Rightarrow> f32 option" where
  "wrap_down value = (if kPi < value then wrap_down (value - kTwoPi) else Some value)"

partial_function (option) wrap_up :: "f32 \<Rightarrow> f32 option" where
  "wrap_up value = (if value \<le> - kPi then wrap_up (value + kTwoPi) else Some value)"

definition WrapAngle :: "f32 \<Rightarrow> f32 option" where
  "WrapAngle angle =
     (if \<not> isfinite angle then Some angle else Option.bind (wrap_down angle) wrap_up)"

partial_function (option) wrap_down_positive :: "f32 \<Rightarrow> f32 option" where
  "wrap_down_positive value = (if kTwoPi \<le> value then wrap_down_positive (value - kTwoPi) else Some value)"

partial_function (option) wrap_up_positive :: "f32 \<Rightarrow> f32 option" where
  "wrap_up_positive value = (if value < 0 then wrap_up_positive (value + kTwoPi) else Some value)"

definition WrapAnglePositive :: "f32 \<Rightarrow> f32 option" where
  "WrapAnglePositive angle =
     (if \<not> isfinite angle then Some angle
      else map_option (\<lambda>value. if value < kTwoPi then value else 0)
             (Option.bind (wrap_down_positive angle) wrap_up_positive))"

section \<open>The constants\<close>

lemma kPi_eq: "kPi = Fin (13176795 / 4194304)"
  by code_simp

lemma kTwoPi_eq: "kTwoPi = Fin (13176795 / 2097152)"
  by (simp add: kTwoPi_def kPi_eq f32_eval)

lemma pi_simps [simp]:
  "isfinite kPi" "isfinite kTwoPi" "val kPi = 13176795 / 4194304" "val kTwoPi = 13176795 / 2097152"
  by (simp_all add: kPi_eq kTwoPi_eq)

lemma representable_pi [simp]: "representable (13176795 / 4194304)" "representable (13176795 / 2097152)"
  using representable_dyadic [of 13176795] by (simp_all add: dyadic_den_def)

lemma f32_ok_pi [simp]: "f32_ok kPi" "f32_ok kTwoPi"
  by (simp_all add: kPi_eq kTwoPi_eq)

section \<open>The loops end and reach the range\<close>

text \<open>
  Up to \<open>2 ^ 24\<close> radians the subtraction of one revolution is off by at most one half, so every
  step moves the angle by more than five radians.
\<close>

lemma step_error:
  assumes "isfinite x" "isfinite y" "val x - val y < 2 ^ 24" "- (2 ^ 24) < val x - val y"
  shows "isfinite (x - y)" "val (x - y) = rnd (val x - val y)"
    "val (x - y) \<le> val x - val y + 1 / 2" "val x - val y - 1 / 2 \<le> val (x - y)"
proof -
  have p: "pow2 24 = 2 ^ 24" "pow2 24 \<le> pow2 127" "pow2 (24 - 25) = 1 / 2"
    by (simp_all add: pow2_def)
  have b: "\<bar>val x - val y\<bar> < pow2 24" using assms(3,4) p(1) by (simp add: abs_less_iff)
  then have "\<bar>val x - val y\<bar> \<le> pow2 127" using p(2) by linarith
  note f = sub_f32_finite [OF assms(1,2) this]
  have "\<bar>rnd (val x - val y) - (val x - val y)\<bar> \<le> 1 / 2" using rnd_error_below [OF b] p(3) by simp
  with f show "isfinite (x - y)" "val (x - y) = rnd (val x - val y)"
    "val (x - y) \<le> val x - val y + 1 / 2" "val x - val y - 1 / 2 \<le> val (x - y)"
    unfolding abs_le_iff by (auto simp only: f)
qed

lemma add_kTwoPi: "v + kTwoPi = v - (- kTwoPi)"
  by (simp add: minus_f32_def kTwoPi_eq)

interpretation down: ending_loop wrap_down "\<lambda>v. kPi < v" "\<lambda>v. v - kTwoPi"
  "\<lambda>v. isfinite v \<and> - (2 ^ 24) \<le> val v \<and> val v \<le> 2 ^ 24" val
proof (unfold_locales, goal_cases)
  case (1 v)
  show ?case by (rule wrap_down.simps)
next
  case (2 v)
  then show ?case
    using step_error [of v kTwoPi] rnd_mono [of "- val kPi" "val v - val kTwoPi"]
    by (auto simp: less_finite rnd_representable)
next
  case (3 v)
  then show ?case using step_error(3) [of v kTwoPi] by (simp add: less_finite)
next
  case (4 v)
  then show ?case by (simp add: less_finite)
qed

interpretation up: ending_loop wrap_up "\<lambda>v. v \<le> - kPi" "\<lambda>v. v + kTwoPi"
  "\<lambda>v. isfinite v \<and> - (2 ^ 24) \<le> val v \<and> val v \<le> val kPi" "\<lambda>v. - val v"
proof (unfold_locales, goal_cases)
  case (1 v)
  show ?case by (rule wrap_up.simps)
next
  case (2 v)
  then show ?case
    using step_error [of v "- kTwoPi"] rnd_mono [of "val v + val kTwoPi" "val kPi"]
    by (auto simp: le_finite rnd_representable add_kTwoPi)
next
  case (3 v)
  then show ?case using step_error(4) [of v "- kTwoPi"] by (simp add: le_finite add_kTwoPi)
next
  case (4 v)
  then show ?case by (simp add: le_finite)
qed

interpretation down_positive: ending_loop wrap_down_positive "\<lambda>v. kTwoPi \<le> v" "\<lambda>v. v - kTwoPi"
  "\<lambda>v. isfinite v \<and> - (2 ^ 24) \<le> val v \<and> val v \<le> 2 ^ 24" val
proof (unfold_locales, goal_cases)
  case (1 v)
  show ?case by (rule wrap_down_positive.simps)
next
  case (2 v)
  then show ?case
    using step_error [of v kTwoPi] rnd_nonneg [of "val v - val kTwoPi"]
    by (auto simp: le_finite rnd_representable)
next
  case (3 v)
  then show ?case using step_error(3) [of v kTwoPi] by (simp add: le_finite)
next
  case (4 v)
  then show ?case by (simp add: le_finite)
qed

interpretation up_positive: ending_loop wrap_up_positive "\<lambda>v. v < 0" "\<lambda>v. v + kTwoPi"
  "\<lambda>v. isfinite v \<and> - (2 ^ 24) \<le> val v \<and> val v \<le> 2 ^ 24" "\<lambda>v. - val v"
proof (unfold_locales, goal_cases)
  case (1 v)
  show ?case by (rule wrap_up_positive.simps)
next
  case (2 v)
  then show ?case
    using step_error [of v "- kTwoPi"] by (auto simp: less_finite zero_f32_def add_kTwoPi)
next
  case (3 v)
  then show ?case using step_error(4) [of v "- kTwoPi"] by (simp add: less_finite zero_f32_def add_kTwoPi)
next
  case (4 v)
  then show ?case by (simp add: less_finite zero_f32_def)
qed

section \<open>Properties\<close>

lemma WrapAngle_ends:
  assumes "isfinite angle" "\<bar>val angle\<bar> \<le> 2 ^ 24"
  obtains r where "WrapAngle angle = Some r" "isfinite r" "- kPi < r" "r \<le> kPi"
proof -
  obtain d where d: "wrap_down angle = Some d" "isfinite d" "- (2 ^ 24) \<le> val d" "\<not> kPi < d"
    using down.run_ends [of angle] assms by (auto simp: abs_le_iff)
  obtain r where "wrap_up d = Some r" "isfinite r" "val r \<le> val kPi" "\<not> r \<le> - kPi"
    using up.run_ends [of d] d by (auto simp: less_finite)
  then show ?thesis using that d assms by (simp add: WrapAngle_def less_finite le_finite)
qed

text \<open>Whatever the angle is, a wrap that returns has reached its range.\<close>

lemma subtract_kTwoPi:
  assumes "f32_ok v" "isfinite v" "kPi < v"
  shows "isfinite (v - kTwoPi)"
proof -
  have "representable (max \<bar>val v\<bar> (val kTwoPi))" "max \<bar>val v\<bar> (val kTwoPi) < 2 ^ 128" "\<bar>val v - val kTwoPi\<bar> \<le> max \<bar>val v\<bar> (val kTwoPi)"
    using f32_okD [OF assms(1)] assms(2,3) by (simp_all add: max_def less_finite abs_if)
  then show ?thesis
    using f32_round_bound(1) [of "val v - val kTwoPi"] assms(2) by (simp add: minus_f32_def plus_f32_def)
qed

lemma wrap_down_range: "wrap_down v = Some r \<Longrightarrow> f32_ok v \<and> isfinite v \<longrightarrow> f32_ok r \<and> isfinite r \<and> r \<le> kPi"
proof (rule wrap_down.raw_induct [where P = "\<lambda>v r. f32_ok v \<and> isfinite v \<longrightarrow> f32_ok r \<and> isfinite r \<and> r \<le> kPi"])
  fix f v r
  assume IH: "\<And>v r. f v = Some r \<Longrightarrow> f32_ok v \<and> isfinite v \<longrightarrow> f32_ok r \<and> isfinite r \<and> r \<le> kPi"
    and eq: "(if kPi < v then f (v - kTwoPi) else Some v) = Some r"
  show "f32_ok v \<and> isfinite v \<longrightarrow> f32_ok r \<and> isfinite r \<and> r \<le> kPi"
  proof (cases "kPi < v")
    case True
    then show ?thesis using IH [of "v - kTwoPi" r] eq subtract_kTwoPi [of v] by auto
  qed (use eq in \<open>auto simp: less_finite le_finite\<close>)
qed

lemma add_kTwoPi_range:
  assumes "f32_ok v" "isfinite v" "v \<le> - kPi"
  shows "isfinite (v + kTwoPi)" "val (v + kTwoPi) \<le> val kPi"
proof -
  have "representable (max \<bar>val v\<bar> (val kTwoPi))" "max \<bar>val v\<bar> (val kTwoPi) < 2 ^ 128" "\<bar>val v + val kTwoPi\<bar> \<le> max \<bar>val v\<bar> (val kTwoPi)"
    using f32_okD [OF assms(1)] assms(2,3) by (simp_all add: max_def le_finite abs_if)
  then show "isfinite (v + kTwoPi)" "val (v + kTwoPi) \<le> val kPi"
    using f32_round_bound(1,2) [of "val v + val kTwoPi"] rnd_mono [of "val v + val kTwoPi" "val kPi"] assms(2,3)
    by (simp_all add: plus_f32_def le_finite rnd_representable)
qed

lemma wrap_up_range:
  "wrap_up v = Some r \<Longrightarrow> f32_ok v \<and> isfinite v \<and> v \<le> kPi \<longrightarrow> f32_ok r \<and> isfinite r \<and> - kPi < r \<and> r \<le> kPi"
proof (rule wrap_up.raw_induct
    [where P = "\<lambda>v r. f32_ok v \<and> isfinite v \<and> v \<le> kPi \<longrightarrow> f32_ok r \<and> isfinite r \<and> - kPi < r \<and> r \<le> kPi"])
  fix f v r
  assume IH: "\<And>v r. f v = Some r \<Longrightarrow>
      f32_ok v \<and> isfinite v \<and> v \<le> kPi \<longrightarrow> f32_ok r \<and> isfinite r \<and> - kPi < r \<and> r \<le> kPi"
    and eq: "(if v \<le> - kPi then f (v + kTwoPi) else Some v) = Some r"
  show "f32_ok v \<and> isfinite v \<and> v \<le> kPi \<longrightarrow> f32_ok r \<and> isfinite r \<and> - kPi < r \<and> r \<le> kPi"
  proof (cases "v \<le> - kPi")
    case True
    then show ?thesis using IH [of "v + kTwoPi" r] eq add_kTwoPi_range [of v] by (auto simp: le_finite)
  qed (use eq in \<open>auto simp: less_finite le_finite\<close>)
qed

lemma WrapAngle_range:
  assumes "WrapAngle angle = Some r" "f32_ok angle"
  shows "f32_ok r" "isfinite angle \<Longrightarrow> isfinite r \<and> - kPi < r \<and> r \<le> kPi" "\<not> isfinite angle \<Longrightarrow> r = angle"
  using assms wrap_down_range wrap_up_range by (auto simp: WrapAngle_def bind_eq_Some_conv split: if_splits)

text \<open>
  C11. \<open>WrapAngle\<close> returns, for every angle up to \<open>2 ^ 24\<close> radians in magnitude, a finite angle in the
  half-open interval from minus pi (excluded) to pi of the documentation, in float arithmetic.
\<close>

theorem WrapAngle_in_range:
  assumes "isfinite angle" "\<bar>val angle\<bar> \<le> 2 ^ 24"
  shows "\<exists>r. WrapAngle angle = Some r \<and> isfinite r \<and> - kPi < r \<and> r \<le> kPi"
  using WrapAngle_ends [OF assms] by metis

theorem WrapAngle_in_range_witness:
  "\<exists>r. WrapAngle (Fin 10) = Some r \<and> isfinite r \<and> - kPi < r \<and> r \<le> kPi"
  using WrapAngle_in_range [of "Fin 10"] by simp

lemma wrap_down_stays: "isfinite v \<Longrightarrow> val v \<le> val kPi \<Longrightarrow> wrap_down v = Some v"
  by (simp add: wrap_down.simps less_finite)

lemma wrap_up_stays: "isfinite v \<Longrightarrow> - val kPi < val v \<Longrightarrow> wrap_up v = Some v"
  by (simp add: wrap_up.simps le_finite)

text \<open>
  Within one revolution of the range the wrap is exact: no rounding happens, the result is the
  angle itself or the angle minus or plus exactly one float revolution.
\<close>

theorem WrapAngle_exact:
  assumes "f32_ok angle" "isfinite angle" "\<bar>val angle\<bar> < 3 * val kPi"
  shows "\<exists>r. WrapAngle angle = Some r \<and>
    val r = (if val kPi < val angle then val angle - val kTwoPi
             else if val angle \<le> - val kPi then val angle + val kTwoPi else val angle)"
proof -
  let ?a = "val angle"
  have r: "representable ?a" using assms(1) by (rule f32_ok_representable)
  have a: "?a < 3 * val kPi" "- (3 * val kPi) < ?a" using assms(3) by (simp_all add: abs_less_iff)
  consider "val kPi < ?a" | "?a \<le> - val kPi" | "- val kPi < ?a" "?a \<le> val kPi" by linarith
  then show ?thesis
  proof cases
    case 1
    let ?w = "angle - kTwoPi"
    have "rnd (?a - val kTwoPi) = ?a - val kTwoPi"
      using 1 a r by (intro rnd_exact_difference) simp_all
    then have w: "isfinite ?w" "val ?w = ?a - val kTwoPi"
      using step_error [of angle kTwoPi] 1 a assms(2) by simp_all
    have "wrap_down angle = Some ?w"
      using 1 a w assms(2) wrap_down_stays [of ?w] by (simp add: wrap_down.simps [of angle] less_finite)
    then show ?thesis using w 1 a assms(2) wrap_up_stays [of ?w] by (simp add: WrapAngle_def)
  next
    case 2
    let ?w = "angle + kTwoPi"
    have "rnd (- ?a - val kTwoPi) = - ?a - val kTwoPi"
      using 2 a r by (intro rnd_exact_difference) simp_all
    then have "rnd (?a + val kTwoPi) = ?a + val kTwoPi"
      using rnd_minus [of "?a + val kTwoPi"] by (simp add: algebra_simps)
    then have w: "isfinite ?w" "val ?w = ?a + val kTwoPi"
      using step_error [of angle "- kTwoPi"] 2 a assms(2) by (simp_all add: add_kTwoPi)
    have "wrap_up angle = Some ?w"
      using 2 a w assms(2) wrap_up_stays [of ?w] by (simp add: wrap_up.simps [of angle] le_finite)
    then show ?thesis using w 2 a assms(2) wrap_down_stays [of angle] by (simp add: WrapAngle_def)
  next
    case 3
    then show ?thesis using assms(2) wrap_down_stays wrap_up_stays by (simp add: WrapAngle_def)
  qed
qed

theorem WrapAngle_exact_witness: "\<exists>r. WrapAngle (Fin 5) = Some r \<and> val r = 5 - val kTwoPi"
  using WrapAngle_exact [of "Fin 5"] rnd_numeral [of "num.Bit1 (num.Bit0 num.One)"] representable_rnd [of 5] by simp

text \<open>
  \<open>WrapAnglePositive\<close> returns, for every angle up to \<open>2 ^ 24\<close> radians in magnitude, a finite angle
  in the interval from zero to two pi (excluded); the final comparison removes the two pi that a tiny
  negative angle rounds to.
\<close>

theorem WrapAnglePositive_in_range:
  assumes "isfinite angle" "\<bar>val angle\<bar> \<le> 2 ^ 24"
  shows "\<exists>r. WrapAnglePositive angle = Some r \<and> isfinite r \<and> 0 \<le> r \<and> r < kTwoPi"
proof -
  obtain d where d: "wrap_down_positive angle = Some d" "isfinite d" "- (2 ^ 24) \<le> val d" "val d \<le> 2 ^ 24"
    using down_positive.run_ends [of angle] assms by (auto simp: abs_le_iff)
  obtain r where "wrap_up_positive d = Some r" "isfinite r" "\<not> r < 0"
    using up_positive.run_ends [of d] d by auto
  then show ?thesis using d assms
    by (auto simp: WrapAnglePositive_def less_finite le_finite zero_f32_def)
qed

theorem WrapAnglePositive_in_range_witness:
  "\<exists>r. WrapAnglePositive (Fin (- 1 / 1024)) = Some r \<and> isfinite r \<and> 0 \<le> r \<and> r < kTwoPi"
  using WrapAnglePositive_in_range [of "Fin (- 1 / 1024)"] by simp

lemma absorbed: "Fin (2 ^ 30) - kTwoPi = Fin (2 ^ 30)"
  unfolding kTwoPi_eq by code_simp

lemma wrap_down_not_absorbed: "wrap_down v = Some r \<Longrightarrow> v \<noteq> Fin (2 ^ 30)"
proof (rule wrap_down.raw_induct [where P = "\<lambda>v r. v \<noteq> Fin (2 ^ 30)"])
  fix f v r
  assume IH: "\<And>v r. f v = Some r \<Longrightarrow> v \<noteq> Fin (2 ^ 30)"
    and eq: "(if kPi < v then f (v - kTwoPi) else Some v) = Some r"
  show "v \<noteq> Fin (2 ^ 30)"
  proof
    assume v: "v = Fin (2 ^ 30)"
    then have "kPi < v" by (simp add: kPi_eq)
    then have "f (v - kTwoPi) = Some r" using eq by simp
    then show False using IH [of "v - kTwoPi" r] v absorbed by simp
  qed
qed

text \<open>
  Outside its contract the wrap does not return: at \<open>2 ^ 30\<close> radians the subtraction of one
  revolution rounds back to the same float.
\<close>

theorem WrapAngle_diverges: "WrapAngle (Fin (2 ^ 30)) = None"
  using wrap_down_not_absorbed [of "Fin (2 ^ 30)"]
  by (cases "wrap_down (Fin (2 ^ 30))") (auto simp: WrapAngle_def)

end
