(* ===== verification/Rotor_Angle.thy ===== *)
theory Rotor_Angle
  imports Angle_Wrap "HOL-Library.Monad_Syntax"
begin

unbundle bit_operations_syntax

text \<open>
  The fixed-point rotor angle of \<open>lib/motor_control/src/rotor_angle.hpp\<close> with its sine and cosine
  (\<open>sin_cos.hpp\<close>, \<open>rotor_angle_sin_table.hpp\<close>). The phase is a signed 32-bit count of the revolution, a
  counter holds the whole revolutions. The signed integers are \<open>int\<close>; what is undefined in C++ (a conversion of a
  \<open>float\<close> that does not fit, an overflow of the revolution counter) is \<open>None\<close>, while the conversions
  that C++ defines modulo \<open>2 ^ 32\<close> wrap.
\<close>

section \<open>Integers\<close>

definition in_int32 :: "int \<Rightarrow> bool" where
  "in_int32 n \<longleftrightarrow> - (2 ^ 31) \<le> n \<and> n < 2 ^ 31"

text \<open>A conversion to \<open>std::int32_t\<close>.\<close>

definition wrap32 :: "int \<Rightarrow> int" where
  "wrap32 n = (n + 2 ^ 31) mod 2 ^ 32 - 2 ^ 31"

text \<open>Signed addition that must not overflow.\<close>

definition add_int32 :: "int \<Rightarrow> int \<Rightarrow> int option" where
  "add_int32 a b = (if in_int32 (a + b) then Some (a + b) else None)"

definition in_int64 :: "int \<Rightarrow> bool" where
  "in_int64 n \<longleftrightarrow> - (2 ^ 63) \<le> n \<and> n < 2 ^ 63"

definition cast_int64 :: "f32 \<Rightarrow> int option" where
  "cast_int64 x = f32_cast (- (2 ^ 63)) (2 ^ 63 - 1) x"

lemma in_int32_wrap32 [simp]: "in_int32 (wrap32 n)"
  by (auto simp: in_int32_def wrap32_def)

lemma wrap32_id: "in_int32 n \<Longrightarrow> wrap32 n = n"
  by (simp add: in_int32_def wrap32_def)

section \<open>Sine and cosine\<close>

definition kCountsPerRevolution :: int where
  "kCountsPerRevolution = 0x100000000"

definition kCountsPerHalfRevolution :: int where
  "kCountsPerHalfRevolution = 0x80000000"

definition kCountsPerRevolutionF :: f32 where
  "kCountsPerRevolutionF = f32_of_int kCountsPerRevolution"

text \<open>The constants that the source computes in \<open>double\<close> and rounds to \<open>float\<close>, as the values they have.\<close>

definition kRadiansPerCount :: f32 where
  "kRadiansPerCount = Fin (13176795 / 2097152 / 4294967296)"

definition kRevolutionsPerRadian :: f32 where
  "kRevolutionsPerRadian = Fin (10680707 / 67108864)"

definition kRadiansPerRevolution :: f32 where
  "kRadiansPerRevolution = f32_of 2 * kPi"

definition kSinTableFractionBits :: nat where
  "kSinTableFractionBits = 23"

definition kSinTableFractionMask :: u32 where
  "kSinTableFractionMask = push_bit kSinTableFractionBits 1 - 1"

definition kSinTableFractionScale :: f32 where
  "kSinTableFractionScale = f32_of 1 / f32_of_int (2 ^ kSinTableFractionBits)"

definition kSinTableSize :: nat where
  "kSinTableSize = 512"

definition kSinTableQuarterSize :: nat where
  "kSinTableQuarterSize = kSinTableSize div 4"

text \<open>The literals of the table in units of the ninth decimal.\<close>

definition sin_table_digits :: "int list" where
  "sin_table_digits =
    [
      0, 12271538, 24541229, 36807223, 49067674, 61320736, 73564564, 85797312, 98017140, 110222207, 122410675,
      134580709, 146730474, 158858143, 170961889, 183039888, 195090322, 207111376, 219101240, 231058108, 242980180,
      254865660, 266712757, 278519689, 290284677, 302005949, 313681740, 325310292, 336889853, 348418680, 359895037,
      371317194, 382683432, 393992040, 405241314, 416429560, 427555093, 438616239, 449611330, 460538711, 471396737,
      482183772, 492898192, 503538384, 514102744, 524589683, 534997620, 545324988, 555570233, 565731811, 575808191,
      585797857, 595699304, 605511041, 615231591, 624859488, 634393284, 643831543, 653172843, 662415778, 671558955,
      680600998, 689540545, 698376249, 707106781, 715730825, 724247083, 732654272, 740951125, 749136395, 757208847,
      765167266, 773010453, 780737229, 788346428, 795836905, 803207531, 810457198, 817584813, 824589303, 831469612,
      838224706, 844853565, 851355193, 857728610, 863972856, 870086991, 876070094, 881921264, 887639620, 893224301,
      898674466, 903989293, 909167983, 914209756, 919113852, 923879533, 928506080, 932992799, 937339012, 941544065,
      945607325, 949528181, 953306040, 956940336, 960430519, 963776066, 966976471, 970031253, 972939952, 975702130,
      978317371, 980785280, 983105487, 985277642, 987301418, 989176510, 990902635, 992479535, 993906970, 995184727,
      996312612, 997290457, 998118113, 998795456, 999322385, 999698819, 999924702, 1000000000, 999924702, 999698819,
      999322385, 998795456, 998118113, 997290457, 996312612, 995184727, 993906970, 992479535, 990902635, 989176510,
      987301418, 985277642, 983105487, 980785280, 978317371, 975702130, 972939952, 970031253, 966976471, 963776066,
      960430519, 956940336, 953306040, 949528181, 945607325, 941544065, 937339012, 932992799, 928506080, 923879533,
      919113852, 914209756, 909167983, 903989293, 898674466, 893224301, 887639620, 881921264, 876070094, 870086991,
      863972856, 857728610, 851355193, 844853565, 838224706, 831469612, 824589303, 817584813, 810457198, 803207531,
      795836905, 788346428, 780737229, 773010453, 765167266, 757208847, 749136395, 740951125, 732654272, 724247083,
      715730825, 707106781, 698376249, 689540545, 680600998, 671558955, 662415778, 653172843, 643831543, 634393284,
      624859488, 615231591, 605511041, 595699304, 585797857, 575808191, 565731811, 555570233, 545324988, 534997620,
      524589683, 514102744, 503538384, 492898192, 482183772, 471396737, 460538711, 449611330, 438616239, 427555093,
      416429560, 405241314, 393992040, 382683432, 371317194, 359895037, 348418680, 336889853, 325310292, 313681740,
      302005949, 290284677, 278519689, 266712757, 254865660, 242980180, 231058108, 219101240, 207111376, 195090322,
      183039888, 170961889, 158858143, 146730474, 134580709, 122410675, 110222207, 98017140, 85797312, 73564564,
      61320736, 49067674, 36807223, 24541229, 12271538, 0, - 12271538, - 24541229, - 36807223, - 49067674, - 61320736,
      - 73564564, - 85797312, - 98017140, - 110222207, - 122410675, - 134580709, - 146730474, - 158858143,
      - 170961889, - 183039888, - 195090322, - 207111376, - 219101240, - 231058108, - 242980180, - 254865660,
      - 266712757, - 278519689, - 290284677, - 302005949, - 313681740, - 325310292, - 336889853, - 348418680,
      - 359895037, - 371317194, - 382683432, - 393992040, - 405241314, - 416429560, - 427555093, - 438616239,
      - 449611330, - 460538711, - 471396737, - 482183772, - 492898192, - 503538384, - 514102744, - 524589683,
      - 534997620, - 545324988, - 555570233, - 565731811, - 575808191, - 585797857, - 595699304, - 605511041,
      - 615231591, - 624859488, - 634393284, - 643831543, - 653172843, - 662415778, - 671558955, - 680600998,
      - 689540545, - 698376249, - 707106781, - 715730825, - 724247083, - 732654272, - 740951125, - 749136395,
      - 757208847, - 765167266, - 773010453, - 780737229, - 788346428, - 795836905, - 803207531, - 810457198,
      - 817584813, - 824589303, - 831469612, - 838224706, - 844853565, - 851355193, - 857728610, - 863972856,
      - 870086991, - 876070094, - 881921264, - 887639620, - 893224301, - 898674466, - 903989293, - 909167983,
      - 914209756, - 919113852, - 923879533, - 928506080, - 932992799, - 937339012, - 941544065, - 945607325,
      - 949528181, - 953306040, - 956940336, - 960430519, - 963776066, - 966976471, - 970031253, - 972939952,
      - 975702130, - 978317371, - 980785280, - 983105487, - 985277642, - 987301418, - 989176510, - 990902635,
      - 992479535, - 993906970, - 995184727, - 996312612, - 997290457, - 998118113, - 998795456, - 999322385,
      - 999698819, - 999924702, - 1000000000, - 999924702, - 999698819, - 999322385, - 998795456, - 998118113,
      - 997290457, - 996312612, - 995184727, - 993906970, - 992479535, - 990902635, - 989176510, - 987301418,
      - 985277642, - 983105487, - 980785280, - 978317371, - 975702130, - 972939952, - 970031253, - 966976471,
      - 963776066, - 960430519, - 956940336, - 953306040, - 949528181, - 945607325, - 941544065, - 937339012,
      - 932992799, - 928506080, - 923879533, - 919113852, - 914209756, - 909167983, - 903989293, - 898674466,
      - 893224301, - 887639620, - 881921264, - 876070094, - 870086991, - 863972856, - 857728610, - 851355193,
      - 844853565, - 838224706, - 831469612, - 824589303, - 817584813, - 810457198, - 803207531, - 795836905,
      - 788346428, - 780737229, - 773010453, - 765167266, - 757208847, - 749136395, - 740951125, - 732654272,
      - 724247083, - 715730825, - 707106781, - 698376249, - 689540545, - 680600998, - 671558955, - 662415778,
      - 653172843, - 643831543, - 634393284, - 624859488, - 615231591, - 605511041, - 595699304, - 585797857,
      - 575808191, - 565731811, - 555570233, - 545324988, - 534997620, - 524589683, - 514102744, - 503538384,
      - 492898192, - 482183772, - 471396737, - 460538711, - 449611330, - 438616239, - 427555093, - 416429560,
      - 405241314, - 393992040, - 382683432, - 371317194, - 359895037, - 348418680, - 336889853, - 325310292,
      - 313681740, - 302005949, - 290284677, - 278519689, - 266712757, - 254865660, - 242980180, - 231058108,
      - 219101240, - 207111376, - 195090322, - 183039888, - 170961889, - 158858143, - 146730474, - 134580709,
      - 122410675, - 110222207, - 98017140, - 85797312, - 73564564, - 61320736, - 49067674, - 36807223, - 24541229,
      - 12271538, 0, 12271538, 24541229, 36807223, 49067674, 61320736, 73564564, 85797312, 98017140, 110222207,
      122410675, 134580709, 146730474, 158858143, 170961889, 183039888, 195090322, 207111376, 219101240, 231058108,
      242980180, 254865660, 266712757, 278519689, 290284677, 302005949, 313681740, 325310292, 336889853, 348418680,
      359895037, 371317194, 382683432, 393992040, 405241314, 416429560, 427555093, 438616239, 449611330, 460538711,
      471396737, 482183772, 492898192, 503538384, 514102744, 524589683, 534997620, 545324988, 555570233, 565731811,
      575808191, 585797857, 595699304, 605511041, 615231591, 624859488, 634393284, 643831543, 653172843, 662415778,
      671558955, 680600998, 689540545, 698376249, 707106781, 715730825, 724247083, 732654272, 740951125, 749136395,
      757208847, 765167266, 773010453, 780737229, 788346428, 795836905, 803207531, 810457198, 817584813, 824589303,
      831469612, 838224706, 844853565, 851355193, 857728610, 863972856, 870086991, 876070094, 881921264, 887639620,
      893224301, 898674466, 903989293, 909167983, 914209756, 919113852, 923879533, 928506080, 932992799, 937339012,
      941544065, 945607325, 949528181, 953306040, 956940336, 960430519, 963776066, 966976471, 970031253, 972939952,
      975702130, 978317371, 980785280, 983105487, 985277642, 987301418, 989176510, 990902635, 992479535, 993906970,
      995184727, 996312612, 997290457, 998118113, 998795456, 999322385, 999698819, 999924702, 1000000000
    ]"

definition kSinTable :: "f32 list" where
  "kSinTable = map (\<lambda>n. f32_of (of_int n / 1000000000)) sin_table_digits"

definition LinearInterpolate :: "f32 \<Rightarrow> f32 \<Rightarrow> f32 \<Rightarrow> f32" where
  "LinearInterpolate function_value_start function_value_end interpolation_factor =
    function_value_start + (interpolation_factor * (function_value_end - function_value_start))"

definition RoundToInt64 :: "f32 \<Rightarrow> int option" where
  "RoundToInt64 value = cast_int64 (if 0 \<le> value then value + f32_of (1/2) else value - f32_of (1/2))"

record SinCos =
  sc_sin :: f32
  sc_cos :: f32

text \<open>An access to the table outside its bounds is \<open>None\<close>.\<close>

definition table_at :: "nat \<Rightarrow> f32 option" where
  "table_at i = (if i < length kSinTable then Some (kSinTable ! i) else None)"

definition Calculate :: "int \<Rightarrow> SinCos option" where
  "Calculate raw = do {
    let phase = (word_of_int raw :: u32);
    let table_index = unat (drop_bit kSinTableFractionBits phase);
    let interpolation_factor = f32_of_int (uint (phase AND kSinTableFractionMask)) * kSinTableFractionScale;
    sin_start \<leftarrow> table_at table_index;
    sin_end \<leftarrow> table_at (table_index + 1);
    cos_start \<leftarrow> table_at (table_index + kSinTableQuarterSize);
    cos_end \<leftarrow> table_at (table_index + kSinTableQuarterSize + 1);
    let sin_value = LinearInterpolate sin_start sin_end interpolation_factor;
    let cos_value = LinearInterpolate cos_start cos_end interpolation_factor;
    let normalization = f32_of (3/2) - (f32_of (1/2) * ((sin_value * sin_value) + (cos_value * cos_value)));
    Some \<lparr>sc_sin = sin_value * normalization, sc_cos = cos_value * normalization\<rparr>
  }"

text \<open>The counts of an angle within the revolution, and the whole revolutions it makes.\<close>

definition counts_of_angle :: "f32 \<Rightarrow> (int \<times> int) option" where
  "counts_of_angle angle = do {
    let revolutions = angle * kRevolutionsPerRadian;
    carry \<leftarrow> cast_int64 revolutions;
    let fraction = revolutions - f32_of_int carry;
    counts \<leftarrow> RoundToInt64 (fraction * kCountsPerRevolutionF);
    Some (if kCountsPerHalfRevolution \<le> counts then (counts - kCountsPerRevolution, carry + 1)
      else if counts < - kCountsPerHalfRevolution then (counts + kCountsPerRevolution, carry - 1)
      else (counts, carry))
  }"

definition Calculate_angle :: "f32 \<Rightarrow> SinCos option" where
  "Calculate_angle angle = do { (counts, _) \<leftarrow> counts_of_angle angle; Calculate (wrap32 counts) }"

section \<open>The rotor angle\<close>

record RotorAngle =
  ra_raw :: int
  ra_revolutions :: int
  ra_sin :: f32
  ra_cos :: f32

definition RotorAngle_init :: RotorAngle where
  "RotorAngle_init = \<lparr>ra_raw = 0, ra_revolutions = 0, ra_sin = f32_of 0, ra_cos = f32_of 1\<rparr>"

definition UpdateSinCos :: "RotorAngle \<Rightarrow> RotorAngle option" where
  "UpdateSinCos a = do {
    sin_cos \<leftarrow> Calculate (ra_raw a);
    Some (a\<lparr>ra_sin := sc_sin sin_cos, ra_cos := sc_cos sin_cos\<rparr>)
  }"

definition AddRaw :: "int \<Rightarrow> RotorAngle \<Rightarrow> RotorAngle option" where
  "AddRaw delta a = do {
    let nxt = wrap32 (ra_raw a + delta);
    revolutions \<leftarrow> (if ((ra_raw a XOR nxt) AND (delta XOR nxt)) < 0
      then add_int32 (ra_revolutions a) (if 0 \<le> delta then 1 else - 1)
      else Some (ra_revolutions a));
    Some (a\<lparr>ra_raw := nxt, ra_revolutions := revolutions\<rparr>)
  }"

definition FromRaw :: "int \<Rightarrow> int \<Rightarrow> RotorAngle option" where
  "FromRaw raw revolutions = UpdateSinCos (RotorAngle_init\<lparr>ra_raw := raw, ra_revolutions := revolutions\<rparr>)"

text \<open>Division and remainder of C++ round towards zero.\<close>

definition div_trunc :: "int \<Rightarrow> int \<Rightarrow> int" where
  "div_trunc n d = sgn n * sgn d * (\<bar>n\<bar> div \<bar>d\<bar>)"

definition mod_trunc :: "int \<Rightarrow> int \<Rightarrow> int" where
  "mod_trunc n d = n - div_trunc n d * d"

definition FromAbsoluteRaw :: "int \<Rightarrow> RotorAngle option" where
  "FromAbsoluteRaw absolute_raw = do {
    let shifted = absolute_raw + kCountsPerHalfRevolution;
    _ \<leftarrow> (if in_int64 shifted then Some () else None);
    let revolutions = div_trunc shifted kCountsPerRevolution;
    let revolutions = (if mod_trunc shifted kCountsPerRevolution < 0 then revolutions - 1 else revolutions);
    let phase = absolute_raw - revolutions * kCountsPerRevolution;
    FromRaw (wrap32 phase) (wrap32 revolutions)
  }"

definition Advance :: "f32 \<Rightarrow> RotorAngle \<Rightarrow> RotorAngle option" where
  "Advance offset a = do {
    (counts, carry) \<leftarrow> counts_of_angle offset;
    revolutions \<leftarrow> add_int32 (ra_revolutions a) (wrap32 carry);
    a \<leftarrow> AddRaw (wrap32 counts) (a\<lparr>ra_revolutions := revolutions\<rparr>);
    UpdateSinCos a
  }"

definition FromAngle :: "f32 \<Rightarrow> RotorAngle option" where
  "FromAngle angle = Advance angle RotorAngle_init"

definition AngleInRevolution :: "RotorAngle \<Rightarrow> f32" where
  "AngleInRevolution a = f32_of_int (ra_raw a) * kRadiansPerCount"

definition AbsoluteAngle :: "RotorAngle \<Rightarrow> f32" where
  "AbsoluteAngle a = (f32_of_int (ra_revolutions a) * kRadiansPerRevolution) + AngleInRevolution a"

definition AbsoluteRaw :: "RotorAngle \<Rightarrow> int" where
  "AbsoluteRaw a = ra_revolutions a * kCountsPerRevolution + ra_raw a"

definition angle_difference :: "RotorAngle \<Rightarrow> RotorAngle \<Rightarrow> f32" where
  "angle_difference a b = f32_of_int (wrap32 (ra_raw a - ra_raw b)) * kRadiansPerCount"

definition same_angle :: "RotorAngle \<Rightarrow> RotorAngle \<Rightarrow> bool" where
  "same_angle a b \<longleftrightarrow> ra_raw a = ra_raw b \<and> ra_revolutions a = ra_revolutions b"

section \<open>The table\<close>

lemma length_sin_table [simp]: "length kSinTable = 641"
  by (simp add: kSinTable_def sin_table_digits_def)

lemma table_index_bound: "unat (drop_bit kSinTableFractionBits (w :: u32)) < 512"
proof -
  have "unat w < 2 ^ 32" using unsigned_less [of w] by simp
  then have "unat w div 2 ^ 23 < 512" by (intro less_mult_imp_div_less) simp
  then show ?thesis
    unfolding kSinTableFractionBits_def unat_drop_bit_eq by (simp only: drop_bit_eq_div)
qed

text \<open>Every phase finds its four table entries.\<close>

lemma Calculate_total: "\<exists>sc. Calculate raw = Some sc"
  using table_index_bound [of "word_of_int raw"]
  by (auto simp: Calculate_def table_at_def Let_def kSinTableQuarterSize_def kSinTableSize_def)

lemma UpdateSinCos_total:
  obtains b where "UpdateSinCos a = Some b" "ra_raw b = ra_raw a" "ra_revolutions b = ra_revolutions a"
  using Calculate_total [of "ra_raw a"] by (auto simp: UpdateSinCos_def)

section \<open>Absolute position\<close>

lemma kCounts: "kCountsPerRevolution = 2 ^ 32" "kCountsPerHalfRevolution = 2 ^ 31"
  by (simp_all add: kCountsPerRevolution_def kCountsPerHalfRevolution_def)

lemma wrap32_cases:
  assumes "- (2 ^ 32) \<le> n" "n < 2 ^ 32"
  shows "wrap32 n = (if n < - (2 ^ 31) then n + 2 ^ 32 else if 2 ^ 31 \<le> n then n - 2 ^ 32 else n)"
proof -
  consider "n < - (2 ^ 31)" | "2 ^ 31 \<le> n" | "- (2 ^ 31) \<le> n" "n < 2 ^ 31" by linarith
  then show ?thesis
  proof cases
    case 1
    have "(n + 2 ^ 31) mod 2 ^ 32 = (n + 2 ^ 31 + 2 ^ 32) mod 2 ^ 32"
      by (simp only: mod_add_self2)
    also have "\<dots> = n + 2 ^ 31 + 2 ^ 32" using 1 assms by (intro mod_pos_pos_trivial) auto
    finally show ?thesis using 1 by (simp add: wrap32_def)
  next
    case 2
    have "(n + 2 ^ 31) mod 2 ^ 32 = (n + 2 ^ 31 - 2 ^ 32) mod 2 ^ 32"
      by (metis diff_add_cancel mod_add_self2)
    also have "\<dots> = n + 2 ^ 31 - 2 ^ 32" using 2 assms by (intro mod_pos_pos_trivial) auto
    finally show ?thesis using 2 by (simp add: wrap32_def)
  next
    case 3
    then show ?thesis by (simp add: wrap32_def)
  qed
qed

text \<open>The sign test of \<open>AddRaw\<close> recognises a phase that crossed the seam, in both directions.\<close>

lemma AddRaw_absolute:
  assumes "in_int32 (ra_raw a)" "in_int32 delta"
  shows "AddRaw delta a = (let n = ra_raw a + delta;
      turns = (if n < - (2 ^ 31) then - 1 else if 2 ^ 31 \<le> n then 1 else 0)
    in map_option (\<lambda>r. a\<lparr>ra_raw := n - turns * 2 ^ 32, ra_revolutions := r\<rparr>)
        (if turns = 0 then Some (ra_revolutions a) else add_int32 (ra_revolutions a) turns))"
proof -
  have n: "wrap32 (ra_raw a + delta) = (if ra_raw a + delta < - (2 ^ 31) then ra_raw a + delta + 2 ^ 32
      else if 2 ^ 31 \<le> ra_raw a + delta then ra_raw a + delta - 2 ^ 32 else ra_raw a + delta)"
    using assms by (intro wrap32_cases) (auto simp: in_int32_def)
  have seam: "((ra_raw a XOR m) AND (delta XOR m)) < 0 \<longleftrightarrow> (0 \<le> ra_raw a) \<noteq> (0 \<le> m) \<and> (0 \<le> delta) \<noteq> (0 \<le> m)" for m
    by (auto simp: not_le)
  show ?thesis
    unfolding AddRaw_def Let_def n seam using assms by (auto simp: in_int32_def add_int32_def)
qed

lemma AddRaw_moves:
  assumes "in_int32 (ra_raw a)" "in_int32 delta" "\<bar>ra_revolutions a\<bar> < 2 ^ 31 - 1"
  shows "\<exists>b. AddRaw delta a = Some b \<and> in_int32 (ra_raw b) \<and> AbsoluteRaw b = AbsoluteRaw a + delta"
proof -
  define n where "n = ra_raw a + delta"
  define turns where "turns = (if n < - (2 ^ 31) then - 1 else if 2 ^ 31 \<le> n then 1 else 0 :: int)"
  have t: "in_int32 (n - turns * 2 ^ 32)" "in_int32 (ra_revolutions a + turns)"
    using assms by (auto simp: n_def turns_def in_int32_def abs_less_iff)
  then have "AddRaw delta a = Some (a\<lparr>ra_raw := n - turns * 2 ^ 32, ra_revolutions := ra_revolutions a + turns\<rparr>)"
    using AddRaw_absolute [OF assms(1,2)] unfolding n_def [symmetric] Let_def turns_def [symmetric]
    by (auto simp: add_int32_def)
  with t(1) show ?thesis
    by (simp add: AbsoluteRaw_def kCounts n_def algebra_simps)
qed

section \<open>Advancing\<close>

lemma representable_fraction:
  assumes "representable q"
  shows "representable (q - of_int (rtrunc q))" "representable (of_int (rtrunc q))" "\<bar>q - of_int (rtrunc q)\<bar> < 1"
proof -
  obtain m k where q: "q = of_int m * pow2 k" "\<bar>m\<bar> \<le> 2 ^ 24" "- 149 \<le> k"
    using assms by (auto simp: representable_def)
  show "\<bar>q - of_int (rtrunc q)\<bar> < 1"
    unfolding rtrunc_def by (auto simp: abs_less_iff) linarith+
  consider "0 \<le> k" | "k < 0" by linarith
  then have "representable (q - of_int (rtrunc q)) \<and> representable (of_int (rtrunc q))"
  proof cases
    case 1
    then have "q = of_int (m * 2 ^ nat k)" by (simp add: q pow2_nat)
    then have "of_int (rtrunc q) = q" unfolding rtrunc_def by (metis ceiling_of_int floor_of_int)
    with assms show ?thesis by simp
  next
    case 2
    let ?d = "2 ^ nat (- k) :: int"
    have p: "pow2 k = 1 / of_int ?d" using 2 by (simp add: pow2_def)
    have qd: "q = of_int m / of_int ?d" by (simp add: q p)
    define t where "t = rtrunc q"
    have t: "(0 \<le> m \<and> 0 \<le> t \<and> t * ?d \<le> m) \<or> (m < 0 \<and> t \<le> 0 \<and> m \<le> t * ?d)"
    proof (cases "0 \<le> m")
      case True
      then have "0 \<le> q" "t = \<lfloor>q\<rfloor>" by (simp_all add: qd t_def rtrunc_def)
      then have "0 \<le> t" "of_int t \<le> q" by simp_all
      then have "of_int (t * ?d) \<le> (of_int m :: rat)" by (simp add: qd pos_le_divide_eq)
      with True \<open>0 \<le> t\<close> show ?thesis by (simp only: of_int_le_iff simp_thms)
    next
      case False
      then have "q < 0" by (simp add: qd divide_less_0_iff)
      then have "t = \<lceil>q\<rceil>" "q < 0" by (simp_all add: t_def rtrunc_def)
      then have "t \<le> 0" "q \<le> of_int t" by simp_all
      then have "(of_int m :: rat) \<le> of_int (t * ?d)" by (simp add: qd pos_divide_le_eq)
      with False \<open>t \<le> 0\<close> show ?thesis by (simp only: of_int_le_iff simp_thms not_le)
    qed
    have "1 \<le> ?d" by simp
    then have "\<bar>t\<bar> \<le> \<bar>t\<bar> * ?d" using mult_left_mono [of 1 ?d "\<bar>t\<bar>"] by simp
    moreover have "\<bar>t\<bar> * ?d = \<bar>t * ?d\<bar>" by (simp add: abs_mult)
    moreover have "0 \<le> t \<Longrightarrow> 0 \<le> t * ?d" "t \<le> 0 \<Longrightarrow> t * ?d \<le> 0" by (simp_all add: mult_nonpos_nonneg)
    ultimately have bounds: "\<bar>t\<bar> \<le> 2 ^ 24" "\<bar>m - t * ?d\<bar> \<le> 2 ^ 24" using t q(2) by linarith+
    have "q - of_int t = of_int (m - t * ?d) * pow2 k" by (simp add: qd p diff_divide_distrib)
    then have "representable (q - of_int t)" unfolding representable_def using bounds q(3) by blast
    moreover have "representable (of_int t)"
      unfolding representable_def using bounds by (intro exI [of _ t] exI [of _ 0]) simp
    ultimately show ?thesis by (simp add: t_def)
  qed
  then show "representable (q - of_int (rtrunc q))" "representable (of_int (rtrunc q))" by simp_all
qed

lemma representable_scale: "representable q \<Longrightarrow> 0 \<le> e \<Longrightarrow> representable (q * pow2 e)"
proof -
  assume "representable q" "0 \<le> e"
  then obtain m k where "q = of_int m * pow2 k" "\<bar>m\<bar> \<le> 2 ^ 24" "- 149 \<le> k" by (auto simp: representable_def)
  with \<open>0 \<le> e\<close> have "q * pow2 e = of_int m * pow2 (k + e)" "- 149 \<le> k + e" by (simp_all add: pow2_add)
  with \<open>\<bar>m\<bar> \<le> 2 ^ 24\<close> show ?thesis unfolding representable_def by blast
qed

text \<open>Adding one half to a value of 24 bits or more is absorbed.\<close>

lemma rnd_absorb_half:
  assumes "representable x" "2 ^ 24 \<le> x"
  shows "rnd (x + 1 / 2) = x"
proof -
  define k where "k = ilog2 x - 23"
  have x: "0 < x" using assms(2) by (rule less_le_trans [rotated]) simp
  note b = ilog2_bounds [OF x]
  have "pow2 24 \<le> x" using assms(2) by (simp add: pow2_def)
  then have "pow2 24 < pow2 (ilog2 x + 1)" using b by linarith
  then have k: "1 \<le> k" by (simp add: k_def)
  have u: "ulp_exp x = k" using k x by (simp add: ulp_exp_def k_def)
  define n where "n = round_even (x / pow2 k)"
  have xn: "x = of_int n * pow2 k"
    using rnd_representable [OF assms(1)] x unfolding rnd_def u n_def by auto
  have n: "x / pow2 k = of_int n"
    unfolding xn by (rule nonzero_mult_div_cancel_right) simp
  have p: "2 \<le> pow2 k" using pow2_le_iff [of 1 k] k by (simp add: pow2_def)
  have "x + 1 / 2 < pow2 (k + 24)"
  proof -
    have "pow2 (k + 24) / pow2 k = of_int (2 ^ 24)" by (simp add: pow2_add pow2_def [of 24])
    moreover have "x / pow2 k < pow2 (k + 24) / pow2 k"
      using b by (intro divide_strict_right_mono) (simp_all add: k_def add.commute)
    ultimately have "n < 2 ^ 24" unfolding n by (simp only: of_int_less_iff)
    then have "x / pow2 k \<le> of_int (2 ^ 24 - 1)" unfolding n by (simp only: of_int_le_iff)
    then have "x \<le> of_int (2 ^ 24 - 1) * pow2 k" by (simp add: pos_divide_le_eq)
    also have "\<dots> = pow2 (k + 24) - pow2 k" by (simp add: pow2_add pow2_def [of 24] algebra_simps)
    finally show ?thesis using p by linarith
  qed
  moreover have "pow2 (k + 23) \<le> x + 1 / 2" using b by (simp add: k_def)
  moreover have "\<bar>(x + 1 / 2) / pow2 k - of_int n\<bar> < 1 / 2"
    using p unfolding add_divide_distrib n by (simp add: abs_less_iff divide_less_eq)
  ultimately have "rnd (x + 1 / 2) = of_int n * pow2 k"
    using k by (intro rnd_eval) auto
  then show ?thesis using xn by simp
qed

lemma round_half:
  assumes "representable x" "0 \<le> x"
  shows "x \<le> rnd (x + 1 / 2)" "rnd (x + 1 / 2) \<le> x + 1" "\<bar>of_int (rtrunc (rnd (x + 1 / 2))) - x\<bar> \<le> 1"
proof -
  have low: "x \<le> rnd (x + 1 / 2)"
    using rnd_mono [of x "x + 1 / 2"] rnd_representable [OF assms(1)] by simp
  have up: "rnd (x + 1 / 2) \<le> x + 1"
  proof (cases "x + 1 / 2 < 2 ^ 24")
    case True
    have "\<bar>rnd (x + 1 / 2) - (x + 1 / 2)\<bar> \<le> pow2 (24 - 25)"
      using True assms(2) by (intro rnd_error_below) (simp_all add: pow2_def)
    moreover have "pow2 (24 - 25) = 1 / 2" by (simp add: pow2_def)
    ultimately show ?thesis by linarith
  next
    case False
    show ?thesis
    proof (cases "2 ^ 24 \<le> x")
      case True
      then show ?thesis using rnd_absorb_half [OF assms(1)] by simp
    next
      case small: False
      have "x + 1 / 2 \<le> 2 ^ 24 + 1 / 2" using small by simp
      have "rnd (x + 1 / 2) \<le> rnd (2 ^ 24 + 1 / 2)" using small by (intro rnd_mono) simp
      also have "\<dots> = 2 ^ 24"
        using representable_pow2 [of 24] by (intro rnd_absorb_half) (simp_all add: pow2_def)
      finally show ?thesis using False by linarith
    qed
  qed
  show "x \<le> rnd (x + 1 / 2)" "rnd (x + 1 / 2) \<le> x + 1" using low up by simp_all
  have "of_int (rtrunc (rnd (x + 1 / 2))) \<le> rnd (x + 1 / 2)" "rnd (x + 1 / 2) < of_int (rtrunc (rnd (x + 1 / 2))) + 1"
    using low assms(2) floor_correct [of "rnd (x + 1 / 2)"] by (simp_all add: rtrunc_def)
  with low up show "\<bar>of_int (rtrunc (rnd (x + 1 / 2))) - x\<bar> \<le> 1" by (simp add: abs_le_iff)
qed

lemma rtrunc_minus: "rtrunc (- q) = - rtrunc q"
  by (auto simp: rtrunc_def ceiling_minus floor_minus)

lemma RoundToInt64_near:
  assumes "isfinite x" "representable (val x)" "\<bar>val x\<bar> \<le> 2 ^ 32"
  obtains n where "RoundToInt64 x = Some n" "\<bar>of_int n - val x\<bar> \<le> 1"
proof -
  let ?h = "f32_of (1/2)"
  have h: "isfinite ?h" "val ?h = 1 / 2" by (simp_all add: f32_eval)
  have small: "\<bar>val x + 1 / 2\<bar> \<le> pow2 127" "\<bar>val x - 1 / 2\<bar> \<le> pow2 127"
    using assms(3) by (simp_all add: pow2_def abs_le_iff)
  have cast: "cast_int64 y = Some (rtrunc (val y))" if "isfinite y" "\<bar>of_int (rtrunc (val y)) - val x\<bar> \<le> (1 :: rat)" for y
  proof -
    have "\<bar>of_int (rtrunc (val y)) :: rat\<bar> \<le> of_int (2 ^ 33)" using that(2) assms(3) by simp
    then have "\<bar>rtrunc (val y)\<bar> \<le> 2 ^ 33" by (simp only: of_int_abs [symmetric] of_int_le_iff)
    with that(1) show ?thesis by (auto simp: cast_int64_def f32_cast_def abs_le_iff)
  qed
  show thesis
  proof (cases "0 \<le> val x")
    case True
    note a = add_f32_finite [OF assms(1) h(1)]
    have y: "isfinite (x + ?h)" "val (x + ?h) = rnd (val x + 1 / 2)"
      using a small(1) by (simp_all add: h)
    have "\<bar>of_int (rtrunc (val (x + ?h))) - val x\<bar> \<le> 1"
      using round_half [OF assms(2) True] y(2) by simp
    moreover have "0 \<le> x" using True assms(1) by (simp add: le_finite zero_f32_def)
    ultimately show thesis using that cast [OF y(1)] by (auto simp: RoundToInt64_def)
  next
    case False
    note a = sub_f32_finite [OF assms(1) h(1)]
    have y: "isfinite (x - ?h)" "val (x - ?h) = rnd (val x - 1 / 2)"
      using a small(2) by (simp_all add: h)
    have "rnd (val x - 1 / 2) = - rnd (- val x + 1 / 2)" using rnd_minus [of "- val x + 1 / 2"] by simp
    then have "of_int (rtrunc (val (x - ?h))) - val x = - (of_int (rtrunc (rnd (- val x + 1 / 2))) - (- val x))"
      by (simp add: y(2) rtrunc_minus)
    then have "\<bar>of_int (rtrunc (val (x - ?h))) - val x\<bar> \<le> 1"
      using round_half(3) [of "- val x"] assms(2) False by simp
    moreover have "\<not> 0 \<le> x" using False assms(1) by (simp add: le_finite zero_f32_def)
    ultimately show thesis using that cast [OF y(1)] by (auto simp: RoundToInt64_def)
  qed
qed


lemma counts_constants [simp]: "isfinite kCountsPerRevolutionF" "val kCountsPerRevolutionF = 2 ^ 32"
proof -
  have "rnd (2 ^ 32) = 2 ^ 32" using rnd_representable [OF representable_pow2, of 32] by (simp add: pow2_def)
  then show "isfinite kCountsPerRevolutionF" "val kCountsPerRevolutionF = 2 ^ 32"
    using f32_of_finite [of "2 ^ 32"] by (simp_all add: kCountsPerRevolutionF_def kCountsPerRevolution_def f32_of_int_def pow2_def)
qed

text \<open>The revolutions of an angle, in the one rounded product that the code computes.\<close>

definition revolutions_of :: "f32 \<Rightarrow> rat" where
  "revolutions_of angle = val (angle * kRevolutionsPerRadian)"

lemma counts_of_angle_near:
  assumes "isfinite angle" "\<bar>val angle\<bar> \<le> 2 ^ 30"
  obtains counts carry where "counts_of_angle angle = Some (counts, carry)"
    "- (2 ^ 31) \<le> counts" "counts < 2 ^ 31" "\<bar>carry\<bar> \<le> 2 ^ 29"
    "\<bar>of_int (carry * 2 ^ 32 + counts) - revolutions_of angle * 2 ^ 32\<bar> \<le> 1"
proof -
  define r where "r = angle * kRevolutionsPerRadian"
  have k: "isfinite kRevolutionsPerRadian" "val kRevolutionsPerRadian = 10680707 / 67108864"
    by (simp_all add: kRevolutionsPerRadian_def)
  have q: "\<bar>val angle * (10680707 / 67108864)\<bar> \<le> pow2 28"
    using assms(2) by (simp add: abs_mult pow2_def)
  then have "\<bar>val angle * val kRevolutionsPerRadian\<bar> \<le> pow2 127"
    using pow2_le_iff [of 28 127] unfolding k by linarith
  note m = mul_f32_finite [OF assms(1) k(1) this]
  have r: "isfinite r" "val r = rnd (val angle * val kRevolutionsPerRadian)" using m by (simp_all add: r_def)
  have rep: "representable (val r)" by (simp add: r(2) representable_rnd)
  have rb: "\<bar>val r\<bar> \<le> 2 ^ 28" using rnd_abs_less_pow2 [OF q] by (simp add: r(2) k pow2_def)
  define c where "c = rtrunc (val r)"
  note F = representable_fraction [OF rep, folded c_def]
  have "\<bar>of_int c :: rat\<bar> \<le> of_int (2 ^ 28 + 1)" using F(3) rb by simp
  then have cb: "\<bar>c\<bar> \<le> 2 ^ 28 + 1" by (simp only: of_int_abs [symmetric] of_int_le_iff)
  have cast: "cast_int64 r = Some c" using r(1) cb by (auto simp: cast_int64_def f32_cast_def c_def abs_le_iff)
  have fc: "isfinite (f32_of_int c)" "val (f32_of_int c) = of_int c"
  proof -
    have "\<bar>of_int c :: rat\<bar> \<le> pow2 127" using cb by (simp add: pow2_def abs_le_iff)
    then show "isfinite (f32_of_int c)" "val (f32_of_int c) = of_int c"
      using f32_of_finite [of "of_int c"] rnd_representable [OF F(2)] by (simp_all add: f32_of_int_def)
  qed
  define f where "f = r - f32_of_int c"
  have "\<bar>val r - val (f32_of_int c)\<bar> \<le> pow2 127" using F(3) by (simp add: fc pow2_def)
  from sub_f32_finite [OF r(1) fc(1) this] have f: "isfinite f" "val f = val r - of_int c"
    using rnd_representable [OF F(1)] by (simp_all add: f_def fc)
  have xs: "representable (val f * 2 ^ 32)" "\<bar>val f * 2 ^ 32\<bar> \<le> 2 ^ 32"
    using representable_scale [OF F(1), of 32] F(3) by (simp_all add: f pow2_def abs_mult)
  then have "\<bar>val f * val kCountsPerRevolutionF\<bar> \<le> pow2 127" by (simp add: pow2_def)
  from mul_f32_finite [OF f(1) _ this] have x: "isfinite (f * kCountsPerRevolutionF)" "val (f * kCountsPerRevolutionF) = val f * 2 ^ 32"
    using rnd_representable [OF xs(1)] by simp_all
  obtain n where n: "RoundToInt64 (f * kCountsPerRevolutionF) = Some n" "\<bar>of_int n - val f * 2 ^ 32\<bar> \<le> 1"
    using RoundToInt64_near [OF x(1)] xs x(2) by metis
  have "\<bar>of_int n :: rat\<bar> < of_int (2 ^ 32 + 1)"
  proof -
    have "\<bar>val f * 2 ^ 32\<bar> < 2 ^ 32" using F(3) by (simp add: f abs_mult)
    then show ?thesis using n(2) by simp
  qed
  then have "\<bar>n\<bar> < 2 ^ 32 + 1" by (simp only: of_int_abs [symmetric] of_int_less_iff)
  then have nb: "\<bar>n\<bar> \<le> 2 ^ 32" by simp
  define res where "res = (if kCountsPerHalfRevolution \<le> n then (n - kCountsPerRevolution, c + 1)
      else if n < - kCountsPerHalfRevolution then (n + kCountsPerRevolution, c - 1) else (n, c))"
  have "counts_of_angle angle = Some res"
    using cast n(1) by (simp add: counts_of_angle_def Let_def r_def [symmetric] f_def [symmetric] res_def)
  moreover have "of_int (snd res * 2 ^ 32 + fst res) = of_int c * 2 ^ 32 + (of_int n :: rat)"
    by (simp add: res_def kCounts)
  moreover have "revolutions_of angle * 2 ^ 32 = of_int c * 2 ^ 32 + val f * 2 ^ 32"
    by (simp add: revolutions_of_def r_def [symmetric] f algebra_simps)
  moreover have "- (2 ^ 31) \<le> fst res" "fst res < 2 ^ 31" "\<bar>snd res\<bar> \<le> 2 ^ 29"
    using nb cb by (auto simp: res_def kCounts abs_le_iff)
  ultimately show thesis
    using that [of "fst res" "snd res"] n(2) by simp
qed

lemma Advance_moves:
  assumes "isfinite offset" "\<bar>val offset\<bar> \<le> 2 ^ 30"
    and "in_int32 (ra_raw a)" "\<bar>ra_revolutions a\<bar> < 2 ^ 30"
  shows "\<exists>b. Advance offset a = Some b \<and> in_int32 (ra_raw b)
    \<and> \<bar>of_int (AbsoluteRaw b - AbsoluteRaw a) - revolutions_of offset * 2 ^ 32\<bar> \<le> 1"
proof -
  obtain counts carry where C: "counts_of_angle offset = Some (counts, carry)"
    "- (2 ^ 31) \<le> counts" "counts < 2 ^ 31" "\<bar>carry\<bar> \<le> 2 ^ 29"
    "\<bar>of_int (carry * 2 ^ 32 + counts) - revolutions_of offset * 2 ^ 32\<bar> \<le> 1"
    using counts_of_angle_near [OF assms(1,2)] .
  have ci: "in_int32 counts" "in_int32 carry" using C(2-4) by (auto simp: in_int32_def abs_le_iff)
  have rev: "add_int32 (ra_revolutions a) carry = Some (ra_revolutions a + carry)" "\<bar>ra_revolutions a + carry\<bar> < 2 ^ 31 - 1"
    using assms(4) C(4) by (auto simp: add_int32_def in_int32_def abs_less_iff abs_le_iff)
  let ?a1 = "a\<lparr>ra_revolutions := ra_revolutions a + carry\<rparr>"
  have "\<exists>a2. AddRaw counts ?a1 = Some a2 \<and> in_int32 (ra_raw a2) \<and> AbsoluteRaw a2 = AbsoluteRaw a + (carry * 2 ^ 32 + counts)"
    using AddRaw_moves [of ?a1 counts] assms(3) ci(1) rev(2) by (auto simp: AbsoluteRaw_def kCounts algebra_simps)
  then obtain a2 where a2: "AddRaw counts ?a1 = Some a2" "in_int32 (ra_raw a2)"
    "AbsoluteRaw a2 = AbsoluteRaw a + (carry * 2 ^ 32 + counts)" by blast
  obtain b where b: "UpdateSinCos a2 = Some b" "ra_raw b = ra_raw a2" "ra_revolutions b = ra_revolutions a2"
    by (rule UpdateSinCos_total)
  have "Advance offset a = Some b"
    using C(1) rev(1) a2(1) b(1) ci by (simp add: Advance_def wrap32_id)
  moreover have "AbsoluteRaw b - AbsoluteRaw a = carry * 2 ^ 32 + counts"
    using a2(3) b by (simp add: AbsoluteRaw_def)
  ultimately show ?thesis using C(5) a2(2) b(2) by simp
qed

section \<open>Properties\<close>

text \<open>
  C17. Advancing by a finite angle of up to \<open>2 ^ 30\<close> rad moves the absolute position by the revolutions of the angle, to
  within one count of \<open>2 ^ -32\<close> revolutions, across any number of seams and in both directions; the
  phase stays a 32-bit count. Nothing but the one rounded product of the angle with \<open>1 / (2 pi)\<close> is lost, whatever
  the position is, so the angle does not degrade with the revolutions.
\<close>
theorem Advance_absolute:
  assumes "isfinite offset" "\<bar>val offset\<bar> \<le> 2 ^ 30"
    and "in_int32 (ra_raw a)" "\<bar>ra_revolutions a\<bar> < 2 ^ 30"
  shows "\<exists>b. Advance offset a = Some b \<and> in_int32 (ra_raw b)
    \<and> \<bar>of_int (AbsoluteRaw b - AbsoluteRaw a) - revolutions_of offset * 2 ^ 32\<bar> \<le> 1"
  by (rule Advance_moves [OF assms])

theorem Advance_absolute_witness:
  "\<exists>b. Advance (Fin (- 25)) RotorAngle_init = Some b \<and> in_int32 (ra_raw b)
    \<and> \<bar>of_int (AbsoluteRaw b - AbsoluteRaw RotorAngle_init) - revolutions_of (Fin (- 25)) * 2 ^ 32\<bar> \<le> 1"
  using Advance_absolute [of "Fin (- 25)" RotorAngle_init] by (simp add: RotorAngle_init_def in_int32_def)

text \<open>
  The absolute count and the pair of phase and revolutions are the same position: splitting an absolute count that
  leaves room for the rounding addition never fails, gives it back exactly and a phase that is a 32-bit count, and splitting the
  absolute count of an angle gives back that angle.
\<close>
theorem FromAbsoluteRaw_inverse:
  assumes "- (2 ^ 63) \<le> n" "n < 2 ^ 63 - 2 ^ 31"
  shows "\<exists>a. FromAbsoluteRaw n = Some a \<and> AbsoluteRaw a = n \<and> in_int32 (ra_raw a) \<and> in_int32 (ra_revolutions a)
    \<and> (\<forall>b. in_int32 (ra_raw b) \<longrightarrow> AbsoluteRaw b = n \<longrightarrow> same_angle a b)"
proof -
  define sh where "sh = n + 2 ^ 31"
  define q where "q = sh div 2 ^ 32"
  have "sh = q * 2 ^ 32 + sh mod 2 ^ 32" by (simp add: q_def)
  moreover have "0 \<le> sh mod 2 ^ 32" "sh mod 2 ^ 32 < 2 ^ 32" by simp_all
  ultimately have phase: "- (2 ^ 31) \<le> n - q * 2 ^ 32" "n - q * 2 ^ 32 < 2 ^ 31" by (simp_all add: sh_def)
  then have qb: "- (2 ^ 31) \<le> q" "q < 2 ^ 31" using assms by simp_all
  have floor: "(if mod_trunc sh (2 ^ 32) < 0 then div_trunc sh (2 ^ 32) - 1 else div_trunc sh (2 ^ 32)) = q"
  proof (cases "0 \<le> sh")
    case True
    then show ?thesis by (cases "sh = 0") (auto simp: mod_trunc_def div_trunc_def q_def minus_div_mult_eq_mod)
  next
    case False
    have d: "div_trunc sh (2 ^ 32) = - ((- sh) div 2 ^ 32)" using False by (simp add: div_trunc_def)
    have m: "mod_trunc sh (2 ^ 32) = - ((- sh) mod 2 ^ 32)"
      unfolding mod_trunc_def d by (simp add: minus_div_mult_eq_mod [symmetric])
    show ?thesis unfolding d m q_def by (simp add: zdiv_zminus1_eq_if [of "2 ^ 32" "- sh", simplified] zmod_zminus1_eq_if)
  qed
  obtain a where a: "UpdateSinCos (RotorAngle_init\<lparr>ra_raw := n - q * 2 ^ 32, ra_revolutions := q\<rparr>) = Some a"
      "ra_raw a = n - q * 2 ^ 32" "ra_revolutions a = q"
    by (metis RotorAngle.select_convs(1,2) RotorAngle.surjective RotorAngle.update_convs(1,2) UpdateSinCos_total)
  have sh64: "in_int64 (n + kCountsPerHalfRevolution)" using assms by (simp add: in_int64_def kCounts)
  have "FromAbsoluteRaw n = FromRaw (wrap32 (n - q * 2 ^ 32)) (wrap32 q)"
    using sh64 floor unfolding FromAbsoluteRaw_def Let_def kCounts sh_def [symmetric] by (simp del: power_numeral)
  moreover have "wrap32 (n - q * 2 ^ 32) = n - q * 2 ^ 32" "wrap32 q = q"
    using qb phase by (auto intro!: wrap32_id simp: in_int32_def)
  ultimately have "FromAbsoluteRaw n = Some a"
    using a(1) by (simp only: FromRaw_def)
  moreover have "same_angle a b" if "in_int32 (ra_raw b)" "AbsoluteRaw b = n" for b
  proof -
    have "n - q * 2 ^ 32 = (ra_revolutions b - q) * 2 ^ 32 + ra_raw b"
      using that(2) by (simp add: AbsoluteRaw_def kCounts algebra_simps)
    then have "ra_revolutions b = q" using phase that(1) by (simp add: in_int32_def)
    then show ?thesis using that(2) a by (simp add: same_angle_def AbsoluteRaw_def kCounts)
  qed
  ultimately show ?thesis
    using a(2,3) qb phase by (auto simp: AbsoluteRaw_def kCounts in_int32_def)
qed

theorem FromAbsoluteRaw_inverse_witness:
  "\<exists>a. FromAbsoluteRaw (- 2147483649) = Some a \<and> AbsoluteRaw a = - 2147483649"
  using FromAbsoluteRaw_inverse [of "- 2147483649"] by auto

text \<open>
  The difference of two angles is finite and within half a revolution, \<open>[-pi, pi]\<close> in the \<open>float\<close> of the source,
  whatever the phases are; two angles exactly half a revolution apart differ by \<open>-pi\<close> in both orders, so the lower bound
  is reached and the upper one only by rounding.
\<close>
theorem angle_difference_range:
  "isfinite (angle_difference a b) \<and> \<bar>val (angle_difference a b)\<bar> \<le> val kPi
    \<and> (wrap32 (ra_raw a - ra_raw b) = - (2 ^ 31) \<longrightarrow> angle_difference a b = - kPi \<and> angle_difference b a = - kPi)"
proof -
  define k where "k = wrap32 (ra_raw a - ra_raw b)"
  have kb: "\<bar>k\<bar> \<le> 2 ^ 31" using in_int32_wrap32 [of "ra_raw a - ra_raw b"] by (auto simp: k_def in_int32_def abs_le_iff)
  have "\<bar>of_int k :: rat\<bar> \<le> pow2 31" using kb by (simp add: pow2_def abs_le_iff)
  then have f: "isfinite (f32_of_int k)" "\<bar>val (f32_of_int k)\<bar> \<le> 2 ^ 31"
    using f32_of_finite [of "of_int k"] rnd_abs_less_pow2 [of "of_int k" 31] pow2_le_iff [of 31 127]
    by (auto simp: f32_of_int_def pow2_def)
  let ?c = "13176795 / 2097152 / 4294967296 :: rat"
  have p: "- (13176795 / 4194304) \<le> val (f32_of_int k) * ?c" "val (f32_of_int k) * ?c \<le> 13176795 / 4194304"
    using f(2) by (simp_all add: abs_le_iff)
  have c: "isfinite kRadiansPerCount" "val kRadiansPerCount = ?c" by (simp_all add: kRadiansPerCount_def)
  have "\<bar>val (f32_of_int k) * val kRadiansPerCount\<bar> \<le> pow2 127"
    using p by (simp add: c pow2_def abs_le_iff)
  note m = mul_f32_finite [OF f(1) c(1) this]
  have "rnd (val (f32_of_int k) * ?c) \<le> 13176795 / 4194304" "- (13176795 / 4194304) \<le> rnd (val (f32_of_int k) * ?c)"
    using rnd_between [of "- (13176795 / 4194304)" "13176795 / 4194304"] p by auto
  then have range: "isfinite (angle_difference a b)" "\<bar>val (angle_difference a b)\<bar> \<le> val kPi"
    using m by (simp_all add: angle_difference_def k_def [symmetric] c abs_le_iff)
  have half: "f32_of_int (- (2 ^ 31)) * kRadiansPerCount = - kPi"
  proof -
    have "rnd (2 ^ 31) = 2 ^ 31" "rnd (13176795 / 4194304) = 13176795 / 4194304"
      using rnd_representable [OF representable_pow2, of 31] rnd_representable [OF representable_pi(1)]
      by (simp_all add: pow2_def)
    then show ?thesis by (simp add: f32_eval kRadiansPerCount_def kPi_eq)
  qed
  have "wrap32 (ra_raw b - ra_raw a) = - (2 ^ 31)" if "wrap32 (ra_raw a - ra_raw b) = - (2 ^ 31)"
  proof -
    have "(ra_raw a - ra_raw b + 2 ^ 31) mod 2 ^ 32 = 0" using that by (simp add: wrap32_def)
    then have "2 ^ 32 dvd (ra_raw a - ra_raw b + 2 ^ 31)" by auto
    then have "2 ^ 32 dvd (2 ^ 32 - (ra_raw a - ra_raw b + 2 ^ 31))" by (rule dvd_diff [OF dvd_refl])
    moreover have "2 ^ 32 - (ra_raw a - ra_raw b + 2 ^ 31) = ra_raw b - ra_raw a + 2 ^ 31" by simp
    ultimately have "2 ^ 32 dvd ra_raw b - ra_raw a + 2 ^ 31" by (simp only:)
    then have "(ra_raw b - ra_raw a + 2 ^ 31) mod 2 ^ 32 = 0" by (rule dvd_imp_mod_0)
    then show ?thesis by (simp add: wrap32_def)
  qed
  with range half show ?thesis by (simp add: angle_difference_def)
qed

theorem angle_difference_range_witness:
  "angle_difference (RotorAngle_init\<lparr>ra_raw := - (2 ^ 31)\<rparr>) RotorAngle_init = - kPi"
  using angle_difference_range [of "RotorAngle_init\<lparr>ra_raw := - (2 ^ 31)\<rparr>" RotorAngle_init]
  by (simp add: RotorAngle_init_def wrap32_def)


end
