(* ===== verification/Float_Error.thy ===== *)
theory Float_Error
  imports Float32
begin

text \<open>
  Error bounds of binary32 expressions: \<open>near x q e\<close> says that the float \<open>x\<close> is finite and within \<open>e\<close> of the
  number \<open>q\<close> that the expression means. The rules follow the expressions; the exponent \<open>k\<close> bounds the magnitude of the
  result and so its rounding error \<open>2 ^ (k - 25)\<close>.
\<close>

definition near :: "f32 \<Rightarrow> rat \<Rightarrow> rat \<Rightarrow> bool" where
  "near x q e \<longleftrightarrow> isfinite x \<and> \<bar>val x - q\<bar> \<le> e"

lemma near_weaken: "near x q e \<Longrightarrow> e \<le> e' \<Longrightarrow> near x q e'"
  by (simp add: near_def)

lemma near_exact: "isfinite x \<Longrightarrow> near x (val x) 0"
  by (simp add: near_def)

lemma near_round:
  assumes "isfinite y" "val y = rnd p" "\<bar>p - q\<bar> \<le> e" "\<bar>q\<bar> + e < pow2 k" "- 125 \<le> k"
  shows "near y q (e + pow2 (k - 25))"
proof -
  have "\<bar>p\<bar> < pow2 k" using assms(3,4) by linarith
  then have "\<bar>rnd p - p\<bar> \<le> pow2 (k - 25)" using assms(5) by (rule rnd_error_below)
  then show ?thesis using assms(1-3) unfolding near_def by linarith
qed

lemma finite_bound: "\<bar>p - q\<bar> \<le> e \<Longrightarrow> \<bar>q\<bar> + e < pow2 k \<Longrightarrow> k \<le> 127 \<Longrightarrow> \<bar>p\<bar> \<le> pow2 127" for p q e :: rat
  using pow2_le_iff [of k 127] by linarith

lemma near_add:
  assumes "near x a d" "near y b e" "\<bar>a + b\<bar> + (d + e) < pow2 k" "- 125 \<le> k" "k \<le> 127"
  shows "near (x + y) (a + b) (d + e + pow2 (k - 25))"
proof -
  have p: "\<bar>(val x + val y) - (a + b)\<bar> \<le> d + e" using assms(1,2) unfolding near_def by linarith
  note f = add_f32_finite [of x y, OF _ _ finite_bound [OF p assms(3,5)]]
  show ?thesis
    using assms by (intro near_round [OF _ _ p]) (simp_all add: f near_def)
qed

lemma near_sub:
  assumes "near x a d" "near y b e" "\<bar>a - b\<bar> + (d + e) < pow2 k" "- 125 \<le> k" "k \<le> 127"
  shows "near (x - y) (a - b) (d + e + pow2 (k - 25))"
proof -
  have p: "\<bar>(val x - val y) - (a - b)\<bar> \<le> d + e" using assms(1,2) unfolding near_def by linarith
  note f = sub_f32_finite [of x y, OF _ _ finite_bound [OF p assms(3,5)]]
  show ?thesis
    using assms by (intro near_round [OF _ _ p]) (simp_all add: f near_def)
qed

lemma product_error:
  fixes x y a b :: rat
  assumes "\<bar>x - a\<bar> \<le> d" "\<bar>y - b\<bar> \<le> e" "\<bar>a\<bar> \<le> A" "\<bar>b\<bar> \<le> B"
  shows "\<bar>x * y - a * b\<bar> \<le> d * (B + e) + A * e"
proof -
  have "x * y - a * b = (x - a) * y + a * (y - b)" by (simp add: algebra_simps)
  then have "\<bar>x * y - a * b\<bar> \<le> \<bar>x - a\<bar> * \<bar>y\<bar> + \<bar>a\<bar> * \<bar>y - b\<bar>"
    by (metis abs_mult abs_triangle_ineq)
  also have "\<dots> \<le> d * (B + e) + A * e"
    using assms by (intro add_mono mult_mono) linarith+
  finally show ?thesis .
qed

lemma near_mult:
  assumes "near x a d" "near y b e" "\<bar>a\<bar> \<le> A" "\<bar>b\<bar> \<le> B" "\<bar>a * b\<bar> + (d * (B + e) + A * e) < pow2 k" "- 125 \<le> k" "k \<le> 127"
  shows "near (x * y) (a * b) (d * (B + e) + A * e + pow2 (k - 25))"
proof -
  have p: "\<bar>val x * val y - a * b\<bar> \<le> d * (B + e) + A * e"
    using assms by (intro product_error) (simp_all add: near_def)
  note f = mul_f32_finite [of x y, OF _ _ finite_bound [OF p assms(5,7)]]
  show ?thesis
    using assms by (intro near_round [OF _ _ p]) (simp_all add: f near_def)
qed

lemma near_literal:
  assumes "\<bar>q\<bar> < pow2 k" "- 125 \<le> k" "k \<le> 127"
  shows "near (f32_of q) q (pow2 (k - 25))"
proof -
  have "\<bar>q\<bar> \<le> pow2 127" using assms(1,3) pow2_le_iff [of k 127] by linarith
  from f32_of_finite [OF this] near_round [of "f32_of q" q q 0 k] assms show ?thesis by simp
qed

end
