(* ===== verification/Sin_Cos_Circle.thy ===== *)
theory Sin_Cos_Circle
  imports Rotor_Angle Float_Error
begin

text \<open>
  The pair of sine and cosine that \<open>PortableSinCosProvider\<close> computes lies on the unit circle to within one part in
  \<open>10 ^ 5\<close>, for every phase. The points of the table are checked once, by evaluation; the interpolation on a chord is
  a convexity argument over the rationals; the normalisation squares the remaining error; and the rounding of each
  operation is carried along by the error bounds of \<open>Float_Error\<close>.
\<close>

section \<open>The points of the table\<close>

text \<open>One pair of neighbouring table points, and all of them along the table.\<close>

definition point_check :: "int \<Rightarrow> int \<Rightarrow> bool" where
  "point_check s c \<longleftrightarrow> \<bar>s * s + c * c - 10 ^ 18\<bar> \<le> 2 * 10 ^ 9"

definition chord_check :: "int \<Rightarrow> int \<Rightarrow> int \<Rightarrow> int \<Rightarrow> bool" where
  "chord_check s c s' c' \<longleftrightarrow> 10 ^ 18 - 8 * 10 ^ 13 \<le> s * s' + c * c' \<and> s * s' + c * c' \<le> 10 ^ 18"

fun table_check :: "int list \<Rightarrow> int list \<Rightarrow> bool" where
  "table_check (s # s' # ss) (c # c' # cs) \<longleftrightarrow> point_check s c \<and> chord_check s c s' c' \<and> table_check (s' # ss) (c' # cs)"
| "table_check [s] [c] \<longleftrightarrow> point_check s c"
| "table_check _ _ = False"

lemma table_checkD:
  "table_check ss cs \<Longrightarrow> Suc i < length ss \<Longrightarrow>
    point_check (ss ! i) (cs ! i) \<and> point_check (ss ! Suc i) (cs ! Suc i) \<and> chord_check (ss ! i) (cs ! i) (ss ! Suc i) (cs ! Suc i)"
proof (induction ss cs arbitrary: i rule: table_check.induct)
  case (1 s s' ss c c' cs)
  show ?case
  proof (cases i)
    case 0
    have "point_check s' c'" using 1(2) by (cases "(ss, cs)" rule: prod.exhaust; cases ss; cases cs) auto
    with 1 0 show ?thesis by simp
  next
    case (Suc j)
    with 1 show ?thesis by simp
  qed
qed auto

definition table_part :: "nat \<Rightarrow> bool" where
  "table_part k = table_check (take 129 (drop k sin_table_digits)) (take 129 (drop (k + 128) sin_table_digits))"

lemma table_part_0: "table_part 0" by code_simp
lemma table_part_128: "table_part 128" by code_simp
lemma table_part_256: "table_part 256" by code_simp
lemma table_part_384: "table_part 384" by code_simp

lemma table_points:
  assumes "i < 512"
  shows "point_check (sin_table_digits ! i) (sin_table_digits ! (i + 128))"
    "point_check (sin_table_digits ! Suc i) (sin_table_digits ! (Suc i + 128))"
    "chord_check (sin_table_digits ! i) (sin_table_digits ! (i + 128)) (sin_table_digits ! Suc i) (sin_table_digits ! (Suc i + 128))"
proof -
  define k where "k = i div 128 * 128"
  have "i div 128 = 0 \<or> i div 128 = 1 \<or> i div 128 = 2 \<or> i div 128 = 3" using assms by linarith
  then have part: "table_part k" and k: "k \<le> 384"
    by (auto simp: k_def table_part_0 table_part_128 table_part_256 table_part_384)
  have i: "i = k + i mod 128" "k + 128 + i mod 128 = i + 128" "i mod 128 < 128" by (simp_all add: k_def)
  have l: "length sin_table_digits = 641" using length_sin_table by (simp add: kSinTable_def)
  show "point_check (sin_table_digits ! i) (sin_table_digits ! (i + 128))"
    "point_check (sin_table_digits ! Suc i) (sin_table_digits ! (Suc i + 128))"
    "chord_check (sin_table_digits ! i) (sin_table_digits ! (i + 128)) (sin_table_digits ! Suc i) (sin_table_digits ! (Suc i + 128))"
    using table_checkD [OF part [unfolded table_part_def], of "i mod 128"] k l i
    by (simp_all add: add.commute add.left_commute)
qed

section \<open>Interpolation on a chord of the unit circle\<close>

lemma chord_norm:
  fixes s c s' c' t :: rat
  assumes "\<bar>s * s + c * c - 1\<bar> \<le> u" "\<bar>s' * s' + c' * c' - 1\<bar> \<le> u" "1 - v \<le> s * s' + c * c'" "s * s' + c * c' \<le> 1"
    and "0 \<le> t" "t \<le> 1" "0 \<le> v"
  defines "S \<equiv> s + t * (s' - s)" and "C \<equiv> c + t * (c' - c)"
  shows "1 - u - v / 2 \<le> S * S + C * C" "S * S + C * C \<le> 1 + u"
proof -
  have n: "S * S + C * C = (1 - t) * (1 - t) * (s * s + c * c) + t * t * (s' * s' + c' * c') + 2 * (t * (1 - t)) * (s * s' + c * c')"
    by (simp add: S_def C_def algebra_simps)
  have sq: "0 \<le> (1 - t) * (1 - t)" "0 \<le> t * t" "0 \<le> 2 * (t * (1 - t))" using assms(5,6) by simp_all
  have quarter: "t * (1 - t) \<le> 1 / 4"
    using zero_le_square [of "t - 1 / 2"] by (simp add: algebra_simps)
  have one: "(1 - t) * (1 - t) + t * t + 2 * (t * (1 - t)) = 1" by (simp add: algebra_simps)
  have up: "(1 - t) * (1 - t) * (s * s + c * c) \<le> (1 - t) * (1 - t) * (1 + u)" "t * t * (s' * s' + c' * c') \<le> t * t * (1 + u)"
      "2 * (t * (1 - t)) * (s * s' + c * c') \<le> 2 * (t * (1 - t)) * (1 + u)"
    using assms(1,2,4) sq by (intro mult_left_mono; simp add: abs_le_iff)+
  have "S * S + C * C \<le> ((1 - t) * (1 - t) + t * t + 2 * (t * (1 - t))) * (1 + u)"
    unfolding n distrib_right using up by linarith
  then show "S * S + C * C \<le> 1 + u" by (simp add: one)
  have lo: "(1 - t) * (1 - t) * (1 - u) \<le> (1 - t) * (1 - t) * (s * s + c * c)" "t * t * (1 - u) \<le> t * t * (s' * s' + c' * c')"
      "2 * (t * (1 - t)) * (1 - v - u) \<le> 2 * (t * (1 - t)) * (s * s' + c * c')"
    using assms(1-3) sq by (intro mult_left_mono; simp add: abs_le_iff)+
  have "2 * (t * (1 - t)) * v \<le> v / 2" using mult_right_mono [OF quarter assms(7)] by simp
  moreover have "((1 - t) * (1 - t) + t * t + 2 * (t * (1 - t))) * (1 - u) - 2 * (t * (1 - t)) * v \<le> S * S + C * C"
    unfolding n distrib_right using lo by (simp add: algebra_simps)
  ultimately show "1 - u - v / 2 \<le> S * S + C * C" by (simp add: one)
qed

lemma normalised:
  fixes n e :: rat
  assumes "n = 1 - e" "\<bar>e\<bar> \<le> 1 / 20000"
  shows "\<bar>n * ((3 / 2 - n / 2) * (3 / 2 - n / 2)) - 1\<bar> \<le> 1 / 100000000"
proof -
  have 1: "n * ((3 / 2 - n / 2) * (3 / 2 - n / 2)) - 1 = - (3 / 4) * (e * e) - (e * e) * e / 4"
    by (simp add: assms(1) algebra_simps) (simp add: field_simps)
  have 2: "\<bar>e * e\<bar> \<le> 1 / 400000000" using mult_mono [OF assms(2) assms(2)] by (simp add: abs_mult)
  have 3: "\<bar>(e * e) * e\<bar> \<le> 1 / 400000000 * (1 / 20000)"
    unfolding abs_mult [of "e * e"] by (rule mult_mono [OF 2 assms(2)]) simp_all
  define x where "x = e * e"
  define y where "y = x * e"
  show ?thesis unfolding 1 using 2 3 unfolding x_def [symmetric] y_def [symmetric] by linarith
qed

lemma circle_coordinate:
  fixes x y :: rat
  assumes "\<bar>x * x + y * y - 1\<bar> \<le> 1 / 10000"
  shows "\<bar>x\<bar> \<le> 10001/10000"
proof -
  have "x * x \<le> 10001/10000 * (10001/10000)" using assms zero_le_square [of y] by linarith
  then show ?thesis using abs_le_square_iff [of x "10001/10000"] by (simp add: power2_eq_square)
qed

lemma interpolate_near:
  assumes "near a p (pow2 (-24))" "near b q (pow2 (-24))" "isfinite t" "0 \<le> val t" "val t \<le> 1"
    "\<bar>p\<bar> \<le> 10001/10000" "\<bar>q\<bar> \<le> 10001/10000" "\<bar>p + val t * (q - p)\<bar> \<le> 10001/10000"
  shows "near (LinearInterpolate a b t) (p + val t * (q - p)) (8 * pow2 (-24))"
proof -
  have d: "near (b - a) (q - p) (4 * pow2 (-24))"
    by (rule near_weaken [OF near_sub [OF assms(2,1), of 2]]) (use assms(6,7) in \<open>simp_all add: pow2_def abs_le_iff\<close>)
  have tb: "\<bar>val t\<bar> \<le> 1" and qp: "\<bar>q - p\<bar> \<le> 10001/5000" using assms(4-7) by linarith+
  have "\<bar>val t * (q - p)\<bar> \<le> 1 * (10001/5000)" unfolding abs_mult using tb qp by (intro mult_mono) simp_all
  then have m: "near (t * (b - a)) (val t * (q - p)) (6 * pow2 (-24))"
    by (intro near_weaken [OF near_mult [OF near_exact [OF assms(3)] d tb qp, of 2]]) (simp_all add: pow2_def)
  show ?thesis unfolding LinearInterpolate_def
    by (rule near_weaken [OF near_add [OF assms(1) m, of 1]]) (use assms(8) in \<open>simp_all add: pow2_def\<close>)
qed

lemma near_square:
  assumes "near x q (8 * pow2 (-24))" "\<bar>q\<bar> \<le> 10001/10000"
  shows "near (x * x) (q * q) (18 * pow2 (-24))"
proof -
  have "\<bar>q * q\<bar> \<le> 10001/10000 * (10001/10000)" unfolding abs_mult using assms(2) by (intro mult_mono) simp_all
  then show ?thesis
    by (intro near_weaken [OF near_mult [OF assms(1,1,2,2), of 1]]) (simp_all add: pow2_def)
qed

lemma normalisation_near:
  assumes "near s p (8 * pow2 (-24))" "near c q (8 * pow2 (-24))" "\<bar>p\<bar> \<le> 10001/10000" "\<bar>q\<bar> \<le> 10001/10000"
    "\<bar>p * p + q * q\<bar> \<le> 10001/10000" "\<bar>3/2 - 1/2 * (p * p + q * q)\<bar> \<le> 10001/10000"
  shows "near (f32_of (3/2) - f32_of (1/2) * (s * s + c * c)) (3/2 - 1/2 * (p * p + q * q)) (22 * pow2 (-24))"
proof -
  have n: "near (s * s + c * c) (p * p + q * q) (37 * pow2 (-24))"
    by (rule near_weaken [OF near_add [OF near_square [OF assms(1,3)] near_square [OF assms(2,4)], of 1]])
      (use assms(5) in \<open>simp_all add: pow2_def\<close>)
  have h: "near (f32_of (1/2)) (1/2) 0" "near (f32_of (3/2)) (3/2) 0"
    using f32_of_finite [of "1/2"] f32_of_finite [of "3/2"] rnd_eval [of "-24" "1/2" 8388608] rnd_eval [of "-23" "3/2" 12582912]
    by (simp_all add: near_def pow2_def)
  have "\<bar>1/2 * (p * p + q * q)\<bar> \<le> 10001/10000" using assms(5) by simp
  then have "near (f32_of (1/2) * (s * s + c * c)) (1/2 * (p * p + q * q)) (20 * pow2 (-24))"
    by (intro near_weaken [OF near_mult [OF h(1) n _ assms(5), of "1/2" 1]]) (simp_all add: pow2_def add_divide_distrib)
  from near_sub [OF h(2) this, of 1] show ?thesis
    by (rule near_weaken) (use assms(6) in \<open>simp_all add: pow2_def\<close>)
qed

lemma scaled_near:
  assumes "near s p (8 * pow2 (-24))" "near n r (22 * pow2 (-24))" "\<bar>p\<bar> \<le> 10001/10000" "\<bar>r\<bar> \<le> 10001/10000"
  shows "near (s * n) (p * r) (32 * pow2 (-24))"
proof -
  have "\<bar>p * r\<bar> \<le> 10001/10000 * (10001/10000)" unfolding abs_mult using assms(3,4) by (intro mult_mono) simp_all
  then show ?thesis
    by (intro near_weaken [OF near_mult [OF assms, of 1]]) (simp_all add: pow2_def)
qed

lemma square_error:
  assumes "near x q (32 * pow2 (-24))" "\<bar>q\<bar> \<le> 1001/1000"
  shows "\<bar>val x * val x - q * q\<bar> \<le> 65 * pow2 (-24)"
proof -
  have "\<bar>val x * val x - q * q\<bar> \<le> 32 * pow2 (-24) * (1001/1000 + 32 * pow2 (-24)) + 1001/1000 * (32 * pow2 (-24))"
    using assms by (intro product_error) (simp_all add: near_def)
  then show ?thesis by (simp add: pow2_def)
qed

section \<open>The phase on the table\<close>

lemma table_entry:
  assumes "i < 641"
  shows "near (kSinTable ! i) (of_int (sin_table_digits ! i) / 10 ^ 9) (pow2 (-24))"
proof -
  have l: "length sin_table_digits = 641" using length_sin_table by (simp add: kSinTable_def)
  have "list_all (\<lambda>n. \<bar>n\<bar> \<le> 10 ^ 9) sin_table_digits" by (simp add: sin_table_digits_def)
  then have "\<bar>sin_table_digits ! i\<bar> \<le> 10 ^ 9" using assms l by (simp add: list_all_length)
  then have "\<bar>of_int (sin_table_digits ! i) / 10 ^ 9 :: rat\<bar> < pow2 1" by (simp add: pow2_def abs_le_iff abs_less_iff)
  from near_literal [OF this] show ?thesis using assms l by (simp add: kSinTable_def)
qed

lemma point_bounds:
  assumes "point_check s c"
  defines "p \<equiv> of_int s / 10 ^ 9 :: rat" and "q \<equiv> of_int c / 10 ^ 9 :: rat"
  shows "\<bar>p * p + q * q - 1\<bar> \<le> 2 / 10 ^ 9" "\<bar>p\<bar> \<le> 10001/10000" "\<bar>q\<bar> \<le> 10001/10000"
proof -
  define x where "x = s * s + c * c - 10 ^ 18"
  have "\<bar>x\<bar> \<le> 2 * 10 ^ 9" using assms(1) by (simp add: point_check_def x_def)
  then have x: "\<bar>of_int x :: rat\<bar> \<le> 2 * 10 ^ 9" by (simp add: abs_le_iff)
  have e: "p * p + q * q - 1 = of_int x / 10 ^ 18" by (simp add: x_def p_def q_def field_simps)
  show n: "\<bar>p * p + q * q - 1\<bar> \<le> 2 / 10 ^ 9" unfolding e abs_divide using x by simp
  then have "\<bar>p * p + q * q - 1\<bar> \<le> 1 / 10000" by simp
  then show "\<bar>p\<bar> \<le> 10001/10000" "\<bar>q\<bar> \<le> 10001/10000"
    using circle_coordinate [of p q] circle_coordinate [of q p] by (simp_all add: add.commute)
qed


lemma chord_bounds:
  assumes "chord_check s c s' c'"
  shows "1 - 8 / 10 ^ 5 \<le> of_int s / 10 ^ 9 * (of_int s' / 10 ^ 9) + of_int c / 10 ^ 9 * (of_int c' / 10 ^ 9 :: rat)"
    "of_int s / 10 ^ 9 * (of_int s' / 10 ^ 9) + of_int c / 10 ^ 9 * (of_int c' / 10 ^ 9 :: rat) \<le> 1"
proof -
  define x where "x = s * s' + c * c'"
  have "10 ^ 18 - 8 * 10 ^ 13 \<le> x" "x \<le> 10 ^ 18" using assms by (simp_all add: chord_check_def x_def)
  then have "of_int (10 ^ 18 - 8 * 10 ^ 13) \<le> (of_int x :: rat)" "of_int x \<le> (of_int (10 ^ 18) :: rat)"
    unfolding of_int_le_iff by simp_all
  moreover have "of_int s / 10 ^ 9 * (of_int s' / 10 ^ 9) + of_int c / 10 ^ 9 * (of_int c' / 10 ^ 9) = (of_int x / 10 ^ 18 :: rat)"
    by (simp add: x_def field_simps)
  ultimately show "1 - 8 / 10 ^ 5 \<le> of_int s / 10 ^ 9 * (of_int s' / 10 ^ 9) + of_int c / 10 ^ 9 * (of_int c' / 10 ^ 9 :: rat)"
    "of_int s / 10 ^ 9 * (of_int s' / 10 ^ 9) + of_int c / 10 ^ 9 * (of_int c' / 10 ^ 9 :: rat) \<le> 1"
    by simp_all
qed

lemma interpolation_factor:
  fixes w :: u32
  defines "t \<equiv> f32_of_int (uint (w AND kSinTableFractionMask)) * kSinTableFractionScale"
  shows "isfinite t" "0 \<le> val t" "val t \<le> 1"
proof -
  define n where "n = uint (w AND kSinTableFractionMask)"
  have "w AND kSinTableFractionMask = take_bit 23 w"
    by (simp add: kSinTableFractionMask_def kSinTableFractionBits_def take_bit_eq_mask mask_eq_exp_minus_1)
  then have "n = take_bit 23 (uint w)" by (simp add: n_def unsigned_take_bit_eq)
  then have n: "0 \<le> n" "n < 2 ^ 23" using take_bit_int_less_exp [of 23 "uint w"] by simp_all
  then have i: "isfinite (f32_of_int n)" "val (f32_of_int n) = of_int n"
    using f32_of_finite [of "of_int n"] rnd_of_int [of n] pow2_nat [of 127] by (simp_all add: f32_of_int_def)
  have c: "isfinite kSinTableFractionScale" "val kSinTableFractionScale = 1 / 8388608"
    using rnd_eval [of "-46" "1 / 8388608" 8388608]
    by (simp_all add: kSinTableFractionScale_def kSinTableFractionBits_def f32_eval pow2_def)
  have p: "0 \<le> of_int n / (8388608 :: rat)" "of_int n / (8388608 :: rat) \<le> 1"
    using n by (simp_all add: divide_le_eq)
  note m = mul_f32_finite [OF i(1) c(1)]
  have "isfinite t \<and> val t = rnd (of_int n / 8388608)"
    using m p pow2_le_iff [of 0 127] by (simp add: t_def n_def [symmetric] i c)
  then show "isfinite t" "0 \<le> val t" "val t \<le> 1"
    using rnd_between [of 0 1 "of_int n / 8388608"] p representable_pow2 [of 0] by simp_all
qed


section \<open>The provider\<close>

lemma entry_circle:
  assumes "near a p (pow2 (-24))" "near b q (pow2 (-24))" "near a' p' (pow2 (-24))" "near b' q' (pow2 (-24))"
    and "\<bar>p * p + q * q - 1\<bar> \<le> 2 / 10 ^ 9" "\<bar>p' * p' + q' * q' - 1\<bar> \<le> 2 / 10 ^ 9"
      "1 - 8 / 10 ^ 5 \<le> p * p' + q * q'" "p * p' + q * q' \<le> 1"
    and "\<bar>p\<bar> \<le> 10001/10000" "\<bar>q\<bar> \<le> 10001/10000" "\<bar>p'\<bar> \<le> 10001/10000" "\<bar>q'\<bar> \<le> 10001/10000"
    and "isfinite t" "0 \<le> val t" "val t \<le> 1"
  defines "s \<equiv> LinearInterpolate a a' t" and "c \<equiv> LinearInterpolate b b' t"
  defines "n \<equiv> f32_of (3/2) - f32_of (1/2) * (s * s + c * c)"
  shows "isfinite (s * n) \<and> isfinite (c * n) \<and> \<bar>val (s * n) * val (s * n) + val (c * n) * val (c * n) - 1\<bar> \<le> 1 / 10 ^ 5"
proof -
  define S where "S = p + val t * (p' - p)"
  define C where "C = q + val t * (q' - q)"
  define N where "N = S * S + C * C"
  have N: "1 - 1 / 20000 \<le> N" "N \<le> 1 + 1 / 20000"
    using chord_norm [OF assms(5-8,14,15)] by (simp_all add: N_def S_def C_def)
  have "\<bar>S * S + C * C - 1\<bar> \<le> 1 / 10000" using N unfolding N_def by linarith
  then have SC: "\<bar>S\<bar> \<le> 10001/10000" "\<bar>C\<bar> \<le> 10001/10000"
    using circle_coordinate [of S C] circle_coordinate [of C S] by (simp_all add: add.commute)
  have s: "near s S (8 * pow2 (-24))" unfolding s_def S_def
    using assms(1,3,9,11,13-15) SC(1) by (intro interpolate_near) (simp_all add: S_def)
  have c: "near c C (8 * pow2 (-24))" unfolding c_def C_def
    using assms(2,4,10,12,13-15) SC(2) by (intro interpolate_near) (simp_all add: C_def)
  define R where "R = 3/2 - 1/2 * N"
  have R: "\<bar>R\<bar> \<le> 10001/10000" and N': "\<bar>N\<bar> \<le> 10001/10000" using N unfolding R_def by linarith+
  have n: "near n R (22 * pow2 (-24))" unfolding n_def R_def N_def
    using normalisation_near [OF s c SC] R N' by (simp add: R_def N_def)
  note sn = scaled_near [OF s n SC(1) R] and cn = scaled_near [OF c n SC(2) R]
  have small: "\<bar>S * R\<bar> \<le> 1001/1000" "\<bar>C * R\<bar> \<le> 1001/1000"
    using mult_mono [OF SC(1) R] mult_mono [OF SC(2) R] unfolding abs_mult by simp_all
  have "(S * R) * (S * R) + (C * R) * (C * R) = N * (R * R)" by (simp add: N_def algebra_simps)
  moreover have "\<bar>N * (R * R) - 1\<bar> \<le> 1 / 100000000"
  proof -
    have "\<bar>1 - N\<bar> \<le> 1 / 20000" using N by linarith
    then show ?thesis using normalised [of N "1 - N"] unfolding R_def by simp
  qed
  ultimately have "\<bar>val (s * n) * val (s * n) + val (c * n) * val (c * n) - 1\<bar> \<le> 1 / 100000000 + 130 * pow2 (-24)"
    using square_error [OF sn small(1)] square_error [OF cn small(2)] by linarith
  then show ?thesis using sn cn by (simp add: near_def pow2_def)
qed

lemma Calculate_circle:
  "\<exists>sc. Calculate raw = Some sc \<and> isfinite (sc_sin sc) \<and> isfinite (sc_cos sc)
    \<and> \<bar>val (sc_sin sc) * val (sc_sin sc) + val (sc_cos sc) * val (sc_cos sc) - 1\<bar> \<le> 1 / 10 ^ 5"
proof -
  define w where "w = (word_of_int raw :: u32)"
  define i where "i = unat (drop_bit kSinTableFractionBits w)"
  have i: "i < 512" unfolding i_def by (rule table_index_bound)
  note P = table_points [OF i]
  note e = table_entry [of i] table_entry [of "i + 128"] table_entry [of "Suc i"] table_entry [of "Suc i + 128"]
  note circle = entry_circle [OF e point_bounds(1) [OF P(1)] point_bounds(1) [OF P(2)] chord_bounds [OF P(3)]
    point_bounds(2,3) [OF P(1)] point_bounds(2,3) [OF P(2)] interpolation_factor [of w]]
  show ?thesis
    using i circle by (simp add: Calculate_def table_at_def Let_def kSinTableQuarterSize_def kSinTableSize_def w_def [symmetric] i_def [symmetric])
qed

text \<open>
  C18. For every phase the table lookup stays within the table, and the sine and cosine it returns are finite and
  lie on the unit circle: the sum of their squares is within \<open>10 ^ -5\<close> of one, all roundings included.
\<close>
theorem sin_cos_unit_circle:
  "\<exists>sc. Calculate raw = Some sc \<and> isfinite (sc_sin sc) \<and> isfinite (sc_cos sc)
    \<and> \<bar>val (sc_sin sc) * val (sc_sin sc) + val (sc_cos sc) * val (sc_cos sc) - 1\<bar> \<le> 1 / 10 ^ 5"
  by (rule Calculate_circle)

end
