(* ===== verification/Nvm_Settings.thy ===== *)
theory Nvm_Settings
  imports Units
begin

text \<open>
  The persistent configuration \<open>NvmSettings\<close> of \<open>lib/settings/nvm_settings.hpp\<close> with its factory values, the node
  identity of \<open>lib/cyphal/node_identity.hpp\<close>, the default port-IDs of \<open>lib/cyphal/cyphal_interface.hpp\<close> and the
  profile of \<open>lib/settings/settings_profile.hpp\<close>.

  Every field of the struct is a field of the record, with the prefix \<open>nvm_\<close>. Quantities are \<open>f32\<close>; the
  enums, which are stored as one byte and can hold any byte after a cast, are \<open>u8\<close> with named
  values. The literals are rounded to \<open>float\<close> once (no literal of the struct lies so close to a rounding boundary that
  the \<open>long double\<close> of the literal operators matters).
\<close>

section \<open>Enums\<close>

definition kPmsm :: u8 where
  "kPmsm = 0"

definition kAsm :: u8 where
  "kAsm = 1"

definition kEesm :: u8 where
  "kEesm = 2"

definition kTorque :: u8 where
  "kTorque = 0"

definition kSpeed :: u8 where
  "kSpeed = 1"

definition kPosition :: u8 where
  "kPosition = 2"

text \<open>The mode a UDRAL servo setpoint selects: its first finite member decides.\<close>

definition SelectControlModeFromUdralServoRotation :: "f32 \<Rightarrow> f32 \<Rightarrow> f32 \<Rightarrow> f32 \<Rightarrow> u8 option" where
  "SelectControlModeFromUdralServoRotation angular_position angular_velocity angular_acceleration torque =
    (if isfinite angular_position then Some kPosition
     else if isfinite angular_velocity then Some kSpeed
     else if isfinite angular_acceleration then None
     else if isfinite torque then Some kTorque
     else None)"

section \<open>Node identity\<close>

definition kNodeNameMaxLen :: nat where
  "kNodeNameMaxLen = 50"

text \<open>The name is an array of \<open>kNodeNameMaxLen + 1\<close> characters; the software version comes from the build.\<close>

record NodeIdentity =
  ni_name :: "u8 list"
  ni_hw_version_major :: u8
  ni_hw_version_minor :: u8
  ni_sw_version_major :: u8
  ni_sw_version_minor :: u8

definition zero_padded :: "u8 list \<Rightarrow> u8 list" where
  "zero_padded xs = xs @ replicate (kNodeNameMaxLen + 1 - length xs) 0"

text \<open>The default name is \<open>unimoc\<close> (ASCII).\<close>

definition NodeIdentity_default :: "u8 \<Rightarrow> u8 \<Rightarrow> NodeIdentity" where
  "NodeIdentity_default sw_major sw_minor = \<lparr>
    ni_name = zero_padded [117, 110, 105, 109, 111, 99],
    ni_hw_version_major = 1,
    ni_hw_version_minor = 0,
    ni_sw_version_major = sw_major,
    ni_sw_version_minor = sw_minor\<rparr>"

text \<open>\<open>SetName\<close> copies at most \<open>kNodeNameMaxLen\<close> characters and terminates them; what follows stays as it was.\<close>

fun copy_chars :: "nat \<Rightarrow> u8 list \<Rightarrow> u8 list \<Rightarrow> u8 list" where
  "copy_chars i [] name = name"
| "copy_chars i (c # cs) name = copy_chars (Suc i) cs (name[i := c])"

definition SetName :: "u8 list \<Rightarrow> NodeIdentity \<Rightarrow> NodeIdentity" where
  "SetName new_name ident =
    (let len = min (length new_name) kNodeNameMaxLen
     in ident\<lparr>ni_name := (copy_chars 0 (take len new_name) (ni_name ident))[len := 0]\<rparr>)"

text \<open>\<open>GetName\<close> scans for the terminator, at most to the end of the array.\<close>

fun terminated_prefix :: "nat \<Rightarrow> u8 list \<Rightarrow> u8 list" where
  "terminated_prefix 0 name = []"
| "terminated_prefix (Suc n) [] = []"
| "terminated_prefix (Suc n) (c # cs) = (if c = 0 then [] else c # terminated_prefix n cs)"

definition GetName :: "NodeIdentity \<Rightarrow> u8 list" where
  "GetName ident = terminated_prefix (kNodeNameMaxLen + 1) (ni_name ident)"

lemma length_copy_chars [simp]: "length (copy_chars i cs name) = length name"
  by (induction i cs name rule: copy_chars.induct) auto

lemma copy_chars_eq: "i + length cs \<le> length name \<Longrightarrow>
    copy_chars i cs name = take i name @ cs @ drop (i + length cs) name"
proof (induction i cs name rule: copy_chars.induct)
  case (2 i c cs name)
  then have "copy_chars i (c # cs) name = take (Suc i) (name[i := c]) @ cs @ drop (Suc i + length cs) (name[i := c])"
    by simp
  moreover have "take (Suc i) (name[i := c]) = take i name @ [c]" "drop (Suc i + length cs) (name[i := c]) = drop (i + length (c # cs)) name"
    using 2 by (simp_all add: take_Suc_conv_app_nth)
  ultimately show ?case
    by simp
qed simp

lemma terminated_prefix_append: "0 \<notin> set cs \<Longrightarrow> length cs < n \<Longrightarrow> terminated_prefix n (cs @ 0 # rest) = cs"
proof (induction cs arbitrary: n)
  case Nil
  then show ?case by (cases n) auto
next
  case (Cons c cs)
  then show ?case by (cases n) auto
qed

text \<open>A name of printable length survives: what \<open>GetName\<close> returns is the name cut to its length.\<close>

lemma GetName_SetName:
  assumes "length (ni_name ident) = kNodeNameMaxLen + 1" and "0 \<notin> set new_name"
  shows "GetName (SetName new_name ident) = take kNodeNameMaxLen new_name"
proof -
  define len where "len = min (length new_name) kNodeNameMaxLen"
  have len: "length (take len new_name) = len" "len < length (ni_name ident)"
    using assms(1) by (auto simp: len_def)
  have "(copy_chars 0 (take len new_name) (ni_name ident))[len := 0]
      = take len new_name @ 0 # drop (Suc len) (ni_name ident)"
    using len by (simp add: copy_chars_eq list_update_append Cons_nth_drop_Suc [symmetric])
  moreover have "0 \<notin> set (take len new_name)"
    using assms(2) by (auto dest: in_set_takeD)
  ultimately have "GetName (SetName new_name ident) = take len new_name"
    using len assms(1) unfolding GetName_def SetName_def Let_def len_def [symmetric]
    by (simp add: terminated_prefix_append)
  then show ?thesis
    by (cases "length new_name \<le> kNodeNameMaxLen") (simp_all add: len_def)
qed

section \<open>Port-IDs\<close>

definition kPubCommissioning :: u16 where
  "kPubCommissioning = 215"

definition kPubDriveStatus :: u16 where
  "kPubDriveStatus = 214"

definition kPubHomingState :: u16 where
  "kPubHomingState = 204"

definition kPubTelemetry :: u16 where
  "kPubTelemetry = 212"

definition kReadinessFollowsNodeId :: u16 where
  "kReadinessFollowsNodeId = 65534"

definition kSrvCymonArm :: u16 where
  "kSrvCymonArm = 123"

definition kSrvCymonBufferInfo :: u16 where
  "kSrvCymonBufferInfo = 121"

definition kSrvCymonRead :: u16 where
  "kSrvCymonRead = 124"

definition kSrvCymonSetup :: u16 where
  "kSrvCymonSetup = 122"

definition kSrvCymonVariables :: u16 where
  "kSrvCymonVariables = 120"

definition kSubBatteryStatus :: u16 where
  "kSubBatteryStatus = 112"

definition kSubCurrentSetpoint :: u16 where
  "kSubCurrentSetpoint = 107"

definition kSubPedalState :: u16 where
  "kSubPedalState = 111"

definition kSubPositionSetpoint :: u16 where
  "kSubPositionSetpoint = 102"

definition kSubServoSetpoint :: u16 where
  "kSubServoSetpoint = 108"

definition kSubSpeedSetpoint :: u16 where
  "kSubSpeedSetpoint = 101"

definition kSubTorqueSetpoint :: u16 where
  "kSubTorqueSetpoint = 100"

definition kSubWheelCommand :: u16 where
  "kSubWheelCommand = 110"

definition kUnsetPortId :: u16 where
  "kUnsetPortId = 65535"

definition kSubReadinessBase :: u16 where
  "kSubReadinessBase = 1024"

definition kMaxServiceId :: u16 where
  "kMaxServiceId = 511"

text \<open>The readiness subject follows the node-ID when the register says so.\<close>

definition EffectiveReadinessId :: "u16 \<Rightarrow> u8 \<Rightarrow> u16" where
  "EffectiveReadinessId configured node_id =
    (if configured \<noteq> kReadinessFollowsNodeId then configured
     else if node_id \<le> 127 then kSubReadinessBase + ucast node_id else kUnsetPortId)"

section \<open>The settings\<close>

text \<open>Parameters of the default motor (6.5 inch hoverboard hub motor).\<close>

definition kHoverboardR :: f32 where
  "kHoverboardR = f32_of (15/100)"

definition kHoverboardL :: f32 where
  "kHoverboardL = from_milli (f32_of (35/100))"

definition kHoverboardCurrentBandwidth :: f32 where
  "kHoverboardCurrentBandwidth = f32_of 2000"

record NvmSettings =
  nvm_node_id :: u8
  nvm_identity :: NodeIdentity
  nvm_motor_type :: u8
  nvm_pole_pairs :: u8
  nvm_control_mode :: u8
  nvm_stator_r :: f32
  nvm_stator_l :: f32
  nvm_motor_i_max :: f32
  nvm_motor_omega_max :: f32
  nvm_motor_omega_min :: f32
  nvm_battery_drive_current_max :: f32
  nvm_battery_charge_current_max :: f32
  nvm_dc_link_regen_derate_start :: f32
  nvm_dc_link_trip :: f32
  nvm_flux_pm :: f32
  nvm_l_d :: f32
  nvm_l_q :: f32
  nvm_asm_r_r :: f32
  nvm_asm_r_s :: f32
  nvm_asm_l_s :: f32
  nvm_asm_l_r :: f32
  nvm_asm_l_m :: f32
  nvm_motor_j :: f32
  nvm_mech_obs_q :: f32
  nvm_mech_obs_r :: f32
  nvm_pmsm_flux_obs_c_d :: f32
  nvm_pmsm_flux_obs_c_q :: f32
  nvm_pmsm_flux_obs_r_speed :: f32
  nvm_hall_enable :: u8
  nvm_hall_offset :: f32
  nvm_hall_r_edge :: f32
  nvm_hall_r_sector :: f32
  nvm_asm_obs_g_i :: f32
  nvm_asm_obs_g_flux :: f32
  nvm_asm_flux_kp :: f32
  nvm_asm_flux_ki :: f32
  nvm_asm_flux_i_d_min :: f32
  nvm_asm_flux_i_d_max :: f32
  nvm_fw_v_max :: f32
  nvm_fw_ki :: f32
  nvm_fw_i_d_min :: f32
  nvm_pwm_frequency :: f32
  nvm_current_kp_d :: f32
  nvm_current_ki_d :: f32
  nvm_current_kp_q :: f32
  nvm_current_ki_q :: f32
  nvm_current_v_max :: f32
  nvm_svm_duty_min :: f32
  nvm_svm_duty_max :: f32
  nvm_dtc_dead_time :: f32
  nvm_dtc_f_pwm :: f32
  nvm_dtc_i_threshold :: f32
  nvm_hfi_v_inject :: f32
  nvm_hfi_error_gain :: f32
  nvm_excitation_mode :: u8
  nvm_excitation_l_m :: f32
  nvm_excitation_kp :: f32
  nvm_excitation_ki :: f32
  nvm_excitation_i_f_min :: f32
  nvm_excitation_i_f_max :: f32
  nvm_excitation_obs_tau :: f32
  nvm_excitation_obs_l_m :: f32
  nvm_speed_kp :: f32
  nvm_speed_ki :: f32
  nvm_speed_accel_limit :: f32
  nvm_pos_kp_pos :: f32
  nvm_pos_kp_speed :: f32
  nvm_pos_ki_speed :: f32
  nvm_pos_speed_limit :: f32
  nvm_pos_accel_limit :: f32
  nvm_pos_position_tolerance :: f32
  nvm_pos_speed_tolerance :: f32
  nvm_pos_homing_speed :: f32
  nvm_pos_homing_current :: f32
  nvm_adc_offset_a :: f32
  nvm_adc_offset_b :: f32
  nvm_adc_offset_c :: f32
  nvm_adc_gain_a :: f32
  nvm_adc_gain_b :: f32
  nvm_adc_gain_c :: f32
  nvm_adc_gain_vdc :: f32
  nvm_sub_readiness_id :: u16
  nvm_sub_current_setpoint_id :: u16
  nvm_sub_torque_setpoint_id :: u16
  nvm_sub_speed_setpoint_id :: u16
  nvm_sub_position_setpoint_id :: u16
  nvm_sub_servo_setpoint_id :: u16
  nvm_pub_telemetry_id :: u16
  nvm_srv_cymon_variables_id :: u16
  nvm_srv_cymon_buffer_info_id :: u16
  nvm_srv_cymon_setup_id :: u16
  nvm_srv_cymon_arm_id :: u16
  nvm_srv_cymon_read_id :: u16
  nvm_pub_cymon_trigger_id :: u16
  nvm_sub_cymon_trigger_id :: u16
  nvm_telemetry_rate :: f32
  nvm_command_timeout :: f32
  nvm_sub_wheel_command_id :: u16
  nvm_sub_pedal_state_id :: u16
  nvm_sub_battery_status_id :: u16
  nvm_pub_drive_status_id :: u16
  nvm_pub_commissioning_id :: u16
  nvm_pub_homing_state_id :: u16
  nvm_cart_wheel :: u8
  nvm_cart_reversed :: u8
  nvm_cart_timeout :: f32
  nvm_cart_status_rate :: f32
  nvm_cart_torque_ramp :: f32
  nvm_cart_limp_home_torque :: f32
  nvm_cart_standstill_speed :: f32
  nvm_cart_battery_share :: f32
  nvm_ebike_pulses_per_rev :: u8
  nvm_ebike_wheel_circumference :: f32
  nvm_ebike_gear_ratio :: f32
  nvm_ebike_battery_cells :: u8
  nvm_ebike_nominal_voltage :: u8
  nvm_ebike_gain_1 :: f32
  nvm_ebike_gain_2 :: f32
  nvm_ebike_gain_3 :: f32
  nvm_ebike_gain_4 :: f32
  nvm_ebike_gain_5 :: f32
  nvm_ebike_power_scale :: f32
  nvm_ebike_max_ratio :: f32
  nvm_ebike_torque_ratio :: f32
  nvm_ebike_torque_deadband :: f32
  nvm_ebike_min_cadence :: f32
  nvm_ebike_speed_taper :: f32
  nvm_ebike_rise_time :: f32
  nvm_ebike_fall_time :: f32
  nvm_ebike_engage_hold :: f32
  nvm_ebike_rearm_time :: f32
  nvm_ebike_display_timeout :: f32

definition NvmSettings_default :: "u8 \<Rightarrow> u8 \<Rightarrow> NvmSettings" where
  "NvmSettings_default sw_major sw_minor = \<lparr>
    nvm_node_id = 0,
    nvm_identity = NodeIdentity_default sw_major sw_minor,
    nvm_motor_type = kPmsm,
    nvm_pole_pairs = 15,
    nvm_control_mode = kTorque,
    nvm_stator_r = kHoverboardR,
    nvm_stator_l = kHoverboardL,
    nvm_motor_i_max = f32_of 15,
    nvm_motor_omega_max = f32_of 1500,
    nvm_motor_omega_min = - (f32_of 1500),
    nvm_battery_drive_current_max = f32_of 15,
    nvm_battery_charge_current_max = f32_of 5,
    nvm_dc_link_regen_derate_start = f32_of 55,
    nvm_dc_link_trip = f32_of 58,
    nvm_flux_pm = from_milli (f32_of 23),
    nvm_l_d = kHoverboardL,
    nvm_l_q = kHoverboardL,
    nvm_asm_r_r = f32_of (3/10),
    nvm_asm_r_s = f32_of (1/2),
    nvm_asm_l_s = from_milli (f32_of 50),
    nvm_asm_l_r = from_milli (f32_of 50),
    nvm_asm_l_m = from_milli (f32_of 47),
    nvm_motor_j = f32_of (1/40),
    nvm_mech_obs_q = f32_of (1/100000),
    nvm_mech_obs_r = f32_of (1/10000),
    nvm_pmsm_flux_obs_c_d = f32_of 50,
    nvm_pmsm_flux_obs_c_q = f32_of 1,
    nvm_pmsm_flux_obs_r_speed = f32_of 0,
    nvm_hall_enable = 0,
    nvm_hall_offset = f32_of 0,
    nvm_hall_r_edge = f32_of (3/1000),
    nvm_hall_r_sector = f32_of (3/100),
    nvm_asm_obs_g_i = f32_of 500,
    nvm_asm_obs_g_flux = f32_of 5000,
    nvm_asm_flux_kp = f32_of 10,
    nvm_asm_flux_ki = f32_of 50,
    nvm_asm_flux_i_d_min = f32_of 0,
    nvm_asm_flux_i_d_max = f32_of 10,
    nvm_fw_v_max = f32_of (9/10),
    nvm_fw_ki = f32_of 10,
    nvm_fw_i_d_min = - (f32_of 10),
    nvm_pwm_frequency = from_kilo (f32_of 20),
    nvm_current_kp_d = kHoverboardL * kHoverboardCurrentBandwidth,
    nvm_current_ki_d = kHoverboardR * kHoverboardCurrentBandwidth,
    nvm_current_kp_q = kHoverboardL * kHoverboardCurrentBandwidth,
    nvm_current_ki_q = kHoverboardR * kHoverboardCurrentBandwidth,
    nvm_current_v_max = f32_of (9/10),
    nvm_svm_duty_min = f32_of (1/20),
    nvm_svm_duty_max = f32_of (19/20),
    nvm_dtc_dead_time = f32_of 0,
    nvm_dtc_f_pwm = from_kilo (f32_of 10),
    nvm_dtc_i_threshold = f32_of (1/10),
    nvm_hfi_v_inject = f32_of 0,
    nvm_hfi_error_gain = f32_of 1,
    nvm_excitation_mode = 0,
    nvm_excitation_l_m = from_milli (f32_of 47),
    nvm_excitation_kp = f32_of 5,
    nvm_excitation_ki = f32_of 50,
    nvm_excitation_i_f_min = f32_of 0,
    nvm_excitation_i_f_max = f32_of 10,
    nvm_excitation_obs_tau = from_milli (f32_of 2),
    nvm_excitation_obs_l_m = from_milli (f32_of 47),
    nvm_speed_kp = f32_of (3/10),
    nvm_speed_ki = f32_of 5,
    nvm_speed_accel_limit = f32_of 1000,
    nvm_pos_kp_pos = f32_of 10,
    nvm_pos_kp_speed = f32_of 5,
    nvm_pos_ki_speed = f32_of 20,
    nvm_pos_speed_limit = f32_of 100,
    nvm_pos_accel_limit = f32_of 500,
    nvm_pos_position_tolerance = f32_of (1/100),
    nvm_pos_speed_tolerance = f32_of 1,
    nvm_pos_homing_speed = f32_of 5,
    nvm_pos_homing_current = f32_of 2,
    nvm_adc_offset_a = f32_of 0,
    nvm_adc_offset_b = f32_of 0,
    nvm_adc_offset_c = f32_of 0,
    nvm_adc_gain_a = f32_of 1,
    nvm_adc_gain_b = f32_of 1,
    nvm_adc_gain_c = f32_of 1,
    nvm_adc_gain_vdc = f32_of 1,
    nvm_sub_readiness_id = kReadinessFollowsNodeId,
    nvm_sub_current_setpoint_id = kSubCurrentSetpoint,
    nvm_sub_torque_setpoint_id = kSubTorqueSetpoint,
    nvm_sub_speed_setpoint_id = kSubSpeedSetpoint,
    nvm_sub_position_setpoint_id = kSubPositionSetpoint,
    nvm_sub_servo_setpoint_id = kSubServoSetpoint,
    nvm_pub_telemetry_id = kPubTelemetry,
    nvm_srv_cymon_variables_id = kSrvCymonVariables,
    nvm_srv_cymon_buffer_info_id = kSrvCymonBufferInfo,
    nvm_srv_cymon_setup_id = kSrvCymonSetup,
    nvm_srv_cymon_arm_id = kSrvCymonArm,
    nvm_srv_cymon_read_id = kSrvCymonRead,
    nvm_pub_cymon_trigger_id = kUnsetPortId,
    nvm_sub_cymon_trigger_id = kUnsetPortId,
    nvm_telemetry_rate = f32_of 20,
    nvm_command_timeout = f32_of (1/2),
    nvm_sub_wheel_command_id = kSubWheelCommand,
    nvm_sub_pedal_state_id = kSubPedalState,
    nvm_sub_battery_status_id = kSubBatteryStatus,
    nvm_pub_drive_status_id = kPubDriveStatus,
    nvm_pub_commissioning_id = kPubCommissioning,
    nvm_pub_homing_state_id = kPubHomingState,
    nvm_cart_wheel = 0,
    nvm_cart_reversed = 0,
    nvm_cart_timeout = f32_of (1/10),
    nvm_cart_status_rate = f32_of 50,
    nvm_cart_torque_ramp = f32_of 50 / f32_of 1,
    nvm_cart_limp_home_torque = f32_of 5,
    nvm_cart_standstill_speed = f32_of 1,
    nvm_cart_battery_share = f32_of 1,
    nvm_ebike_pulses_per_rev = 36,
    nvm_ebike_wheel_circumference = f32_of (21/10),
    nvm_ebike_gear_ratio = f32_of 1,
    nvm_ebike_battery_cells = 10,
    nvm_ebike_nominal_voltage = 36,
    nvm_ebike_gain_1 = f32_of (3/10),
    nvm_ebike_gain_2 = f32_of (3/5),
    nvm_ebike_gain_3 = f32_of 1,
    nvm_ebike_gain_4 = f32_of (3/2),
    nvm_ebike_gain_5 = f32_of 2,
    nvm_ebike_power_scale = f32_of 300,
    nvm_ebike_max_ratio = f32_of 4,
    nvm_ebike_torque_ratio = f32_of (1/2),
    nvm_ebike_torque_deadband = f32_of 2,
    nvm_ebike_min_cadence = f32_of 2,
    nvm_ebike_speed_taper = f32_of 20,
    nvm_ebike_rise_time = f32_of (1/2),
    nvm_ebike_fall_time = f32_of (3/20),
    nvm_ebike_engage_hold = f32_of 2,
    nvm_ebike_rearm_time = f32_of 1,
    nvm_ebike_display_timeout = f32_of 2\<rparr>"

section \<open>The profile of the hardware\<close>

record HardwareCapabilities =
  cap_max_phase_current :: f32
  cap_max_motor_current :: f32
  cap_max_battery_drive_current :: f32
  cap_max_battery_charge_current :: f32
  cap_max_dc_link_voltage :: f32

definition HardwareCapabilities_default :: HardwareCapabilities where
  "HardwareCapabilities_default = \<lparr>
    cap_max_phase_current = f32_of 100,
    cap_max_motor_current = f32_of 40,
    cap_max_battery_drive_current = f32_of 15,
    cap_max_battery_charge_current = f32_of 5,
    cap_max_dc_link_voltage = f32_of 60\<rparr>"

record SettingsProfile =
  profile_factory_settings :: NvmSettings
  profile_capabilities :: HardwareCapabilities

end
