(* ===== verification/Float_Bits.thy ===== *)
theory Float_Bits
  imports Float32
begin

text \<open>
  The interchange format of binary32: \<open>std::bit_cast\<close> between \<open>float\<close> and \<open>uint32_t\<close>. A NaN is written
  with the quiet pattern; every NaN pattern is read as the one NaN of the model.
\<close>

text \<open>Exponent and fraction field of a positive value: the significand counts in units in the last place.\<close>

definition mag_bits :: "rat \<Rightarrow> int" where
  "mag_bits a = (ulp_exp a + 149) * 2 ^ 23 + \<lfloor>a / pow2 (ulp_exp a)\<rfloor>"

definition f32_bits_int :: "f32 \<Rightarrow> int" where
  "f32_bits_int x = (case x of
      NaN \<Rightarrow> 0x7FC00000 | PInf \<Rightarrow> 0x7F800000 | NInf \<Rightarrow> 0xFF800000 | NZero \<Rightarrow> 0x80000000
    | Fin q \<Rightarrow> if q = 0 then 0 else (if q < 0 then 2 ^ 31 else 0) + mag_bits \<bar>q\<bar>)"

definition f32_bits :: "f32 \<Rightarrow> u32" where
  "f32_bits x = word_of_int (f32_bits_int x)"

definition f32_of_bits_int :: "int \<Rightarrow> f32" where
  "f32_of_bits_int n =
     (let s = (2 ^ 31 \<le> n); r = n mod 2 ^ 31; e = r div 2 ^ 23; f = r mod 2 ^ 23;
          sg = (if s then - 1 else 1 :: rat)
      in if e = 255 then (if f = 0 then inf_of s else NaN)
         else if e = 0 then (if f = 0 then zero_of s else Fin (sg * of_int f * pow2 (- 149)))
         else Fin (sg * of_int (2 ^ 23 + f) * pow2 (e - 150)))"

definition f32_of_bits :: "u32 \<Rightarrow> f32" where
  "f32_of_bits w = f32_of_bits_int (uint w)"

text \<open>A positive value of the format as significand and exponent.\<close>

lemma format_decompose:
  assumes "representable a" "0 < a" "a < 2 ^ 128"
  obtains m where "a = of_int m * pow2 (ulp_exp a)" "1 \<le> m" "m < 2 ^ 24"
    "- 149 \<le> ulp_exp a" "ulp_exp a \<le> 104" "- 149 < ulp_exp a \<longrightarrow> 2 ^ 23 \<le> m"
proof -
  let ?u = "ulp_exp a"
  obtain m where m: "a / pow2 ?u = of_int m" using representable_multiple assms by force
  then have a: "a = of_int m * pow2 ?u" by (simp add: field_simps)
  have l: "pow2 (ilog2 a) \<le> a" "a < pow2 (ilog2 a + 1)" using ilog2_bounds assms(2) by auto
  have "0 < of_int m * pow2 ?u" using assms(2) a by simp
  then have "(0 :: rat) < of_int m" using pow2_pos(1) [of ?u] by (simp only: zero_less_mult_pos2)
  then have m1: "1 \<le> m" by simp
  have "pow2 (ilog2 a + 1) \<le> pow2 (?u + 24)" using assms(2) by (simp add: ulp_exp_def)
  then have "of_int m * pow2 ?u < pow2 (?u + 24)" using a l(2) by linarith
  then have "(of_int m :: rat) < of_int (2 ^ 24)" by (simp add: pow2_add pow2_def [of 24])
  then have m2: "m < 2 ^ 24" by (simp only: of_int_less_iff)
  have "pow2 (ilog2 a) < pow2 128" using l(1) assms(3) by (simp add: pow2_def [of 128])
  then have u: "?u \<le> 104" "- 149 \<le> ?u" using assms(2) by (simp_all add: ulp_exp_def)
  have "2 ^ 23 \<le> m" if "- 149 < ?u"
  proof -
    have "?u = ilog2 a - 23" using that assms(2) by (auto simp: ulp_exp_def max_def split: if_splits)
    then have "pow2 (?u + 23) \<le> of_int m * pow2 ?u" using l(1) a by simp
    then have "(of_int (2 ^ 23) :: rat) \<le> of_int m" by (simp add: pow2_add pow2_def [of 23])
    then show ?thesis by (simp only: of_int_le_iff)
  qed
  with that a m1 m2 u show ?thesis by blast
qed

lemma mag_bits_fields:
  assumes "representable a" "0 < a" "a < 2 ^ 128"
  shows "0 < mag_bits a" "mag_bits a < 255 * 2 ^ 23"
    "a = (if mag_bits a div 2 ^ 23 = 0 then of_int (mag_bits a mod 2 ^ 23) * pow2 (- 149)
          else of_int (2 ^ 23 + mag_bits a mod 2 ^ 23) * pow2 (mag_bits a div 2 ^ 23 - 150))"
proof -
  obtain m where m: "a = of_int m * pow2 (ulp_exp a)" "1 \<le> m" "m < 2 ^ 24"
    "- 149 \<le> ulp_exp a" "ulp_exp a \<le> 104" "- 149 < ulp_exp a \<longrightarrow> 2 ^ 23 \<le> m"
    using format_decompose [OF assms] .
  define u where "u = ulp_exp a"
  have "a / pow2 u = of_int m" using m(1) by (simp add: u_def field_simps)
  then have b: "mag_bits a = (u + 149) * 2 ^ 23 + m" by (simp add: mag_bits_def u_def)
  show "0 < mag_bits a" "mag_bits a < 255 * 2 ^ 23" using b m by (simp_all add: u_def)
  show "a = (if mag_bits a div 2 ^ 23 = 0 then of_int (mag_bits a mod 2 ^ 23) * pow2 (- 149)
          else of_int (2 ^ 23 + mag_bits a mod 2 ^ 23) * pow2 (mag_bits a div 2 ^ 23 - 150))"
  proof (cases "m < 2 ^ 23")
    case True
    then have "u = - 149" using m(4,6) by (simp add: u_def)
    then show ?thesis using True m b by (simp add: u_def)
  next
    case False
    have d: "mag_bits a = (u + 150) * 2 ^ 23 + (m - 2 ^ 23)" using b by (simp add: algebra_simps)
    have "0 \<le> m - 2 ^ 23" "m - 2 ^ 23 < 2 ^ 23" using False m(3) by simp_all
    then have "mag_bits a div 2 ^ 23 = u + 150" "mag_bits a mod 2 ^ 23 = m - 2 ^ 23"
      unfolding d by (simp_all only: div_mult_self3 mod_mult_self3 div_pos_pos_trivial mod_pos_pos_trivial)
    then show ?thesis using m(1,4) by (simp add: u_def)
  qed
qed

lemma f32_of_bits_int_fields:
  assumes "0 < b" "b < 255 * 2 ^ 23"
  shows "f32_of_bits_int ((if s then 2 ^ 31 else 0) + b) =
    Fin ((if s then - 1 else 1) *
      (if b div 2 ^ 23 = 0 then of_int (b mod 2 ^ 23) * pow2 (- 149)
       else of_int (2 ^ 23 + b mod 2 ^ 23) * pow2 (b div 2 ^ 23 - 150)))"
proof -
  have "b div 2 ^ 23 < 255" using assms(2) by (simp add: div_less_iff_less_mult)
  then have e: "b div 2 ^ 23 \<noteq> 255" by simp
  have z: "b mod 2 ^ 23 \<noteq> 0" if "b div 2 ^ 23 = 0"
    using assms(1) div_mult_mod_eq [of b "2 ^ 23"] unfolding that by auto
  have n: "(2 ^ 31 \<le> (if s then 2 ^ 31 else 0) + b) = s" "((if s then 2 ^ 31 else 0) + b) mod 2 ^ 31 = b"
    using assms by auto
  show ?thesis unfolding f32_of_bits_int_def Let_def n using e z by (simp only: if_False mult.assoc) auto
qed

theorem f32_of_bits_int_inverse:
  assumes "f32_ok x"
  shows "f32_of_bits_int (f32_bits_int x) = x" "0 \<le> f32_bits_int x" "f32_bits_int x < 2 ^ 32"
proof -
  have "f32_of_bits_int (f32_bits_int x) = x \<and> 0 \<le> f32_bits_int x \<and> f32_bits_int x < 2 ^ 32"
  proof (cases x)
    case (Fin q)
    show ?thesis
    proof (cases "q = 0")
      case True
      then show ?thesis using Fin by (simp add: f32_bits_int_def f32_of_bits_int_def zero_of_def)
    next
      case False
      let ?b = "mag_bits \<bar>q\<bar>"
      have r: "representable \<bar>q\<bar>" using assms Fin by (auto simp: abs_if)
      note f = mag_bits_fields [OF r]
      have b: "0 < ?b" "?b < 255 * 2 ^ 23" using f assms Fin False by auto
      have n: "f32_bits_int x = (if q < 0 then 2 ^ 31 else 0) + ?b" using Fin False by (simp add: f32_bits_int_def)
      have "\<bar>q\<bar> = (if ?b div 2 ^ 23 = 0 then of_int (?b mod 2 ^ 23) * pow2 (- 149)
          else of_int (2 ^ 23 + ?b mod 2 ^ 23) * pow2 (?b div 2 ^ 23 - 150))"
        using f(3) assms Fin False by simp
      then have "f32_of_bits_int (f32_bits_int x) = Fin ((if q < 0 then - 1 else 1) * \<bar>q\<bar>)"
        using f32_of_bits_int_fields [OF b, of "q < 0"] unfolding n by simp
      then show ?thesis using Fin n b by auto
    qed
  qed (simp_all add: f32_bits_int_def f32_of_bits_int_def zero_of_def inf_of_def)
  then show "f32_of_bits_int (f32_bits_int x) = x" "0 \<le> f32_bits_int x" "f32_bits_int x < 2 ^ 32" by auto
qed

lemma f32_of_bits_inverse [simp]: "f32_ok x \<Longrightarrow> f32_of_bits (f32_bits x) = x"
  using f32_of_bits_int_inverse [of x]
  by (simp add: f32_of_bits_def f32_bits_def uint_word_of_int_eq take_bit_int_eq_self)

lemma f32_bits_inject: "f32_ok x \<Longrightarrow> f32_ok y \<Longrightarrow> f32_bits x = f32_bits y \<longleftrightarrow> x = y"
  by (metis f32_of_bits_inverse)

text \<open>Every bit pattern is a value of the format.\<close>

lemma f32_ok_of_bits: "f32_ok (f32_of_bits w)"
proof -
  define r where "r = uint w mod 2 ^ 31"
  define e where "e = r div 2 ^ 23"
  define f where "f = r mod 2 ^ 23"
  have f: "0 \<le> f" "f < 2 ^ 23" and e: "0 \<le> e" "e < 256"
    unfolding e_def f_def by (simp_all add: r_def div_less_iff_less_mult)
  have sub: "f32_ok (Fin (sg * of_int f * pow2 (- 149)))" if "sg = 1 \<or> sg = - 1" for sg :: rat
  proof -
    have "of_int f * pow2 (- 149) < 2 ^ 128"
      using f by (simp add: pow2_def divide_less_eq)
    moreover have "representable (of_int f * pow2 (- 149))"
      using f unfolding representable_def by (intro exI [of _ f] exI [of _ "- 149"]) auto
    ultimately show ?thesis
      using f that representable_minus by (auto simp: abs_mult)
  qed
  have norm: "f32_ok (Fin (sg * of_int (2 ^ 23 + f) * pow2 (e - 150)))" if "sg = 1 \<or> sg = - 1" "e \<noteq> 0" "e \<noteq> 255" for sg :: rat
  proof -
    have "of_int (2 ^ 23 + f) * pow2 (e - 150) < pow2 24 * pow2 (e - 150)"
      using f by (intro mult_strict_right_mono) (simp_all add: pow2_def)
    also have "\<dots> = pow2 (e - 126)"
      by (simp add: pow2_add [symmetric])
    also have "\<dots> \<le> pow2 128"
      using e that by simp
    finally have "of_int (2 ^ 23 + f) * pow2 (e - 150) < 2 ^ 128"
      by (simp add: pow2_def)
    moreover have "representable (of_int (2 ^ 23 + f) * pow2 (e - 150))"
      using f e that unfolding representable_def by (intro exI [of _ "2 ^ 23 + f"] exI [of _ "e - 150"]) auto
    ultimately have "f32_ok (Fin a) \<and> f32_ok (Fin (- a))" if "a = of_int (2 ^ 23 + f) * pow2 (e - 150)" for a
      using f that by simp
    then show ?thesis
      using that by (auto simp only: mult.assoc mult_1_left mult_minus1)
  qed
  show ?thesis
    using sub norm unfolding f32_of_bits_def f32_of_bits_int_def Let_def r_def [symmetric] e_def [symmetric] f_def [symmetric]
    by (auto simp: inf_of_def zero_of_def)
qed

end
