(* ===== verification/Settings_Registers.thy ===== *)
theory Settings_Registers
  imports Nvm_Settings Float_Bits
begin

unbundle bit_operations_syntax

text \<open>
  The register table of \<open>lib/settings/settings_registers.hpp\<close> and the byte encoding of one register value.
  \<open>ForEachRegister\<close> of the source calls a visitor for every persistent register with a reference to the
  field; here \<open>registers\<close> is the same list in the same order, a register being its entry (name, limits, effect) and
  the pair of a getter and a setter of its field. The unit symbol and the help text of an entry have no
  effect on the store and are left out.
\<close>

section \<open>Values of a register\<close>

text \<open>The C++ type of the field: a quantity or \<open>float\<close>, a byte or byte enum, a port-ID, the node name.\<close>

datatype RegValue =
    VFloat (the_float: f32)
  | VByte (the_byte: u8)
  | VPort (the_port: u16)
  | VName (the_name: "u8 list")

definition PutFloat :: "f32 \<Rightarrow> u8 list" where
  "PutFloat value = (let bits = f32_bits value in map (\<lambda>i. ucast (drop_bit (8 * i) bits AND 0xFF)) [0, 1, 2, 3])"

definition GetFloat :: "u8 list \<Rightarrow> f32" where
  "GetFloat bytes = f32_of_bits
    (fold (\<lambda>i bits. bits OR push_bit (8 * i) (ucast (bytes ! i))) [0, 1, 2, 3] (0 :: u32))"

definition kMaxRegisterValueSize :: nat where
  "kMaxRegisterValueSize = kNodeNameMaxLen + 1"

fun EncodeRegisterValue :: "RegValue \<Rightarrow> u8 list" where
  "EncodeRegisterValue (VFloat value) = PutFloat value"
| "EncodeRegisterValue (VByte value) = [value]"
| "EncodeRegisterValue (VPort value) = [ucast (value AND 0xFF), ucast (drop_bit 8 value)]"
| "EncodeRegisterValue (VName value) = terminated_prefix kNodeNameMaxLen value @ [0]"

text \<open>The second argument is the field the value is decoded into: its type selects the decoder.\<close>

fun DecodeRegisterValue :: "u8 list \<Rightarrow> RegValue \<Rightarrow> RegValue option" where
  "DecodeRegisterValue stored (VFloat _) = (if length stored \<noteq> 4 then None else Some (VFloat (GetFloat stored)))"
| "DecodeRegisterValue stored (VByte _) = (if length stored \<noteq> 1 then None else Some (VByte (stored ! 0)))"
| "DecodeRegisterValue stored (VPort _) =
    (if length stored \<noteq> 2 then None
     else Some (VPort (ucast (stored ! 0) OR push_bit 8 (ucast (stored ! 1)))))"
| "DecodeRegisterValue stored (VName _) =
    (if stored = [] \<or> kMaxRegisterValueSize < length stored \<or> last stored \<noteq> 0 then None
     else Some (VName (zero_padded (butlast stored))))"

definition SameEncoding :: "RegValue \<Rightarrow> RegValue \<Rightarrow> bool" where
  "SameEncoding first second \<longleftrightarrow> EncodeRegisterValue first = EncodeRegisterValue second"

subsection \<open>Entries\<close>

datatype RegisterEffect = kDisengaged | kImmediate | kRestart

record RegisterLimits =
  lim_minimum :: f32
  lim_maximum :: f32

definition kAny :: RegisterLimits where
  "kAny = \<lparr>lim_minimum = NInf, lim_maximum = PInf\<rparr>"

definition AtLeast :: "f32 \<Rightarrow> RegisterLimits" where
  "AtLeast minimum = \<lparr>lim_minimum = minimum, lim_maximum = PInf\<rparr>"

definition AtMost :: "f32 \<Rightarrow> RegisterLimits" where
  "AtMost maximum = \<lparr>lim_minimum = NInf, lim_maximum = maximum\<rparr>"

definition Between :: "f32 \<Rightarrow> f32 \<Rightarrow> RegisterLimits" where
  "Between minimum maximum = \<lparr>lim_minimum = minimum, lim_maximum = maximum\<rparr>"

definition kPortId :: RegisterLimits where
  "kPortId = \<lparr>lim_minimum = 0, lim_maximum = f32_of 65535\<rparr>"

record RegisterEntry =
  entry_name :: string
  entry_limits :: RegisterLimits
  entry_effect :: RegisterEffect

definition Setting :: "string \<Rightarrow> RegisterLimits \<Rightarrow> RegisterEntry" where
  "Setting name limits = \<lparr>entry_name = name, entry_limits = limits, entry_effect = kDisengaged\<rparr>"

definition Tunable :: "string \<Rightarrow> RegisterLimits \<Rightarrow> RegisterEntry" where
  "Tunable name limits = \<lparr>entry_name = name, entry_limits = limits, entry_effect = kImmediate\<rparr>"

definition AfterRestart :: "string \<Rightarrow> RegisterLimits \<Rightarrow> RegisterEntry" where
  "AfterRestart name limits = \<lparr>entry_name = name, entry_limits = limits, entry_effect = kRestart\<rparr>"

section \<open>The table\<close>

record Register =
  rg_entry :: RegisterEntry
  rg_get :: "NvmSettings \<Rightarrow> RegValue"
  rg_put :: "RegValue \<Rightarrow> NvmSettings \<Rightarrow> NvmSettings"

abbreviation rg_name :: "Register \<Rightarrow> string" where
  "rg_name r \<equiv> entry_name (rg_entry r)"

definition float_register ::
  "RegisterEntry \<Rightarrow> (NvmSettings \<Rightarrow> f32) \<Rightarrow> ((f32 \<Rightarrow> f32) \<Rightarrow> NvmSettings \<Rightarrow> NvmSettings) \<Rightarrow> Register" where
  "float_register entry get upd = \<lparr>rg_entry = entry, rg_get = \<lambda>s. VFloat (get s), rg_put = \<lambda>v. upd (\<lambda>_. the_float v)\<rparr>"

definition byte_register ::
  "RegisterEntry \<Rightarrow> (NvmSettings \<Rightarrow> u8) \<Rightarrow> ((u8 \<Rightarrow> u8) \<Rightarrow> NvmSettings \<Rightarrow> NvmSettings) \<Rightarrow> Register" where
  "byte_register entry get upd = \<lparr>rg_entry = entry, rg_get = \<lambda>s. VByte (get s), rg_put = \<lambda>v. upd (\<lambda>_. the_byte v)\<rparr>"

definition port_register ::
  "RegisterEntry \<Rightarrow> (NvmSettings \<Rightarrow> u16) \<Rightarrow> ((u16 \<Rightarrow> u16) \<Rightarrow> NvmSettings \<Rightarrow> NvmSettings) \<Rightarrow> Register" where
  "port_register entry get upd = \<lparr>rg_entry = entry, rg_get = \<lambda>s. VPort (get s), rg_put = \<lambda>v. upd (\<lambda>_. the_port v)\<rparr>"

definition name_register :: "RegisterEntry \<Rightarrow> Register" where
  "name_register entry = \<lparr>rg_entry = entry, rg_get = \<lambda>s. VName (ni_name (nvm_identity s)),
    rg_put = \<lambda>v. nvm_identity_update (ni_name_update (\<lambda>_. the_name v))\<rparr>"

definition registers :: "Register list" where
  "registers =
    [byte_register (AfterRestart ''uavcan.node.id'' (Between 0 (f32_of 127))) nvm_node_id nvm_node_id_update,
     name_register (AfterRestart ''uavcan.node.description'' kAny),
     byte_register (Setting ''unimoc.motor.type'' (Between 0 (f32_of 2))) nvm_motor_type nvm_motor_type_update,
     byte_register (Setting ''unimoc.motor.pole_pairs'' (Between (f32_of 1) (f32_of 255))) nvm_pole_pairs nvm_pole_pairs_update,
     byte_register (Setting ''unimoc.control.mode'' (Between 0 (f32_of 2))) nvm_control_mode nvm_control_mode_update,
     float_register (Setting ''unimoc.motor.stator.R'' (AtLeast 0)) nvm_stator_r nvm_stator_r_update,
     float_register (Setting ''unimoc.motor.stator.L'' (AtLeast 0)) nvm_stator_l nvm_stator_l_update,
     float_register (Setting ''unimoc.motor.limits.i_max'' (AtLeast 0)) nvm_motor_i_max nvm_motor_i_max_update,
     float_register (Setting ''unimoc.motor.limits.omega_max'' (AtLeast 0)) nvm_motor_omega_max nvm_motor_omega_max_update,
     float_register (Setting ''unimoc.motor.limits.omega_min'' (AtMost 0)) nvm_motor_omega_min nvm_motor_omega_min_update,
     float_register (Setting ''unimoc.battery.limits.drive_current'' (AtLeast 0)) nvm_battery_drive_current_max nvm_battery_drive_current_max_update,
     float_register (Setting ''unimoc.battery.limits.charge_current'' (AtLeast 0)) nvm_battery_charge_current_max nvm_battery_charge_current_max_update,
     float_register (Setting ''unimoc.battery.limits.regen_derate_voltage'' (AtLeast 0)) nvm_dc_link_regen_derate_start nvm_dc_link_regen_derate_start_update,
     float_register (Setting ''unimoc.battery.limits.trip_voltage'' (AtLeast 0)) nvm_dc_link_trip nvm_dc_link_trip_update,
     float_register (Setting ''unimoc.motor.pmsm.flux_pm'' (AtLeast 0)) nvm_flux_pm nvm_flux_pm_update,
     float_register (Setting ''unimoc.motor.pmsm.L_d'' (AtLeast 0)) nvm_l_d nvm_l_d_update,
     float_register (Setting ''unimoc.motor.pmsm.L_q'' (AtLeast 0)) nvm_l_q nvm_l_q_update,
     float_register (Setting ''unimoc.motor.asm.R_r'' (AtLeast 0)) nvm_asm_r_r nvm_asm_r_r_update,
     float_register (Setting ''unimoc.motor.asm.R_s'' (AtLeast 0)) nvm_asm_r_s nvm_asm_r_s_update,
     float_register (Setting ''unimoc.motor.asm.L_s'' (AtLeast 0)) nvm_asm_l_s nvm_asm_l_s_update,
     float_register (Setting ''unimoc.motor.asm.L_r'' (AtLeast 0)) nvm_asm_l_r nvm_asm_l_r_update,
     float_register (Setting ''unimoc.motor.asm.L_m'' (AtLeast 0)) nvm_asm_l_m nvm_asm_l_m_update,
     float_register (Setting ''unimoc.motor.mechanics.J'' (AtLeast 0)) nvm_motor_j nvm_motor_j_update,
     float_register (Setting ''unimoc.observer.mech.Q'' kAny) nvm_mech_obs_q nvm_mech_obs_q_update,
     float_register (Setting ''unimoc.observer.mech.R'' (AtLeast 0)) nvm_mech_obs_r nvm_mech_obs_r_update,
     float_register (Setting ''unimoc.observer.pmsm_flux.C_d'' kAny) nvm_pmsm_flux_obs_c_d nvm_pmsm_flux_obs_c_d_update,
     float_register (Setting ''unimoc.observer.pmsm_flux.C_q'' kAny) nvm_pmsm_flux_obs_c_q nvm_pmsm_flux_obs_c_q_update,
     float_register (Setting ''unimoc.observer.pmsm_flux.R_speed'' (AtLeast 0)) nvm_pmsm_flux_obs_r_speed nvm_pmsm_flux_obs_r_speed_update,
     byte_register (Setting ''unimoc.observer.hall.enable'' (Between 0 (f32_of 1))) nvm_hall_enable nvm_hall_enable_update,
     float_register (Setting ''unimoc.observer.hall.offset'' kAny) nvm_hall_offset nvm_hall_offset_update,
     float_register (Setting ''unimoc.observer.hall.R_edge'' (AtLeast 0)) nvm_hall_r_edge nvm_hall_r_edge_update,
     float_register (Setting ''unimoc.observer.hall.R_sector'' (AtLeast 0)) nvm_hall_r_sector nvm_hall_r_sector_update,
     float_register (Setting ''unimoc.observer.asm_flux.g_i'' kAny) nvm_asm_obs_g_i nvm_asm_obs_g_i_update,
     float_register (Setting ''unimoc.observer.asm_flux.g_flux'' kAny) nvm_asm_obs_g_flux nvm_asm_obs_g_flux_update,
     float_register (Setting ''unimoc.control.asm_flux.kp'' kAny) nvm_asm_flux_kp nvm_asm_flux_kp_update,
     float_register (Setting ''unimoc.control.asm_flux.ki'' kAny) nvm_asm_flux_ki nvm_asm_flux_ki_update,
     float_register (Setting ''unimoc.control.asm_flux.i_d_min'' (AtLeast 0)) nvm_asm_flux_i_d_min nvm_asm_flux_i_d_min_update,
     float_register (Setting ''unimoc.control.asm_flux.i_d_max'' (AtLeast 0)) nvm_asm_flux_i_d_max nvm_asm_flux_i_d_max_update,
     float_register (Setting ''unimoc.control.fw.v_max'' (AtLeast 0)) nvm_fw_v_max nvm_fw_v_max_update,
     float_register (Setting ''unimoc.control.fw.ki'' kAny) nvm_fw_ki nvm_fw_ki_update,
     float_register (Setting ''unimoc.control.fw.i_d_min'' kAny) nvm_fw_i_d_min nvm_fw_i_d_min_update,
     float_register (Setting ''unimoc.control.pwm_frequency'' (Between (f32_of 16000) (f32_of 32000))) nvm_pwm_frequency nvm_pwm_frequency_update,
     float_register (Tunable ''unimoc.control.current.kp_d'' kAny) nvm_current_kp_d nvm_current_kp_d_update,
     float_register (Tunable ''unimoc.control.current.ki_d'' kAny) nvm_current_ki_d nvm_current_ki_d_update,
     float_register (Tunable ''unimoc.control.current.kp_q'' kAny) nvm_current_kp_q nvm_current_kp_q_update,
     float_register (Tunable ''unimoc.control.current.ki_q'' kAny) nvm_current_ki_q nvm_current_ki_q_update,
     float_register (Setting ''unimoc.control.current.v_max'' (Between 0 (f32_of 1))) nvm_current_v_max nvm_current_v_max_update,
     float_register (Setting ''unimoc.control.svm.duty_min'' (Between 0 (f32_of 1))) nvm_svm_duty_min nvm_svm_duty_min_update,
     float_register (Setting ''unimoc.control.svm.duty_max'' (Between 0 (f32_of 1))) nvm_svm_duty_max nvm_svm_duty_max_update,
     float_register (Setting ''unimoc.control.dtc.dead_time'' (AtLeast 0)) nvm_dtc_dead_time nvm_dtc_dead_time_update,
     float_register (Setting ''unimoc.control.dtc.f_pwm'' (AtLeast 0)) nvm_dtc_f_pwm nvm_dtc_f_pwm_update,
     float_register (Setting ''unimoc.control.dtc.i_threshold'' kAny) nvm_dtc_i_threshold nvm_dtc_i_threshold_update,
     float_register (Setting ''unimoc.observer.hfi.v_inject'' kAny) nvm_hfi_v_inject nvm_hfi_v_inject_update,
     float_register (Setting ''unimoc.observer.hfi.error_gain'' kAny) nvm_hfi_error_gain nvm_hfi_error_gain_update,
     byte_register (Setting ''unimoc.control.excitation.mode'' (Between 0 (f32_of 1))) nvm_excitation_mode nvm_excitation_mode_update,
     float_register (Setting ''unimoc.control.excitation.L_m'' kAny) nvm_excitation_l_m nvm_excitation_l_m_update,
     float_register (Setting ''unimoc.control.excitation.kp'' kAny) nvm_excitation_kp nvm_excitation_kp_update,
     float_register (Setting ''unimoc.control.excitation.ki'' kAny) nvm_excitation_ki nvm_excitation_ki_update,
     float_register (Setting ''unimoc.control.excitation.i_f_min'' (AtLeast 0)) nvm_excitation_i_f_min nvm_excitation_i_f_min_update,
     float_register (Setting ''unimoc.control.excitation.i_f_max'' (AtLeast 0)) nvm_excitation_i_f_max nvm_excitation_i_f_max_update,
     float_register (Setting ''unimoc.observer.excitation.tau'' (AtLeast 0)) nvm_excitation_obs_tau nvm_excitation_obs_tau_update,
     float_register (Setting ''unimoc.observer.excitation.L_m'' kAny) nvm_excitation_obs_l_m nvm_excitation_obs_l_m_update,
     float_register (Tunable ''unimoc.control.speed.kp'' (AtLeast 0)) nvm_speed_kp nvm_speed_kp_update,
     float_register (Tunable ''unimoc.control.speed.ki'' (AtLeast 0)) nvm_speed_ki nvm_speed_ki_update,
     float_register (Tunable ''unimoc.control.speed.accel_limit'' (AtLeast 0)) nvm_speed_accel_limit nvm_speed_accel_limit_update,
     float_register (Tunable ''unimoc.control.pos.kp'' kAny) nvm_pos_kp_pos nvm_pos_kp_pos_update,
     float_register (Setting ''unimoc.control.pos.kp_speed'' kAny) nvm_pos_kp_speed nvm_pos_kp_speed_update,
     float_register (Setting ''unimoc.control.pos.ki_speed'' kAny) nvm_pos_ki_speed nvm_pos_ki_speed_update,
     float_register (Tunable ''unimoc.control.pos.speed_limit'' kAny) nvm_pos_speed_limit nvm_pos_speed_limit_update,
     float_register (Tunable ''unimoc.control.pos.accel_limit'' kAny) nvm_pos_accel_limit nvm_pos_accel_limit_update,
     float_register (Tunable ''unimoc.control.pos.position_tolerance'' (AtLeast 0)) nvm_pos_position_tolerance nvm_pos_position_tolerance_update,
     float_register (Tunable ''unimoc.control.pos.speed_tolerance'' (AtLeast 0)) nvm_pos_speed_tolerance nvm_pos_speed_tolerance_update,
     float_register (Setting ''unimoc.control.pos.homing_speed'' kAny) nvm_pos_homing_speed nvm_pos_homing_speed_update,
     float_register (Setting ''unimoc.control.pos.homing_current'' (AtLeast 0)) nvm_pos_homing_current nvm_pos_homing_current_update,
     float_register (Setting ''unimoc.startup.adc_offset_a'' kAny) nvm_adc_offset_a nvm_adc_offset_a_update,
     float_register (Setting ''unimoc.startup.adc_offset_b'' kAny) nvm_adc_offset_b nvm_adc_offset_b_update,
     float_register (Setting ''unimoc.startup.adc_offset_c'' kAny) nvm_adc_offset_c nvm_adc_offset_c_update,
     float_register (Setting ''unimoc.startup.gain_a'' (AtLeast 0)) nvm_adc_gain_a nvm_adc_gain_a_update,
     float_register (Setting ''unimoc.startup.gain_b'' (AtLeast 0)) nvm_adc_gain_b nvm_adc_gain_b_update,
     float_register (Setting ''unimoc.startup.gain_c'' (AtLeast 0)) nvm_adc_gain_c nvm_adc_gain_c_update,
     float_register (Setting ''unimoc.startup.gain_vdc'' (AtLeast 0)) nvm_adc_gain_vdc nvm_adc_gain_vdc_update,
     port_register (AfterRestart ''uavcan.sub.readiness.id'' kPortId) nvm_sub_readiness_id nvm_sub_readiness_id_update,
     port_register (AfterRestart ''uavcan.sub.current_setpoint.id'' kPortId) nvm_sub_current_setpoint_id nvm_sub_current_setpoint_id_update,
     port_register (AfterRestart ''uavcan.sub.torque_setpoint.id'' kPortId) nvm_sub_torque_setpoint_id nvm_sub_torque_setpoint_id_update,
     port_register (AfterRestart ''uavcan.sub.speed_setpoint.id'' kPortId) nvm_sub_speed_setpoint_id nvm_sub_speed_setpoint_id_update,
     port_register (AfterRestart ''uavcan.sub.position_setpoint.id'' kPortId) nvm_sub_position_setpoint_id nvm_sub_position_setpoint_id_update,
     port_register (AfterRestart ''uavcan.sub.servo_setpoint.id'' kPortId) nvm_sub_servo_setpoint_id nvm_sub_servo_setpoint_id_update,
     port_register (AfterRestart ''uavcan.pub.telemetry.id'' kPortId) nvm_pub_telemetry_id nvm_pub_telemetry_id_update,
     port_register (AfterRestart ''uavcan.srv.cymon_variables.id'' kPortId) nvm_srv_cymon_variables_id nvm_srv_cymon_variables_id_update,
     port_register (AfterRestart ''uavcan.srv.cymon_buffer_info.id'' kPortId) nvm_srv_cymon_buffer_info_id nvm_srv_cymon_buffer_info_id_update,
     port_register (AfterRestart ''uavcan.srv.cymon_setup.id'' kPortId) nvm_srv_cymon_setup_id nvm_srv_cymon_setup_id_update,
     port_register (AfterRestart ''uavcan.srv.cymon_arm.id'' kPortId) nvm_srv_cymon_arm_id nvm_srv_cymon_arm_id_update,
     port_register (AfterRestart ''uavcan.srv.cymon_read.id'' kPortId) nvm_srv_cymon_read_id nvm_srv_cymon_read_id_update,
     port_register (AfterRestart ''uavcan.pub.cymon_trigger.id'' kPortId) nvm_pub_cymon_trigger_id nvm_pub_cymon_trigger_id_update,
     port_register (AfterRestart ''uavcan.sub.cymon_trigger.id'' kPortId) nvm_sub_cymon_trigger_id nvm_sub_cymon_trigger_id_update,
     float_register (Tunable ''unimoc.telemetry.rate'' (Between 0 (f32_of 1000))) nvm_telemetry_rate nvm_telemetry_rate_update,
     float_register (Tunable ''unimoc.control.command_timeout'' (Between 0 (f32_of 10))) nvm_command_timeout nvm_command_timeout_update,
     port_register (AfterRestart ''uavcan.sub.wheel_command.id'' kPortId) nvm_sub_wheel_command_id nvm_sub_wheel_command_id_update,
     port_register (AfterRestart ''uavcan.sub.pedal_state.id'' kPortId) nvm_sub_pedal_state_id nvm_sub_pedal_state_id_update,
     port_register (AfterRestart ''uavcan.sub.battery_status.id'' kPortId) nvm_sub_battery_status_id nvm_sub_battery_status_id_update,
     port_register (AfterRestart ''uavcan.pub.drive_status.id'' kPortId) nvm_pub_drive_status_id nvm_pub_drive_status_id_update,
     port_register (AfterRestart ''uavcan.pub.commissioning.id'' kPortId) nvm_pub_commissioning_id nvm_pub_commissioning_id_update,
     port_register (AfterRestart ''uavcan.pub.homing_state.id'' kPortId) nvm_pub_homing_state_id nvm_pub_homing_state_id_update,
     byte_register (Setting ''unimoc.cart.wheel'' (Between 0 (f32_of 3))) nvm_cart_wheel nvm_cart_wheel_update,
     byte_register (Setting ''unimoc.cart.reversed'' (Between 0 (f32_of 1))) nvm_cart_reversed nvm_cart_reversed_update,
     float_register (Setting ''unimoc.cart.timeout'' (AtLeast 0)) nvm_cart_timeout nvm_cart_timeout_update,
     float_register (Tunable ''unimoc.cart.status_rate'' (Between 0 (f32_of 1000))) nvm_cart_status_rate nvm_cart_status_rate_update,
     float_register (Tunable ''unimoc.cart.torque_ramp'' (AtLeast 0)) nvm_cart_torque_ramp nvm_cart_torque_ramp_update,
     float_register (Tunable ''unimoc.cart.limp_home_torque'' (AtLeast 0)) nvm_cart_limp_home_torque nvm_cart_limp_home_torque_update,
     float_register (Tunable ''unimoc.cart.standstill_speed'' (AtLeast 0)) nvm_cart_standstill_speed nvm_cart_standstill_speed_update,
     float_register (Setting ''unimoc.cart.battery_share'' (Between 0 (f32_of 1))) nvm_cart_battery_share nvm_cart_battery_share_update,
     byte_register (Setting ''unimoc.ebike.pulses_per_rev'' (Between (f32_of 2) (f32_of 64))) nvm_ebike_pulses_per_rev nvm_ebike_pulses_per_rev_update,
     float_register (Setting ''unimoc.ebike.wheel_circumference'' (Between (f32_of (1/2)) (f32_of 4))) nvm_ebike_wheel_circumference nvm_ebike_wheel_circumference_update,
     float_register (Setting ''unimoc.ebike.gear_ratio'' (Between 0 (f32_of 100))) nvm_ebike_gear_ratio nvm_ebike_gear_ratio_update,
     byte_register (Setting ''unimoc.ebike.battery_cells'' (Between (f32_of 1) (f32_of 30))) nvm_ebike_battery_cells nvm_ebike_battery_cells_update,
     byte_register (Setting ''unimoc.ebike.nominal_voltage'' (Between (f32_of 1) (f32_of 255))) nvm_ebike_nominal_voltage nvm_ebike_nominal_voltage_update,
     float_register (Setting ''unimoc.ebike.gain_1'' (Between 0 (f32_of 20))) nvm_ebike_gain_1 nvm_ebike_gain_1_update,
     float_register (Setting ''unimoc.ebike.gain_2'' (Between 0 (f32_of 20))) nvm_ebike_gain_2 nvm_ebike_gain_2_update,
     float_register (Setting ''unimoc.ebike.gain_3'' (Between 0 (f32_of 20))) nvm_ebike_gain_3 nvm_ebike_gain_3_update,
     float_register (Setting ''unimoc.ebike.gain_4'' (Between 0 (f32_of 20))) nvm_ebike_gain_4 nvm_ebike_gain_4_update,
     float_register (Setting ''unimoc.ebike.gain_5'' (Between 0 (f32_of 20))) nvm_ebike_gain_5 nvm_ebike_gain_5_update,
     float_register (Setting ''unimoc.ebike.power_scale'' (AtLeast 0)) nvm_ebike_power_scale nvm_ebike_power_scale_update,
     float_register (Setting ''unimoc.ebike.max_ratio'' (Between 0 (f32_of 20))) nvm_ebike_max_ratio nvm_ebike_max_ratio_update,
     float_register (Setting ''unimoc.ebike.torque_ratio'' (Between 0 (f32_of 20))) nvm_ebike_torque_ratio nvm_ebike_torque_ratio_update,
     float_register (Setting ''unimoc.ebike.torque_deadband'' (AtLeast 0)) nvm_ebike_torque_deadband nvm_ebike_torque_deadband_update,
     float_register (Setting ''unimoc.ebike.min_cadence'' (AtLeast 0)) nvm_ebike_min_cadence nvm_ebike_min_cadence_update,
     float_register (Setting ''unimoc.ebike.speed_taper'' (AtLeast 0)) nvm_ebike_speed_taper nvm_ebike_speed_taper_update,
     float_register (Setting ''unimoc.ebike.rise_time'' (AtLeast 0)) nvm_ebike_rise_time nvm_ebike_rise_time_update,
     float_register (Setting ''unimoc.ebike.fall_time'' (AtLeast 0)) nvm_ebike_fall_time nvm_ebike_fall_time_update,
     float_register (Setting ''unimoc.ebike.engage_hold'' (AtLeast 0)) nvm_ebike_engage_hold nvm_ebike_engage_hold_update,
     float_register (Setting ''unimoc.ebike.rearm_time'' (AtLeast 0)) nvm_ebike_rearm_time nvm_ebike_rearm_time_update,
     float_register (Setting ''unimoc.ebike.display_timeout'' (AtLeast 0)) nvm_ebike_display_timeout nvm_ebike_display_timeout_update]"

lemmas register_defs = float_register_def byte_register_def port_register_def name_register_def
  Setting_def Tunable_def AfterRestart_def

section \<open>The registers are independent\<close>

text \<open>
  A write to one register leaves the value of every other one alone. The pairwise check runs over the
  list of the getters and setters, with each pair visited once.
\<close>

type_synonym lens = "(NvmSettings \<Rightarrow> RegValue) \<times> (RegValue \<Rightarrow> NvmSettings \<Rightarrow> NvmSettings)"

primrec frames_one :: "lens \<Rightarrow> lens list \<Rightarrow> RegValue \<Rightarrow> NvmSettings \<Rightarrow> bool" where
  "frames_one r [] v s = True"
| "frames_one r (q # qs) v s \<longleftrightarrow>
    fst q (snd r v s) = fst q s \<and> fst r (snd q v s) = fst r s \<and> frames_one r qs v s"

primrec frames :: "lens list \<Rightarrow> RegValue \<Rightarrow> NvmSettings \<Rightarrow> bool" where
  "frames [] v s = True"
| "frames (r # rs) v s \<longleftrightarrow> frames_one r rs v s \<and> frames rs v s"

lemma frames_one_iff: "frames_one r qs v s \<longleftrightarrow>
    (\<forall>q\<in>set qs. fst q (snd r v s) = fst q s \<and> fst r (snd q v s) = fst r s)"
  by (induction qs) auto

lemma framesD: "frames rs v s \<Longrightarrow> i < length rs \<Longrightarrow> j < length rs \<Longrightarrow> i \<noteq> j \<Longrightarrow>
    fst (rs ! i) (snd (rs ! j) v s) = fst (rs ! i) s"
proof (induction rs arbitrary: i j)
  case (Cons r rs)
  then show ?case by (cases i; cases j) (auto simp: frames_one_iff)
qed simp

definition register_lenses :: "lens list" where
  "register_lenses = map (\<lambda>r. (rg_get r, rg_put r)) registers"

lemma frames_registers: "frames register_lenses v s"
  unfolding register_lenses_def registers_def register_defs list.map Register.simps
  by simp

lemma distinct_register_names: "distinct (map rg_name registers)"
  by (simp add: registers_def register_defs)

section \<open>The encoding of a value\<close>

fun same_kind :: "RegValue \<Rightarrow> RegValue \<Rightarrow> bool" where
  "same_kind (VFloat _) (VFloat _) = True"
| "same_kind (VByte _) (VByte _) = True"
| "same_kind (VPort _) (VPort _) = True"
| "same_kind (VName _) (VName _) = True"
| "same_kind _ _ = False"

text \<open>Values a field of the struct can hold: a \<open>float\<close> is a binary32 number, the name fills its array.\<close>

fun value_ok :: "RegValue \<Rightarrow> bool" where
  "value_ok (VFloat x) = f32_ok x"
| "value_ok (VName name) = (length name = kNodeNameMaxLen + 1)"
| "value_ok _ = True"

lemma same_kind_refl [simp]: "same_kind v v"
  by (cases v) auto

lemma same_kind_sym: "same_kind v w \<Longrightarrow> same_kind w v"
  by (cases v; cases w) auto

lemma same_kind_trans: "same_kind u v \<Longrightarrow> same_kind v w \<Longrightarrow> same_kind u w"
  by (cases u; cases v; cases w) auto

lemma PutFloat_length [simp]: "length (PutFloat x) = 4"
  by (simp add: PutFloat_def Let_def)

lemma and_byte: "(w :: 'a :: len word) AND 0xFF = take_bit 8 w"
  by (simp add: take_bit_eq_mask mask_eq_exp_minus_1)

lemma word32_of_bytes:
  fixes w :: u32
  shows "ucast (ucast (take_bit 8 w) :: u8) OR (push_bit 8 (ucast (ucast (take_bit 8 (drop_bit 8 w)) :: u8))
    OR (push_bit 16 (ucast (ucast (take_bit 8 (drop_bit 16 w)) :: u8))
    OR push_bit 24 (ucast (ucast (take_bit 8 (drop_bit 24 w)) :: u8)))) = w"
  (is "?w = w")
proof (rule bit_word_eqI)
  fix n
  assume "n < LENGTH(32)"
  then consider "n < 8" | "8 \<le> n" "n < 16" | "16 \<le> n" "n < 24" | "24 \<le> n" "n < 32"
    by fastforce
  then show "bit ?w n = bit w n"
    by cases (auto simp: bit_simps)
qed

lemma GetFloat_PutFloat [simp]: "f32_ok x \<Longrightarrow> GetFloat (PutFloat x) = x"
  using word32_of_bytes [of "f32_bits x"] by (simp add: GetFloat_def PutFloat_def Let_def or.assoc and_byte)

lemma port_of_bytes:
  fixes w :: u16
  shows "ucast (ucast (take_bit 8 w) :: u8) OR push_bit 8 (ucast (ucast (drop_bit 8 w) :: u8)) = w" (is "?w = w")
proof (rule bit_word_eqI)
  fix n
  assume "n < LENGTH(16)"
  then show "bit ?w n = bit w n"
    by (cases "n < 8") (auto simp: bit_simps)
qed

lemma terminated_prefix_props: "length (terminated_prefix n name) \<le> n" "0 \<notin> set (terminated_prefix n name)"
  by (induction n name rule: terminated_prefix.induct) auto

lemma terminated_prefix_padded:
  "length name \<le> n \<Longrightarrow> 0 \<notin> set name \<Longrightarrow> terminated_prefix n (name @ replicate (Suc k) 0) = name"
proof (induction name arbitrary: n)
  case Nil
  then show ?case by (cases n) auto
next
  case (Cons c cs)
  then show ?case by (cases n) auto
qed

lemma EncodeRegisterValue_size:
  "EncodeRegisterValue v \<noteq> []" "length (EncodeRegisterValue v) \<le> kMaxRegisterValueSize"
  using terminated_prefix_props(1) [of kNodeNameMaxLen "the_name v"]
  by (cases v; auto simp: kMaxRegisterValueSize_def kNodeNameMaxLen_def PutFloat_def Let_def)+

lemma Decode_Encode_plain:
  "value_ok v \<Longrightarrow> same_kind v old \<Longrightarrow> \<not> same_kind v (VName []) \<Longrightarrow>
    DecodeRegisterValue (EncodeRegisterValue v) old = Some v"
  by (cases v; cases old) (auto simp: port_of_bytes and_byte)

lemma Decode_Encode:
  assumes "value_ok v" "same_kind v old"
  shows "\<exists>w. DecodeRegisterValue (EncodeRegisterValue v) old = Some w \<and> SameEncoding w v \<and> same_kind w v
    \<and> (\<not> same_kind v (VName []) \<longrightarrow> w = v)"
proof (cases "same_kind v (VName [])")
  case True
  then obtain name where v: "v = VName name" by (cases v) auto
  with assms obtain name' where old: "old = VName name'" by (cases old) auto
  define p where "p = terminated_prefix kNodeNameMaxLen name"
  have "length p \<le> kNodeNameMaxLen" "0 \<notin> set p"
    using terminated_prefix_props [of kNodeNameMaxLen name] by (simp_all add: p_def)
  then show ?thesis
    using terminated_prefix_padded [of p kNodeNameMaxLen "kNodeNameMaxLen - length p"]
    by (simp add: v old p_def [symmetric] SameEncoding_def zero_padded_def kMaxRegisterValueSize_def Suc_diff_le)
next
  case False
  with Decode_Encode_plain [OF assms] show ?thesis by (simp add: SameEncoding_def)
qed

lemma Decode_kind: "DecodeRegisterValue b old = Some v \<Longrightarrow> same_kind old v"
  by (cases old) (auto split: if_splits)

lemma Decode_cong: "same_kind v w \<Longrightarrow> DecodeRegisterValue b v = DecodeRegisterValue b w"
  by (cases v; cases w) auto

lemma SameEncoding_eq:
  "SameEncoding v w \<Longrightarrow> same_kind v w \<Longrightarrow> value_ok v \<Longrightarrow> value_ok w \<Longrightarrow> \<not> same_kind v (VName []) \<Longrightarrow> v = w"
  using Decode_Encode_plain [of v w] Decode_Encode_plain [of w w] same_kind_sym same_kind_trans same_kind_refl
  unfolding SameEncoding_def by (metis option.inject)

lemma SameEncoding_equiv [simp]: "SameEncoding v v"
  and SameEncoding_sym: "SameEncoding v w \<Longrightarrow> SameEncoding w v"
  and SameEncoding_trans [trans]: "SameEncoding u v \<Longrightarrow> SameEncoding v w \<Longrightarrow> SameEncoding u w"
  by (auto simp: SameEncoding_def)

section \<open>The laws of the table\<close>

text \<open>
  What a client of a register table relies on: the names are distinct keys, a register returns what
  was put into it and no other register changes.
\<close>

locale register_table =
  fixes regs :: "'r list"
    and name :: "'r \<Rightarrow> string"
    and get :: "'r \<Rightarrow> 's \<Rightarrow> 'v"
    and put :: "'r \<Rightarrow> 'v \<Rightarrow> 's \<Rightarrow> 's"
    and kind :: "'v \<Rightarrow> 'v \<Rightarrow> bool"
  assumes distinct_names: "distinct (map name regs)"
    and get_put: "r \<in> set regs \<Longrightarrow> kind (get r s) v \<Longrightarrow> get r (put r v s) = v"
    and get_put_other: "r \<in> set regs \<Longrightarrow> q \<in> set regs \<Longrightarrow> q \<noteq> r \<Longrightarrow> get q (put r v s) = get q s"
begin

lemma name_inj: "r \<in> set regs \<Longrightarrow> q \<in> set regs \<Longrightarrow> name r = name q \<Longrightarrow> r = q"
  using distinct_names by (auto simp: distinct_map inj_on_def)

lemma distinct_regs: "distinct regs"
  using distinct_names by (auto simp: distinct_map)

end

lemma rg_get_put: "r \<in> set registers \<Longrightarrow> same_kind (rg_get r s) v \<Longrightarrow> rg_get r (rg_put r v s) = v"
proof -
  have "list_all (\<lambda>r. same_kind (rg_get r s) v \<longrightarrow> rg_get r (rg_put r v s) = v) registers"
    unfolding registers_def register_defs list.pred_inject Register.simps
    by (cases v) simp_all
  then show "r \<in> set registers \<Longrightarrow> same_kind (rg_get r s) v \<Longrightarrow> rg_get r (rg_put r v s) = v"
    by (auto simp only: list_all_iff)
qed

lemma rg_get_put_other:
  assumes "r \<in> set registers" "q \<in> set registers" "q \<noteq> r"
  shows "rg_get q (rg_put r v s) = rg_get q s"
proof -
  obtain i j where ij: "i < length registers" "registers ! i = q" "j < length registers" "registers ! j = r"
    using assms by (metis in_set_conv_nth)
  then have "i \<noteq> j"
    using assms(3) by metis
  moreover have "register_lenses ! i = (rg_get q, rg_put q)" "register_lenses ! j = (rg_get r, rg_put r)"
      "length register_lenses = length registers"
    using ij by (simp_all only: register_lenses_def nth_map length_map)
  ultimately show ?thesis
    using framesD [OF frames_registers, of i j v s] ij by (simp only: fst_conv snd_conv simp_thms)
qed

interpretation nvm: register_table registers rg_name rg_get rg_put same_kind
  by (rule register_table.intro [OF distinct_register_names rg_get_put rg_get_put_other])

text \<open>The kind of a register is that of its field: it does not depend on the settings.\<close>

lemma rg_get_kind: "r \<in> set registers \<Longrightarrow> same_kind (rg_get r s) (rg_get r t)"
proof -
  have "list_all (\<lambda>r. same_kind (rg_get r s) (rg_get r t)) registers"
    unfolding registers_def register_defs list.pred_inject Register.simps
    by simp
  then show "r \<in> set registers \<Longrightarrow> same_kind (rg_get r s) (rg_get r t)"
    by (auto simp only: list_all_iff)
qed

text \<open>Settings that agree on all registers but the name differ in the node identity at most.\<close>

definition same_registers :: "NvmSettings \<Rightarrow> NvmSettings \<Rightarrow> bool" where
  "same_registers s t \<longleftrightarrow> list_all (\<lambda>r. same_kind (rg_get r s) (VName []) \<or> rg_get r s = rg_get r t) registers"

lemma same_registers_eq: "same_registers s t \<Longrightarrow> t = s\<lparr>nvm_identity := nvm_identity t\<rparr>"
  unfolding same_registers_def registers_def register_defs list.pred_inject Register.simps
  by (cases s; cases t) simp

end
