(* ===== verification/Settings_Validate.thy ===== *)
theory Settings_Validate
  imports Settings_Registers
begin

text \<open>
  The validation of a whole settings set (\<open>settings_store_internal\<close> in \<open>lib/settings/settings_store.hpp\<close>). Every
  \<open>if\<close> of \<open>Validate\<close> is a definition of its own, in the order of the source. The theorems read the validation
  backwards: what a set that was accepted satisfies.
\<close>

datatype SettingsStatus = kSuccess | kFactoryDefaults | kInvalidImage | kInvalidSettings | kOutOfRange
  | kStorageUnavailable | kStorageError | kPersistBlocked

section \<open>Finite numbers\<close>

definition IsFiniteEbike :: "NvmSettings \<Rightarrow> bool" where
  "IsFiniteEbike settings \<longleftrightarrow>
    isfinite (nvm_ebike_wheel_circumference settings) \<and> isfinite (nvm_ebike_gear_ratio settings) \<and>
    isfinite (nvm_ebike_gain_1 settings) \<and> isfinite (nvm_ebike_gain_2 settings) \<and>
    isfinite (nvm_ebike_gain_3 settings) \<and> isfinite (nvm_ebike_gain_4 settings) \<and>
    isfinite (nvm_ebike_gain_5 settings) \<and> isfinite (nvm_ebike_power_scale settings) \<and>
    isfinite (nvm_ebike_max_ratio settings) \<and> isfinite (nvm_ebike_torque_ratio settings) \<and>
    isfinite (nvm_ebike_torque_deadband settings) \<and> isfinite (nvm_ebike_min_cadence settings) \<and>
    isfinite (nvm_ebike_speed_taper settings) \<and> isfinite (nvm_ebike_rise_time settings) \<and>
    isfinite (nvm_ebike_fall_time settings) \<and> isfinite (nvm_ebike_engage_hold settings) \<and>
    isfinite (nvm_ebike_rearm_time settings) \<and> isfinite (nvm_ebike_display_timeout settings)"

definition IsFinite :: "NvmSettings \<Rightarrow> bool" where
  "IsFinite settings \<longleftrightarrow>
    isfinite (nvm_stator_r settings) \<and> isfinite (nvm_stator_l settings) \<and>
    isfinite (nvm_motor_i_max settings) \<and> isfinite (nvm_motor_omega_max settings) \<and>
    isfinite (nvm_motor_omega_min settings) \<and> isfinite (nvm_battery_drive_current_max settings) \<and>
    isfinite (nvm_battery_charge_current_max settings) \<and> isfinite (nvm_flux_pm settings) \<and>
    isfinite (nvm_l_d settings) \<and> isfinite (nvm_l_q settings) \<and>
    isfinite (nvm_asm_r_r settings) \<and> isfinite (nvm_asm_r_s settings) \<and>
    isfinite (nvm_asm_l_s settings) \<and> isfinite (nvm_asm_l_r settings) \<and>
    isfinite (nvm_asm_l_m settings) \<and> isfinite (nvm_motor_j settings) \<and>
    isfinite (nvm_mech_obs_q settings) \<and> isfinite (nvm_mech_obs_r settings) \<and>
    isfinite (nvm_pmsm_flux_obs_c_d settings) \<and> isfinite (nvm_pmsm_flux_obs_c_q settings) \<and>
    isfinite (nvm_pmsm_flux_obs_r_speed settings) \<and> isfinite (nvm_hall_offset settings) \<and>
    isfinite (nvm_hall_r_edge settings) \<and> isfinite (nvm_hall_r_sector settings) \<and>
    isfinite (nvm_asm_obs_g_i settings) \<and> isfinite (nvm_asm_obs_g_flux settings) \<and>
    isfinite (nvm_asm_flux_kp settings) \<and> isfinite (nvm_asm_flux_ki settings) \<and>
    isfinite (nvm_asm_flux_i_d_min settings) \<and> isfinite (nvm_asm_flux_i_d_max settings) \<and>
    isfinite (nvm_fw_v_max settings) \<and> isfinite (nvm_fw_ki settings) \<and>
    isfinite (nvm_fw_i_d_min settings) \<and> isfinite (nvm_current_kp_d settings) \<and>
    isfinite (nvm_current_ki_d settings) \<and> isfinite (nvm_current_kp_q settings) \<and>
    isfinite (nvm_current_ki_q settings) \<and> isfinite (nvm_current_v_max settings) \<and>
    isfinite (nvm_svm_duty_min settings) \<and> isfinite (nvm_svm_duty_max settings) \<and>
    isfinite (nvm_dtc_dead_time settings) \<and> isfinite (nvm_dtc_f_pwm settings) \<and>
    isfinite (nvm_dtc_i_threshold settings) \<and> isfinite (nvm_hfi_v_inject settings) \<and>
    isfinite (nvm_hfi_error_gain settings) \<and> isfinite (nvm_excitation_l_m settings) \<and>
    isfinite (nvm_excitation_kp settings) \<and> isfinite (nvm_excitation_ki settings) \<and>
    isfinite (nvm_excitation_i_f_min settings) \<and> isfinite (nvm_excitation_i_f_max settings) \<and>
    isfinite (nvm_excitation_obs_tau settings) \<and> isfinite (nvm_excitation_obs_l_m settings) \<and>
    isfinite (nvm_speed_kp settings) \<and> isfinite (nvm_speed_ki settings) \<and>
    isfinite (nvm_speed_accel_limit settings) \<and> isfinite (nvm_pos_kp_pos settings) \<and>
    isfinite (nvm_pos_kp_speed settings) \<and> isfinite (nvm_pos_ki_speed settings) \<and>
    isfinite (nvm_pos_speed_limit settings) \<and> isfinite (nvm_pos_accel_limit settings) \<and>
    isfinite (nvm_pos_position_tolerance settings) \<and> isfinite (nvm_pos_speed_tolerance settings) \<and>
    isfinite (nvm_pos_homing_speed settings) \<and> isfinite (nvm_pos_homing_current settings) \<and>
    isfinite (nvm_adc_offset_a settings) \<and> isfinite (nvm_adc_offset_b settings) \<and>
    isfinite (nvm_adc_offset_c settings) \<and> isfinite (nvm_adc_gain_c settings) \<and>
    isfinite (nvm_adc_gain_a settings) \<and> isfinite (nvm_adc_gain_b settings) \<and>
    isfinite (nvm_adc_gain_vdc settings) \<and> isfinite (nvm_telemetry_rate settings) \<and>
    isfinite (nvm_command_timeout settings) \<and> isfinite (nvm_dc_link_regen_derate_start settings) \<and>
    isfinite (nvm_dc_link_trip settings) \<and> isfinite (nvm_cart_timeout settings) \<and>
    isfinite (nvm_cart_status_rate settings) \<and> isfinite (nvm_cart_torque_ramp settings) \<and>
    isfinite (nvm_cart_limp_home_torque settings) \<and> isfinite (nvm_cart_standstill_speed settings) \<and>
    isfinite (nvm_cart_battery_share settings) \<and> IsFiniteEbike settings"

section \<open>Enums and the profile\<close>

definition kPwmFrequencies :: "f32 list" where
  "kPwmFrequencies = [f32_of 16000, f32_of 20000, f32_of 24000, f32_of 28000, f32_of 32000]"

definition IsValidEnumValues :: "NvmSettings \<Rightarrow> bool" where
  "IsValidEnumValues settings \<longleftrightarrow>
    (let valid_motor_type = nvm_motor_type settings = kPmsm \<or> nvm_motor_type settings = kAsm \<or> nvm_motor_type settings = kEesm;
         valid_control_mode = nvm_control_mode settings = kTorque \<or> nvm_control_mode settings = kSpeed \<or> nvm_control_mode settings = kPosition;
         valid_pwm_frequency = list_ex (\<lambda>f. feq f (nvm_pwm_frequency settings)) kPwmFrequencies
     in valid_motor_type \<and> valid_control_mode \<and> valid_pwm_frequency \<and> nvm_excitation_mode settings \<le> 1 \<and>
        nvm_hall_enable settings \<le> 1 \<and> nvm_cart_wheel settings \<le> 3 \<and> nvm_cart_reversed settings \<le> 1)"

definition IsValidProfile :: "SettingsProfile \<Rightarrow> bool" where
  "IsValidProfile profile \<longleftrightarrow>
    (let limits = profile_capabilities profile in
     IsFinite (profile_factory_settings profile) \<and> isfinite (cap_max_phase_current limits) \<and>
     isfinite (cap_max_motor_current limits) \<and> isfinite (cap_max_battery_drive_current limits) \<and>
     isfinite (cap_max_battery_charge_current limits) \<and>
     cap_max_phase_current limits > 0 \<and>
     cap_max_motor_current limits > 0 \<and>
     cap_max_motor_current limits \<le> cap_max_phase_current limits \<and>
     cap_max_battery_drive_current limits > 0 \<and>
     cap_max_battery_charge_current limits \<ge> 0 \<and>
     isfinite (cap_max_dc_link_voltage limits) \<and>
     cap_max_dc_link_voltage limits > 0)"

section \<open>Port-IDs\<close>

definition kMaxSubjectId :: u16 where
  "kMaxSubjectId = 8191"

fun HasDuplicatePort :: "u16 list \<Rightarrow> bool" where
  "HasDuplicatePort [] = False"
| "HasDuplicatePort (p # ps) \<longleftrightarrow> p \<noteq> kUnsetPortId \<and> p \<in> set ps \<or> HasDuplicatePort ps"

text \<open>
  The subjects of a settings set: a readiness that follows the node-ID counts with its subject, and without
  a node-ID (plug-and-play) it has none yet.
\<close>

definition subjects :: "NvmSettings \<Rightarrow> u16 list" where
  "subjects settings =
    (let readiness = (if nvm_node_id settings = 0 \<and> nvm_sub_readiness_id settings = kReadinessFollowsNodeId
                      then kUnsetPortId
                      else EffectiveReadinessId (nvm_sub_readiness_id settings) (nvm_node_id settings))
     in [readiness,
         nvm_sub_current_setpoint_id settings,
         nvm_sub_torque_setpoint_id settings,
         nvm_sub_speed_setpoint_id settings,
         nvm_sub_position_setpoint_id settings,
         nvm_sub_servo_setpoint_id settings,
         nvm_pub_telemetry_id settings,
         nvm_sub_wheel_command_id settings,
         nvm_sub_pedal_state_id settings,
         nvm_sub_battery_status_id settings,
         nvm_pub_drive_status_id settings,
         nvm_pub_commissioning_id settings,
         nvm_pub_homing_state_id settings])"

definition services :: "NvmSettings \<Rightarrow> u16 list" where
  "services settings =
    [nvm_srv_cymon_variables_id settings,
     nvm_srv_cymon_buffer_info_id settings,
     nvm_srv_cymon_setup_id settings,
     nvm_srv_cymon_arm_id settings,
     nvm_srv_cymon_read_id settings]"

definition HasPortIdCollision :: "NvmSettings \<Rightarrow> bool" where
  "HasPortIdCollision settings \<longleftrightarrow>
    (let on_subject = (\<lambda>port_id. port_id \<noteq> kUnsetPortId \<and> port_id \<in> set (subjects settings))
     in HasDuplicatePort (subjects settings) \<or> HasDuplicatePort (services settings) \<or>
        on_subject (nvm_pub_cymon_trigger_id settings) \<or> on_subject (nvm_sub_cymon_trigger_id settings))"

section \<open>Ranges\<close>

definition kMaxTelemetryRate :: f32 where
  "kMaxTelemetryRate = f32_of 1000"

definition kMaxCommandTimeout :: f32 where
  "kMaxCommandTimeout = f32_of 10"

definition kMaxEbikeRatio :: f32 where
  "kMaxEbikeRatio = f32_of 20"

definition kMinEbikePulses :: u8 where
  "kMinEbikePulses = 2"

definition kMaxEbikePulses :: u8 where
  "kMaxEbikePulses = 64"

definition kMinWheelCircumference :: f32 where
  "kMinWheelCircumference = f32_of (1/2)"

definition kMaxWheelCircumference :: f32 where
  "kMaxWheelCircumference = f32_of 4"

definition kMaxBatteryCells :: u8 where
  "kMaxBatteryCells = 30"

definition kIsRatio :: "f32 \<Rightarrow> bool" where
  "kIsRatio x \<longleftrightarrow> x \<ge> f32_of 0 \<and> x \<le> f32_of 1"

definition kIsGain :: "f32 \<Rightarrow> bool" where
  "kIsGain x \<longleftrightarrow> x \<ge> 0 \<and> x \<le> kMaxEbikeRatio"

definition kIsSubjectId :: "u16 \<Rightarrow> bool" where
  "kIsSubjectId port_id \<longleftrightarrow> port_id \<le> kMaxSubjectId \<or> port_id = kUnsetPortId"

definition kIsServiceId :: "u16 \<Rightarrow> bool" where
  "kIsServiceId port_id \<longleftrightarrow> port_id \<le> kMaxServiceId \<or> port_id = kUnsetPortId"

definition limits_out_of_range :: "NvmSettings \<Rightarrow> HardwareCapabilities \<Rightarrow> bool" where
  "limits_out_of_range settings limits \<longleftrightarrow>
    nvm_motor_i_max settings < 0 \<or> nvm_motor_i_max settings > cap_max_motor_current limits \<or>
    nvm_battery_drive_current_max settings < 0 \<or>
    nvm_battery_drive_current_max settings > cap_max_battery_drive_current limits \<or>
    nvm_battery_charge_current_max settings < 0 \<or>
    nvm_battery_charge_current_max settings > cap_max_battery_charge_current limits \<or>
    nvm_motor_omega_min settings > 0 \<or> nvm_motor_omega_max settings < 0 \<or>
    nvm_dc_link_regen_derate_start settings \<le> 0 \<or>
    nvm_dc_link_trip settings \<le> nvm_dc_link_regen_derate_start settings \<or>
    nvm_dc_link_trip settings > cap_max_dc_link_voltage limits"

definition motor_out_of_range :: "NvmSettings \<Rightarrow> bool" where
  "motor_out_of_range settings \<longleftrightarrow>
    nvm_stator_r settings \<le> 0 \<or> nvm_stator_l settings \<le> 0 \<or> nvm_flux_pm settings < 0 \<or>
    nvm_l_d settings \<le> 0 \<or> nvm_l_q settings \<le> 0 \<or> nvm_asm_r_r settings \<le> 0 \<or>
    nvm_asm_r_s settings \<le> 0 \<or> nvm_asm_l_s settings \<le> 0 \<or> nvm_asm_l_r settings \<le> 0 \<or>
    nvm_asm_l_m settings \<le> 0 \<or> nvm_motor_j settings \<le> 0 \<or>
    nvm_asm_flux_i_d_min settings < 0 \<or>
    nvm_asm_flux_i_d_max settings < nvm_asm_flux_i_d_min settings \<or>
    nvm_excitation_i_f_min settings < 0 \<or>
    nvm_excitation_i_f_max settings < nvm_excitation_i_f_min settings \<or>
    nvm_dtc_dead_time settings < 0 \<or> nvm_dtc_f_pwm settings \<le> 0 \<or>
    nvm_excitation_obs_tau settings \<le> 0 \<or> nvm_pos_position_tolerance settings < 0 \<or>
    nvm_pos_speed_tolerance settings < 0 \<or> nvm_pos_homing_current settings < 0"

definition observer_out_of_range :: "NvmSettings \<Rightarrow> bool" where
  "observer_out_of_range settings \<longleftrightarrow>
    nvm_mech_obs_r settings \<le> 0 \<or> nvm_pmsm_flux_obs_r_speed settings < 0 \<or>
    nvm_hall_r_edge settings \<le> 0 \<or> nvm_hall_r_sector settings \<le> 0 \<or>
    nvm_speed_kp settings < 0 \<or> nvm_speed_ki settings < 0 \<or> nvm_speed_accel_limit settings < 0"

definition modulation_out_of_range :: "NvmSettings \<Rightarrow> bool" where
  "modulation_out_of_range settings \<longleftrightarrow>
    nvm_fw_v_max settings < 0 \<or> \<not> kIsRatio (nvm_current_v_max settings) \<or>
    \<not> kIsRatio (nvm_svm_duty_min settings) \<or> \<not> kIsRatio (nvm_svm_duty_max settings) \<or>
    nvm_svm_duty_min settings > nvm_svm_duty_max settings \<or> nvm_adc_gain_a settings \<le> 0 \<or>
    nvm_adc_gain_b settings \<le> 0 \<or> nvm_adc_gain_c settings \<le> 0 \<or>
    nvm_adc_gain_vdc settings \<le> 0"

definition ports_out_of_range :: "NvmSettings \<Rightarrow> bool" where
  "ports_out_of_range settings \<longleftrightarrow>
    \<not> kIsSubjectId (nvm_sub_readiness_id settings) \<and> nvm_sub_readiness_id settings \<noteq> kReadinessFollowsNodeId \<or>
    \<not> kIsSubjectId (nvm_sub_current_setpoint_id settings) \<or>
    \<not> kIsSubjectId (nvm_sub_torque_setpoint_id settings) \<or>
    \<not> kIsSubjectId (nvm_sub_speed_setpoint_id settings) \<or>
    \<not> kIsSubjectId (nvm_sub_position_setpoint_id settings) \<or>
    \<not> kIsSubjectId (nvm_sub_servo_setpoint_id settings) \<or>
    \<not> kIsSubjectId (nvm_pub_telemetry_id settings) \<or> nvm_telemetry_rate settings < 0 \<or>
    nvm_telemetry_rate settings > kMaxTelemetryRate \<or> nvm_command_timeout settings \<le> 0 \<or>
    nvm_command_timeout settings > kMaxCommandTimeout"

definition cart_out_of_range :: "NvmSettings \<Rightarrow> bool" where
  "cart_out_of_range settings \<longleftrightarrow>
    \<not> kIsSubjectId (nvm_sub_wheel_command_id settings) \<or>
    \<not> kIsSubjectId (nvm_sub_pedal_state_id settings) \<or>
    \<not> kIsSubjectId (nvm_sub_battery_status_id settings) \<or>
    \<not> kIsSubjectId (nvm_pub_drive_status_id settings) \<or>
    \<not> kIsSubjectId (nvm_pub_commissioning_id settings) \<or>
    \<not> kIsSubjectId (nvm_pub_homing_state_id settings) \<or> nvm_cart_timeout settings \<le> 0 \<or>
    nvm_cart_timeout settings > nvm_command_timeout settings \<or> nvm_cart_status_rate settings < 0 \<or>
    nvm_cart_status_rate settings > kMaxTelemetryRate \<or> nvm_cart_torque_ramp settings \<le> 0 \<or>
    nvm_cart_limp_home_torque settings < 0 \<or> nvm_cart_standstill_speed settings < 0 \<or>
    \<not> kIsRatio (nvm_cart_battery_share settings)"

definition ebike_out_of_range :: "NvmSettings \<Rightarrow> bool" where
  "ebike_out_of_range settings \<longleftrightarrow>
    nvm_ebike_pulses_per_rev settings < kMinEbikePulses \<or>
    nvm_ebike_pulses_per_rev settings > kMaxEbikePulses \<or>
    nvm_ebike_wheel_circumference settings < kMinWheelCircumference \<or>
    nvm_ebike_wheel_circumference settings > kMaxWheelCircumference \<or>
    nvm_ebike_gear_ratio settings \<le> 0 \<or>
    nvm_ebike_gear_ratio settings > kMaxEbikeRatio * f32_of 5 \<or> nvm_ebike_battery_cells settings < 1 \<or>
    nvm_ebike_battery_cells settings > kMaxBatteryCells \<or> nvm_ebike_nominal_voltage settings = 0 \<or>
    \<not> kIsGain (nvm_ebike_gain_1 settings) \<or> \<not> kIsGain (nvm_ebike_gain_2 settings) \<or>
    \<not> kIsGain (nvm_ebike_gain_3 settings) \<or> \<not> kIsGain (nvm_ebike_gain_4 settings) \<or>
    \<not> kIsGain (nvm_ebike_gain_5 settings) \<or> \<not> kIsGain (nvm_ebike_max_ratio settings) \<or>
    \<not> kIsGain (nvm_ebike_torque_ratio settings) \<or> nvm_ebike_power_scale settings \<le> 0 \<or>
    nvm_ebike_torque_deadband settings < 0 \<or> nvm_ebike_min_cadence settings < 0 \<or>
    nvm_ebike_speed_taper settings \<le> 0 \<or> nvm_ebike_rise_time settings \<le> 0 \<or>
    nvm_ebike_fall_time settings \<le> 0 \<or> nvm_ebike_engage_hold settings < 0 \<or>
    nvm_ebike_rearm_time settings < 0 \<or> nvm_ebike_display_timeout settings \<le> 0"

definition trace_ports_out_of_range :: "NvmSettings \<Rightarrow> bool" where
  "trace_ports_out_of_range settings \<longleftrightarrow>
    \<not> kIsServiceId (nvm_srv_cymon_variables_id settings) \<or>
    \<not> kIsServiceId (nvm_srv_cymon_buffer_info_id settings) \<or>
    \<not> kIsServiceId (nvm_srv_cymon_setup_id settings) \<or>
    \<not> kIsServiceId (nvm_srv_cymon_arm_id settings) \<or>
    \<not> kIsServiceId (nvm_srv_cymon_read_id settings) \<or>
    \<not> kIsSubjectId (nvm_pub_cymon_trigger_id settings) \<or>
    \<not> kIsSubjectId (nvm_sub_cymon_trigger_id settings)"

definition Validate :: "NvmSettings \<Rightarrow> HardwareCapabilities \<Rightarrow> SettingsStatus" where
  "Validate settings limits =
    (if \<not> IsFinite settings \<or> \<not> IsValidEnumValues settings \<or> nvm_node_id settings > 127 \<or> nvm_pole_pairs settings = 0
     then kInvalidSettings
     else if limits_out_of_range settings limits then kOutOfRange
     else if motor_out_of_range settings then kOutOfRange
     else if observer_out_of_range settings then kOutOfRange
     else if modulation_out_of_range settings then kOutOfRange
     else if ports_out_of_range settings then kOutOfRange
     else if cart_out_of_range settings then kOutOfRange
     else if ebike_out_of_range settings then kOutOfRange
     else if trace_ports_out_of_range settings then kOutOfRange
     else if HasPortIdCollision settings then kInvalidSettings
     else kSuccess)"

section \<open>What validated settings satisfy\<close>

text \<open>A register value as a number; the node name has none.\<close>

fun register_number :: "RegValue \<Rightarrow> f32 option" where
  "register_number (VFloat x) = Some x"
| "register_number (VByte b) = Some (f32_of_int (uint b))"
| "register_number (VPort p) = Some (f32_of_int (uint p))"
| "register_number (VName _) = None"

definition within_limits :: "RegisterLimits \<Rightarrow> RegValue \<Rightarrow> bool" where
  "within_limits limits v \<longleftrightarrow> (case register_number v of None \<Rightarrow> True
    | Some x \<Rightarrow> isfinite x \<and> lim_minimum limits \<le> x \<and> x \<le> lim_maximum limits)"

lemma f32_of_int_small:
  assumes "0 \<le> n" "n \<le> 2 ^ 24"
  shows "isfinite (f32_of_int n)" "val (f32_of_int n) = of_int n"
proof -
  have "rnd (of_int n) = of_int n"
    using assms by (intro rnd_of_int) simp
  moreover have "\<bar>of_int n :: rat\<bar> \<le> pow2 127"
    using assms by (simp add: pow2_nat)
  ultimately show "isfinite (f32_of_int n)" "val (f32_of_int n) = of_int n"
    using f32_of_finite [of "of_int n"] by (simp_all add: f32_of_int_def)
qed

lemma number_of_byte:
  fixes b :: u8 and p :: u16
  shows "isfinite (f32_of_int (uint b))" "val (f32_of_int (uint b)) = of_int (uint b)"
    and "isfinite (f32_of_int (uint p))" "val (f32_of_int (uint p)) = of_int (uint p)"
  using f32_of_int_small [of "uint b"] f32_of_int_small [of "uint p"] uint_lt2p [of b] uint_lt2p [of p] by simp_all

lemma f32_of_numeral: "(numeral n :: int) \<le> 2 ^ 24 \<Longrightarrow> f32_of (numeral n) = Fin (numeral n)"
  using f32_of_int_small [of "numeral n"] by (cases "f32_of_int (numeral n)") (simp_all add: f32_of_int_def)

lemma number_bounds:
  fixes b :: u8 and p :: u16
  shows "f32_of_int (uint b) \<le> Fin (numeral n) \<longleftrightarrow> uint b \<le> numeral n"
    "Fin (numeral n) \<le> f32_of_int (uint b) \<longleftrightarrow> numeral n \<le> uint b"
    "f32_of_int (uint b) \<le> Fin 1 \<longleftrightarrow> uint b \<le> 1" "Fin 1 \<le> f32_of_int (uint b) \<longleftrightarrow> 1 \<le> uint b"
    "f32_of_int (uint p) \<le> Fin (numeral n) \<longleftrightarrow> uint p \<le> numeral n"
    "0 \<le> f32_of_int (uint b)" "0 \<le> f32_of_int (uint p)"
  by (simp_all only: le_finite number_of_byte isfinite.simps val.simps zero_f32_def of_int_le_numeral_iff
      of_int_numeral_le_iff of_int_le_1_iff of_int_1_le_iff of_int_0_le_iff uint_ge_0)

lemma f32_literals:
  "f32_of 0 = 0" "f32_of 1 = Fin 1" "f32_of (1/2) = Fin (1/2)" "f32_of 4 = Fin 4" "f32_of 10 = Fin 10"
  "f32_of 20 = Fin 20" "f32_of 1000 = Fin 1000" "Fin 20 * f32_of 5 = Fin 100"
  by (simp_all add: f32_eval)

lemma isfinite_zero: "isfinite (0 :: f32)"
  by (simp add: zero_f32_def)

lemma not_below: "isfinite x \<Longrightarrow> isfinite c \<Longrightarrow> \<not> x < c \<Longrightarrow> c \<le> x"
  and not_at_most: "isfinite x \<Longrightarrow> isfinite c \<Longrightarrow> \<not> x \<le> c \<Longrightarrow> c \<le> x"
  and not_above: "isfinite x \<Longrightarrow> isfinite c \<Longrightarrow> \<not> c < x \<Longrightarrow> x \<le> c"
  and finite_bounds: "isfinite x \<Longrightarrow> NInf \<le> x" "isfinite x \<Longrightarrow> x \<le> PInf"
  by (auto simp: less_finite le_finite)

lemmas port_defs = kUnsetPortId_def kReadinessFollowsNodeId_def kPubCommissioning_def kPubDriveStatus_def kPubHomingState_def
  kPubTelemetry_def kSrvCymonArm_def kSrvCymonBufferInfo_def kSrvCymonRead_def kSrvCymonSetup_def kSrvCymonVariables_def
  kSubBatteryStatus_def kSubCurrentSetpoint_def kSubPedalState_def kSubPositionSetpoint_def kSubServoSetpoint_def
  kSubSpeedSetpoint_def kSubTorqueSetpoint_def kSubWheelCommand_def

lemma Validate_success:
  assumes "Validate s limits = kSuccess"
  shows "IsFinite s" "IsValidEnumValues s" "nvm_node_id s \<le> 127" "nvm_pole_pairs s \<noteq> 0"
    "\<not> limits_out_of_range s limits" "\<not> motor_out_of_range s" "\<not> observer_out_of_range s"
    "\<not> modulation_out_of_range s" "\<not> ports_out_of_range s" "\<not> cart_out_of_range s"
    "\<not> ebike_out_of_range s" "\<not> trace_ports_out_of_range s" "\<not> HasPortIdCollision s"
  using assms unfolding Validate_def by (auto split: if_splits)

lemma isfinite_numbers: "isfinite x \<Longrightarrow> x \<noteq> NaN"
  by auto

lemma byte_positive: "b \<noteq> 0 \<Longrightarrow> 1 \<le> uint (b :: u8)"
  by (metis int_one_le_iff_zero_less uint_ge_0 uint_0_iff order_le_less)

lemma word_bounds: "uint (b :: u8) \<le> 255" "uint (p :: u16) \<le> 65535"
  using uint_lt2p [of b] uint_lt2p [of p] by simp_all

lemma feq_Fin: "feq (Fin q) x \<longleftrightarrow> isfinite x \<and> val x = q"
  using between_finite [of q x q] by (auto simp: feq_def le_finite)

lemma pwm_frequency_valid:
  assumes "IsValidEnumValues s"
  shows "isfinite (nvm_pwm_frequency s)" "Fin 16000 \<le> nvm_pwm_frequency s" "nvm_pwm_frequency s \<le> Fin 32000"
proof -
  have "list_ex (\<lambda>f. feq f (nvm_pwm_frequency s)) kPwmFrequencies"
    using assms unfolding IsValidEnumValues_def Let_def by blast
  then show "isfinite (nvm_pwm_frequency s)" "Fin 16000 \<le> nvm_pwm_frequency s" "nvm_pwm_frequency s \<le> Fin 32000"
    by (auto simp: kPwmFrequencies_def feq_Fin f32_of_numeral le_finite)
qed

lemmas range_defs = limits_out_of_range_def motor_out_of_range_def observer_out_of_range_def
  modulation_out_of_range_def ports_out_of_range_def cart_out_of_range_def ebike_out_of_range_def
  trace_ports_out_of_range_def kIsRatio_def kIsGain_def

lemmas limit_consts = kMaxTelemetryRate_def kMaxCommandTimeout_def kMaxEbikeRatio_def kMinEbikePulses_def
  kMaxEbikePulses_def kMinWheelCircumference_def kMaxWheelCircumference_def kMaxBatteryCells_def

lemmas limit_defs = kAny_def AtLeast_def AtMost_def Between_def kPortId_def

lemma enum_bytes:
  assumes "IsValidEnumValues s"
  shows "uint (nvm_motor_type s) \<le> 2" "uint (nvm_control_mode s) \<le> 2" "uint (nvm_excitation_mode s) \<le> 1"
    "uint (nvm_hall_enable s) \<le> 1" "uint (nvm_cart_wheel s) \<le> 3" "uint (nvm_cart_reversed s) \<le> 1"
proof -
  have "nvm_motor_type s = kPmsm \<or> nvm_motor_type s = kAsm \<or> nvm_motor_type s = kEesm"
    "nvm_control_mode s = kTorque \<or> nvm_control_mode s = kSpeed \<or> nvm_control_mode s = kPosition"
    "nvm_excitation_mode s \<le> 1" "nvm_hall_enable s \<le> 1" "nvm_cart_wheel s \<le> 3" "nvm_cart_reversed s \<le> 1"
    using assms unfolding IsValidEnumValues_def Let_def by blast+
  then show "uint (nvm_motor_type s) \<le> 2" "uint (nvm_control_mode s) \<le> 2" "uint (nvm_excitation_mode s) \<le> 1"
    "uint (nvm_hall_enable s) \<le> 1" "uint (nvm_cart_wheel s) \<le> 3" "uint (nvm_cart_reversed s) \<le> 1"
    by (auto simp: kPmsm_def kAsm_def kEesm_def kTorque_def kSpeed_def kPosition_def word_le_def)
qed

lemma default_rnd:
  "rnd (3/20) = 5033165/33554432"
  "rnd (3/10) = 5033165/16777216"
  "rnd (1/40) = 13421773/536870912"
  "rnd (1/100000) = 2748779/274877906944"
  "rnd (1/10000) = 13743895/137438953472"
  "rnd (3/1000) = 6442451/2147483648"
  "rnd (3/100) = 16106127/536870912"
  "rnd (9/10) = 7549747/8388608"
  "rnd (1/20) = 13421773/268435456"
  "rnd (19/20) = 15938355/16777216"
  "rnd (1/10) = 13421773/134217728"
  "rnd (1/100) = 5368709/536870912"
  "rnd (21/10) = 4404019/2097152"
  "rnd (3/5) = 5033165/8388608"
  "rnd (23/1000) = 12348031/536870912"
  "rnd (47/1000) = 6308233/134217728"
  "rnd (1/500) = 8589935/4294967296"
  "rnd (7/20) = 11744051/33554432"
  "rnd (11744051/33554432000) = 3006477/8589934592"
  "rnd (375809625/536870912) = 11744051/16777216"
  "rnd (629145625/2097152) = 300"
  using rnd_eval [of "-26" "3/20" 10066330]
    rnd_eval [of "-25" "3/10" 10066330]
    rnd_eval [of "-29" "1/40" 13421773]
    rnd_eval [of "-40" "1/100000" 10995116]
    rnd_eval [of "-37" "1/10000" 13743895]
    rnd_eval [of "-32" "3/1000" 12884902]
    rnd_eval [of "-29" "3/100" 16106127]
    rnd_eval [of "-24" "9/10" 15099494]
    rnd_eval [of "-28" "1/20" 13421773]
    rnd_eval [of "-24" "19/20" 15938355]
    rnd_eval [of "-27" "1/10" 13421773]
    rnd_eval [of "-30" "1/100" 10737418]
    rnd_eval [of "-22" "21/10" 8808038]
    rnd_eval [of "-24" "3/5" 10066330]
    rnd_eval [of "-29" "23/1000" 12348031]
    rnd_eval [of "-28" "47/1000" 12616466]
    rnd_eval [of "-32" "1/500" 8589935]
    rnd_eval [of "-25" "7/20" 11744051]
    rnd_eval [of "-35" "11744051/33554432000" 12025908]
    rnd_eval [of "-24" "375809625/536870912" 11744051]
    rnd_eval [of "-15" "629145625/2097152" 9830400]
  by (simp_all add: pow2_def)

lemmas default_eval = f32_eval from_period_def kHoverboardR_def kHoverboardL_def kHoverboardCurrentBandwidth_def default_rnd

lemma default_IsFinite: "IsFinite (NvmSettings_default a b)"
  unfolding IsFinite_def IsFiniteEbike_def NvmSettings_default_def NvmSettings.simps
  by (simp add: default_eval)

lemma default_ranges:
  "\<not> limits_out_of_range (NvmSettings_default a b) HardwareCapabilities_default"
  "\<not> motor_out_of_range (NvmSettings_default a b)"
  "\<not> observer_out_of_range (NvmSettings_default a b)"
  "\<not> modulation_out_of_range (NvmSettings_default a b)"
  "\<not> ports_out_of_range (NvmSettings_default a b)"
  "\<not> cart_out_of_range (NvmSettings_default a b)"
  "\<not> ebike_out_of_range (NvmSettings_default a b)"
  "\<not> trace_ports_out_of_range (NvmSettings_default a b)"
  unfolding range_defs limit_consts NvmSettings_default_def NvmSettings.simps
    HardwareCapabilities_default_def HardwareCapabilities.simps
  by (simp_all add: default_eval kIsSubjectId_def kIsServiceId_def kMaxSubjectId_def kMaxServiceId_def port_defs)

lemma default_ports: "\<not> HasPortIdCollision (NvmSettings_default a b)"
  unfolding HasPortIdCollision_def subjects_def services_def Let_def NvmSettings_default_def NvmSettings.simps
  by (simp add: port_defs)

lemma default_enums: "IsValidEnumValues (NvmSettings_default a b)"
  unfolding IsValidEnumValues_def Let_def NvmSettings_default_def NvmSettings.simps
  by (simp add: default_eval kPwmFrequencies_def feq_def)

lemma default_valid: "Validate (NvmSettings_default a b) HardwareCapabilities_default = kSuccess"
  by (simp add: Validate_def default_IsFinite default_ranges default_ports default_enums)
    (simp add: NvmSettings_default_def)

lemma valid_register_limits:
  assumes "Validate s limits = kSuccess" and "r \<in> set registers"
  shows "within_limits (entry_limits (rg_entry r)) (rg_get r s)"
proof -
  note V = Validate_success [OF assms(1)]
  note fin = V(1) [unfolded IsFinite_def IsFiniteEbike_def]
  note rng = V(5-12) [unfolded range_defs limit_consts de_Morgan_disj not_not f32_literals]
  note pwm = pwm_frequency_valid [OF V(2)]
  have bytes: "uint (nvm_node_id s) \<le> 127" "1 \<le> uint (nvm_pole_pairs s)" "2 \<le> uint (nvm_ebike_pulses_per_rev s)"
    "uint (nvm_ebike_pulses_per_rev s) \<le> 64" "1 \<le> uint (nvm_ebike_battery_cells s)"
    "uint (nvm_ebike_battery_cells s) \<le> 30" "1 \<le> uint (nvm_ebike_nominal_voltage s)"
    using V(3,4,11) byte_positive unfolding ebike_out_of_range_def limit_consts by (auto simp: word_le_def not_less)
  have chained: "0 \<le> nvm_dc_link_trip s" "0 \<le> nvm_asm_flux_i_d_max s" "0 \<le> nvm_excitation_i_f_max s"
    using fin rng unfolding zero_f32_def by (auto simp: le_finite less_finite)
  have "list_all (\<lambda>r. within_limits (entry_limits (rg_entry r)) (rg_get r s)) registers"
    unfolding registers_def register_defs list.pred_inject Register.simps RegisterEntry.simps limit_defs
      within_limits_def register_number.simps option.case RegisterLimits.simps
    by (simp add: fin rng pwm bytes enum_bytes [OF V(2)] number_of_byte number_bounds f32_of_numeral
        word_bounds chained finite_bounds not_below not_at_most not_above f32_literals isfinite_zero isfinite_numbers)
  then show ?thesis
    using assms(2) by (auto simp only: list_all_iff)
qed


section \<open>Properties\<close>

text \<open>
  C15. Settings that pass the validation lie within the limits that the register table publishes: for every register of
  the table the number is finite and between the minimum and the maximum of its entry. This is the statement the
  comment on \<open>ForEachRegister\<close> makes about its limits.
\<close>
theorem Validate_within_limits:
  assumes "Validate s limits = kSuccess" and "r \<in> set registers"
  shows "within_limits (entry_limits (rg_entry r)) (rg_get r s)"
  by (rule valid_register_limits [OF assms])

lemma registers_member: "registers ! 8 \<in> set registers"
  by (rule nth_mem) (simp add: registers_def)

theorem Validate_within_limits_witness:
  "within_limits (entry_limits (rg_entry (registers ! 8))) (rg_get (registers ! 8) (NvmSettings_default 1 0))"
  by (rule Validate_within_limits [OF default_valid registers_member])

lemma HasDuplicatePort_iff: "HasDuplicatePort ps \<longleftrightarrow> \<not> distinct (filter (\<lambda>p. p \<noteq> kUnsetPortId) ps)"
  by (induction ps) auto

lemma valid_readiness: "\<not> ports_out_of_range s \<Longrightarrow> nvm_node_id s \<le> 127 \<Longrightarrow> kIsSubjectId (hd (subjects s))"
proof -
  assume "\<not> ports_out_of_range s" "nvm_node_id s \<le> 127"
  then have "kIsSubjectId (nvm_sub_readiness_id s) \<or> nvm_sub_readiness_id s = kReadinessFollowsNodeId"
    "uint (nvm_node_id s) \<le> 127"
    by (auto simp: ports_out_of_range_def word_le_def)
  moreover have "uint (kSubReadinessBase + ucast (nvm_node_id s) :: u16) = 1024 + uint (nvm_node_id s)"
    if "uint (nvm_node_id s) \<le> 127"
    using that by (simp add: kSubReadinessBase_def uint_word_ariths unsigned_ucast_eq take_bit_int_eq_self uint_ge_0)
  ultimately show ?thesis
    using \<open>nvm_node_id s \<le> 127\<close>
    by (auto simp: subjects_def EffectiveReadinessId_def kIsSubjectId_def kMaxSubjectId_def word_le_def Let_def)
qed

text \<open>
  Settings that pass the validation have no port collision: the enabled subjects are distinct and in the
  subject-ID range, with the readiness subject counted as the one the node-ID gives, the enabled services are
  distinct and in the service-ID range, and the trace trigger subjects use none of the other subjects.
\<close>
theorem Validate_ports:
  assumes "Validate s limits = kSuccess"
  shows "distinct (filter (\<lambda>p. p \<noteq> kUnsetPortId) (subjects s)) \<and> distinct (filter (\<lambda>p. p \<noteq> kUnsetPortId) (services s))
    \<and> list_all kIsSubjectId (subjects s) \<and> list_all kIsServiceId (services s)
    \<and> nvm_pub_cymon_trigger_id s \<notin> set (subjects s) - {kUnsetPortId}
    \<and> nvm_sub_cymon_trigger_id s \<notin> set (subjects s) - {kUnsetPortId}"
proof -
  note V = Validate_success [OF assms]
  have "list_all kIsSubjectId (tl (subjects s))" "list_all kIsServiceId (services s)"
    using V(9,10,12) unfolding range_defs by (simp_all add: subjects_def services_def Let_def)
  moreover have "list_all kIsSubjectId (subjects s)"
    using valid_readiness [OF V(9,3)] calculation(1) by (cases "subjects s") (auto simp: subjects_def Let_def)
  ultimately show ?thesis
    using V(13) unfolding HasPortIdCollision_def Let_def HasDuplicatePort_iff by auto
qed

theorem Validate_ports_witness:
  "distinct (filter (\<lambda>p. p \<noteq> kUnsetPortId) (subjects (NvmSettings_default 1 0)))"
  using Validate_ports [OF default_valid [of 1 0]] by simp

text \<open>
  The factory settings of the struct, whatever the software version of the build is, pass the validation against the
  default hardware capabilities, and the two form a valid profile: an unprogrammed device starts with valid settings.
\<close>
theorem factory_settings_valid:
  "Validate (NvmSettings_default sw_major sw_minor) HardwareCapabilities_default = kSuccess
   \<and> IsValidProfile \<lparr>profile_factory_settings = NvmSettings_default sw_major sw_minor,
       profile_capabilities = HardwareCapabilities_default\<rparr>"
  using default_valid default_IsFinite
  by (simp add: IsValidProfile_def HardwareCapabilities_default_def f32_eval)

end
