(* ===== verification/Settings_Store.thy ===== *)
theory Settings_Store
  imports Settings_Validate
begin

text \<open>
  The settings store of \<open>lib/settings/settings_store.hpp\<close> with its storage adapter
  (\<open>lib/settings/settings_storage.hpp\<close>). The store keeps the live settings and a shadow of what the storage
  holds. Storage and save gate are callbacks on a context; here they are functions on a world state \<open>'w\<close> that
  the operations pass along, and a null callback is \<open>None\<close>. Every public operation of the source runs under the
  lock of the store, so it is one step here.
\<close>

section \<open>Interfaces\<close>

datatype SettingsStorageStatus = StSuccess | StNotFound | StUnavailable | StIoError

type_synonym entry = "string \<times> u8 list"

record 'w SettingsStorage =
  ss_load_all :: "('w \<Rightarrow> entry list \<times> SettingsStorageStatus) option"
  ss_write :: "(string \<Rightarrow> u8 list \<Rightarrow> 'w \<Rightarrow> SettingsStorageStatus \<times> 'w) option"
  ss_erase :: "(string \<Rightarrow> 'w \<Rightarrow> SettingsStorageStatus \<times> 'w) option"

definition LoadAll :: "'w SettingsStorage \<Rightarrow> 'w \<Rightarrow> entry list \<times> SettingsStorageStatus" where
  "LoadAll storage w = (case ss_load_all storage of None \<Rightarrow> ([], StUnavailable) | Some load_all \<Rightarrow> load_all w)"

definition Write :: "'w SettingsStorage \<Rightarrow> string \<Rightarrow> u8 list \<Rightarrow> 'w \<Rightarrow> SettingsStorageStatus \<times> 'w" where
  "Write storage key bytes w = (case ss_write storage of None \<Rightarrow> (StUnavailable, w) | Some write \<Rightarrow> write key bytes w)"

definition Erase :: "'w SettingsStorage \<Rightarrow> string \<Rightarrow> 'w \<Rightarrow> SettingsStorageStatus \<times> 'w" where
  "Erase storage key w = (case ss_erase storage of None \<Rightarrow> (StUnavailable, w) | Some erase \<Rightarrow> erase key w)"

record 'w SettingsSaveGate =
  gate_begin :: "('w \<Rightarrow> bool \<times> 'w) option"
  gate_end :: "('w \<Rightarrow> 'w) option"

definition TryBegin :: "'w SettingsSaveGate \<Rightarrow> 'w \<Rightarrow> bool \<times> 'w" where
  "TryBegin gate w = (case gate_begin gate of None \<Rightarrow> (False, w) | Some begin_cb \<Rightarrow> begin_cb w)"

definition End :: "'w SettingsSaveGate \<Rightarrow> 'w \<Rightarrow> 'w" where
  "End gate w = (case gate_end gate of None \<Rightarrow> w | Some end_cb \<Rightarrow> end_cb w)"

definition Always :: "'w SettingsSaveGate" where
  "Always = \<lparr>gate_begin = Some (\<lambda>w. (True, w)), gate_end = None\<rparr>"

fun ToSettingsStatus :: "SettingsStorageStatus \<Rightarrow> SettingsStatus" where
  "ToSettingsStatus StSuccess = kSuccess"
| "ToSettingsStatus StNotFound = kSuccess"
| "ToSettingsStatus StUnavailable = kStorageUnavailable"
| "ToSettingsStatus StIoError = kStorageError"

section \<open>The store\<close>

record 'w SettingsStore =
  st_profile :: SettingsProfile
  st_storage :: "'w SettingsStorage"
  st_save_gate :: "'w SettingsSaveGate"
  st_settings :: NvmSettings
  st_stored :: NvmSettings
  st_erase_defaults :: bool

definition SettingsStore_init :: "SettingsProfile \<Rightarrow> 'w SettingsStorage \<Rightarrow> 'w SettingsSaveGate \<Rightarrow> 'w SettingsStore" where
  "SettingsStore_init profile storage save_gate = \<lparr>
    st_profile = profile,
    st_storage = storage,
    st_save_gate = save_gate,
    st_settings = profile_factory_settings profile,
    st_stored = profile_factory_settings profile,
    st_erase_defaults = False\<rparr>"

abbreviation st_factory :: "'w SettingsStore \<Rightarrow> NvmSettings" where
  "st_factory st \<equiv> profile_factory_settings (st_profile st)"

abbreviation st_capabilities :: "'w SettingsStore \<Rightarrow> HardwareCapabilities" where
  "st_capabilities st \<equiv> profile_capabilities (st_profile st)"

subsection \<open>Loading\<close>

text \<open>What the visitor of \<open>Load\<close> does with one entry at one register: the settings, the count and the undecodable flag.\<close>

fun load_register :: "string \<Rightarrow> u8 list \<Rightarrow> Register \<Rightarrow> NvmSettings \<times> nat \<times> bool \<Rightarrow> NvmSettings \<times> nat \<times> bool" where
  "load_register key bytes r (loaded, loaded_count, undecodable) =
    (if rg_name r \<noteq> key then (loaded, loaded_count, undecodable)
     else case DecodeRegisterValue bytes (rg_get r loaded) of
         None \<Rightarrow> (loaded, loaded_count + 1, True)
       | Some v \<Rightarrow> (rg_put r v loaded, loaded_count + 1, undecodable))"

fun load_entry :: "entry \<Rightarrow> NvmSettings \<times> nat \<times> bool \<Rightarrow> NvmSettings \<times> nat \<times> bool" where
  "load_entry (key, bytes) acc = fold (load_register key bytes) registers acc"

definition Load :: "'w SettingsStore \<Rightarrow> 'w \<Rightarrow> SettingsStatus \<times> 'w SettingsStore" where
  "Load st w =
    (if \<not> IsValidProfile (st_profile st) then (kInvalidSettings, st)
     else
       let st = st\<lparr>st_settings := st_factory st, st_stored := st_factory st, st_erase_defaults := False\<rparr>;
           (entries, storage_status) = LoadAll (st_storage st) w;
           (loaded, loaded_count, undecodable) = fold load_entry entries (st_factory st, 0, False)
       in if storage_status \<noteq> StSuccess \<and> storage_status \<noteq> StNotFound then (ToSettingsStatus storage_status, st)
          else
            let st = st\<lparr>st_stored := loaded, st_erase_defaults := undecodable\<rparr>;
                validation = (if undecodable then kInvalidImage else Validate loaded (st_capabilities st))
            in if validation \<noteq> kSuccess then (validation, st)
               else (if loaded_count = 0 then kFactoryDefaults else kSuccess, st\<lparr>st_settings := loaded\<rparr>))"

subsection \<open>Changing\<close>

definition Commit :: "NvmSettings \<Rightarrow> 'w SettingsStore \<Rightarrow> SettingsStatus \<times> 'w SettingsStore" where
  "Commit candidate st =
    (let validation = Validate candidate (st_capabilities st)
     in if validation \<noteq> kSuccess then (validation, st) else (kSuccess, st\<lparr>st_settings := candidate\<rparr>))"

definition Update :: "(NvmSettings \<Rightarrow> NvmSettings) \<Rightarrow> 'w SettingsStore \<Rightarrow> SettingsStatus \<times> 'w SettingsStore" where
  "Update operation st = Commit (operation (st_settings st)) st"

definition SetNodeId :: "u8 \<Rightarrow> 'w SettingsStore \<Rightarrow> SettingsStatus \<times> 'w SettingsStore" where
  "SetNodeId node_id = Update (\<lambda>s. s\<lparr>nvm_node_id := node_id\<rparr>)"

definition SetMotorCurrentLimit :: "f32 \<Rightarrow> 'w SettingsStore \<Rightarrow> SettingsStatus \<times> 'w SettingsStore" where
  "SetMotorCurrentLimit current = Update (\<lambda>s. s\<lparr>nvm_motor_i_max := current\<rparr>)"

definition SetNodeName :: "u8 list \<Rightarrow> 'w SettingsStore \<Rightarrow> SettingsStatus \<times> 'w SettingsStore" where
  "SetNodeName name = Update (\<lambda>s. s\<lparr>nvm_identity := SetName name (nvm_identity s)\<rparr>)"

record AdcCalibration =
  cal_offset_a :: f32
  cal_offset_b :: f32
  cal_offset_c :: f32
  cal_gain_a :: f32
  cal_gain_b :: f32
  cal_gain_c :: f32
  cal_gain_vdc :: f32

definition ApplyAdcCalibration :: "AdcCalibration \<Rightarrow> 'w SettingsStore \<Rightarrow> SettingsStatus \<times> 'w SettingsStore" where
  "ApplyAdcCalibration calibration = Update (\<lambda>s. s\<lparr>
    nvm_adc_offset_a := cal_offset_a calibration,
    nvm_adc_offset_b := cal_offset_b calibration,
    nvm_adc_offset_c := cal_offset_c calibration,
    nvm_adc_gain_a := cal_gain_a calibration,
    nvm_adc_gain_b := cal_gain_b calibration,
    nvm_adc_gain_c := cal_gain_c calibration,
    nvm_adc_gain_vdc := cal_gain_vdc calibration\<rparr>)"

definition ResetToFactoryDefaults :: "'w SettingsStore \<Rightarrow> SettingsStatus \<times> 'w SettingsStore" where
  "ResetToFactoryDefaults st = Commit (st_factory st) st"

subsection \<open>Saving\<close>

text \<open>The loop state of \<open>SaveChanged\<close>: the result so far, whether the gate is held, the shadow and the world.\<close>

record 'w save_state =
  sv_result :: SettingsStatus
  sv_saving :: bool
  sv_stored :: NvmSettings
  sv_world :: 'w

text \<open>The write or the erase of one register; the shadow follows when it succeeded.\<close>

definition save_write :: "'w SettingsStore \<Rightarrow> Register \<Rightarrow> 'w save_state \<Rightarrow> 'w save_state" where
  "save_write st r sv =
    (let live = rg_get r (st_settings st);
         (status, w) = (if SameEncoding live (rg_get r (st_factory st)) then Erase (st_storage st) (rg_name r) (sv_world sv)
           else Write (st_storage st) (rg_name r) (EncodeRegisterValue live) (sv_world sv));
         result = ToSettingsStatus status
     in sv\<lparr>sv_result := result,
           sv_stored := (if result = kSuccess then rg_put r live (sv_stored sv) else sv_stored sv),
           sv_world := w\<rparr>)"

definition save_register :: "'w SettingsStore \<Rightarrow> Register \<Rightarrow> 'w save_state \<Rightarrow> 'w save_state" where
  "save_register st r sv =
    (if sv_result sv \<noteq> kSuccess then sv
     else
       let at_factory = SameEncoding (rg_get r (st_settings st)) (rg_get r (st_factory st));
           changed = (\<not> SameEncoding (rg_get r (st_settings st)) (rg_get r (sv_stored sv)))
       in if \<not> changed \<and> \<not> (st_erase_defaults st \<and> at_factory) then sv
          else if sv_saving sv then save_write st r sv
          else let (granted, w) = TryBegin (st_save_gate st) (sv_world sv)
               in if \<not> granted then sv\<lparr>sv_result := kPersistBlocked, sv_world := w\<rparr>
                  else save_write st r (sv\<lparr>sv_saving := True, sv_world := w\<rparr>))"

definition SaveChanged :: "'w SettingsStore \<Rightarrow> 'w \<Rightarrow> SettingsStatus \<times> 'w SettingsStore \<times> 'w" where
  "SaveChanged st w =
    (let sv = fold (save_register st) registers
           \<lparr>sv_result = kSuccess, sv_saving = False, sv_stored = st_stored st, sv_world = w\<rparr>;
         w = (if sv_saving sv then End (st_save_gate st) (sv_world sv) else sv_world sv)
     in (sv_result sv,
         st\<lparr>st_stored := sv_stored sv,
            st_erase_defaults := (if sv_result sv = kSuccess then False else st_erase_defaults st)\<rparr>,
         w))"

definition CountUnsaved :: "'w SettingsStore \<Rightarrow> nat" where
  "CountUnsaved st =
    fold (\<lambda>r count. count + (if SameEncoding (rg_get r (st_settings st)) (rg_get r (st_stored st)) then 0 else 1)) registers 0"

section \<open>Loading entry by entry\<close>

lemma fold_load_register:
  "distinct (map rg_name rs) \<Longrightarrow> fold (load_register key bytes) rs acc =
    (case find (\<lambda>r. rg_name r = key) rs of None \<Rightarrow> acc | Some r \<Rightarrow> load_register key bytes r acc)"
proof (induction rs arbitrary: acc)
  case (Cons r rs)
  have skip: "load_register key bytes r acc = acc" if "rg_name r \<noteq> key"
    using that by (cases acc) simp
  have "find (\<lambda>r. rg_name r = key) rs = None" if "rg_name r = key"
    using Cons.prems that by (auto simp: find_None_iff) (metis image_eqI)
  then show ?case
    using Cons skip by (cases "rg_name r = key") (simp_all del: load_register.simps)
qed simp

lemma load_entry_eq: "load_entry (key, bytes) acc =
    (case find (\<lambda>r. rg_name r = key) registers of None \<Rightarrow> acc | Some r \<Rightarrow> load_register key bytes r acc)"
  by (simp add: fold_load_register distinct_register_names)

lemma find_register:
  assumes "find (\<lambda>r. rg_name r = key) registers = Some r"
  shows "r \<in> set registers" "rg_name r = key"
  using assms by (auto simp: find_Some_iff)

lemma find_register_name: "r \<in> set registers \<Longrightarrow> find (\<lambda>q. rg_name q = rg_name r) registers = Some r"
proof -
  assume r: "r \<in> set registers"
  then have "find (\<lambda>q. rg_name q = rg_name r) registers \<noteq> None"
    by (auto simp: find_None_iff)
  then obtain q where q: "find (\<lambda>q. rg_name q = rg_name r) registers = Some q" by blast
  from find_register [OF q] r nvm.name_inj show ?thesis using q by metis
qed

text \<open>The value a register has after the entries \<open>es\<close> were loaded over \<open>s\<close>.\<close>

definition loaded_value :: "(string \<Rightarrow> u8 list option) \<Rightarrow> NvmSettings \<Rightarrow> Register \<Rightarrow> RegValue" where
  "loaded_value contents s r = (case contents (rg_name r) of None \<Rightarrow> rg_get r s
    | Some b \<Rightarrow> (case DecodeRegisterValue b (rg_get r s) of None \<Rightarrow> rg_get r s | Some v \<Rightarrow> v))"

definition undecodable_at :: "(string \<Rightarrow> u8 list option) \<Rightarrow> NvmSettings \<Rightarrow> Register \<Rightarrow> bool" where
  "undecodable_at contents s r \<longleftrightarrow>
    (\<exists>b. contents (rg_name r) = Some b \<and> DecodeRegisterValue b (rg_get r s) = None)"

lemma fold_load_entry:
  assumes "fold load_entry es (s, c, u) = (loaded, c', u')" "distinct (map fst es)"
  shows "(\<forall>r\<in>set registers. rg_get r loaded = loaded_value (map_of es) s r)
    \<and> (u' \<longleftrightarrow> u \<or> (\<exists>r\<in>set registers. undecodable_at (map_of es) s r))"
  using assms
proof (induction es arbitrary: s c u)
  case Nil
  then show ?case by (simp add: loaded_value_def undecodable_at_def)
next
  case (Cons e es)
  obtain key bytes where e: "e = (key, bytes)" by (cases e)
  have nk: "map_of es key = None" "distinct (map fst es)"
    using Cons.prems(2) by (auto simp: e map_of_eq_None_iff)
  show ?case
  proof (cases "find (\<lambda>r. rg_name r = key) registers")
    case None
    then have "rg_name r \<noteq> key" if "r \<in> set registers" for r
      using that by (auto simp: find_None_iff)
    moreover have "fold load_entry es (s, c, u) = (loaded, c', u')"
      using Cons.prems(1) None by (simp add: e load_entry_eq del: load_entry.simps)
    ultimately show ?thesis
      using Cons.IH [of s c u] nk by (auto simp: e loaded_value_def undecodable_at_def)
  next
    case (Some r0)
    note r0 = find_register [OF Some]
    have other: "rg_name r \<noteq> key" if "r \<in> set registers" "r \<noteq> r0" for r
      using that r0 nvm.name_inj by metis
    show ?thesis
    proof (cases "DecodeRegisterValue bytes (rg_get r0 s)")
      case None
      then have "fold load_entry es (s, c + 1, True) = (loaded, c', u')"
        using Cons.prems(1) Some r0 by (simp add: e load_entry_eq del: load_entry.simps)
      from Cons.IH [OF this nk(2)] have IH: "\<forall>r\<in>set registers. rg_get r loaded = loaded_value (map_of es) s r" "u'"
        by simp_all
      have "rg_get r loaded = loaded_value (map_of (e # es)) s r" if "r \<in> set registers" for r
        using IH(1) that other [OF that] None nk r0 by (cases "r = r0") (auto simp: e loaded_value_def)
      moreover have "undecodable_at (map_of (e # es)) s r0"
        using None r0 by (simp add: undecodable_at_def e)
      ultimately show ?thesis using IH(2) r0(1) by blast
    next
      case decoded: (Some v)
      let ?s = "rg_put r0 v s"
      have "fold load_entry es (?s, c + 1, u) = (loaded, c', u')"
        using Cons.prems(1) Some r0 decoded by (simp add: e load_entry_eq del: load_entry.simps)
      from Cons.IH [OF this nk(2)] have IH: "\<forall>r\<in>set registers. rg_get r loaded = loaded_value (map_of es) ?s r"
          "u' \<longleftrightarrow> u \<or> (\<exists>r\<in>set registers. undecodable_at (map_of es) ?s r)"
        by simp_all
      have get0: "rg_get r0 ?s = v"
        using nvm.get_put [OF r0(1)] Decode_kind [OF decoded] by blast
      have get: "rg_get r ?s = rg_get r s" if "r \<in> set registers" "r \<noteq> r0" for r
        using nvm.get_put_other [OF r0(1)] that by blast
      have "rg_get r loaded = loaded_value (map_of (e # es)) s r" if "r \<in> set registers" for r
        using IH(1) that other [OF that] get [OF that] get0 decoded nk r0
        by (cases "r = r0") (auto simp: e loaded_value_def cong: option.case_cong)
      moreover have "undecodable_at (map_of es) ?s r \<longleftrightarrow> undecodable_at (map_of (e # es)) s r" if "r \<in> set registers" for r
        using that other [OF that] get [OF that] decoded nk r0
        by (cases "r = r0") (auto simp: e undecodable_at_def)
      ultimately show ?thesis using IH(2) by blast
    qed
  qed
qed

section \<open>Storage and gate as interfaces\<close>

text \<open>
  What the store relies on. The storage is a map from keys to values: enumerating it delivers every entry once, a
  successful write or erase changes one entry, a failed one none, and a write never answers that the key is missing. The
  gate does not touch the storage. \<open>wf\<close> is the representation invariant of the storage.
\<close>

locale saved_storage =
  fixes storage :: "'w SettingsStorage"
    and gate :: "'w SettingsSaveGate"
    and contents :: "'w \<Rightarrow> string \<Rightarrow> u8 list option"
    and wf :: "'w \<Rightarrow> bool"
  assumes load_all: "wf w \<Longrightarrow> LoadAll storage w = (es, status) \<Longrightarrow> status = StSuccess \<or> status = StNotFound \<Longrightarrow>
      distinct (map fst es) \<and> map_of es = contents w"
    and write_entry: "wf w \<Longrightarrow> Write storage key bytes w = (status, w') \<Longrightarrow>
      wf w' \<and> status \<noteq> StNotFound \<and> contents w' = (if status = StSuccess then (contents w)(key \<mapsto> bytes) else contents w)"
    and erase_entry: "wf w \<Longrightarrow> Erase storage key w = (status, w') \<Longrightarrow>
      wf w' \<and> contents w' = (if status = StSuccess \<or> status = StNotFound then (contents w)(key := None) else contents w)"
    and begin_gate: "wf w \<Longrightarrow> TryBegin gate w = (granted, w') \<Longrightarrow> wf w' \<and> contents w' = contents w"
    and end_gate: "wf w \<Longrightarrow> wf (End gate w) \<and> contents (End gate w) = contents w"

text \<open>The shadow of a register mirrors the storage.\<close>

definition mirrored :: "(string \<Rightarrow> u8 list option) \<Rightarrow> NvmSettings \<Rightarrow> NvmSettings \<Rightarrow> bool \<Rightarrow> Register \<Rightarrow> bool" where
  "mirrored contents factory stored erase_defaults r \<longleftrightarrow>
    SameEncoding (rg_get r stored) (loaded_value contents factory r) \<and> (undecodable_at contents factory r \<longrightarrow> erase_defaults)"

text \<open>The storage holds the live value of a register.\<close>

definition persisted :: "(string \<Rightarrow> u8 list option) \<Rightarrow> NvmSettings \<Rightarrow> NvmSettings \<Rightarrow> Register \<Rightarrow> bool" where
  "persisted contents factory live r \<longleftrightarrow>
    SameEncoding (loaded_value contents factory r) (rg_get r live) \<and> \<not> undecodable_at contents factory r"

definition settings_ok :: "NvmSettings \<Rightarrow> bool" where
  "settings_ok s \<longleftrightarrow> list_all (\<lambda>r. value_ok (rg_get r s)) registers"

lemma loaded_value_other: "contents (rg_name r) = contents' (rg_name r) \<Longrightarrow>
    loaded_value contents s r = loaded_value contents' s r \<and> undecodable_at contents s r = undecodable_at contents' s r"
  by (simp add: loaded_value_def undecodable_at_def)

lemma persisted_erased:
  "contents (rg_name r) = None \<Longrightarrow> SameEncoding (rg_get r live) (rg_get r factory) \<Longrightarrow> persisted contents factory live r"
  by (simp add: persisted_def loaded_value_def undecodable_at_def SameEncoding_sym)

lemma persisted_written:
  assumes "r \<in> set registers" "contents (rg_name r) = Some (EncodeRegisterValue (rg_get r live))" "value_ok (rg_get r live)"
  shows "persisted contents factory live r"
  using Decode_Encode [OF assms(3) rg_get_kind [OF assms(1)], of factory] assms(2)
  by (auto simp: persisted_def loaded_value_def undecodable_at_def)

lemma persisted_unchanged:
  assumes "mirrored contents factory stored ed r" "SameEncoding (rg_get r live) (rg_get r stored)"
    "\<not> (ed \<and> SameEncoding (rg_get r live) (rg_get r factory))"
  shows "persisted contents factory live r"
proof -
  have "\<not> undecodable_at contents factory r"
  proof
    assume u: "undecodable_at contents factory r"
    then have "loaded_value contents factory r = rg_get r factory" "ed"
      using assms(1) by (auto simp: mirrored_def loaded_value_def undecodable_at_def)
    with assms show False by (metis SameEncoding_trans mirrored_def)
  qed
  with assms show ?thesis
    by (metis SameEncoding_sym SameEncoding_trans mirrored_def persisted_def)
qed

lemma mirrored_persisted: "persisted contents factory live r \<Longrightarrow> SameEncoding (rg_get r stored) (rg_get r live) \<Longrightarrow>
    mirrored contents factory stored ed r"
  by (metis SameEncoding_sym SameEncoding_trans mirrored_def persisted_def)

context saved_storage
begin

text \<open>One step of the save: what it keeps of every register and what it establishes for its own.\<close>

definition save_inv :: "'w SettingsStore \<Rightarrow> 'w save_state \<Rightarrow> bool" where
  "save_inv st sv \<longleftrightarrow> wf (sv_world sv) \<and>
    (\<forall>r\<in>set registers. mirrored (contents (sv_world sv)) (st_factory st) (sv_stored sv) (st_erase_defaults st) r)"

lemma save_write_step:
  assumes st: "st_storage st = storage" and ok: "settings_ok (st_settings st)" and r: "r \<in> set registers"
    and inv: "save_inv st sv"
  defines "sv' \<equiv> save_write st r sv"
  shows "save_inv st sv'"
    and "sv_result sv' = kSuccess \<Longrightarrow> persisted (contents (sv_world sv')) (st_factory st) (st_settings st) r
      \<and> SameEncoding (rg_get r (st_settings st)) (rg_get r (sv_stored sv'))"
    and "q \<in> set registers \<Longrightarrow> q \<noteq> r \<Longrightarrow> contents (sv_world sv') (rg_name q) = contents (sv_world sv) (rg_name q)
      \<and> rg_get q (sv_stored sv') = rg_get q (sv_stored sv)"
proof -
  let ?live = "rg_get r (st_settings st)"
  let ?at_factory = "SameEncoding ?live (rg_get r (st_factory st))"
  obtain status w where op: "(if ?at_factory then Erase storage (rg_name r) (sv_world sv)
      else Write storage (rg_name r) (EncodeRegisterValue ?live) (sv_world sv)) = (status, w)"
    by fastforce
  have sv': "sv' = sv\<lparr>sv_result := ToSettingsStatus status,
      sv_stored := if ToSettingsStatus status = kSuccess then rg_put r ?live (sv_stored sv) else sv_stored sv,
      sv_world := w\<rparr>"
    unfolding sv'_def save_write_def st Let_def op by simp
  have wf: "wf (sv_world sv)"
    using inv by (simp add: save_inv_def)
  have new: "wf w" "contents w = (if ToSettingsStatus status = kSuccess
      then (contents (sv_world sv))(rg_name r := if ?at_factory then None else Some (EncodeRegisterValue ?live))
      else contents (sv_world sv))"
    using op write_entry [OF wf] erase_entry [OF wf] by (cases status; simp split: if_splits; blast)+
  have val: "value_ok ?live"
    using ok r by (auto simp: settings_ok_def list_all_iff)
  have same: "rg_get r (rg_put r ?live (sv_stored sv)) = ?live"
    using r rg_get_kind [OF r] by (simp add: nvm.get_put)
  show other: "contents (sv_world sv') (rg_name q) = contents (sv_world sv) (rg_name q)
      \<and> rg_get q (sv_stored sv') = rg_get q (sv_stored sv)" if "q \<in> set registers" "q \<noteq> r" for q
    using that r new(2) nvm.name_inj nvm.get_put_other [OF r that] by (auto simp: sv')
  show saved: "persisted (contents (sv_world sv')) (st_factory st) (st_settings st) r
      \<and> SameEncoding ?live (rg_get r (sv_stored sv'))" if "sv_result sv' = kSuccess"
    using that new(2) persisted_erased persisted_written [OF r _ val] same by (auto simp: sv')
  show "save_inv st sv'"
    unfolding save_inv_def
  proof (intro conjI ballI)
    show "wf (sv_world sv')" using new by (simp add: sv')
    fix q assume q: "q \<in> set registers"
    have m: "mirrored (contents (sv_world sv)) (st_factory st) (sv_stored sv) (st_erase_defaults st) q"
      using inv q by (simp add: save_inv_def)
    show "mirrored (contents (sv_world sv')) (st_factory st) (sv_stored sv') (st_erase_defaults st) q"
    proof (cases "q = r")
      case True
      show ?thesis
      proof (cases "sv_result sv' = kSuccess")
        case True
        with saved \<open>q = r\<close> show ?thesis by (metis SameEncoding_sym mirrored_persisted)
      next
        case False
        then show ?thesis using m new(2) by (simp add: sv')
      qed
    next
      case False
      with other [OF q] m loaded_value_other show ?thesis by (metis mirrored_def)
    qed
  qed
qed

lemma save_register_step:
  assumes st: "st_storage st = storage" "st_save_gate st = gate" and ok: "settings_ok (st_settings st)"
    and r: "r \<in> set registers" and inv: "save_inv st sv"
  defines "sv' \<equiv> save_register st r sv"
  shows "save_inv st sv'"
    and "sv_result sv' = kSuccess \<Longrightarrow> sv_result sv = kSuccess \<and>
      persisted (contents (sv_world sv')) (st_factory st) (st_settings st) r
      \<and> SameEncoding (rg_get r (st_settings st)) (rg_get r (sv_stored sv'))"
    and "q \<in> set registers \<Longrightarrow> q \<noteq> r \<Longrightarrow> contents (sv_world sv') (rg_name q) = contents (sv_world sv) (rg_name q)
      \<and> rg_get q (sv_stored sv') = rg_get q (sv_stored sv)"
proof -
  let ?changed = "\<not> SameEncoding (rg_get r (st_settings st)) (rg_get r (sv_stored sv))"
  let ?at_factory = "SameEncoding (rg_get r (st_settings st)) (rg_get r (st_factory st))"
  consider (skip) "sv_result sv \<noteq> kSuccess" "sv' = sv"
    | (same) "sv_result sv = kSuccess" "\<not> ?changed" "\<not> (st_erase_defaults st \<and> ?at_factory)" "sv' = sv"
    | (blocked) w where "sv_result sv = kSuccess" "TryBegin gate (sv_world sv) = (False, w)"
        "sv' = sv\<lparr>sv_result := kPersistBlocked, sv_world := w\<rparr>"
    | (saving) sv0 where "sv_result sv = kSuccess" "save_inv st sv0" "sv' = save_write st r sv0"
        "contents (sv_world sv0) = contents (sv_world sv)" "sv_stored sv0 = sv_stored sv"
  proof -
    obtain granted w where g: "TryBegin gate (sv_world sv) = (granted, w)" by fastforce
    have "wf (sv_world sv)" using inv by (simp add: save_inv_def)
    from begin_gate [OF this g] inv have "save_inv st (sv\<lparr>sv_saving := True, sv_world := w\<rparr>)"
      by (simp add: save_inv_def)
    then have held: "save_inv st (sv\<lparr>sv_saving := True, sv_world := w\<rparr>)" .
    note keep = begin_gate [OF \<open>wf (sv_world sv)\<close> g]
    have unfold: "sv' = (if sv_result sv \<noteq> kSuccess then sv
        else if \<not> ?changed \<and> \<not> (st_erase_defaults st \<and> ?at_factory) then sv
        else if sv_saving sv then save_write st r sv
        else if \<not> granted then sv\<lparr>sv_result := kPersistBlocked, sv_world := w\<rparr>
        else save_write st r (sv\<lparr>sv_saving := True, sv_world := w\<rparr>))"
      unfolding sv'_def save_register_def st Let_def g by (simp only: prod.case)
    show thesis
    proof (cases "sv_result sv = kSuccess")
      case False
      then show thesis using skip unfold by simp
    next
      case running: True
      show thesis
      proof (cases "\<not> ?changed \<and> \<not> (st_erase_defaults st \<and> ?at_factory)")
        case True
        then show thesis using same running unfold by simp
      next
        case False
        then have sv': "sv' = (if sv_saving sv then save_write st r sv
            else if \<not> granted then sv\<lparr>sv_result := kPersistBlocked, sv_world := w\<rparr>
            else save_write st r (sv\<lparr>sv_saving := True, sv_world := w\<rparr>))"
          using unfold running by (simp only: simp_thms if_True if_False)
        show thesis
        proof (cases "sv_saving sv")
          case True
          then show thesis using saving [OF running inv] sv' by simp
        next
          case False
          then show thesis
            using saving [OF running held] blocked [OF running, of w] g keep sv' by (cases granted) simp_all
        qed
      qed
    qed
  qed
  note case_split = this
  show "save_inv st sv'"
    using case_split
  proof cases
    case blocked
    with inv begin_gate [OF _ blocked(2)] show ?thesis by (simp add: save_inv_def)
  next
    case saving
    with save_write_step(1) [OF st(1) ok r] show ?thesis by simp
  qed (use inv in simp_all)
  show "sv_result sv = kSuccess \<and> persisted (contents (sv_world sv')) (st_factory st) (st_settings st) r
      \<and> SameEncoding (rg_get r (st_settings st)) (rg_get r (sv_stored sv'))" if "sv_result sv' = kSuccess"
    using case_split
  proof cases
    case same
    moreover have "mirrored (contents (sv_world sv)) (st_factory st) (sv_stored sv) (st_erase_defaults st) r"
      using inv r by (simp add: save_inv_def)
    ultimately show ?thesis using persisted_unchanged by blast
  next
    case saving
    with save_write_step(2) [OF st(1) ok r saving(2)] that show ?thesis by simp
  qed (use that in simp_all)
  show "contents (sv_world sv') (rg_name q) = contents (sv_world sv) (rg_name q)
      \<and> rg_get q (sv_stored sv') = rg_get q (sv_stored sv)" if "q \<in> set registers" "q \<noteq> r"
    using case_split
  proof cases
    case blocked
    with inv begin_gate [OF _ blocked(2)] show ?thesis by (simp add: save_inv_def)
  next
    case saving
    with save_write_step(3) [OF st(1) ok r saving(2) that] show ?thesis by simp
  qed simp_all
qed

lemma save_registers:
  assumes st: "st_storage st = storage" "st_save_gate st = gate" and ok: "settings_ok (st_settings st)"
    and rs: "set rs \<subseteq> set registers" "distinct rs" and inv: "save_inv st sv"
  shows "save_inv st (fold (save_register st) rs sv)
    \<and> (\<forall>q\<in>set registers - set rs. contents (sv_world (fold (save_register st) rs sv)) (rg_name q) = contents (sv_world sv) (rg_name q)
        \<and> rg_get q (sv_stored (fold (save_register st) rs sv)) = rg_get q (sv_stored sv))
    \<and> (sv_result (fold (save_register st) rs sv) = kSuccess \<longrightarrow> sv_result sv = kSuccess \<and>
      (\<forall>r\<in>set rs. persisted (contents (sv_world (fold (save_register st) rs sv))) (st_factory st) (st_settings st) r
        \<and> SameEncoding (rg_get r (st_settings st)) (rg_get r (sv_stored (fold (save_register st) rs sv)))))"
  using rs inv
proof (induction rs arbitrary: sv)
  case (Cons r rs)
  let ?sv1 = "save_register st r sv"
  have r: "r \<in> set registers" "r \<notin> set rs" using Cons.prems by auto
  note S = save_register_step [OF st ok r(1) Cons.prems(3)]
  have IH: "save_inv st (fold (save_register st) rs ?sv1)"
    "\<forall>q\<in>set registers - set rs. contents (sv_world (fold (save_register st) rs ?sv1)) (rg_name q) = contents (sv_world ?sv1) (rg_name q)
        \<and> rg_get q (sv_stored (fold (save_register st) rs ?sv1)) = rg_get q (sv_stored ?sv1)"
    "sv_result (fold (save_register st) rs ?sv1) = kSuccess \<Longrightarrow> sv_result ?sv1 = kSuccess \<and>
      (\<forall>r\<in>set rs. persisted (contents (sv_world (fold (save_register st) rs ?sv1))) (st_factory st) (st_settings st) r
        \<and> SameEncoding (rg_get r (st_settings st)) (rg_get r (sv_stored (fold (save_register st) rs ?sv1))))"
    using Cons.IH [OF _ _ S(1)] Cons.prems by auto
  have "persisted (contents (sv_world (fold (save_register st) rs ?sv1))) (st_factory st) (st_settings st) r
      \<and> SameEncoding (rg_get r (st_settings st)) (rg_get r (sv_stored (fold (save_register st) rs ?sv1)))"
    if "sv_result (fold (save_register st) rs ?sv1) = kSuccess"
    using IH(2,3) S(2) r that loaded_value_other by (metis DiffI persisted_def)
  with IH S show ?case by auto
qed simp

end

section \<open>Histories of a store\<close>

text \<open>
  The public operations, as they are called one after the other: loading (which an error of the storage ends early),
  changing the live settings and saving, each with any result.
\<close>

datatype store_op = OpLoad | OpUpdate "NvmSettings \<Rightarrow> NvmSettings" | OpResetToFactoryDefaults | OpSave

fun run_op :: "store_op \<Rightarrow> 'w SettingsStore \<times> 'w \<Rightarrow> 'w SettingsStore \<times> 'w" where
  "run_op OpLoad (st, w) = (snd (Load st w), w)"
| "run_op (OpUpdate f) (st, w) = (snd (Update f st), w)"
| "run_op OpResetToFactoryDefaults (st, w) = (snd (ResetToFactoryDefaults st), w)"
| "run_op OpSave (st, w) = (let (_, st', w') = SaveChanged st w in (st', w'))"

text \<open>An operation on the struct writes values its fields can hold.\<close>

definition op_ok :: "store_op \<Rightarrow> bool" where
  "op_ok operation = (case operation of OpUpdate f \<Rightarrow> (\<forall>s. settings_ok s \<longrightarrow> settings_ok (f s)) | _ \<Rightarrow> True)"

lemma SaveChanged_frame:
  "SaveChanged st w = (res, st', w') \<Longrightarrow>
    st_settings st' = st_settings st \<and> st_profile st' = st_profile st \<and> st_storage st' = st_storage st \<and> st_save_gate st' = st_save_gate st"
  by (auto simp: SaveChanged_def Let_def)

lemma Commit_frame: "st_profile (snd (Commit c st)) = st_profile st" "st_storage (snd (Commit c st)) = st_storage st"
  "st_save_gate (snd (Commit c st)) = st_save_gate st" "st_stored (snd (Commit c st)) = st_stored st"
  "st_erase_defaults (snd (Commit c st)) = st_erase_defaults st"
  by (simp_all add: Commit_def Let_def)

lemma Load_frame: "st_profile (snd (Load st w)) = st_profile st" "st_storage (snd (Load st w)) = st_storage st"
  "st_save_gate (snd (Load st w)) = st_save_gate st"
  by (auto simp: Load_def Let_def split: prod.splits)

lemma Commit_settings: "st_settings (snd (Commit c st)) = (if Validate c (st_capabilities st) = kSuccess then c else st_settings st)"
  by (simp add: Commit_def Let_def)

lemma run_op_frame:
  "st_profile (fst (run_op f (st, w))) = st_profile st \<and> st_storage (fst (run_op f (st, w))) = st_storage st
    \<and> st_save_gate (fst (run_op f (st, w))) = st_save_gate st"
  by (cases f) (auto simp: Update_def ResetToFactoryDefaults_def Commit_frame Load_frame Let_def
      dest: SaveChanged_frame split: prod.splits)

lemma Load_valid:
  "Validate (st_factory st) (st_capabilities st) = kSuccess \<Longrightarrow> Validate (st_settings st) (st_capabilities st) = kSuccess \<Longrightarrow>
    Validate (st_settings (snd (Load st w))) (st_capabilities st) = kSuccess"
  by (auto simp: Load_def Let_def split: prod.splits if_splits)

lemma run_op_valid:
  assumes "Validate (st_factory st) (st_capabilities st) = kSuccess" "Validate (st_settings st) (st_capabilities st) = kSuccess"
  shows "Validate (st_settings (fst (run_op f (st, w)))) (st_capabilities st) = kSuccess"
  using assms Load_valid [OF assms]
  by (cases f) (auto simp: Update_def ResetToFactoryDefaults_def Commit_settings Let_def dest: SaveChanged_frame split: prod.splits)

lemma run_ops_valid:
  assumes "Validate (st_factory st) (st_capabilities st) = kSuccess" "Validate (st_settings st) (st_capabilities st) = kSuccess"
  shows "Validate (st_settings (fst (fold run_op ops (st, w)))) (st_capabilities st) = kSuccess
    \<and> st_profile (fst (fold run_op ops (st, w))) = st_profile st"
  using assms
proof (induction ops arbitrary: st w)
  case (Cons f ops)
  obtain st1 w1 where r: "run_op f (st, w) = (st1, w1)" by fastforce
  have "st_profile st1 = st_profile st" "Validate (st_settings st1) (st_capabilities st) = kSuccess"
    using run_op_frame [of f st w] run_op_valid [OF Cons.prems, of f w] by (simp_all add: r)
  with Cons.IH [of st1 w1] Cons.prems r show ?case by simp
qed simp

lemma identity_irrelevant:
  "IsFiniteEbike (s\<lparr>nvm_identity := x\<rparr>) = IsFiniteEbike s"
  "motor_out_of_range (s\<lparr>nvm_identity := x\<rparr>) = motor_out_of_range s"
  "observer_out_of_range (s\<lparr>nvm_identity := x\<rparr>) = observer_out_of_range s"
  "modulation_out_of_range (s\<lparr>nvm_identity := x\<rparr>) = modulation_out_of_range s"
  "ports_out_of_range (s\<lparr>nvm_identity := x\<rparr>) = ports_out_of_range s"
  "cart_out_of_range (s\<lparr>nvm_identity := x\<rparr>) = cart_out_of_range s"
  "ebike_out_of_range (s\<lparr>nvm_identity := x\<rparr>) = ebike_out_of_range s"
  "trace_ports_out_of_range (s\<lparr>nvm_identity := x\<rparr>) = trace_ports_out_of_range s"
  "limits_out_of_range (s\<lparr>nvm_identity := x\<rparr>) limits = limits_out_of_range s limits"
  "subjects (s\<lparr>nvm_identity := x\<rparr>) = subjects s" "services (s\<lparr>nvm_identity := x\<rparr>) = services s"
  unfolding IsFiniteEbike_def range_defs subjects_def services_def by (cases s; simp only: NvmSettings.simps)+

lemma Validate_identity: "Validate (s\<lparr>nvm_identity := x\<rparr>) limits = Validate s limits"
proof -
  have "IsFinite (s\<lparr>nvm_identity := x\<rparr>) = IsFinite s"
    unfolding IsFinite_def identity_irrelevant by (cases s) (simp only: NvmSettings.simps)
  moreover have "IsValidEnumValues (s\<lparr>nvm_identity := x\<rparr>) = IsValidEnumValues s"
    unfolding IsValidEnumValues_def by (cases s) (simp only: NvmSettings.simps)
  ultimately show ?thesis
    unfolding Validate_def HasPortIdCollision_def identity_irrelevant by (cases s) (simp only: NvmSettings.simps)
qed

text \<open>Settings whose registers encode alike are the same up to the node identity.\<close>

lemma same_encodings:
  assumes "\<forall>r\<in>set registers. SameEncoding (rg_get r s) (rg_get r t)" "settings_ok s" "settings_ok t"
  shows "s = t\<lparr>nvm_identity := nvm_identity s\<rparr>"
proof (rule same_registers_eq)
  have "same_kind (rg_get r t) (VName []) \<or> rg_get r t = rg_get r s" if "r \<in> set registers" for r
    using SameEncoding_eq [of "rg_get r t" "rg_get r s"] assms that rg_get_kind [OF that] SameEncoding_sym
    by (auto simp: settings_ok_def list_all_iff)
  then show "same_registers t s"
    by (simp add: same_registers_def list_all_iff)
qed

section \<open>Store and storage agree\<close>

lemma Decode_ok: "DecodeRegisterValue b old = Some v \<Longrightarrow> value_ok v"
  by (cases old) (auto simp: GetFloat_def f32_ok_of_bits zero_padded_def kMaxRegisterValueSize_def
      kNodeNameMaxLen_def split: if_splits)

lemma loaded_value_ok: "value_ok (rg_get r s) \<Longrightarrow> value_ok (loaded_value contents s r)"
  by (auto simp: loaded_value_def split: option.splits dest: Decode_ok)

lemma SaveChanged_eq:
  "SaveChanged st w = (let sv = fold (save_register st) registers
      \<lparr>sv_result = kSuccess, sv_saving = False, sv_stored = st_stored st, sv_world = w\<rparr>
    in (sv_result sv, st\<lparr>st_stored := sv_stored sv,
        st_erase_defaults := (if sv_result sv = kSuccess then False else st_erase_defaults st)\<rparr>,
      if sv_saving sv then End (st_save_gate st) (sv_world sv) else sv_world sv))"
  by (simp add: SaveChanged_def Let_def)

definition load_result :: "'w SettingsStore \<Rightarrow> NvmSettings \<Rightarrow> nat \<Rightarrow> bool \<Rightarrow> SettingsStatus \<times> 'w SettingsStore" where
  "load_result st loaded loaded_count undecodable =
    (let st = st\<lparr>st_settings := st_factory st, st_stored := loaded, st_erase_defaults := undecodable\<rparr>;
         validation = (if undecodable then kInvalidImage else Validate loaded (st_capabilities st))
     in if validation \<noteq> kSuccess then (validation, st)
        else (if loaded_count = 0 then kFactoryDefaults else kSuccess, st\<lparr>st_settings := loaded\<rparr>))"

lemma load_result_store: "st_stored (snd (load_result st loaded n u)) = loaded" "st_erase_defaults (snd (load_result st loaded n u)) = u"
  "st_settings (snd (load_result st loaded n u)) = st_factory st \<or> st_settings (snd (load_result st loaded n u)) = loaded"
  "st_profile (snd (load_result st loaded n u)) = st_profile st" "st_storage (snd (load_result st loaded n u)) = st_storage st"
  "st_save_gate (snd (load_result st loaded n u)) = st_save_gate st"
  by (simp_all add: load_result_def Let_def)

lemma load_result_valid: "Validate loaded (st_capabilities st) = kSuccess \<Longrightarrow>
    fst (load_result st loaded n False) \<in> {kSuccess, kFactoryDefaults} \<and> st_settings (snd (load_result st loaded n False)) = loaded"
  by (simp add: load_result_def Let_def)

context saved_storage
begin

lemma Load_loaded:
  assumes "wf w" "st_storage st = storage" "IsValidProfile (st_profile st)"
    and "snd (LoadAll storage w) = StSuccess \<or> snd (LoadAll storage w) = StNotFound"
  shows "\<exists>loaded loaded_count undecodable.
    Load st w = load_result st loaded loaded_count undecodable \<and>
    (\<forall>r\<in>set registers. rg_get r loaded = loaded_value (contents w) (st_factory st) r) \<and>
    (undecodable \<longleftrightarrow> (\<exists>r\<in>set registers. undecodable_at (contents w) (st_factory st) r))"
proof -
  obtain es status where L: "LoadAll storage w = (es, status)" by fastforce
  obtain loaded c u where F: "fold load_entry es (st_factory st, 0, False) = (loaded, c, u)"
    by (metis prod_cases3)
  have es: "distinct (map fst es)" "map_of es = contents w"
    using load_all [OF assms(1) L] assms(4) L by auto
  have "Load st w = load_result st loaded c u"
    using assms L F by (auto simp: Load_def load_result_def Let_def)
  then show ?thesis
    using fold_load_entry [OF F es(1)] es(2) by auto
qed

text \<open>The store and the world agree: the shadow mirrors the storage in every register.\<close>

definition agree :: "'w SettingsStore \<Rightarrow> 'w \<Rightarrow> bool" where
  "agree st w \<longleftrightarrow> wf w \<and> st_storage st = storage \<and> st_save_gate st = gate \<and>
    settings_ok (st_factory st) \<and> settings_ok (st_settings st) \<and>
    (\<forall>r\<in>set registers. mirrored (contents w) (st_factory st) (st_stored st) (st_erase_defaults st) r)"

lemma Load_agree:
  assumes "wf w" "st_storage st = storage" "st_save_gate st = gate" "IsValidProfile (st_profile st)"
    and ok: "settings_ok (st_factory st)"
    and answers: "snd (LoadAll storage w) = StSuccess \<or> snd (LoadAll storage w) = StNotFound"
  shows "agree (snd (Load st w)) w"
proof -
  obtain loaded n u where L: "Load st w = load_result st loaded n u"
    and loaded: "\<forall>r\<in>set registers. rg_get r loaded = loaded_value (contents w) (st_factory st) r"
    and u: "u \<longleftrightarrow> (\<exists>r\<in>set registers. undecodable_at (contents w) (st_factory st) r)"
    using Load_loaded [OF assms(1,2,4) answers] by (elim exE conjE)
  have "settings_ok loaded"
    using ok loaded loaded_value_ok by (simp add: settings_ok_def list_all_iff)
  moreover have "\<forall>r\<in>set registers. mirrored (contents w) (st_factory st) loaded u r"
    using loaded u by (auto simp: mirrored_def)
  ultimately show ?thesis
    using assms L load_result_store [of st loaded n u] by (auto simp: agree_def)
qed

lemma SaveChanged_agree:
  assumes "agree st w" "SaveChanged st w = (res, st', w')"
  shows "agree st' w'"
    and "res = kSuccess \<Longrightarrow> r \<in> set registers \<Longrightarrow> persisted (contents w') (st_factory st) (st_settings st) r
      \<and> SameEncoding (rg_get r (st_settings st)) (rg_get r (st_stored st'))"
proof -
  define sv where "sv = fold (save_register st) registers
      \<lparr>sv_result = kSuccess, sv_saving = False, sv_stored = st_stored st, sv_world = w\<rparr>"
  have S: "res = sv_result sv" "st' = st\<lparr>st_stored := sv_stored sv,
        st_erase_defaults := (if sv_result sv = kSuccess then False else st_erase_defaults st)\<rparr>"
      "w' = (if sv_saving sv then End gate (sv_world sv) else sv_world sv)"
    using assms(2) unfolding SaveChanged_eq Let_def sv_def [symmetric] prod.inject
    using assms(1) by (auto simp: agree_def)
  have inv: "save_inv st \<lparr>sv_result = kSuccess, sv_saving = False, sv_stored = st_stored st, sv_world = w\<rparr>"
    using assms(1) by (simp add: save_inv_def agree_def)
  have F: "save_inv st sv" "sv_result sv = kSuccess \<Longrightarrow> \<forall>r\<in>set registers.
      persisted (contents (sv_world sv)) (st_factory st) (st_settings st) r
      \<and> SameEncoding (rg_get r (st_settings st)) (rg_get r (sv_stored sv))"
    using save_registers [OF _ _ _ subset_refl nvm.distinct_regs inv] assms(1) unfolding sv_def agree_def by auto
  have w': "wf w'" "contents w' = contents (sv_world sv)"
    using end_gate F(1) by (auto simp: S(3) save_inv_def)
  show "persisted (contents w') (st_factory st) (st_settings st) r
      \<and> SameEncoding (rg_get r (st_settings st)) (rg_get r (st_stored st'))" if "res = kSuccess" "r \<in> set registers"
    using F(2) that w'(2) by (simp add: S)
  have "mirrored (contents w') (st_factory st) (st_stored st') (st_erase_defaults st') r" if r: "r \<in> set registers" for r
  proof (cases "res = kSuccess")
    case True
    then show ?thesis
      using F(2) r w'(2) mirrored_persisted [OF _ SameEncoding_sym] by (simp add: S) blast
  next
    case False
    then show ?thesis using F(1) r w'(2) by (simp add: S save_inv_def)
  qed
  then show "agree st' w'"
    using assms(1) w' by (simp add: agree_def S)
qed

lemma run_op_agree:
  assumes "agree st w" "op_ok f" "f \<noteq> OpLoad"
  shows "agree (fst (run_op f (st, w))) (snd (run_op f (st, w)))"
proof (cases f)
  case (OpUpdate g)
  then show ?thesis
    using assms by (auto simp: agree_def Update_def Commit_def Let_def op_ok_def)
next
  case OpResetToFactoryDefaults
  then show ?thesis
    using assms by (auto simp: agree_def ResetToFactoryDefaults_def Commit_def Let_def)
next
  case OpSave
  then show ?thesis
    using SaveChanged_agree(1) [OF assms(1)] by (auto simp: Let_def split: prod.splits)
qed (use assms in simp)

lemma run_ops_agree:
  "agree st w \<Longrightarrow> \<forall>f\<in>set ops. op_ok f \<and> f \<noteq> OpLoad \<Longrightarrow> fold run_op ops (st, w) = (st', w') \<Longrightarrow> agree st' w'"
proof (induction ops arbitrary: st w)
  case (Cons f ops)
  obtain st1 w1 where r: "run_op f (st, w) = (st1, w1)" by fastforce
  have "agree st1 w1" using run_op_agree [of st w f] Cons.prems r by simp
  with Cons r show ?case by simp
qed simp

lemma save_load:
  assumes "agree st w" "SaveChanged st w = (kSuccess, st', w')" "IsValidProfile (st_profile st)"
    and valid: "Validate (st_settings st) (st_capabilities st) = kSuccess"
    and answers: "snd (LoadAll storage w') = StSuccess \<or> snd (LoadAll storage w') = StNotFound"
    and fresh: "fresh = SettingsStore_init (st_profile st) storage gate"
  shows "fst (Load fresh w') \<in> {kSuccess, kFactoryDefaults}"
    and "\<forall>r\<in>set registers. SameEncoding (rg_get r (st_settings (snd (Load fresh w')))) (rg_get r (st_settings st))"
    and "st_settings (snd (Load fresh w')) = (st_settings st)\<lparr>nvm_identity := nvm_identity (st_settings (snd (Load fresh w')))\<rparr>"
proof -
  note A = SaveChanged_agree [OF assms(1,2)]
  have f: "st_storage fresh = storage" "st_profile fresh = st_profile st" "st_save_gate fresh = gate"
    by (simp_all add: fresh SettingsStore_init_def)
  have wf: "wf w'" using A(1) by (simp add: agree_def)
  have profile: "IsValidProfile (st_profile fresh)" using assms(3) f(2) by simp
  obtain loaded n u where L: "Load fresh w' = load_result fresh loaded n u"
    and loaded: "\<forall>r\<in>set registers. rg_get r loaded = loaded_value (contents w') (st_factory fresh) r"
    and u: "u \<longleftrightarrow> (\<exists>r\<in>set registers. undecodable_at (contents w') (st_factory fresh) r)"
    using Load_loaded [OF wf f(1) profile answers] by (elim exE conjE)
  have p: "\<forall>r\<in>set registers. persisted (contents w') (st_factory st) (st_settings st) r"
    using A(2) by simp
  have same: "\<forall>r\<in>set registers. SameEncoding (rg_get r loaded) (rg_get r (st_settings st))"
    using p loaded f(2) by (simp add: persisted_def)
  have "\<not> u" using p u f(2) by (auto simp: persisted_def)
  have "settings_ok loaded"
    using assms(1) loaded loaded_value_ok f(2) by (simp add: settings_ok_def list_all_iff agree_def)
  then have eq: "loaded = (st_settings st)\<lparr>nvm_identity := nvm_identity loaded\<rparr>"
    using same_encodings [OF same] assms(1) by (simp add: agree_def)
  then have "Validate loaded (st_capabilities fresh) = kSuccess"
    using valid Validate_identity f(2) by metis
  from load_result_valid [OF this, of n] \<open>\<not> u\<close> L
  have L': "fst (Load fresh w') \<in> {kSuccess, kFactoryDefaults}" "st_settings (snd (Load fresh w')) = loaded"
    by simp_all
  show "fst (Load fresh w') \<in> {kSuccess, kFactoryDefaults}"
    by (rule L')
  show "\<forall>r\<in>set registers. SameEncoding (rg_get r (st_settings (snd (Load fresh w')))) (rg_get r (st_settings st))"
    using L' same by simp
  show "st_settings (snd (Load fresh w')) = (st_settings st)\<lparr>nvm_identity := nvm_identity (st_settings (snd (Load fresh w')))\<rparr>"
    unfolding L'(2) by (rule eq)
qed

end

lemma CountUnsaved_0:
  "(\<forall>r\<in>set registers. SameEncoding (rg_get r (st_settings st)) (rg_get r (st_stored st))) \<Longrightarrow> CountUnsaved st = 0"
proof -
  have "fold (\<lambda>r count. count + (if SameEncoding (rg_get r (st_settings st)) (rg_get r (st_stored st)) then 0 else 1)) rs n = n"
    if "\<forall>r\<in>set rs. SameEncoding (rg_get r (st_settings st)) (rg_get r (st_stored st))" for rs and n :: nat
    using that by (induction rs arbitrary: n) auto
  then show "(\<forall>r\<in>set registers. SameEncoding (rg_get r (st_settings st)) (rg_get r (st_stored st))) \<Longrightarrow> CountUnsaved st = 0"
    by (simp add: CountUnsaved_def)
qed

text \<open>What a successful save leaves in the shadow, for any storage and any gate.\<close>

lemma save_write_stored:
  assumes r: "r \<in> set registers"
  shows "sv_result (save_write st r sv) = kSuccess \<Longrightarrow> rg_get r (sv_stored (save_write st r sv)) = rg_get r (st_settings st)"
    and "q \<in> set registers \<Longrightarrow> q \<noteq> r \<Longrightarrow> rg_get q (sv_stored (save_write st r sv)) = rg_get q (sv_stored sv)"
proof -
  let ?live = "rg_get r (st_settings st)"
  obtain status w where op: "(if SameEncoding ?live (rg_get r (st_factory st)) then Erase (st_storage st) (rg_name r) (sv_world sv)
      else Write (st_storage st) (rg_name r) (EncodeRegisterValue ?live) (sv_world sv)) = (status, w)"
    by fastforce
  have "save_write st r sv = sv\<lparr>sv_result := ToSettingsStatus status,
      sv_stored := if ToSettingsStatus status = kSuccess then rg_put r ?live (sv_stored sv) else sv_stored sv, sv_world := w\<rparr>"
    unfolding save_write_def Let_def op by simp
  then show "sv_result (save_write st r sv) = kSuccess \<Longrightarrow> rg_get r (sv_stored (save_write st r sv)) = ?live"
    and "q \<in> set registers \<Longrightarrow> q \<noteq> r \<Longrightarrow> rg_get q (sv_stored (save_write st r sv)) = rg_get q (sv_stored sv)"
    using nvm.get_put [OF r rg_get_kind [OF r]] nvm.get_put_other [OF r] by simp_all
qed

lemma save_register_stored:
  assumes r: "r \<in> set registers"
  shows "sv_result (save_register st r sv) = kSuccess \<Longrightarrow> sv_result sv = kSuccess
      \<and> SameEncoding (rg_get r (st_settings st)) (rg_get r (sv_stored (save_register st r sv)))"
    and "q \<in> set registers \<Longrightarrow> q \<noteq> r \<Longrightarrow> rg_get q (sv_stored (save_register st r sv)) = rg_get q (sv_stored sv)"
  using save_write_stored [OF r, where st = st]
  by (auto simp: save_register_def Let_def split: prod.splits if_splits)

lemma save_registers_stored:
  "set rs \<subseteq> set registers \<Longrightarrow> distinct rs \<Longrightarrow>
    (\<forall>q\<in>set registers - set rs. rg_get q (sv_stored (fold (save_register st) rs sv)) = rg_get q (sv_stored sv)) \<and>
    (sv_result (fold (save_register st) rs sv) = kSuccess \<longrightarrow> sv_result sv = kSuccess \<and>
      (\<forall>r\<in>set rs. SameEncoding (rg_get r (st_settings st)) (rg_get r (sv_stored (fold (save_register st) rs sv)))))"
proof (induction rs arbitrary: sv)
  case (Cons r rs)
  have r: "r \<in> set registers" "r \<notin> set rs" using Cons.prems by auto
  note S = save_register_stored [OF r(1), where st = st and sv = sv]
  note IH = Cons.IH [of "save_register st r sv"]
  have "rg_get r (sv_stored (fold (save_register st) rs (save_register st r sv))) = rg_get r (sv_stored (save_register st r sv))"
    using IH r Cons.prems by simp
  with IH S r Cons.prems show ?case by auto
qed simp

text \<open>A save with nothing to do calls neither the gate nor the storage.\<close>

lemma save_nothing:
  assumes "\<forall>r\<in>set rs. SameEncoding (rg_get r (st_settings st)) (rg_get r (sv_stored sv))" "\<not> st_erase_defaults st"
  shows "fold (save_register st) rs sv = sv"
  using assms by (induction rs) (auto simp: save_register_def Let_def)

text \<open>A save whose gate does not open.\<close>

lemma save_blocked:
  assumes "\<not> fst (TryBegin (st_save_gate st) w)"
  shows "sv_world sv = w \<and> \<not> sv_saving sv \<and> sv_result sv = kSuccess \<Longrightarrow>
    (let sv' = fold (save_register st) rs sv in sv_stored sv' = sv_stored sv \<and> \<not> sv_saving sv' \<and>
      (sv_result sv' = kSuccess \<and> sv_world sv' = w \<or>
       sv_result sv' = kPersistBlocked \<and> sv_world sv' = snd (TryBegin (st_save_gate st) w)))"
proof (induction rs arbitrary: sv)
  case (Cons r rs)
  have stop: "fold (save_register st) rs sv' = sv'" if "sv_result sv' \<noteq> kSuccess" for sv'
    using that by (induction rs) (simp_all add: save_register_def)
  consider "save_register st r sv = sv"
    | "save_register st r sv = sv\<lparr>sv_result := kPersistBlocked, sv_world := snd (TryBegin (st_save_gate st) w)\<rparr>"
  proof -
    obtain w' where tb: "TryBegin (st_save_gate st) w = (False, w')"
      using assms by (cases "TryBegin (st_save_gate st) w") auto
    have "save_register st r sv = (if \<not> \<not> SameEncoding (rg_get r (st_settings st)) (rg_get r (sv_stored sv))
        \<and> \<not> (st_erase_defaults st \<and> SameEncoding (rg_get r (st_settings st)) (rg_get r (st_factory st))) then sv
      else sv\<lparr>sv_result := kPersistBlocked, sv_world := w'\<rparr>)"
      using Cons.prems
      by (cases "SameEncoding (rg_get r (st_settings st)) (rg_get r (sv_stored sv))"; cases "st_erase_defaults st")
        (simp_all add: save_register_def Let_def tb)
    with that tb show thesis by (metis snd_conv)
  qed
  then show ?case
  proof cases
    case 1
    then show ?thesis using Cons.IH [OF Cons.prems] by simp
  next
    case 2
    then show ?thesis using stop [of "save_register st r sv"] Cons.prems by (simp add: Let_def)
  qed
qed simp


end
