(* ===== verification/Power_Stage.thy ===== *)
theory Power_Stage
  imports Prelude
begin

text \<open>
  The power stage: the hardware boundary \<open>PowerStageInterface\<close> (\<open>hardware/power_stage_interface.hpp\<close>) with
  its enable lock, and the state machine behind it as the simulated hardware implements it
  (\<open>SimPowerStage\<close> in \<open>hardware/zephyr_sim/hardware_interface.cpp\<close>, which mirrors the registers of the BCC).
  First the operations one at a time, then their interleaving at every read and write of a shared variable: the thread of the node, which
  enables and acknowledges, and threads that write flash under the hold-off, preempted by interrupts that trip or disable at any point.
\<close>

section \<open>State and operations\<close>

datatype PowerStageState = kDisabled | kEnabled | kFault | kBlocked

record PowerStage =
  ps_external_enable :: bool
  ps_enabled :: bool
  ps_fault :: bool
  ps_enable_lock :: bool

definition PowerStage_init :: PowerStage where
  "PowerStage_init = \<lparr>ps_external_enable = True, ps_enabled = False, ps_fault = False, ps_enable_lock = False\<rparr>"

text \<open>Without an interrupt in between, the second check of the fault sees what the first one saw.\<close>

definition PowerStageEnable :: "PowerStage \<Rightarrow> bool \<times> PowerStage" where
  "PowerStageEnable ps =
    (if ps_enabled ps then (True, ps)
     else if \<not> ps_external_enable ps \<or> ps_fault ps then (False, ps)
     else let ps = ps\<lparr>ps_enabled := True\<rparr>
          in if ps_fault ps then (False, ps\<lparr>ps_enabled := False\<rparr>) else (True, ps))"

definition PowerStageDisable :: "PowerStage \<Rightarrow> PowerStage" where
  "PowerStageDisable ps = ps\<lparr>ps_enabled := False\<rparr>"

definition PowerStageTrip :: "PowerStage \<Rightarrow> PowerStage" where
  "PowerStageTrip ps = ps\<lparr>ps_enabled := False, ps_fault := True\<rparr>"

definition PowerStageClearFault :: "PowerStage \<Rightarrow> PowerStage" where
  "PowerStageClearFault ps = ps\<lparr>ps_fault := \<not> ps_external_enable ps\<rparr>"

definition SetExternalEnable :: "bool \<Rightarrow> PowerStage \<Rightarrow> PowerStage" where
  "SetExternalEnable present ps =
    (let ps = ps\<lparr>ps_external_enable := present\<rparr> in if \<not> present then PowerStageTrip ps else ps)"

definition GetPowerStageState :: "PowerStage \<Rightarrow> PowerStageState" where
  "GetPowerStageState ps =
    (if ps_enabled ps then kEnabled
     else if \<not> ps_external_enable ps then kBlocked
     else if ps_fault ps then kFault else kDisabled)"

subsection \<open>The interface\<close>

text \<open>\<open>test_and_set\<close> of the atomic flag: the old value and the set flag.\<close>

definition test_and_set :: "PowerStage \<Rightarrow> bool \<times> PowerStage" where
  "test_and_set ps = (ps_enable_lock ps, ps\<lparr>ps_enable_lock := True\<rparr>)"

definition clear_lock :: "PowerStage \<Rightarrow> PowerStage" where
  "clear_lock ps = ps\<lparr>ps_enable_lock := False\<rparr>"

definition Enable :: "PowerStage \<Rightarrow> bool \<times> PowerStage" where
  "Enable ps =
    (let (held, ps) = test_and_set ps
     in if held then (False, ps)
        else let (enabled, ps) = PowerStageEnable ps in (enabled, clear_lock ps))"

definition HoldOffEnable :: "PowerStage \<Rightarrow> bool \<times> PowerStage" where
  "HoldOffEnable ps = (let (held, ps) = test_and_set ps in (\<not> held, ps))"

definition ReleaseEnable :: "PowerStage \<Rightarrow> PowerStage" where
  "ReleaseEnable = clear_lock"

subsection \<open>The save gate of \<open>src/settings_save_gate.hpp\<close>\<close>

definition save_gate_begin :: "PowerStage \<Rightarrow> bool \<times> PowerStage" where
  "save_gate_begin ps =
    (let (free, ps) = HoldOffEnable ps
     in if \<not> free then (False, ps)
        else if GetPowerStageState ps \<noteq> kDisabled then (False, ReleaseEnable ps)
        else (True, ps))"

definition save_gate_end :: "PowerStage \<Rightarrow> PowerStage" where
  "save_gate_end = ReleaseEnable"

lemmas power_stage_defs = PowerStageEnable_def PowerStageDisable_def PowerStageTrip_def PowerStageClearFault_def
  SetExternalEnable_def GetPowerStageState_def test_and_set_def clear_lock_def Enable_def HoldOffEnable_def
  ReleaseEnable_def save_gate_begin_def save_gate_end_def Let_def

section \<open>Interleaved threads and interrupts\<close>

text \<open>
  The program counter of a thread, in front of its next access to the shared state: one counter per read or write of a variable of the power
  stage or of the enable lock. \<open>E\<close> counters are in \<open>Enable\<close> and \<open>PowerStageEnable\<close>, \<open>S\<close> counters in the save gate with its call of
  \<open>GetPowerStageState\<close>, \<open>C\<close> counters in \<open>PowerStageClearFault\<close>, which reads one variable and writes another. Between \<open>S_Writing\<close> and
  the release flash is written.
\<close>

datatype pc = Idle
  | E_Lock | E_Test | E_External | E_Fault | E_Set | E_Recheck | E_Undo | E_Clear bool
  | S_Lock | S_Enabled | S_External | S_Fault | S_Refuse | S_Writing
  | C_Read | C_Write bool
  | D_Write

text \<open>The access at a counter: the next counter and the state after it.\<close>

fun pc_access :: "pc \<Rightarrow> PowerStage \<Rightarrow> pc \<times> PowerStage" where
  "pc_access Idle ps = (Idle, ps)"
| "pc_access E_Lock ps = (let (held, ps) = test_and_set ps in (if held then Idle else E_Test, ps))"
| "pc_access E_Test ps = (if ps_enabled ps then E_Clear True else E_External, ps)"
| "pc_access E_External ps = (if ps_external_enable ps then E_Fault else E_Clear False, ps)"
| "pc_access E_Fault ps = (if ps_fault ps then E_Clear False else E_Set, ps)"
| "pc_access E_Set ps = (E_Recheck, ps\<lparr>ps_enabled := True\<rparr>)"
| "pc_access E_Recheck ps = (if ps_fault ps then E_Undo else E_Clear True, ps)"
| "pc_access E_Undo ps = (E_Clear False, ps\<lparr>ps_enabled := False\<rparr>)"
| "pc_access (E_Clear result) ps = (Idle, clear_lock ps)"
| "pc_access S_Lock ps = (let (held, ps) = test_and_set ps in (if held then Idle else S_Enabled, ps))"
| "pc_access S_Enabled ps = (if ps_enabled ps then S_Refuse else S_External, ps)"
| "pc_access S_External ps = (if ps_external_enable ps then S_Fault else S_Refuse, ps)"
| "pc_access S_Fault ps = (if ps_fault ps then S_Refuse else S_Writing, ps)"
| "pc_access S_Refuse ps = (Idle, clear_lock ps)"
| "pc_access S_Writing ps = (Idle, clear_lock ps)"
| "pc_access C_Read ps = (C_Write (\<not> ps_external_enable ps), ps)"
| "pc_access (C_Write fault) ps = (Idle, ps\<lparr>ps_fault := fault\<rparr>)"
| "pc_access D_Write ps = (Idle, PowerStageDisable ps)"

text \<open>Without anything in between, the accesses are the operations.\<close>

abbreviation pc_accesses :: "nat \<Rightarrow> pc \<times> PowerStage \<Rightarrow> pc \<times> PowerStage" where
  "pc_accesses n \<equiv> (\<lambda>(p, ps). pc_access p ps) ^^ n"

lemma uninterrupted_calls:
  "pc_accesses 8 (E_Lock, ps) = (Idle, snd (Enable ps))"
  "pc_accesses (if fst (save_gate_begin ps) then 4 else 5) (S_Lock, ps)
     = (if fst (save_gate_begin ps) then S_Writing else Idle, snd (save_gate_begin ps))"
  "pc_accesses 1 (S_Writing, ps) = (Idle, save_gate_end ps)"
  "pc_accesses 2 (C_Read, ps) = (Idle, PowerStageClearFault ps)"
  "pc_accesses 1 (D_Write, ps) = (Idle, PowerStageDisable ps)"
  by (cases ps; simp add: power_stage_defs numeral_eq_Suc)+

record shared =
  sh_stage :: PowerStage
  sh_pc :: "nat \<Rightarrow> pc"

definition shared_init :: shared where
  "shared_init = \<lparr>sh_stage = PowerStage_init, sh_pc = \<lambda>_. Idle\<rparr>"

text \<open>
  The calls of a thread. \<open>Enable\<close> and \<open>ClearFault\<close> are called by the thread of the node alone, here thread 0 (\<open>drive_node.cpp\<close> and, from its
  spin, \<open>hw_startup.cpp\<close> have all their calls); every thread may save and disable.
\<close>

definition thread_calls :: "nat \<Rightarrow> pc set" where
  "thread_calls t = {S_Lock, D_Write} \<union> (if t = 0 then {E_Lock, C_Read} else {})"

text \<open>One access of thread \<open>t\<close> to the shared state; a thread chooses at \<open>Idle\<close> what it calls.\<close>

inductive thread_step :: "nat \<Rightarrow> shared \<Rightarrow> shared \<Rightarrow> bool" where
  thread_call: "sh_pc s t = Idle \<Longrightarrow> p \<in> thread_calls t \<Longrightarrow> thread_step t s (s\<lparr>sh_pc := (sh_pc s)(t := p)\<rparr>)"
| thread_access: "sh_pc s t \<noteq> Idle \<Longrightarrow> pc_access (sh_pc s t) (sh_stage s) = (p, ps) \<Longrightarrow>
    thread_step t s (s\<lparr>sh_stage := ps, sh_pc := (sh_pc s)(t := p)\<rparr>)"

text \<open>Interrupts and the break input act between any two accesses of the threads, and run to their end before a thread goes on.\<close>

inductive stage_step :: "shared \<Rightarrow> shared \<Rightarrow> bool" where
  one_thread: "thread_step t s s' \<Longrightarrow> stage_step s s'"
| "trip": "stage_step s (s\<lparr>sh_stage := PowerStageTrip (sh_stage s)\<rparr>)"
| "disable": "stage_step s (s\<lparr>sh_stage := PowerStageDisable (sh_stage s)\<rparr>)"
| external: "stage_step s (s\<lparr>sh_stage := SetExternalEnable present (sh_stage s)\<rparr>)"

inductive stage_reachable :: "shared \<Rightarrow> bool" where
  init: "stage_reachable shared_init"
| step: "stage_reachable s \<Longrightarrow> stage_step s s' \<Longrightarrow> stage_reachable s'"

subsection \<open>The invariant\<close>

text \<open>
  The counters that hold the lock and those of the thread of the node. At most one thread holds the lock; a saving thread that has found the
  stage off keeps it off; a stage that is on with a fault or without the external enable is in front of the second test of \<open>Enable\<close>, and an
  external enable that is lost after the first test has latched.
\<close>

definition holds_lock :: "pc \<Rightarrow> bool" where
  "holds_lock p = (case p of Idle \<Rightarrow> False | E_Lock \<Rightarrow> False | S_Lock \<Rightarrow> False | C_Read \<Rightarrow> False | C_Write _ \<Rightarrow> False | D_Write \<Rightarrow> False | _ \<Rightarrow> True)"

definition node_pc :: "pc \<Rightarrow> bool" where
  "node_pc p = (case p of Idle \<Rightarrow> False | S_Lock \<Rightarrow> False | S_Enabled \<Rightarrow> False | S_External \<Rightarrow> False | S_Fault \<Rightarrow> False | S_Refuse \<Rightarrow> False
     | S_Writing \<Rightarrow> False | D_Write \<Rightarrow> False | _ \<Rightarrow> True)"

definition stage_ok :: "PowerStage \<Rightarrow> pc \<Rightarrow> bool" where
  "stage_ok ps p \<longleftrightarrow> (ps_enabled ps \<and> (ps_fault ps \<or> \<not> ps_external_enable ps) \<longrightarrow> p = E_Recheck \<or> p = E_Undo)
     \<and> (p = C_Write True \<longrightarrow> \<not> ps_enabled ps)
     \<and> (p \<in> {E_Fault, E_Set, E_Recheck} \<and> \<not> ps_external_enable ps \<longrightarrow> ps_fault ps)"

definition saver_ok :: "PowerStage \<Rightarrow> pc \<Rightarrow> bool" where
  "saver_ok ps p \<longleftrightarrow> (p \<in> {S_External, S_Fault, S_Writing} \<longrightarrow> \<not> ps_enabled ps)"

definition stage_inv :: "shared \<Rightarrow> bool" where
  "stage_inv s \<longleftrightarrow> stage_ok (sh_stage s) (sh_pc s 0)
     \<and> (\<forall>t. saver_ok (sh_stage s) (sh_pc s t) \<and> (holds_lock (sh_pc s t) \<longrightarrow> ps_enable_lock (sh_stage s)) \<and> (node_pc (sh_pc s t) \<longrightarrow> t = 0))
     \<and> (\<forall>t u. holds_lock (sh_pc s t) \<and> holds_lock (sh_pc s u) \<longrightarrow> t = u)"

lemma stage_invD:
  assumes "stage_inv s"
  shows "stage_ok (sh_stage s) (sh_pc s 0)" "saver_ok (sh_stage s) (sh_pc s t)" "holds_lock (sh_pc s t) \<Longrightarrow> ps_enable_lock (sh_stage s)"
    "node_pc (sh_pc s t) \<Longrightarrow> t = 0" "holds_lock (sh_pc s t) \<Longrightarrow> holds_lock (sh_pc s u) \<Longrightarrow> t = u"
  using assms by (auto simp: stage_inv_def)

text \<open>An access keeps what holds of its own thread, and of the others as long as they do not hold the lock that it needs.\<close>

lemma access_own: "pc_access p ps = (q, ps') \<Longrightarrow> node_pc q \<Longrightarrow> node_pc p"
  by (cases p) (auto simp: node_pc_def Let_def split_beta split: if_splits)

lemma access_lock:
  assumes "pc_access p ps = (q, ps')" "holds_lock p \<longrightarrow> ps_enable_lock ps"
  shows "holds_lock q \<Longrightarrow> ps_enable_lock ps'" "ps_enable_lock ps \<Longrightarrow> ps_enable_lock ps' \<or> holds_lock p"
    "holds_lock q \<Longrightarrow> holds_lock p \<or> \<not> ps_enable_lock ps"
  using assms by (cases p; auto simp: holds_lock_def test_and_set_def clear_lock_def PowerStageDisable_def split: if_splits)+

lemma access_enabled: "pc_access p ps = (q, ps') \<Longrightarrow> ps_enabled ps' \<Longrightarrow> ps_enabled ps \<or> p = E_Set"
  by (cases p) (auto simp: test_and_set_def clear_lock_def PowerStageDisable_def split: if_splits)

lemma access_saver: "pc_access p ps = (q, ps') \<Longrightarrow> saver_ok ps p \<Longrightarrow> saver_ok ps' q"
  by (cases p) (auto simp: saver_ok_def test_and_set_def clear_lock_def split: if_splits)

lemma access_node: "pc_access p ps = (q, ps') \<Longrightarrow> stage_ok ps p \<Longrightarrow> stage_ok ps' q"
  by (cases p) (auto simp: stage_ok_def test_and_set_def clear_lock_def PowerStageDisable_def split: if_splits)

lemma access_other: "pc_access p ps = (q, ps') \<Longrightarrow> \<not> node_pc p \<Longrightarrow> stage_ok ps r \<Longrightarrow> stage_ok ps' r"
  by (cases p) (auto simp: stage_ok_def node_pc_def test_and_set_def clear_lock_def PowerStageDisable_def split: if_splits)

lemma saver_other:
  assumes "pc_access p ps = (q, ps')" "p = E_Set \<Longrightarrow> \<not> holds_lock r" "saver_ok ps r"
  shows "saver_ok ps' r"
  using assms access_enabled [OF assms(1)] by (auto simp: saver_ok_def holds_lock_def)

lemma thread_step_inv: "thread_step t s s' \<Longrightarrow> stage_inv s \<Longrightarrow> stage_inv s'"
proof (induction rule: thread_step.induct)
  case (thread_call s t p)
  have p: "\<not> holds_lock p" "saver_ok ps p" "node_pc p \<Longrightarrow> t = 0" "stage_ok ps p = stage_ok ps Idle" for ps
    using thread_call(2) by (auto simp: thread_calls_def holds_lock_def saver_ok_def node_pc_def stage_ok_def split: if_splits)
  show ?case using thread_call(1,3) p by (auto simp: stage_inv_def)
next
  case (thread_access s t p ps)
  note a = thread_access(2) and i = stage_invD [OF thread_access(3)]
  have node: "stage_ok ps (((sh_pc s)(t := p)) 0)"
  proof (cases "t = 0")
    case True
    then show ?thesis using access_node [OF a] i(1) by simp
  next
    case False
    then show ?thesis using access_other [OF a _ i(1)] i(4) [of t] by auto
  qed
  have other: "\<not> holds_lock (sh_pc s u)" if "u \<noteq> t" "holds_lock p \<or> holds_lock (sh_pc s t)" for u
    using that access_lock(3) [OF a] i(3) [of u] i(3) [of t] i(5) [of t u] by blast
  have saver: "saver_ok ps (((sh_pc s)(t := p)) u)" for u
    using access_saver [OF a i(2)] saver_other [OF a _ i(2) [of u]] other [of u] by (auto simp: holds_lock_def)
  have lock: "holds_lock (((sh_pc s)(t := p)) u) \<Longrightarrow> ps_enable_lock ps" for u
    using access_lock(1,2) [OF a] i(3) [of u] i(3) [of t] i(5) [of t u] by (cases "u = t") auto
  have one: "holds_lock (((sh_pc s)(t := p)) u) \<Longrightarrow> holds_lock (((sh_pc s)(t := p)) v) \<Longrightarrow> u = v" for u v
    using other [of u] other [of v] i(5) [of u v] by (cases "u = t"; cases "v = t") auto
  have "u = 0" if "node_pc (((sh_pc s)(t := p)) u)" for u
  proof (cases "u = t")
    case True
    then have "node_pc p" using that by simp
    then show ?thesis using i(4) [OF access_own [OF a]] True by blast
  next
    case False
    then show ?thesis using i(4) [of u] that by simp
  qed
  moreover have "sh_stage (s\<lparr>sh_stage := ps, sh_pc := (sh_pc s)(t := p)\<rparr>) = ps"
    "sh_pc (s\<lparr>sh_stage := ps, sh_pc := (sh_pc s)(t := p)\<rparr>) = (sh_pc s)(t := p)" by simp_all
  ultimately show ?case unfolding stage_inv_def using node saver lock one by metis
qed

text \<open>The interrupts and the break input switch off before they latch.\<close>

lemma stage_inv_stage:
  assumes "stage_inv s" "ps_enable_lock ps = ps_enable_lock (sh_stage s)" "ps_enabled ps \<Longrightarrow> ps_enabled (sh_stage s)"
    "\<And>p. stage_ok (sh_stage s) p \<Longrightarrow> stage_ok ps p"
  shows "stage_inv (s\<lparr>sh_stage := ps\<rparr>)"
  using assms by (auto simp: stage_inv_def saver_ok_def)

lemma stage_step_inv: "stage_step s s' \<Longrightarrow> stage_inv s \<Longrightarrow> stage_inv s'"
proof (induction rule: stage_step.induct)
  case (one_thread t s s')
  then show ?case by (rule thread_step_inv)
next
  case (external s present)
  show ?case by (rule stage_inv_stage [OF external]) (cases present; auto simp: stage_ok_def SetExternalEnable_def PowerStageTrip_def Let_def)+
qed (erule stage_inv_stage; auto simp: stage_ok_def PowerStageTrip_def PowerStageDisable_def)+

lemma stage_reachable_inv: "stage_reachable s \<Longrightarrow> stage_inv s"
proof (induction rule: stage_reachable.induct)
  case init
  show ?case by (simp add: stage_inv_def shared_init_def PowerStage_init_def stage_ok_def saver_ok_def holds_lock_def node_pc_def)
next
  case (step s s')
  then show ?case using stage_step_inv by blast
qed

text \<open>
  C14. In every interleaving, at every single read and write of the shared state, of the thread of the node that enables and acknowledges,
  any threads that save and disable, and interrupts and a break input that trip, disable, or remove and restore the external enable: while
  a thread writes flash under the save gate the outputs are not released; and outputs released with a latched fault or without the external
  enable exist only in front of the second test of the running \<open>Enable\<close>, which then switches them off.
\<close>
theorem power_stage_interleaved_safe:
  assumes "stage_reachable s"
  shows "(sh_pc s t = S_Writing \<longrightarrow> \<not> ps_enabled (sh_stage s)) \<and>
    (ps_enabled (sh_stage s) \<and> (ps_fault (sh_stage s) \<or> \<not> ps_external_enable (sh_stage s))
      \<longrightarrow> sh_pc s 0 = E_Recheck \<and> ps_fault (sh_stage s) \<or> sh_pc s 0 = E_Undo)"
  using stage_invD(1,2) [OF stage_reachable_inv [OF assms]] by (auto simp: stage_ok_def saver_ok_def)

text \<open>A thread that writes flash.\<close>

definition writing_run :: shared where
  "writing_run = shared_init\<lparr>sh_stage := PowerStage_init\<lparr>ps_enable_lock := True\<rparr>, sh_pc := (\<lambda>_. Idle)(1 := S_Writing)\<rparr>"

text \<open>The accesses of one thread that is not interrupted.\<close>

lemma reachable_call: "stage_reachable s \<Longrightarrow> sh_pc s t = Idle \<Longrightarrow> p \<in> thread_calls t \<Longrightarrow> stage_reachable (s\<lparr>sh_pc := (sh_pc s)(t := p)\<rparr>)"
  by (rule stage_reachable.step [OF _ stage_step.one_thread [OF thread_step.thread_call]])

lemma reachable_access: "stage_reachable s \<Longrightarrow> sh_pc s t \<noteq> Idle \<Longrightarrow> pc_access (sh_pc s t) (sh_stage s) = (p, ps)
    \<Longrightarrow> stage_reachable (s\<lparr>sh_stage := ps, sh_pc := (sh_pc s)(t := p)\<rparr>)"
  by (rule stage_reachable.step [OF _ stage_step.one_thread [OF thread_step.thread_access]])

lemma reachable_accesses: "stage_reachable s \<Longrightarrow> pc_accesses n (sh_pc s t, sh_stage s) = (p, ps)
    \<Longrightarrow> stage_reachable (s\<lparr>sh_stage := ps, sh_pc := (sh_pc s)(t := p)\<rparr>)"
proof (induction n arbitrary: p ps)
  case (Suc n)
  obtain q qs where q: "pc_accesses n (sh_pc s t, sh_stage s) = (q, qs)" by fastforce
  then have r: "stage_reachable (s\<lparr>sh_stage := qs, sh_pc := (sh_pc s)(t := q)\<rparr>)" by (rule Suc.IH [OF Suc.prems(1)])
  have "pc_access q qs = (p, ps)" using Suc.prems(2) q by simp
  show ?case
  proof (cases "q = Idle")
    case True
    then have "p = q" "qs = ps" using \<open>pc_access q qs = (p, ps)\<close> by simp_all
    then show ?thesis using r by blast
  next
    case False
    then have "stage_reachable ((s\<lparr>sh_stage := qs, sh_pc := (sh_pc s)(t := q)\<rparr>)\<lparr>sh_stage := ps,
        sh_pc := (sh_pc (s\<lparr>sh_stage := qs, sh_pc := (sh_pc s)(t := q)\<rparr>))(t := p)\<rparr>)"
      using \<open>pc_access q qs = (p, ps)\<close> by (intro reachable_access [OF r]) simp_all
    moreover have "(s\<lparr>sh_stage := qs, sh_pc := (sh_pc s)(t := q)\<rparr>)\<lparr>sh_stage := ps,
        sh_pc := (sh_pc (s\<lparr>sh_stage := qs, sh_pc := (sh_pc s)(t := q)\<rparr>))(t := p)\<rparr> = s\<lparr>sh_stage := ps, sh_pc := (sh_pc s)(t := p)\<rparr>"
      by simp
    ultimately show ?thesis by (rule subst [rotated])
  qed
next
  case 0
  then have "p = sh_pc s t" "ps = sh_stage s" by simp_all
  then show ?case using 0 by (simp only: fun_upd_triv) simp
qed

lemma writing_run_reachable: "stage_reachable writing_run"
proof -
  let ?s = "shared_init\<lparr>sh_pc := (sh_pc shared_init)(1 := S_Lock)\<rparr>"
  have "stage_reachable ?s" using reachable_call [OF stage_reachable.init, of 1 S_Lock] by (simp add: shared_init_def thread_calls_def)
  moreover have "pc_accesses 4 (sh_pc ?s 1, sh_stage ?s) = (S_Writing, PowerStage_init\<lparr>ps_enable_lock := True\<rparr>)"
    by (simp add: shared_init_def PowerStage_init_def numeral_eq_Suc test_and_set_def)
  ultimately have "stage_reachable (?s\<lparr>sh_stage := PowerStage_init\<lparr>ps_enable_lock := True\<rparr>, sh_pc := (sh_pc ?s)(1 := S_Writing)\<rparr>)"
    by (rule reachable_accesses)
  then show ?thesis by (simp add: writing_run_def shared_init_def)
qed

theorem power_stage_interleaved_safe_witness:
  "sh_pc writing_run 1 = S_Writing \<and> \<not> ps_enabled (sh_stage writing_run)"
  using power_stage_interleaved_safe [OF writing_run_reachable, of 1] by (simp add: writing_run_def)

text \<open>
  What the two accesses of \<open>PowerStageClearFault\<close> allow: a break between them is forgotten. The external enable is missing and no fault is
  latched, so the stage can be released without an acknowledgement once the external enable is back.
\<close>

lemma acknowledge_forgets_break:
  "\<exists>s. stage_reachable s \<and> \<not> ps_external_enable (sh_stage s) \<and> \<not> ps_fault (sh_stage s) \<and> sh_pc s = (\<lambda>_. Idle)"
proof -
  let ?s1 = "shared_init\<lparr>sh_pc := (sh_pc shared_init)(0 := C_Read)\<rparr>"
  let ?s2 = "?s1\<lparr>sh_stage := sh_stage ?s1, sh_pc := (sh_pc ?s1)(0 := C_Write False)\<rparr>"
  let ?s3 = "?s2\<lparr>sh_stage := SetExternalEnable False (sh_stage ?s2)\<rparr>"
  let ?s4 = "?s3\<lparr>sh_stage := (sh_stage ?s3)\<lparr>ps_fault := False\<rparr>, sh_pc := (sh_pc ?s3)(0 := Idle)\<rparr>"
  have 1: "stage_reachable ?s1" using reachable_call [OF stage_reachable.init, of 0 C_Read] by (simp add: shared_init_def thread_calls_def)
  have 2: "stage_reachable ?s2" by (rule reachable_access [OF 1]) (simp_all add: shared_init_def PowerStage_init_def)
  have 3: "stage_reachable ?s3" by (rule stage_reachable.step [OF 2]) (rule stage_step.external)
  have "stage_reachable ?s4" by (rule reachable_access [OF 3]) simp_all
  then show ?thesis
    by (intro exI [of _ ?s4]) (simp add: SetExternalEnable_def Let_def PowerStageTrip_def shared_init_def PowerStage_init_def fun_eq_iff)
qed

end
