(* ===== verification/Settings_Persistence.thy ===== *)
theory Settings_Persistence
  imports Settings_Store Power_Stage
begin

text \<open>
  The settings store with a concrete storage and the gate of the power stage. The storage is the in-memory key/value
  storage of \<open>tests/common/ram_settings_storage.hpp\<close> with its fault injection, the gate is
  \<open>PowerStageSaveGate\<close> on the power stage. Together they give the world of the store, for which the storage
  interface \<open>saved_storage\<close> is interpreted. The properties hold for every storage with that interface.
\<close>

section \<open>The storage in RAM\<close>

definition kMaxEntries :: nat where
  "kMaxEntries = 96"

definition kMaxKeySize :: nat where
  "kMaxKeySize = 48"

definition kMaxValueSize :: nat where
  "kMaxValueSize = 64"

text \<open>An entry is free (\<open>None\<close>) or holds a key and a value; the arrays of the source hold their used part only.\<close>

record RamSettingsStorage =
  rs_entries :: "entry option list"
  rs_writes :: u32
  rs_erases :: u32
  rs_fail_writes :: bool
  rs_unavailable :: bool
  rs_fail_writes_after :: int

definition RamSettingsStorage_init :: RamSettingsStorage where
  "RamSettingsStorage_init = \<lparr>rs_entries = replicate kMaxEntries None, rs_writes = 0, rs_erases = 0,
    rs_fail_writes = False, rs_unavailable = False, rs_fail_writes_after = - 1\<rparr>"

text \<open>The slot \<open>Store\<close> writes to: the one that has the key, else the first free one.\<close>

fun find_target :: "string \<Rightarrow> entry option list \<Rightarrow> nat \<Rightarrow> nat option \<Rightarrow> nat option" where
  "find_target key [] i target = target"
| "find_target key (None # es) i target = find_target key es (Suc i) (if target = None then Some i else target)"
| "find_target key (Some (k, v) # es) i target = (if k = key then Some i else find_target key es (Suc i) target)"

definition ram_store :: "string \<Rightarrow> u8 list \<Rightarrow> RamSettingsStorage \<Rightarrow> bool \<times> RamSettingsStorage" where
  "ram_store key bytes rs =
    (if kMaxKeySize < length key \<or> kMaxValueSize < length bytes then (False, rs)
     else case find_target key (rs_entries rs) 0 None of
         None \<Rightarrow> (False, rs)
       | Some i \<Rightarrow> (True, rs\<lparr>rs_entries := (rs_entries rs)[i := Some (key, bytes)]\<rparr>))"

text \<open>The used entries, in the order of the slots.\<close>

fun entries_of :: "entry option list \<Rightarrow> entry list" where
  "entries_of [] = []"
| "entries_of (None # es) = entries_of es"
| "entries_of (Some e # es) = e # entries_of es"

definition ram_load_all :: "RamSettingsStorage \<Rightarrow> entry list \<times> SettingsStorageStatus" where
  "ram_load_all rs =
    (if rs_unavailable rs then ([], StUnavailable) else (entries_of (rs_entries rs), StSuccess))"

definition ram_write :: "string \<Rightarrow> u8 list \<Rightarrow> RamSettingsStorage \<Rightarrow> SettingsStorageStatus \<times> RamSettingsStorage" where
  "ram_write key bytes rs =
    (if rs_unavailable rs then (StUnavailable, rs)
     else
       let fail_now = rs_fail_writes rs \<or>
             0 \<le> rs_fail_writes_after rs \<and> word_of_int (rs_fail_writes_after rs) \<le> rs_writes rs;
           rs = rs\<lparr>rs_writes := rs_writes rs + 1\<rparr>
       in if fail_now then (StIoError, rs)
          else let (stored, rs) = ram_store key bytes rs in (if stored then StSuccess else StIoError, rs))"

definition ram_erase :: "string \<Rightarrow> RamSettingsStorage \<Rightarrow> SettingsStorageStatus \<times> RamSettingsStorage" where
  "ram_erase key rs =
    (if rs_unavailable rs then (StUnavailable, rs)
     else (StSuccess, rs\<lparr>rs_erases := rs_erases rs + 1,
       rs_entries := map (\<lambda>e. case e of None \<Rightarrow> None | Some (k, v) \<Rightarrow> if k = key then None else Some (k, v)) (rs_entries rs)\<rparr>))"

subsection \<open>The storage is a map\<close>

definition keys_distinct :: "entry option list \<Rightarrow> bool" where
  "keys_distinct es \<longleftrightarrow> distinct (map fst (entries_of es))"

lemma entries_of_append [simp]: "entries_of (xs @ ys) = entries_of xs @ entries_of ys"
  by (induction xs rule: entries_of.induct) auto

lemma find_target_split:
  assumes "find_target key es i target = Some j" "\<forall>n. target = Some n \<longrightarrow> n < i"
  shows "target = Some j \<and> key \<notin> fst ` set (entries_of es)
    \<or> (\<exists>k. j = i + k \<and> k < length es \<and>
        (es ! k = None \<and> key \<notin> fst ` set (entries_of es) \<or> (\<exists>v. es ! k = Some (key, v))))"
  using assms
proof (induction key es i target rule: find_target.induct)
  case (2 key es i target)
  from 2 show ?case
    by (cases target) (force simp: nth_Cons')+
next
  case (3 key k v es i target)
  show ?case
  proof (cases "k = key")
    case True
    with 3 show ?thesis by (auto intro!: exI [of _ 0])
  next
    case False
    with 3 have "target = Some j \<and> key \<notin> fst ` set (entries_of es)
      \<or> (\<exists>m. j = Suc i + m \<and> m < length es \<and>
        (es ! m = None \<and> key \<notin> fst ` set (entries_of es) \<or> (\<exists>v. es ! m = Some (key, v))))"
      by fastforce
    with False show ?thesis by fastforce
  qed
qed simp

lemma ram_update:
  assumes "keys_distinct es" "k < length es"
    "es ! k = None \<and> key \<notin> fst ` set (entries_of es) \<or> es ! k = Some (key, v)"
  shows "keys_distinct (es[k := Some (key, bytes)])"
    and "map_of (entries_of (es[k := Some (key, bytes)])) = (map_of (entries_of es))(key \<mapsto> bytes)"
proof -
  have es: "es = take k es @ es ! k # drop (Suc k) es"
    using assms(2) by (simp add: id_take_nth_drop)
  have upd: "es[k := Some (key, bytes)] = take k es @ Some (key, bytes) # drop (Suc k) es"
    using assms(2) by (simp add: upd_conv_take_nth_drop)
  define a b where "a = entries_of (take k es)" and "b = entries_of (drop (Suc k) es)"
  have all: "entries_of es = a @ entries_of [es ! k] @ b"
    using arg_cong [OF es, of entries_of] by (cases "es ! k") (simp_all add: a_def b_def)
  have new: "entries_of (es[k := Some (key, bytes)]) = a @ (key, bytes) # b"
    by (simp add: upd a_def b_def)
  have k: "key \<notin> fst ` set a" "key \<notin> fst ` set b" "distinct (map fst (a @ b))"
    using assms(1,3) all by (auto simp: keys_distinct_def rev_image_eqI)
  then show "keys_distinct (es[k := Some (key, bytes)])"
    by (auto simp: keys_distinct_def new)
  have "map_of a key = None" "map_of b key = None"
    using k by (simp_all add: map_of_eq_None_iff)
  then show "map_of (entries_of (es[k := Some (key, bytes)])) = (map_of (entries_of es))(key \<mapsto> bytes)"
    using assms(3) all by (auto simp: new map_add_def fun_eq_iff split: option.splits)
qed

lemma ram_erase_entries:
  "entries_of (map (\<lambda>e. case e of None \<Rightarrow> None | Some (k, v) \<Rightarrow> if k = key then None else Some (k, v)) es)
    = filter (\<lambda>e. fst e \<noteq> key) (entries_of es)"
  by (induction es rule: entries_of.induct) auto

lemma map_of_filter_key: "map_of (filter (\<lambda>e. fst e \<noteq> key) es) = (map_of es)(key := None)"
  by (induction es) (auto simp: fun_eq_iff)

section \<open>The world of the store\<close>

record world =
  wd_ram :: RamSettingsStorage
  wd_stage :: PowerStage

definition ram_storage :: "world SettingsStorage" where
  "ram_storage = \<lparr>
    ss_load_all = Some (\<lambda>w. ram_load_all (wd_ram w)),
    ss_write = Some (\<lambda>key bytes w. let (s, rs) = ram_write key bytes (wd_ram w) in (s, w\<lparr>wd_ram := rs\<rparr>)),
    ss_erase = Some (\<lambda>key w. let (s, rs) = ram_erase key (wd_ram w) in (s, w\<lparr>wd_ram := rs\<rparr>))\<rparr>"

definition PowerStageSaveGate :: "world SettingsSaveGate" where
  "PowerStageSaveGate = \<lparr>
    gate_begin = Some (\<lambda>w. let (granted, ps) = save_gate_begin (wd_stage w) in (granted, w\<lparr>wd_stage := ps\<rparr>)),
    gate_end = Some (\<lambda>w. w\<lparr>wd_stage := save_gate_end (wd_stage w)\<rparr>)\<rparr>"

definition ram_contents :: "world \<Rightarrow> string \<Rightarrow> u8 list option" where
  "ram_contents w = map_of (entries_of (rs_entries (wd_ram w)))"

definition ram_wf :: "world \<Rightarrow> bool" where
  "ram_wf w \<longleftrightarrow> keys_distinct (rs_entries (wd_ram w))"

lemma ram_write_law:
  assumes "ram_write key bytes rs = (status, rs')" "keys_distinct (rs_entries rs)"
  shows "keys_distinct (rs_entries rs') \<and> status \<noteq> StNotFound \<and> map_of (entries_of (rs_entries rs')) =
    (if status = StSuccess then (map_of (entries_of (rs_entries rs)))(key \<mapsto> bytes) else map_of (entries_of (rs_entries rs)))"
proof -
  define rs0 where "rs0 = rs\<lparr>rs_writes := rs_writes rs + 1\<rparr>"
  have rs0: "rs_entries rs0 = rs_entries rs" by (simp add: rs0_def)
  consider (failed) "status = StUnavailable \<or> status = StIoError" "rs_entries rs' = rs_entries rs"
    | (stored) "ram_store key bytes rs0 = (True, rs')" "status = StSuccess"
  proof -
    obtain ok rs1 where st: "ram_store key bytes rs0 = (ok, rs1)" by fastforce
    have "ok \<or> rs1 = rs0" using st unfolding ram_store_def by (auto split: if_splits option.splits)
    with that assms(1) st rs0 show thesis
      unfolding ram_write_def Let_def rs0_def [symmetric] by (cases ok) (auto split: if_splits)
  qed
  then consider "status = StUnavailable \<or> status = StIoError" "rs_entries rs' = rs_entries rs"
    | j where "status = StSuccess" "find_target key (rs_entries rs) 0 None = Some j"
        "rs_entries rs' = (rs_entries rs)[j := Some (key, bytes)]"
  proof cases
    case stored
    then obtain j where "find_target key (rs_entries rs0) 0 None = Some j" "rs' = rs0\<lparr>rs_entries := (rs_entries rs0)[j := Some (key, bytes)]\<rparr>"
      unfolding ram_store_def by (auto split: if_splits option.splits)
    with stored that(2) rs0 show thesis by simp
  qed (rule that(1))
  then show ?thesis
  proof cases
    case 1
    then show ?thesis using assms(2) by auto
  next
    case (2 j)
    then obtain v where "j < length (rs_entries rs)" "rs_entries rs ! j = None \<and> key \<notin> fst ` set (entries_of (rs_entries rs))
        \<or> rs_entries rs ! j = Some (key, v)"
      using find_target_split [OF 2(2)] by auto
    from ram_update [OF assms(2) this] 2 show ?thesis by simp
  qed
qed

interpretation ram: saved_storage ram_storage PowerStageSaveGate ram_contents ram_wf
proof (unfold_locales, goal_cases)
  case (1 w es status)
  then show ?case
    by (auto simp: LoadAll_def ram_storage_def ram_load_all_def ram_wf_def ram_contents_def keys_distinct_def split: if_splits)
next
  case (2 w key bytes status w')
  then show ?case
    using ram_write_law [of key bytes "wd_ram w"]
    by (auto simp: Write_def ram_storage_def ram_wf_def ram_contents_def split: prod.splits)
next
  case (3 w key status w')
  then show ?case
    by (auto simp: Erase_def ram_storage_def ram_erase_def ram_wf_def ram_contents_def ram_erase_entries
        map_of_filter_key keys_distinct_def distinct_map_filter split: if_splits)
next
  case (4 w granted w')
  then show ?case
    by (auto simp: TryBegin_def PowerStageSaveGate_def ram_wf_def ram_contents_def split: prod.splits)
next
  case (5 w)
  then show ?case
    by (simp add: End_def PowerStageSaveGate_def ram_wf_def ram_contents_def)
qed

section \<open>Properties\<close>

definition default_profile :: SettingsProfile where
  "default_profile = \<lparr>profile_factory_settings = NvmSettings_default 1 0, profile_capabilities = HardwareCapabilities_default\<rparr>"

definition default_store :: "world SettingsStore" where
  "default_store = SettingsStore_init default_profile ram_storage PowerStageSaveGate"

definition default_world :: world where
  "default_world = \<lparr>wd_ram = RamSettingsStorage_init, wd_stage = PowerStage_init\<rparr>"

lemma default_profile_valid: "IsValidProfile default_profile"
  "Validate (profile_factory_settings default_profile) (profile_capabilities default_profile) = kSuccess"
  using default_valid default_IsFinite
  by (simp_all add: default_profile_def IsValidProfile_def HardwareCapabilities_default_def f32_eval)

text \<open>
  C13. The settings the controller runs with are valid at all times: from the construction of the store on, whatever is
  loaded from the storage, whatever an operation writes into the settings and whatever storage and gate answer, the
  live settings pass the validation, provided the factory settings of the profile do.
\<close>
theorem live_settings_always_valid:
  fixes storage :: "'w SettingsStorage"
  assumes "Validate (profile_factory_settings profile) (profile_capabilities profile) = kSuccess"
  shows "Validate (st_settings (fst (fold run_op ops (SettingsStore_init profile storage gate, w)))) (profile_capabilities profile) = kSuccess"
  using run_ops_valid [of "SettingsStore_init profile storage gate" ops w] assms by (simp add: SettingsStore_init_def)

theorem live_settings_always_valid_witness:
  "Validate (st_settings (fst (fold run_op [OpLoad, OpUpdate (\<lambda>s. s\<lparr>nvm_node_id := 200\<rparr>), OpSave]
      (SettingsStore_init default_profile ram_storage PowerStageSaveGate, default_world)))) (profile_capabilities default_profile) = kSuccess"
  by (rule live_settings_always_valid [OF default_profile_valid(2)])

lemma save_gate_refused: "GetPowerStageState ps \<noteq> kDisabled \<or> ps_enable_lock ps \<Longrightarrow> save_gate_begin ps = (False, ps)"
  by (cases ps) (auto simp: save_gate_begin_def HoldOffEnable_def test_and_set_def ReleaseEnable_def clear_lock_def
      GetPowerStageState_def)

text \<open>
  C16. While the power stage is not disabled (released, faulted or blocked) or is held off by somebody else, saving does
  not touch the storage: the world is unchanged, the shadow too, and the answer is \<open>kPersistBlocked\<close>, or success when
  there was nothing to save.
\<close>
theorem save_blocked_by_power_stage:
  assumes "st_save_gate st = PowerStageSaveGate"
    and "GetPowerStageState (wd_stage w) \<noteq> kDisabled \<or> ps_enable_lock (wd_stage w)"
  shows "\<exists>res st'. SaveChanged st w = (res, st', w) \<and> st_stored st' = st_stored st \<and> st_settings st' = st_settings st
    \<and> (res = kPersistBlocked \<or> res = kSuccess)"
proof -
  have tb: "TryBegin (st_save_gate st) w = (False, w)"
    using save_gate_refused [OF assms(2)] by (simp add: assms(1) TryBegin_def PowerStageSaveGate_def)
  define sv where "sv = fold (save_register st) registers
      \<lparr>sv_result = kSuccess, sv_saving = False, sv_stored = st_stored st, sv_world = w\<rparr>"
  have "sv_stored sv = st_stored st" "\<not> sv_saving sv" "sv_world sv = w" "sv_result sv = kSuccess \<or> sv_result sv = kPersistBlocked"
    using save_blocked [of st w "\<lparr>sv_result = kSuccess, sv_saving = False, sv_stored = st_stored st, sv_world = w\<rparr>" registers]
    by (auto simp: tb Let_def sv_def)
  then show ?thesis
    unfolding SaveChanged_eq Let_def sv_def [symmetric] by auto
qed

definition enabled_world :: world where
  "enabled_world = default_world\<lparr>wd_stage := snd (Enable PowerStage_init)\<rparr>"

theorem save_blocked_by_power_stage_witness:
  "\<exists>res st'. SaveChanged (snd (SetNodeId 5 default_store)) enabled_world = (res, st', enabled_world)
    \<and> st_stored st' = st_stored (snd (SetNodeId 5 default_store))"
proof -
  have "st_save_gate (snd (SetNodeId 5 default_store)) = PowerStageSaveGate"
    by (simp add: SetNodeId_def Update_def Commit_frame default_store_def SettingsStore_init_def)
  moreover have "GetPowerStageState (wd_stage enabled_world) \<noteq> kDisabled"
    by (simp add: enabled_world_def default_world_def PowerStage_init_def power_stage_defs)
  ultimately show ?thesis
    using save_blocked_by_power_stage [of "snd (SetNodeId 5 default_store)" enabled_world] by blast
qed

text \<open>
  A successful save leaves nothing to save: no register counts as unsaved, and a second save succeeds without
  calling the gate or the storage, whatever the world has become.
\<close>
theorem successful_save_is_complete:
  assumes "SaveChanged st w = (kSuccess, st', w')"
  shows "CountUnsaved st' = 0 \<and> SaveChanged st' v = (kSuccess, st', v)"
proof -
  define sv where "sv = fold (save_register st) registers
      \<lparr>sv_result = kSuccess, sv_saving = False, sv_stored = st_stored st, sv_world = w\<rparr>"
  have "sv_result sv = kSuccess" and st': "st' = st\<lparr>st_stored := sv_stored sv, st_erase_defaults := False\<rparr>"
    using assms unfolding SaveChanged_eq Let_def sv_def [symmetric] by (auto split: if_splits)
  then have saved: "\<forall>r\<in>set registers. SameEncoding (rg_get r (st_settings st')) (rg_get r (st_stored st'))"
    using save_registers_stored [OF subset_refl nvm.distinct_regs, of st
        "\<lparr>sv_result = kSuccess, sv_saving = False, sv_stored = st_stored st, sv_world = w\<rparr>", folded sv_def]
    by simp
  then have "fold (save_register st') registers \<lparr>sv_result = kSuccess, sv_saving = False, sv_stored = st_stored st', sv_world = v\<rparr>
      = \<lparr>sv_result = kSuccess, sv_saving = False, sv_stored = st_stored st', sv_world = v\<rparr>"
    by (intro save_nothing) (simp_all add: st')
  then show ?thesis
    using CountUnsaved_0 [OF saved] by (simp add: SaveChanged_eq st')
qed

lemma save_nothing_changed:
  assumes "\<forall>r\<in>set registers. SameEncoding (rg_get r (st_settings st)) (rg_get r (st_stored st))" "\<not> st_erase_defaults st"
  shows "SaveChanged st w = (kSuccess, st, w)"
proof -
  have "fold (save_register st) registers \<lparr>sv_result = kSuccess, sv_saving = False, sv_stored = st_stored st, sv_world = w\<rparr>
      = \<lparr>sv_result = kSuccess, sv_saving = False, sv_stored = st_stored st, sv_world = w\<rparr>"
    using assms by (intro save_nothing) simp_all
  then show ?thesis using assms(2) by (simp add: SaveChanged_eq)
qed

theorem successful_save_is_complete_witness:
  "CountUnsaved default_store = 0 \<and> SaveChanged default_store enabled_world = (kSuccess, default_store, enabled_world)"
proof -
  have "SaveChanged default_store default_world = (kSuccess, default_store, default_world)"
    by (rule save_nothing_changed) (simp_all add: default_store_def SettingsStore_init_def)
  from successful_save_is_complete [OF this] show ?thesis by blast
qed

text \<open>
  C12. What is saved is what the next start loads. A store is loaded from a storage that answers and then changed, reset
  and saved any number of times with any result; when a save succeeds, a fresh store on the same storage loads
  settings whose registers encode as the live ones did, and which equal them up to the node identity (the name
  beyond its terminator and the versions of the build). An entry that could not be decoded at the first
  start does not spoil this.
\<close>
theorem save_load_round_trip:
  assumes storage: "saved_storage storage gate contents good" "good w0"
    and profile: "IsValidProfile profile" "settings_ok (profile_factory_settings profile)"
      "Validate (profile_factory_settings profile) (profile_capabilities profile) = kSuccess"
    and start: "snd (LoadAll storage w0) = StSuccess \<or> snd (LoadAll storage w0) = StNotFound"
    and ops: "\<forall>f\<in>set ops. op_ok f \<and> f \<noteq> OpLoad"
    and run: "fold run_op ops (snd (Load (SettingsStore_init profile storage gate) w0), w0) = (st, w)"
    and save: "SaveChanged st w = (kSuccess, st', w')"
    and restart: "snd (LoadAll storage w') = StSuccess \<or> snd (LoadAll storage w') = StNotFound"
  shows "let (status, fresh) = Load (SettingsStore_init profile storage gate) w' in
    (status = kSuccess \<or> status = kFactoryDefaults)
    \<and> (\<forall>r\<in>set registers. SameEncoding (rg_get r (st_settings fresh)) (rg_get r (st_settings st)))
    \<and> st_settings fresh = (st_settings st)\<lparr>nvm_identity := nvm_identity (st_settings fresh)\<rparr>"
proof -
  let ?new = "SettingsStore_init profile storage gate"
  note S = saved_storage.Load_agree [OF storage] saved_storage.run_ops_agree [OF storage(1)] saved_storage.save_load [OF storage(1)]
  have new: "st_storage ?new = storage" "st_save_gate ?new = gate" "st_profile ?new = profile"
    "st_settings ?new = profile_factory_settings profile"
    by (simp_all add: SettingsStore_init_def)
  have "saved_storage.agree storage gate contents good (snd (Load ?new w0)) w0"
    using S(1) [of ?new] new profile start by simp
  with S(2) ops run have agree: "saved_storage.agree storage gate contents good st w"
    by blast
  have valid: "Validate (st_settings (snd (Load ?new w0))) (profile_capabilities profile) = kSuccess"
    "st_profile (snd (Load ?new w0)) = profile"
    using Load_valid [of ?new w0] profile(3) new by (simp_all add: Load_frame)
  have st: "st_profile st = profile" "Validate (st_settings st) (profile_capabilities profile) = kSuccess"
    using run_ops_valid [of "snd (Load ?new w0)" ops w0] valid profile(3) run by simp_all
  have fresh: "?new = SettingsStore_init (st_profile st) storage gate" and caps: "IsValidProfile (st_profile st)"
    "Validate (st_settings st) (st_capabilities st) = kSuccess"
    using st profile(1) by simp_all
  show ?thesis
    using S(3) [OF agree save caps restart fresh] S(4) [OF agree save caps restart fresh] S(5) [OF agree save caps restart fresh]
    by (auto split: prod.split)
qed

lemma default_settings_ok: "settings_ok (NvmSettings_default a b)"
proof -
  have "f32_ok (from_period n d (f32_of q))" for n d q by simp
  then show ?thesis
    unfolding settings_ok_def registers_def register_defs list.pred_inject Register.simps NvmSettings_default_def NvmSettings.simps
    by (simp add: NodeIdentity_default_def zero_padded_def kNodeNameMaxLen_def kHoverboardR_def kHoverboardL_def
        kHoverboardCurrentBandwidth_def)
qed

text \<open>A store whose node name was changed, on the storage in RAM.\<close>

definition renamed :: "NvmSettings \<Rightarrow> NvmSettings" where
  "renamed s = s\<lparr>nvm_identity := SetName [65, 66] (nvm_identity s)\<rparr>"

definition renamed_store :: "world SettingsStore" where
  "renamed_store = default_store\<lparr>st_settings := renamed (NvmSettings_default 1 0)\<rparr>"

lemma default_Load: "snd (Load default_store default_world) = default_store"
  by (simp add: Load_def Let_def default_profile_valid default_store_def SettingsStore_init_def LoadAll_def ram_storage_def
      ram_load_all_def default_world_def RamSettingsStorage_init_def kMaxEntries_def eval_nat_numeral)

lemma op_ok_renamed: "op_ok (OpUpdate renamed)"
proof -
  have "settings_ok (renamed s)" if "settings_ok s" for s
    using that unfolding settings_ok_def registers_def register_defs list.pred_inject Register.simps
    by (simp add: renamed_def SetName_def Let_def)
  then show ?thesis by (simp add: op_ok_def)
qed

lemma renamed_run: "fold run_op [OpUpdate renamed] (snd (Load default_store default_world), default_world) = (renamed_store, default_world)"
  using default_profile_valid(2)
  by (simp add: default_Load Update_def Commit_def Let_def renamed_def renamed_store_def Validate_identity)
    (simp add: default_store_def SettingsStore_init_def default_profile_def Validate_identity)

lemma registers_split: "registers = take (Suc 0) registers @ registers ! Suc 0 # drop 2 registers"
  by (simp add: registers_def)

lemma renamed_put: "renamed s = rg_put (registers ! Suc 0) (VName (ni_name (SetName [65, 66] (nvm_identity s)))) s"
  by (simp add: registers_def register_defs renamed_def SetName_def Let_def)

lemma name_bytes:
  "EncodeRegisterValue (VName (ni_name (SetName [65, 66] (NodeIdentity_default 1 0)))) = [65, 66, 0]"
  "EncodeRegisterValue (VName (ni_name (NodeIdentity_default 1 0))) = [117, 110, 105, 109, 111, 99, 0]"
  by code_simp+

lemma renamed_saved: "fst (SaveChanged renamed_store default_world) = kSuccess
    \<and> \<not> rs_unavailable (wd_ram (snd (snd (SaveChanged renamed_store default_world))))"
proof -
  let ?F = "NvmSettings_default 1 0" and ?r = "registers ! Suc 0"
  let ?sv0 = "\<lparr>sv_result = kSuccess, sv_saving = False, sv_stored = ?F, sv_world = default_world\<rparr>"
  have r: "?r \<in> set registers" by (rule nth_mem) (simp add: registers_def)
  have other: "r \<in> set registers \<and> r \<noteq> ?r" if "r \<in> set (take (Suc 0) registers) \<union> set (drop 2 registers)" for r
    using nvm.distinct_regs that by (subst (asm) registers_split, subst registers_split) auto
  have st: "st_settings renamed_store = renamed ?F" "st_factory renamed_store = ?F" "\<not> st_erase_defaults renamed_store"
    "st_stored renamed_store = ?F" "st_storage renamed_store = ram_storage" "st_save_gate renamed_store = PowerStageSaveGate"
    by (simp_all add: renamed_store_def default_store_def SettingsStore_init_def default_profile_def)
  have same: "rg_get r (renamed ?F) = rg_get r ?F" if "r \<in> set (take (Suc 0) registers) \<union> set (drop 2 registers)" for r
    unfolding renamed_put using other [OF that] nvm.get_put_other [OF r] by blast
  let ?n = "SetName [65, 66] (nvm_identity ?F)"
  have vals: "rg_get ?r (renamed ?F) = VName (ni_name ?n)" "rg_get ?r ?F = VName (ni_name (nvm_identity ?F))" "rg_name ?r = ''uavcan.node.description''"
    by (simp_all add: registers_def register_defs renamed_def)
  have enc: "EncodeRegisterValue (VName (ni_name ?n)) = [65, 66, 0]"
    "EncodeRegisterValue (VName (ni_name (nvm_identity ?F))) = [117, 110, 105, 109, 111, 99, 0]"
    using name_bytes by (simp_all add: NvmSettings_default_def del: EncodeRegisterValue.simps)
  have changed: "\<not> SameEncoding (rg_get ?r (renamed ?F)) (rg_get ?r ?F)"
    by (simp add: SameEncoding_def vals enc del: EncodeRegisterValue.simps)
  have gate: "TryBegin PowerStageSaveGate default_world = (True, default_world\<lparr>wd_stage := PowerStage_init\<lparr>ps_enable_lock := True\<rparr>\<rparr>)"
    by (simp add: TryBegin_def PowerStageSaveGate_def default_world_def PowerStage_init_def power_stage_defs)
  let ?w1 = "default_world\<lparr>wd_stage := PowerStage_init\<lparr>ps_enable_lock := True\<rparr>\<rparr>"
  obtain w2 where written: "Write ram_storage (rg_name ?r) (EncodeRegisterValue (VName (ni_name ?n))) ?w1 = (StSuccess, w2)"
      "\<not> rs_unavailable (wd_ram w2)"
    by (simp add: vals enc Write_def ram_storage_def ram_write_def ram_store_def default_world_def RamSettingsStorage_init_def
        kMaxEntries_def kMaxKeySize_def kMaxValueSize_def eval_nat_numeral del: EncodeRegisterValue.simps)
  let ?sv2 = "\<lparr>sv_result = kSuccess, sv_saving = True, sv_stored = rg_put ?r (VName (ni_name ?n)) ?F, sv_world = w2\<rparr>"
  have "fold (save_register renamed_store) (take (Suc 0) registers) ?sv0 = ?sv0"
    by (intro save_nothing) (simp_all add: st same)
  moreover have "save_register renamed_store ?r ?sv0 = ?sv2"
    using changed written(1) by (simp add: save_register_def save_write_def st gate Let_def vals enc del: EncodeRegisterValue.simps)
  moreover have "fold (save_register renamed_store) (drop 2 registers) ?sv2 = ?sv2"
    by (intro save_nothing) (simp_all add: st renamed_put [symmetric])
  ultimately have "fold (save_register renamed_store) registers ?sv0 = ?sv2"
    by (subst registers_split) simp
  then show ?thesis
    using written(2) by (simp add: SaveChanged_eq st Let_def End_def PowerStageSaveGate_def)
qed

theorem save_load_round_trip_witness:
  "let (status, fresh) = Load default_store (snd (snd (SaveChanged renamed_store default_world))) in
    (status = kSuccess \<or> status = kFactoryDefaults)
    \<and> (\<forall>r\<in>set registers. SameEncoding (rg_get r (st_settings fresh)) (rg_get r (renamed (NvmSettings_default 1 0))))"
proof -
  obtain st' w' where save: "SaveChanged renamed_store default_world = (kSuccess, st', w')" "\<not> rs_unavailable (wd_ram w')"
    using renamed_saved by (cases "SaveChanged renamed_store default_world") auto
  have ok: "settings_ok (profile_factory_settings default_profile)"
    by (simp add: default_profile_def default_settings_ok)
  have wf: "ram_wf default_world"
    by (simp add: ram_wf_def default_world_def RamSettingsStorage_init_def kMaxEntries_def keys_distinct_def eval_nat_numeral)
  have answers: "snd (LoadAll ram_storage w) = StSuccess" if "\<not> rs_unavailable (wd_ram w)" for w
    using that by (simp add: LoadAll_def ram_storage_def ram_load_all_def)
  have "\<not> rs_unavailable (wd_ram default_world)"
    by (simp add: default_world_def RamSettingsStorage_init_def)
  then show ?thesis
    using save_load_round_trip [OF ram.saved_storage_axioms wf default_profile_valid(1) ok default_profile_valid(2) _ _ 
        renamed_run [unfolded default_store_def] save(1)] answers save op_ok_renamed
    by (auto simp: default_store_def renamed_store_def split: prod.splits)
qed

end
