(* ===== verification/Handover.thy ===== *)
theory Handover
  imports Prelude
begin

text \<open>
  The lock-free hand-over of a value between two priority levels (\<open>src/src/current_control/mailbox.hpp\<close>): the
  double buffer \<open>Mailbox\<close> and the sequence lock \<open>SeqLock\<close>. A value is a list of \<open>n\<close> cells, the units that are
  copied in one access; a copy of a value is \<open>n\<close> accesses, and the other side may run between any two of them.
  The release and acquire orderings and fences of the source make the accesses sequentially consistent.
\<close>

unbundle bit_operations_syntax

section \<open>Mailbox\<close>

record 'a Mailbox =
  mb_slots :: "'a list list"
  mb_active :: u8

definition Mailbox_init :: "'a list \<Rightarrow> 'a Mailbox" where
  "Mailbox_init v = \<lparr>mb_slots = [v, v], mb_active = 0\<rparr>"

definition MailboxWrite :: "'a list \<Rightarrow> 'a Mailbox \<Rightarrow> 'a Mailbox" where
  "MailboxWrite value m = (let nx = 1 - mb_active m in
     m\<lparr>mb_slots := (mb_slots m)[unat nx := value], mb_active := nx\<rparr>)"

definition MailboxRead :: "'a Mailbox \<Rightarrow> 'a list" where
  "MailboxRead m = mb_slots m ! unat (mb_active m)"

text \<open>
  The interleaved mailbox: the position of either side, the values published so far with the newest first, and a
  log of the reads, each with the number of values that were published when it loaded the index. With
  \<open>preempting\<close> the reader has the higher priority and is not interrupted by the writer, as the source requires.
\<close>

datatype 'a mb_writer = MWIdle | MWCopy u8 nat "'a list"

datatype 'a mb_reader = MRIdle | MRCopy u8 nat "'a list"

record 'a mailbox_system =
  mbs_shared :: "'a Mailbox"
  mbs_writer :: "'a mb_writer"
  mbs_reader :: "'a mb_reader"
  mbs_published :: "'a list list"
  mbs_reads :: "('a list \<times> nat) list"

definition mailbox_init :: "'a list \<Rightarrow> 'a mailbox_system" where
  "mailbox_init v = \<lparr>mbs_shared = Mailbox_init v, mbs_writer = MWIdle, mbs_reader = MRIdle, mbs_published = [v], mbs_reads = []\<rparr>"

definition writer_runs :: "bool \<Rightarrow> 'a mailbox_system \<Rightarrow> bool" where
  "writer_runs preempting s \<longleftrightarrow> preempting \<longrightarrow> mbs_reader s = MRIdle"

definition copy_cell :: "u8 \<Rightarrow> nat \<Rightarrow> 'a \<Rightarrow> 'a Mailbox \<Rightarrow> 'a Mailbox" where
  "copy_cell slot i x m = m\<lparr>mb_slots := (mb_slots m)[unat slot := (mb_slots m ! unat slot)[i := x]]\<rparr>"

inductive mailbox_step :: "bool \<Rightarrow> nat \<Rightarrow> 'a mailbox_system \<Rightarrow> 'a mailbox_system \<Rightarrow> bool" for preempting n where
  mw_load: "writer_runs preempting s \<Longrightarrow> mbs_writer s = MWIdle \<Longrightarrow> length new = n \<Longrightarrow>
    mailbox_step preempting n s (s\<lparr>mbs_writer := MWCopy (1 - mb_active (mbs_shared s)) 0 new\<rparr>)"
| mw_cell: "writer_runs preempting s \<Longrightarrow> mbs_writer s = MWCopy nx i new \<Longrightarrow> i < n \<Longrightarrow>
    mailbox_step preempting n s
      (s\<lparr>mbs_shared := copy_cell nx i (new ! i) (mbs_shared s), mbs_writer := MWCopy nx (Suc i) new\<rparr>)"
| mw_flip: "writer_runs preempting s \<Longrightarrow> mbs_writer s = MWCopy nx n new \<Longrightarrow>
    mailbox_step preempting n s
      (s\<lparr>mbs_shared := mbs_shared s\<lparr>mb_active := nx\<rparr>, mbs_writer := MWIdle, mbs_published := new # mbs_published s\<rparr>)"
| mr_load: "mbs_reader s = MRIdle \<Longrightarrow>
    mailbox_step preempting n s (s\<lparr>mbs_reader := MRCopy (mb_active (mbs_shared s)) (length (mbs_published s)) []\<rparr>)"
| mr_cell: "mbs_reader s = MRCopy slot k acc \<Longrightarrow> length acc < n \<Longrightarrow>
    mailbox_step preempting n s
      (s\<lparr>mbs_reader := MRCopy slot k (acc @ [mb_slots (mbs_shared s) ! unat slot ! length acc])\<rparr>)"
| mr_return: "mbs_reader s = MRCopy slot k acc \<Longrightarrow> length acc = n \<Longrightarrow>
    mailbox_step preempting n s (s\<lparr>mbs_reader := MRIdle, mbs_reads := (acc, k) # mbs_reads s\<rparr>)"

text \<open>The value published as number \<open>k\<close>, counting from one.\<close>

definition published_at :: "'a mailbox_system \<Rightarrow> nat \<Rightarrow> 'a list" where
  "published_at s k = rev (mbs_published s) ! (k - 1)"

definition mailbox_inv :: "nat \<Rightarrow> 'a mailbox_system \<Rightarrow> bool" where
  "mailbox_inv n s \<longleftrightarrow>
     length (mb_slots (mbs_shared s)) = 2 \<and> (\<forall>v \<in> set (mb_slots (mbs_shared s)). length v = n)
     \<and> mb_active (mbs_shared s) \<in> {0, 1} \<and> mbs_published s \<noteq> [] \<and> (\<forall>v \<in> set (mbs_published s). length v = n)
     \<and> MailboxRead (mbs_shared s) = hd (mbs_published s)
     \<and> (case mbs_writer s of MWIdle \<Rightarrow> True
        | MWCopy nx i new \<Rightarrow> nx = 1 - mb_active (mbs_shared s) \<and> length new = n \<and> i \<le> n
            \<and> take i (mb_slots (mbs_shared s) ! unat nx) = take i new)
     \<and> (case mbs_reader s of MRIdle \<Rightarrow> True
        | MRCopy slot k acc \<Rightarrow> slot = mb_active (mbs_shared s) \<and> k = length (mbs_published s) \<and> length acc \<le> n
            \<and> acc = take (length acc) (MailboxRead (mbs_shared s)))
     \<and> (\<forall>(v, k) \<in> set (mbs_reads s). 1 \<le> k \<and> k \<le> length (mbs_published s) \<and> v = published_at s k)"

lemma mailbox_inv_init: "length v = n \<Longrightarrow> mailbox_inv n (mailbox_init v)"
  by (simp add: mailbox_inv_def mailbox_init_def Mailbox_init_def MailboxRead_def)

lemma published_at_publish: "k \<le> length (mbs_published s) \<Longrightarrow> 1 \<le> k \<Longrightarrow>
    published_at (s\<lparr>mbs_shared := m, mbs_writer := w, mbs_published := v # mbs_published s\<rparr>) k = published_at s k"
  by (cases k) (auto simp: published_at_def nth_append)

lemma published_at_last: "mbs_published s \<noteq> [] \<Longrightarrow> published_at s (length (mbs_published s)) = hd (mbs_published s)"
  by (cases "mbs_published s") (simp_all add: published_at_def nth_append)

lemma published_at_frame [simp]:
  "published_at (s\<lparr>mbs_shared := m\<rparr>) k = published_at s k"
  "published_at (s\<lparr>mbs_shared := m, mbs_writer := w\<rparr>) k = published_at s k" "published_at (s\<lparr>mbs_writer := w\<rparr>) k = published_at s k"
  "published_at (s\<lparr>mbs_reader := r\<rparr>) k = published_at s k" "published_at (s\<lparr>mbs_reader := r, mbs_reads := l\<rparr>) k = published_at s k"
  by (simp_all add: published_at_def)

lemma slot_length: "mailbox_inv n s \<Longrightarrow> k < 2 \<Longrightarrow> length (mb_slots (mbs_shared s) ! k) = n"
  by (simp add: mailbox_inv_def)

lemma take_Suc_update: "length xs = length ys \<Longrightarrow> i < length ys \<Longrightarrow> take i xs = take i ys \<Longrightarrow>
    take (Suc i) (xs[i := ys ! i]) = take (Suc i) ys"
  by (simp add: take_Suc_conv_app_nth)

lemma mailbox_inv_writer_reader:
  "mailbox_inv n s \<Longrightarrow> writer_runs True s \<Longrightarrow> mbs_reader s = MRIdle"
  by (simp add: writer_runs_def)

lemma unat_slot: "b \<in> {0, 1} \<Longrightarrow> unat (1 - b :: u8) < 2 \<and> unat b < 2 \<and> unat (1 - b) \<noteq> unat b"
  by auto

lemma mailbox_inv_step:
  assumes "mailbox_step True n s t" "mailbox_inv n s"
  shows "mailbox_inv n t"
  using assms
proof (induction rule: mailbox_step.induct)
  case (mw_load s new)
  then show ?case by (auto simp: mailbox_inv_def split: mb_reader.splits)
next
  case (mw_cell s nx i new)
  let ?m = "mbs_shared s"
  have nx: "nx = 1 - mb_active ?m" "mb_active ?m \<in> {0, 1}" "length (mb_slots ?m) = 2" "length new = n"
    "take i (mb_slots ?m ! unat nx) = take i new"
    using mw_cell(2,4) by (auto simp: mailbox_inv_def)
  note b = unat_slot [OF nx(2), folded nx(1)]
  have l: "length (mb_slots ?m ! unat nx) = n" using slot_length [OF mw_cell(4)] b by simp
  have slots: "\<forall>v \<in> set (mb_slots (copy_cell nx i (new ! i) ?m)). length v = n"
    using mw_cell(4) l by (auto simp: copy_cell_def mailbox_inv_def dest!: set_update_subset_insert [THEN subsetD])
  have read: "MailboxRead (copy_cell nx i (new ! i) ?m) = MailboxRead ?m"
    using b by (simp add: copy_cell_def MailboxRead_def)
  have cell: "take (Suc i) (mb_slots (copy_cell nx i (new ! i) ?m) ! unat nx) = take (Suc i) new"
    using b nx(3,4,5) l mw_cell(3) by (simp add: copy_cell_def take_Suc_update)
  show ?case
    using mw_cell nx(1,4) slots read cell mailbox_inv_writer_reader [OF mw_cell(4,1)]
    by (simp add: mailbox_inv_def copy_cell_def)
next
  case (mw_flip s nx new)
  let ?m = "mbs_shared s"
  have nx: "nx = 1 - mb_active ?m" "mb_active ?m \<in> {0, 1}" "length new = n"
    "take n (mb_slots ?m ! unat nx) = take n new"
    using mw_flip(2,3) by (auto simp: mailbox_inv_def)
  have "length (mb_slots ?m ! unat nx) = n"
    using slot_length [OF mw_flip(3)] unat_slot [OF nx(2), folded nx(1)] by simp
  then have read: "mb_slots ?m ! unat nx = new" using nx(3,4) by simp
  have log: "\<forall>(v, k) \<in> set (mbs_reads s). 1 \<le> k \<and> k \<le> Suc (length (mbs_published s)) \<and>
      v = published_at (s\<lparr>mbs_shared := ?m\<lparr>mb_active := nx\<rparr>, mbs_writer := MWIdle, mbs_published := new # mbs_published s\<rparr>) k"
    using mw_flip(3) by (auto simp: mailbox_inv_def published_at_publish)
  have idle: "mbs_reader s = MRIdle" by (rule mailbox_inv_writer_reader [OF mw_flip(3,1)])
  have "nx \<in> {0, 1}" using nx(1,2) by auto
  then show ?case
    using mw_flip(3) nx(3) read log idle by (simp add: mailbox_inv_def MailboxRead_def)
next
  case (mr_load s)
  then show ?case by (auto simp: mailbox_inv_def split: mb_writer.splits)
next
  case (mr_cell s slot k acc)
  have r: "acc = take (length acc) (MailboxRead (mbs_shared s))" "slot = mb_active (mbs_shared s)" "slot \<in> {0, 1}"
    using mr_cell(1,3) by (auto simp: mailbox_inv_def)
  have "length (MailboxRead (mbs_shared s)) = n"
    using slot_length [OF mr_cell(3), of "unat slot"] unat_slot [OF r(3)] r(2) by (simp add: MailboxRead_def)
  then have "acc @ [MailboxRead (mbs_shared s) ! length acc] = take (Suc (length acc)) (MailboxRead (mbs_shared s))"
    using r(1) mr_cell(2) by (simp add: take_Suc_conv_app_nth)
  then have "acc @ [mb_slots (mbs_shared s) ! unat slot ! length acc] = take (Suc (length acc)) (MailboxRead (mbs_shared s))"
    using r(2) by (simp add: MailboxRead_def)
  then show ?case using mr_cell by (auto simp: mailbox_inv_def split: mb_writer.splits)
next
  case (mr_return s slot k acc)
  then have "length (MailboxRead (mbs_shared s)) = n"
    using slot_length [OF mr_return(3), of "unat slot"] unat_slot [of slot]
    by (simp add: mailbox_inv_def MailboxRead_def)
  with mr_return show ?case
    by (auto simp: mailbox_inv_def published_at_last Suc_le_eq split: mb_writer.splits)
qed

interpretation mailbox: interleaving "\<lambda>s. \<exists>v. length v = n \<and> s = mailbox_init v" "mailbox_step True n" "mailbox_inv n"
  by unfold_locales (auto intro: mailbox_inv_init mailbox_inv_step)

text \<open>Sequentially, what is read is what was written last.\<close>

lemma MailboxRead_Write:
  assumes "length (mb_slots m) = 2" "mb_active m \<in> {0, 1}"
  shows "MailboxRead (MailboxWrite v m) = v" "length (mb_slots (MailboxWrite v m)) = 2" "mb_active (MailboxWrite v m) \<in> {0, 1}"
  using assms by (auto simp: MailboxRead_def MailboxWrite_def Let_def)

section \<open>Sequence lock\<close>

record 'a SeqLock =
  sl_value :: "'a list"
  sl_sequence :: u32

definition SeqLock_init :: "'a list \<Rightarrow> 'a SeqLock" where
  "SeqLock_init v = \<lparr>sl_value = v, sl_sequence = 0\<rparr>"

definition SeqLockWrite :: "'a list \<Rightarrow> 'a SeqLock \<Rightarrow> 'a SeqLock" where
  "SeqLockWrite v l = (let sequence = sl_sequence l;
      l = l\<lparr>sl_sequence := sequence + 1\<rparr>;
      l = l\<lparr>sl_value := v\<rparr>
    in l\<lparr>sl_sequence := sequence + 2\<rparr>)"

text \<open>One turn of the loop in \<open>Read\<close>, run without interruption: \<open>None\<close> is a retry.\<close>

definition SeqLockTry :: "'a SeqLock \<Rightarrow> 'a list option" where
  "SeqLockTry l = (let kBefore = sl_sequence l in
    if kBefore AND 1 \<noteq> 0 then None
    else let copy = sl_value l in if sl_sequence l = kBefore then Some copy else None)"

text \<open>
  The interleaved lock: any access of the writer may fall between any two of the reader. The ghost fields are the
  sequence number as it would be without wrapping, the value published last, and a log of the reads: the value
  returned, the value that was published last when the reader loaded the sequence number, and by how much the
  unbounded sequence had advanced when the reader compared.
\<close>

datatype 'a sl_writer = SWIdle | SWLoaded u32 "'a list" | SWCopy u32 nat "'a list"

datatype 'a sl_reader = SRIdle | SRCopy u32 "'a list"

record 'a seqlock_system =
  sls_shared :: "'a SeqLock"
  sls_writer :: "'a sl_writer"
  sls_reader :: "'a sl_reader"
  sls_count :: nat
  sls_before :: nat
  sls_expected :: "'a list"
  sls_last :: "'a list"
  sls_published :: "'a list set"
  sls_reads :: "('a list \<times> 'a list \<times> nat) list"

definition seqlock_init :: "'a list \<Rightarrow> 'a seqlock_system" where
  "seqlock_init v = \<lparr>sls_shared = SeqLock_init v, sls_writer = SWIdle, sls_reader = SRIdle, sls_count = 0, sls_before = 0,
     sls_expected = v, sls_last = v, sls_published = {v}, sls_reads = []\<rparr>"

inductive seqlock_step :: "nat \<Rightarrow> 'a seqlock_system \<Rightarrow> 'a seqlock_system \<Rightarrow> bool" for n where
  sw_load: "sls_writer s = SWIdle \<Longrightarrow> length new = n \<Longrightarrow>
    seqlock_step n s (s\<lparr>sls_writer := SWLoaded (sl_sequence (sls_shared s)) new\<rparr>)"
| sw_odd: "sls_writer s = SWLoaded sq new \<Longrightarrow>
    seqlock_step n s (s\<lparr>sls_shared := sls_shared s\<lparr>sl_sequence := sq + 1\<rparr>, sls_writer := SWCopy sq 0 new,
      sls_count := Suc (sls_count s)\<rparr>)"
| sw_cell: "sls_writer s = SWCopy sq i new \<Longrightarrow> i < n \<Longrightarrow>
    seqlock_step n s (s\<lparr>sls_shared := sls_shared s\<lparr>sl_value := (sl_value (sls_shared s))[i := new ! i]\<rparr>,
      sls_writer := SWCopy sq (Suc i) new\<rparr>)"
| sw_even: "sls_writer s = SWCopy sq n new \<Longrightarrow>
    seqlock_step n s (s\<lparr>sls_shared := sls_shared s\<lparr>sl_sequence := sq + 2\<rparr>, sls_writer := SWIdle,
      sls_count := Suc (sls_count s), sls_last := new, sls_published := insert new (sls_published s)\<rparr>)"
| sr_odd: "sls_reader s = SRIdle \<Longrightarrow> sl_sequence (sls_shared s) AND 1 \<noteq> 0 \<Longrightarrow> seqlock_step n s s"
| sr_load: "sls_reader s = SRIdle \<Longrightarrow> sl_sequence (sls_shared s) AND 1 = 0 \<Longrightarrow>
    seqlock_step n s (s\<lparr>sls_reader := SRCopy (sl_sequence (sls_shared s)) [], sls_before := sls_count s, sls_expected := sls_last s\<rparr>)"
| sr_cell: "sls_reader s = SRCopy b acc \<Longrightarrow> length acc < n \<Longrightarrow>
    seqlock_step n s (s\<lparr>sls_reader := SRCopy b (acc @ [sl_value (sls_shared s) ! length acc])\<rparr>)"
| sr_return: "sls_reader s = SRCopy b acc \<Longrightarrow> length acc = n \<Longrightarrow> sl_sequence (sls_shared s) = b \<Longrightarrow>
    seqlock_step n s (s\<lparr>sls_reader := SRIdle, sls_reads := (acc, sls_expected s, sls_count s - sls_before s) # sls_reads s\<rparr>)"
| sr_retry: "sls_reader s = SRCopy b acc \<Longrightarrow> length acc = n \<Longrightarrow> sl_sequence (sls_shared s) \<noteq> b \<Longrightarrow>
    seqlock_step n s (s\<lparr>sls_reader := SRIdle\<rparr>)"

definition sl_writer_ok :: "nat \<Rightarrow> 'a seqlock_system \<Rightarrow> bool" where
  "sl_writer_ok n s \<longleftrightarrow> (case sls_writer s of
      SWIdle \<Rightarrow> even (sls_count s) \<and> sl_value (sls_shared s) = sls_last s
    | SWLoaded sq new \<Rightarrow> even (sls_count s) \<and> sl_value (sls_shared s) = sls_last s \<and> sq = of_nat (sls_count s) \<and> length new = n
    | SWCopy sq i new \<Rightarrow> odd (sls_count s) \<and> sq + 1 = of_nat (sls_count s) \<and> length new = n \<and> i \<le> n
        \<and> take i (sl_value (sls_shared s)) = take i new)"

definition sl_reader_ok :: "nat \<Rightarrow> 'a seqlock_system \<Rightarrow> bool" where
  "sl_reader_ok n s \<longleftrightarrow> (case sls_reader s of
      SRIdle \<Rightarrow> True
    | SRCopy b acc \<Rightarrow> b = of_nat (sls_before s) \<and> even (sls_before s) \<and> sls_before s \<le> sls_count s \<and> length acc \<le> n
        \<and> sls_expected s \<in> sls_published s \<and> length (sls_expected s) = n
        \<and> (sls_count s = sls_before s \<longrightarrow> sls_expected s = sls_last s \<and> acc = take (length acc) (sls_last s)))"

definition seqlock_inv :: "nat \<Rightarrow> 'a seqlock_system \<Rightarrow> bool" where
  "seqlock_inv n s \<longleftrightarrow> sl_sequence (sls_shared s) = of_nat (sls_count s) \<and> length (sl_value (sls_shared s)) = n
     \<and> length (sls_last s) = n \<and> sls_last s \<in> sls_published s \<and> sl_writer_ok n s \<and> sl_reader_ok n s
     \<and> (\<forall>(v, w, d) \<in> set (sls_reads s). w \<in> sls_published s \<and> (d < 2 ^ 32 \<longrightarrow> v = w \<and> d = 0))"

lemmas seqlock_defs = seqlock_inv_def sl_writer_ok_def sl_reader_ok_def

lemma seqlock_inv_init: "length v = n \<Longrightarrow> seqlock_inv n (seqlock_init v)"
  by (simp add: seqlock_defs seqlock_init_def SeqLock_init_def)

lemma odd_word: "(of_nat k :: u32) AND 1 = 0 \<longleftrightarrow> even k"
  by (simp add: and_one_eq mod_2_eq_odd)

text \<open>The 32-bit number comes back to where it was only after \<open>2 ^ 32\<close> increments.\<close>

lemma same_sequence:
  assumes "(of_nat b :: u32) = of_nat c" "b \<le> c" "c - b < 2 ^ 32"
  shows "c = b"
proof -
  have "(of_nat (c - b) :: u32) = 0" using assms(1,2) by (simp add: of_nat_diff)
  then have "2 ^ 32 dvd c - b" by (simp add: word_of_nat_eq_0_iff)
  then have "c - b = 0" using assms(3) dvd_imp_le [of "2 ^ 32" "c - b"] by (cases "c - b = 0") auto
  then show ?thesis using assms(2) by simp
qed

lemma seqlock_inv_step:
  assumes "seqlock_step n s t" "seqlock_inv n s"
  shows "seqlock_inv n t"
  using assms
proof (induction rule: seqlock_step.induct)
  case (sw_cell s sq i new)
  then have "take (Suc i) ((sl_value (sls_shared s))[i := new ! i]) = take (Suc i) new"
    by (auto simp: seqlock_defs take_Suc_update)
  with sw_cell show ?case
    by (auto simp: seqlock_defs split: sl_reader.splits)
next
  case (sw_even s sq new)
  then have w: "sq + 1 = of_nat (sls_count s)" "length (sl_value (sls_shared s)) = n" "length new = n"
      "take n (sl_value (sls_shared s)) = take n new" and odd: "odd (sls_count s)"
    by (simp_all add: seqlock_inv_def sl_writer_ok_def)
  have "sq + 2 = sq + 1 + 1" by simp
  then have sq: "sq + 2 = of_nat (Suc (sls_count s))" unfolding w(1) by simp
  have new: "sl_value (sls_shared s) = new" "length new = n" using w(2-4) by simp_all
  have "sl_reader_ok n (s\<lparr>sls_shared := l, sls_writer := SWIdle, sls_count := Suc (sls_count s), sls_last := new,
      sls_published := insert new (sls_published s)\<rparr>)" for l
    using sw_even(2) odd by (cases "sls_reader s") (auto simp: seqlock_inv_def sl_reader_ok_def)
  moreover have "\<forall>(v, w, d) \<in> set (sls_reads s). w \<in> insert new (sls_published s) \<and> (d < 2 ^ 32 \<longrightarrow> v = w \<and> d = 0)"
    using sw_even(2) by (auto simp: seqlock_inv_def)
  ultimately show ?case
    using sq new odd by (simp add: seqlock_inv_def sl_writer_ok_def del: of_nat_Suc)
next
  case (sr_return s b acc)
  have "sl_reader_ok n s" and c: "sl_sequence (sls_shared s) = of_nat (sls_count s)" and len: "length (sls_last s) = n"
    using sr_return(4) by (simp_all add: seqlock_inv_def)
  then have r: "b = of_nat (sls_before s)" "sls_before s \<le> sls_count s" "sls_expected s \<in> sls_published s"
      "sls_count s = sls_before s \<longrightarrow> sls_expected s = sls_last s \<and> acc = take (length acc) (sls_last s)"
    using sr_return(1) by (simp_all add: sl_reader_ok_def)
  have "sls_count s = sls_before s" if "sls_count s - sls_before s < 2 ^ 32"
    using same_sequence [of "sls_before s" "sls_count s"] sr_return(3) r(1,2) c that by simp
  then have entry: "sls_count s - sls_before s < 2 ^ 32 \<Longrightarrow> acc = sls_expected s \<and> sls_count s - sls_before s = 0"
    using r(4) len sr_return(2) by auto
  show ?case
    using sr_return(4) entry r(3) unfolding seqlock_inv_def sl_writer_ok_def
    by (cases "sls_writer s") (auto simp: sl_reader_ok_def)
next
  case (sr_load s)
  then show ?case by (auto simp: seqlock_defs odd_word split: sl_writer.splits)
next
  case (sr_cell s b acc)
  have "acc @ [sl_value (sls_shared s) ! length acc] = take (Suc (length acc)) (sls_last s)"
    if "sls_count s = sls_before s"
  proof -
    have "sl_value (sls_shared s) = sls_last s" "acc = take (length acc) (sls_last s)"
      using sr_cell that by (auto simp: seqlock_defs split: sl_writer.splits)
    then show ?thesis using sr_cell by (simp add: seqlock_defs take_Suc_conv_app_nth)
  qed
  with sr_cell show ?case by (auto simp: seqlock_defs split: sl_writer.splits)
qed (auto simp: seqlock_defs split: sl_writer.splits sl_reader.splits)

interpretation seqlock: interleaving "\<lambda>s. \<exists>v. length v = n \<and> s = seqlock_init v" "seqlock_step n" "seqlock_inv n"
  by unfold_locales (auto intro: seqlock_inv_init seqlock_inv_step)

lemma seqlock_reachable_inv: "(seqlock_step n)\<^sup>*\<^sup>* (seqlock_init v) s \<Longrightarrow> length v = n \<Longrightarrow> seqlock_inv n s"
  by (rule seqlock.reachable_inv) auto

lemma mailbox_reachable_inv: "(mailbox_step True n)\<^sup>*\<^sup>* (mailbox_init v) s \<Longrightarrow> length v = n \<Longrightarrow> mailbox_inv n s"
  by (rule mailbox.reachable_inv) auto

section \<open>Properties\<close>

text \<open>
  C20. When the reader has the higher priority, as the source requires, every read of a mailbox returns exactly the value
  that was published last when it loaded the index, whole, wherever in the middle of a write it comes.
\<close>
theorem mailbox_reads_published:
  assumes "(mailbox_step True n)\<^sup>*\<^sup>* (mailbox_init v) s" "length v = n" "(x, k) \<in> set (mbs_reads s)"
  shows "1 \<le> k \<and> k \<le> length (mbs_published s) \<and> x = published_at s k"
  using mailbox_reachable_inv [OF assms(1,2)] assms(3) by (auto simp: mailbox_inv_def)

text \<open>One uninterrupted write and one read, access by access.\<close>

definition mailbox_written :: "nat mailbox_system" where
  "mailbox_written = \<lparr>mbs_shared = \<lparr>mb_slots = [[0], [7]], mb_active = 1\<rparr>, mbs_writer = MWIdle, mbs_reader = MRIdle,
     mbs_published = [[7], [0]], mbs_reads = [([7], 2)]\<rparr>"

lemmas next_access = converse_rtranclp_into_rtranclp [where r = "mailbox_step p n" for p n]

lemma mailbox_written_reachable: "(mailbox_step True 1)\<^sup>*\<^sup>* (mailbox_init [0]) mailbox_written"
  unfolding mailbox_init_def Mailbox_init_def mailbox_written_def
  by (rule next_access, rule mw_load [where new = "[7]"], simp add: writer_runs_def, simp, simp,
      rule next_access, rule mw_cell, simp add: writer_runs_def, simp, simp,
      rule next_access, rule mw_flip, simp add: writer_runs_def, simp,
      rule next_access, rule mr_load, simp, rule next_access, rule mr_cell, simp, simp,
      rule next_access, rule mr_return, simp, simp, simp add: copy_cell_def numeral_2_eq_2)

theorem mailbox_reads_published_witness:
  "mbs_reads mailbox_written = [([7], 2)] \<and> [7] = published_at mailbox_written 2"
  using mailbox_reads_published [OF mailbox_written_reachable, of "[7]" 2] by (simp add: mailbox_written_def)

text \<open>A reader that has copied the first of two cells, and a writer between two writes.\<close>

definition half_read :: "nat list \<Rightarrow> nat list \<Rightarrow> u8 \<Rightarrow> nat list list \<Rightarrow> nat mailbox_system" where
  "half_read a b p pub = \<lparr>mbs_shared = \<lparr>mb_slots = [a, b], mb_active = p\<rparr>, mbs_writer = MWIdle,
    mbs_reader = MRCopy 0 1 [0], mbs_published = pub, mbs_reads = []\<rparr>"

lemma half_read_start: "(mailbox_step False 2)\<^sup>*\<^sup>* (mailbox_init [0, 0]) (half_read [0, 0] [0, 0] 0 [[0, 0]])"
  unfolding mailbox_init_def Mailbox_init_def half_read_def
  by (rule next_access, rule mr_load, simp, rule next_access, rule mr_cell, simp, simp, simp)

lemma half_read_write:
  assumes "p = 0 \<and> a' = a \<and> b' = [x, y] \<or> p = 1 \<and> a' = [x, y] \<and> b' = b" "length a = 2" "length b = 2"
  shows "(mailbox_step False 2)\<^sup>*\<^sup>* (half_read a b p pub) (half_read a' b' (1 - p) ([x, y] # pub))"
proof -
  obtain a1 a2 b1 b2 where "a = [a1, a2]" "b = [b1, b2]"
    using assms(2,3) by (auto simp: numeral_2_eq_2 length_Suc_conv)
  with assms(1) show ?thesis unfolding half_read_def
    by (elim disjE conjE; hypsubst)
      (rule next_access, rule mw_load [where new = "[x, y]"], simp add: writer_runs_def, simp, simp,
        rule next_access, rule mw_cell, simp add: writer_runs_def, simp, simp,
        rule next_access, rule mw_cell, simp add: writer_runs_def, simp, simp,
        rule next_access, rule mw_flip, simp add: writer_runs_def, simp, simp add: copy_cell_def)+
qed

lemma half_read_return:
  "(mailbox_step False 2)\<^sup>*\<^sup>* (half_read [a1, a2] b 0 pub) (half_read [a1, a2] b 0 pub\<lparr>mbs_reader := MRIdle, mbs_reads := [([0, a2], 1)]\<rparr>)"
  unfolding half_read_def by (rule next_access, rule mr_cell, simp, simp, rule next_access, rule mr_return, simp, simp, simp)

text \<open>
  The priority is needed: if the writer may interrupt the reader, two writes during one read tear the copy, and
  the reader returns a value that was never published.
\<close>
theorem mailbox_needs_priority:
  "\<exists>s. (mailbox_step False 2)\<^sup>*\<^sup>* (mailbox_init [0, 0 :: nat]) s \<and> (\<exists>(x, k) \<in> set (mbs_reads s). x \<notin> set (mbs_published s))"
proof -
  let ?s = "half_read [2, 2] [1, 1] 0 [[2, 2], [1, 1], [0, 0]]\<lparr>mbs_reader := MRIdle, mbs_reads := [([0, 2], 1)]\<rparr>"
  have 1: "(mailbox_step False 2)\<^sup>*\<^sup>* (half_read [0, 0] [0, 0] 0 [[0, 0]]) (half_read [0, 0] [1, 1] 1 [[1, 1], [0, 0]])"
    using half_read_write [of 0 "[0, 0]" "[0, 0]" "[1, 1]" 1 1 "[0, 0]" "[[0, 0]]"] by simp
  have 2: "(mailbox_step False 2)\<^sup>*\<^sup>* (half_read [0, 0] [1, 1] 1 [[1, 1], [0, 0]])
      (half_read [2, 2] [1, 1] 0 [[2, 2], [1, 1], [0, 0]])"
    using half_read_write [of 1 "[2, 2]" "[0, 0]" "[1, 1]" 2 2 "[1, 1]" "[[1, 1], [0, 0]]"] by simp
  have "(mailbox_step False 2)\<^sup>*\<^sup>* (mailbox_init [0, 0]) ?s"
    by (rule rtranclp_trans [OF rtranclp_trans [OF rtranclp_trans [OF half_read_start 1] 2] half_read_return])
  moreover have "([0, 2], 1) \<in> set (mbs_reads ?s)" "[0, 2] \<notin> set (mbs_published ?s)" by (simp_all add: half_read_def)
  ultimately show ?thesis by blast
qed

text \<open>
  C21. However the writer and the reader of a sequence lock interleave, a read that returns has not overlapped a write:
  it returns, whole, the value that was published last when it loaded the sequence number, provided the 32-bit
  number did not wrap around during the copy (fewer than \<open>2 ^ 31\<close> writes).
\<close>
theorem seqlock_reads_consistent:
  assumes "(seqlock_step n)\<^sup>*\<^sup>* (seqlock_init v) s" "length v = n" "(x, expected, advance) \<in> set (sls_reads s)" "advance < 2 ^ 32"
  shows "x = expected \<and> advance = 0 \<and> x \<in> sls_published s"
  using seqlock_reachable_inv [OF assms(1,2)] assms(3,4) by (auto simp: seqlock_inv_def)

text \<open>One write and one read of a lock over a single cell.\<close>

definition seqlock_written :: "nat seqlock_system" where
  "seqlock_written = \<lparr>sls_shared = \<lparr>sl_value = [7], sl_sequence = 2\<rparr>, sls_writer = SWIdle, sls_reader = SRIdle,
     sls_count = 2, sls_before = 2, sls_expected = [7], sls_last = [7], sls_published = {[7], [0]}, sls_reads = [([7], [7], 0)]\<rparr>"

lemmas next_lock_access = converse_rtranclp_into_rtranclp [where r = "seqlock_step n" for n]

lemma seqlock_written_reachable: "(seqlock_step 1)\<^sup>*\<^sup>* (seqlock_init [0]) seqlock_written"
  unfolding seqlock_init_def SeqLock_init_def seqlock_written_def
  by (rule next_lock_access, rule sw_load [where new = "[7]"], simp, simp,
      rule next_lock_access, rule sw_odd, simp,
      rule next_lock_access, rule sw_cell, simp, simp,
      rule next_lock_access, rule sw_even, simp,
      rule next_lock_access, rule sr_load, simp, simp,
      rule next_lock_access, rule sr_cell, simp, simp,
      rule next_lock_access, rule sr_return, simp, simp, simp, simp add: numeral_2_eq_2)

theorem seqlock_reads_consistent_witness:
  "sls_reads seqlock_written = [([7], [7], 0)] \<and> [7] \<in> sls_published seqlock_written"
  using seqlock_reads_consistent [OF seqlock_written_reachable, of "[7]" "[7]" 0] by (simp add: seqlock_written_def)

text \<open>
  The reader of a sequence lock does not starve: in every reachable state in which no write is in progress,
  the next turn of its loop ends it, with the value that was published last.
\<close>
theorem seqlock_read_returns:
  assumes "(seqlock_step n)\<^sup>*\<^sup>* (seqlock_init v) s" "length v = n" "sls_writer s = SWIdle"
  shows "SeqLockTry (sls_shared s) = Some (sls_last s)"
  using seqlock_reachable_inv [OF assms(1,2)] assms(3)
  by (simp add: seqlock_defs SeqLockTry_def odd_word Let_def)

theorem seqlock_read_returns_witness: "SeqLockTry (sls_shared seqlock_written) = Some [7]"
  using seqlock_read_returns [OF seqlock_written_reachable] by (simp add: seqlock_written_def)

end
