(* ===== verification/Cart_Control.thy ===== *)
theory Cart_Control
  imports Float_Bounds Settings_Validate
begin

text \<open>
  The torque of a cart wheel drive (\<open>src/src/drive/cart_control.cpp\<close>): the mode machine between the wheel command of
  the vehicle controller, the pedals and a ramp to zero, and the battery limits of the BMS.
\<close>

section \<open>Data\<close>

record CartParameters =
  cp_wheel :: u8
  cp_reversed :: bool
  cp_timeout :: f32
  cp_torque_ramp :: f32
  cp_limp_home_torque :: f32
  cp_standstill_speed :: f32
  cp_battery_share :: f32

definition CartParameters_From :: "NvmSettings \<Rightarrow> CartParameters" where
  "CartParameters_From settings = \<lparr>cp_wheel = nvm_cart_wheel settings,
     cp_reversed = (nvm_cart_reversed settings \<noteq> 0),
     cp_timeout = nvm_cart_timeout settings,
     cp_torque_ramp = nvm_cart_torque_ramp settings,
     cp_limp_home_torque = nvm_cart_limp_home_torque settings,
     cp_standstill_speed = nvm_cart_standstill_speed settings,
     cp_battery_share = nvm_cart_battery_share settings\<rparr>"

record CartPedals =
  pd_drive :: "f32 \<times> f32"
  pd_brake :: "f32 \<times> f32"
  pd_drive_plausible :: bool
  pd_brake_plausible :: bool

datatype Contactor = kContactorOpen | kContactorPrecharge | kContactorClosed | kContactorOpening

record CartBattery =
  cb_discharge_limit :: f32
  cb_charge_limit :: f32
  cb_contactor :: Contactor

datatype CartMode = kOff | kVdc | kLimpHome | kStopping

record CartOutput =
  co_mode :: CartMode
  co_torque :: f32
  co_holds_engagement :: bool

definition CartOutput_init :: CartOutput where
  "CartOutput_init = \<lparr>co_mode = kOff, co_torque = 0, co_holds_engagement = False\<rparr>"

record BatteryLimits =
  bl_valid :: bool
  bl_drive_current :: f32
  bl_charge_current :: f32

definition BatteryLimits_init :: BatteryLimits where
  "BatteryLimits_init = \<lparr>bl_valid = False, bl_drive_current = 0, bl_charge_current = 0\<rparr>"

record CartControl =
  cc_parameters :: CartParameters
  cc_mode :: CartMode
  cc_torque :: f32
  cc_last_update_us :: u64
  cc_updated :: bool
  cc_has_command :: bool
  cc_command_us :: u64
  cc_command_torque :: f32
  cc_has_pedals :: bool
  cc_pedals_us :: u64
  cc_pedals :: CartPedals
  cc_has_battery :: bool
  cc_battery_us :: u64
  cc_battery :: CartBattery

definition CartControl_init :: CartControl where
  "CartControl_init = \<lparr>
     cc_parameters = \<lparr>cp_wheel = 0, cp_reversed = False, cp_timeout = 0, cp_torque_ramp = 0, cp_limp_home_torque = 0,
       cp_standstill_speed = 0, cp_battery_share = 0\<rparr>,
     cc_mode = kOff, cc_torque = 0, cc_last_update_us = 0, cc_updated = False,
     cc_has_command = False, cc_command_us = 0, cc_command_torque = 0,
     cc_has_pedals = False, cc_pedals_us = 0,
     cc_pedals = \<lparr>pd_drive = (0, 0), pd_brake = (0, 0), pd_drive_plausible = False, pd_brake_plausible = False\<rparr>,
     cc_has_battery = False, cc_battery_us = 0,
     cc_battery = \<lparr>cb_discharge_limit = 0, cb_charge_limit = 0, cb_contactor = kContactorOpen\<rparr>\<rparr>"

section \<open>Operations\<close>

definition kPedalDeadband :: f32 where
  "kPedalDeadband = f32_of (5/100)"

definition ClampTravel :: "f32 \<Rightarrow> f32" where
  "ClampTravel v = (if isfinite v then Clamp v 0 (f32_of 1) else 0)"

definition Microseconds :: "u64 \<Rightarrow> f32" where
  "Microseconds duration_us = f32_of (1/1000000) * f32_of_int (uint duration_us)"

definition Configure :: "CartParameters \<Rightarrow> CartControl \<Rightarrow> CartControl" where
  "Configure parameters c = c\<lparr>cc_parameters := parameters\<rparr>"

definition Reset :: "CartControl \<Rightarrow> CartControl" where
  "Reset c = c\<lparr>cc_mode := kOff, cc_torque := 0\<rparr>"

definition OnWheelCommand :: "f32 \<Rightarrow> u64 \<Rightarrow> CartControl \<Rightarrow> CartControl" where
  "OnWheelCommand wheel_torque now_us c = c\<lparr>cc_has_command := True, cc_command_us := now_us,
     cc_command_torque := (if isfinite wheel_torque then wheel_torque else 0)\<rparr>"

definition OnPedalState :: "CartPedals \<Rightarrow> u64 \<Rightarrow> CartControl \<Rightarrow> CartControl" where
  "OnPedalState pedals now_us c = c\<lparr>cc_has_pedals := True, cc_pedals_us := now_us, cc_pedals := pedals\<rparr>"

definition OnBatteryStatus :: "CartBattery \<Rightarrow> u64 \<Rightarrow> CartControl \<Rightarrow> CartControl" where
  "OnBatteryStatus battery now_us c = c\<lparr>cc_has_battery := True, cc_battery_us := now_us, cc_battery := battery\<rparr>"

definition OnBusLost :: "CartControl \<Rightarrow> CartControl" where
  "OnBusLost c = c\<lparr>cc_has_command := False, cc_has_pedals := False, cc_has_battery := False\<rparr>"

definition Fresh :: "CartControl \<Rightarrow> bool \<Rightarrow> u64 \<Rightarrow> u64 \<Rightarrow> bool" where
  "Fresh c received at_us now_us \<longleftrightarrow> received \<and> Microseconds (now_us - at_us) \<le> cp_timeout (cc_parameters c)"

definition ToCart :: "CartControl \<Rightarrow> f32 \<Rightarrow> f32" where
  "ToCart c v = (if cp_reversed (cc_parameters c) then - v else v)"

definition PedalTorque :: "CartControl \<Rightarrow> f32 \<Rightarrow> f32" where
  "PedalTorque c speed =
    (let parameters = cc_parameters c; pedals = cc_pedals c;
         brake = foldl (\<lambda>brake channel. Max brake (ClampTravel channel)) 0 [fst (pd_brake pedals), snd (pd_brake pedals)]
     in if brake > kPedalDeadband then
          (let fade = (if cp_standstill_speed parameters > 0
                       then Min (Abs speed / cp_standstill_speed parameters) (f32_of 1) else f32_of 1);
               k_brake = cp_limp_home_torque parameters * brake * fade
           in if speed > 0 then - k_brake else if speed < 0 then k_brake else 0)
        else if \<not> pd_drive_plausible pedals then 0
        else (let drive = Min (ClampTravel (fst (pd_drive pedals))) (ClampTravel (snd (pd_drive pedals)))
              in if drive > kPedalDeadband then cp_limp_home_torque parameters * drive else 0))"

text \<open>The two \<open>switch\<close> statements of \<open>Update\<close>: the next mode, and the torque in it.\<close>

definition next_mode :: "CartMode \<Rightarrow> bool \<Rightarrow> bool \<Rightarrow> bool \<Rightarrow> CartMode" where
  "next_mode mode command pedals standstill = (case mode of
      kOff \<Rightarrow> if command then kVdc else kOff
    | kVdc \<Rightarrow> if \<not> command then (if pedals then kLimpHome else kStopping) else kVdc
    | kLimpHome \<Rightarrow> if command \<and> standstill then kVdc else if pedals then kLimpHome else kStopping
    | kStopping \<Rightarrow> if command \<and> standstill then kVdc else if pedals then kLimpHome else kStopping)"

definition mode_torque :: "CartControl \<Rightarrow> CartMode \<Rightarrow> f32 \<Rightarrow> f32 \<Rightarrow> f32" where
  "mode_torque c mode speed dt =
    (let ramped = (\<lambda>target. let step = cp_torque_ramp (cc_parameters c) * dt
                   in Clamp target (cc_torque c - step) (cc_torque c + step))
     in case mode of kOff \<Rightarrow> 0 | kVdc \<Rightarrow> cc_command_torque c
        | kLimpHome \<Rightarrow> ramped (PedalTorque c speed) | kStopping \<Rightarrow> ramped 0)"

definition cart_dt :: "u64 \<Rightarrow> CartControl \<Rightarrow> f32" where
  "cart_dt now_us c = (if cc_updated c then Microseconds (now_us - cc_last_update_us c) else 0)"

definition CartUpdate :: "u64 \<Rightarrow> f32 \<Rightarrow> bool \<Rightarrow> CartControl \<Rightarrow> CartOutput \<times> CartControl" where
  "CartUpdate now_us shaft_speed engaged c =
    (let dt = cart_dt now_us c;
         c = c\<lparr>cc_updated := True, cc_last_update_us := now_us\<rparr>
     in if \<not> engaged then (CartOutput_init, Reset c)
        else
          (let command = Fresh c (cc_has_command c) (cc_command_us c) now_us;
               pedals = Fresh c (cc_has_pedals c) (cc_pedals_us c) now_us;
               speed = ToCart c shaft_speed;
               standstill = (Abs speed \<le> cp_standstill_speed (cc_parameters c));
               mode = next_mode (cc_mode c) command pedals standstill;
               torque = mode_torque c mode speed dt
           in (\<lparr>co_mode = mode, co_torque = ToCart c torque,
                co_holds_engagement = (mode = kLimpHome \<or> mode = kStopping \<and> \<not> feq torque 0)\<rparr>,
               c\<lparr>cc_mode := mode, cc_torque := torque\<rparr>)))"

definition Battery :: "u64 \<Rightarrow> CartControl \<Rightarrow> BatteryLimits" where
  "Battery now_us c =
    (let battery = cc_battery c; share = cp_battery_share (cc_parameters c)
     in if \<not> Fresh c (cc_has_battery c) (cc_battery_us c) now_us then BatteryLimits_init
        else if \<not> isfinite (cb_discharge_limit battery) \<or> \<not> isfinite (cb_charge_limit battery) then BatteryLimits_init
        else if \<not> (cb_contactor battery = kContactorClosed \<or> cb_contactor battery = kContactorOpening)
          then \<lparr>bl_valid = True, bl_drive_current = 0, bl_charge_current = 0\<rparr>
        else \<lparr>bl_valid = True,
              bl_drive_current = Max (cb_discharge_limit battery) 0 * share,
              bl_charge_current = Max (cb_charge_limit battery) 0 * share\<rparr>)"

section \<open>Pedals\<close>

lemma ClampTravel_range: "isfinite (ClampTravel v)" "0 \<le> val (ClampTravel v)" "val (ClampTravel v) \<le> 1"
  using Clamp_finite [of v 0 "f32_of 1"] by (auto simp: ClampTravel_def zero_f32_def f32_eval)

definition params_ok :: "CartParameters \<Rightarrow> bool" where
  "params_ok p \<longleftrightarrow> f32_ok (cp_limp_home_torque p) \<and> isfinite (cp_limp_home_torque p) \<and> 0 \<le> val (cp_limp_home_torque p)
     \<and> isfinite (cp_standstill_speed p) \<and> 0 \<le> val (cp_standstill_speed p)
     \<and> isfinite (cp_torque_ramp p) \<and> 0 \<le> val (cp_torque_ramp p)
     \<and> isfinite (cp_battery_share p) \<and> 0 \<le> val (cp_battery_share p) \<and> val (cp_battery_share p) \<le> 1"

lemma params_ok_From:
  assumes "Validate s caps = kSuccess" "f32_ok (nvm_cart_limp_home_torque s)"
  shows "params_ok (CartParameters_From s)"
proof -
  note V = Validate_success [OF assms(1)]
  note fin = V(1) [unfolded IsFinite_def]
  have range: "\<not> nvm_cart_torque_ramp s \<le> 0" "\<not> nvm_cart_limp_home_torque s < 0" "\<not> nvm_cart_standstill_speed s < 0"
    "kIsRatio (nvm_cart_battery_share s)"
    using V(10) unfolding cart_out_of_range_def by blast+
  have cart: "isfinite (nvm_cart_torque_ramp s)" "isfinite (nvm_cart_limp_home_torque s)"
    "isfinite (nvm_cart_standstill_speed s)" "isfinite (nvm_cart_battery_share s)"
    by (simp_all only: fin)
  show ?thesis
    using range cart assms(2) unfolding params_ok_def CartParameters_From_def kIsRatio_def
    by (simp add: le_finite less_finite zero_f32_def f32_eval)
qed

definition fade_of :: "f32 \<Rightarrow> f32 \<Rightarrow> f32" where
  "fade_of st speed = (if st > 0 then Min (Abs speed / st) (f32_of 1) else f32_of 1)"

lemma fade_range:
  assumes "speed \<noteq> NaN" "isfinite st"
  shows "isfinite (fade_of st speed)" "0 \<le> val (fade_of st speed)" "val (fade_of st speed) \<le> 1"
proof -
  have "isfinite (f32_of 1)" "val (f32_of 1) = 1" by (simp_all add: f32_eval)
  then show "isfinite (fade_of st speed)" "0 \<le> val (fade_of st speed)" "val (fade_of st speed) \<le> 1"
    using Min_one [OF div_f32_nonneg [OF Abs_nonneg [OF assms(1)] assms(2)]] assms(2)
    by (auto simp: fade_of_def zero_less_finite)
qed

lemma Max_0_range: "isfinite x \<Longrightarrow> isfinite (Max 0 x) \<and> val (Max 0 x) = max 0 (val x)"
  using Max_finite [of 0 x] by (auto simp: zero_f32_def)

lemma brake_range:
  "isfinite (Max (Max 0 (ClampTravel a)) (ClampTravel b)) \<and> 0 \<le> val (Max (Max 0 (ClampTravel a)) (ClampTravel b))
    \<and> val (Max (Max 0 (ClampTravel a)) (ClampTravel b)) \<le> 1"
proof -
  have m: "isfinite (Max 0 (ClampTravel a))" "val (Max 0 (ClampTravel a)) = max 0 (val (ClampTravel a))"
    using Max_0_range ClampTravel_range(1) by simp_all
  show ?thesis
    using Max_finite [OF m(1) ClampTravel_range(1) [of b]] m ClampTravel_range [of a] ClampTravel_range [of b] by auto
qed

text \<open>The scaled limp-home torque is finite, not negative and at most the limp-home torque.\<close>

lemma limp_scaled:
  assumes "params_ok p" "isfinite b" "0 \<le> val b" "val b \<le> 1"
  shows "isfinite (cp_limp_home_torque p * b)"
    "0 \<le> val (cp_limp_home_torque p * b)" "val (cp_limp_home_torque p * b) \<le> val (cp_limp_home_torque p)"
  using mul_f32_shrinks [of "cp_limp_home_torque p" b] val_mult_sign [of "cp_limp_home_torque p" b] assms
  by (auto simp: params_ok_def)

definition brake_of :: "CartPedals \<Rightarrow> f32" where
  "brake_of pd = Max (Max 0 (ClampTravel (fst (pd_brake pd)))) (ClampTravel (snd (pd_brake pd)))"

text \<open>The pedal torque over the larger brake channel and the smaller drive channel.\<close>

definition drive_of :: "CartPedals \<Rightarrow> f32" where
  "drive_of pd = Min (ClampTravel (fst (pd_drive pd))) (ClampTravel (snd (pd_drive pd)))"

lemma PedalTorque_cases:
  "PedalTorque c speed = (let p = cc_parameters c in
     if brake_of (cc_pedals c) > kPedalDeadband then
       (let b = cp_limp_home_torque p * brake_of (cc_pedals c) * fade_of (cp_standstill_speed p) speed
        in if speed > 0 then - b else if speed < 0 then b else 0)
     else if pd_drive_plausible (cc_pedals c) \<and> drive_of (cc_pedals c) > kPedalDeadband
     then cp_limp_home_torque p * drive_of (cc_pedals c) else 0)"
  by (simp add: PedalTorque_def brake_of_def drive_of_def fade_of_def Let_def)

lemma drive_range: "isfinite (drive_of pd)" "0 \<le> val (drive_of pd)" "val (drive_of pd) \<le> 1"
  using Min_finite [OF ClampTravel_range(1) [of "fst (pd_drive pd)"] ClampTravel_range(1) [of "snd (pd_drive pd)"]]
    ClampTravel_range [of "fst (pd_drive pd)"] ClampTravel_range [of "snd (pd_drive pd)"]
  by (auto simp: drive_of_def)

lemma brake_torque:
  fixes pd :: CartPedals
  assumes "params_ok p" "speed \<noteq> NaN"
  defines "b \<equiv> cp_limp_home_torque p * brake_of pd * fade_of (cp_standstill_speed p) speed"
  shows "isfinite b" "0 \<le> val b" "val b \<le> val (cp_limp_home_torque p)"
proof -
  have br: "isfinite (brake_of pd)" "0 \<le> val (brake_of pd)" "val (brake_of pd) \<le> 1"
    using brake_range by (simp_all add: brake_of_def)
  note l = limp_scaled [OF assms(1) br]
  have ok: "f32_ok (cp_limp_home_torque p * brake_of pd)" by simp
  have st: "isfinite (cp_standstill_speed p)" using assms(1) by (simp add: params_ok_def)
  note f = fade_range [OF assms(2) st]
  have "\<bar>val (fade_of (cp_standstill_speed p) speed)\<bar> \<le> 1" using f by simp
  note m = mul_f32_shrinks [OF ok l(1) f(1) this]
  show "isfinite b" using m by (simp add: b_def)
  then show "0 \<le> val b" unfolding b_def using val_mult_sign l f by blast
  then show "val b \<le> val (cp_limp_home_torque p)" using m(3) l unfolding b_def by simp
qed

lemma PedalTorque_finite:
  assumes "params_ok (cc_parameters c)"
  shows "isfinite (PedalTorque c speed)"
proof (cases "speed = NaN")
  case False
  show ?thesis
    using brake_torque(1) [OF assms False, of "cc_pedals c"] limp_scaled(1) [OF assms drive_range [of "cc_pedals c"]]
    by (auto simp: PedalTorque_cases Let_def zero_f32_def)
qed (use limp_scaled(1) [OF assms drive_range] in \<open>simp add: PedalTorque_cases Let_def zero_f32_def\<close>)

text \<open>
  C19. The limp-home torque of the pedals is finite and at most the limp-home torque of the settings, whatever the
  channels and the speed are, NaN and infinities included. A pressed brake never drives: its torque opposes the motion and is zero at
  zero speed; without the brake the torque is never backward, and it is zero when the drive pedal is implausible or
  either of its channels is released or failed.
\<close>
theorem PedalTorque_safe:
  assumes "params_ok (cc_parameters c)"
  shows "isfinite (PedalTorque c speed) \<and> \<bar>val (PedalTorque c speed)\<bar> \<le> val (cp_limp_home_torque (cc_parameters c))
    \<and> (if brake_of (cc_pedals c) > kPedalDeadband
       then (speed > 0 \<longrightarrow> val (PedalTorque c speed) \<le> 0) \<and> (speed < 0 \<longrightarrow> 0 \<le> val (PedalTorque c speed))
         \<and> (\<not> speed > 0 \<and> \<not> speed < 0 \<longrightarrow> PedalTorque c speed = 0)
       else 0 \<le> val (PedalTorque c speed)
         \<and> (\<not> pd_drive_plausible (cc_pedals c) \<or> \<not> drive_of (cc_pedals c) > kPedalDeadband \<longrightarrow> PedalTorque c speed = 0))"
proof (cases "speed = NaN")
  case True
  have "0 \<le> val (cp_limp_home_torque (cc_parameters c))" using assms by (simp add: params_ok_def)
  then show ?thesis
    using True limp_scaled [OF assms drive_range] by (simp add: PedalTorque_cases Let_def zero_f32_def)
next
  case False
  have "0 \<le> val (cp_limp_home_torque (cc_parameters c))" using assms by (simp add: params_ok_def)
  moreover have "\<not> (0 < speed \<and> speed < 0)"
    by (cases speed) (auto simp: zero_f32_def less_f32_def)
  ultimately show ?thesis
    using brake_torque [OF assms False, of "cc_pedals c"] limp_scaled [OF assms drive_range [of "cc_pedals c"]]
    by (auto simp: PedalTorque_cases Let_def zero_f32_def)
qed

definition braked_cart :: CartControl where
  "braked_cart = CartControl_init\<lparr>cc_parameters := CartParameters_From (NvmSettings_default 1 0),
     cc_pedals := \<lparr>pd_drive = (Fin 1, Fin 1), pd_brake = (NaN, Fin (1/2)), pd_drive_plausible = True, pd_brake_plausible = False\<rparr>\<rparr>"

lemma braked_cart_params: "params_ok (cc_parameters braked_cart)"
proof -
  have "f32_ok (nvm_cart_limp_home_torque (NvmSettings_default 1 0))" by (simp add: NvmSettings_default_def)
  from params_ok_From [OF default_valid this] show ?thesis by (simp add: braked_cart_def)
qed

lemma braked_cart_brake: "brake_of (cc_pedals braked_cart) > kPedalDeadband"
  using rnd_eval [of "-28" "5/100" 13421773]
  by (simp add: braked_cart_def brake_of_def ClampTravel_def Clamp_def std_max_def std_min_def Max_def kPedalDeadband_def
      f32_eval pow2_def)

theorem PedalTorque_safe_witness: "val (PedalTorque braked_cart (Fin 2)) \<le> 0 \<and> 0 \<le> val (PedalTorque braked_cart (Fin (- 2)))"
  using PedalTorque_safe [OF braked_cart_params, of "Fin 2"] PedalTorque_safe [OF braked_cart_params, of "Fin (- 2)"] braked_cart_brake
  by (simp add: zero_f32_def)

section \<open>Modes\<close>

text \<open>
  While the drive stays engaged, the wheel command takes over from the pedals or from the ramp to zero only at
  standstill and only when it is fresh; limp-home needs fresh pedals, stopping is entered only without them, and a drive
  that has left \<open>kOff\<close> does not return to it. Disengaging resets mode and torque in any state.
\<close>
theorem CartUpdate_mode:
  fixes c now_us shaft_speed engaged
  defines "m \<equiv> cc_mode c" and "m' \<equiv> cc_mode (snd (CartUpdate now_us shaft_speed engaged c))"
    and "command \<equiv> Fresh c (cc_has_command c) (cc_command_us c) now_us"
    and "pedals \<equiv> Fresh c (cc_has_pedals c) (cc_pedals_us c) now_us"
  shows "if engaged then
      (m' = kVdc \<longleftrightarrow> command \<and> (m \<in> {kOff, kVdc} \<or> Abs (ToCart c shaft_speed) \<le> cp_standstill_speed (cc_parameters c)))
      \<and> (m' = kLimpHome \<longrightarrow> pedals) \<and> (m' = kStopping \<longrightarrow> \<not> pedals) \<and> (m' = kOff \<longleftrightarrow> m = kOff \<and> \<not> command)
    else m' = kOff \<and> cc_torque (snd (CartUpdate now_us shaft_speed engaged c)) = 0
      \<and> fst (CartUpdate now_us shaft_speed engaged c) = CartOutput_init"
  by (cases "cc_mode c")
    (auto simp: m_def m'_def command_def pedals_def CartUpdate_def next_mode_def Let_def Fresh_def ToCart_def Reset_def)

theorem CartUpdate_mode_witness: "cc_mode (snd (CartUpdate 7 (Fin 1) True (CartControl_init\<lparr>cc_mode := kVdc\<rparr>))) = kStopping"
  using CartUpdate_mode [where engaged = True and shaft_speed = "Fin 1" and c = "CartControl_init\<lparr>cc_mode := kVdc\<rparr>" and now_us = 7]
  by (cases "cc_mode (snd (CartUpdate 7 (Fin 1) True (CartControl_init\<lparr>cc_mode := kVdc\<rparr>)))")
    (simp_all add: Fresh_def CartControl_init_def)

section \<open>Ramp\<close>

text \<open>The largest change of the torque in one update.\<close>

definition ramp_step :: "u64 \<Rightarrow> CartControl \<Rightarrow> f32" where
  "ramp_step now_us c = cp_torque_ramp (cc_parameters c) * cart_dt now_us c"

lemma Microseconds_finite: "isfinite (Microseconds d)" "0 \<le> val (Microseconds d)"
proof -
  have "isfinite (f32_of (1/1000000))" "val (f32_of (1/1000000)) = rnd (1/1000000)"
    using f32_of_finite [of "1/1000000"] by (simp_all add: pow2_def)
  moreover have "0 \<le> rnd (1/1000000)" "rnd (1/1000000) \<le> 1"
    using rnd_nonneg [of "1/1000000"] rnd_mono [of "1/1000000" 1] by simp_all
  ultimately have m: "isfinite (f32_of (1/1000000))" "0 \<le> val (f32_of (1/1000000))" "\<bar>val (f32_of (1/1000000))\<bar> \<le> 1"
    by simp_all
  have ok: "f32_ok (f32_of_int (uint d))" by (simp add: f32_of_int_def)
  have c: "Microseconds d = f32_of_int (uint d) * f32_of (1/1000000)"
    by (simp add: Microseconds_def times_f32_commute)
  show f: "isfinite (Microseconds d)" using mul_f32_shrinks(1) [OF ok u64_to_float(1) m(1,3)] by (simp add: c)
  show "0 \<le> val (Microseconds d)"
    using val_mult_sign [OF f [unfolded c] u64_to_float(1) m(1) u64_to_float(2) m(2)] by (simp only: c)
qed

lemma ramp_step_nonneg: "params_ok (cc_parameters c) \<Longrightarrow> 0 \<le> ramp_step now_us c"
proof -
  assume p: "params_ok (cc_parameters c)"
  let ?r = "cp_torque_ramp (cc_parameters c)"
  have dt: "isfinite (cart_dt now_us c)" "0 \<le> val (cart_dt now_us c)"
    using Microseconds_finite by (simp_all add: cart_dt_def zero_f32_def)
  have r: "isfinite ?r" "0 \<le> val ?r" using p by (simp_all add: params_ok_def)
  have "f32_round False 0 \<le> f32_round b (val ?r * val (cart_dt now_us c))" for b
    using r dt by (intro f32_round_le) simp
  then show "0 \<le> ramp_step now_us c"
    using r dt by (simp add: ramp_step_def times_f32_def Let_def f32_round_def [of False 0] zero_of_def zero_f32_def)
qed

definition cart_inv :: "CartControl \<Rightarrow> bool" where
  "cart_inv c \<longleftrightarrow> params_ok (cc_parameters c) \<and> f32_ok (cc_torque c) \<and> isfinite (cc_torque c)
     \<and> f32_ok (cc_command_torque c) \<and> isfinite (cc_command_torque c)"

lemma PedalTorque_ok: "params_ok (cc_parameters c) \<Longrightarrow> f32_ok (PedalTorque c speed)"
  by (simp add: PedalTorque_cases Let_def zero_f32_def)

lemma Clamp_ok: "f32_ok v \<Longrightarrow> f32_ok lo \<Longrightarrow> f32_ok hi \<Longrightarrow> f32_ok (Clamp v lo hi)"
  using Clamp_cases [of v lo hi] by auto

lemma ramped_torque:
  fixes c mode speed now_us
  assumes "cart_inv c" "mode \<in> {kLimpHome, kStopping}"
  defines "target \<equiv> (if mode = kLimpHome then PedalTorque c speed else 0)"
    and "t \<equiv> mode_torque c mode speed (cart_dt now_us c)"
  shows "isfinite t" "min (val target) (val (cc_torque c)) \<le> val t" "val t \<le> max (val target) (val (cc_torque c))"
    "cc_torque c - ramp_step now_us c \<le> t" "t \<le> cc_torque c + ramp_step now_us c"
proof -
  have c: "params_ok (cc_parameters c)" "f32_ok (cc_torque c)" "isfinite (cc_torque c)"
    using assms(1) by (simp_all add: cart_inv_def)
  note b = band [OF c(2,3) ramp_step_nonneg [OF c(1), of now_us]]
  have target: "isfinite target" using PedalTorque_finite [OF c(1), of speed] by (simp add: target_def zero_f32_def)
  have t: "t = Clamp target (cc_torque c - ramp_step now_us c) (cc_torque c + ramp_step now_us c)"
    using assms(2) by (auto simp: t_def target_def mode_torque_def ramp_step_def Let_def)
  have "target \<noteq> NaN" using target by auto
  then show "isfinite t" "min (val target) (val (cc_torque c)) \<le> val t" "val t \<le> max (val target) (val (cc_torque c))"
    "cc_torque c - ramp_step now_us c \<le> t" "t \<le> cc_torque c + ramp_step now_us c"
    unfolding t using Clamp_towards_finite [OF b(1,2) c(3) target] Clamp_range [OF _ b(3), of target] by simp_all
qed

text \<open>
  A torque that comes from the pedals or from stopping moves towards its target, never past it, and by at most the ramp in
  one update: the new torque lies between the old torque and the target, and within the ramp step of the old torque.
\<close>
theorem mode_torque_ramps:
  fixes c mode speed now_us
  assumes "cart_inv c" "mode \<in> {kLimpHome, kStopping}"
  defines "target \<equiv> (if mode = kLimpHome then PedalTorque c speed else 0)"
    and "t \<equiv> mode_torque c mode speed (cart_dt now_us c)"
  shows "isfinite t \<and> min (val target) (val (cc_torque c)) \<le> val t \<and> val t \<le> max (val target) (val (cc_torque c))
    \<and> cc_torque c - ramp_step now_us c \<le> t \<and> t \<le> cc_torque c + ramp_step now_us c"
  using ramped_torque [OF assms(1,2), where speed = speed and now_us = now_us] unfolding t_def target_def by simp

theorem mode_torque_ramps_witness:
  "let c = braked_cart\<lparr>cc_torque := Fin 4, cc_updated := True, cc_last_update_us := - 1\<rparr>
   in isfinite (mode_torque c kStopping 0 (cart_dt 999 c)) \<and> 0 \<le> val (mode_torque c kStopping 0 (cart_dt 999 c))
     \<and> val (mode_torque c kStopping 0 (cart_dt 999 c)) \<le> 4"
proof -
  let ?c = "braked_cart\<lparr>cc_torque := Fin 4, cc_updated := True, cc_last_update_us := - 1\<rparr>"
  have "representable 4" using representable_pow2 [of 2] by (simp add: pow2_def)
  then have "cart_inv ?c"
    using braked_cart_params by (simp add: cart_inv_def) (simp add: braked_cart_def CartControl_init_def zero_f32_def)
  from mode_torque_ramps [OF this, of kStopping 0 999] show ?thesis by (simp add: Let_def zero_f32_def)
qed

section \<open>Runs\<close>

datatype CartEvent =
    Configured CartParameters
  | WheelCommand f32 u64
  | PedalState CartPedals u64
  | BatteryStatus CartBattery u64
  | BusLost
  | Updated u64 f32 bool

fun cart_event :: "CartEvent \<Rightarrow> CartControl \<Rightarrow> CartOutput option \<times> CartControl" where
  "cart_event (Configured p) c = (None, Configure p c)"
| "cart_event (WheelCommand torque now_us) c = (None, OnWheelCommand torque now_us c)"
| "cart_event (PedalState pd now_us) c = (None, OnPedalState pd now_us c)"
| "cart_event (BatteryStatus b now_us) c = (None, OnBatteryStatus b now_us c)"
| "cart_event BusLost c = (None, OnBusLost c)"
| "cart_event (Updated now_us speed engaged) c = (let (out, c') = CartUpdate now_us speed engaged c in (Some out, c'))"

fun cart_run :: "CartEvent list \<Rightarrow> CartControl \<Rightarrow> CartOutput list \<times> CartControl" where
  "cart_run [] c = ([], c)"
| "cart_run (e # es) c =
    (let (out, c') = cart_event e c; (outs, c'') = cart_run es c'
     in ((case out of None \<Rightarrow> outs | Some out \<Rightarrow> out # outs), c''))"

text \<open>The parameters come from validated settings; a received torque is any float.\<close>

fun event_ok :: "CartEvent \<Rightarrow> bool" where
  "event_ok (Configured p) = params_ok p"
| "event_ok (WheelCommand torque _) = f32_ok torque"
| "event_ok _ = True"

lemma cart_inv_frame: "cc_parameters c' = cc_parameters c \<Longrightarrow> cc_torque c' = cc_torque c \<Longrightarrow>
    cc_command_torque c' = cc_command_torque c \<Longrightarrow> cart_inv c' = cart_inv c"
  by (simp add: cart_inv_def)

lemma mode_torque_ok:
  assumes "cart_inv c"
  shows "f32_ok (mode_torque c mode speed (cart_dt now_us c))" "isfinite (mode_torque c mode speed (cart_dt now_us c))"
proof -
  have c: "params_ok (cc_parameters c)" "f32_ok (cc_torque c)" "isfinite (cc_torque c)"
      "f32_ok (cc_command_torque c)" "isfinite (cc_command_torque c)"
    using assms by (simp_all add: cart_inv_def)
  have step: "f32_ok (ramp_step now_us c)" by (simp add: ramp_step_def)
  have "f32_ok (PedalTorque c speed)" by (rule PedalTorque_ok [OF c(1)])
  then show "f32_ok (mode_torque c mode speed (cart_dt now_us c))"
    using c step unfolding ramp_step_def
    by (cases mode) (auto simp: mode_torque_def Let_def zero_f32_def intro!: Clamp_ok)
  show "isfinite (mode_torque c mode speed (cart_dt now_us c))"
    using ramped_torque(1) [OF assms, of mode speed now_us] c(5)
    by (cases mode) (auto simp: mode_torque_def [of c kOff] mode_torque_def [of c kVdc] Let_def zero_f32_def)
qed

lemma mode_torque_clock [simp]:
  "mode_torque (c\<lparr>cc_updated := b, cc_last_update_us := t\<rparr>) mode speed dt = mode_torque c mode speed dt"
  by (cases mode) (simp_all add: mode_torque_def PedalTorque_def Let_def)

lemma cart_event_inv:
  assumes "cart_inv c" "event_ok e"
  shows "cart_inv (snd (cart_event e c)) \<and> (\<forall>out. fst (cart_event e c) = Some out \<longrightarrow> isfinite (co_torque out))"
proof (cases e)
  case (Updated now_us speed engaged)
  let ?c = "c\<lparr>cc_updated := True, cc_last_update_us := now_us\<rparr>"
  have "cart_inv c'" if "cc_parameters c' = cc_parameters c" "cc_torque c' = mode_torque c mode v (cart_dt now_us c)"
    "cc_command_torque c' = cc_command_torque c" for c' mode v
    using that assms(1) mode_torque_ok [OF assms(1)] by (simp add: cart_inv_def)
  moreover have "isfinite (ToCart ?c t) = isfinite t" for t by (simp add: ToCart_def)
  moreover have "isfinite (mode_torque c mode v (cart_dt now_us c))" for mode v
    by (rule mode_torque_ok(2) [OF assms(1)])
  moreover have "cart_inv (Reset c')" if "cc_parameters c' = cc_parameters c" "cc_command_torque c' = cc_command_torque c" for c'
    using that assms(1) by (simp add: cart_inv_def Reset_def zero_f32_def)
  ultimately show ?thesis
    using Updated by (auto simp: CartUpdate_def Let_def CartOutput_init_def zero_f32_def)
qed (use assms in \<open>auto simp: cart_inv_def Configure_def OnWheelCommand_def OnPedalState_def OnBatteryStatus_def OnBusLost_def zero_f32_def\<close>)

text \<open>
  Every torque a cart drive commands is a finite number: after any sequence of wheel commands, pedal states, battery
  states, bus losses, reconfigurations with validated parameters and updates, at any times and speeds and with any NaN or
  infinity received on the bus.
\<close>
theorem cart_outputs_finite:
  assumes "cart_inv c" "\<forall>e \<in> set es. event_ok e"
  shows "cart_inv (snd (cart_run es c)) \<and> (\<forall>out \<in> set (fst (cart_run es c)). isfinite (co_torque out))"
  using assms
proof (induction es arbitrary: c)
  case Nil
  then show ?case by simp
next
  case (Cons e es)
  have e: "cart_inv (snd (cart_event e c))" "\<forall>out. fst (cart_event e c) = Some out \<longrightarrow> isfinite (co_torque out)"
    using cart_event_inv [of c e] Cons.prems by simp_all
  have "cart_inv (snd (cart_run es (snd (cart_event e c))))
      \<and> (\<forall>out \<in> set (fst (cart_run es (snd (cart_event e c)))). isfinite (co_torque out))"
    using Cons.IH [OF e(1)] Cons.prems(2) by simp
  with e(2) show ?case by (auto simp: Let_def split: prod.splits option.splits)
qed

theorem cart_outputs_finite_witness:
  "cart_inv (snd (cart_run [WheelCommand NaN 5, Updated 6 PInf True, BusLost, Updated 999 NaN True] braked_cart))"
proof -
  have "cart_inv braked_cart"
    using braked_cart_params by (simp add: cart_inv_def) (simp add: braked_cart_def CartControl_init_def zero_f32_def)
  then show ?thesis
    using cart_outputs_finite [of braked_cart "[WheelCommand NaN 5, Updated 6 PInf True, BusLost, Updated 999 NaN True]"] by simp
qed

section \<open>Battery limits\<close>

text \<open>
  The battery limits that a cart drive hands to the outer loop are never NaN, infinite or negative; each is at most the limit of the BMS.
  They are valid only with a fresh battery status of finite limits, and zero while the contactor is open or precharging.
\<close>
theorem Battery_limits:
  fixes c now_us
  assumes "params_ok (cc_parameters c)" "f32_ok (cb_discharge_limit (cc_battery c))" "f32_ok (cb_charge_limit (cc_battery c))"
  defines "l \<equiv> Battery now_us c" and "fresh \<equiv> Fresh c (cc_has_battery c) (cc_battery_us c) now_us"
    and "d \<equiv> cb_discharge_limit (cc_battery c)" and "g \<equiv> cb_charge_limit (cc_battery c)"
  shows "isfinite (bl_drive_current l) \<and> isfinite (bl_charge_current l)
    \<and> 0 \<le> val (bl_drive_current l) \<and> 0 \<le> val (bl_charge_current l)
    \<and> (bl_valid l \<longleftrightarrow> fresh \<and> isfinite d \<and> isfinite g)
    \<and> (bl_valid l \<longrightarrow> val (bl_drive_current l) \<le> max 0 (val d) \<and> val (bl_charge_current l) \<le> max 0 (val g))
    \<and> (cb_contactor (cc_battery c) \<in> {kContactorOpen, kContactorPrecharge} \<longrightarrow> bl_drive_current l = 0 \<and> bl_charge_current l = 0)"
proof -
  let ?share = "cp_battery_share (cc_parameters c)"
  have sh: "isfinite ?share" "0 \<le> val ?share" "\<bar>val ?share\<bar> \<le> 1" using assms(1) by (auto simp: params_ok_def)
  have m: "isfinite (Max x 0 * ?share) \<and> 0 \<le> val (Max x 0 * ?share) \<and> val (Max x 0 * ?share) \<le> max 0 (val x)"
    if "f32_ok x" "isfinite x" for x
  proof -
    have x: "f32_ok (Max x 0)" "isfinite (Max x 0)" "val (Max x 0) = max 0 (val x)"
      using that Max_finite [of x 0] by (auto simp: Max_def zero_f32_def)
    have "isfinite (Max x 0 * ?share)" "\<bar>val (Max x 0 * ?share)\<bar> \<le> \<bar>val (Max x 0)\<bar>"
      using mul_f32_shrinks [OF x(1,2) sh(1,3)] by simp_all
    moreover have "0 \<le> val (Max x 0 * ?share)"
      using calculation(1) x sh by (intro val_mult_sign) simp_all
    ultimately show ?thesis using x(3) by simp
  qed
  have z: "isfinite (0 :: f32)" "val 0 = 0" by (simp_all add: zero_f32_def)
  show ?thesis
    using m [OF assms(2)] m [OF assms(3)] z unfolding l_def fresh_def d_def g_def
    by (cases "cb_contactor (cc_battery c)") (auto simp: Battery_def Let_def BatteryLimits_init_def)
qed

theorem Battery_limits_witness:
  "let c = OnBatteryStatus \<lparr>cb_discharge_limit = NInf, cb_charge_limit = Fin 1, cb_contactor = kContactorClosed\<rparr> 5 braked_cart
   in \<not> bl_valid (Battery 6 c)"
proof -
  let ?c = "OnBatteryStatus \<lparr>cb_discharge_limit = NInf, cb_charge_limit = Fin 1, cb_contactor = kContactorClosed\<rparr> 5 braked_cart"
  have "representable 1" using representable_pow2 [of 0] by simp
  then show ?thesis
    using Battery_limits [of ?c 6] braked_cart_params by (simp add: OnBatteryStatus_def Let_def)
qed

end
