(* ===== verification/Kunteng.thy ===== *)
theory Kunteng
  imports Units "HOL-Library.Monad_Syntax"
begin

text \<open>
  The serial protocol of the e-bike display (\<open>src/lib/ebike/src/kunteng_protocol.hpp\<close>): the status frame to the display, the
  request frame from it, and the decoder that finds request frames in a byte stream and learns the checksum constant.
\<close>

unbundle bit_operations_syntax

section \<open>Data\<close>

definition kControllerFrameSize :: nat where
  "kControllerFrameSize = 12"

definition kDisplayFrameSize :: nat where
  "kDisplayFrameSize = 13"

datatype BatteryLevel = kBelowEmpty | kEmpty | kOneBar | kTwoBars | kThreeBars | kFourBars

fun battery_code :: "BatteryLevel \<Rightarrow> u8" where
  "battery_code kBelowEmpty = 1"
| "battery_code kEmpty = 3"
| "battery_code kOneBar = 4"
| "battery_code kTwoBars = 8"
| "battery_code kThreeBars = 12"
| "battery_code kFourBars = 16"

record ControllerStatus =
  cs_battery_level :: BatteryLevel
  cs_nominal_voltage :: u8
  cs_wheel_period :: f32
  cs_error_code :: u8
  cs_throttle :: bool
  cs_cruise :: bool
  cs_pas :: bool
  cs_brake :: bool
  cs_battery_current :: f32
  cs_motor_temperature :: f32

record DisplayRequest =
  dr_assist_level :: u8
  dr_light :: bool
  dr_wheel_size_code :: u8
  dr_max_speed :: u8
  dr_motor_characteristic :: u8
  dr_power_assist_mode :: bool
  dr_max_current_code :: u8
  dr_raw :: "u8 list"

definition kControllerStart :: u8 where "kControllerStart = 65"
definition kDisplayEnd :: u8 where "kDisplayEnd = 0x0E"
definition kDisplayEndMarkerA :: u8 where "kDisplayEndMarkerA = 0x32"
definition kDisplayEndMarkerB :: u8 where "kDisplayEndMarkerB = 0x37"
definition kDisplayChecksumIndex :: nat where "kDisplayChecksumIndex = 5"
definition kDefaultChecksumSeed :: u8 where "kDefaultChecksumSeed = 10"
definition kMaxChecksumSeed :: u8 where "kMaxChecksumSeed = 50"
definition kCurrentCountsPerAmp :: f32 where "kCurrentCountsPerAmp = f32_of 4"
definition kTemperatureOffset :: f32 where "kTemperatureOffset = f32_of 15"
definition kThrottleBit :: u8 where "kThrottleBit = push_bit 1 1"
definition kCruiseBit :: u8 where "kCruiseBit = push_bit 3 1"
definition kPasBit :: u8 where "kPasBit = push_bit 4 1"
definition kBrakeBit :: u8 where "kBrakeBit = push_bit 5 1"

lemmas kunteng_constants = kControllerFrameSize_def kDisplayFrameSize_def kControllerStart_def kDisplayEnd_def
  kDisplayEndMarkerA_def kDisplayEndMarkerB_def kDisplayChecksumIndex_def kDefaultChecksumSeed_def kMaxChecksumSeed_def
  kThrottleBit_def kCruiseBit_def kPasBit_def kBrakeBit_def

section \<open>Frames\<close>

definition XorExcept :: "u8 list \<Rightarrow> nat \<Rightarrow> u8" where
  "XorExcept frame skipped =
    foldl (\<lambda>sum i. if i \<noteq> skipped then sum XOR frame ! i else sum) 0 [0..<length frame]"

text \<open>\<open>std::clamp\<close> of floats, and the cast of the clamped value; the cast of a NaN is undefined.\<close>

definition std_clamp :: "f32 \<Rightarrow> f32 \<Rightarrow> f32 \<Rightarrow> f32" where
  "std_clamp v lo hi = (if v < lo then lo else if hi < v then hi else v)"

definition ClampByte :: "f32 \<Rightarrow> u8 option" where
  "ClampByte v = map_option word_of_int (f32_cast 0 255 (std_clamp (v + f32_of (1/2)) 0 (f32_of 255)))"

definition mode_bits :: "ControllerStatus \<Rightarrow> u8" where
  "mode_bits status = (let mode = 0;
     mode = mode OR (if cs_throttle status then kThrottleBit else 0);
     mode = mode OR (if cs_cruise status then kCruiseBit else 0);
     mode = mode OR (if cs_pas status then kPasBit else 0)
   in mode OR (if cs_brake status then kBrakeBit else 0))"

definition EncodeControllerFrame :: "ControllerStatus \<Rightarrow> u8 list option" where
  "EncodeControllerFrame status = do {
    let period_ms = from_kilo (cs_wheel_period status / f32_of 1);
    period \<leftarrow> f32_cast 0 65535 (std_clamp period_ms 0 (f32_of 65535));
    current \<leftarrow> ClampByte ((cs_battery_current status / f32_of 1) * kCurrentCountsPerAmp);
    temperature \<leftarrow> ClampByte ((cs_motor_temperature status - kTemperatureOffset) / f32_of 1);
    let frame = replicate kControllerFrameSize 0;
    let frame = frame[0 := kControllerStart, 1 := battery_code (cs_battery_level status), 2 := cs_nominal_voltage status,
      3 := word_of_int (drop_bit 8 period), 4 := word_of_int (period AND 0xFF), 5 := cs_error_code status,
      7 := mode_bits status, 8 := current, 9 := temperature];
    Some (frame[6 := XorExcept frame 0])
  }"

definition std_clamp_u8 :: "u8 \<Rightarrow> u8 \<Rightarrow> u8 \<Rightarrow> u8" where
  "std_clamp_u8 v lo hi = (if v < lo then lo else if hi < v then hi else v)"

definition EncodeDisplayRequest :: "DisplayRequest \<Rightarrow> u8 \<Rightarrow> u8 list" where
  "EncodeDisplayRequest request checksum_seed =
    (let frame = dr_raw request;
         speed = std_clamp_u8 (dr_max_speed request) 10 63;
         speed_bit = (speed > 41);
         speed_field = (if speed_bit then speed AND 0x1F else speed) - 10;
         frame = frame[1 := (dr_assist_level request AND 7) OR (if dr_light request then 0x80 else 0)];
         frame = frame[2 := (drop_bit 2 (dr_wheel_size_code request) AND 7) OR push_bit 3 speed_field];
         frame = frame[3 := dr_motor_characteristic request];
         frame = frame[4 := (frame ! 4 AND 0x17) OR push_bit 6 (dr_wheel_size_code request AND 3) OR
           (if speed_bit then 0x20 else 0) OR (if dr_power_assist_mode request then 0x08 else 0)];
         frame = frame[7 := (frame ! 7 AND 0xF0) OR (dr_max_current_code request AND 0x0F)];
         frame = frame[11 := kDisplayEndMarkerB];
         frame = frame[12 := kDisplayEnd]
     in frame[kDisplayChecksumIndex := XorExcept frame kDisplayChecksumIndex XOR checksum_seed])"

section \<open>The decoder\<close>

record DisplayDecoder =
  dd_window :: "u8 list"
  dd_count :: nat
  dd_seed :: u8
  dd_candidate :: u8
  dd_candidate_count :: nat

definition DisplayDecoder_init :: DisplayDecoder where
  "DisplayDecoder_init = \<lparr>dd_window = replicate kDisplayFrameSize 0, dd_count = 0, dd_seed = kDefaultChecksumSeed,
     dd_candidate = 0, dd_candidate_count = 0\<rparr>"

definition kSeedFrames :: nat where "kSeedFrames = 2"

definition HasEndMarker :: "DisplayDecoder \<Rightarrow> bool" where
  "HasEndMarker d = (let marker = dd_window d ! (length (dd_window d) - 2)
     in (marker = kDisplayEndMarkerA \<or> marker = kDisplayEndMarkerB) \<and> last (dd_window d) = kDisplayEnd)"

definition LearnSeed :: "u8 \<Rightarrow> DisplayDecoder \<Rightarrow> DisplayDecoder" where
  "LearnSeed seed d = (if seed > kMaxChecksumSeed then d\<lparr>dd_candidate_count := 0\<rparr>
    else (let d = (if seed = dd_candidate d \<and> dd_candidate_count d > 0
                   then d\<lparr>dd_candidate_count := dd_candidate_count d + 1\<rparr>
                   else d\<lparr>dd_candidate := seed, dd_candidate_count := 1\<rparr>)
          in if dd_candidate_count d \<ge> kSeedFrames then d\<lparr>dd_seed := seed, dd_candidate_count := 0\<rparr> else d))"

definition Decode :: "u8 list \<Rightarrow> DisplayRequest" where
  "Decode frame = \<lparr>dr_assist_level = frame ! 1 AND 7,
     dr_light = (frame ! 1 AND 0x80 \<noteq> 0),
     dr_wheel_size_code = drop_bit 6 (frame ! 4 AND 0xC0) OR push_bit 2 (frame ! 2 AND 7),
     dr_max_speed = (10 + drop_bit 3 (frame ! 2 AND 0xF8)) OR (frame ! 4 AND 0x20),
     dr_motor_characteristic = frame ! 3,
     dr_power_assist_mode = (frame ! 4 AND 0x08 \<noteq> 0),
     dr_max_current_code = frame ! 7 AND 0x0F,
     dr_raw = frame\<rparr>"

definition frame_seed :: "u8 list \<Rightarrow> u8" where
  "frame_seed window = XorExcept window kDisplayChecksumIndex XOR window ! kDisplayChecksumIndex"

definition DecoderPush :: "u8 \<Rightarrow> DisplayDecoder \<Rightarrow> DisplayRequest option \<times> DisplayDecoder" where
  "DecoderPush byte d =
    (let d = d\<lparr>dd_window := tl (dd_window d) @ [byte]\<rparr>;
         d = d\<lparr>dd_count := min (dd_count d + 1) (length (dd_window d))\<rparr>
     in if dd_count d < length (dd_window d) \<or> \<not> HasEndMarker d then (None, d)
        else (let seed = frame_seed (dd_window d);
                  d = (if seed \<noteq> dd_seed d then LearnSeed seed d else d)
              in if seed \<noteq> dd_seed d then (None, d)
                 else (Some (Decode (dd_window d)), d\<lparr>dd_candidate_count := 0, dd_count := 0\<rparr>)))"

section \<open>Fields of the request\<close>

lemma u8_eq_bits:
  "x = y \<longleftrightarrow> (bit x 0 \<longleftrightarrow> bit y 0) \<and> (bit x 1 \<longleftrightarrow> bit y 1) \<and> (bit x 2 \<longleftrightarrow> bit y 2) \<and> (bit x 3 \<longleftrightarrow> bit y 3)
    \<and> (bit x 4 \<longleftrightarrow> bit y 4) \<and> (bit x 5 \<longleftrightarrow> bit y 5) \<and> (bit x 6 \<longleftrightarrow> bit y 6) \<and> (bit x 7 \<longleftrightarrow> bit (y :: u8) 7)"
proof
  assume bits: "(bit x 0 \<longleftrightarrow> bit y 0) \<and> (bit x 1 \<longleftrightarrow> bit y 1) \<and> (bit x 2 \<longleftrightarrow> bit y 2) \<and> (bit x 3 \<longleftrightarrow> bit y 3)
    \<and> (bit x 4 \<longleftrightarrow> bit y 4) \<and> (bit x 5 \<longleftrightarrow> bit y 5) \<and> (bit x 6 \<longleftrightarrow> bit y 6) \<and> (bit x 7 \<longleftrightarrow> bit y 7)"
  show "x = y"
  proof (rule bit_word_eqI)
    fix n assume "n < LENGTH(8)"
    then have "n = 0 \<or> n = 1 \<or> n = 2 \<or> n = 3 \<or> n = 4 \<or> n = 5 \<or> n = 6 \<or> n = 7" unfolding len_of_numeral_defs by simp linarith
    with bits show "bit x n \<longleftrightarrow> bit y n" by blast
  qed
qed simp

lemma byte_bits:
  fixes x y :: u8
  shows "((x AND 7) OR (if b then 0x80 else 0)) AND 7 = x AND 7"
    "(((x AND 7) OR (if b then 0x80 else 0)) AND 0x80 \<noteq> 0) = b"
    "((y AND 0xF0) OR (x AND 0x0F)) AND 0x0F = x AND 0x0F"
    "drop_bit 3 (((drop_bit 2 x AND 7) OR push_bit 3 y) AND 0xF8) = y AND 0x1F"
  by (simp_all add: u8_eq_bits bit_simps)

lemma byte_4_bits:
  fixes x y z :: u8 and s p :: bool
  defines "f \<equiv> (x AND 0x17) OR push_bit 6 (y AND 3) OR (if s then 0x20 else 0) OR (if p then 0x08 else 0)"
  shows "drop_bit 6 (f AND 0xC0) OR push_bit 2 (((drop_bit 2 y AND 7) OR push_bit 3 z) AND 7) = y AND 0x1F"
    "f AND 0x20 = (if s then 0x20 else 0)" "(f AND 0x08 \<noteq> 0) = p"
  unfolding f_def by (simp_all add: u8_eq_bits bit_simps)

definition speed_field_of :: "u8 \<Rightarrow> u8" where
  "speed_field_of s = (if s > 41 then s AND 0x1F else s) - 10"

lemma speed_bits_all: "list_all (\<lambda>s. (10 + (speed_field_of s AND 0x1F)) OR (if s > 41 then 0x20 else 0) = s) (map word_of_nat [10..<64])"
  by (simp add: speed_field_of_def upt_rec_numeral)

lemma speed_bits: "(10 + (speed_field_of (std_clamp_u8 v 10 63) AND 0x1F)) OR (if std_clamp_u8 v 10 63 > 41 then 0x20 else 0)
    = std_clamp_u8 v 10 63"
proof -
  define s where "s = std_clamp_u8 v 10 63"
  have "10 \<le> s" "s \<le> 63" by (auto simp: s_def std_clamp_u8_def)
  then have "unat s \<in> {10..<64}" by (simp add: word_le_nat_alt)
  then have "s \<in> set (map word_of_nat [10..<64])" unfolding set_map set_upt by (intro image_eqI [of _ _ "unat s"]) simp_all
  then show ?thesis using speed_bits_all unfolding s_def [symmetric] list_all_iff by blast
qed

text \<open>What a request frame can carry of a request: the fields as the display limits them.\<close>

definition carried :: "DisplayRequest \<Rightarrow> u8 list \<Rightarrow> DisplayRequest" where
  "carried r frame = \<lparr>dr_assist_level = dr_assist_level r AND 7, dr_light = dr_light r,
     dr_wheel_size_code = dr_wheel_size_code r AND 0x1F, dr_max_speed = std_clamp_u8 (dr_max_speed r) 10 63,
     dr_motor_characteristic = dr_motor_characteristic r, dr_power_assist_mode = dr_power_assist_mode r,
     dr_max_current_code = dr_max_current_code r AND 0x0F, dr_raw = frame\<rparr>"

lemma EncodeDisplayRequest_nth:
  assumes "length (dr_raw r) = 13"
  shows "EncodeDisplayRequest r seed ! 1 = (dr_assist_level r AND 7) OR (if dr_light r then 0x80 else 0)"
    "EncodeDisplayRequest r seed ! 2 = (drop_bit 2 (dr_wheel_size_code r) AND 7) OR push_bit 3 (speed_field_of (std_clamp_u8 (dr_max_speed r) 10 63))"
    "EncodeDisplayRequest r seed ! 3 = dr_motor_characteristic r"
    "EncodeDisplayRequest r seed ! 4 = (dr_raw r ! 4 AND 0x17) OR push_bit 6 (dr_wheel_size_code r AND 3)
      OR (if std_clamp_u8 (dr_max_speed r) 10 63 > 41 then 0x20 else 0) OR (if dr_power_assist_mode r then 0x08 else 0)"
    "EncodeDisplayRequest r seed ! 7 = (dr_raw r ! 7 AND 0xF0) OR (dr_max_current_code r AND 0x0F)"
    "EncodeDisplayRequest r seed ! 11 = kDisplayEndMarkerB" "EncodeDisplayRequest r seed ! 12 = kDisplayEnd"
    "length (EncodeDisplayRequest r seed) = 13"
  using assms unfolding EncodeDisplayRequest_def Let_def speed_field_of_def kDisplayChecksumIndex_def
  by (simp_all add: nth_list_update)

lemma Decode_Encode_request: "length (dr_raw r) = 13 \<Longrightarrow> Decode (EncodeDisplayRequest r seed) = carried r (EncodeDisplayRequest r seed)"
  unfolding Decode_def carried_def by (simp only: EncodeDisplayRequest_nth byte_bits byte_4_bits speed_bits)

text \<open>
  A request survives the encoding and the decoding: for every raw frame it is built on and every checksum constant the decoded
  fields are those of the request, limited to their width in the frame (the speed to 10 to 63 km/h).
\<close>
theorem Decode_EncodeDisplayRequest:
  assumes "length (dr_raw r) = kDisplayFrameSize"
  shows "Decode (EncodeDisplayRequest r seed) = carried r (EncodeDisplayRequest r seed)"
  using assms by (intro Decode_Encode_request) (simp add: kDisplayFrameSize_def)

theorem Decode_EncodeDisplayRequest_witness:
  "let r = (Decode (replicate 13 0xFF))\<lparr>dr_max_speed := 45\<rparr>
   in dr_max_speed (Decode (EncodeDisplayRequest r 10)) = 45 \<and> dr_wheel_size_code (Decode (EncodeDisplayRequest r 10)) = 31"
proof -
  let ?r = "(Decode (replicate 13 0xFF))\<lparr>dr_max_speed := 45\<rparr>"
  have "length (dr_raw ?r) = kDisplayFrameSize" by (simp add: Decode_def kDisplayFrameSize_def)
  then show ?thesis
    using Decode_EncodeDisplayRequest [of ?r 10] by (simp add: carried_def std_clamp_u8_def Let_def) (simp add: Decode_def)
qed

section \<open>Checksums\<close>

lemma XorExcept_update: "XorExcept (frame[k := x]) k = XorExcept frame k"
  unfolding XorExcept_def length_list_update by (rule foldl_cong) auto

lemma EncodeDisplayRequest_seed:
  assumes "length (dr_raw r) = kDisplayFrameSize"
  shows "frame_seed (EncodeDisplayRequest r seed) = seed"
proof -
  have "frame_seed (f[kDisplayChecksumIndex := XorExcept f kDisplayChecksumIndex XOR seed]) = seed" if "length f = 13" for f
    using that by (simp add: frame_seed_def XorExcept_update kDisplayChecksumIndex_def xor.assoc [symmetric])
  then show ?thesis using assms by (simp add: EncodeDisplayRequest_def Let_def kDisplayFrameSize_def)
qed

section \<open>Streams\<close>

fun decode_stream :: "u8 list \<Rightarrow> DisplayDecoder \<Rightarrow> DisplayRequest list \<times> DisplayDecoder" where
  "decode_stream [] d = ([], d)"
| "decode_stream (b # bs) d =
    (let (r, d') = DecoderPush b d; (rs, d'') = decode_stream bs d' in ((case r of None \<Rightarrow> rs | Some r \<Rightarrow> r # rs), d''))"

lemma decode_stream_append: "decode_stream (xs @ ys) d =
   (let (rs, d') = decode_stream xs d; (rs', d'') = decode_stream ys d' in (rs @ rs', d''))"
  by (induction xs arbitrary: d) (auto simp: Let_def split: prod.splits option.splits)

lemma decode_partial:
  assumes "length (dd_window d) = 13" "dd_count d + length xs \<le> 12"
  shows "decode_stream xs d =
    ([], d\<lparr>dd_window := drop (length xs) (dd_window d @ xs), dd_count := dd_count d + length xs\<rparr>)"
  using assms
proof (induction xs arbitrary: d)
  case Nil
  then show ?case by simp
next
  case (Cons x xs)
  let ?d = "d\<lparr>dd_window := tl (dd_window d) @ [x], dd_count := dd_count d + 1\<rparr>"
  have "DecoderPush x d = (None, ?d)" using Cons.prems by (simp add: DecoderPush_def Let_def)
  moreover have "dd_window d \<noteq> []" using Cons.prems(1) by auto
  ultimately show ?case
    using Cons.IH [of ?d] Cons.prems by (simp add: drop_Suc)
qed

lemma DecoderPush_complete:
  assumes "length (dd_window d) = 13" "dd_count d = 12" "frame = tl (dd_window d) @ [b]"
    "frame_seed frame = dd_seed d" "frame ! 11 = kDisplayEndMarkerB" "b = kDisplayEnd"
  shows "DecoderPush b d = (Some (Decode frame), d\<lparr>dd_window := frame, dd_count := 0, dd_candidate_count := 0\<rparr>)"
  using assms by (simp add: DecoderPush_def HasEndMarker_def Let_def)

lemma decode_frame:
  assumes "length (dd_window d) = 13" "dd_count d = 0" "length frame = 13"
    "frame_seed frame = dd_seed d" "frame ! 11 = kDisplayEndMarkerB" "frame ! 12 = kDisplayEnd"
  shows "decode_stream frame d = ([Decode frame], d\<lparr>dd_window := frame, dd_count := 0, dd_candidate_count := 0\<rparr>)"
proof -
  have f: "frame = butlast frame @ [frame ! 12]"
  proof -
    have "frame \<noteq> []" using assms(3) by auto
    then show ?thesis using append_butlast_last_id [of frame] last_conv_nth [of frame] assms(3) by simp
  qed
  define e where "e = d\<lparr>dd_window := drop 12 (dd_window d @ butlast frame), dd_count := 12\<rparr>"
  have 1: "decode_stream (butlast frame) d = ([], e)"
    using decode_partial [of d "butlast frame"] assms(1-3) by (simp add: e_def)
  have "tl (drop 12 (dd_window d)) = []"
    using assms(1) unfolding length_0_conv [symmetric] length_tl length_drop by simp
  then have "tl (dd_window e) @ [frame ! 12] = frame" using f assms(1,3) by (simp add: e_def)
  then have 2: "DecoderPush (frame ! 12) e = (Some (Decode frame), d\<lparr>dd_window := frame, dd_count := 0, dd_candidate_count := 0\<rparr>)"
    using DecoderPush_complete [of e frame "frame ! 12"] assms by (simp add: e_def)
  show ?thesis by (subst f, subst decode_stream_append) (simp add: 1 2)
qed

text \<open>
  A decoder that starts between two frames decodes a stream of request frames completely: any sequence of requests, encoded with
  the decoder's checksum constant, comes out as exactly these requests in order, none lost, none invented in the
  middle of a frame, and the decoder is between two frames again.
\<close>
theorem decode_stream_roundtrip:
  assumes "length (dd_window d) = 13" "dd_count d = 0" "\<forall>r \<in> set rs. length (dr_raw r) = kDisplayFrameSize"
  defines "encode \<equiv> \<lambda>r. EncodeDisplayRequest r (dd_seed d)"
  shows "fst (decode_stream (concat (map encode rs)) d) = map (\<lambda>r. carried r (encode r)) rs
    \<and> dd_count (snd (decode_stream (concat (map encode rs)) d)) = 0"
  using assms(1-3) unfolding encode_def
proof (induction rs arbitrary: d)
  case Nil
  then show ?case by simp
next
  case (Cons r rs)
  let ?f = "EncodeDisplayRequest r (dd_seed d)"
  let ?d = "d\<lparr>dd_window := ?f, dd_count := 0, dd_candidate_count := 0\<rparr>"
  have r: "length (dr_raw r) = kDisplayFrameSize" "length (dr_raw r) = 13" using Cons.prems(3) by (simp_all add: kDisplayFrameSize_def)
  note nth = EncodeDisplayRequest_nth [OF r(2)]
  have 1: "decode_stream ?f d = ([carried r ?f], ?d)"
    using decode_frame [OF Cons.prems(1,2) nth(8) EncodeDisplayRequest_seed [OF r(1)] nth(6,7)]
      Decode_Encode_request [OF r(2)] by simp
  then show ?case
    using Cons.IH [of ?d] Cons.prems(3) nth(8) by (simp add: decode_stream_append case_prod_beta Let_def)
qed

theorem decode_stream_roundtrip_witness:
  "map dr_max_speed (fst (decode_stream (concat (map (\<lambda>r. EncodeDisplayRequest r 10)
      [Decode (replicate 13 0x55), (Decode (replicate 13 0))\<lparr>dr_max_speed := 25\<rparr>])) DisplayDecoder_init)) = [20, 25]"
proof -
  let ?rs = "[Decode (replicate 13 0x55), (Decode (replicate 13 0))\<lparr>dr_max_speed := 25\<rparr>]"
  have "length (dd_window DisplayDecoder_init) = 13" "dd_count DisplayDecoder_init = 0" "dd_seed DisplayDecoder_init = 10"
    "\<forall>r \<in> set ?rs. length (dr_raw r) = kDisplayFrameSize"
    by (simp_all add: DisplayDecoder_init_def kunteng_constants Decode_def)
  from decode_stream_roundtrip [OF this(1,2,4)] this(3) show ?thesis
    by (simp add: carried_def std_clamp_u8_def) (simp add: Decode_def)
qed

section \<open>The checksum constant\<close>

text \<open>
  The decoder accepts a frame only after 13 bytes since the last one, with both end bytes and with the checksum of
  the constant in use, and the request it reports is the decoding of these 13 bytes.
\<close>
theorem DecoderPush_sound:
  assumes "length (dd_window d) = 13" "DecoderPush b d = (Some r, d')"
  defines "frame \<equiv> tl (dd_window d) @ [b]"
  shows "r = Decode frame \<and> frame_seed frame = dd_seed d' \<and> frame ! 11 \<in> {kDisplayEndMarkerA, kDisplayEndMarkerB} \<and> b = kDisplayEnd
    \<and> 12 \<le> dd_count d \<and> dd_count d' = 0 \<and> dd_candidate_count d' = 0 \<and> dd_window d' = frame"
proof -
  have len: "length frame = 13" using assms(1) by (simp add: frame_def)
  define e where "e = d\<lparr>dd_window := frame, dd_count := min (dd_count d + 1) 13\<rparr>"
  define e' where "e' = (if frame_seed frame \<noteq> dd_seed e then LearnSeed (frame_seed frame) e else e)"
  have push: "DecoderPush b d = (if dd_count e < 13 \<or> \<not> HasEndMarker e then (None, e)
      else if frame_seed frame \<noteq> dd_seed e' then (None, e')
      else (Some (Decode (dd_window e')), e'\<lparr>dd_candidate_count := 0, dd_count := 0\<rparr>))"
    unfolding DecoderPush_def Let_def e'_def e_def frame_def using len by (simp add: frame_def)
  have "\<not> (dd_count e < 13 \<or> \<not> HasEndMarker e)" "frame_seed frame = dd_seed e'"
    "r = Decode (dd_window e')" "d' = e'\<lparr>dd_candidate_count := 0, dd_count := 0\<rparr>"
    using assms(2) unfolding push by (simp_all split: if_splits)
  moreover have "dd_window e' = frame" by (simp add: e'_def LearnSeed_def Let_def e_def)
  moreover have "last frame = b" by (simp add: frame_def)
  ultimately show ?thesis using len by (auto simp: HasEndMarker_def Let_def e_def min_def split: if_splits)
qed

theorem DecoderPush_sound_witness:
  "let f = EncodeDisplayRequest (Decode (replicate 13 0)) 10; d = DisplayDecoder_init\<lparr>dd_window := 0 # butlast f, dd_count := 12\<rparr> in
   \<exists>r d'. DecoderPush (last f) d = (Some r, d') \<and> r = Decode f \<and> frame_seed f = dd_seed d'"
proof -
  define f where "f = EncodeDisplayRequest (Decode (replicate 13 0)) 10"
  define d where "d = DisplayDecoder_init\<lparr>dd_window := 0 # butlast f, dd_count := 12\<rparr>"
  have "length (dd_window d) = 13" "fst (DecoderPush (last f) d) \<noteq> None" "tl (dd_window d) @ [last f] = f"
    unfolding d_def f_def by code_simp+
  moreover then obtain r d' where "DecoderPush (last f) d = (Some r, d')" by (cases "DecoderPush (last f) d") auto
  ultimately show ?thesis using DecoderPush_sound [of d "last f" r d'] by (auto simp: Let_def f_def d_def)
qed

text \<open>The pushes that complete a window with the end bytes and another constant than the one in use.\<close>

definition disagrees :: "u8 \<Rightarrow> DisplayDecoder \<Rightarrow> bool" where
  "disagrees b d = (let w = tl (dd_window d) @ [b] in length w \<le> dd_count d + 1 \<and>
     HasEndMarker (d\<lparr>dd_window := w\<rparr>) \<and> frame_seed w \<noteq> dd_seed d)"

fun disagreements :: "u8 list \<Rightarrow> DisplayDecoder \<Rightarrow> nat" where
  "disagreements [] d = 0"
| "disagreements (b # bs) d = (if disagrees b d then 1 else 0) + disagreements bs (snd (DecoderPush b d))"

lemma DecoderPush_agrees:
  assumes "\<not> disagrees b d"
  shows "dd_seed (snd (DecoderPush b d)) = dd_seed d"
    "dd_candidate_count (snd (DecoderPush b d)) \<in> {dd_candidate_count d, 0}"
  using assms by (auto simp: disagrees_def DecoderPush_def Let_def HasEndMarker_def)

lemma DecoderPush_disagrees:
  assumes "dd_candidate_count d = 0"
  shows "dd_seed (snd (DecoderPush b d)) = dd_seed d"
  using assms by (auto simp: DecoderPush_def Let_def LearnSeed_def kSeedFrames_def)

text \<open>
  One corrupt frame cannot change the checksum constant: while no candidate is pending (after every accepted frame), any
  stretch of bytes in which at most one complete window with end bytes shows another constant leaves the constant as it is.
\<close>
theorem one_frame_keeps_seed:
  assumes "dd_candidate_count d = 0" "disagreements bs d \<le> 1"
  shows "dd_seed (snd (decode_stream bs d)) = dd_seed d"
proof -
  have none: "dd_seed (snd (decode_stream bs d)) = dd_seed d" if "disagreements bs d = 0" for bs d
    using that
  proof (induction bs arbitrary: d)
    case (Cons b bs)
    then show ?case using DecoderPush_agrees(1) [of b d] by (simp add: case_prod_beta Let_def split: if_splits)
  qed simp
  show ?thesis using assms
  proof (induction bs arbitrary: d)
    case (Cons b bs)
    show ?case
    proof (cases "disagrees b d")
      case True
      then have "disagreements bs (snd (DecoderPush b d)) = 0" using Cons.prems(2) by simp
      from none [OF this] show ?thesis using DecoderPush_disagrees [OF Cons.prems(1)] by (simp add: case_prod_beta Let_def)
    next
      case False
      then show ?thesis
        using Cons.IH [of "snd (DecoderPush b d)"] DecoderPush_agrees [OF False] Cons.prems by (simp add: case_prod_beta Let_def)
    qed
  qed simp
qed

theorem one_frame_keeps_seed_witness:
  "dd_seed (snd (decode_stream (EncodeDisplayRequest (Decode (replicate 13 0)) 20) DisplayDecoder_init)) = 10"
proof -
  let ?f = "EncodeDisplayRequest (Decode (replicate 13 0)) 20"
  have "disagreements ?f DisplayDecoder_init \<le> 1" by code_simp
  from one_frame_keeps_seed [OF _ this] show ?thesis by (simp add: DisplayDecoder_init_def kunteng_constants)
qed

section \<open>The status frame\<close>

lemma times_not_nan: "x \<noteq> NaN \<Longrightarrow> isfinite c \<Longrightarrow> val c \<noteq> 0 \<Longrightarrow> x * c \<noteq> NaN"
  and divide_not_nan: "x \<noteq> NaN \<Longrightarrow> isfinite c \<Longrightarrow> val c \<noteq> 0 \<Longrightarrow> x / c \<noteq> NaN"
  and plus_not_nan: "x \<noteq> NaN \<Longrightarrow> isfinite c \<Longrightarrow> x + c \<noteq> NaN"
  by (cases x; cases c; simp add: times_f32_def divide_f32_def plus_f32_def Let_def f32_round_def inf_of_def zero_of_def)+

lemma std_clamp_cast:
  assumes "v \<noteq> NaN" "isfinite hi" "val hi = of_nat n"
  obtains k where "f32_cast 0 (int n) (std_clamp v 0 hi) = Some k" "0 \<le> k" "k \<le> int n"
proof -
  have c: "isfinite (std_clamp v 0 hi)" "0 \<le> val (std_clamp v 0 hi)" "val (std_clamp v 0 hi) \<le> of_nat n"
    using assms by (cases v; auto simp: std_clamp_def zero_f32_def less_f32_def)+
  have "rtrunc (val (std_clamp v 0 hi)) = \<lfloor>val (std_clamp v 0 hi)\<rfloor>" using c(2) by (simp add: rtrunc_def)
  moreover have "0 \<le> \<lfloor>val (std_clamp v 0 hi)\<rfloor>" "\<lfloor>val (std_clamp v 0 hi)\<rfloor> \<le> int n"
    using c(2,3) by (simp_all add: floor_le_iff)
  ultimately show thesis using c(1) that by (simp add: f32_cast_def)
qed

lemma foldl_xor: "foldl (\<lambda>sum i. if i \<noteq> j then sum XOR f i else sum) (s :: u8) is
    = s XOR foldl (\<lambda>sum i. if i \<noteq> j then sum XOR f i else sum) 0 is"
proof (induction "is" arbitrary: s)
  case (Cons i "is")
  show ?case
    using Cons [of "s XOR f i"] Cons [of "0 XOR f i"] Cons [of s] by (simp add: xor.assoc)
qed simp

lemma XorExcept_at:
  assumes "k < length frame" "k \<noteq> j"
  shows "XorExcept frame j = XorExcept (frame[k := 0]) j XOR frame ! k"
proof -
  have split: "[0..<length frame] = [0..<k] @ k # [Suc k..<length frame]"
    using assms(1) by (metis add.commute le_add_diff_inverse2 less_imp_le upt_add_eq_append upt_conv_Cons zero_le)
  let ?h = "\<lambda>g sum i. if i \<noteq> j then sum XOR g ! i else sum"
  have cong: "foldl (?h (frame[k := 0])) s is = foldl (?h frame) s is" if "k \<notin> set is" for s "is"
    using that by (intro foldl_cong) (auto, metis nth_list_update_neq)
  let ?A = "foldl (?h frame) 0 [0..<k]" and ?B = "foldl (?h frame) 0 [Suc k..<length frame]"
  have "XorExcept frame j = (?A XOR frame ! k) XOR ?B"
    using assms(2) foldl_xor [of j "\<lambda>i. frame ! i" "?A XOR frame ! k"] unfolding XorExcept_def split by simp
  moreover have "XorExcept (frame[k := 0]) j = ?A XOR ?B"
    using assms foldl_xor [of j "\<lambda>i. frame ! i" "?A"] cong unfolding XorExcept_def length_list_update split by simp
  ultimately show ?thesis by (simp add: ac_simps)
qed

text \<open>
  The status frame can be built for any finite wheel period, battery current and temperature; it has 12 bytes, the start
  byte, and a checksum that makes the xor of all bytes behind the start byte zero.
\<close>
theorem EncodeControllerFrame_checksum:
  assumes "isfinite (cs_wheel_period status)" "isfinite (cs_battery_current status)" "isfinite (cs_motor_temperature status)"
  shows "\<exists>frame. EncodeControllerFrame status = Some frame \<and> length frame = kControllerFrameSize \<and> frame ! 0 = kControllerStart
    \<and> XorExcept frame 0 = 0"
proof -
  have one: "isfinite (f32_of 1)" "val (f32_of 1) \<noteq> 0" and half: "isfinite (f32_of (1/2))"
    and four: "isfinite kCurrentCountsPerAmp" "val kCurrentCountsPerAmp \<noteq> 0" and fifteen: "isfinite (- kTemperatureOffset)"
    and k: "isfinite (f32_of_int 1000)" "val (f32_of_int 1000) \<noteq> 0" "isfinite (f32_of_int 1)" "val (f32_of_int 1) \<noteq> 0"
    by (simp_all add: kCurrentCountsPerAmp_def kTemperatureOffset_def f32_eval)
  have hi: "isfinite (f32_of 65535)" "val (f32_of 65535) = of_nat 65535" "isfinite (f32_of 255)" "val (f32_of 255) = of_nat 255"
    by (simp_all add: f32_eval)
  have num: "cs_wheel_period status \<noteq> NaN" "cs_battery_current status \<noteq> NaN" "cs_motor_temperature status \<noteq> NaN"
    using assms by auto
  have "from_kilo (cs_wheel_period status / f32_of 1) \<noteq> NaN"
    unfolding from_period_def using num(1) one k by (intro divide_not_nan times_not_nan) simp_all
  then obtain period where p: "f32_cast 0 65535 (std_clamp (from_kilo (cs_wheel_period status / f32_of 1)) 0 (f32_of 65535)) = Some period"
    using std_clamp_cast [OF _ hi(1,2)] by (metis of_nat_numeral)
  have byte: "\<exists>b. ClampByte v = Some b" if "v \<noteq> NaN" for v
    using std_clamp_cast [OF plus_not_nan [OF that half] hi(3,4)] unfolding ClampByte_def by (metis of_nat_numeral option.simps(9))
  have "cs_battery_current status / f32_of 1 * kCurrentCountsPerAmp \<noteq> NaN"
    using num(2) one four by (intro divide_not_nan times_not_nan)
  then obtain current where c: "ClampByte (cs_battery_current status / f32_of 1 * kCurrentCountsPerAmp) = Some current" using byte by blast
  have "(cs_motor_temperature status - kTemperatureOffset) / f32_of 1 \<noteq> NaN"
    unfolding minus_f32_def using num(3) one fifteen by (intro divide_not_nan plus_not_nan)
  then obtain temperature where t: "ClampByte ((cs_motor_temperature status - kTemperatureOffset) / f32_of 1) = Some temperature" using byte by blast
  define f where "f = (replicate kControllerFrameSize 0)[0 := kControllerStart, 1 := battery_code (cs_battery_level status),
    2 := cs_nominal_voltage status, 3 := word_of_int (drop_bit 8 period), 4 := word_of_int (period AND 0xFF),
    5 := cs_error_code status, 7 := mode_bits status, 8 := current, 9 := temperature]"
  have "EncodeControllerFrame status = Some (f[6 := XorExcept f 0])"
    by (simp add: EncodeControllerFrame_def p c t f_def Let_def)
  moreover have f: "length f = 12" "f ! 6 = 0" "f ! 0 = kControllerStart" by (simp_all add: f_def kControllerFrameSize_def)
  moreover have "XorExcept (f[6 := XorExcept f 0]) 0 = 0"
    using XorExcept_at [of 6 "f[6 := XorExcept f 0]" 0] XorExcept_at [of 6 f 0] f by simp
  ultimately show ?thesis by (simp add: kControllerFrameSize_def)
qed

definition running_status :: ControllerStatus where
  "running_status = \<lparr>cs_battery_level = kThreeBars, cs_nominal_voltage = 36, cs_wheel_period = Fin (1/4), cs_error_code = 0,
     cs_throttle = False, cs_cruise = False, cs_pas = True, cs_brake = False, cs_battery_current = Fin 5, cs_motor_temperature = Fin 40\<rparr>"

theorem EncodeControllerFrame_checksum_witness: "\<exists>frame. EncodeControllerFrame running_status = Some frame \<and> XorExcept frame 0 = 0"
  using EncodeControllerFrame_checksum [of running_status] by (auto simp: running_status_def)

end
