(* ===== verification/Edge_Uart.thy ===== *)
theory Edge_Uart
  imports Prelude
begin

text \<open>
  The software receiver of a serial line (\<open>src/lib/ebike/src/edge_uart_decoder.hpp\<close>): bytes in 8N1 format, reconstructed from the
  time-stamped edges of the line, and their FIFO. Time is a wrapping 32-bit counter of ticks.
\<close>

unbundle bit_operations_syntax

section \<open>The decoder\<close>

record UartEdge =
  ue_ticks :: u32
  ue_level :: bool

definition kFifoSize :: nat where "kFifoSize = 32"

definition kStopBit :: u32 where "kStopBit = 9"

record EdgeUartDecoder =
  ud_ticks_per_bit :: u32
  ud_level :: bool
  ud_in_frame :: bool
  ud_start_ticks :: u32
  ud_bit :: u32
  ud_data :: u8
  ud_fifo :: "u8 list"
  ud_read :: nat
  ud_count :: nat
  ud_framing_errors :: u32
  ud_overruns :: u32

definition EdgeUartDecoder_init :: "u32 \<Rightarrow> EdgeUartDecoder" where
  "EdgeUartDecoder_init ticks_per_bit = \<lparr>ud_ticks_per_bit = ticks_per_bit, ud_level = True, ud_in_frame = False,
     ud_start_ticks = 0, ud_bit = 0, ud_data = 0, ud_fifo = replicate kFifoSize 0, ud_read = 0, ud_count = 0,
     ud_framing_errors = 0, ud_overruns = 0\<rparr>"

definition Store :: "u8 \<Rightarrow> EdgeUartDecoder \<Rightarrow> EdgeUartDecoder" where
  "Store byte d = (if ud_count d = kFifoSize then d\<lparr>ud_overruns := ud_overruns d + 1\<rparr>
     else d\<lparr>ud_fifo := (ud_fifo d)[(ud_read d + ud_count d) mod kFifoSize := byte], ud_count := ud_count d + 1\<rparr>)"

definition UartPop :: "EdgeUartDecoder \<Rightarrow> u8 option \<times> EdgeUartDecoder" where
  "UartPop d = (if ud_count d = 0 then (None, d)
     else (Some (ud_fifo d ! ud_read d), d\<lparr>ud_read := (ud_read d + 1) mod kFifoSize, ud_count := ud_count d - 1\<rparr>))"

text \<open>The middle of the current bit, and the loop that takes the samples before a time; the \<open>unsigned\<close> arithmetic wraps.\<close>

definition sample_at :: "EdgeUartDecoder \<Rightarrow> u32" where
  "sample_at d = ud_start_ticks d + ((2 * ud_bit d + 1) * ud_ticks_per_bit d) div 2"

text \<open>One turn of the loop for an open frame: the next state, and whether the loop goes on.\<close>

definition sample_bit :: "EdgeUartDecoder \<Rightarrow> bool \<times> EdgeUartDecoder" where
  "sample_bit d =
    (if ud_bit d = 0 then
       (if ud_level d then (False, d\<lparr>ud_in_frame := False\<rparr>) else (True, d\<lparr>ud_bit := ud_bit d + 1\<rparr>))
     else if ud_bit d < kStopBit then
       (True, d\<lparr>ud_data := ud_data d OR push_bit (unat (ud_bit d - 1)) (if ud_level d then 1 else 0), ud_bit := ud_bit d + 1\<rparr>)
     else (let d = d\<lparr>ud_in_frame := False\<rparr>
           in (False, if ud_level d then Store (ud_data d) d else d\<lparr>ud_framing_errors := ud_framing_errors d + 1\<rparr>)))"

function SampleUntil :: "u32 \<Rightarrow> EdgeUartDecoder \<Rightarrow> EdgeUartDecoder" where
  "SampleUntil until d =
    (if \<not> ud_in_frame d then d
     else if sint (until - sample_at d) \<le> 0 then d
     else (let (again, d') = sample_bit d in if again then SampleUntil until d' else d'))"
  by pat_completeness auto
termination
proof (relation "measure (\<lambda>(until, d). 10 - unat (min (ud_bit d) 10))")
  fix until d p again d'
  assume "p = sample_bit d" "(again, d') = p" "again"
  then have "ud_bit d < 9" "ud_bit d' = ud_bit d + 1"
    by (auto simp: sample_bit_def kStopBit_def Let_def split: if_splits)
  moreover have "unat (ud_bit d + 1) = unat (ud_bit d) + 1" using calculation(1) by (simp add: word_less_nat_alt unat_word_ariths)
  ultimately show "((until, d'), (until, d)) \<in> measure (\<lambda>(until, d). 10 - unat (min (ud_bit d) 10))"
    by (auto simp: min_def word_less_nat_alt word_le_nat_alt)
qed simp

declare SampleUntil.simps [simp del]

definition UartPush :: "UartEdge \<Rightarrow> EdgeUartDecoder \<Rightarrow> EdgeUartDecoder" where
  "UartPush edge d =
    (let d = SampleUntil (ue_ticks edge) d;
         d = (if \<not> ud_in_frame d \<and> ud_level d \<and> \<not> ue_level edge
              then d\<lparr>ud_in_frame := True, ud_start_ticks := ue_ticks edge, ud_bit := 0, ud_data := 0\<rparr> else d)
     in d\<lparr>ud_level := ue_level edge\<rparr>)"

definition Poll :: "u32 \<Rightarrow> EdgeUartDecoder \<Rightarrow> EdgeUartDecoder" where
  "Poll now d = SampleUntil now d"

definition FramingErrors :: "EdgeUartDecoder \<Rightarrow> u32" where "FramingErrors d = ud_framing_errors d"

definition UartOverruns :: "EdgeUartDecoder \<Rightarrow> u32" where "UartOverruns d = ud_overruns d"

section \<open>The FIFO\<close>

definition fifo_invar :: "EdgeUartDecoder \<Rightarrow> bool" where
  "fifo_invar d \<longleftrightarrow> length (ud_fifo d) = kFifoSize \<and> ud_read d < kFifoSize \<and> ud_count d \<le> kFifoSize"

definition received :: "EdgeUartDecoder \<Rightarrow> u8 list" where
  "received d = ring_list (ud_fifo d) (ud_read d) (ud_count d)"

definition try_store :: "u8 \<Rightarrow> EdgeUartDecoder \<Rightarrow> bool \<times> EdgeUartDecoder" where
  "try_store byte d = (ud_count d \<noteq> kFifoSize, Store byte d)"

lemma Store_fifo:
  assumes "fifo_invar d"
  shows "fifo_invar (Store b d)" "received (Store b d) = (if ud_count d < kFifoSize then received d @ [b] else received d)"
proof -
  show "fifo_invar (Store b d)" using assms by (auto simp: fifo_invar_def Store_def)
  show "received (Store b d) = (if ud_count d < kFifoSize then received d @ [b] else received d)"
  proof (cases "ud_count d = kFifoSize")
    case False
    then have c: "ud_count d < length (ud_fifo d)" "length (ud_fifo d) = kFifoSize" using assms by (simp_all add: fifo_invar_def)
    show ?thesis using ring_list_write(2) [OF c(1), of "ud_read d" b] c False by (simp add: received_def Store_def)
  qed (simp add: Store_def received_def)
qed

lemma UartPop_fifo:
  assumes "fifo_invar d"
  shows "fifo_invar (snd (UartPop d))" "received d = [] \<Longrightarrow> UartPop d = (None, d)"
    "received d = b # bs \<Longrightarrow> fst (UartPop d) = Some b \<and> received (snd (UartPop d)) = bs"
proof -
  show "fifo_invar (snd (UartPop d))" using assms by (auto simp: fifo_invar_def UartPop_def kFifoSize_def)
  have n: "length (received d) = ud_count d" by (simp add: received_def)
  show "received d = [] \<Longrightarrow> UartPop d = (None, d)" using n by (simp add: UartPop_def)
  assume b: "received d = b # bs"
  then obtain m where m: "ud_count d = Suc m" using n by (cases "ud_count d") auto
  have "b # bs = ud_fifo d ! (ud_read d mod length (ud_fifo d)) # ring_list (ud_fifo d) (Suc (ud_read d)) m"
    using b unfolding received_def m ring_list_Suc by simp
  moreover have "ring_list (ud_fifo d) (Suc (ud_read d)) m = ring_list (ud_fifo d) (Suc (ud_read d) mod kFifoSize) m"
    using assms by (intro ring_list_start_mod) (simp add: fifo_invar_def)
  ultimately show "fst (UartPop d) = Some b \<and> received (snd (UartPop d)) = bs"
    using assms m by (simp add: UartPop_def received_def fifo_invar_def)
qed

interpretation uart_fifo: bounded_queue fifo_invar received kFifoSize try_store UartPop
proof (unfold_locales, goal_cases)
  case (1 q) then show ?case by (simp add: received_def fifo_invar_def)
next
  case (2 q x) then show ?case by (simp add: try_store_def Store_fifo)
next
  case (3 q x) then show ?case by (auto simp: try_store_def received_def fifo_invar_def)
next
  case (4 q x) then show ?case by (simp add: try_store_def Store_fifo) (simp add: received_def)
next
  case (5 q) then show ?case by (rule UartPop_fifo)
next
  case (6 q) then show ?case by (simp add: UartPop_fifo(2))
next
  case (7 q x xs) then show ?case by (rule UartPop_fifo(3))
qed

section \<open>Sample times\<close>

lemma sint_difference:
  assumes "\<bar>int u - int s\<bar> < 2 ^ 31"
  shows "sint ((t + of_nat u) - (t + of_nat s) :: u32) = int u - int s"
proof -
  have "(t + of_nat u) - (t + of_nat s) = (word_of_int (int u - int s) :: u32)" by simp
  then have "sint ((t + of_nat u) - (t + of_nat s) :: u32) = signed_take_bit 31 (int u - int s)"
    by (simp only: sint_sbintrunc') simp
  then show ?thesis using assms by (simp add: signed_take_bit_int_eq_self)
qed

text \<open>The sample time of bit \<open>k\<close> in ticks behind the start edge.\<close>

definition sample_offset :: "nat \<Rightarrow> nat \<Rightarrow> nat" where
  "sample_offset T k = ((2 * k + 1) * T) div 2"

lemma sample_at_offset:
  assumes "ud_bit d = of_nat k" "k \<le> 9" "19 * unat (ud_ticks_per_bit d) < 2 ^ 32"
  shows "sample_at d = ud_start_ticks d + of_nat (sample_offset (unat (ud_ticks_per_bit d)) k)"
proof -
  let ?T = "unat (ud_ticks_per_bit d)"
  have "(2 * k + 1) * ?T \<le> 19 * ?T" using assms(2) by (intro mult_right_mono) simp_all
  then have b: "(2 * k + 1) * ?T < 2 ^ 32" using assms(3) by (rule order.strict_trans1)
  have "(2 * ud_bit d + 1) * ud_ticks_per_bit d = of_nat ((2 * k + 1) * ?T)"
    using assms(1) by (simp add: distrib_right)
  then have "unat ((2 * ud_bit d + 1) * ud_ticks_per_bit d) = (2 * k + 1) * ?T"
    using b by (simp only: unat_of_nat take_bit_nat_eq_self_iff) simp
  then have "unat (((2 * ud_bit d + 1) * ud_ticks_per_bit d) div 2) = sample_offset ?T k"
    by (simp only: unat_div sample_offset_def) simp
  then have "of_nat (unat (((2 * ud_bit d + 1) * ud_ticks_per_bit d) div 2)) = (of_nat (sample_offset ?T k) :: u32)"
    by (rule arg_cong)
  then show ?thesis unfolding sample_at_def by (simp only: of_nat_unat ucast_id)
qed

lemma sample_offset_mono: "k \<le> m \<Longrightarrow> sample_offset T k \<le> sample_offset T m"
  unfolding sample_offset_def by (intro div_le_mono mult_right_mono) simp_all

text \<open>A frame that is open at bit \<open>k\<close>, and the loop over times behind its start edge.\<close>

definition open_frame :: "EdgeUartDecoder \<Rightarrow> u32 \<Rightarrow> nat \<Rightarrow> bool" where
  "open_frame d t k \<longleftrightarrow> ud_in_frame d \<and> ud_start_ticks d = t \<and> ud_bit d = of_nat k \<and> k \<le> 9
     \<and> 19 * unat (ud_ticks_per_bit d) < 2 ^ 32"

lemma SampleUntil_idle: "\<not> ud_in_frame d \<Longrightarrow> SampleUntil u d = d"
  by (simp add: SampleUntil.simps)

lemma SampleUntil_offset:
  assumes "open_frame d t k" "u < 2 ^ 31"
  shows "SampleUntil (t + of_nat u) d =
    (if u \<le> sample_offset (unat (ud_ticks_per_bit d)) k then d
     else let (again, d') = sample_bit d in if again then SampleUntil (t + of_nat u) d' else d')"
proof -
  let ?s = "sample_offset (unat (ud_ticks_per_bit d)) k"
  have d: "ud_in_frame d" "ud_start_ticks d = t" "ud_bit d = of_nat k" "k \<le> 9" "19 * unat (ud_ticks_per_bit d) < 2 ^ 32"
    using assms(1) by (simp_all add: open_frame_def)
  have "?s \<le> sample_offset (unat (ud_ticks_per_bit d)) 9" using d(4) by (rule sample_offset_mono)
  also have "\<dots> < 2 ^ 31" using d(5) by (simp add: sample_offset_def)
  finally have "\<bar>int u - int ?s\<bar> < 2 ^ 31" using assms(2) by simp
  then have "sint ((t + of_nat u) - sample_at d) = int u - int ?s"
    unfolding sample_at_offset [OF d(3,4,5)] d(2) by (rule sint_difference)
  then show ?thesis using d(1) by (subst SampleUntil.simps) simp
qed

lemma sample_bit_open:
  assumes "open_frame d t k" "sample_bit d = (again, d')"
  shows "if again then open_frame d' t (Suc k) \<and> k < 9 else \<not> ud_in_frame d'" "ud_ticks_per_bit d' = ud_ticks_per_bit d"
proof -
  have k: "ud_bit d = of_nat k" "k \<le> 9" using assms(1) by (simp_all add: open_frame_def)
  have "unat (of_nat k :: u32) = k" using k(2) by (simp add: unat_of_nat take_bit_nat_eq_self)
  then have "ud_bit d < kStopBit \<longleftrightarrow> k < 9" "ud_bit d = 0 \<longleftrightarrow> k = 0"
    using k(1) by (auto simp: word_less_nat_alt kStopBit_def unat_eq_0 [symmetric] simp del: unat_eq_0)
  then show "if again then open_frame d' t (Suc k) \<and> k < 9 else \<not> ud_in_frame d'" "ud_ticks_per_bit d' = ud_ticks_per_bit d"
    using assms k by (auto simp: sample_bit_def open_frame_def Let_def Store_def split: if_splits)
qed

text \<open>Sampling at a time between two edges changes nothing for a later sampling.\<close>

lemma SampleUntil_compose:
  assumes "open_frame d t k" "u \<le> v" "v < 2 ^ 31"
  shows "SampleUntil (t + of_nat v) (SampleUntil (t + of_nat u) d) = SampleUntil (t + of_nat v) d"
  using assms(1)
proof (induction "9 - k" arbitrary: k d rule: less_induct)
  case less
  note u = SampleUntil_offset [OF less.prems, of u] and v = SampleUntil_offset [OF less.prems assms(3)]
  obtain again d' where s: "sample_bit d = (again, d')" by fastforce
  show ?case
  proof (cases "u \<le> sample_offset (unat (ud_ticks_per_bit d)) k")
    case True
    then show ?thesis using u assms(2,3) by simp
  next
    case False
    show ?thesis
    proof (cases again)
      case True
      then have "open_frame d' t (Suc k)" "k < 9" using sample_bit_open(1) [OF less.prems s] by simp_all
      with less.hyps [of "Suc k" d'] False True u v s assms(2,3) show ?thesis by simp
    next
      case False
      then have "\<not> ud_in_frame d'" using sample_bit_open(1) [OF less.prems s] by simp
      with False \<open>\<not> u \<le> _\<close> u v s assms(2,3) show ?thesis by (simp add: SampleUntil_idle)
    qed
  qed
qed

section \<open>Frames\<close>

text \<open>The level of bit \<open>k\<close> of a frame: start bit, eight data bits from the lowest on, stop bit.\<close>

definition uart_line :: "u8 \<Rightarrow> bool \<Rightarrow> nat \<Rightarrow> bool" where
  "uart_line b stop k = (if k = 0 then False else if k \<le> 8 then bit b (k - 1) else stop)"

text \<open>The edges of the frame behind the start edge: one at each bit boundary \<open>e k\<close> at which the level changes.\<close>

definition frame_edges :: "u32 \<Rightarrow> (nat \<Rightarrow> nat) \<Rightarrow> u8 \<Rightarrow> bool \<Rightarrow> nat list \<Rightarrow> UartEdge list" where
  "frame_edges t e b stop ks = map (\<lambda>k. \<lparr>ue_ticks = t + of_nat (e k), ue_level = uart_line b stop k\<rparr>)
     (filter (\<lambda>k. uart_line b stop k \<noteq> uart_line b stop (k - 1)) ks)"

text \<open>The boundary of bit \<open>k\<close> lies behind the sample of the bit before it and not behind its own.\<close>

definition boundaries_ok :: "nat \<Rightarrow> (nat \<Rightarrow> nat) \<Rightarrow> bool" where
  "boundaries_ok T e \<longleftrightarrow> (\<forall>k. 1 \<le> k \<longrightarrow> k \<le> 9 \<longrightarrow> sample_offset T (k - 1) < e k \<and> e k \<le> sample_offset T k)"

definition frame_state :: "EdgeUartDecoder \<Rightarrow> u32 \<Rightarrow> u8 \<Rightarrow> bool \<Rightarrow> nat \<Rightarrow> EdgeUartDecoder" where
  "frame_state d t b stop k = d\<lparr>ud_in_frame := True, ud_start_ticks := t, ud_bit := of_nat k,
     ud_data := take_bit (k - 1) b, ud_level := uart_line b stop k\<rparr>"

lemma frame_state_open: "k \<le> 9 \<Longrightarrow> 19 * unat (ud_ticks_per_bit d) < 2 ^ 32 \<Longrightarrow> open_frame (frame_state d t b stop k) t k"
  by (simp add: frame_state_def open_frame_def)

lemma take_bit_step: "take_bit (Suc m) b = take_bit m b OR push_bit m (if bit b m then 1 else 0)" for b :: u8
  by (rule bit_eqI) (auto simp: bit_simps less_Suc_eq)

lemma unat_bit: "k \<le> 9 \<Longrightarrow> unat (of_nat k :: u32) = k"
  by (simp add: unat_of_nat take_bit_nat_eq_self)

lemma sample_frame_bit:
  assumes "k \<le> 8"
  shows "sample_bit (frame_state d t b stop k) = (True, (frame_state d t b stop k)\<lparr>ud_bit := of_nat (Suc k), ud_data := take_bit k b\<rparr>)"
proof (cases k)
  case 0
  then show ?thesis by (simp add: sample_bit_def frame_state_def uart_line_def)
next
  case (Suc m)
  have "unat (of_nat k :: u32) = k" "unat (of_nat m :: u32) = m" by (rule unat_bit; use assms Suc in simp)+
  then have "(of_nat k :: u32) < kStopBit" "(of_nat k :: u32) \<noteq> 0" "unat (of_nat k - 1 :: u32) = m"
    using assms Suc by (auto simp: word_less_nat_alt kStopBit_def)
  then show ?thesis
    using assms Suc take_bit_step [of m b] by (simp add: sample_bit_def frame_state_def uart_line_def)
qed

lemma SampleUntil_boundary:
  assumes "1 \<le> k" "k \<le> 9" "19 * unat (ud_ticks_per_bit d) < 2 ^ 32" "boundaries_ok (unat (ud_ticks_per_bit d)) e"
  shows "SampleUntil (t + of_nat (e k)) (frame_state d t b stop (k - 1)) =
      (frame_state d t b stop k)\<lparr>ud_level := uart_line b stop (k - 1)\<rparr>"
proof -
  let ?T = "unat (ud_ticks_per_bit d)"
  obtain m where m: "k = Suc m" using assms(1) by (cases k) auto
  have e: "sample_offset ?T m < e k" "e k \<le> sample_offset ?T k" using assms(1,2,4) m by (auto simp: boundaries_ok_def)
  have "sample_offset ?T k \<le> sample_offset ?T 9" using assms(2) by (rule sample_offset_mono)
  also have "\<dots> < 2 ^ 31" using assms(3) by (simp add: sample_offset_def)
  finally have lt: "e k < 2 ^ 31" using e(2) by simp
  let ?mid = "(frame_state d t b stop k)\<lparr>ud_level := uart_line b stop m\<rparr>"
  have "open_frame ?mid t k" using assms(2,3) by (simp add: frame_state_def open_frame_def)
  from SampleUntil_offset [OF this lt] have "SampleUntil (t + of_nat (e k)) ?mid = ?mid"
    using e(2) by (simp add: frame_state_def)
  moreover have "sample_bit (frame_state d t b stop m) = (True, ?mid)"
    using sample_frame_bit [of m d t b stop] assms(2) m by (simp add: frame_state_def)
  moreover have "ud_ticks_per_bit (frame_state d t b stop m) = ud_ticks_per_bit d" by (simp add: frame_state_def)
  ultimately show ?thesis
    using SampleUntil_offset [OF frame_state_open [of m d t b stop] lt] assms(2,3) e(1) m by simp
qed

lemma UartPush_boundary:
  assumes "1 \<le> k" "k \<le> 9" "19 * unat (ud_ticks_per_bit d) < 2 ^ 32" "boundaries_ok (unat (ud_ticks_per_bit d)) e"
    and "SampleUntil (t + of_nat (e k)) x = SampleUntil (t + of_nat (e k)) (frame_state d t b stop (k - 1))"
  shows "UartPush \<lparr>ue_ticks = t + of_nat (e k), ue_level = uart_line b stop k\<rparr> x = frame_state d t b stop k"
  unfolding UartPush_def Let_def UartEdge.simps assms(5) SampleUntil_boundary [OF assms(1-4)]
  by (simp add: frame_state_def)

text \<open>
  What the edges seen so far leave to later samples: from the boundary of bit \<open>k\<close> on, the decoder samples as if it
  had been pushed at every boundary.
\<close>

definition follows :: "EdgeUartDecoder \<Rightarrow> u32 \<Rightarrow> (nat \<Rightarrow> nat) \<Rightarrow> u8 \<Rightarrow> bool \<Rightarrow> nat \<Rightarrow> EdgeUartDecoder \<Rightarrow> bool" where
  "follows d t e b stop k x \<longleftrightarrow> (\<forall>v. (k = 0 \<or> e k \<le> v) \<longrightarrow> v < 2 ^ 31 \<longrightarrow>
     SampleUntil (t + of_nat v) x = SampleUntil (t + of_nat v) (frame_state d t b stop k))"

lemma boundary_range:
  assumes "boundaries_ok T e" "19 * T < 2 ^ 32" "1 \<le> k" "k \<le> 9"
  shows "e k < 2 ^ 31" "2 \<le> k \<Longrightarrow> e (k - 1) \<le> e k"
proof -
  have "sample_offset T k \<le> sample_offset T 9" using assms(4) by (rule sample_offset_mono)
  also have "\<dots> < 2 ^ 31" using assms(2) by (simp add: sample_offset_def)
  finally show "e k < 2 ^ 31" using assms by (auto simp: boundaries_ok_def intro: le_less_trans)
  assume "2 \<le> k"
  then have "e (k - 1) \<le> sample_offset T (k - 1)" "sample_offset T (k - 1) < e k"
    using assms(1,4) by (simp_all add: boundaries_ok_def)
  then show "e (k - 1) \<le> e k" by simp
qed

lemma edges_follow:
  assumes T: "19 * unat (ud_ticks_per_bit d) < 2 ^ 32" "boundaries_ok (unat (ud_ticks_per_bit d)) e" and "k \<le> 9"
  shows "follows d t e b stop k (fold UartPush (frame_edges t e b stop [1..<Suc k]) (frame_state d t b stop 0))"
  using assms(3)
proof (induction k)
  case 0
  then show ?case by (simp add: follows_def frame_edges_def)
next
  case (Suc k)
  let ?F = "\<lambda>k. frame_state d t b stop k" and ?x = "fold UartPush (frame_edges t e b stop [1..<Suc k]) (frame_state d t b stop 0)"
  have k: "1 \<le> Suc k" "Suc k \<le> 9" "k \<le> 9" using Suc.prems by simp_all
  note r = boundary_range [OF T(2,1) k(1,2)]
  have IH: "SampleUntil (t + of_nat v) ?x = SampleUntil (t + of_nat v) (?F k)" if "e (Suc k) \<le> v" "v < 2 ^ 31" for v
    using Suc.IH k(3) r(2) that unfolding follows_def by (cases k) auto
  have split: "frame_edges t e b stop [1..<Suc (Suc k)] = frame_edges t e b stop [1..<Suc k] @ frame_edges t e b stop [Suc k]"
    by (simp add: frame_edges_def)
  show ?case
  proof (cases "uart_line b stop (Suc k) = uart_line b stop k")
    case True
    have mid: "SampleUntil (t + of_nat (e (Suc k))) (?F k) = ?F (Suc k)"
      using SampleUntil_boundary [OF k(1,2) T, of t b stop] True by (simp add: frame_state_def)
    have "SampleUntil (t + of_nat v) (?F k) = SampleUntil (t + of_nat v) (?F (Suc k))" if "e (Suc k) \<le> v" "v < 2 ^ 31" for v
      using SampleUntil_compose [OF frame_state_open [OF k(3) T(1), of t b stop] that] mid by simp
    then show ?thesis using IH True unfolding follows_def split by (simp add: frame_edges_def)
  next
    case False
    have "UartPush \<lparr>ue_ticks = t + of_nat (e (Suc k)), ue_level = uart_line b stop (Suc k)\<rparr> ?x = ?F (Suc k)"
      using UartPush_boundary [OF k(1,2) T, of t ?x b stop] IH [OF _ r(1)] by simp
    moreover have "frame_edges t e b stop [Suc k] = [\<lparr>ue_ticks = t + of_nat (e (Suc k)), ue_level = uart_line b stop (Suc k)\<rparr>]"
      using False by (simp add: frame_edges_def)
    ultimately show ?thesis unfolding follows_def split by simp
  qed
qed

lemma frame_end:
  assumes "19 * unat (ud_ticks_per_bit d) < 2 ^ 32" "sample_offset (unat (ud_ticks_per_bit d)) 9 < p" "p < 2 ^ 31"
  shows "SampleUntil (t + of_nat p) (frame_state d t b stop 9) =
    (let d' = d\<lparr>ud_start_ticks := t, ud_bit := 9, ud_data := b, ud_level := stop, ud_in_frame := False\<rparr>
     in if stop then Store b d' else d'\<lparr>ud_framing_errors := ud_framing_errors d + 1\<rparr>)"
proof -
  have "take_bit 8 b = b" by (simp add: take_bit_word_eq_self)
  then have "sample_bit (frame_state d t b stop 9) = (False,
      (let d' = d\<lparr>ud_start_ticks := t, ud_bit := 9, ud_data := b, ud_level := stop, ud_in_frame := False\<rparr>
       in if stop then Store b d' else d'\<lparr>ud_framing_errors := ud_framing_errors d + 1\<rparr>))"
    by (simp add: sample_bit_def frame_state_def uart_line_def kStopBit_def Let_def)
  moreover have "ud_ticks_per_bit (frame_state d t b stop 9) = ud_ticks_per_bit d" by (simp add: frame_state_def)
  ultimately show ?thesis
    using SampleUntil_offset [OF frame_state_open [of 9 d t b stop] assms(3)] assms(1,2) by simp
qed

text \<open>
  C22. The receiver reads what the line carries: a frame that starts on an idle line is decoded to exactly its byte, whatever
  byte it is and wherever the wrapping tick counter stands, as long as each edge comes between the middles of the two bits it separates;
  the byte is stored (or counted as an overrun), or the frame is dropped and counted when the stop bit is low. Only
  real level changes are seen, and bits behind the last edge are completed by \<open>Poll\<close>.
\<close>
theorem frame_received:
  fixes d t e b stop p
  assumes "\<not> ud_in_frame d" "ud_level d" "fifo_invar d"
    and "19 * unat (ud_ticks_per_bit d) < 2 ^ 32" "boundaries_ok (unat (ud_ticks_per_bit d)) e"
    and "sample_offset (unat (ud_ticks_per_bit d)) 9 < p" "p < 2 ^ 31"
  defines "start \<equiv> UartPush \<lparr>ue_ticks = t, ue_level = False\<rparr> d"
  defines "d' \<equiv> Poll (t + of_nat p) (fold UartPush (frame_edges t e b stop [1..<10]) start)"
  shows "\<not> ud_in_frame d' \<and> ud_level d' = stop
    \<and> received d' = (if stop \<and> ud_count d < kFifoSize then received d @ [b] else received d)
    \<and> FramingErrors d' = FramingErrors d + (if stop then 0 else 1)
    \<and> UartOverruns d' = UartOverruns d + (if stop \<and> ud_count d = kFifoSize then 1 else 0)"
proof -
  have "start = frame_state d t b stop 0"
    using assms(1,2) by (simp add: start_def UartPush_def SampleUntil_idle frame_state_def uart_line_def)
  then have "follows d t e b stop 9 (fold UartPush (frame_edges t e b stop [1..<10]) start)"
    using edges_follow [OF assms(4,5), of 9 t b stop] by simp
  moreover have "e 9 \<le> p"
    using assms(5) [unfolded boundaries_ok_def, rule_format, of 9] assms(6) by linarith
  ultimately have "d' = SampleUntil (t + of_nat p) (frame_state d t b stop 9)"
    using assms(7) unfolding d'_def Poll_def follows_def by blast
  note d' = this [unfolded frame_end [OF assms(4,6,7)]]
  define x where "x = d\<lparr>ud_start_ticks := t, ud_bit := 9, ud_data := b, ud_level := stop, ud_in_frame := False\<rparr>"
  have x: "fifo_invar x" "received x = received d" "ud_count x = ud_count d"
    using assms(3) by (simp_all add: x_def fifo_invar_def received_def)
  have y: "\<not> ud_in_frame x" "ud_level x = stop" "ud_framing_errors x = ud_framing_errors d" "ud_overruns x = ud_overruns d"
    by (simp_all add: x_def)
  have "d' = (if stop then Store b x else x\<lparr>ud_framing_errors := ud_framing_errors d + 1\<rparr>)"
    using d' by (simp only: x_def [symmetric] Let_def)
  moreover have "ud_count d \<le> kFifoSize" using assms(3) by (simp add: fifo_invar_def)
  moreover have "\<not> ud_in_frame (Store b x)" "ud_level (Store b x) = stop" "ud_framing_errors (Store b x) = ud_framing_errors d"
    "ud_overruns (Store b x) = ud_overruns d + (if ud_count d = kFifoSize then 1 else 0)"
    using y x(3) by (simp_all add: Store_def)
  moreover have "received (x\<lparr>ud_framing_errors := n\<rparr>) = received d" for n using x(2) by (simp add: received_def)
  ultimately show ?thesis
    using Store_fifo(2) [OF x(1), of b] x y by (simp add: FramingErrors_def UartOverruns_def)
qed

text \<open>A receiver for 9600 baud on a 1 MHz counter that wraps within the frame, with edges up to 40 ticks late.\<close>

theorem frame_received_witness:
  "received (Poll 1000 (fold UartPush (frame_edges (- 7) (\<lambda>k. 104 * k + 5 * k mod 41) 0xA5 True [1..<10])
      (UartPush \<lparr>ue_ticks = - 7, ue_level = False\<rparr> (EdgeUartDecoder_init 104)))) = [0xA5]"
proof -
  let ?d = "EdgeUartDecoder_init 104" and ?e = "\<lambda>k. 104 * k + 5 * k mod 41"
  have "boundaries_ok 104 ?e"
  proof (unfold boundaries_ok_def, intro allI impI)
    fix k :: nat
    assume k: "1 \<le> k" "k \<le> 9"
    have "5 * k mod 41 \<le> 40" by simp
    then show "sample_offset 104 (k - 1) < ?e k \<and> ?e k \<le> sample_offset 104 k"
      using k by (simp add: sample_offset_def algebra_simps)
  qed
  moreover have "\<not> ud_in_frame ?d" "ud_level ?d" "fifo_invar ?d" "ud_ticks_per_bit ?d = 104" "received ?d = []" "ud_count ?d = 0"
    by (simp_all add: EdgeUartDecoder_init_def fifo_invar_def kFifoSize_def received_def)
  ultimately show ?thesis
    using frame_received [where d = ?d and e = ?e and p = 1007 and t = "- 7" and b = "0xA5" and stop = True] by (simp add: sample_offset_def kFifoSize_def)
qed

text \<open>
  A pulse on the idle line that is over before the middle of the start bit is ignored: nothing is received, counted or left open.
\<close>
theorem glitch_ignored:
  fixes d t u p
  assumes "\<not> ud_in_frame d" "ud_level d" "19 * unat (ud_ticks_per_bit d) < 2 ^ 32"
    and "u \<le> sample_offset (unat (ud_ticks_per_bit d)) 0" "sample_offset (unat (ud_ticks_per_bit d)) 0 < p" "p < 2 ^ 31"
  defines "d' \<equiv> Poll (t + of_nat p) (UartPush \<lparr>ue_ticks = t + of_nat u, ue_level = True\<rparr>
      (UartPush \<lparr>ue_ticks = t, ue_level = False\<rparr> d))"
  shows "\<not> ud_in_frame d' \<and> ud_level d' \<and> received d' = received d \<and> FramingErrors d' = FramingErrors d
    \<and> UartOverruns d' = UartOverruns d"
proof -
  let ?T = "unat (ud_ticks_per_bit d)"
  define x where "x = d\<lparr>ud_in_frame := True, ud_start_ticks := t, ud_bit := 0, ud_data := 0, ud_level := False\<rparr>"
  have x: "UartPush \<lparr>ue_ticks = t, ue_level = False\<rparr> d = x"
    using assms(1,2) by (simp add: UartPush_def SampleUntil_idle x_def)
  have "open_frame x t 0" "ud_ticks_per_bit x = ud_ticks_per_bit d" using assms(3) by (simp_all add: open_frame_def x_def)
  then have "SampleUntil (t + of_nat u) x = x"
    using SampleUntil_offset [of x t 0 u] assms(4-6) by simp
  then have y: "UartPush \<lparr>ue_ticks = t + of_nat u, ue_level = True\<rparr> x = x\<lparr>ud_level := True\<rparr>"
    by (simp add: UartPush_def Let_def x_def)
  have "open_frame (x\<lparr>ud_level := True\<rparr>) t 0" using assms(3) by (simp add: open_frame_def x_def)
  then have "d' = x\<lparr>ud_level := True, ud_in_frame := False\<rparr>"
    using SampleUntil_offset [of "x\<lparr>ud_level := True\<rparr>" t 0 p] assms(5,6)
    unfolding d'_def x y Poll_def by (simp add: sample_bit_def x_def)
  then show ?thesis by (simp add: x_def received_def FramingErrors_def UartOverruns_def)
qed

theorem glitch_ignored_witness:
  "received (Poll 900 (UartPush \<lparr>ue_ticks = 40, ue_level = True\<rparr> (UartPush \<lparr>ue_ticks = 0, ue_level = False\<rparr> (EdgeUartDecoder_init 104)))) = []"
  using glitch_ignored [where d = "EdgeUartDecoder_init 104" and u = 40 and p = 900 and t = 0]
  by (simp add: EdgeUartDecoder_init_def sample_offset_def received_def)

end
