(* ===== verification/Float_Sqrt.thy ===== *)
theory Float_Sqrt
  imports Float_Bounds
begin

text \<open>
  The correctly rounded binary32 square root (\<open>std::sqrt\<close> behind \<open>unit::Sqrt\<close>), computed with an integer square root, and
  the bounds that its users need.
\<close>

section \<open>Integer square root\<close>

fun isqrt :: "nat \<Rightarrow> nat" where
  "isqrt n = (if n = 0 then 0 else let r = 2 * isqrt (n div 4) in if (r + 1) * (r + 1) \<le> n then r + 1 else r)"

declare isqrt.simps [simp del]

lemma isqrt_bounds: "isqrt n * isqrt n \<le> n" "n < (isqrt n + 1) * (isqrt n + 1)"
proof (induction n rule: isqrt.induct)
  case (1 n)
  define q where "q = isqrt (n div 4)"
  show "isqrt n * isqrt n \<le> n" "n < (isqrt n + 1) * (isqrt n + 1)"
  proof (atomize (full), cases "n = 0")
    case False
    then have q: "q * q \<le> n div 4" "n div 4 < (q + 1) * (q + 1)" using 1 by (simp_all add: q_def)
    then have b: "4 * (q * q) \<le> n" "n < 4 * ((q + 1) * (q + 1))" by linarith+
    have "isqrt n = (if (2 * q + 1) * (2 * q + 1) \<le> n then 2 * q + 1 else 2 * q)"
      using False by (subst isqrt.simps) (simp add: Let_def q_def)
    then show "isqrt n * isqrt n \<le> n \<and> n < (isqrt n + 1) * (isqrt n + 1)" using b by (simp add: algebra_simps)
  qed (simp add: isqrt.simps)
qed

section \<open>Rounding\<close>

text \<open>
  \<open>sqrt_exp q\<close> is the exponent of half a unit in the last place of the root of \<open>q\<close>; the root is rounded to
  the nearest unit, a tie to the even one.
\<close>

definition sqrt_exp :: "rat \<Rightarrow> int" where
  "sqrt_exp q = max (ilog2 q div 2 - 23) (- 149) - 1"

definition rnd_sqrt :: "rat \<Rightarrow> rat" where
  "rnd_sqrt q = (let e = sqrt_exp q; scaled = q / pow2 (2 * e); m = int (isqrt (nat \<lfloor>scaled\<rfloor>)); k = m div 2;
      up = (m mod 2 = 1 \<and> (of_int (m * m) < scaled \<or> k mod 2 = 1))
    in of_int (if up then k + 1 else k) * pow2 (e + 1))"

definition f32_sqrt :: "f32 \<Rightarrow> f32" where
  "f32_sqrt x = (case x of
      Fin q \<Rightarrow> if q < 0 then NaN else if q = 0 then Fin 0 else Fin (rnd_sqrt q)
    | NZero \<Rightarrow> NZero | PInf \<Rightarrow> PInf | NInf \<Rightarrow> NaN | NaN \<Rightarrow> NaN)"

definition Sqrt :: "f32 \<Rightarrow> f32" where
  "Sqrt value = f32_sqrt value"

definition Hypot :: "f32 \<Rightarrow> f32 \<Rightarrow> f32" where
  "Hypot x y = f32_sqrt ((x * x) + (y * y))"

section \<open>Error of the root\<close>

text \<open>With \<open>2 K\<close> half units for the root of \<open>a\<close> half units squared, the relative error is at most \<open>2 ^ - 24\<close>.\<close>

lemma root_error:
  fixes a :: rat and m K :: int
  assumes m: "0 \<le> m" "of_int (m * m) \<le> a" "a < of_int ((m + 1) * (m + 1))" and a: "2 ^ 48 \<le> a"
    and K: "2 * K = m \<or> 2 * K = m + 1 \<or> 2 * K = m - 1 \<and> a = of_int (m * m)"
  shows "(of_int (2 * K))\<^sup>2 \<le> (1 + 1 / 2 ^ 24)\<^sup>2 * a" "(1 - 1 / 2 ^ 24)\<^sup>2 * a \<le> (of_int (2 * K))\<^sup>2" "0 < K"
proof -
  define e :: rat where "e = 1 / 2 ^ 24"
  define x :: rat where "x = of_int m"
  have x: "0 \<le> x" "x\<^sup>2 \<le> a" "a < (x + 1)\<^sup>2" using m by (simp_all add: x_def power2_eq_square)
  define z :: rat where "z = of_int (2 * K)"
  have y: "z = x \<or> z = x + 1 \<or> z = x - 1 \<and> a = x\<^sup>2"
    using K unfolding x_def z_def power2_eq_square by (metis of_int_1 of_int_add of_int_diff of_int_mult)
  have e: "0 < e" "e < 1" by (simp_all add: e_def)
  have ea: "1 \<le> e\<^sup>2 * a" using a by (simp add: e_def field_simps)
  have "1 * x\<^sup>2 \<le> (e\<^sup>2 * a) * a" using ea x(2) a by (intro mult_mono) auto
  then have "x\<^sup>2 \<le> (e * a)\<^sup>2" by (simp add: power2_eq_square ac_simps)
  then have xe: "x \<le> e * a" by (rule power2_le_imp_le) (use e a in simp)
  have "x\<^sup>2 + 2 * x + 1 \<le> (1 + e)\<^sup>2 * a" using x(2) xe ea by (simp add: algebra_simps power2_eq_square)
  moreover have "(1 + e)\<^sup>2 * a \<ge> x\<^sup>2"
    using x(2) a e by (intro order.trans [OF x(2)]) (simp add: power2_eq_square algebra_simps)
  moreover have "(x + 1)\<^sup>2 = x\<^sup>2 + 2 * x + 1" "(x - 1)\<^sup>2 \<le> (x + 1)\<^sup>2" using x(1) by (simp_all add: power2_eq_square algebra_simps)
  moreover note y
  ultimately show "(of_int (2 * K))\<^sup>2 \<le> (1 + 1 / 2 ^ 24)\<^sup>2 * a" unfolding e_def [symmetric] z_def [symmetric] by auto
  have big: "2 ^ 24 \<le> x + 1"
  proof (rule power2_le_imp_le)
    show "(2 ^ 24)\<^sup>2 \<le> (x + 1)\<^sup>2" using a x(3) by simp
  qed (use x in simp)
  have low: "(1 - e)\<^sup>2 * a \<le> x\<^sup>2"
  proof (rule ccontr)
    assume "\<not> ?thesis"
    then have c: "x\<^sup>2 < (1 - e)\<^sup>2 * a" by simp
    have "(1 - e)\<^sup>2 * a * 1 \<le> (1 - e)\<^sup>2 * a * (e\<^sup>2 * a)" using ea a by (intro mult_left_mono) auto
    then have "x\<^sup>2 < ((1 - e) * (e * a))\<^sup>2" using c by (simp add: power2_eq_square ac_simps)
    then have "x < (1 - e) * (e * a)" by (rule power_less_imp_less_base) (use e a in simp)
    then have "x\<^sup>2 + 2 * x + 1 < (1 - e)\<^sup>2 * a + 2 * ((1 - e) * (e * a)) + 1" using c by linarith
    also have "\<dots> = a - e\<^sup>2 * a + 1" by (simp add: power2_eq_square algebra_simps)
    finally show False using x(3) ea by (simp add: power2_eq_square algebra_simps)
  qed
  have "(1 - e)\<^sup>2 * a \<le> (x + 1)\<^sup>2" using low x(1) by (simp add: power2_eq_square algebra_simps)
  moreover have "(1 - e)\<^sup>2 * a \<le> (x - 1)\<^sup>2" if "a = x\<^sup>2"
  proof -
    have "1 \<le> e * x" using ea that e x(1) power2_le_imp_le [of 1 "e * x"] by (simp add: power_mult_distrib)
    then have "((1 - e) * x)\<^sup>2 \<le> (x - 1)\<^sup>2" using e x(1) mult_right_mono [of e 1 x]
      by (intro power_mono) (simp_all add: algebra_simps)
    then show ?thesis using that by (simp add: power_mult_distrib)
  qed
  ultimately show "(1 - 1 / 2 ^ 24)\<^sup>2 * a \<le> (of_int (2 * K))\<^sup>2"
    using y low unfolding e_def [symmetric] z_def [symmetric] by auto
  show "0 < K" using K big by (simp add: x_def) linarith
qed

text \<open>The root of a positive number from \<open>2 ^ - 149\<close> up is a binary32 number within the relative error \<open>2 ^ - 24\<close>.\<close>

lemma rnd_sqrt_bounds:
  assumes "pow2 (- 149) \<le> q"
  shows "0 < rnd_sqrt q" "(rnd_sqrt q)\<^sup>2 \<le> (1 + 1 / 2 ^ 24)\<^sup>2 * q" "(1 - 1 / 2 ^ 24)\<^sup>2 * q \<le> (rnd_sqrt q)\<^sup>2"
    "representable (rnd_sqrt q)"
proof -
  have q: "0 < q" using assms pow2_pos(1) [of "- 149"] by linarith
  define E where "E = ilog2 q div 2"
  define e where "e = sqrt_exp q"
  define a where "a = q / pow2 (2 * e)"
  define m where "m = int (isqrt (nat \<lfloor>a\<rfloor>))"
  define K where "K = (if m mod 2 = 1 \<and> (of_int (m * m) < a \<or> (m div 2) mod 2 = 1) then m div 2 + 1 else m div 2)"
  have "- 149 \<le> ilog2 q" using ilog2_mono [OF _ assms] ilog2_unique [of "- 149" "pow2 (- 149)"] by simp
  then have e: "e = E - 24" "- 149 \<le> e + 1" by (simp_all add: e_def sqrt_exp_def E_def)
  have "pow2 (2 * E) \<le> pow2 (ilog2 q)" "pow2 (ilog2 q + 1) \<le> pow2 (2 * E + 2)" by (simp_all add: E_def)
  then have "pow2 (2 * E) \<le> q" "q < pow2 (2 * E + 2)" using ilog2_bounds [OF q]
    by (meson order.trans order.strict_trans2)+
  then have "pow2 (2 * E) / pow2 (2 * e) \<le> a" "a < pow2 (2 * E + 2) / pow2 (2 * e)"
    unfolding a_def by (simp_all add: divide_right_mono divide_strict_right_mono)
  then have "pow2 48 \<le> a" "a < pow2 50" by (simp_all only: pow2_diff [symmetric]) (simp_all add: e(1))
  then have a: "2 ^ 48 \<le> a" "a < 2 ^ 50" by (simp_all add: pow2_def)
  have mm: "of_int (m * m) \<le> a" "a < of_int ((m + 1) * (m + 1))"
  proof -
    note i = isqrt_bounds [of "nat \<lfloor>a\<rfloor>"]
    have "m * m \<le> \<lfloor>a\<rfloor>" "\<lfloor>a\<rfloor> < (m + 1) * (m + 1)"
      using i a(1) unfolding m_def by (simp_all add: nat_less_iff le_nat_iff algebra_simps)
    then show "of_int (m * m) \<le> a" "a < of_int ((m + 1) * (m + 1))" by (simp_all only: le_floor_iff floor_less_iff)
  qed
  have "2 * K = m \<or> 2 * K = m + 1 \<or> 2 * K = m - 1 \<and> a = of_int (m * m)"
    using mm(1) unfolding K_def by (cases "m mod 2 = 1") (auto, presburger+)
  note b = root_error [OF _ mm a(1) this]
  have r: "rnd_sqrt q = of_int (2 * K) * pow2 e"
    unfolding rnd_sqrt_def Let_def e_def [symmetric] a_def [symmetric] m_def [symmetric] K_def [symmetric] by (simp add: pow2_Suc)
  have r2: "(rnd_sqrt q)\<^sup>2 = (of_int (2 * K))\<^sup>2 * pow2 (2 * e)" and q2: "q = a * pow2 (2 * e)"
    unfolding r a_def by (simp_all add: power_mult_distrib power2_eq_square [of "pow2 e"] pow2_add [symmetric])
  have m0: "0 \<le> m" by (simp add: m_def)
  show "0 < rnd_sqrt q" using b(3) [OF m0] unfolding r by simp
  show "(rnd_sqrt q)\<^sup>2 \<le> (1 + 1 / 2 ^ 24)\<^sup>2 * q" "(1 - 1 / 2 ^ 24)\<^sup>2 * q \<le> (rnd_sqrt q)\<^sup>2"
    using b(1,2) [OF m0] unfolding r2 by (subst q2, simp only: mult.assoc [symmetric] mult_le_cancel_right_pos pow2_pos)+
  have "m < 2 ^ 25"
  proof (rule ccontr)
    assume "\<not> m < 2 ^ 25"
    then have "2 ^ 25 * 2 ^ 25 \<le> m * m" by (intro mult_mono) simp_all
    then have "(2 ^ 50 :: rat) \<le> of_int (m * m)" using of_int_le_iff [of "2 ^ 50" "m * m", where 'a = rat] by simp
    then show False using mm(1) a(2) by linarith
  qed
  then have "m div 2 < 2 ^ 24" by (simp add: div_less_iff_less_mult)
  then have "K \<le> 2 ^ 24" unfolding K_def by auto
  then have "\<bar>K\<bar> \<le> 2 ^ 24" using b(3) [OF m0] by simp
  moreover have "rnd_sqrt q = of_int K * pow2 (e + 1)" unfolding r by (simp add: pow2_Suc)
  ultimately show "representable (rnd_sqrt q)" using e(2) unfolding representable_def by blast
qed

lemma representable_least:
  assumes "representable q" "0 < q"
  shows "pow2 (- 149) \<le> q"
proof -
  obtain m k where m: "q = of_int m * pow2 k" "- 149 \<le> k" using assms(1) by (auto simp: representable_def)
  have "1 \<le> m" using assms(2) pow2_pos(1) [of k] by (auto simp: m(1) zero_less_mult_iff)
  then have "1 * pow2 k \<le> of_int m * pow2 k" by (intro mult_right_mono) simp_all
  moreover have "pow2 (- 149) \<le> pow2 k" using m(2) by simp
  ultimately show ?thesis unfolding m(1) by linarith
qed

lemma Sqrt_Fin:
  assumes "f32_ok x" "isfinite x" "0 < val x"
  shows "Sqrt x = Fin (rnd_sqrt (val x))" "f32_ok (Sqrt x)" "pow2 (- 149) \<le> val x"
proof -
  obtain q where x: "x = Fin q" "0 < q" "representable q" "q < 2 ^ 128" using assms by (cases x) auto
  show least: "pow2 (- 149) \<le> val x" using representable_least [OF x(3,2)] x(1) by simp
  show s: "Sqrt x = Fin (rnd_sqrt (val x))" using x by (simp add: Sqrt_def f32_sqrt_def)
  note b = rnd_sqrt_bounds [OF least]
  have "rnd_sqrt q < 2 ^ 65"
  proof (rule power_less_imp_less_base)
    have "(rnd_sqrt q)\<^sup>2 \<le> (1 + 1 / 2 ^ 24)\<^sup>2 * q" using b(2) x(1) by simp
    also have "\<dots> < (1 + 1 / 2 ^ 24)\<^sup>2 * 2 ^ 128" using x(4) by (intro mult_strict_left_mono) simp_all
    also have "\<dots> \<le> (2 ^ 65)\<^sup>2" by (simp add: power2_eq_square)
    finally show "(rnd_sqrt q)\<^sup>2 < (2 ^ 65)\<^sup>2" .
  qed simp
  then show "f32_ok (Sqrt x)" using b(1,4) x(1) unfolding s by simp
qed

end
