(* ===== verification/Frames.thy ===== *)
theory Frames
  imports Sin_Cos_Circle Float_Sqrt
begin

text \<open>
  The vectors of the control (\<open>three_phase_system.hpp\<close>, \<open>stator_system.hpp\<close>, \<open>rotor_system.hpp\<close>): phase values, the
  stationary alpha/beta frame and the rotating d/q frame, with the Clarke and Park transforms between them.
\<close>

section \<open>Vectors\<close>

record ThreePhase =
  tp_a :: f32
  tp_b :: f32
  tp_c :: f32

record Stator =
  st_alpha :: f32
  st_beta :: f32

record Rotor =
  ro_d :: f32
  ro_q :: f32

definition same_phases :: "ThreePhase \<Rightarrow> ThreePhase \<Rightarrow> bool" where
  "same_phases x y \<longleftrightarrow> feq (tp_a x) (tp_a y) \<and> feq (tp_b x) (tp_b y) \<and> feq (tp_c x) (tp_c y)"

definition add_phases :: "ThreePhase \<Rightarrow> ThreePhase \<Rightarrow> ThreePhase" where
  "add_phases x y = \<lparr>tp_a = tp_a x + tp_a y, tp_b = tp_b x + tp_b y, tp_c = tp_c x + tp_c y\<rparr>"

definition sub_phases :: "ThreePhase \<Rightarrow> ThreePhase \<Rightarrow> ThreePhase" where
  "sub_phases x y = \<lparr>tp_a = tp_a x - tp_a y, tp_b = tp_b x - tp_b y, tp_c = tp_c x - tp_c y\<rparr>"

definition same_stator :: "Stator \<Rightarrow> Stator \<Rightarrow> bool" where
  "same_stator x y \<longleftrightarrow> feq (st_alpha x) (st_alpha y) \<and> feq (st_beta x) (st_beta y)"

definition add_stator :: "Stator \<Rightarrow> Stator \<Rightarrow> Stator" where
  "add_stator x y = \<lparr>st_alpha = st_alpha x + st_alpha y, st_beta = st_beta x + st_beta y\<rparr>"

definition sub_stator :: "Stator \<Rightarrow> Stator \<Rightarrow> Stator" where
  "sub_stator x y = \<lparr>st_alpha = st_alpha x - st_alpha y, st_beta = st_beta x - st_beta y\<rparr>"

definition minus_stator :: "Stator \<Rightarrow> Stator" where
  "minus_stator x = \<lparr>st_alpha = - st_alpha x, st_beta = - st_beta x\<rparr>"

definition scale_stator :: "Stator \<Rightarrow> f32 \<Rightarrow> Stator" where
  "scale_stator x scalar = \<lparr>st_alpha = st_alpha x * scalar, st_beta = st_beta x * scalar\<rparr>"

definition divide_stator :: "Stator \<Rightarrow> f32 \<Rightarrow> Stator" where
  "divide_stator x scalar = \<lparr>st_alpha = st_alpha x / scalar, st_beta = st_beta x / scalar\<rparr>"

definition same_rotor :: "Rotor \<Rightarrow> Rotor \<Rightarrow> bool" where
  "same_rotor x y \<longleftrightarrow> feq (ro_d x) (ro_d y) \<and> feq (ro_q x) (ro_q y)"

definition add_rotor :: "Rotor \<Rightarrow> Rotor \<Rightarrow> Rotor" where
  "add_rotor x y = \<lparr>ro_d = ro_d x + ro_d y, ro_q = ro_q x + ro_q y\<rparr>"

definition sub_rotor :: "Rotor \<Rightarrow> Rotor \<Rightarrow> Rotor" where
  "sub_rotor x y = \<lparr>ro_d = ro_d x - ro_d y, ro_q = ro_q x - ro_q y\<rparr>"

definition minus_rotor :: "Rotor \<Rightarrow> Rotor" where
  "minus_rotor x = \<lparr>ro_d = - ro_d x, ro_q = - ro_q x\<rparr>"

definition scale_rotor :: "Rotor \<Rightarrow> f32 \<Rightarrow> Rotor" where
  "scale_rotor x scalar = \<lparr>ro_d = ro_d x * scalar, ro_q = ro_q x * scalar\<rparr>"

definition divide_rotor :: "Rotor \<Rightarrow> f32 \<Rightarrow> Rotor" where
  "divide_rotor x scalar = \<lparr>ro_d = ro_d x / scalar, ro_q = ro_q x / scalar\<rparr>"

definition stator_length :: "Stator \<Rightarrow> f32" where
  "stator_length x = Hypot (st_alpha x) (st_beta x)"

definition rotor_length :: "Rotor \<Rightarrow> f32" where
  "rotor_length x = Hypot (ro_d x) (ro_q x)"

definition stator_length_squared :: "Stator \<Rightarrow> f32" where
  "stator_length_squared x = (st_alpha x * st_alpha x) + (st_beta x * st_beta x)"

definition rotor_length_squared :: "Rotor \<Rightarrow> f32" where
  "rotor_length_squared x = (ro_d x * ro_d x) + (ro_q x * ro_q x)"

section \<open>Clarke transform\<close>

definition kSqrt3By2 :: f32 where
  "kSqrt3By2 = f32_of (86602540378443864676 / 10 ^ 20)"

definition kTwoByThree :: f32 where
  "kTwoByThree = f32_of (2 / 3)"

definition ToStator :: "ThreePhase \<Rightarrow> Stator" where
  "ToStator x = \<lparr>
     st_alpha = kTwoByThree * (tp_a x - (f32_of (1/2) * tp_b x) - (f32_of (1/2) * tp_c x)),
     st_beta = kTwoByThree * ((kSqrt3By2 * tp_b x) - (kSqrt3By2 * tp_c x))\<rparr>"

definition ToThreePhase :: "Stator \<Rightarrow> ThreePhase" where
  "ToThreePhase x = \<lparr>
     tp_a = st_alpha x,
     tp_b = (f32_of (- 1/2) * st_alpha x) + (kSqrt3By2 * st_beta x),
     tp_c = (f32_of (- 1/2) * st_alpha x) - (kSqrt3By2 * st_beta x)\<rparr>"

section \<open>Park transform\<close>

definition ToRotor :: "Stator \<Rightarrow> SinCos \<Rightarrow> Rotor" where
  "ToRotor x sin_cos = \<lparr>
     ro_d = (st_alpha x * sc_cos sin_cos) + (st_beta x * sc_sin sin_cos),
     ro_q = (st_beta x * sc_cos sin_cos) - (st_alpha x * sc_sin sin_cos)\<rparr>"

definition Rotor_ToStator :: "Rotor \<Rightarrow> SinCos \<Rightarrow> Stator" where
  "Rotor_ToStator x sin_cos = \<lparr>
     st_alpha = (ro_d x * sc_cos sin_cos) - (ro_q x * sc_sin sin_cos),
     st_beta = (ro_d x * sc_sin sin_cos) + (ro_q x * sc_cos sin_cos)\<rparr>"

text \<open>The overloads that take a rotor angle use its stored sine and cosine.\<close>

definition angle_sin_cos :: "RotorAngle \<Rightarrow> SinCos" where
  "angle_sin_cos angle = \<lparr>sc_sin = ra_sin angle, sc_cos = ra_cos angle\<rparr>"

definition ToRotor_angle :: "Stator \<Rightarrow> RotorAngle \<Rightarrow> Rotor" where
  "ToRotor_angle x angle = ToRotor x (angle_sin_cos angle)"

definition Rotor_ToStator_angle :: "Rotor \<Rightarrow> RotorAngle \<Rightarrow> Stator" where
  "Rotor_ToStator_angle x angle = Rotor_ToStator x (angle_sin_cos angle)"

section \<open>Error of a rotation\<close>

lemma near_shift: "near x p e \<Longrightarrow> \<bar>p - q\<bar> \<le> d \<Longrightarrow> near x q (e + d)"
  unfolding near_def by linarith

text \<open>
  One coordinate of a rotation, with inputs below \<open>2 ^ k\<close> in magnitude and with an error of \<open>d\<close>; \<open>U\<close> is the rounding
  error at \<open>2 ^ (k + 1)\<close>.
\<close>

lemma near_rotate:
  assumes x: "near x a d" "near y b d" "\<bar>a\<bar> \<le> A" "\<bar>b\<bar> \<le> A" "isfinite u" "isfinite v"
    and uv: "\<bar>val u\<bar> \<le> 1001/1000" "\<bar>val v\<bar> \<le> 1001/1000"
    and k: "A * (1001/1000) + d * (1001/1000) < pow2 k" "- 124 \<le> k" "k \<le> 125"
  shows "near (x * u + y * v) (a * val u + b * val v) (2 * (d * (1001/1000)) + 6 * pow2 (k - 25))"
    "near (x * u - y * v) (a * val u - b * val v) (2 * (d * (1001/1000)) + 6 * pow2 (k - 25))"
proof -
  have d: "0 \<le> d" using x(1) by (simp add: near_def) (meson abs_ge_zero order.trans)
  have "0 \<le> A" using x(3) by linarith
  have m: "\<bar>a * val u\<bar> \<le> A * (1001/1000)" "\<bar>b * val v\<bar> \<le> A * (1001/1000)"
    unfolding abs_mult using x(3,4) uv \<open>0 \<le> A\<close> by (intro mult_mono; simp)+
  have k': "- 125 \<le> k" "k \<le> 127" "pow2 (k + 1) = 2 * pow2 k" "pow2 (k + 1 - 25) = 2 * pow2 (k - 25)"
    "0 < pow2 k" "pow2 (k - 25) \<le> pow2 k / 4"
    using k(2,3) pow2_Suc [of k] pow2_Suc [of "k - 25"] pow2_le_iff [of "k - 25" "k - 2"]
    by (simp_all add: algebra_simps pow2_diff [of k 2]) (simp add: pow2_def)
  have s: "\<bar>a * val u\<bar> + (d * (1001/1000 + 0) + A * 0) < pow2 k" "\<bar>b * val v\<bar> + (d * (1001/1000 + 0) + A * 0) < pow2 k"
    using m k(1) unfolding add_0_right mult_zero_right by linarith+
  note p = near_mult [OF x(1) near_exact [OF x(5)] x(3) uv(1) s(1) k'(1,2)]
    near_mult [OF x(2) near_exact [OF x(6)] x(4) uv(2) s(2) k'(1,2)]
  have e: "d * (1001/1000 + 0) + A * 0 + pow2 (k - 25) = d * (1001/1000) + pow2 (k - 25)" by simp
  note q = p [unfolded e]
  have four: "pow2 (k + 2) = 4 * pow2 k" using pow2_add [of k 2] by (simp add: pow2_def [of 2])
  have "2 * (A * (1001/1000) + d * (1001/1000)) + 2 * pow2 (k - 25) < pow2 (k + 2)"
    using k(1) k'(6) pow2_pos(1) [of k] unfolding four distrib_left by linarith
  then have b: "\<bar>a * val u + b * val v\<bar> + (d * (1001/1000) + pow2 (k - 25) + (d * (1001/1000) + pow2 (k - 25))) < pow2 (k + 2)"
    "\<bar>a * val u - b * val v\<bar> + (d * (1001/1000) + pow2 (k - 25) + (d * (1001/1000) + pow2 (k - 25))) < pow2 (k + 2)"
    using m unfolding distrib_left by linarith+
  have k2: "- 125 \<le> k + 2" "k + 2 \<le> 127" "pow2 (k + 2 - 25) = 4 * pow2 (k - 25)"
    using k(2,3) pow2_add [of 2 "k - 25"] by (simp_all add: pow2_def [of 2] algebra_simps)
  show "near (x * u + y * v) (a * val u + b * val v) (2 * (d * (1001/1000)) + 6 * pow2 (k - 25))"
    "near (x * u - y * v) (a * val u - b * val v) (2 * (d * (1001/1000)) + 6 * pow2 (k - 25))"
    using near_add [OF q b(1) k2(1,2)] near_sub [OF q b(2) k2(1,2)] unfolding k2(3) by (simp_all add: add.commute)
qed

lemma circle_bounds:
  assumes "\<bar>val (sc_sin sc) * val (sc_sin sc) + val (sc_cos sc) * val (sc_cos sc) - 1\<bar> \<le> 1 / 10 ^ 5"
  shows "\<bar>val (sc_sin sc)\<bar> \<le> 1001/1000" "\<bar>val (sc_cos sc)\<bar> \<le> 1001/1000"
proof -
  have "\<bar>x\<bar> \<le> 1001/1000" if "x * x \<le> 1 + 1 / 10 ^ 5" for x :: rat
    using that by (intro power2_le_imp_le [of "\<bar>x\<bar>"]) (simp_all add: power2_eq_square)
  moreover have "val (sc_sin sc) * val (sc_sin sc) \<le> 1 + 1 / 10 ^ 5" "val (sc_cos sc) * val (sc_cos sc) \<le> 1 + 1 / 10 ^ 5"
    using order.trans [OF abs_ge_self assms] zero_le_square [of "val (sc_sin sc)"] zero_le_square [of "val (sc_cos sc)"]
    by linarith+
  ultimately show "\<bar>val (sc_sin sc)\<bar> \<le> 1001/1000" "\<bar>val (sc_cos sc)\<bar> \<le> 1001/1000" by blast+
qed

text \<open>
  The Park transform is undone by the inverse Park transform of the same angle: for any phase, a current or voltage below
  \<open>2 ^ k\<close> in each coordinate comes back with an error of at most \<open>12 * 10 ^ -6\<close> of \<open>2 ^ k\<close>, all roundings and the
  table included.
\<close>
theorem park_round_trip:
  assumes "Calculate raw = Some sc" "isfinite (st_alpha s)" "isfinite (st_beta s)"
    and "\<bar>val (st_alpha s)\<bar> \<le> pow2 k" "\<bar>val (st_beta s)\<bar> \<le> pow2 k" "- 100 \<le> k" "k \<le> 100"
  defines "t \<equiv> Rotor_ToStator (ToRotor s sc) sc"
  shows "near (st_alpha t) (val (st_alpha s)) (12 / 10 ^ 6 * pow2 k) \<and> near (st_beta t) (val (st_beta s)) (12 / 10 ^ 6 * pow2 k)"
proof -
  define S C A a b where "S = val (sc_sin sc)" and "C = val (sc_cos sc)" and "A = pow2 k"
    and "a = val (st_alpha s)" and "b = val (st_beta s)"
  have sc: "isfinite (sc_sin sc)" "isfinite (sc_cos sc)" and circle: "\<bar>S * S + C * C - 1\<bar> \<le> 1 / 10 ^ 5"
    using Calculate_circle [of raw] assms(1) by (simp_all add: S_def C_def)
  note bd = circle_bounds [OF circle [unfolded S_def C_def]]
  have p: "pow2 (k + 1) = 2 * A" "pow2 (k + 1 - 25) = A / 16777216" "pow2 (k + 2) = 4 * A" "pow2 (k + 2 - 25) = A / 8388608" "0 < A"
    unfolding A_def using pow2_add [of k 1] pow2_add [of k 2] pow2_diff [of k 24] pow2_diff [of k 23]
    by (simp_all add: pow2_def [of 1] pow2_def [of 2] pow2_def [of 24] pow2_def [of 23])
  have ab: "\<bar>a\<bar> \<le> A" "\<bar>b\<bar> \<le> A" using assms(4,5) by (simp_all add: a_def b_def A_def)
  have k1: "A * (1001/1000) + 0 * (1001/1000) < pow2 (k + 1)" "- 124 \<le> k + 1" "k + 1 \<le> 125" using assms(6,7) p(5) by (simp_all add: p(1))
  have ex: "near (st_alpha s) a 0" "near (st_beta s) b 0" using near_exact assms(2,3) by (simp_all add: a_def b_def)
  define e where "e = A * 3 / 8388608"
  have e: "2 * (0 * (1001/1000)) + 6 * pow2 (k + 1 - 25) = e" unfolding p(2) e_def by simp
  have d: "near (ro_d (ToRotor s sc)) (a * C + b * S) e" "near (ro_q (ToRotor s sc)) (b * C - a * S) e"
    using near_rotate(1) [OF ex ab sc(2,1) bd(2,1) k1] near_rotate(2) [OF ex(2,1) ab(2,1) sc(2,1) bd(2,1) k1]
    unfolding e by (simp_all add: ToRotor_def S_def C_def)
  have m: "\<bar>x * u\<bar> \<le> A * (1001/1000)" if "\<bar>x\<bar> \<le> A" "\<bar>u\<bar> \<le> 1001/1000" for x u
    unfolding abs_mult using that p(5) by (intro mult_mono) simp_all
  have dq: "\<bar>a * C + b * S\<bar> \<le> A * (201/100)" "\<bar>b * C - a * S\<bar> \<le> A * (201/100)"
    using m [OF ab(1), of C] m [OF ab(2), of S] m [OF ab(2), of C] m [OF ab(1), of S] bd p(5) unfolding S_def C_def by linarith+
  have k2: "A * (201/100) * (1001/1000) + e * (1001/1000) < pow2 (k + 2)" "- 124 \<le> k + 2" "k + 2 \<le> 125"
    using assms(6,7) p(5) by (simp_all add: p(3) e_def)
  define f where "f = 2 * (e * (1001/1000)) + 6 * pow2 (k + 2 - 25)"
  have t: "near (st_alpha t) ((a * C + b * S) * C - (b * C - a * S) * S) f" "near (st_beta t) ((a * C + b * S) * S + (b * C - a * S) * C) f"
    using near_rotate(2) [OF d dq sc(2,1) bd(2,1) k2] near_rotate(1) [OF d dq sc bd k2]
    unfolding f_def by (simp_all add: t_def Rotor_ToStator_def S_def C_def)
  have id: "(a * C + b * S) * C - (b * C - a * S) * S - a = a * (S * S + C * C - 1)"
    "(a * C + b * S) * S + (b * C - a * S) * C - b = b * (S * S + C * C - 1)" by (simp_all add: algebra_simps)
  have "\<bar>a * (S * S + C * C - 1)\<bar> \<le> A * (1 / 10 ^ 5)" "\<bar>b * (S * S + C * C - 1)\<bar> \<le> A * (1 / 10 ^ 5)"
    unfolding abs_mult using ab circle p(5) by (intro mult_mono; simp)+
  moreover have "f \<le> A * 2 / 10 ^ 6" using p(5) unfolding f_def e_def p(4) by simp
  ultimately show ?thesis
    using near_shift [OF t(1), of a "A * (1 / 10 ^ 5)"] near_shift [OF t(2), of b "A * (1 / 10 ^ 5)"] near_weaken p(5)
    unfolding id a_def [symmetric] b_def [symmetric] A_def [symmetric] by (auto elim!: near_weaken)
qed


text \<open>Every phase has its sine and cosine.\<close>

theorem park_round_trip_witness:
  "\<exists>sc. Calculate 1234567890 = Some sc \<and>
    near (st_alpha (Rotor_ToStator (ToRotor \<lparr>st_alpha = Fin 3, st_beta = Fin (- 4)\<rparr> sc) sc)) 3 (12 / 10 ^ 6 * 4)"
proof -
  obtain sc where "Calculate 1234567890 = Some sc" using Calculate_circle [of 1234567890] by blast
  moreover have "pow2 2 = 4" by (simp add: pow2_def)
  ultimately show ?thesis using park_round_trip [of 1234567890 sc "\<lparr>st_alpha = Fin 3, st_beta = Fin (- 4)\<rparr>" 2] by auto
qed

end
