(* ===== verification/Modulation.thy ===== *)
theory Modulation
  imports Frames Nvm_Settings
begin

text \<open>
  Space-vector modulation with minimum-maximum injection (\<open>svm.hpp\<close>) and the dead-time compensation that is added to its
  input (\<open>dead_time_compensation.hpp\<close>).
\<close>

section \<open>Modulation\<close>

record Svm =
  svm_duty_min :: f32
  svm_duty_max :: f32

definition Svm_default :: Svm where
  "Svm_default = \<lparr>svm_duty_min = f32_of (5/100), svm_duty_max = f32_of (95/100)\<rparr>"

definition Svm_Init :: "NvmSettings \<Rightarrow> Svm \<Rightarrow> Svm" where
  "Svm_Init settings m = m\<lparr>svm_duty_min := nvm_svm_duty_min settings, svm_duty_max := nvm_svm_duty_max settings\<rparr>"

text \<open>The three-element \<open>std::max\<close> and \<open>std::min\<close>, and the centred duties before the clamp.\<close>

definition std_max3 :: "f32 \<Rightarrow> f32 \<Rightarrow> f32 \<Rightarrow> f32" where
  "std_max3 a b c = std_max (std_max a b) c"

definition std_min3 :: "f32 \<Rightarrow> f32 \<Rightarrow> f32 \<Rightarrow> f32" where
  "std_min3 a b c = std_min (std_min a b) c"

definition ratio_mid :: "ThreePhase \<Rightarrow> f32" where
  "ratio_mid r = (std_max3 (tp_a r) (tp_b r) (tp_c r) + std_min3 (tp_a r) (tp_b r) (tp_c r)) * f32_of (- 1/2)"

definition Svm_Calculate :: "Svm \<Rightarrow> ThreePhase \<Rightarrow> ThreePhase" where
  "Svm_Calculate m r = (let mid = ratio_mid r; duty = (\<lambda>x. Clamp (f32_of (1/2) + x + mid) (svm_duty_min m) (svm_duty_max m))
    in \<lparr>tp_a = duty (tp_a r), tp_b = duty (tp_b r), tp_c = duty (tp_c r)\<rparr>)"

definition InverseDcLinkVoltage :: "f32 \<Rightarrow> f32" where
  "InverseDcLinkVoltage dc_link_voltage = f32_of 1 / Max dc_link_voltage (f32_of 1)"

definition CalculateWithInverseDcLinkVoltage :: "Svm \<Rightarrow> Stator \<Rightarrow> f32 \<Rightarrow> Stator \<Rightarrow> ThreePhase" where
  "CalculateWithInverseDcLinkVoltage m voltage inverse_dc_link_voltage dead_time_ratio =
    Svm_Calculate m (ToThreePhase \<lparr>st_alpha = (st_alpha voltage * inverse_dc_link_voltage) + st_alpha dead_time_ratio,
      st_beta = (st_beta voltage * inverse_dc_link_voltage) + st_beta dead_time_ratio\<rparr>)"

definition CalculateWithDeadTimeCompensation :: "Svm \<Rightarrow> Stator \<Rightarrow> f32 \<Rightarrow> Stator \<Rightarrow> ThreePhase" where
  "CalculateWithDeadTimeCompensation m voltage dc_link_voltage dead_time_ratio =
    CalculateWithInverseDcLinkVoltage m voltage (InverseDcLinkVoltage dc_link_voltage) dead_time_ratio"

section \<open>Dead-time compensation\<close>

record DeadTimeCompensation =
  dtc_dead_time :: f32
  dtc_f_pwm :: f32
  dtc_i_threshold :: f32

definition DeadTimeCompensation_init :: DeadTimeCompensation where
  "DeadTimeCompensation_init = \<lparr>dtc_dead_time = 0, dtc_f_pwm = 0, dtc_i_threshold = 0\<rparr>"

definition Dtc_Init :: "NvmSettings \<Rightarrow> DeadTimeCompensation \<Rightarrow> DeadTimeCompensation" where
  "Dtc_Init settings c = c\<lparr>dtc_dead_time := nvm_dtc_dead_time settings, dtc_f_pwm := nvm_dtc_f_pwm settings,
     dtc_i_threshold := nvm_dtc_i_threshold settings\<rparr>"

definition soft_sign :: "f32 \<Rightarrow> f32 \<Rightarrow> f32" where
  "soft_sign current threshold = Clamp (current / threshold) (f32_of (- 1)) (f32_of 1)"

definition Dtc_Calculate :: "DeadTimeCompensation \<Rightarrow> Stator \<Rightarrow> Stator" where
  "Dtc_Calculate c i_ab = (let i = ToThreePhase i_ab; sign = (\<lambda>x. soft_sign x (dtc_i_threshold c)); dt_norm = dtc_dead_time c * dtc_f_pwm c
    in ToStator \<lparr>tp_a = sign (tp_a i) * dt_norm, tp_b = sign (tp_b i) * dt_norm, tp_c = sign (tp_c i) * dt_norm\<rparr>)"

section \<open>The reference modulator\<close>

text \<open>
  The modulator in exact arithmetic: each phase ratio is shifted by the middle of the largest and the smallest one, so that
  the duties lie symmetric around one half, and the result is limited.
\<close>

definition limited :: "rat \<Rightarrow> rat \<Rightarrow> rat \<Rightarrow> rat" where
  "limited lo hi x = min (max x lo) hi"

definition reference_duty :: "Svm \<Rightarrow> ThreePhase \<Rightarrow> rat \<Rightarrow> rat" where
  "reference_duty m r x = limited (val (svm_duty_min m)) (val (svm_duty_max m))
     (1 / 2 + x - (max (max (val (tp_a r)) (val (tp_b r))) (val (tp_c r)) + min (min (val (tp_a r)) (val (tp_b r))) (val (tp_c r))) / 2)"

definition phases_finite :: "rat \<Rightarrow> ThreePhase \<Rightarrow> bool" where
  "phases_finite B r \<longleftrightarrow> (\<forall>x \<in> {tp_a r, tp_b r, tp_c r}. isfinite x \<and> \<bar>val x\<bar> \<le> B)"

lemma limited_near: "\<bar>x - y\<bar> \<le> e \<Longrightarrow> \<bar>limited lo hi x - limited lo hi y\<bar> \<le> e"
  unfolding limited_def by linarith

lemma extreme_ratios:
  assumes "phases_finite B r"
  shows "isfinite (std_max3 (tp_a r) (tp_b r) (tp_c r))" "isfinite (std_min3 (tp_a r) (tp_b r) (tp_c r))"
    "val (std_max3 (tp_a r) (tp_b r) (tp_c r)) = max (max (val (tp_a r)) (val (tp_b r))) (val (tp_c r))"
    "val (std_min3 (tp_a r) (tp_b r) (tp_c r)) = min (min (val (tp_a r)) (val (tp_b r))) (val (tp_c r))"
  using assms by (auto simp: phases_finite_def std_max3_def std_min3_def std_max_def std_min_def less_finite)

lemma middle_distance:
  fixes a b c x :: rat
  assumes "\<bar>a\<bar> \<le> 1" "\<bar>b\<bar> \<le> 1" "\<bar>c\<bar> \<le> 1" "x \<in> {a, b, c}"
  shows "\<bar>max (max a b) c + min (min a b) c\<bar> \<le> 2" "\<bar>x - (max (max a b) c + min (min a b) c) / 2\<bar> \<le> 1"
proof -
  define H L where "H = max (max a b) c" and "L = min (min a b) c"
  have "L \<le> x" "x \<le> H" "H \<le> 1" "- 1 \<le> L" using assms by (auto simp: H_def L_def)
  then show "\<bar>max (max a b) c + min (min a b) c\<bar> \<le> 2" "\<bar>x - (max (max a b) c + min (min a b) c) / 2\<bar> \<le> 1"
    unfolding H_def [symmetric] L_def [symmetric] add_divide_distrib by linarith+
qed

lemma duty_near:
  assumes "phases_finite 1 r" "x \<in> {tp_a r, tp_b r, tp_c r}"
  defines "M \<equiv> max (max (val (tp_a r)) (val (tp_b r))) (val (tp_c r)) + min (min (val (tp_a r)) (val (tp_b r))) (val (tp_c r))"
  shows "near (f32_of (1/2) + x + ratio_mid r) (1 / 2 + val x - M / 2) (pow2 (-22))"
proof -
  have b: "\<bar>val (tp_a r)\<bar> \<le> 1" "\<bar>val (tp_b r)\<bar> \<le> 1" "\<bar>val (tp_c r)\<bar> \<le> 1" and x: "isfinite x" "\<bar>val x\<bar> \<le> 1"
    using assms(1,2) by (auto simp: phases_finite_def)
  have M: "\<bar>M\<bar> \<le> 2" "\<bar>val x - M / 2\<bar> \<le> 1" using middle_distance [OF b, of "val x"] assms(2) unfolding M_def by auto
  have p: "pow2 1 = 2" "pow2 2 = 4" "pow2 (-23) = 2 * pow2 (-24)" "pow2 (-22) = 4 * pow2 (-24)" "pow2 (-24) \<le> 1 / 1000"
    by (simp_all add: pow2_def)
  have h: "near (f32_of (1/2)) (1/2) 0" "near (f32_of (- 1/2)) (- 1/2) 0" by (simp_all add: near_def f32_eval)
  note e = extreme_ratios [OF assms(1)]
  have "near (std_max3 (tp_a r) (tp_b r) (tp_c r) + std_min3 (tp_a r) (tp_b r) (tp_c r)) M (pow2 (-23))"
    using near_add [OF near_exact [OF e(1)] near_exact [OF e(2)], of 2] M(1) p(2) by (simp add: e(3,4) M_def [symmetric])
  then have "near (ratio_mid r) (M * (- 1/2)) (pow2 (-23))"
    using near_mult [OF _ h(2), of _ M "pow2 (-23)" 2 "1/2" 1] M(1) p by (simp add: ratio_mid_def abs_mult)
  moreover have "near (f32_of (1/2) + x) (1/2 + val x) (pow2 (-24))"
    using near_add [OF h(1) near_exact [OF x(1)], of 1] x(2) p(1) by simp
  ultimately show ?thesis
    using near_add [of "f32_of (1/2) + x" "1/2 + val x" "pow2 (-24)" "ratio_mid r" "M * (- 1/2)" "pow2 (-23)" 1] M(2) p by simp
qed

lemma Svm_phase:
  assumes "phases_finite 1 r" "x \<in> {tp_a r, tp_b r, tp_c r}" "isfinite (svm_duty_min m)" "isfinite (svm_duty_max m)"
  defines "d \<equiv> Clamp (f32_of (1/2) + x + ratio_mid r) (svm_duty_min m) (svm_duty_max m)"
  shows "near d (reference_duty m r (val x)) (pow2 (-22))"
proof -
  note n = duty_near [OF assms(1,2)]
  then have f: "isfinite (f32_of (1/2) + x + ratio_mid r)" by (simp add: near_def)
  show ?thesis
    using Clamp_finite [OF f assms(3,4)] n limited_near
    unfolding near_def d_def reference_duty_def limited_def [symmetric] by auto
qed

text \<open>
  C23. The modulator implements the exact modulator with minimum-maximum injection: for phase ratios that are finite and at most one in
  magnitude, and finite duty limits, each duty is a finite number within \<open>2 ^ -22\<close> of the limited exact duty, in the linear range and
  in over-modulation. The injection centres the largest and the smallest duty about one half; the sum of the three duties, which the
  header of the code gives as 1.5, is not fixed by it.
\<close>
theorem Svm_refines_reference:
  assumes "phases_finite 1 r" "isfinite (svm_duty_min m)" "isfinite (svm_duty_max m)"
  shows "near (tp_a (Svm_Calculate m r)) (reference_duty m r (val (tp_a r))) (pow2 (-22))
    \<and> near (tp_b (Svm_Calculate m r)) (reference_duty m r (val (tp_b r))) (pow2 (-22))
    \<and> near (tp_c (Svm_Calculate m r)) (reference_duty m r (val (tp_c r))) (pow2 (-22))"
  using Svm_phase [OF assms(1) _ assms(2,3)] by (simp add: Svm_Calculate_def Let_def)

theorem Svm_refines_reference_witness:
  "near (tp_b (Svm_Calculate \<lparr>svm_duty_min = Fin (1/16), svm_duty_max = Fin (15/16)\<rparr> \<lparr>tp_a = Fin (1/2), tp_b = Fin (- 1/4), tp_c = Fin (- 1/4)\<rparr>))
     (1 / 8) (pow2 (-22))"
  using Svm_refines_reference [of "\<lparr>tp_a = Fin (1/2), tp_b = Fin (- 1/4), tp_c = Fin (- 1/4)\<rparr>"
      "\<lparr>svm_duty_min = Fin (1/16), svm_duty_max = Fin (15/16)\<rparr>"]
  by (simp add: phases_finite_def reference_duty_def limited_def)

text \<open>The largest and the smallest duty before the limits are centred about one half, whatever the third is. Ratios of a half and twice
  minus a quarter give duties whose sum is not three halves.\<close>

lemma injection_centres:
  assumes "z = - (max (max a b) c + min (min a b) c) / (2 :: rat)"
  shows "max (max (1/2 + a + z) (1/2 + b + z)) (1/2 + c + z) + min (min (1/2 + a + z) (1/2 + b + z)) (1/2 + c + z) = 1"
  unfolding assms by (simp add: max_def min_def field_simps)

lemma reference_duties_sum:
  "let m = \<lparr>svm_duty_min = Fin 0, svm_duty_max = Fin 1\<rparr>; r = \<lparr>tp_a = Fin (1/2), tp_b = Fin (- 1/4), tp_c = Fin (- 1/4)\<rparr>
   in reference_duty m r (1/2) + reference_duty m r (- 1/4) + reference_duty m r (- 1/4) = 9 / 8"
  by (simp add: reference_duty_def limited_def)

text \<open>A duty is within its limits whenever it is a number.\<close>

lemma Svm_duty_range:
  assumes "svm_duty_min m \<le> svm_duty_max m" "d \<in> {tp_a (Svm_Calculate m r), tp_b (Svm_Calculate m r), tp_c (Svm_Calculate m r)}"
    "d \<noteq> NaN"
  shows "svm_duty_min m \<le> d \<and> d \<le> svm_duty_max m"
proof -
  obtain v where d: "d = Clamp v (svm_duty_min m) (svm_duty_max m)" using assms(2) by (auto simp: Svm_Calculate_def Let_def)
  have "v \<noteq> NaN" using assms(3) Clamp_nan d by auto
  then show ?thesis unfolding d using Clamp_range assms(1) by blast
qed

end
