(* ===== verification/Float_Relative.thy ===== *)
theory Float_Relative
  imports Float_Sqrt
begin

text \<open>Relative errors of single binary32 operations.\<close>

lemma f32_round_val: "isfinite (f32_round s q) \<Longrightarrow> val (f32_round s q) = rnd q"
  by (auto simp: f32_round_def Let_def zero_of_def inf_of_def split: if_splits)

text \<open>A finite result has finite operands.\<close>

lemma finite_plusD: "isfinite (x + y) \<Longrightarrow> isfinite x \<and> isfinite y"
  by (cases x; cases y) (simp_all add: plus_f32_def)

lemma finite_timesD: "isfinite (x * y) \<Longrightarrow> isfinite x \<and> isfinite y"
  by (cases x; cases y) (simp_all add: times_f32_def Let_def inf_of_def split: if_splits)

lemma val_add: "isfinite x \<Longrightarrow> isfinite y \<Longrightarrow> isfinite (x + y) \<Longrightarrow> val (x + y) = rnd (val x + val y)"
  and val_mult: "isfinite x \<Longrightarrow> isfinite y \<Longrightarrow> isfinite (x * y) \<Longrightarrow> val (x * y) = rnd (val x * val y)"
  and val_div: "isfinite x \<Longrightarrow> isfinite y \<Longrightarrow> val y \<noteq> 0 \<Longrightarrow> isfinite (x / y) \<Longrightarrow> val (x / y) = rnd (val x / val y)"
  by (simp_all add: plus_f32_def times_f32_def divide_f32_def Let_def f32_round_val)

text \<open>One rounding changes a number by at most a factor of \<open>1 + 2 ^ -24\<close>, apart from an absolute error of \<open>2 ^ -150\<close> near zero.\<close>

lemma ulp_error:
  assumes "q \<noteq> 0"
  shows "pow2 (ulp_exp q - 1) \<le> \<bar>q\<bar> / 16777216 \<or> ulp_exp q = - 149 \<and> \<bar>q\<bar> < pow2 (- 126)"
proof -
  define e where "e = ilog2 \<bar>q\<bar>"
  have b: "pow2 e \<le> \<bar>q\<bar>" "\<bar>q\<bar> < pow2 (e + 1)" using ilog2_bounds [of "\<bar>q\<bar>"] assms by (simp_all add: e_def)
  show ?thesis
  proof (cases "- 126 \<le> e")
    case True
    then have u: "ulp_exp q - 1 = e - 24" by (simp add: ulp_exp_def e_def)
    have "pow2 (ulp_exp q - 1) = pow2 e / 16777216" unfolding u using pow2_diff [of e 24] by (simp add: pow2_def [of 24])
    moreover have "pow2 e / 16777216 \<le> \<bar>q\<bar> / 16777216" using b(1) by (rule divide_right_mono) simp
    ultimately show ?thesis by simp
  next
    case False
    then have "ulp_exp q = - 149" by (simp add: ulp_exp_def e_def)
    moreover have "\<bar>q\<bar> < pow2 (- 126)" using b(2) pow2_le_iff [of "e + 1" "- 126"] False by (smt (verit) order.strict_trans2)
    ultimately show ?thesis by simp
  qed
qed

lemma rnd_relative: "\<bar>rnd q - q\<bar> \<le> \<bar>q\<bar> / 16777216 + pow2 (- 150)"
proof (cases "q = 0")
  case False
  have "0 \<le> \<bar>q\<bar> / 16777216" "0 < pow2 (- 150)" by simp_all
  moreover have "pow2 (ulp_exp q - 1) = pow2 (- 150)" if "ulp_exp q = - 149" using that by simp
  ultimately show ?thesis using rnd_error [of q] ulp_error [OF False] by linarith
qed simp

lemma rnd_relative_normal:
  assumes "pow2 (- 126) \<le> \<bar>q\<bar>"
  shows "\<bar>rnd q - q\<bar> \<le> \<bar>q\<bar> / 16777216"
proof -
  have "q \<noteq> 0"
  proof
    assume "q = 0"
    then have "pow2 (- 126) \<le> 0" using assms by simp
    then show False using pow2_pos(1) [of "- 126"] by linarith
  qed
  then show ?thesis using rnd_error [of q] ulp_error [of q] assms by linarith
qed

lemma relative_bounds:
  fixes a b :: rat
  assumes "\<bar>a - b\<bar> \<le> \<bar>b\<bar> / 16777216" "0 \<le> b"
  shows "a \<le> b * (1 + 1 / 16777216)" "b * (1 - 1 / 16777216) \<le> a"
  using assms unfolding distrib_left right_diff_distrib abs_le_iff by simp_all

lemma sum_of_roundings:
  fixes X Y a b m t :: rat
  assumes "\<bar>a - X\<bar> \<le> X / 16777216 + t" "\<bar>b - Y\<bar> \<le> Y / 16777216 + t" "\<bar>m - (a + b)\<bar> \<le> (a + b) / 16777216 + t"
    and "0 \<le> X" "0 \<le> Y" "0 \<le> t" "0 \<le> m"
  shows "X + Y \<le> m * (1 + 3 / 16777216) + 4 * t" "m \<le> (X + Y) * (1 + 3 / 16777216) + 4 * t"
  using assms unfolding add_divide_distrib distrib_left distrib_right abs_le_iff by linarith+

text \<open>A float square sum, from the squares to the rounded sum and back.\<close>

lemma square_sum_error:
  fixes x y :: rat
  assumes "m = rnd (rnd (x * x) + rnd (y * y))"
  shows "x * x + y * y \<le> m * (1 + 3 / 16777216) + 4 * pow2 (- 150)" "m \<le> (x * x + y * y) * (1 + 3 / 16777216) + 4 * pow2 (- 150)" "0 \<le> m"
proof -
  have sq: "0 \<le> x * x" "0 \<le> y * y" "0 < pow2 (- 150)" by simp_all
  then have nn: "0 \<le> rnd (x * x)" "0 \<le> rnd (y * y)" by (simp_all add: rnd_nonneg)
  then show m: "0 \<le> m" unfolding assms by (intro rnd_nonneg) simp
  have "\<bar>rnd (x * x) - x * x\<bar> \<le> x * x / 16777216 + pow2 (- 150)" "\<bar>rnd (y * y) - y * y\<bar> \<le> y * y / 16777216 + pow2 (- 150)"
    "\<bar>m - (rnd (x * x) + rnd (y * y))\<bar> \<le> (rnd (x * x) + rnd (y * y)) / 16777216 + pow2 (- 150)"
    using rnd_relative [of "x * x"] rnd_relative [of "y * y"] rnd_relative [of "rnd (x * x) + rnd (y * y)"] nn sq
    unfolding assms by simp_all
  from sum_of_roundings [OF this sq(1,2) less_imp_le [OF sq(3)] m]
  show "x * x + y * y \<le> m * (1 + 3 / 16777216) + 4 * pow2 (- 150)" "m \<le> (x * x + y * y) * (1 + 3 / 16777216) + 4 * pow2 (- 150)"
    by simp_all
qed

end
