(* ===== verification/Vector_Limit.thy ===== *)
theory Vector_Limit
  imports Frames Float_Relative
begin

text \<open>
  Scaling a vector to a length in binary32: the quotient of the length and the rounded root of the rounded square sum, times each
  coordinate. The scaled vector is not longer than the length up to a factor of \<open>1 + 2 ^ -20\<close>, also if the square sum overflows.
\<close>

text \<open>A vector scaled to the length \<open>L\<close> by the rounded root of its rounded square sum is not longer than \<open>L\<close>, up to roundings.\<close>

lemma scaled_square_sum:
  fixes x y L m s c :: rat
  assumes X: "x * x + y * y \<le> m * (1 + 4 / 16777216)" and m: "0 < m"
    and s: "0 < s" "(1 - 1 / 16777216) * (1 - 1 / 16777216) * m \<le> s * s"
    and c: "0 \<le> c" "c \<le> L / s * (1 + 1 / 16777216)" and L: "0 < L"
  shows "(x * x + y * y) * (c * c) \<le> L * L * (1 + 9 / 16777216)"
proof -
  define p where "p = L / s"
  define W where "W = p * p * m"
  have p: "0 < p" "p * p * (s * s) = L * L" using s(1) L by (simp_all add: p_def)
  have "p * p * ((1 - 1 / 16777216) * (1 - 1 / 16777216) * m) \<le> p * p * (s * s)" using s(2) p(1) by (intro mult_left_mono) simp_all
  then have W: "(1 - 1 / 16777216) * (1 - 1 / 16777216) * W \<le> L * L" unfolding p(2) W_def by (simp only: ac_simps)
  have cc: "c * c \<le> (p * (1 + 1 / 16777216)) * (p * (1 + 1 / 16777216))" using c p(1) unfolding p_def by (intro mult_mono) simp_all
  then have "(x * x + y * y) * (c * c) \<le> m * (1 + 4 / 16777216) * ((p * (1 + 1 / 16777216)) * (p * (1 + 1 / 16777216)))"
    using mult_mono [OF X cc] m by simp
  also have "\<dots> = W * ((1 + 4 / 16777216) * (1 + 1 / 16777216) * (1 + 1 / 16777216))" by (simp only: W_def ac_simps)
  also have "\<dots> \<le> L * L * (1 + 9 / 16777216)"
  proof -
    define Q where "Q = L * L"
    have "0 \<le> Q" by (simp add: Q_def)
    then show ?thesis using W unfolding Q_def [symmetric] by simp
  qed
  finally show ?thesis .
qed

lemma scaled_coordinates:
  fixes x y L c :: rat
  assumes "(x * x + y * y) * (c * c) \<le> L * L * (1 + 9 / 16777216)" "0 < L"
  shows "\<bar>x * c\<bar> \<le> 2 * L" "\<bar>y * c\<bar> \<le> 2 * L"
proof -
  define a b where "a = x * c" and "b = y * c"
  have "a * a + b * b \<le> L * L * (1 + 9 / 16777216)" using assms(1) by (simp add: a_def b_def algebra_simps)
  moreover have "L * L * (1 + 9 / 16777216) \<le> 2 * L * (2 * L)" "0 \<le> a * a" "0 \<le> b * b" using assms(2) by simp_all
  ultimately have "a * a \<le> 2 * L * (2 * L)" "b * b \<le> 2 * L * (2 * L)" by linarith+
  then show "\<bar>x * c\<bar> \<le> 2 * L" "\<bar>y * c\<bar> \<le> 2 * L"
    using power2_le_imp_le [of "\<bar>a\<bar>" "2 * L"] power2_le_imp_le [of "\<bar>b\<bar>" "2 * L"] assms(2)
    unfolding power2_eq_square a_def [symmetric] b_def [symmetric] by simp_all
qed

lemma rounded_square:
  fixes a u t L :: rat
  assumes "\<bar>u\<bar> \<le> a * (1 + 1 / 16777216) + t" "0 \<le> a" "a \<le> 2 * L" "0 \<le> t" "t \<le> L / 2 ^ 100" "0 \<le> L"
  shows "u * u \<le> a * a * (1 + 3 / 16777216) + L * L / 2 ^ 90"
proof -
  have "u * u = \<bar>u\<bar> * \<bar>u\<bar>" by simp
  also have "\<dots> \<le> (a * (1 + 1 / 16777216) + t) * (a * (1 + 1 / 16777216) + t)" using assms by (intro mult_mono) simp_all
  also have "\<dots> = a * a * ((1 + 1 / 16777216) * (1 + 1 / 16777216)) + 2 * (1 + 1 / 16777216) * (a * t) + t * t" by (simp add: algebra_simps)
  also have "\<dots> \<le> a * a * (1 + 3 / 16777216) + 2 * (1 + 1 / 16777216) * (2 * L * (L / 2 ^ 100)) + L / 2 ^ 100 * (L / 2 ^ 100)"
    using assms by (intro add_mono mult_left_mono mult_mono) simp_all
  also have "\<dots> \<le> a * a * (1 + 3 / 16777216) + L * L / 2 ^ 90" using assms(6) by (simp add: field_simps)
  finally show ?thesis .
qed

lemma scaled_vector:
  fixes x y L m s c u v t :: rat
  assumes "x * x + y * y \<le> m * (1 + 4 / 16777216)" "0 < m" "0 < s" "(1 - 1 / 16777216) * (1 - 1 / 16777216) * m \<le> s * s"
    and "0 \<le> c" "c \<le> L / s * (1 + 1 / 16777216)" "0 < L" "0 \<le> t" "t \<le> L / 2 ^ 100"
    and uv: "\<bar>u - x * c\<bar> \<le> \<bar>x * c\<bar> / 16777216 + t" "\<bar>v - y * c\<bar> \<le> \<bar>y * c\<bar> / 16777216 + t"
  shows "u * u + v * v \<le> L * L * (1 + 1 / 1048576)"
proof -
  define a b where "a = \<bar>x * c\<bar>" and "b = \<bar>y * c\<bar>"
  have sum: "a * a + b * b \<le> L * L * (1 + 9 / 16777216)"
    using scaled_square_sum [OF assms(1-7)] by (simp add: a_def b_def algebra_simps abs_mult)
  have ab: "a \<le> 2 * L" "b \<le> 2 * L" using scaled_coordinates [OF scaled_square_sum [OF assms(1-7)] assms(7)] by (simp_all add: a_def b_def)
  have "\<bar>u\<bar> \<le> a * (1 + 1 / 16777216) + t" "\<bar>v\<bar> \<le> b * (1 + 1 / 16777216) + t" using uv unfolding a_def b_def distrib_left by linarith+
  then have "u * u \<le> a * a * (1 + 3 / 16777216) + L * L / 2 ^ 90" "v * v \<le> b * b * (1 + 3 / 16777216) + L * L / 2 ^ 90"
    using rounded_square [OF _ _ ab(1) assms(8,9)] rounded_square [OF _ _ ab(2) assms(8,9)] assms(7) by (simp_all add: a_def b_def)
  then have "u * u + v * v \<le> (a * a + b * b) * (1 + 3 / 16777216) + 2 * (L * L / 2 ^ 90)"
    unfolding distrib_left distrib_right by linarith
  also have "\<dots> \<le> L * L * (1 + 9 / 16777216) * (1 + 3 / 16777216) + 2 * (L * L / 2 ^ 90)" using sum by (intro add_mono mult_right_mono) simp_all
  also have "\<dots> \<le> L * L * (1 + 1 / 1048576)" using assms(7) by (simp add: field_simps)
  finally show ?thesis .
qed

lemma square_sum_finite:
  assumes "isfinite (a * a + b * b)"
  shows "isfinite a" "isfinite b" "val (a * a + b * b) = rnd (rnd (val a * val a) + rnd (val b * val b))" "val (a * a + b * b) \<le> 2 ^ 128"
proof -
  have sq: "isfinite (a * a)" "isfinite (b * b)" using finite_plusD [OF assms] by simp_all
  then show f: "isfinite a" "isfinite b" using finite_timesD by blast+
  show "val (a * a + b * b) = rnd (rnd (val a * val a) + rnd (val b * val b))"
    using val_add [OF sq assms] val_mult [OF f(1,1) sq(1)] val_mult [OF f(2,2) sq(2)] by simp
  show "val (a * a + b * b) \<le> 2 ^ 128" 
  proof -
    have "f32_ok (a * a + b * b)" by simp
    from f32_okD [OF this] show ?thesis by linarith
  qed
qed

text \<open>The scale factor: the root is positive, and the quotient is at most the exact one up to roundings.\<close>

lemma scale_bounds:
  assumes "f32_ok m" "isfinite m" "1 / 2 ^ 90 \<le> val m" "val m \<le> 2 ^ 128" "isfinite l" "1 / 2 ^ 40 \<le> val l" "val l \<le> 2 ^ 40"
  defines "s \<equiv> val (Sqrt m)" and "c \<equiv> l / Sqrt m"
  shows "0 < s" "(1 - 1 / 16777216) * (1 - 1 / 16777216) * val m \<le> s * s"
    "isfinite c" "0 \<le> val c" "val c \<le> val l / s * (1 + 1 / 16777216)" "val c \<le> 2 ^ 90"
proof -
  have m: "0 < val m" using assms(3) by (rule less_le_trans [rotated]) simp
  note q = Sqrt_Fin [OF assms(1,2) m]
  note b = rnd_sqrt_bounds [OF q(3)]
  have s: "s = rnd_sqrt (val m)" and fs: "isfinite (Sqrt m)" using q(1) by (simp_all add: s_def)
  show s0: "0 < s" using b(1) by (simp add: s)
  show low: "(1 - 1 / 16777216) * (1 - 1 / 16777216) * val m \<le> s * s" using b(3) by (simp add: s power2_eq_square)
  have "s\<^sup>2 \<le> (2 ^ 65)\<^sup>2" using b(2) assms(4) by (simp add: s power2_eq_square)
  then have s1: "s \<le> 2 ^ 65" by (rule power2_le_imp_le) simp
  have "(1 / 2 ^ 46)\<^sup>2 \<le> s\<^sup>2" using low assms(3) by (simp add: power2_eq_square)
  then have s2: "1 / 2 ^ 46 \<le> s" by (rule power2_le_imp_le) (use s0 in simp)
  have l0: "0 < val l" using assms(6) by (rule less_le_trans [rotated]) simp
  have "1 / 2 ^ 40 / 2 ^ 65 \<le> val l / s" using s0 s1 assms(6) l0 by (intro frac_le) simp_all
  moreover have "pow2 (- 126) \<le> 1 / 2 ^ 40 / 2 ^ 65" by (simp add: pow2_def)
  ultimately have "pow2 (- 126) \<le> val l / s" by (rule order.trans [rotated])
  then have n: "pow2 (- 126) \<le> \<bar>val l / s\<bar>" by (rule order.trans) (rule abs_ge_self)
  have "val l / s \<le> 2 ^ 40 / (1 / 2 ^ 46)" using s0 s2 assms(7) l0 by (intro frac_le) simp_all
  then have up: "\<bar>val l / s\<bar> \<le> pow2 86" using s0 l0 by (simp add: pow2_def)
  have "pow2 86 \<le> pow2 127" by simp
  then have "\<bar>val l / val (Sqrt m)\<bar> \<le> pow2 127" using up unfolding s_def by linarith
  from div_f32_finite [OF assms(5) fs _ this] s0
  have c: "isfinite c" "val c = rnd (val l / s)" by (simp_all add: c_def s_def)
  show "isfinite c" by (rule c)
  show "0 \<le> val c" unfolding c using s0 l0 by (intro rnd_nonneg) simp
  show "val c \<le> val l / s * (1 + 1 / 16777216)"
    using rnd_relative_normal [OF n] s0 l0 unfolding c distrib_left by simp
  show "val c \<le> 2 ^ 90" using rnd_abs_less_pow2 [OF up] unfolding c(2) by (simp add: pow2_def)
qed

lemma square_limit:
  assumes "isfinite l" "1 / 2 ^ 40 \<le> val l" "val l \<le> 2 ^ 40"
  defines "L \<equiv> val l"
  shows "isfinite (l * l)" "val (l * l) \<le> L * L * (1 + 1 / 16777216)" "L * L * (1 - 1 / 16777216) \<le> val (l * l)" "1 / 2 ^ 80 \<le> L * L"
    "pow2 (- 150) \<le> L * L / 2 ^ 60" "pow2 (- 150) \<le> L / 2 ^ 100"
proof -
  have L: "0 \<le> L" unfolding L_def using assms(2) by (rule order.trans [rotated]) simp
  have "1 / 2 ^ 40 * (1 / 2 ^ 40) \<le> L * L" using assms(2) L unfolding L_def by (intro mult_mono) simp_all
  then show l: "1 / 2 ^ 80 \<le> L * L" by simp
  moreover have "pow2 (- 126) \<le> 1 / 2 ^ 80" by (simp add: pow2_def)
  ultimately have "pow2 (- 126) \<le> L * L" by (rule order.trans [rotated])
  then have n: "pow2 (- 126) \<le> \<bar>L * L\<bar>" by (rule order.trans) (rule abs_ge_self)
  have "L * L \<le> 2 ^ 40 * 2 ^ 40" using assms(3) L unfolding L_def by (intro mult_mono) simp_all
  then have LL: "\<bar>L * L\<bar> \<le> pow2 127" using L by (simp add: pow2_def)
  have f: "isfinite (l * l)" "val (l * l) = rnd (L * L)"
    using mul_f32_finite [OF assms(1,1)] LL by (simp_all add: L_def)
  show "isfinite (l * l)" by (rule f)
  show "val (l * l) \<le> L * L * (1 + 1 / 16777216)" "L * L * (1 - 1 / 16777216) \<le> val (l * l)"
    using relative_bounds [OF rnd_relative_normal [OF n]] unfolding f(2) by simp_all
  show "pow2 (- 150) \<le> L * L / 2 ^ 60" using l by (simp add: pow2_def)
  show "pow2 (- 150) \<le> L / 2 ^ 100" using assms(2) by (simp add: pow2_def L_def)
qed

lemma rnd_same_sign: "0 \<le> c \<Longrightarrow> 0 \<le> rnd (x * c) * x"
  using rnd_nonneg [of "x * c"] rnd_nonneg [of "- x * c"] by (cases "0 \<le> x") (simp_all add: mult_nonneg_nonneg mult_nonpos_nonpos mult_nonpos_nonneg)

lemma scaled_to_length:
  fixes a b l
  defines "mag \<equiv> a * a + b * b" and "L \<equiv> val l"
  defines "c \<equiv> l / Sqrt mag"
  assumes "isfinite mag" "1 / 2 ^ 90 \<le> val mag" "isfinite l" "1 / 2 ^ 40 \<le> L" "L \<le> 2 ^ 40"
  shows "isfinite (a * c)" "isfinite (b * c)" "val (a * c) * val (a * c) + val (b * c) * val (b * c) \<le> L * L * (1 + 1 / 2 ^ 20)"
    "0 \<le> val (a * c) * val a" "0 \<le> val (b * c) * val b"
proof -
  define t where "t = pow2 (- 150)"
  define m where "m = val mag"
  note f = square_sum_finite [OF assms(4) [unfolded mag_def], folded mag_def]
  have L: "0 < L" using assms(7) by (rule less_le_trans [rotated]) simp
  note q = square_limit [OF assms(6) assms(7,8) [unfolded L_def], folded L_def t_def]
  note sum = square_sum_error [of m "val a" "val b", folded t_def, OF f(3) [folded m_def]]
  have ok: "f32_ok mag" by (simp add: mag_def)
  have m: "1 / 2 ^ 90 \<le> m" "t \<le> m / 2 ^ 50" using assms(5) by (simp_all add: m_def t_def pow2_def)
  have m0: "0 < m" using m(1) by (rule less_le_trans [rotated]) simp
  note s = scale_bounds [OF ok assms(4) m(1) [unfolded m_def] f(4) assms(6,7,8) [unfolded L_def], folded m_def c_def L_def]
  have X: "val a * val a + val b * val b \<le> m * (1 + 4 / 16777216)" using sum(1) m(2) m0 by simp
  note circle = scaled_square_sum [OF X m0 s(1,2,4,5) L]
  have "\<bar>val a * c'\<bar> \<le> pow2 127 \<and> \<bar>val b * c'\<bar> \<le> pow2 127" if "c' = val c" for c'
    using scaled_coordinates [OF circle L] assms(8) that by (simp add: pow2_def)
  then have v: "isfinite (a * c)" "val (a * c) = rnd (val a * val c)" "isfinite (b * c)" "val (b * c) = rnd (val b * val c)"
    using mul_f32_finite [OF f(1) s(3)] mul_f32_finite [OF f(2) s(3)] by simp_all
  show "isfinite (a * c)" "isfinite (b * c)" by (rule v)+
  have r: "\<bar>rnd z - z\<bar> \<le> \<bar>z\<bar> / 16777216 + t" for z using rnd_relative [of z] by (simp add: t_def)
  have "0 \<le> t" by (simp add: t_def)
  from scaled_vector [OF X m0 s(1,2,4,5) L this q(6) r r]
  show "val (a * c) * val (a * c) + val (b * c) * val (b * c) \<le> L * L * (1 + 1 / 2 ^ 20)" by (simp add: v)
  show "0 \<le> val (a * c) * val a" "0 \<le> val (b * c) * val b" using rnd_same_sign [OF s(4)] by (simp_all add: v)
qed

text \<open>A square sum that overflows has an infinite root, and the scaled vector is zero.\<close>

lemma square_sum_infinite:
  assumes "isfinite a" "isfinite b" "\<not> isfinite (a * a + b * b)"
  shows "a * a + b * b = PInf"
proof -
  have nn: "x * x = PInf \<or> isfinite (x * x) \<and> 0 \<le> val (x * x)" if "isfinite x" for x :: f32
    using that f32_round_val [of False "val x * val x"] rnd_nonneg [of "val x * val x"]
    by (cases x) (auto simp: times_f32_def Let_def f32_round_def inf_of_def zero_of_def)
  have "x + y = PInf" if "isfinite x" "isfinite y" "0 \<le> val x" "0 \<le> val y" "\<not> isfinite (x + y)" for x y :: f32
    using that rnd_nonneg [of "val x + val y"]
    by (auto simp: plus_f32_def f32_round_def Let_def inf_of_def zero_of_def split: if_splits)
  moreover have "PInf + y = PInf" "y + PInf = PInf" if "y = PInf \<or> isfinite y" for y
    using that by (cases y; simp add: plus_f32_def)+
  ultimately show ?thesis using nn [OF assms(1)] nn [OF assms(2)] assms(3) by metis
qed

lemma scaled_by_infinity:
  assumes "isfinite a" "isfinite l"
  shows "isfinite (a * (l / Sqrt PInf))" "val (a * (l / Sqrt PInf)) = 0"
proof -
  have "isfinite (l / PInf) \<and> val (l / PInf) = 0" using assms(2) by (cases l) (auto simp: divide_f32_def Let_def zero_of_def)
  then show "isfinite (a * (l / Sqrt PInf))" "val (a * (l / Sqrt PInf)) = 0"
    using mul_f32_finite [OF assms(1), of "l / PInf"] by (simp_all add: Sqrt_def f32_sqrt_def)
qed

text \<open>Coordinates of usual size have a finite square sum.\<close>

lemma square_le_bound: "x * x + y * y \<le> 2 ^ 80 \<Longrightarrow> \<bar>x\<bar> \<le> 2 ^ 40" "x * x + y * y \<le> 2 ^ 80 \<Longrightarrow> \<bar>y\<bar> \<le> (2 :: rat) ^ 40"
proof -
  have sq: "0 \<le> x * x" "0 \<le> y * y" by simp_all
  have root: "\<bar>z\<bar> \<le> 2 ^ 40" if "z * z \<le> 2 ^ 80" for z :: rat
    using that by (intro power2_le_imp_le [of "\<bar>z\<bar>" "2 ^ 40"]) (simp_all add: power2_eq_square)
  show "\<bar>x\<bar> \<le> 2 ^ 40" if "x * x + y * y \<le> 2 ^ 80" using that sq by (intro root) linarith
  show "\<bar>y\<bar> \<le> 2 ^ 40" if "x * x + y * y \<le> 2 ^ 80" using that sq by (intro root) linarith
qed

lemma finite_square_sum:
  assumes "isfinite a" "isfinite b" "\<bar>val a\<bar> \<le> 2 ^ 40" "\<bar>val b\<bar> \<le> 2 ^ 40"
  shows "isfinite (a * a + b * b)"
proof -
  have p: "pow2 80 = 2 ^ 80" "pow2 81 = 2 * 2 ^ 80" by (simp_all add: pow2_def)
  have sq: "0 \<le> val a * val a" "0 \<le> val b * val b" "val a * val a \<le> pow2 80" "val b * val b \<le> pow2 80"
    using mult_mono [OF assms(3,3)] mult_mono [OF assms(4,4)] by (simp_all add: p(1))
  have r: "0 \<le> rnd (val a * val a)" "0 \<le> rnd (val b * val b)" "rnd (val a * val a) \<le> pow2 80" "rnd (val b * val b) \<le> pow2 80"
    using sq rnd_nonneg rnd_abs_less_pow2 [of "val a * val a" 80] rnd_abs_less_pow2 [of "val b * val b" 80] by simp_all
  have le: "pow2 80 \<le> pow2 127" "pow2 81 \<le> pow2 127" by simp_all
  have fa: "isfinite (a * a)" "val (a * a) = rnd (val a * val a)" and fb: "isfinite (b * b)" "val (b * b) = rnd (val b * val b)"
    using mul_f32_finite [OF assms(1,1)] mul_f32_finite [OF assms(2,2)] sq le(1) by simp_all
  have s: "\<bar>rnd (val a * val a) + rnd (val b * val b)\<bar> \<le> pow2 81" using r unfolding p(2) p(1) by simp
  then show ?thesis using add_f32_finite [OF fa(1) fb(1)] le(2) by (simp add: fa(2) fb(2))
qed

end
