(* ===== verification/Current_Controller.thy ===== *)
theory Current_Controller
  imports Vector_Limit
begin

text \<open>
  The current controller (\<open>current_controller.hpp\<close>): two PI loops with decoupling feedforward, the limit of the voltage
  vector to a circle, and back-calculation anti-windup.
\<close>

section \<open>State\<close>

record CurrentController =
  ctl_L_d :: f32
  ctl_L_q :: f32
  ctl_psi :: f32
  ctl_kp_d :: f32
  ctl_ki_d :: f32
  ctl_kp_q :: f32
  ctl_ki_q :: f32
  ctl_kb_d :: f32
  ctl_kb_q :: f32
  ctl_v_max :: f32
  ctl_integrator_d :: f32
  ctl_integrator_q :: f32

definition CurrentController_init :: CurrentController where
  "CurrentController_init = \<lparr>ctl_L_d = from_milli (f32_of 1), ctl_L_q = from_milli (f32_of 1), ctl_psi = 0,
     ctl_kp_d = f32_of 1, ctl_ki_d = f32_of 100, ctl_kp_q = f32_of 1, ctl_ki_q = f32_of 100,
     ctl_kb_d = f32_of 100, ctl_kb_q = f32_of 100, ctl_v_max = f32_of (9/10), ctl_integrator_d = 0, ctl_integrator_q = 0\<rparr>"

section \<open>Operations\<close>

definition ctl_Reset :: "CurrentController \<Rightarrow> CurrentController" where
  "ctl_Reset c = c\<lparr>ctl_integrator_d := 0, ctl_integrator_q := 0\<rparr>"

text \<open>The voltage before the limit: proportional part, integrator and feedforward.\<close>

definition raw_voltage :: "CurrentController \<Rightarrow> Rotor \<Rightarrow> Rotor \<Rightarrow> f32 \<Rightarrow> Rotor" where
  "raw_voltage c i_ref i_meas omega = (let
     e_d = ro_d i_ref - ro_d i_meas;
     e_q = ro_q i_ref - ro_q i_meas;
     v_ff_d = - (omega * (ctl_L_q c * ro_q i_meas));
     v_ff_q = omega * ((ctl_L_d c * ro_d i_meas) + ctl_psi c)
   in \<lparr>ro_d = (ctl_kp_d c * e_d) + ctl_integrator_d c + v_ff_d, ro_q = (ctl_kp_q c * e_q) + ctl_integrator_q c + v_ff_q\<rparr>)"

definition limit_voltage :: "f32 \<Rightarrow> Rotor \<Rightarrow> Rotor" where
  "limit_voltage v_limit u_raw = (let mag_sq = (ro_d u_raw * ro_d u_raw) + (ro_q u_raw * ro_q u_raw) in
     if mag_sq > v_limit * v_limit
     then (let scale = v_limit / Sqrt mag_sq in \<lparr>ro_d = ro_d u_raw * scale, ro_q = ro_q u_raw * scale\<rparr>)
     else u_raw)"

definition ctl_Update :: "Rotor \<Rightarrow> Rotor \<Rightarrow> f32 \<Rightarrow> f32 \<Rightarrow> f32 \<Rightarrow> CurrentController \<Rightarrow> Rotor \<times> CurrentController" where
  "ctl_Update i_ref i_meas omega dt v_dc c = (let
     u_raw = raw_voltage c i_ref i_meas omega;
     u = limit_voltage (ctl_v_max c * v_dc) u_raw
   in (u, c\<lparr>
     ctl_integrator_d := ctl_integrator_d c
       + ((ctl_ki_d c * (ro_d i_ref - ro_d i_meas)) + (ctl_kb_d c * (ro_d u - ro_d u_raw))) * dt,
     ctl_integrator_q := ctl_integrator_q c
       + ((ctl_ki_q c * (ro_q i_ref - ro_q i_meas)) + (ctl_kb_q c * (ro_q u - ro_q u_raw))) * dt\<rparr>))"

section \<open>The voltage circle\<close>

lemma limit_voltage_circle:
  fixes x y L
  assumes "isfinite (ro_d u)" "isfinite (ro_q u)" "isfinite v_limit"
  defines "x \<equiv> val (ro_d u)" and "y \<equiv> val (ro_q u)" and "L \<equiv> val v_limit" and "w \<equiv> limit_voltage v_limit u"
  assumes "1 / 2 ^ 40 \<le> L" "L \<le> 2 ^ 40"
  shows "isfinite (ro_d w) \<and> isfinite (ro_q w) \<and> 0 \<le> val (ro_d w) * x \<and> 0 \<le> val (ro_q w) * y
    \<and> val (ro_d w) * val (ro_d w) + val (ro_q w) * val (ro_q w) \<le> L * L * (1 + 1 / 2 ^ 20)
    \<and> (x * x + y * y \<le> L * L * (1 - 1 / 2 ^ 20) \<longrightarrow> w = u)"
proof -
  define t where "t = pow2 (- 150)"
  define mag where "mag = ro_d u * ro_d u + ro_q u * ro_q u"
  define m where "m = val mag"
  define Q where "Q = L * L"
  note q = square_limit [OF assms(3) assms(8,9) [unfolded L_def], folded L_def t_def]
  note q = q [folded Q_def]
  have w: "w = (if mag > v_limit * v_limit then \<lparr>ro_d = ro_d u * (v_limit / Sqrt mag), ro_q = ro_q u * (v_limit / Sqrt mag)\<rparr> else u)"
    by (simp add: w_def limit_voltage_def mag_def Let_def)
  show ?thesis
  proof (cases "isfinite mag")
    case True
    note f = square_sum_finite [OF True [unfolded mag_def], folded mag_def x_def y_def m_def]
    note sum = square_sum_error [of m x y, folded t_def, OF f(3)]
    show ?thesis
    proof (cases "mag > v_limit * v_limit")
      case False
      have "m \<le> val (v_limit * v_limit)" using False True q(1) by (simp add: less_finite m_def)
      then have "x * x + y * y \<le> Q * (1 + 1 / 2 ^ 20)" using sum(1) q(2,4,5) by simp
      then show ?thesis using assms(1,2) False unfolding w Q_def x_def y_def by simp
    next
      case gt: True
      then have gt': "val (v_limit * v_limit) < m" using True q(1) by (simp add: less_finite m_def)
      have "1 / 2 ^ 90 \<le> val mag" using gt' q(3,4) unfolding m_def by simp
      note s = scaled_to_length [OF True [unfolded mag_def] this [unfolded mag_def] assms(3) assms(8,9) [unfolded L_def], folded mag_def L_def x_def y_def]
      have "\<not> X \<le> Q * (1 - 1 / 2 ^ 20)" if "m \<le> X * (1 + 3 / 16777216) + 4 * t" for X
        using that gt' q(3-5) by (auto simp: field_simps)
      from this [OF sum(2)] have "\<not> x * x + y * y \<le> L * L * (1 - 1 / 2 ^ 20)" unfolding Q_def .
      then show ?thesis using s gt by (simp add: w)
    qed
  next
    case False
    have mag: "mag = PInf" using square_sum_infinite [OF assms(1,2)] False by (simp add: mag_def)
    have gt: "mag > v_limit * v_limit" using q(1) unfolding mag by (cases "v_limit * v_limit") (simp_all add: less_f32_def)
    have "\<not> (x * x + y * y \<le> 2 ^ 80)"
    proof
      assume b: "x * x + y * y \<le> 2 ^ 80"
      note square_le_bound [OF b]
      then show False using False finite_square_sum [OF assms(1,2)] by (simp add: mag_def x_def y_def)
    qed
    moreover have "Q * (1 - 1 / 2 ^ 20) \<le> 2 ^ 80" using assms(8,9) mult_mono [of L "2 ^ 40" L "2 ^ 40"] unfolding Q_def by simp
    ultimately have "\<not> x * x + y * y \<le> L * L * (1 - 1 / 2 ^ 20)" unfolding Q_def by simp
    then show ?thesis using scaled_by_infinity [OF assms(1,3)] scaled_by_infinity [OF assms(2,3)] gt by (simp add: w mag)
  qed
qed

text \<open>
  C24. The current controller never asks for more voltage than its limit: with a finite raw voltage and a limit of usual size the commanded
  vector is finite, the square of its length is at most that of the limit up to a factor of \<open>1 + 2 ^ -20\<close>, each
  component keeps the sign of the raw voltage, and a raw vector inside the circle (by \<open>2 ^ -20\<close>) is passed unchanged.
\<close>
theorem ctl_Update_circle:
  fixes c i_ref i_meas omega dt v_dc
  defines "raw \<equiv> raw_voltage c i_ref i_meas omega" and "L \<equiv> val (ctl_v_max c * v_dc)"
    and "w \<equiv> fst (ctl_Update i_ref i_meas omega dt v_dc c)"
  defines "x \<equiv> val (ro_d raw)" and "y \<equiv> val (ro_q raw)"
  assumes "isfinite (ro_d raw)" "isfinite (ro_q raw)" "isfinite (ctl_v_max c * v_dc)"
    and "1 / 2 ^ 40 \<le> L" "L \<le> 2 ^ 40"
  shows "isfinite (ro_d w) \<and> isfinite (ro_q w) \<and> 0 \<le> val (ro_d w) * x \<and> 0 \<le> val (ro_q w) * y
    \<and> val (ro_d w) * val (ro_d w) + val (ro_q w) * val (ro_q w) \<le> L * L * (1 + 1 / 2 ^ 20)
    \<and> (x * x + y * y \<le> L * L * (1 - 1 / 2 ^ 20) \<longrightarrow> w = raw)"
proof -
  have "w = limit_voltage (ctl_v_max c * v_dc) raw" by (simp add: w_def raw_def ctl_Update_def Let_def)
  then show ?thesis
    using limit_voltage_circle [of raw "ctl_v_max c * v_dc"] assms(6-) unfolding x_def y_def L_def by simp
qed

definition plain_controller :: CurrentController where
  "plain_controller = \<lparr>ctl_L_d = 0, ctl_L_q = 0, ctl_psi = 0, ctl_kp_d = Fin 1, ctl_ki_d = 0, ctl_kp_q = Fin 1, ctl_ki_q = 0,
     ctl_kb_d = 0, ctl_kb_q = 0, ctl_v_max = Fin (1/2), ctl_integrator_d = 0, ctl_integrator_q = 0\<rparr>"

theorem ctl_Update_circle_witness:
  "let w = fst (ctl_Update \<lparr>ro_d = Fin 3, ro_q = Fin 64\<rparr> \<lparr>ro_d = 0, ro_q = 0\<rparr> 0 (Fin (1/4)) (Fin 24) plain_controller)
   in val (ro_d w) * val (ro_d w) + val (ro_q w) * val (ro_q w) \<le> 144 * (1 + 1 / 2 ^ 20) \<and> 0 \<le> val (ro_q w)"
proof -
  have l: "ctl_v_max plain_controller * Fin 24 = Fin 12" by (simp add: plain_controller_def f32_eval)
  have raw: "raw_voltage plain_controller \<lparr>ro_d = Fin 3, ro_q = Fin 64\<rparr> \<lparr>ro_d = 0, ro_q = 0\<rparr> 0 = \<lparr>ro_d = Fin 3, ro_q = Fin 64\<rparr>"
  proof -
    have "Fin 3 - 0 = Fin 3" "Fin 64 - 0 = Fin 64" "Fin 1 * Fin 3 = Fin 3" "Fin 1 * Fin 64 = Fin 64" "(0 :: f32) * 0 = 0"
      "(0 :: f32) + 0 = 0" "Fin 3 + 0 = Fin 3" "Fin 64 + 0 = Fin 64" "- (0 :: f32) = NZero" "Fin 3 + NZero = Fin 3"
      by (simp_all add: f32_eval zero_f32_def zero_of_def)
    then show ?thesis by (simp add: raw_voltage_def plain_controller_def)
  qed
  show ?thesis
    using ctl_Update_circle [of plain_controller "\<lparr>ro_d = Fin 3, ro_q = Fin 64\<rparr>" "\<lparr>ro_d = 0, ro_q = 0\<rparr>" 0 "Fin 24" "Fin (1/4)"]
    unfolding l raw Let_def by simp
qed

end
