(* ===== verification/Mechanical_Observer.thy ===== *)
theory Mechanical_Observer
  imports Frames Float_Relative Nvm_Settings
begin

text \<open>
  The mechanical observer (\<open>mechanical_observer.hpp\<close>): a Kalman filter of speed, angle and load torque. Every operation that
  wraps an angle or looks up a sine returns an option, \<open>None\<close> is a wrap that does not end or an undefined cast.
\<close>

section \<open>State\<close>

type_synonym matrix = "f32 list list"

definition zero_matrix :: matrix where
  "zero_matrix = replicate 3 (replicate 3 0)"

record MechanicalObserver =
  mo_psi :: f32
  mo_L_d :: f32
  mo_L_q :: f32
  mo_J :: f32
  mo_pole_pairs :: u8
  mo_omega_max :: f32
  mo_omega_min :: f32
  mo_Q :: f32
  mo_R :: f32
  mo_omega :: f32
  mo_theta :: f32
  mo_m_l :: f32
  mo_m_el :: f32
  mo_sin_theta :: f32
  mo_cos_theta :: f32
  mo_p :: matrix
  mo_pk :: matrix
  mo_k :: "f32 list"
  mo_s :: f32

definition MechanicalObserver_init :: MechanicalObserver where
  "MechanicalObserver_init = \<lparr>mo_psi = 0, mo_L_d = 0, mo_L_q = 0, mo_J = 0, mo_pole_pairs = 1, mo_omega_max = 0, mo_omega_min = 0,
     mo_Q = f32_of (1/100000), mo_R = f32_of (1/10000), mo_omega = 0, mo_theta = 0, mo_m_l = 0, mo_m_el = 0,
     mo_sin_theta = 0, mo_cos_theta = f32_of 1, mo_p = zero_matrix, mo_pk = zero_matrix, mo_k = replicate 3 0, mo_s = 0\<rparr>"

section \<open>Operations\<close>

definition mo_UpdateSinCos :: "MechanicalObserver \<Rightarrow> MechanicalObserver option" where
  "mo_UpdateSinCos m = (let m = (if isfinite (mo_theta m) then m else m\<lparr>mo_theta := 0\<rparr>) in do {
     sin_cos \<leftarrow> Calculate_angle (mo_theta m);
     Some (m\<lparr>mo_sin_theta := sc_sin sin_cos, mo_cos_theta := sc_cos sin_cos\<rparr>) })"

definition kSpeedGuard :: f32 where
  "kSpeedGuard = f32_of 2"

definition ClampSpeed :: "MechanicalObserver \<Rightarrow> MechanicalObserver" where
  "ClampSpeed m = (let
     upper = mo_omega_max m * kSpeedGuard;
     lower = mo_omega_min m * kSpeedGuard;
     omega = (if mo_omega m > upper then upper else if mo_omega m < lower then lower else mo_omega m)
   in m\<lparr>mo_omega := (if isfinite omega then omega else 0)\<rparr>)"

definition mo_Reset :: "f32 \<Rightarrow> f32 \<Rightarrow> MechanicalObserver \<Rightarrow> MechanicalObserver option" where
  "mo_Reset theta_init omega_init m = mo_UpdateSinCos (m\<lparr>mo_omega := omega_init, mo_theta := theta_init, mo_m_l := 0, mo_m_el := 0,
     mo_p := zero_matrix, mo_pk := zero_matrix, mo_k := replicate 3 0, mo_s := 0\<rparr>)"

definition mo_Init :: "NvmSettings \<Rightarrow> MechanicalObserver \<Rightarrow> MechanicalObserver option" where
  "mo_Init settings m = mo_Reset 0 0 (m\<lparr>mo_psi := nvm_flux_pm settings, mo_L_d := nvm_l_d settings, mo_L_q := nvm_l_q settings,
     mo_J := nvm_motor_j settings, mo_pole_pairs := nvm_pole_pairs settings, mo_omega_max := nvm_motor_omega_max settings,
     mo_omega_min := nvm_motor_omega_min settings, mo_Q := nvm_mech_obs_q settings, mo_R := nvm_mech_obs_r settings\<rparr>)"

definition electric_torque :: "MechanicalObserver \<Rightarrow> Rotor \<Rightarrow> f32" where
  "electric_torque m i_dq = f32_of (3/2) * f32_of_int (uint (mo_pole_pairs m)) *
     ((mo_psi m * ro_q i_dq) + ((mo_L_d m - mo_L_q m) * ro_d i_dq * ro_q i_dq))"

definition mo_Predict :: "Rotor \<Rightarrow> f32 \<Rightarrow> MechanicalObserver \<Rightarrow> MechanicalObserver option" where
  "mo_Predict i_dq dt m = (let
     tsj = dt / mo_J m;
     m_el = electric_torque m i_dq;
     m = ClampSpeed (m\<lparr>mo_m_el := m_el,
       mo_omega := mo_omega m + tsj * ((f32_of_int (uint (mo_pole_pairs m)) * m_el) - mo_m_l m)\<rparr>)
   in do {
     theta \<leftarrow> WrapAngle (mo_theta m + mo_omega m * dt);
     mo_UpdateSinCos (m\<lparr>mo_theta := theta\<rparr>) })"

definition mo_PredictCovariance :: "f32 \<Rightarrow> MechanicalObserver \<Rightarrow> MechanicalObserver" where
  "mo_PredictCovariance dt m = (let
     tsj = dt / mo_J m;
     p = (\<lambda>r c. mo_p m ! r ! c);
     Q = mo_Q m;
     pk02 = p 0 2 - p 2 2 * tsj;
     pk00 = p 0 0 + Q - p 2 0 * tsj - pk02 * tsj;
     pk10 = p 1 0 + p 0 0 * dt - tsj * (p 1 2 + p 0 2 * dt);
     pk20 = p 2 0 - tsj * p 2 2;
     pk01 = p 0 1 + dt * (p 0 0 - tsj * p 2 0) - tsj * p 2 1;
     pk11 = p 1 1 + Q + p 0 1 * dt + dt * (p 1 0 + p 0 0 * dt);
     pk21 = p 2 1 + p 2 0 * dt;
     pk12 = p 1 2 + p 0 2 * dt;
     pk22 = p 2 2 + Q;
     pk = [[pk00, pk01, pk02], [pk10, pk11, pk12], [pk20, pk21, pk22]]
   in m\<lparr>mo_pk := pk, mo_p := pk\<rparr>)"

text \<open>The gain vector and the corrected covariance of a measurement of one state.\<close>

definition kalman_gain :: "matrix \<Rightarrow> nat \<Rightarrow> f32 \<Rightarrow> f32 list" where
  "kalman_gain p state s = map (\<lambda>row. p ! row ! state * s) [0, 1, 2]"

definition corrected :: "matrix \<Rightarrow> nat \<Rightarrow> f32 list \<Rightarrow> matrix" where
  "corrected p state k = map (\<lambda>row. map (\<lambda>column. p ! row ! column - k ! row * (p ! state ! column)) [0, 1, 2]) [0, 1, 2]"

definition Correct :: "nat \<Rightarrow> f32 \<Rightarrow> f32 \<Rightarrow> MechanicalObserver \<Rightarrow> MechanicalObserver option" where
  "Correct state innovation noise m = (let variance = mo_p m ! state ! state + noise in
     if \<not> (variance > 0) \<or> \<not> isfinite innovation then Some m
     else let
       s = f32_of 1 / variance;
       k = kalman_gain (mo_p m) state s;
       m = ClampSpeed (m\<lparr>mo_s := s, mo_k := k, mo_p := corrected (mo_p m) state k,
         mo_omega := mo_omega m + k ! 0 * innovation,
         mo_theta := mo_theta m + k ! 1 * innovation,
         mo_m_l := mo_m_l m + k ! 2 * innovation\<rparr>)
     in do {
       theta \<leftarrow> WrapAngle (mo_theta m);
       mo_UpdateSinCos (m\<lparr>mo_theta := theta\<rparr>) })"

definition UpdateAngle :: "f32 \<Rightarrow> f32 \<Rightarrow> MechanicalObserver \<Rightarrow> MechanicalObserver option" where
  "UpdateAngle innovation noise m = do { wrapped \<leftarrow> WrapAngle innovation; Correct 1 wrapped noise m }"

definition UpdateSpeed :: "f32 \<Rightarrow> f32 \<Rightarrow> MechanicalObserver \<Rightarrow> MechanicalObserver option" where
  "UpdateSpeed innovation noise m = Correct 0 innovation noise m"

definition HoldStill :: "MechanicalObserver \<Rightarrow> MechanicalObserver" where
  "HoldStill m = m\<lparr>mo_omega := 0, mo_m_l := mo_m_el m * f32_of_int (uint (mo_pole_pairs m))\<rparr>"

definition InjectAngleError :: "f32 \<Rightarrow> f32 \<Rightarrow> MechanicalObserver \<Rightarrow> MechanicalObserver option" where
  "InjectAngleError angle_error dt m = UpdateAngle angle_error (mo_R m) (mo_PredictCovariance dt m)"

section \<open>The estimate stays usable\<close>

definition speed_limits_ok :: "MechanicalObserver \<Rightarrow> bool" where
  "speed_limits_ok m \<longleftrightarrow> isfinite (mo_omega_max m) \<and> isfinite (mo_omega_min m) \<and> val (mo_omega_min m) \<le> 0 \<and> 0 \<le> val (mo_omega_max m)"

definition speed_ok :: "MechanicalObserver \<Rightarrow> bool" where
  "speed_ok m \<longleftrightarrow> isfinite (mo_omega m) \<and> mo_omega_min m * kSpeedGuard \<le> mo_omega m \<and> mo_omega m \<le> mo_omega_max m * kSpeedGuard"

definition angle_ok :: "MechanicalObserver \<Rightarrow> bool" where
  "angle_ok m \<longleftrightarrow> f32_ok (mo_theta m) \<and> isfinite (mo_theta m) \<and> - kPi \<le> mo_theta m \<and> mo_theta m \<le> kPi
     \<and> isfinite (mo_sin_theta m) \<and> isfinite (mo_cos_theta m)
     \<and> \<bar>val (mo_sin_theta m) * val (mo_sin_theta m) + val (mo_cos_theta m) * val (mo_cos_theta m) - 1\<bar> \<le> 1 / 10 ^ 5"

definition estimate_ok :: "MechanicalObserver \<Rightarrow> bool" where
  "estimate_ok m \<longleftrightarrow> speed_limits_ok m \<and> speed_ok m \<and> angle_ok m"

lemma f32_ok_plus [simp]: "f32_ok (x + y)"
  by (cases x; cases y) (simp_all add: plus_f32_def)

lemma guard_limits:
  assumes "speed_limits_ok m"
  shows "mo_omega_min m * kSpeedGuard \<le> 0" "0 \<le> mo_omega_max m * kSpeedGuard"
proof -
  have two: "kSpeedGuard = Fin 2" by (simp add: kSpeedGuard_def f32_eval)
  have "f32_round s (val (mo_omega_min m) * 2) \<le> f32_round False 0" "f32_round False 0 \<le> f32_round s (val (mo_omega_max m) * 2)" for s
    using assms by (intro f32_round_le; simp add: speed_limits_ok_def)+
  moreover have "f32_round False 0 = 0" by (simp add: f32_round_def zero_of_def zero_f32_def)
  ultimately show "mo_omega_min m * kSpeedGuard \<le> 0" "0 \<le> mo_omega_max m * kSpeedGuard"
    using assms unfolding two by (simp_all add: times_f32_def Let_def speed_limits_ok_def)
qed

lemma ClampSpeed_ok:
  assumes "speed_limits_ok m"
  shows "speed_ok (ClampSpeed m)" "speed_limits_ok (ClampSpeed m)" "mo_theta (ClampSpeed m) = mo_theta m"
proof -
  note g = guard_limits [OF assms]
  define lo hi w where "lo = mo_omega_min m * kSpeedGuard" and "hi = mo_omega_max m * kSpeedGuard" and "w = mo_omega m"
  have lh: "lo \<le> 0" "0 \<le> hi" using g by (simp_all add: lo_def hi_def)
  define c where "c = (if w > hi then hi else if w < lo then lo else w)"
  have "isfinite (if isfinite c then c else 0) \<and> lo \<le> (if isfinite c then c else 0) \<and> (if isfinite c then c else 0) \<le> hi"
  proof (cases "isfinite c")
    case True
    then have "c \<noteq> NaN" by auto
    then have "lo \<le> c \<and> c \<le> hi"
      using lh le_trans_f32 [OF lh] le_not_nan [OF lh(1)] le_not_nan [OF lh(2)] by (auto simp: c_def le_refl_f32 not_less_f32 split: if_splits)
    then show ?thesis using True by simp
  qed (use lh in \<open>simp add: zero_f32_def\<close>)
  moreover have "ClampSpeed m = m\<lparr>mo_omega := (if isfinite c then c else 0)\<rparr>"
    unfolding ClampSpeed_def Let_def c_def lo_def hi_def w_def by (rule refl)
  ultimately show "speed_ok (ClampSpeed m)" by (simp add: speed_ok_def lo_def hi_def)
  show "speed_limits_ok (ClampSpeed m)" using assms by (simp add: speed_limits_ok_def ClampSpeed_def Let_def)
  show "mo_theta (ClampSpeed m) = mo_theta m" by (simp add: ClampSpeed_def Let_def)
qed

text \<open>The sine and cosine of an angle in range are found and lie on the unit circle.\<close>

lemma Calculate_angle_circle:
  assumes "isfinite x" "\<bar>val x\<bar> \<le> 2 ^ 30"
  obtains sc where "Calculate_angle x = Some sc" "isfinite (sc_sin sc)" "isfinite (sc_cos sc)"
    "\<bar>val (sc_sin sc) * val (sc_sin sc) + val (sc_cos sc) * val (sc_cos sc) - 1\<bar> \<le> 1 / 10 ^ 5"
proof -
  obtain counts carry where "counts_of_angle x = Some (counts, carry)" using counts_of_angle_near [OF assms] by metis
  then show ?thesis using that Calculate_circle [of "wrap32 counts"] by (auto simp: Calculate_angle_def)
qed

lemma kPi_bounds: "- kPi \<le> x \<Longrightarrow> x \<le> kPi \<Longrightarrow> isfinite x \<Longrightarrow> \<bar>val x\<bar> \<le> 4"
  by (simp add: le_finite abs_le_iff)

text \<open>The end of every operation: wrap the angle and look up its sine and cosine.\<close>

definition settle :: "MechanicalObserver \<Rightarrow> MechanicalObserver option" where
  "settle m = do { theta \<leftarrow> WrapAngle (mo_theta m); mo_UpdateSinCos (m\<lparr>mo_theta := theta\<rparr>) }"

lemma UpdateSinCos_ok:
  assumes "speed_limits_ok m" "speed_ok m" "f32_ok (mo_theta m)" "isfinite (mo_theta m) \<Longrightarrow> - kPi \<le> mo_theta m \<and> mo_theta m \<le> kPi"
  shows "\<exists>m'. mo_UpdateSinCos m = Some m' \<and> estimate_ok m' \<and> mo_p m' = mo_p m"
proof -
  define n where "n = (if isfinite (mo_theta m) then m else m\<lparr>mo_theta := 0\<rparr>)"
  have n: "isfinite (mo_theta n)" "f32_ok (mo_theta n)" "- kPi \<le> mo_theta n" "mo_theta n \<le> kPi"
    using assms(3,4) by (auto simp: n_def zero_f32_def le_finite)
  then have "\<bar>val (mo_theta n)\<bar> \<le> 2 ^ 30" using kPi_bounds [of "mo_theta n"] by simp
  then obtain sc where sc: "Calculate_angle (mo_theta n) = Some sc" "isfinite (sc_sin sc)" "isfinite (sc_cos sc)"
    "\<bar>val (sc_sin sc) * val (sc_sin sc) + val (sc_cos sc) * val (sc_cos sc) - 1\<bar> \<le> 1 / 10 ^ 5"
    using Calculate_angle_circle [OF n(1)] by metis
  have "mo_UpdateSinCos m = Some (n\<lparr>mo_sin_theta := sc_sin sc, mo_cos_theta := sc_cos sc\<rparr>)"
    using sc(1) by (simp add: mo_UpdateSinCos_def n_def [symmetric] Let_def)
  moreover have "speed_limits_ok n" "speed_ok n" "mo_p n = mo_p m" using assms(1,2) by (simp_all add: n_def speed_limits_ok_def speed_ok_def)
  ultimately show ?thesis using n sc by (simp add: estimate_ok_def angle_ok_def speed_limits_ok_def speed_ok_def)
qed

lemma settle_ok:
  assumes "speed_limits_ok m" "speed_ok m" "f32_ok (mo_theta m)"
  shows "settle m = Some m' \<Longrightarrow> estimate_ok m'"
    and "(isfinite (mo_theta m) \<Longrightarrow> \<bar>val (mo_theta m)\<bar> \<le> 2 ^ 24) \<Longrightarrow> \<exists>m'. settle m = Some m' \<and> estimate_ok m' \<and> mo_p m' = mo_p m"
proof -
  have wrapped: "\<exists>m'. mo_UpdateSinCos (m\<lparr>mo_theta := t\<rparr>) = Some m' \<and> estimate_ok m' \<and> mo_p m' = mo_p m"
    if "WrapAngle (mo_theta m) = Some t" for t
    using UpdateSinCos_ok [of "m\<lparr>mo_theta := t\<rparr>"] assms WrapAngle_range [OF that assms(3)] less_imp_le_f32
    by (auto simp: speed_limits_ok_def speed_ok_def)
  show "settle m = Some m' \<Longrightarrow> estimate_ok m'" using wrapped by (auto simp: settle_def bind_eq_Some_conv)
  assume small: "isfinite (mo_theta m) \<Longrightarrow> \<bar>val (mo_theta m)\<bar> \<le> 2 ^ 24"
  have "\<exists>t. WrapAngle (mo_theta m) = Some t"
  proof (cases "isfinite (mo_theta m)")
    case True
    then show ?thesis using WrapAngle_ends [OF True small [OF True]] by metis
  qed (simp add: WrapAngle_def)
  then show "\<exists>m'. settle m = Some m' \<and> estimate_ok m' \<and> mo_p m' = mo_p m" using wrapped by (auto simp: settle_def)
qed

lemma Predict_settle:
  "mo_Predict i_dq dt m = settle ((\<lambda>n. n\<lparr>mo_theta := mo_theta n + mo_omega n * dt\<rparr>)
     (ClampSpeed (m\<lparr>mo_m_el := electric_torque m i_dq,
       mo_omega := mo_omega m + dt / mo_J m * ((f32_of_int (uint (mo_pole_pairs m)) * electric_torque m i_dq) - mo_m_l m)\<rparr>)))"
  by (simp add: mo_Predict_def settle_def Let_def)

lemma Correct_settle:
  fixes m
  defines "variance \<equiv> (\<lambda>state noise. mo_p m ! state ! state + noise)"
  shows "Correct state innovation noise m = (if \<not> (variance state noise > 0) \<or> \<not> isfinite innovation then Some m
     else let s = f32_of 1 / variance state noise; k = kalman_gain (mo_p m) state s in
       settle (ClampSpeed (m\<lparr>mo_s := s, mo_k := k, mo_p := corrected (mo_p m) state k,
         mo_omega := mo_omega m + k ! 0 * innovation, mo_theta := mo_theta m + k ! 1 * innovation,
         mo_m_l := mo_m_l m + k ! 2 * innovation\<rparr>)))"
  unfolding Correct_def variance_def settle_def Let_def by simp

lemma limits_frame [simp]:
  "speed_limits_ok (m\<lparr>mo_theta := t\<rparr>) = speed_limits_ok m" "speed_ok (m\<lparr>mo_theta := t\<rparr>) = speed_ok m"
  "speed_limits_ok (m\<lparr>mo_omega := w\<rparr>) = speed_limits_ok m" "speed_limits_ok (m\<lparr>mo_m_l := l\<rparr>) = speed_limits_ok m"
  "speed_limits_ok (m\<lparr>mo_m_el := e\<rparr>) = speed_limits_ok m" "speed_limits_ok (m\<lparr>mo_p := p\<rparr>) = speed_limits_ok m"
  "speed_limits_ok (m\<lparr>mo_k := k\<rparr>) = speed_limits_ok m" "speed_limits_ok (m\<lparr>mo_s := s\<rparr>) = speed_limits_ok m"
  by (simp_all add: speed_limits_ok_def speed_ok_def)

lemma Predict_ok:
  assumes "estimate_ok m" "mo_Predict i_dq dt m = Some m'"
  shows "estimate_ok m'"
proof -
  have "speed_limits_ok (m\<lparr>mo_m_el := electric_torque m i_dq,
       mo_omega := mo_omega m + dt / mo_J m * ((f32_of_int (uint (mo_pole_pairs m)) * electric_torque m i_dq) - mo_m_l m)\<rparr>)"
    using assms(1) by (simp add: estimate_ok_def)
  note c = ClampSpeed_ok [OF this]
  show ?thesis by (rule settle_ok(1) [OF _ _ _ assms(2) [unfolded Predict_settle]]) (simp_all add: c)
qed

lemma Correct_ok:
  assumes "estimate_ok m" "Correct state innovation noise m = Some m'"
  shows "estimate_ok m'"
proof (cases "\<not> (mo_p m ! state ! state + noise > 0) \<or> \<not> isfinite innovation")
  case False
  define s k where "s = f32_of 1 / (mo_p m ! state ! state + noise)" and "k = kalman_gain (mo_p m) state s"
  define n where "n = m\<lparr>mo_s := s, mo_k := k, mo_p := corrected (mo_p m) state k, mo_omega := mo_omega m + k ! 0 * innovation,
    mo_theta := mo_theta m + k ! 1 * innovation, mo_m_l := mo_m_l m + k ! 2 * innovation\<rparr>"
  have n: "speed_limits_ok n" "f32_ok (mo_theta n)" using assms(1) by (simp_all add: estimate_ok_def n_def)
  have "settle (ClampSpeed n) = Some m'"
    using False assms(2) unfolding Correct_settle Let_def n_def k_def s_def by simp
  then show ?thesis by (rule settle_ok(1) [rotated 3]) (simp_all add: ClampSpeed_ok [OF n(1)] n(2))
qed (use assms in \<open>simp add: Correct_def\<close>)

lemma PredictCovariance_ok: "estimate_ok m \<Longrightarrow> estimate_ok (mo_PredictCovariance dt m)"
  by (simp add: estimate_ok_def speed_limits_ok_def speed_ok_def angle_ok_def mo_PredictCovariance_def Let_def)

lemma HoldStill_ok: "estimate_ok m \<Longrightarrow> estimate_ok (HoldStill m)"
  using guard_limits [of m] by (simp add: estimate_ok_def speed_limits_ok_def speed_ok_def angle_ok_def HoldStill_def zero_f32_def)

lemma UpdateAngle_ok: "estimate_ok m \<Longrightarrow> UpdateAngle innovation noise m = Some m' \<Longrightarrow> estimate_ok m'"
  using Correct_ok by (auto simp: UpdateAngle_def bind_eq_Some_conv)

text \<open>
  The operations of the observer, as the other components call them: the angle of a reset comes from a wrap, its speed is
  the estimate.
\<close>

datatype ObserverCall = Predict Rotor f32 | Covariance f32 | Angle f32 f32 | Speed f32 f32 | Hold | Inject f32 f32 | Restart f32

fun observer_call :: "ObserverCall \<Rightarrow> MechanicalObserver \<Rightarrow> MechanicalObserver option" where
  "observer_call (Predict i_dq dt) m = mo_Predict i_dq dt m"
| "observer_call (Covariance dt) m = Some (mo_PredictCovariance dt m)"
| "observer_call (Angle innovation noise) m = UpdateAngle innovation noise m"
| "observer_call (Speed innovation noise) m = UpdateSpeed innovation noise m"
| "observer_call Hold m = Some (HoldStill m)"
| "observer_call (Inject angle_error dt) m = InjectAngleError angle_error dt m"
| "observer_call (Restart angle) m = do { theta \<leftarrow> WrapAngle angle; mo_Reset theta (mo_omega m) m }"

fun observer_calls :: "ObserverCall list \<Rightarrow> MechanicalObserver \<Rightarrow> MechanicalObserver option" where
  "observer_calls [] m = Some m"
| "observer_calls (c # cs) m = do { m \<leftarrow> observer_call c m; observer_calls cs m }"

fun call_ok :: "ObserverCall \<Rightarrow> bool" where
  "call_ok (Restart angle) = f32_ok angle"
| "call_ok _ = True"

lemma Reset_ok:
  assumes "speed_limits_ok m" "speed_ok (m\<lparr>mo_omega := w\<rparr>)" "f32_ok t" "isfinite t \<Longrightarrow> - kPi \<le> t \<and> t \<le> kPi"
  shows "\<exists>m'. mo_Reset t w m = Some m' \<and> estimate_ok m'"
  unfolding mo_Reset_def using assms UpdateSinCos_ok [of "m\<lparr>mo_omega := w, mo_theta := t, mo_m_l := 0, mo_m_el := 0,
     mo_p := zero_matrix, mo_pk := zero_matrix, mo_k := replicate 3 0, mo_s := 0\<rparr>"]
  by (auto simp: speed_limits_ok_def speed_ok_def)

lemma observer_call_ok:
  assumes "estimate_ok m" "call_ok c" "observer_call c m = Some m'"
  shows "estimate_ok m'"
proof (cases c)
  case (Restart angle)
  then obtain t where t: "WrapAngle angle = Some t" "mo_Reset t (mo_omega m) m = Some m'"
    using assms(3) by (auto simp: bind_eq_Some_conv)
  have "f32_ok t" "isfinite t \<Longrightarrow> - kPi \<le> t \<and> t \<le> kPi"
    using WrapAngle_range [OF t(1)] assms(2) Restart less_imp_le_f32 by auto
  then show ?thesis using Reset_ok [of m "mo_omega m" t] assms(1) t(2) by (simp add: estimate_ok_def)
next
  case (Predict i_dq dt)
  show ?thesis by (rule Predict_ok [OF assms(1)]) (use assms(3) Predict in simp)
next
  case (Covariance dt)
  then show ?thesis using PredictCovariance_ok [OF assms(1), of dt] assms(3) by simp
next
  case (Angle innovation noise)
  show ?thesis by (rule UpdateAngle_ok [OF assms(1)]) (use assms(3) Angle in simp)
next
  case (Speed innovation noise)
  show ?thesis by (rule Correct_ok [OF assms(1)]) (use assms(3) Speed in \<open>simp add: UpdateSpeed_def\<close>)
next
  case Hold
  then show ?thesis using HoldStill_ok [OF assms(1)] assms(3) by simp
next
  case (Inject angle_error dt)
  show ?thesis
    by (rule UpdateAngle_ok [OF PredictCovariance_ok [OF assms(1)]]) (use assms(3) Inject in \<open>simp add: InjectAngleError_def\<close>)
qed

text \<open>
  C25. The estimate that the control uses is always usable: after the load of settings with a speed range around zero and any calls with
  any arguments, NaN and infinities included, the speed is finite and within twice its limits, the angle is in the
  wrapped range, and its sine and cosine are finite and on the unit circle.
\<close>
theorem estimate_always_usable:
  assumes "speed_limits_ok (m\<lparr>mo_omega_max := nvm_motor_omega_max settings, mo_omega_min := nvm_motor_omega_min settings\<rparr>)"
    and "\<forall>c \<in> set cs. call_ok c"
  shows "\<exists>m0. mo_Init settings m = Some m0 \<and> (\<forall>m'. observer_calls cs m0 = Some m' \<longrightarrow> estimate_ok m')"
proof -
  have "\<exists>m0. mo_Init settings m = Some m0 \<and> estimate_ok m0"
    unfolding mo_Init_def
    by (rule Reset_ok) (use assms(1) guard_limits [OF assms(1)] in \<open>simp_all add: speed_limits_ok_def speed_ok_def zero_f32_def le_finite\<close>)
  moreover have "estimate_ok m0 \<Longrightarrow> observer_calls cs m0 = Some m' \<Longrightarrow> estimate_ok m'" for m0 m'
    using assms(2)
  proof (induction cs arbitrary: m0)
    case (Cons c cs)
    then show ?case using observer_call_ok by (auto simp: bind_eq_Some_conv)
  qed simp
  ultimately show ?thesis by blast
qed

definition two_limits :: MechanicalObserver where
  "two_limits = MechanicalObserver_init\<lparr>mo_omega_max := Fin 5000, mo_omega_min := Fin (- 5000)\<rparr>"

section \<open>The operations return\<close>

lemma small_product:
  assumes "isfinite x" "isfinite y" "\<bar>val x\<bar> \<le> A" "\<bar>val y\<bar> \<le> B" "A * B \<le> pow2 k" "0 \<le> k" "k \<le> 100"
  shows "isfinite (x * y)" "\<bar>val (x * y)\<bar> \<le> pow2 k"
proof -
  have b: "\<bar>val x * val y\<bar> \<le> pow2 k"
    using mult_mono [OF assms(3,4)] assms(3,5) unfolding abs_mult by linarith
  moreover have "pow2 k \<le> pow2 127" using assms(7) by simp
  ultimately have "\<bar>val x * val y\<bar> \<le> pow2 127" by linarith
  note f = mul_f32_finite [OF assms(1,2) this]
  show "isfinite (x * y)" by (rule f)
  show "\<bar>val (x * y)\<bar> \<le> pow2 k" unfolding f(2) by (rule rnd_abs_less_pow2 [OF b]) (use assms(6) in simp)
qed

lemma moved_angle:
  assumes "isfinite t" "\<bar>val t\<bar> \<le> 4" "isfinite d" "\<bar>val d\<bar> \<le> pow2 22"
  shows "\<bar>val (t + d)\<bar> \<le> 2 ^ 24"
proof -
  have p: "pow2 23 = 2 * pow2 22" "4 \<le> pow2 22" "pow2 23 \<le> pow2 127" "pow2 23 \<le> 2 ^ 24" by (simp_all add: pow2_def)
  have b: "\<bar>val t + val d\<bar> \<le> pow2 23" using assms(2,4) p(1,2) by linarith
  then have "\<bar>val t + val d\<bar> \<le> pow2 127" using p(3) by linarith
  note f = add_f32_finite [OF assms(1,3) this]
  show ?thesis unfolding f(2) using rnd_abs_less_pow2 [OF b] p(4) by simp
qed

text \<open>The gain of an angle measurement is at most two, for every variance that is not negative.\<close>

lemma gain_bound:
  assumes "f32_ok p" "\<not> p < 0" "isfinite noise" "0 < val noise" "p + noise > 0"
  defines "k \<equiv> p * (f32_of 1 / (p + noise))"
  shows "isfinite k \<Longrightarrow> \<bar>val k\<bar> \<le> 2"
proof (cases "isfinite p \<and> isfinite (p + noise) \<and> isfinite (f32_of 1 / (p + noise))")
  case True
  define v s where "v = val (p + noise)" and "s = val (f32_of 1 / (p + noise))"
  have one: "isfinite (f32_of 1)" "val (f32_of 1) = 1" "\<not> signbit (f32_of 1)" by (simp_all add: f32_eval)
  have p0: "0 \<le> val p" using True assms(2) by (simp add: less_finite zero_f32_def)
  have v0: "0 < v" using True assms(5) by (simp add: v_def zero_less_finite)
  have v1: "v < 2 ^ 128" using f32_okD [OF f32_ok_plus, of p noise] v0 by (simp add: v_def)
  have v: "v = rnd (val p + val noise)" using val_add True assms(3) by (simp add: v_def)
  have pv: "val p \<le> v"
    using rnd_mono [of "val p" "val p + val noise"] assms(4) rnd_representable [OF f32_ok_representable [OF assms(1)]] unfolding v by simp
  have s: "s = rnd (1 / v)" using val_div [OF one(1)] True v0 by (simp add: s_def v_def one(2))
  have "1 / 2 ^ 128 \<le> 1 / v" using v0 v1 by (intro divide_left_mono) simp_all
  then have small: "pow2 (- 150) \<le> 1 / v / 4" by (simp add: pow2_def)
  have s2: "s \<le> 2 / v" "0 \<le> s"
    using rnd_relative [of "1 / v"] small v0 rnd_nonneg [of "1 / v"] unfolding s by simp_all
  have "val p * s \<le> v * (2 / v)" using p0 pv s2 v0 by (intro mult_mono) simp_all
  then have "\<bar>val p * s\<bar> \<le> 2" using p0 s2 v0 by simp
  then have b: "\<bar>val p * s\<bar> \<le> pow2 1" by (simp add: pow2_def)
  moreover have "pow2 1 \<le> pow2 127" by simp
  ultimately have "\<bar>val p * s\<bar> \<le> pow2 127" by linarith
  from mul_f32_finite(2) [of p "f32_of 1 / (p + noise)"] this True have "val k = rnd (val p * s)" by (simp add: k_def s_def)
  then show ?thesis using rnd_abs_less_pow2 [OF b] by (simp add: pow2_def [of 1])
next
  case False
  assume k: "isfinite k"
  consider "p = PInf" | "isfinite p" "p + noise = PInf" | "isfinite p" "isfinite (p + noise)"
    using assms(2,3,5) by (cases p; cases "p + noise") (auto simp: zero_f32_def less_f32_def)
  then show ?thesis
  proof cases
    case 1
    then have "p + noise = PInf" using assms(3) by (cases noise) (simp_all add: plus_f32_def)
    then show ?thesis using k 1 by (simp add: k_def divide_f32_def times_f32_def Let_def zero_of_def f32_eval)
  next
    case 2
    then show ?thesis using k
      by (cases p) (simp_all add: k_def divide_f32_def times_f32_def Let_def zero_of_def f32_eval)
  next
    case 3
    then have "\<not> isfinite (f32_of 1 / (p + noise))" using False by simp
    then have "f32_of 1 / (p + noise) \<in> {PInf, NInf, NaN}" by (cases "f32_of 1 / (p + noise)") auto
    then show ?thesis using k 3 by (auto simp: k_def times_f32_def Let_def inf_of_def split: if_splits)
  qed
qed

lemma Predict_returns:
  fixes m
  defines "hi \<equiv> mo_omega_max m * kSpeedGuard" and "lo \<equiv> mo_omega_min m * kSpeedGuard"
  assumes "estimate_ok m" "isfinite hi" "isfinite lo" "isfinite dt" "\<bar>val hi\<bar> \<le> W" "\<bar>val lo\<bar> \<le> W" "W * \<bar>val dt\<bar> \<le> 2 ^ 22"
  shows "\<exists>m'. mo_Predict i_dq dt m = Some m' \<and> estimate_ok m'"
proof -
  define u where "u = m\<lparr>mo_m_el := electric_torque m i_dq,
       mo_omega := mo_omega m + dt / mo_J m * ((f32_of_int (uint (mo_pole_pairs m)) * electric_torque m i_dq) - mo_m_l m)\<rparr>"
  define n where "n = ClampSpeed u"
  have m: "speed_limits_ok u" "isfinite (mo_theta m)" "\<bar>val (mo_theta m)\<bar> \<le> 4"
    using assms(3) kPi_bounds by (simp_all add: estimate_ok_def angle_ok_def u_def)
  note c = ClampSpeed_ok [OF m(1), folded n_def]
  have frame: "mo_omega_max n = mo_omega_max m" "mo_omega_min n = mo_omega_min m" "mo_theta n = mo_theta m"
    by (simp_all add: n_def u_def ClampSpeed_def Let_def)
  have "isfinite (mo_omega n)" "lo \<le> mo_omega n" "mo_omega n \<le> hi"
    using c(1) by (simp_all add: speed_ok_def frame hi_def lo_def)
  then have w: "isfinite (mo_omega n)" "\<bar>val (mo_omega n)\<bar> \<le> W" using assms(4,5,7,8) by (simp_all add: le_finite)
  have "W * \<bar>val dt\<bar> \<le> pow2 22" using assms(9) by (simp add: pow2_def)
  note p = small_product [OF w(1) assms(6) w(2) order.refl this]
  have "\<bar>val (mo_theta m + mo_omega n * dt)\<bar> \<le> 2 ^ 24" by (rule moved_angle [OF m(2,3)]) (use p in simp_all)
  then have "\<exists>m'. settle (n\<lparr>mo_theta := mo_theta n + mo_omega n * dt\<rparr>) = Some m' \<and> estimate_ok m'
      \<and> mo_p m' = mo_p (n\<lparr>mo_theta := mo_theta n + mo_omega n * dt\<rparr>)"
    using c by (intro settle_ok(2)) (simp_all add: frame)
  then show ?thesis unfolding Predict_settle n_def u_def by blast
qed

lemma UpdateAngle_returns:
  fixes m
  defines "p11 \<equiv> mo_p m ! 1 ! 1"
  assumes "estimate_ok m" "isfinite e \<Longrightarrow> f32_ok e \<and> \<bar>val e\<bar> \<le> 2 ^ 24" "isfinite r" "0 < val r" "f32_ok p11" "\<not> p11 < 0"
  shows "\<exists>m'. UpdateAngle e r m = Some m' \<and> estimate_ok m'"
proof -
  have "\<exists>w. WrapAngle e = Some w \<and> (isfinite w \<longrightarrow> \<bar>val w\<bar> \<le> 4)"
  proof (cases "isfinite e")
    case True
    obtain w where "WrapAngle e = Some w" "isfinite w" "- kPi < w" "w \<le> kPi"
      using WrapAngle_ends [OF True] assms(3) [OF True] by metis
    then show ?thesis using kPi_bounds [of w] less_imp_le_f32 by auto
  qed (simp add: WrapAngle_def)
  then obtain w where w: "WrapAngle e = Some w" "isfinite w \<Longrightarrow> \<bar>val w\<bar> \<le> 4" by auto
  have "\<exists>m'. Correct 1 w r m = Some m' \<and> estimate_ok m'"
  proof (cases "\<not> (p11 + r > 0) \<or> \<not> isfinite w")
    case True
    then show ?thesis using assms(2) by (simp add: Correct_def p11_def)
  next
    case False
    define s k where "s = f32_of 1 / (p11 + r)" and "k = kalman_gain (mo_p m) 1 s"
    define n where "n = m\<lparr>mo_s := s, mo_k := k, mo_p := corrected (mo_p m) 1 k, mo_omega := mo_omega m + k ! 0 * w,
      mo_theta := mo_theta m + k ! 1 * w, mo_m_l := mo_m_l m + k ! 2 * w\<rparr>"
    have n: "speed_limits_ok n" "f32_ok (mo_theta n)" using assms(2) by (simp_all add: estimate_ok_def n_def)
    have k: "k ! 1 = p11 * s" by (simp add: k_def kalman_gain_def p11_def)
    have t: "isfinite (mo_theta m)" "\<bar>val (mo_theta m)\<bar> \<le> 4" using assms(2) kPi_bounds by (simp_all add: estimate_ok_def angle_ok_def)
    have "\<bar>val (mo_theta n)\<bar> \<le> 2 ^ 24" if "isfinite (mo_theta n)"
    proof -
      have "mo_theta n = mo_theta m + k ! 1 * w" by (simp add: n_def)
      then have "isfinite (k ! 1 * w)" using that finite_plusD by metis
      then have "isfinite (k ! 1 * w)" "isfinite (k ! 1)" using finite_timesD by blast+
      moreover have "\<bar>val (k ! 1)\<bar> \<le> 2"
        using gain_bound [OF assms(6,7,4,5)] calculation(2) False unfolding k s_def by simp
      moreover have "(2 * 4 :: rat) \<le> pow2 22" by (simp add: pow2_def)
      ultimately have "\<bar>val (k ! 1 * w)\<bar> \<le> pow2 22"
        using small_product(2) [of "k ! 1" w 2 4 22] False w(2) by simp
      then show ?thesis using moved_angle [OF t \<open>isfinite (k ! 1 * w)\<close>] by (simp add: n_def)
    qed
    then have "\<exists>m'. settle (ClampSpeed n) = Some m' \<and> estimate_ok m' \<and> mo_p m' = mo_p (ClampSpeed n)"
      by (intro settle_ok(2)) (simp_all add: ClampSpeed_ok [OF n(1)] n(2))
    moreover have "Correct 1 w r m = settle (ClampSpeed n)"
      using False unfolding Correct_settle Let_def n_def k_def s_def p11_def by simp
    ultimately show ?thesis by auto
  qed
  then show ?thesis by (simp add: UpdateAngle_def w(1))
qed

text \<open>
  The periodic calls end: from a usable estimate, a prediction ends if the speed guard moves the angle by at most
  \<open>2 ^ 22\<close> rad in one period, and an angle measurement ends for every innovation up to \<open>2 ^ 24\<close> rad or not finite, every
  positive noise and every angle variance that is not negative. Both leave a usable estimate.
\<close>
theorem observer_returns:
  fixes m dt
  defines "hi \<equiv> mo_omega_max m * kSpeedGuard" and "lo \<equiv> mo_omega_min m * kSpeedGuard"
  assumes "estimate_ok m"
  shows "(isfinite hi \<and> isfinite lo \<and> isfinite dt \<and> \<bar>val hi\<bar> \<le> W \<and> \<bar>val lo\<bar> \<le> W \<and> W * \<bar>val dt\<bar> \<le> 2 ^ 22
      \<longrightarrow> (\<exists>m'. mo_Predict i_dq dt m = Some m' \<and> estimate_ok m'))
    \<and> ((isfinite e \<longrightarrow> f32_ok e \<and> \<bar>val e\<bar> \<le> 2 ^ 24) \<and> isfinite r \<and> 0 < val r \<and> f32_ok (mo_p m ! 1 ! 1) \<and> \<not> mo_p m ! 1 ! 1 < 0
      \<longrightarrow> (\<exists>m'. UpdateAngle e r m = Some m' \<and> estimate_ok m'))"
  using Predict_returns [OF assms(3), of dt W i_dq] UpdateAngle_returns [OF assms(3), of e r] unfolding hi_def lo_def by blast

lemma two_limits_eval:
  "mo_omega_max two_limits * kSpeedGuard = Fin 10000" "mo_omega_min two_limits * kSpeedGuard = Fin (- 10000)"
  "mo_omega two_limits = Fin 0" "mo_theta two_limits = Fin 0" "mo_p two_limits ! 1 ! 1 = Fin 0"
proof -
  have two: "kSpeedGuard = Fin 2" by (simp add: kSpeedGuard_def f32_eval)
  have "mo_omega_max two_limits = Fin 5000" "mo_omega_min two_limits = Fin (- 5000)"
    by (simp_all add: two_limits_def MechanicalObserver_init_def)
  then show "mo_omega_max two_limits * kSpeedGuard = Fin 10000" "mo_omega_min two_limits * kSpeedGuard = Fin (- 10000)"
    unfolding two by (simp_all add: f32_eval)
qed (simp_all add: two_limits_def MechanicalObserver_init_def zero_matrix_def numeral_3_eq_3 zero_f32_def)

lemma standing_estimate: "estimate_ok (two_limits\<lparr>mo_cos_theta := Fin 1\<rparr>)"
  by (simp add: estimate_ok_def speed_ok_def angle_ok_def two_limits_eval le_finite)
    (simp add: speed_limits_ok_def two_limits_def MechanicalObserver_init_def zero_f32_def)

theorem observer_returns_witness:
  "(\<exists>m'. mo_Predict \<lparr>ro_d = NaN, ro_q = Fin 3\<rparr> (Fin (1/8192)) (two_limits\<lparr>mo_cos_theta := Fin 1\<rparr>) = Some m')
    \<and> (\<exists>m'. UpdateAngle (Fin 5) (Fin 1) (two_limits\<lparr>mo_cos_theta := Fin 1\<rparr>) = Some m' \<and> estimate_ok m')"
proof -
  have "representable 5" using rnd_numeral [of "num.Bit1 (num.Bit0 num.One)"] representable_rnd [of 5] by simp
  then show ?thesis
    using observer_returns [OF standing_estimate, where dt = "Fin (1/8192)" and W = 10000 and i_dq = "\<lparr>ro_d = NaN, ro_q = Fin 3\<rparr>"
        and e = "Fin 5" and r = "Fin 1"] two_limits_eval by (auto simp: zero_f32_def)
qed

text \<open>A restart at an angle outside the wrapped range, a prediction with a current that is not a number, a speed that is not one, and a hold.\<close>

definition example_calls :: "ObserverCall list" where
  "example_calls = [Restart (Fin 5), Predict \<lparr>ro_d = NaN, ro_q = Fin 3\<rparr> (Fin (1/8192)), Speed NaN (Fin 1), Hold]"

definition example_settings :: NvmSettings where
  "example_settings = NvmSettings_default 1 0\<lparr>nvm_motor_omega_max := Fin 5000, nvm_motor_omega_min := Fin (- 5000)\<rparr>"

lemma Reset_limits: "mo_Reset t w m = Some m' \<Longrightarrow> mo_omega_max m' = mo_omega_max m \<and> mo_omega_min m' = mo_omega_min m"
  by (auto simp: mo_Reset_def mo_UpdateSinCos_def Let_def bind_eq_Some_conv split: if_splits)

lemma example_calls_ok: "call_ok c" if "c \<in> set example_calls"
proof -
  have "representable 5" using rnd_numeral [of "num.Bit1 (num.Bit0 num.One)"] representable_rnd [of 5] by simp
  then show ?thesis using that by (auto simp: example_calls_def)
qed

lemma example_calls_return:
  assumes "mo_Init example_settings two_limits = Some m0" "estimate_ok m0"
  shows "\<exists>m'. observer_calls example_calls m0 = Some m'"
proof -
  have lim: "mo_omega_max m0 = Fin 5000" "mo_omega_min m0 = Fin (- 5000)"
    using Reset_limits [OF assms(1) [unfolded mo_Init_def]] by (simp_all add: example_settings_def)
  have f: "f32_ok (Fin 5)" using example_calls_ok [of "Restart (Fin 5)"] by (simp add: example_calls_def)
  obtain w where w: "WrapAngle (Fin 5) = Some w" using WrapAngle_ends [of "Fin 5"] by auto
  have wr: "f32_ok w" "isfinite w \<Longrightarrow> - kPi \<le> w \<and> w \<le> kPi" using WrapAngle_range [OF w f] less_imp_le_f32 by auto
  obtain m1 where m1: "mo_Reset w (mo_omega m0) m0 = Some m1" "estimate_ok m1"
    using Reset_ok [of m0 "mo_omega m0" w] assms(2) wr by (auto simp: estimate_ok_def)
  have "mo_omega_max m1 * kSpeedGuard = mo_omega_max two_limits * kSpeedGuard" "mo_omega_min m1 * kSpeedGuard = mo_omega_min two_limits * kSpeedGuard"
    using Reset_limits [OF m1(1)] lim by (simp_all add: two_limits_def MechanicalObserver_init_def)
  note guard = this [unfolded two_limits_eval]
  then obtain m2 where m2: "mo_Predict \<lparr>ro_d = NaN, ro_q = Fin 3\<rparr> (Fin (1/8192)) m1 = Some m2"
    using Predict_returns [OF m1(2), of "Fin (1/8192)" 10000] unfolding guard by auto
  have "UpdateSpeed NaN (Fin 1) m2 = Some m2" by (simp add: UpdateSpeed_def Correct_def Let_def)
  then show ?thesis using w m1(1) m2 by (simp add: example_calls_def)
qed

theorem estimate_always_usable_witness:
  "\<exists>m0 m'. mo_Init example_settings two_limits = Some m0 \<and> observer_calls example_calls m0 = Some m' \<and> estimate_ok m'"
proof -
  have limits: "speed_limits_ok (two_limits\<lparr>mo_omega_max := nvm_motor_omega_max example_settings, mo_omega_min := nvm_motor_omega_min example_settings\<rparr>)"
    by (simp add: speed_limits_ok_def example_settings_def)
  obtain m0 where m0: "mo_Init example_settings two_limits = Some m0" "estimate_ok m0"
    using estimate_always_usable [OF limits, of "[]"] by auto
  obtain m' where "observer_calls example_calls m0 = Some m'" using example_calls_return [OF m0] by blast
  then show ?thesis using estimate_always_usable [OF limits, of example_calls] example_calls_ok m0(1) by auto
qed

end
