(* ===== verification/Angle_Sources.thy ===== *)
theory Angle_Sources
  imports Mechanical_Observer
begin

text \<open>
  The other two sources of angle information for the mechanical observer: high-frequency injection at low speed (\<open>hfi.hpp\<close>) and
  the flux observer of a PMSM (\<open>pmsm_flux_observer.hpp\<close>).
\<close>

unbundle bit_operations_syntax

section \<open>High-frequency injection\<close>

record Hfi =
  hfi_v_inject :: f32
  hfi_error_gain :: f32
  hfi_step :: int
  hfi_d0 :: f32
  hfi_q0 :: f32
  hfi_d1 :: f32
  hfi_q1 :: f32
  hfi_d2 :: f32
  hfi_q2 :: f32
  hfi_d3 :: f32
  hfi_q3 :: f32

definition Hfi_init :: Hfi where
  "Hfi_init = \<lparr>hfi_v_inject = 0, hfi_error_gain = f32_of 1, hfi_step = 0, hfi_d0 = 0, hfi_q0 = 0, hfi_d1 = 0, hfi_q1 = 0,
     hfi_d2 = 0, hfi_q2 = 0, hfi_d3 = 0, hfi_q3 = 0\<rparr>"

definition hfi_Reset :: "Hfi \<Rightarrow> Hfi" where
  "hfi_Reset h = h\<lparr>hfi_step := 0, hfi_d0 := 0, hfi_q0 := 0, hfi_d1 := 0, hfi_q1 := 0, hfi_d2 := 0, hfi_q2 := 0, hfi_d3 := 0, hfi_q3 := 0\<rparr>"

definition hfi_Init :: "NvmSettings \<Rightarrow> Hfi \<Rightarrow> Hfi" where
  "hfi_Init settings h = hfi_Reset (h\<lparr>hfi_v_inject := nvm_hfi_v_inject settings, hfi_error_gain := nvm_hfi_error_gain settings\<rparr>)"

definition InjectionVoltage :: "Hfi \<Rightarrow> int \<Rightarrow> SinCos \<Rightarrow> Stator" where
  "InjectionVoltage h injection_step sc = (let
     v_d = (if injection_step = 0 then hfi_v_inject h else if injection_step = 1 then - hfi_v_inject h else 0);
     v_q = (if injection_step = 2 then hfi_v_inject h else if injection_step = 3 then - hfi_v_inject h else 0)
   in \<lparr>st_alpha = (v_d * sc_cos sc) - (v_q * sc_sin sc), st_beta = (v_d * sc_sin sc) + (v_q * sc_cos sc)\<rparr>)"

definition GetInjectionVoltage :: "Hfi \<Rightarrow> SinCos \<Rightarrow> Stator" where
  "GetInjectionVoltage h sc = InjectionVoltage h (hfi_step h) sc"

text \<open>The sample in the estimated frame, and where the step stores it.\<close>

definition hfi_sample :: "Stator \<Rightarrow> SinCos \<Rightarrow> Rotor" where
  "hfi_sample i_ab sc = \<lparr>ro_d = (st_alpha i_ab * sc_cos sc) + (st_beta i_ab * sc_sin sc),
     ro_q = (- st_alpha i_ab * sc_sin sc) + (st_beta i_ab * sc_cos sc)\<rparr>"

definition store_sample :: "Rotor \<Rightarrow> Hfi \<Rightarrow> Hfi" where
  "store_sample i h = (
     if hfi_step h = 0 then h\<lparr>hfi_d0 := ro_d i, hfi_q0 := ro_q i\<rparr>
     else if hfi_step h = 1 then h\<lparr>hfi_d1 := ro_d i, hfi_q1 := ro_q i\<rparr>
     else if hfi_step h = 2 then h\<lparr>hfi_d2 := ro_d i, hfi_q2 := ro_q i\<rparr>
     else if hfi_step h = 3 then h\<lparr>hfi_d3 := ro_d i, hfi_q3 := ro_q i\<rparr>
     else h)"

definition hfi_error :: "Hfi \<Rightarrow> f32" where
  "hfi_error h = (hfi_q0 h - hfi_q1 h) - (hfi_d2 h - hfi_d3 h)"

definition hfi_Update :: "Stator \<Rightarrow> SinCos \<Rightarrow> f32 \<Rightarrow> Hfi \<Rightarrow> MechanicalObserver \<Rightarrow> (Hfi \<times> MechanicalObserver) option" where
  "hfi_Update i_ab sc dt h m = (let stored = store_sample (hfi_sample i_ab sc) h in do {
     m \<leftarrow> (if hfi_step h = 3 then InjectAngleError (hfi_error stored * hfi_error_gain stored) dt m else Some m);
     Some (stored\<lparr>hfi_step := (hfi_step h + 1) AND 3\<rparr>, m) })"

section \<open>Flux observer\<close>

record PmsmFluxObserver =
  fo_rs :: f32
  fo_L_d :: f32
  fo_L_q :: f32
  fo_C_d :: f32
  fo_C_q :: f32
  fo_psi_alpha :: f32
  fo_psi_beta :: f32
  fo_fb_d :: f32
  fo_fb_q :: f32
  fo_psi_pm_d :: f32
  fo_psi_pm_q :: f32

definition PmsmFluxObserver_init :: PmsmFluxObserver where
  "PmsmFluxObserver_init = \<lparr>fo_rs = 0, fo_L_d = 0, fo_L_q = 0, fo_C_d = 0, fo_C_q = 0, fo_psi_alpha = 0, fo_psi_beta = 0,
     fo_fb_d = 0, fo_fb_q = 0, fo_psi_pm_d = 0, fo_psi_pm_q = 0\<rparr>"

definition fo_Reset :: "PmsmFluxObserver \<Rightarrow> PmsmFluxObserver" where
  "fo_Reset f = f\<lparr>fo_psi_alpha := 0, fo_psi_beta := 0, fo_fb_d := 0, fo_fb_q := 0, fo_psi_pm_d := 0, fo_psi_pm_q := 0\<rparr>"

definition fo_Init :: "NvmSettings \<Rightarrow> PmsmFluxObserver \<Rightarrow> PmsmFluxObserver" where
  "fo_Init settings f = fo_Reset (f\<lparr>fo_rs := nvm_stator_r settings, fo_L_d := nvm_l_d settings, fo_L_q := nvm_l_q settings,
     fo_C_d := nvm_pmsm_flux_obs_c_d settings, fo_C_q := nvm_pmsm_flux_obs_c_q settings\<rparr>)"

definition fo_Calculate :: "Rotor \<Rightarrow> Rotor \<Rightarrow> Rotor \<Rightarrow> f32 \<Rightarrow> MechanicalObserver \<Rightarrow> PmsmFluxObserver \<Rightarrow> f32 option \<times> PmsmFluxObserver" where
  "fo_Calculate u_dq i_dq set_flux dt mech_obs f = (let
     sn = mo_sin_theta mech_obs;
     cs = mo_cos_theta mech_obs;
     bemf_d = ro_d u_dq - fo_rs f * ro_d i_dq + fo_fb_d f;
     bemf_q = ro_q u_dq - fo_rs f * ro_q i_dq + fo_fb_q f;
     bemf_alpha = (bemf_d * cs) - (bemf_q * sn);
     bemf_beta = (bemf_d * sn) + (bemf_q * cs);
     psi_alpha = fo_psi_alpha f + bemf_alpha * dt;
     psi_beta = fo_psi_beta f + bemf_beta * dt;
     psi_d = (psi_alpha * cs) + (psi_beta * sn);
     psi_q = (- psi_alpha * sn) + (psi_beta * cs);
     psi_pm_d = psi_d - fo_L_d f * ro_d i_dq;
     psi_pm_q = psi_q - fo_L_q f * ro_q i_dq
   in (if \<not> (ro_d set_flux > 0) then None else Some ((psi_pm_q / ro_d set_flux) * f32_of 1),
     f\<lparr>fo_psi_alpha := psi_alpha, fo_psi_beta := psi_beta, fo_psi_pm_d := psi_pm_d, fo_psi_pm_q := psi_pm_q,
       fo_fb_d := fo_C_d f * (ro_d set_flux - psi_pm_d), fo_fb_q := fo_C_q f * (ro_q set_flux - psi_pm_q)\<rparr>))"

section \<open>One injection period\<close>

text \<open>The updates of consecutive samples.\<close>

fun hfi_updates :: "(Stator \<times> SinCos) list \<Rightarrow> f32 \<Rightarrow> Hfi \<Rightarrow> MechanicalObserver \<Rightarrow> (Hfi \<times> MechanicalObserver) option" where
  "hfi_updates [] dt h m = Some (h, m)"
| "hfi_updates (s # ss) dt h m = do { (h, m) \<leftarrow> hfi_Update (fst s) (snd s) dt h m; hfi_updates ss dt h m }"

text \<open>
  A full injection period feeds the observer exactly once: from step 0, four samples lead back to step 0, the first three leave the
  observer alone, and the fourth injects the difference of the q responses to the d pulses less the difference of the d responses to
  the q pulses, each in the estimated frame of its own sample.
\<close>
theorem hfi_period:
  fixes s0 s1 s2 s3
  assumes "hfi_step h = 0"
  defines "i \<equiv> \<lambda>s. hfi_sample (fst s) (snd s)"
  shows "hfi_updates [s0, s1, s2] dt h m = Some (h\<lparr>hfi_step := 3, hfi_d0 := ro_d (i s0), hfi_q0 := ro_q (i s0),
       hfi_d1 := ro_d (i s1), hfi_q1 := ro_q (i s1), hfi_d2 := ro_d (i s2), hfi_q2 := ro_q (i s2)\<rparr>, m)
    \<and> map_option snd (hfi_updates [s0, s1, s2, s3] dt h m)
      = InjectAngleError (((ro_q (i s0) - ro_q (i s1)) - (ro_d (i s2) - ro_d (i s3))) * hfi_error_gain h) dt m
    \<and> (\<forall>h' m'. hfi_updates [s0, s1, s2, s3] dt h m = Some (h', m') \<longrightarrow> hfi_step h' = 0)"
  using assms(1) unfolding i_def
  by (auto simp: hfi_Update_def store_sample_def hfi_error_def Let_def bind_eq_Some_conv
      split: Option.bind_splits)

theorem hfi_period_witness:
  "map_option (hfi_step \<circ> fst) (hfi_updates [(\<lparr>st_alpha = 0, st_beta = 0\<rparr>, \<lparr>sc_sin = 0, sc_cos = 0\<rparr>), (\<lparr>st_alpha = 0, st_beta = 0\<rparr>, \<lparr>sc_sin = 0, sc_cos = 0\<rparr>),
      (\<lparr>st_alpha = 0, st_beta = 0\<rparr>, \<lparr>sc_sin = 0, sc_cos = 0\<rparr>)] 0 Hfi_init MechanicalObserver_init) = Some 3"
  using hfi_period [of Hfi_init "(\<lparr>st_alpha = 0, st_beta = 0\<rparr>, \<lparr>sc_sin = 0, sc_cos = 0\<rparr>)" "(\<lparr>st_alpha = 0, st_beta = 0\<rparr>, \<lparr>sc_sin = 0, sc_cos = 0\<rparr>)"
      "(\<lparr>st_alpha = 0, st_beta = 0\<rparr>, \<lparr>sc_sin = 0, sc_cos = 0\<rparr>)" _ MechanicalObserver_init]
  by (simp add: Hfi_init_def)

lemma hfi_Update_ok: "estimate_ok m \<Longrightarrow> hfi_Update i_ab sc dt h m = Some (h', m') \<Longrightarrow> estimate_ok m'"
  using UpdateAngle_ok [OF PredictCovariance_ok] by (auto simp: hfi_Update_def InjectAngleError_def Let_def bind_eq_Some_conv split: if_splits)

lemma hfi_updates_ok: "estimate_ok m \<Longrightarrow> hfi_updates ss dt h m = Some (h', m') \<Longrightarrow> estimate_ok m'"
proof (induction ss arbitrary: h m)
  case (Cons s ss)
  then obtain h1 m1 where "hfi_Update (fst s) (snd s) dt h m = Some (h1, m1)" "hfi_updates ss dt h1 m1 = Some (h', m')"
    by (auto simp: bind_eq_Some_conv)
  then show ?case using Cons.IH hfi_Update_ok [OF Cons.prems(1)] by blast
qed simp

end
