(* ===== verification/Current_Control.thy ===== *)
theory Current_Control
  imports Modulation Current_Controller Angle_Sources Handover Settings_Store
begin

text \<open>
  The current-control interrupt (\<open>src/src/current_control/current_control_isr.hpp\<close>, \<open>.cpp\<close> and
  \<open>sub_step_buffer.hpp\<close>). A control cycle takes the samples of four half periods and returns the calls it makes on the
  hardware in their order, so that a trip and the duty plan that follows it are visible. The cells of the mailboxes hold
  whole values: the cycle preempts their writers, for which the hand-over theory shows that a read is a published value.
\<close>

section \<open>Data\<close>

definition kNumSubSteps :: nat where "kNumSubSteps = 4"

record SubStepBuffer =
  sb_sc :: "SinCos list"
  sb_sc_out :: "SinCos list"
  sb_i_ab_samples :: "Stator list"
  sb_i_dq_mean :: Rotor
  sb_u_dq :: Rotor
  sb_timestamp :: u32

record DoubleBuffer =
  db_buf :: "SubStepBuffer list"
  db_active :: u8

record ControlCycleSamples =
  cs_phase_currents :: "ThreePhase list"
  cs_dc_link :: f32
  cs_overcurrent :: bool
  cs_timestamp :: u32

type_synonym DutyPlan = "ThreePhase list"

definition neutral_duties :: ThreePhase where
  "neutral_duties = \<lparr>tp_a = f32_of (1/2), tp_b = f32_of (1/2), tp_c = f32_of (1/2)\<rparr>"

definition DutyPlan_init :: DutyPlan where
  "DutyPlan_init = replicate kNumSubSteps neutral_duties"

record CurrentGains =
  cg_kp_d :: f32
  cg_ki_d :: f32
  cg_kp_q :: f32
  cg_ki_q :: f32

text \<open>A call on the hardware boundary.\<close>

datatype HardwareCall =
    TripPowerStage
  | HotSetDutyPlan DutyPlan
  | HwSetAdcTriggerOffset u32
  | HwSetOvercurrentLimit f32

record CurrentControlState =
  cst_double_buf :: DoubleBuffer
  cst_i_ref :: Rotor
  cst_i_ref_mailbox :: "Rotor Mailbox"
  cst_i_dq_last :: Rotor
  cst_u_dq_last :: Rotor
  cst_observer_buffer :: u8
  cst_observer_pending :: bool
  cst_observer_overruns :: u32
  cst_control_cycles :: u32
  cst_samples_ready :: bool
  cst_dt_fast :: f32
  cst_dt_slow :: f32
  cst_output_delay_half_periods :: f32
  cst_arr :: u32
  cst_adc_trigger_offset :: u32
  cst_duty_plan :: DutyPlan
  cst_phase_duties :: ThreePhase
  cst_raw_phase_currents :: ThreePhase
  cst_raw_vdc :: f32
  cst_phase_currents :: ThreePhase
  cst_dc_link :: f32
  cst_calibration :: AdcCalibration
  cst_overcurrent_limit :: f32
  cst_overcurrent_tripped :: bool
  cst_dc_link_trip :: f32
  cst_overvoltage_tripped :: bool

record CurrentControlIsr =
  isr_state :: CurrentControlState
  isr_mech_obs :: MechanicalObserver
  isr_cc :: CurrentController
  isr_hfi :: Hfi
  isr_dtc :: DeadTimeCompensation
  isr_svm :: Svm
  isr_hfi_active :: bool
  isr_hardware :: bool
  isr_forced_duties :: "ThreePhase Mailbox"
  isr_gains :: "CurrentGains Mailbox"
  isr_gains_pending :: bool
  isr_force_duty_active :: bool

section \<open>Timing\<close>

definition DtFastFromPwmFrequency :: "f32 \<Rightarrow> f32" where
  "DtFastFromPwmFrequency freq = f32_of 1 / (f32_of 2 * freq)"

definition DtSlowFromPwmFrequency :: "f32 \<Rightarrow> f32" where
  "DtSlowFromPwmFrequency freq = DtFastFromPwmFrequency freq * f32_of_int (int kNumSubSteps)"

definition kInitialPwmFrequency :: f32 where "kInitialPwmFrequency = f32_of 32000"

text \<open>\<open>std::roundf\<close>: to the nearest integer, half away from zero; a zero keeps the sign of the operand.\<close>

fun roundf :: "f32 \<Rightarrow> f32" where
  "roundf (Fin q) = (if q < 0 then (if \<lfloor>1 / 2 - q\<rfloor> = 0 then NZero else f32_of_int (- \<lfloor>1 / 2 - q\<rfloor>)) else f32_of_int \<lfloor>q + 1 / 2\<rfloor>)"
| "roundf x = x"

definition u32_of_f32 :: "f32 \<Rightarrow> u32 option" where
  "u32_of_f32 x = map_option word_of_int (f32_cast 0 (2 ^ 32 - 1) x)"

section \<open>The initial object\<close>

definition SinCos_init :: SinCos where "SinCos_init = \<lparr>sc_sin = 0, sc_cos = f32_of 1\<rparr>"

definition zero_rotor :: Rotor where "zero_rotor = \<lparr>ro_d = 0, ro_q = 0\<rparr>"

definition zero_phases :: ThreePhase where "zero_phases = \<lparr>tp_a = 0, tp_b = 0, tp_c = 0\<rparr>"

definition SubStepBuffer_init :: SubStepBuffer where
  "SubStepBuffer_init = \<lparr>sb_sc = replicate kNumSubSteps SinCos_init, sb_sc_out = replicate kNumSubSteps SinCos_init,
     sb_i_ab_samples = replicate kNumSubSteps \<lparr>st_alpha = 0, st_beta = 0\<rparr>, sb_i_dq_mean = zero_rotor, sb_u_dq = zero_rotor, sb_timestamp = 0\<rparr>"

definition DoubleBuffer_init :: DoubleBuffer where
  "DoubleBuffer_init = \<lparr>db_buf = replicate 2 SubStepBuffer_init, db_active = 0\<rparr>"

definition AdcCalibration_init :: AdcCalibration where
  "AdcCalibration_init = \<lparr>cal_offset_a = 0, cal_offset_b = 0, cal_offset_c = 0, cal_gain_a = f32_of 1, cal_gain_b = f32_of 1,
     cal_gain_c = f32_of 1, cal_gain_vdc = f32_of 1\<rparr>"

definition CurrentControlState_init :: CurrentControlState where
  "CurrentControlState_init = \<lparr>cst_double_buf = DoubleBuffer_init, cst_i_ref = zero_rotor, cst_i_ref_mailbox = Mailbox_init [zero_rotor],
     cst_i_dq_last = zero_rotor, cst_u_dq_last = zero_rotor, cst_observer_buffer = 0, cst_observer_pending = False,
     cst_observer_overruns = 0, cst_control_cycles = 0, cst_samples_ready = False,
     cst_dt_fast = DtFastFromPwmFrequency kInitialPwmFrequency, cst_dt_slow = DtSlowFromPwmFrequency kInitialPwmFrequency,
     cst_output_delay_half_periods = f32_of (3/2), cst_arr = 2655, cst_adc_trigger_offset = 170,
     cst_duty_plan = DutyPlan_init, cst_phase_duties = neutral_duties, cst_raw_phase_currents = zero_phases, cst_raw_vdc = 0,
     cst_phase_currents = zero_phases, cst_dc_link = 0, cst_calibration = AdcCalibration_init, cst_overcurrent_limit = PInf,
     cst_overcurrent_tripped = False, cst_dc_link_trip = PInf, cst_overvoltage_tripped = False\<rparr>"

definition CurrentControlIsr_init :: CurrentControlIsr where
  "CurrentControlIsr_init = \<lparr>isr_state = CurrentControlState_init, isr_mech_obs = MechanicalObserver_init,
     isr_cc = CurrentController_init, isr_hfi = Hfi_init, isr_dtc = DeadTimeCompensation_init, isr_svm = Svm_default,
     isr_hfi_active = False, isr_hardware = False, isr_forced_duties = Mailbox_init [zero_phases],
     isr_gains = Mailbox_init [\<lparr>cg_kp_d = 0, cg_ki_d = 0, cg_kp_q = 0, cg_ki_q = 0\<rparr>], isr_gains_pending = False,
     isr_force_duty_active = False\<rparr>"

section \<open>Interface of the lower priorities\<close>

definition SetCurrentRef :: "Rotor \<Rightarrow> CurrentControlIsr \<Rightarrow> CurrentControlIsr" where
  "SetCurrentRef ref i = i\<lparr>isr_state := isr_state i\<lparr>cst_i_ref_mailbox := MailboxWrite [ref] (cst_i_ref_mailbox (isr_state i))\<rparr>\<rparr>"

definition SetCurrentGains :: "CurrentGains \<Rightarrow> CurrentControlIsr \<Rightarrow> CurrentControlIsr" where
  "SetCurrentGains gains i = i\<lparr>isr_gains := MailboxWrite [gains] (isr_gains i), isr_gains_pending := True\<rparr>"

definition ClearTrips :: "CurrentControlIsr \<Rightarrow> CurrentControlIsr" where
  "ClearTrips i = i\<lparr>isr_cc := ctl_Reset (isr_cc i),
     isr_state := isr_state i\<lparr>cst_overcurrent_tripped := False, cst_overvoltage_tripped := False\<rparr>\<rparr>"

definition Tripped :: "CurrentControlIsr \<Rightarrow> bool" where
  "Tripped i \<longleftrightarrow> cst_overcurrent_tripped (isr_state i) \<or> cst_overvoltage_tripped (isr_state i)"

definition TripName :: "CurrentControlIsr \<Rightarrow> string option" where
  "TripName i = (if cst_overcurrent_tripped (isr_state i) then Some ''overcurrent trip''
     else if cst_overvoltage_tripped (isr_state i) then Some ''DC-link overvoltage trip'' else None)"

definition clamp_duty :: "Svm \<Rightarrow> f32 \<Rightarrow> f32" where
  "clamp_duty svm duty = Clamp duty (svm_duty_min svm) (svm_duty_max svm)"

definition ForceDuty :: "f32 \<Rightarrow> f32 \<Rightarrow> f32 \<Rightarrow> CurrentControlIsr \<Rightarrow> CurrentControlIsr" where
  "ForceDuty da db dc i = i\<lparr>isr_forced_duties := MailboxWrite [\<lparr>tp_a = clamp_duty (isr_svm i) da, tp_b = clamp_duty (isr_svm i) db,
     tp_c = clamp_duty (isr_svm i) dc\<rparr>] (isr_forced_duties i), isr_force_duty_active := True\<rparr>"

definition ReleaseForceDuty :: "CurrentControlIsr \<Rightarrow> CurrentControlIsr" where
  "ReleaseForceDuty i = i\<lparr>isr_cc := ctl_Reset (isr_cc i), isr_force_duty_active := False\<rparr>"

definition SetAdcTriggerOffset :: "u32 \<Rightarrow> CurrentControlIsr \<Rightarrow> CurrentControlIsr \<times> HardwareCall list" where
  "SetAdcTriggerOffset offset i = (i\<lparr>isr_state := isr_state i\<lparr>cst_adc_trigger_offset := offset\<rparr>\<rparr>,
     if isr_hardware i then [HwSetAdcTriggerOffset offset] else [])"

definition SetOvercurrentLimit :: "f32 \<Rightarrow> CurrentControlIsr \<Rightarrow> CurrentControlIsr \<times> HardwareCall list" where
  "SetOvercurrentLimit limit i = (i\<lparr>isr_state := isr_state i\<lparr>cst_overcurrent_limit := limit\<rparr>\<rparr>,
     if isr_hardware i then [HwSetOvercurrentLimit limit] else [])"

section \<open>Initialisation\<close>

text \<open>
  The result is \<open>None\<close> where the code has no defined behaviour: a frequency that is no unsigned 32-bit number, and a
  division by a frequency that doubles to zero.
\<close>

definition prefill :: "SinCos \<Rightarrow> SubStepBuffer \<Rightarrow> SubStepBuffer" where
  "prefill sin_cos b = b\<lparr>sb_sc := replicate kNumSubSteps sin_cos, sb_sc_out := replicate kNumSubSteps sin_cos\<rparr>"

definition init_controller :: "NvmSettings \<Rightarrow> CurrentController \<Rightarrow> CurrentController" where
  "init_controller settings c = ctl_Reset (c\<lparr>ctl_kp_d := nvm_current_kp_d settings, ctl_ki_d := nvm_current_ki_d settings,
     ctl_kp_q := nvm_current_kp_q settings, ctl_ki_q := nvm_current_ki_q settings, ctl_L_d := nvm_l_d settings,
     ctl_L_q := nvm_l_q settings, ctl_psi := nvm_flux_pm settings, ctl_v_max := nvm_current_v_max settings\<rparr>)"

definition calibration_of :: "NvmSettings \<Rightarrow> AdcCalibration" where
  "calibration_of settings = \<lparr>cal_offset_a = nvm_adc_offset_a settings, cal_offset_b = nvm_adc_offset_b settings,
     cal_offset_c = nvm_adc_offset_c settings, cal_gain_a = nvm_adc_gain_a settings, cal_gain_b = nvm_adc_gain_b settings,
     cal_gain_c = nvm_adc_gain_c settings, cal_gain_vdc = nvm_adc_gain_vdc settings\<rparr>"

definition init_state :: "NvmSettings \<Rightarrow> u32 \<Rightarrow> u32 \<Rightarrow> u32 \<Rightarrow> SinCos \<Rightarrow> CurrentControlState \<Rightarrow> CurrentControlState" where
  "init_state settings timer_clock_hz pwm_hz trigger_offset sin_cos s = s\<lparr>
     cst_arr := timer_clock_hz div (2 * pwm_hz) - 1,
     cst_dt_fast := DtFastFromPwmFrequency (nvm_pwm_frequency settings),
     cst_dt_slow := DtSlowFromPwmFrequency (nvm_pwm_frequency settings),
     cst_adc_trigger_offset := trigger_offset,
     cst_dc_link_trip := nvm_dc_link_trip settings,
     cst_calibration := calibration_of settings,
     cst_double_buf := \<lparr>db_buf = map (prefill sin_cos) (db_buf (cst_double_buf s)), db_active = 0\<rparr>,
     cst_samples_ready := False, cst_observer_pending := False, cst_observer_overruns := 0, cst_control_cycles := 0,
     cst_duty_plan := DutyPlan_init, cst_phase_duties := neutral_duties,
     cst_i_ref := zero_rotor, cst_i_ref_mailbox := MailboxWrite [zero_rotor] (cst_i_ref_mailbox s),
     cst_i_dq_last := zero_rotor, cst_u_dq_last := zero_rotor\<rparr>"

definition isr_Init :: "NvmSettings \<Rightarrow> u32 \<Rightarrow> CurrentControlIsr \<Rightarrow> CurrentControlIsr option" where
  "isr_Init settings timer_clock_hz i = do {
     let i = i\<lparr>isr_hardware := True\<rparr>;
     pwm_hz \<leftarrow> u32_of_f32 (nvm_pwm_frequency settings);
     if pwm_hz = 0 then Some i
     else if 2 * pwm_hz = 0 then None
     else do {
       trigger_offset \<leftarrow> u32_of_f32 (roundf (f32_of (1/1000000) * f32_of_int (uint timer_clock_hz)));
       mech_obs \<leftarrow> mo_Init settings (isr_mech_obs i);
       sin_cos \<leftarrow> Calculate_angle 0;
       Some (i\<lparr>isr_state := init_state settings timer_clock_hz pwm_hz trigger_offset sin_cos (isr_state i),
         isr_hfi := (hfi_Reset (hfi_Init settings (isr_hfi i)))\<lparr>hfi_step := int kNumSubSteps - 1\<rparr>,
         isr_dtc := Dtc_Init settings (isr_dtc i),
         isr_svm := Svm_Init settings (isr_svm i),
         isr_cc := init_controller settings (isr_cc i),
         isr_gains_pending := False,
         isr_mech_obs := mech_obs,
         isr_force_duty_active := False\<rparr>) } }"

section \<open>The control cycle\<close>

definition Exceeds :: "ThreePhase \<Rightarrow> f32 \<Rightarrow> bool" where
  "Exceeds currents limit \<longleftrightarrow> Abs (tp_a currents) > limit \<or> Abs (tp_b currents) > limit \<or> Abs (tp_c currents) > limit"

definition Calibrated :: "ControlCycleSamples \<Rightarrow> AdcCalibration \<Rightarrow> ControlCycleSamples" where
  "Calibrated raw c = raw\<lparr>
     cs_phase_currents := map (\<lambda>i. \<lparr>tp_a = (tp_a i - cal_offset_a c) * cal_gain_a c, tp_b = (tp_b i - cal_offset_b c) * cal_gain_b c,
       tp_c = (tp_c i - cal_offset_c c) * cal_gain_c c\<rparr>) (cs_phase_currents raw),
     cs_dc_link := cs_dc_link raw * cal_gain_vdc c\<rparr>"

text \<open>Section 1a: the newest sample, the current reference and pending gains.\<close>

definition store_samples :: "ControlCycleSamples \<Rightarrow> ControlCycleSamples \<Rightarrow> CurrentControlState \<Rightarrow> CurrentControlState" where
  "store_samples raw samples s = s\<lparr>
     cst_raw_phase_currents := cs_phase_currents raw ! (kNumSubSteps - 1), cst_raw_vdc := cs_dc_link raw,
     cst_phase_currents := cs_phase_currents samples ! (kNumSubSteps - 1), cst_dc_link := cs_dc_link samples,
     cst_i_ref := hd (MailboxRead (cst_i_ref_mailbox s))\<rparr>"

definition take_gains :: "CurrentControlIsr \<Rightarrow> CurrentControlIsr" where
  "take_gains i = (if isr_gains_pending i then (let gains = hd (MailboxRead (isr_gains i)) in
     i\<lparr>isr_gains_pending := False,
       isr_cc := isr_cc i\<lparr>ctl_kp_d := cg_kp_d gains, ctl_ki_d := cg_ki_d gains, ctl_kp_q := cg_kp_q gains, ctl_ki_q := cg_ki_q gains\<rparr>\<rparr>)
     else i)"

text \<open>Sections 1b and 1c: the two trips, each with the calls it makes.\<close>

definition over_current :: "ControlCycleSamples \<Rightarrow> f32 \<Rightarrow> bool" where
  "over_current samples limit \<longleftrightarrow> cs_overcurrent samples \<or> list_ex (\<lambda>i. Exceeds i limit) (cs_phase_currents samples)"

definition check_currents :: "ControlCycleSamples \<Rightarrow> CurrentControlState \<Rightarrow> CurrentControlState \<times> HardwareCall list" where
  "check_currents samples s = (if \<not> cst_overcurrent_tripped s \<and> over_current samples (cst_overcurrent_limit s)
     then (s\<lparr>cst_overcurrent_tripped := True\<rparr>, [TripPowerStage]) else (s, []))"

definition check_dc_link :: "ControlCycleSamples \<Rightarrow> CurrentControlState \<Rightarrow> CurrentControlState \<times> HardwareCall list" where
  "check_dc_link samples s = (if \<not> cst_overvoltage_tripped s \<and> \<not> (cs_dc_link samples < cst_dc_link_trip s)
     then (s\<lparr>cst_overvoltage_tripped := True\<rparr>, [TripPowerStage]) else (s, []))"

definition SetDutyPlan :: "DutyPlan \<Rightarrow> CurrentControlState \<Rightarrow> CurrentControlState \<times> HardwareCall list" where
  "SetDutyPlan plan s = (s\<lparr>cst_duty_plan := plan, cst_phase_duties := plan ! 0\<rparr>, [HotSetDutyPlan plan])"

definition SetUniformDuties :: "ThreePhase \<Rightarrow> CurrentControlState \<Rightarrow> CurrentControlState \<times> HardwareCall list" where
  "SetUniformDuties duties = SetDutyPlan (replicate kNumSubSteps duties)"

definition FinishCycleWithoutControl :: "CurrentControlState \<Rightarrow> CurrentControlState" where
  "FinishCycleWithoutControl s = s\<lparr>cst_samples_ready := True\<rparr>"

text \<open>Section 3: the mean current in the rotor frame of the samples, summed in the order of the samples.\<close>

definition mean_current :: "Stator list \<Rightarrow> SinCos list \<Rightarrow> Rotor" where
  "mean_current i_ab sc = (let
     i_dq = map2 ToRotor i_ab sc;
     sum = foldl (\<lambda>m i. \<lparr>ro_d = ro_d m + ro_d i, ro_q = ro_q m + ro_q i\<rparr>) zero_rotor i_dq;
     inverse_count = f32_of 1 / f32_of_int (int kNumSubSteps)
   in \<lparr>ro_d = ro_d sum * inverse_count, ro_q = ro_q sum * inverse_count\<rparr>)"

text \<open>Section 5: the duties of half period \<open>k\<close>.\<close>

definition plan_entry :: "CurrentControlIsr \<Rightarrow> Rotor \<Rightarrow> f32 \<Rightarrow> Stator \<Rightarrow> nat \<Rightarrow> SinCos \<Rightarrow> ThreePhase" where
  "plan_entry i u_dq inverse_v_dc dtc_ratio k sc_out = (let
     u_ab = Rotor_ToStator u_dq sc_out;
     u_ab = (if isr_hfi_active i then add_stator u_ab (InjectionVoltage (isr_hfi i) (int k) sc_out) else u_ab)
   in CalculateWithInverseDcLinkVoltage (isr_svm i) u_ab inverse_v_dc dtc_ratio)"

text \<open>Section 2: an observer that is still busy is counted.\<close>

definition count_overrun :: "CurrentControlState \<Rightarrow> CurrentControlState" where
  "count_overrun s = (if cst_observer_pending s then s\<lparr>cst_observer_overruns := cst_observer_overruns s + 1\<rparr> else s)"

text \<open>Sections 2 and 3: the samples of the cycle in the active buffer.\<close>

definition sampled_buffer :: "ControlCycleSamples \<Rightarrow> SubStepBuffer \<Rightarrow> SubStepBuffer" where
  "sampled_buffer samples b = (let i_ab = map ToStator (cs_phase_currents samples) in
     b\<lparr>sb_timestamp := cs_timestamp samples, sb_i_ab_samples := i_ab, sb_i_dq_mean := mean_current i_ab (sb_sc b)\<rparr>)"

text \<open>Section 5: one entry per half period, with the dead-time compensation of the newest current.\<close>

definition duty_plan :: "ControlCycleSamples \<Rightarrow> CurrentControlIsr \<Rightarrow> Rotor \<Rightarrow> SubStepBuffer \<Rightarrow> DutyPlan" where
  "duty_plan samples i u_dq b = (let
     dtc_ratio = Dtc_Calculate (isr_dtc i) (sb_i_ab_samples b ! (kNumSubSteps - 1));
     inverse_v_dc = InverseDcLinkVoltage (cs_dc_link samples)
   in map2 (plan_entry i u_dq inverse_v_dc dtc_ratio) [0..<kNumSubSteps] (sb_sc_out b))"

text \<open>Sections 2 to 6: the cycle with the control loop closed.\<close>

definition control_loop :: "ControlCycleSamples \<Rightarrow> CurrentControlIsr \<Rightarrow> CurrentControlIsr \<times> HardwareCall list" where
  "control_loop samples i = (let
     s = count_overrun (isr_state i);
     active = db_active (cst_double_buf s);
     buffer = sampled_buffer samples (db_buf (cst_double_buf s) ! unat active);
     (u_dq, cc) = ctl_Update (cst_i_ref s) (sb_i_dq_mean buffer) (mo_omega (isr_mech_obs i)) (cst_dt_slow s) (cs_dc_link samples) (isr_cc i);
     buffer = buffer\<lparr>sb_u_dq := u_dq\<rparr>;
     s = s\<lparr>cst_double_buf := cst_double_buf s\<lparr>db_buf := (db_buf (cst_double_buf s))[unat active := buffer]\<rparr>,
       cst_i_dq_last := sb_i_dq_mean buffer, cst_u_dq_last := u_dq\<rparr>;
     (s, calls) = SetDutyPlan (duty_plan samples i u_dq buffer) s;
     s = s\<lparr>cst_observer_buffer := active, cst_observer_pending := True, cst_samples_ready := True\<rparr>
   in (i\<lparr>isr_state := s, isr_cc := cc\<rparr>, calls))"

definition uncontrolled :: "ThreePhase \<Rightarrow> CurrentControlIsr \<Rightarrow> CurrentControlIsr \<times> HardwareCall list" where
  "uncontrolled duties i = (let (s, calls) = SetUniformDuties duties (isr_state i)
     in (i\<lparr>isr_state := FinishCycleWithoutControl s\<rparr>, calls))"

definition OnControlCycle :: "ControlCycleSamples \<Rightarrow> CurrentControlIsr \<Rightarrow> CurrentControlIsr \<times> HardwareCall list" where
  "OnControlCycle raw i = (if \<not> isr_hardware i then (i, []) else (let
     s = isr_state i;
     s = s\<lparr>cst_control_cycles := cst_control_cycles s + 1\<rparr>;
     samples = Calibrated raw (cst_calibration s);
     i = take_gains (i\<lparr>isr_state := store_samples raw samples s\<rparr>);
     (s, current_calls) = check_currents samples (isr_state i);
     (s, voltage_calls) = check_dc_link samples s;
     i = i\<lparr>isr_state := s\<rparr>;
     (i, calls) = (if Tripped i then uncontrolled neutral_duties i
       else if isr_force_duty_active i then uncontrolled (hd (MailboxRead (isr_forced_duties i))) i
       else control_loop samples i)
   in (i, current_calls @ voltage_calls @ calls)))"

end
