(* ===== verification/Hall_Fusion.thy ===== *)
theory Hall_Fusion
  imports Mechanical_Observer Hall_Capture
begin

text \<open>
  The Hall sensors as angle information (\<open>hall_decoder.hpp\<close>, \<open>hall_fusion.hpp\<close>): the sectors of the codes, the edges
  between them, and their fusion into the mechanical observer. The outer option of a result is the end of an angle
  wrap, an optional of the code is an inner option.
\<close>

section \<open>The decoder\<close>

definition kSectors :: nat where "kSectors = 6"

definition kSectorWidth :: f32 where "kSectorWidth = kPi / f32_of 3"

record HallDecoder =
  hd_offset :: f32

definition kSectorOfCode :: "int list" where
  "kSectorOfCode = [- 1, 1, 3, 2, 5, 0, 4, - 1]"

definition Sector :: "u8 \<Rightarrow> u8 option" where
  "Sector code = (if length kSectorOfCode \<le> unat code \<or> kSectorOfCode ! unat code < 0 then None
     else Some (word_of_int (kSectorOfCode ! unat code)))"

definition SectorStart :: "HallDecoder \<Rightarrow> u8 \<Rightarrow> f32 option" where
  "SectorStart d sector = WrapAngle (hd_offset d + kSectorWidth * f32_of_int (int (unat sector mod kSectors)))"

definition EdgeAngle :: "HallDecoder \<Rightarrow> u8 \<Rightarrow> u8 \<Rightarrow> f32 option option" where
  "EdgeAngle d previous code = (case (Sector previous, Sector code) of
      (Some from_sector, Some to_sector) \<Rightarrow>
        if unat to_sector = (unat from_sector + 1) mod kSectors then map_option Some (SectorStart d to_sector)
        else if unat from_sector = (unat to_sector + 1) mod kSectors then map_option Some (SectorStart d from_sector)
        else Some None
    | _ \<Rightarrow> Some None)"

definition SectorInnovation :: "HallDecoder \<Rightarrow> u8 \<Rightarrow> f32 \<Rightarrow> f32 option" where
  "SectorInnovation d sector estimate = do {
     let half_width = kSectorWidth * f32_of (1/2);
     start \<leftarrow> SectorStart d sector;
     deviation \<leftarrow> WrapAngle (estimate - (start + half_width));
     Some (if deviation > half_width then half_width - deviation
       else if deviation < - half_width then - half_width - deviation
       else 0) }"

section \<open>The fusion\<close>

record HallFusion =
  hf_decoder :: HallDecoder
  hf_r_edge :: f32
  hf_r_sector :: f32
  hf_enabled :: bool
  hf_valid :: bool
  hf_started :: bool
  hf_code :: u8
  hf_last_change :: u32
  hf_edges :: u32
  hf_invalid_codes :: u32
  hf_invalid_transitions :: u32

definition HallFusion_init :: HallFusion where
  "HallFusion_init = \<lparr>hf_decoder = \<lparr>hd_offset = 0\<rparr>, hf_r_edge = f32_of (3/1000), hf_r_sector = f32_of (3/100), hf_enabled = False,
     hf_valid = False, hf_started = False, hf_code = 0, hf_last_change = 0, hf_edges = 0, hf_invalid_codes = 0,
     hf_invalid_transitions = 0\<rparr>"

definition hf_Reset :: "HallFusion \<Rightarrow> HallFusion" where
  "hf_Reset h = h\<lparr>hf_valid := False, hf_started := False, hf_code := 0, hf_last_change := 0, hf_edges := 0, hf_invalid_codes := 0,
     hf_invalid_transitions := 0\<rparr>"

definition hf_Init :: "NvmSettings \<Rightarrow> HallFusion \<Rightarrow> HallFusion" where
  "hf_Init settings h = hf_Reset (h\<lparr>hf_enabled := nvm_hall_enable settings \<noteq> 0, hf_decoder := \<lparr>hd_offset = nvm_hall_offset settings\<rparr>,
     hf_r_edge := nvm_hall_r_edge settings, hf_r_sector := nvm_hall_r_sector settings\<rparr>)"

definition kMaxAgeTicks :: u32 where "kMaxAgeTicks = 0x40000000"

definition kStandstillTime :: f32 where "kStandstillTime = f32_of (1/2)"

text \<open>One event of the loop; the middle component is the code at the reference time.\<close>

definition fuse_edge :: "HallEvent \<Rightarrow> u32 \<Rightarrow> f32 \<Rightarrow> HallFusion \<Rightarrow> MechanicalObserver \<Rightarrow> (HallFusion \<times> MechanicalObserver) option" where
  "fuse_edge event reference tick_period h m = (
     if Sector (he_code event) = None then Some (h\<lparr>hf_invalid_codes := hf_invalid_codes h + 1\<rparr>, m)
     else do {
       edge \<leftarrow> EdgeAngle (hf_decoder h) (hf_code h) (he_code event);
       case edge of
         Some angle \<Rightarrow> do {
           let age = tick_period * f32_of_int (sint (reference - he_timestamp event));
           let measured = angle + mo_omega m * age;
           innovation \<leftarrow> WrapAngle (measured - mo_theta m);
           m \<leftarrow> UpdateAngle innovation (hf_r_edge h) m;
           Some (h\<lparr>hf_edges := hf_edges h + 1\<rparr>, m) }
       | None \<Rightarrow> Some (if Sector (hf_code h) \<noteq> None then h\<lparr>hf_invalid_transitions := hf_invalid_transitions h + 1\<rparr> else h, m) })"

definition fuse_event :: "u32 \<Rightarrow> f32 \<Rightarrow> HallEvent \<Rightarrow> HallFusion \<times> u8 \<times> MechanicalObserver \<Rightarrow> (HallFusion \<times> u8 \<times> MechanicalObserver) option" where
  "fuse_event reference tick_period event = (\<lambda>(h, code_at_reference, m).
     if he_code event = hf_code h then Some (h, code_at_reference, m)
     else do {
       (h, m) \<leftarrow> fuse_edge event reference tick_period h m;
       let h = h\<lparr>hf_code := he_code event, hf_last_change := he_timestamp event\<rparr>;
       Some (h, if 0 \<le> sint (reference - he_timestamp event) then hf_code h else code_at_reference, m) })"

fun fuse_events :: "u32 \<Rightarrow> f32 \<Rightarrow> HallEvent list \<Rightarrow> HallFusion \<times> u8 \<times> MechanicalObserver \<Rightarrow> (HallFusion \<times> u8 \<times> MechanicalObserver) option" where
  "fuse_events reference tick_period [] s = Some s"
| "fuse_events reference tick_period (e # es) s = do { s \<leftarrow> fuse_event reference tick_period e s; fuse_events reference tick_period es s }"

text \<open>The sector part, and the speed bound of the time without an edge.\<close>

definition fuse_sector :: "u8 \<Rightarrow> HallFusion \<Rightarrow> MechanicalObserver \<Rightarrow> MechanicalObserver option" where
  "fuse_sector sector h m = do {
     innovation \<leftarrow> SectorInnovation (hf_decoder h) sector (mo_theta m);
     if \<not> hf_started h \<or> (\<not> hf_valid h \<and> \<not> feq innovation 0) then do {
       start \<leftarrow> SectorStart (hf_decoder h) sector;
       theta \<leftarrow> WrapAngle (start + kSectorWidth * f32_of (1/2));
       mo_Reset theta (mo_omega m) m }
     else if \<not> feq innovation 0 then UpdateAngle innovation (hf_r_sector h) m
     else Some m }"

definition bound_speed :: "f32 \<Rightarrow> HallFusion \<Rightarrow> MechanicalObserver \<Rightarrow> MechanicalObserver option" where
  "bound_speed since_change h m = (let
     limit = kSectorWidth / since_change * f32_of 2;
     speed = mo_omega m
   in do {
     m \<leftarrow> (if speed > limit \<or> speed < - limit
       then UpdateSpeed ((if speed > 0 then limit else - limit) - speed) (hf_r_sector h / (since_change * since_change)) m
       else Some m);
     Some (if since_change > kStandstillTime then HoldStill m else m) })"

definition hf_Update :: "HallEvent list \<Rightarrow> u32 \<Rightarrow> f32 \<Rightarrow> HallFusion \<Rightarrow> MechanicalObserver \<Rightarrow> (HallFusion \<times> MechanicalObserver) option" where
  "hf_Update events reference tick_period h m = do {
     (h, code_at_reference, m) \<leftarrow> fuse_events reference tick_period events (h, hf_code h, m);
     case Sector code_at_reference of
       None \<Rightarrow> Some (h\<lparr>hf_valid := False\<rparr>, m)
     | Some sector \<Rightarrow> do {
         m \<leftarrow> fuse_sector sector h m;
         let h = h\<lparr>hf_valid := True, hf_started := True\<rparr>;
         let h = (if sint (reference - hf_last_change h) > sint kMaxAgeTicks then h\<lparr>hf_last_change := reference - kMaxAgeTicks\<rparr> else h);
         let ticks = sint (reference - hf_last_change h);
         if ticks \<le> 0 then Some (h, m)
         else do {
           m \<leftarrow> bound_speed (tick_period * f32_of_int ticks) h m;
           Some (h, m) } } }"

section \<open>Codes and edges\<close>

lemma Sector_range: "Sector code = Some s \<Longrightarrow> unat s < kSectors"
proof -
  assume "Sector code = Some s"
  then have "unat code < 8" "s = word_of_int (kSectorOfCode ! unat code)" by (auto simp: Sector_def kSectorOfCode_def split: if_splits)
  moreover have "\<forall>n \<in> {0..<8}. unat (word_of_int (kSectorOfCode ! n) :: u8) < 6 \<or> kSectorOfCode ! n < 0" by code_simp
  ultimately show ?thesis using \<open>Sector code = Some s\<close> by (auto simp: Sector_def kSectors_def split: if_splits)
qed

definition adjacent :: "u8 \<Rightarrow> u8 \<Rightarrow> bool" where
  "adjacent s t \<longleftrightarrow> unat t = (unat s + 1) mod kSectors \<or> unat s = (unat t + 1) mod kSectors"

text \<open>
  Forward rotation steps through the six valid codes 5, 1, 3, 2, 6, 4 in this order, all other codes are invalid. A change of
  code has an edge angle exactly if both codes are valid and their sectors are adjacent, and the angle is the same in both
  directions of rotation.
\<close>
theorem hall_codes:
  "map Sector [5, 1, 3, 2, 6, 4] = map Some [0, 1, 2, 3, 4, 5] \<and> (Sector code \<noteq> None \<longleftrightarrow> code \<in> {5, 1, 3, 2, 6, 4})
    \<and> EdgeAngle d previous code = EdgeAngle d code previous
    \<and> (EdgeAngle d previous code = Some None \<longleftrightarrow> \<not> (\<exists>s t. Sector previous = Some s \<and> Sector code = Some t \<and> adjacent s t))"
proof -
  have 1: "map Sector [5, 1, 3, 2, 6, 4] = map Some [0, 1, 2, 3, 4, 5]" by code_simp
  have 2: "Sector code \<noteq> None \<longleftrightarrow> code \<in> {5, 1, 3, 2, 6, 4}"
  proof (cases "unat code < 8")
    case True
    have "list_all (\<lambda>n. Sector (word_of_nat n) \<noteq> None \<longleftrightarrow> (word_of_nat n :: u8) \<in> {5, 1, 3, 2, 6, 4}) [0..<8]" by code_simp
    then have "Sector (word_of_nat (unat code)) \<noteq> None \<longleftrightarrow> (word_of_nat (unat code) :: u8) \<in> {5, 1, 3, 2, 6, 4}"
      using True unfolding list_all_iff set_upt by (elim bspec) simp
    then show ?thesis by simp
  qed (auto simp: Sector_def kSectorOfCode_def)
  have ne: "\<not> (unat t = (unat s + 1) mod 6 \<and> unat s = (unat t + 1) mod 6)" if "unat s < 6" "unat t < 6" for s t :: u8
    using that by presburger
  have 3: "EdgeAngle d previous code = EdgeAngle d code previous"
    using ne Sector_range by (auto simp: EdgeAngle_def kSectors_def split: option.splits)
  have 4: "EdgeAngle d previous code = Some None \<longleftrightarrow> \<not> (\<exists>s t. Sector previous = Some s \<and> Sector code = Some t \<and> adjacent s t)"
    by (auto simp: EdgeAngle_def adjacent_def split: option.splits)
  show ?thesis using 1 2 3 4 by blast
qed

section \<open>The estimate stays usable\<close>

lemma SectorStart_ok: "SectorStart d s = Some a \<Longrightarrow> f32_ok a"
  unfolding SectorStart_def by (erule WrapAngle_range(1)) (rule f32_ok_plus)

lemma fuse_edge_ok: "estimate_ok m \<Longrightarrow> fuse_edge e reference tick h m = Some (h', m') \<Longrightarrow> estimate_ok m'"
  using UpdateAngle_ok by (auto simp: fuse_edge_def Let_def bind_eq_Some_conv split: if_splits option.splits)

lemma fuse_events_ok: "estimate_ok m \<Longrightarrow> fuse_events reference tick es (h, c, m) = Some (h', c', m') \<Longrightarrow> estimate_ok m'"
proof (induction es arbitrary: h c m)
  case (Cons e es)
  then obtain h1 c1 m1 where s: "fuse_event reference tick e (h, c, m) = Some (h1, c1, m1)"
    "fuse_events reference tick es (h1, c1, m1) = Some (h', c', m')" by (auto simp: bind_eq_Some_conv)
  have "estimate_ok m1"
    using s(1) Cons.prems(1) fuse_edge_ok by (auto simp: fuse_event_def Let_def bind_eq_Some_conv split: if_splits)
  then show ?case by (rule Cons.IH) (rule s(2))
qed simp

lemma fuse_sector_ok:
  assumes "estimate_ok m" "fuse_sector sector h m = Some m'"
  shows "estimate_ok m'"
proof -
  have restart: "estimate_ok m'" if "WrapAngle (start + kSectorWidth * f32_of (1/2)) = Some theta" "mo_Reset theta (mo_omega m) m = Some m'" for start theta
    using observer_call_ok [OF assms(1), of "Restart (start + kSectorWidth * f32_of (1/2))" m'] that by simp
  show ?thesis
    using assms restart UpdateAngle_ok by (auto simp: fuse_sector_def bind_eq_Some_conv split: if_splits)
qed

lemma bound_speed_ok: "estimate_ok m \<Longrightarrow> bound_speed t h m = Some m' \<Longrightarrow> estimate_ok m'"
  using Correct_ok HoldStill_ok by (auto simp: bound_speed_def UpdateSpeed_def Let_def bind_eq_Some_conv split: if_splits)

lemma hf_Update_ok:
  assumes "estimate_ok m" "hf_Update events reference tick h m = Some (h', m')"
  shows "estimate_ok m'"
proof -
  obtain h1 c1 m1 where e: "fuse_events reference tick events (h, hf_code h, m) = Some (h1, c1, m1)"
    using assms(2) by (auto simp: hf_Update_def bind_eq_Some_conv)
  note ok = fuse_events_ok [OF assms(1) e]
  show ?thesis
  proof (cases "Sector c1")
    case None
    then show ?thesis using assms(2) e ok by (simp add: hf_Update_def)
  next
    case (Some s)
    then obtain m2 where m2: "fuse_sector s h1 m1 = Some m2" using assms(2) e by (auto simp: hf_Update_def bind_eq_Some_conv)
    note ok2 = fuse_sector_ok [OF ok m2]
    show ?thesis
      using assms(2) e Some m2 ok2 bound_speed_ok [OF ok2] by (auto simp: hf_Update_def Let_def bind_eq_Some_conv split: if_splits)
  qed
qed

end
