(* ===== verification/Slow_Update.thy ===== *)
theory Slow_Update
  imports Current_Control Hall_Fusion Power_Stage
begin

text \<open>
  The observer that follows every control cycle at a lower priority (\<open>src/src/current_control/slow_update.hpp\<close>, \<open>.cpp\<close>):
  it feeds the samples of the finished cycle into the angle sources, predicts the mechanical state and prepares the angles of
  the next cycle in the other half of the double buffer. The Hall queue and the power stage are those of the platform. A
  result \<open>None\<close> is an angle wrap that does not return or a conversion without a defined result.
\<close>

definition kTimestampFrequency :: u32 where "kTimestampFrequency = 170000000"

definition kMaxHallEvents :: nat where "kMaxHallEvents = 8"

text \<open>The queue of the platform has \<open>2 ^ 4\<close> slots.\<close>

definition kHallQueueBits :: nat where "kHallQueueBits = 4"

record SlowUpdate =
  su_flux_obs :: PmsmFluxObserver
  su_hall :: HallFusion
  su_bound :: bool
  su_flux_r_speed :: f32
  su_reference_offset_ticks :: u32
  su_flux_setpoint :: Rotor

definition SlowUpdate_init :: SlowUpdate where
  "SlowUpdate_init = \<lparr>su_flux_obs = PmsmFluxObserver_init, su_hall = HallFusion_init, su_bound = False, su_flux_r_speed = 0,
     su_reference_offset_ticks = 0, su_flux_setpoint = zero_rotor\<rparr>"

definition su_Init :: "NvmSettings \<Rightarrow> CurrentControlIsr \<Rightarrow> SlowUpdate \<Rightarrow> SlowUpdate option" where
  "su_Init settings isr u = do {
     let offset = cst_dt_fast (isr_state isr) * f32_of_int (int (kNumSubSteps - 1));
     ticks \<leftarrow> u32_of_f32 ((offset * f32_of_int (uint kTimestampFrequency)) + f32_of (1/2));
     Some (u\<lparr>su_bound := True, su_flux_obs := fo_Init settings (su_flux_obs u), su_flux_r_speed := nvm_pmsm_flux_obs_r_speed settings,
       su_hall := hf_Init settings (su_hall u), su_reference_offset_ticks := ticks,
       su_flux_setpoint := \<lparr>ro_d = nvm_flux_pm settings, ro_q = 0\<rparr>\<rparr>) }"

definition SetFluxSetpoint :: "Rotor \<Rightarrow> SlowUpdate \<Rightarrow> SlowUpdate" where
  "SetFluxSetpoint setpoint u = u\<lparr>su_flux_setpoint := setpoint\<rparr>"

definition FluxNoise :: "SlowUpdate \<Rightarrow> MechanicalObserver \<Rightarrow> f32 \<Rightarrow> f32" where
  "FluxNoise u m omega = (
     if \<not> (su_flux_r_speed u > 0) then mo_R m
     else mo_R m + (su_flux_r_speed u / Max (omega * omega) (f32_of 1 * f32_of 1)))"

fun pop_events :: "nat \<Rightarrow> HallEventQueue \<Rightarrow> HallEvent list \<times> HallEventQueue" where
  "pop_events 0 q = ([], q)"
| "pop_events (Suc n) q = (case HallPop kHallQueueBits q of
      (None, q) \<Rightarrow> ([], q)
    | (Some e, q) \<Rightarrow> (let (es, q) = pop_events n q in (e # es, q)))"

definition FuseHall :: "SubStepBuffer \<Rightarrow> SlowUpdate \<Rightarrow> HallEventQueue \<Rightarrow> MechanicalObserver \<Rightarrow> (SlowUpdate \<times> HallEventQueue \<times> MechanicalObserver) option" where
  "FuseHall cycle u q m = (
     if \<not> su_bound u then Some (u, q, m)
     else (let (events, q) = pop_events kMaxHallEvents q in
       if \<not> hf_enabled (su_hall u) then Some (u, q, m)
       else do {
         let tick_period = f32_of 1 / f32_of_int (uint kTimestampFrequency);
         (h, m) \<leftarrow> hf_Update events (sb_timestamp cycle - su_reference_offset_ticks u) tick_period (su_hall u) m;
         Some (u\<lparr>su_hall := h\<rparr>, q, m) }))"

text \<open>Section 2: the flux observer, while the outputs are released.\<close>

definition fuse_flux :: "PowerStageState \<Rightarrow> SubStepBuffer \<Rightarrow> f32 \<Rightarrow> SlowUpdate \<Rightarrow> MechanicalObserver \<Rightarrow> (SlowUpdate \<times> MechanicalObserver) option" where
  "fuse_flux stage cycle dt_slow u m = (
     if stage = kEnabled then (let
       (flux_error, f) = fo_Calculate (sb_u_dq cycle) (sb_i_dq_mean cycle) (su_flux_setpoint u) dt_slow m (su_flux_obs u);
       u = u\<lparr>su_flux_obs := f\<rparr>
     in case flux_error of
         None \<Rightarrow> Some (u, m)
       | Some e \<Rightarrow> map_option (Pair u) (UpdateAngle e (FluxNoise u m (mo_omega m)) m))
     else Some (u\<lparr>su_flux_obs := fo_Reset (su_flux_obs u)\<rparr>, m))"

text \<open>Section 4: the samples of the cycle into the injection.\<close>

definition run_hfi :: "SubStepBuffer \<Rightarrow> f32 \<Rightarrow> bool \<Rightarrow> Hfi \<Rightarrow> MechanicalObserver \<Rightarrow> (Hfi \<times> MechanicalObserver) option" where
  "run_hfi cycle dt_slow active h m = (
     if active then hfi_updates (zip (sb_i_ab_samples cycle) (sb_sc cycle)) dt_slow h m else Some (h, m))"

text \<open>Section 5: the angles of the next cycle.\<close>

fun sin_cos_list :: "f32 list \<Rightarrow> SinCos list option" where
  "sin_cos_list [] = Some []"
| "sin_cos_list (a # as) = do { x \<leftarrow> Calculate_angle a; xs \<leftarrow> sin_cos_list as; Some (x # xs) }"

definition next_angles :: "MechanicalObserver \<Rightarrow> CurrentControlState \<Rightarrow> SubStepBuffer \<Rightarrow> SubStepBuffer option" where
  "next_angles m s b = do {
     let step = mo_omega m * cst_dt_fast s;
     let out_offset = f32_of_int (int (kNumSubSteps - 1)) + cst_output_delay_half_periods s;
     sc \<leftarrow> sin_cos_list (map (\<lambda>k. mo_theta m + step * f32_of_int (int k)) [0..<kNumSubSteps]);
     sc_out \<leftarrow> sin_cos_list (map (\<lambda>k. mo_theta m + step * (out_offset + f32_of_int (int k))) [0..<kNumSubSteps]);
     Some (b\<lparr>sb_sc := sc, sb_sc_out := sc_out\<rparr>) }"

definition RunOnce :: "PowerStageState \<Rightarrow> SlowUpdate \<Rightarrow> HallEventQueue \<Rightarrow> CurrentControlIsr \<Rightarrow> (bool \<times> SlowUpdate \<times> HallEventQueue \<times> CurrentControlIsr) option" where
  "RunOnce stage u q i = (let s = isr_state i in
     if \<not> su_bound u \<or> \<not> cst_observer_pending s then Some (False, u, q, i)
     else do {
       let finished = cst_observer_buffer s;
       let cycle = db_buf (cst_double_buf s) ! unat finished;
       let m = mo_PredictCovariance (cst_dt_slow s) (isr_mech_obs i);
       (u, m) \<leftarrow> fuse_flux stage cycle (cst_dt_slow s) u m;
       (u, q, m) \<leftarrow> FuseHall cycle u q m;
       m \<leftarrow> mo_Predict (sb_i_dq_mean cycle) (cst_dt_slow s) m;
       (h, m) \<leftarrow> run_hfi cycle (cst_dt_slow s) (isr_hfi_active i) (isr_hfi i) m;
       let other = 1 - finished;
       b \<leftarrow> next_angles m s (db_buf (cst_double_buf s) ! unat other);
       let s = s\<lparr>cst_double_buf := \<lparr>db_buf = (db_buf (cst_double_buf s))[unat other := b], db_active = other\<rparr>, cst_observer_pending := False\<rparr>;
       Some (True, u, q, i\<lparr>isr_state := s, isr_mech_obs := m, isr_hfi := h\<rparr>) })"

end
