(* ===== verification/Foc_System.thy ===== *)
theory Foc_System
  imports Slow_Update
begin

text \<open>
  The control cycle, the observer behind it and the operations of the control thread as one system. An operation sequence is
  any order in which the priorities run them, each operation whole: the protocol between the cycle and the observer is the
  double buffer, and the hand-over of single values is the subject of its own theory.
\<close>

record Foc =
  foc_isr :: CurrentControlIsr
  foc_slow :: SlowUpdate
  foc_hall :: HallEventQueue

datatype FocOp =
    Cycle ControlCycleSamples
  | Observe PowerStageState
  | HallEdge HallEvent
  | CurrentRef Rotor
  | LiveGains CurrentGains
  | FluxRef Rotor
  | CurrentLimit f32
  | AdcTrigger u32
  | Force f32 f32 f32
  | ReleaseForce
  | Acknowledge

abbreviation on_isr :: "(CurrentControlIsr \<Rightarrow> CurrentControlIsr \<times> HardwareCall list) \<Rightarrow> Foc \<Rightarrow> (Foc \<times> HardwareCall list) option" where
  "on_isr f s \<equiv> Some (let (i, calls) = f (foc_isr s) in (s\<lparr>foc_isr := i\<rparr>, calls))"

fun foc_op :: "FocOp \<Rightarrow> Foc \<Rightarrow> (Foc \<times> HardwareCall list) option" where
  "foc_op (Cycle samples) s = on_isr (OnControlCycle samples) s"
| "foc_op (Observe stage) s = map_option (\<lambda>(_, u, q, i). (\<lparr>foc_isr = i, foc_slow = u, foc_hall = q\<rparr>, []))
     (RunOnce stage (foc_slow s) (foc_hall s) (foc_isr s))"
| "foc_op (HallEdge e) s = Some (s\<lparr>foc_hall := snd (HallPush kHallQueueBits e (foc_hall s))\<rparr>, [])"
| "foc_op (CurrentRef ref) s = on_isr (\<lambda>i. (SetCurrentRef ref i, [])) s"
| "foc_op (LiveGains gains) s = on_isr (\<lambda>i. (SetCurrentGains gains i, [])) s"
| "foc_op (FluxRef flux) s = Some (s\<lparr>foc_slow := SetFluxSetpoint flux (foc_slow s)\<rparr>, [])"
| "foc_op (CurrentLimit limit) s = on_isr (SetOvercurrentLimit limit) s"
| "foc_op (AdcTrigger offset) s = on_isr (SetAdcTriggerOffset offset) s"
| "foc_op (Force da db dc) s = on_isr (\<lambda>i. (ForceDuty da db dc i, [])) s"
| "foc_op ReleaseForce s = on_isr (\<lambda>i. (ReleaseForceDuty i, [])) s"
| "foc_op Acknowledge s = on_isr (\<lambda>i. (ClearTrips i, [])) s"

fun foc_run :: "FocOp list \<Rightarrow> Foc \<Rightarrow> (Foc \<times> HardwareCall list) option" where
  "foc_run [] s = Some (s, [])"
| "foc_run (x # xs) s = do { (s, calls) \<leftarrow> foc_op x s; (s, later) \<leftarrow> foc_run xs s; Some (s, calls @ later) }"

text \<open>A state that holds after every operation, and calls that every operation makes, hold for a sequence.\<close>

lemma foc_run_induct:
  assumes step: "\<And>x s s' calls. x \<in> set xs \<Longrightarrow> P s \<Longrightarrow> foc_op x s = Some (s', calls) \<Longrightarrow> P s' \<and> list_all Q calls"
  shows "P s \<Longrightarrow> foc_run xs s = Some (s', calls) \<Longrightarrow> P s' \<and> list_all Q calls"
  using step
proof (induction xs arbitrary: s calls)
  case (Cons x xs)
  from Cons.prems(2) obtain s1 c1 c2 where run: "foc_op x s = Some (s1, c1)" "foc_run xs s1 = Some (s', c2)" "calls = c1 @ c2"
    by (auto simp: bind_eq_Some_conv)
  have "P s1 \<and> list_all Q c1" using Cons.prems(3) [of x s s1 c1] Cons.prems(1) run(1) by simp
  moreover from this have "P s' \<and> list_all Q c2" using run(2) Cons.prems(3) by (intro Cons.IH) auto
  ultimately show ?case using run(3) by simp
qed simp

section \<open>The cycle, branch by branch\<close>

text \<open>The state and the samples after sections 1 and 1a, and what the checks of 1b and 1c decide.\<close>

definition sampled :: "ControlCycleSamples \<Rightarrow> CurrentControlIsr \<Rightarrow> CurrentControlIsr" where
  "sampled raw i = (let s = isr_state i; s = s\<lparr>cst_control_cycles := cst_control_cycles s + 1\<rparr> in
     take_gains (i\<lparr>isr_state := store_samples raw (Calibrated raw (cst_calibration s)) s\<rparr>))"

definition trip_current :: "ControlCycleSamples \<Rightarrow> CurrentControlIsr \<Rightarrow> bool" where
  "trip_current raw i \<longleftrightarrow> over_current (Calibrated raw (cst_calibration (isr_state i))) (cst_overcurrent_limit (isr_state i))"

definition trip_voltage :: "ControlCycleSamples \<Rightarrow> CurrentControlIsr \<Rightarrow> bool" where
  "trip_voltage raw i \<longleftrightarrow> \<not> (cs_dc_link raw * cal_gain_vdc (cst_calibration (isr_state i)) < cst_dc_link_trip (isr_state i))"

definition checked :: "ControlCycleSamples \<Rightarrow> CurrentControlIsr \<Rightarrow> CurrentControlIsr" where
  "checked raw i = (let s = isr_state (sampled raw i) in (sampled raw i)\<lparr>isr_state := s\<lparr>
     cst_overcurrent_tripped := cst_overcurrent_tripped s \<or> trip_current raw i,
     cst_overvoltage_tripped := cst_overvoltage_tripped s \<or> trip_voltage raw i\<rparr>\<rparr>)"

definition trip_calls :: "ControlCycleSamples \<Rightarrow> CurrentControlIsr \<Rightarrow> HardwareCall list" where
  "trip_calls raw i = (if \<not> cst_overcurrent_tripped (isr_state i) \<and> trip_current raw i then [TripPowerStage] else [])
     @ (if \<not> cst_overvoltage_tripped (isr_state i) \<and> trip_voltage raw i then [TripPowerStage] else [])"

lemma sampled_frame:
  "isr_mech_obs (sampled raw i) = isr_mech_obs i" "isr_hfi (sampled raw i) = isr_hfi i" "isr_svm (sampled raw i) = isr_svm i"
  "isr_hardware (sampled raw i) = isr_hardware i" "isr_force_duty_active (sampled raw i) = isr_force_duty_active i"
  "isr_forced_duties (sampled raw i) = isr_forced_duties i" "isr_hfi_active (sampled raw i) = isr_hfi_active i"
  "ctl_integrator_d (isr_cc (sampled raw i)) = ctl_integrator_d (isr_cc i)"
  "ctl_integrator_q (isr_cc (sampled raw i)) = ctl_integrator_q (isr_cc i)"
  "cst_double_buf (isr_state (sampled raw i)) = cst_double_buf (isr_state i)"
  "cst_observer_pending (isr_state (sampled raw i)) = cst_observer_pending (isr_state i)"
  "cst_observer_buffer (isr_state (sampled raw i)) = cst_observer_buffer (isr_state i)"
  "cst_overcurrent_tripped (isr_state (sampled raw i)) = cst_overcurrent_tripped (isr_state i)"
  "cst_overvoltage_tripped (isr_state (sampled raw i)) = cst_overvoltage_tripped (isr_state i)"
  "cst_overcurrent_limit (isr_state (sampled raw i)) = cst_overcurrent_limit (isr_state i)"
  "cst_dc_link_trip (isr_state (sampled raw i)) = cst_dc_link_trip (isr_state i)"
  by (simp_all add: sampled_def take_gains_def store_samples_def Let_def)

lemma Tripped_checked: "Tripped (checked raw i) \<longleftrightarrow> Tripped i \<or> trip_current raw i \<or> trip_voltage raw i"
  by (auto simp: Tripped_def checked_def Let_def sampled_frame)

lemma OnControlCycle_cases:
  assumes "isr_hardware i"
  shows "OnControlCycle raw i = (let (j, calls) = (if Tripped (checked raw i) then uncontrolled neutral_duties (checked raw i)
      else if isr_force_duty_active i then uncontrolled (hd (MailboxRead (isr_forced_duties i))) (checked raw i)
      else control_loop (Calibrated raw (cst_calibration (isr_state i))) (checked raw i)) in (j, trip_calls raw i @ calls))"
proof -
  define samples where "samples = Calibrated raw (cst_calibration (isr_state i))"
  define s where "s = isr_state (sampled raw i)"
  have cur: "check_currents samples s = (s\<lparr>cst_overcurrent_tripped := cst_overcurrent_tripped s \<or> trip_current raw i\<rparr>,
      if \<not> cst_overcurrent_tripped (isr_state i) \<and> trip_current raw i then [TripPowerStage] else [])"
    by (auto simp: check_currents_def samples_def trip_current_def s_def sampled_frame intro!: CurrentControlState.equality)
  have volt: "check_dc_link samples t = (t\<lparr>cst_overvoltage_tripped := cst_overvoltage_tripped t \<or> trip_voltage raw i\<rparr>,
      if \<not> cst_overvoltage_tripped t \<and> trip_voltage raw i then [TripPowerStage] else [])" if "cst_dc_link_trip t = cst_dc_link_trip (isr_state i)" for t
    using that by (auto simp: check_dc_link_def samples_def trip_voltage_def Calibrated_def intro!: CurrentControlState.equality)
  define j where "j = sampled raw i"
  have j: "take_gains (i\<lparr>isr_state := store_samples raw samples (isr_state i\<lparr>cst_control_cycles := cst_control_cycles (isr_state i) + 1\<rparr>)\<rparr>) = j"
    by (simp add: j_def sampled_def Let_def samples_def)
  have c: "checked raw i = j\<lparr>isr_state := s\<lparr>cst_overcurrent_tripped := cst_overcurrent_tripped s \<or> trip_current raw i,
      cst_overvoltage_tripped := cst_overvoltage_tripped s \<or> trip_voltage raw i\<rparr>\<rparr>"
    by (simp add: checked_def Let_def s_def j_def)
  have d: "cst_dc_link_trip s = cst_dc_link_trip (isr_state i)" "cst_overvoltage_tripped s = cst_overvoltage_tripped (isr_state i)"
    by (simp_all add: s_def sampled_frame)
  have f: "isr_force_duty_active j = isr_force_duty_active i" "isr_forced_duties j = isr_forced_duties i" "isr_state j = s"
    by (simp_all add: j_def sampled_frame s_def)
  show ?thesis
    using assms unfolding OnControlCycle_def Let_def samples_def [symmetric] c trip_calls_def
    by (simp add: samples_def [symmetric] j f cur volt d split: prod.split)
qed

definition planned :: "ThreePhase \<Rightarrow> CurrentControlIsr \<Rightarrow> CurrentControlIsr" where
  "planned d i = i\<lparr>isr_state := isr_state i\<lparr>cst_duty_plan := replicate kNumSubSteps d, cst_phase_duties := d, cst_samples_ready := True\<rparr>\<rparr>"

lemma uncontrolled_eq: "uncontrolled d i = (planned d i, [HotSetDutyPlan (replicate kNumSubSteps d)])"
  by (simp add: uncontrolled_def planned_def SetUniformDuties_def SetDutyPlan_def FinishCycleWithoutControl_def kNumSubSteps_def eval_nat_numeral)

lemma planned_frame [simp]:
  "Tripped (planned d i) = Tripped i" "isr_mech_obs (planned d i) = isr_mech_obs i" "isr_hfi (planned d i) = isr_hfi i"
  "isr_svm (planned d i) = isr_svm i" "isr_hardware (planned d i) = isr_hardware i" "isr_cc (planned d i) = isr_cc i"
  "isr_force_duty_active (planned d i) = isr_force_duty_active i" "isr_forced_duties (planned d i) = isr_forced_duties i"
  "cst_double_buf (isr_state (planned d i)) = cst_double_buf (isr_state i)"
  "cst_observer_pending (isr_state (planned d i)) = cst_observer_pending (isr_state i)"
  "cst_observer_buffer (isr_state (planned d i)) = cst_observer_buffer (isr_state i)"
  by (simp_all add: planned_def Tripped_def)

lemma count_overrun_frame [simp]:
  "cst_double_buf (count_overrun s) = cst_double_buf s" "cst_overcurrent_tripped (count_overrun s) = cst_overcurrent_tripped s"
  "cst_overvoltage_tripped (count_overrun s) = cst_overvoltage_tripped s" "cst_dt_slow (count_overrun s) = cst_dt_slow s"
  "cst_i_ref (count_overrun s) = cst_i_ref s"
  by (simp_all add: count_overrun_def)

lemma control_loop_frame:
  assumes "control_loop samples i = (j, calls)"
  shows "isr_mech_obs j = isr_mech_obs i" "isr_hfi j = isr_hfi i" "isr_svm j = isr_svm i" "isr_hardware j = isr_hardware i"
    "isr_force_duty_active j = isr_force_duty_active i" "isr_forced_duties j = isr_forced_duties i" "Tripped j = Tripped i"
    "\<exists>plan. calls = [HotSetDutyPlan plan]"
  using assms by (auto simp: control_loop_def SetDutyPlan_def Let_def Tripped_def split: prod.splits)

lemma checked_frame:
  "isr_mech_obs (checked raw i) = isr_mech_obs i" "isr_hfi (checked raw i) = isr_hfi i" "isr_svm (checked raw i) = isr_svm i"
  "isr_hardware (checked raw i) = isr_hardware i" "isr_force_duty_active (checked raw i) = isr_force_duty_active i"
  "isr_forced_duties (checked raw i) = isr_forced_duties i" "isr_hfi_active (checked raw i) = isr_hfi_active i"
  "ctl_integrator_d (isr_cc (checked raw i)) = ctl_integrator_d (isr_cc i)"
  "ctl_integrator_q (isr_cc (checked raw i)) = ctl_integrator_q (isr_cc i)"
  "cst_double_buf (isr_state (checked raw i)) = cst_double_buf (isr_state i)"
  "cst_observer_pending (isr_state (checked raw i)) = cst_observer_pending (isr_state i)"
  "cst_observer_buffer (isr_state (checked raw i)) = cst_observer_buffer (isr_state i)"
  by (simp_all add: checked_def Let_def sampled_frame)

lemma neutral_plan: "replicate kNumSubSteps neutral_duties = DutyPlan_init"
  by (simp add: DutyPlan_init_def)

lemma trip_calls_only: "c \<in> set (trip_calls raw i) \<Longrightarrow> c = TripPowerStage"
  by (auto simp: trip_calls_def split: if_splits)

lemma cycle_cases [consumes 2, case_names tripped forced controlled]:
  assumes "isr_hardware i" "OnControlCycle raw i = (j, calls)"
  obtains "Tripped (checked raw i)" "j = planned neutral_duties (checked raw i)" "calls = trip_calls raw i @ [HotSetDutyPlan DutyPlan_init]"
  | "\<not> Tripped (checked raw i)" "isr_force_duty_active i" "j = planned (hd (MailboxRead (isr_forced_duties i))) (checked raw i)"
    "calls = [HotSetDutyPlan (replicate kNumSubSteps (hd (MailboxRead (isr_forced_duties i))))]"
  | "\<not> Tripped (checked raw i)" "\<not> isr_force_duty_active i"
    "control_loop (Calibrated raw (cst_calibration (isr_state i))) (checked raw i) = (j, calls)"
proof -
  have "trip_calls raw i = []" if "\<not> Tripped (checked raw i)" using that by (simp add: Tripped_checked trip_calls_def)
  then show thesis using assms(2) that unfolding OnControlCycle_cases [OF assms(1)] uncontrolled_eq neutral_plan
    by (auto simp: Let_def split: if_splits prod.splits)
qed

section \<open>Trips\<close>

text \<open>
  C1. The control cycle is tripped afterwards exactly if it was tripped before, a current of one of its samples exceeds the limit
  (or the hardware has reported it), or the calibrated DC-link voltage is not below its trip level, which includes a voltage that is
  not a number. The power stage is tripped before the neutral duties are set, once for every new cause, and such a cycle leaves
  the integrators, the observer and the double buffer alone. A cycle that is not tripped does not touch the power stage.
\<close>
theorem OnControlCycle_trips:
  assumes "isr_hardware i" "OnControlCycle raw i = (j, calls)"
  shows "(Tripped j \<longleftrightarrow> Tripped i \<or> trip_current raw i \<or> trip_voltage raw i)
    \<and> (Tripped j \<longrightarrow> calls = trip_calls raw i @ [HotSetDutyPlan DutyPlan_init] \<and> isr_mech_obs j = isr_mech_obs i
       \<and> ctl_integrator_d (isr_cc j) = ctl_integrator_d (isr_cc i) \<and> ctl_integrator_q (isr_cc j) = ctl_integrator_q (isr_cc i)
       \<and> cst_double_buf (isr_state j) = cst_double_buf (isr_state i))
    \<and> (\<not> Tripped j \<longrightarrow> (\<exists>plan. calls = [HotSetDutyPlan plan]))"
  using assms
proof (cases rule: cycle_cases)
  case tripped
  then show ?thesis using Tripped_checked [of raw i] by (simp add: checked_frame)
next
  case forced
  then show ?thesis using Tripped_checked [of raw i] by simp
next
  case controlled
  then show ?thesis using Tripped_checked [of raw i] control_loop_frame(7,8) [OF controlled(3)] by simp
qed

text \<open>Until the trip is acknowledged, nothing but neutral duties reaches the hardware.\<close>

fun neutral_call :: "HardwareCall \<Rightarrow> bool" where
  "neutral_call (HotSetDutyPlan plan) \<longleftrightarrow> plan = DutyPlan_init"
| "neutral_call _ \<longleftrightarrow> True"

lemma RunOnce_frame:
  assumes "RunOnce stage u q i = Some (r, u', q', j)"
  shows "Tripped j = Tripped i" "isr_hardware j = isr_hardware i" "isr_svm j = isr_svm i"
    "isr_force_duty_active j = isr_force_duty_active i" "isr_forced_duties j = isr_forced_duties i"
  using assms by (auto simp: RunOnce_def Let_def Tripped_def bind_eq_Some_conv split: if_splits)

lemma tripped_op:
  assumes "x \<noteq> Acknowledge" "isr_hardware (foc_isr s) \<and> Tripped (foc_isr s)" "foc_op x s = Some (s', calls)"
  shows "(isr_hardware (foc_isr s') \<and> Tripped (foc_isr s')) \<and> list_all neutral_call calls"
proof (cases x)
  case (Cycle raw)
  then obtain j where j: "OnControlCycle raw (foc_isr s) = (j, calls)" "s' = s\<lparr>foc_isr := j\<rparr>" using assms(3) by (auto split: prod.splits)
  from conjunct1 [OF assms(2)] j(1) show ?thesis
    by (cases rule: cycle_cases) (use assms(2) j(2) Tripped_checked [of raw "foc_isr s"] in
      \<open>auto simp: checked_frame list_all_iff dest!: trip_calls_only\<close>)
next
  case (Observe stage)
  then show ?thesis using assms by (auto dest: RunOnce_frame)
qed (use assms in \<open>auto simp: SetCurrentRef_def SetCurrentGains_def SetOvercurrentLimit_def SetAdcTriggerOffset_def ForceDuty_def
  ReleaseForceDuty_def Tripped_def\<close>)

text \<open>
  C2. A trip latches: from a tripped state, whatever the control thread, the observer and the control cycle do in any order, the
  control stays tripped and every duty plan that reaches the hardware is neutral, until the trip is acknowledged.
\<close>
theorem trip_latched:
  assumes "isr_hardware (foc_isr s)" "Tripped (foc_isr s)" "Acknowledge \<notin> set ops" "foc_run ops s = Some (s', calls)"
  shows "Tripped (foc_isr s') \<and> list_all neutral_call calls"
proof -
  have "(isr_hardware (foc_isr s') \<and> Tripped (foc_isr s')) \<and> list_all neutral_call calls"
  proof (rule foc_run_induct [where P = "\<lambda>s. isr_hardware (foc_isr s) \<and> Tripped (foc_isr s)", OF _ _ assms(4)])
    fix x s s' calls
    assume x: "x \<in> set ops" "isr_hardware (foc_isr s) \<and> Tripped (foc_isr s)" "foc_op x s = Some (s', calls)"
    then have "x \<noteq> Acknowledge" using assms(3) by auto
    then show "(isr_hardware (foc_isr s') \<and> Tripped (foc_isr s')) \<and> list_all neutral_call calls" using x(2,3) by (rule tripped_op)
  qed (use assms in simp)
  then show ?thesis by simp
qed

section \<open>The invariant of the system\<close>

definition circle_ok :: "SinCos \<Rightarrow> bool" where
  "circle_ok sc \<longleftrightarrow> isfinite (sc_sin sc) \<and> isfinite (sc_cos sc)
     \<and> \<bar>val (sc_sin sc) * val (sc_sin sc) + val (sc_cos sc) * val (sc_cos sc) - 1\<bar> \<le> 1 / 10 ^ 5"

definition buffer_ok :: "SubStepBuffer \<Rightarrow> bool" where
  "buffer_ok b \<longleftrightarrow> length (sb_sc b) = kNumSubSteps \<and> length (sb_sc_out b) = kNumSubSteps
     \<and> list_all circle_ok (sb_sc b) \<and> list_all circle_ok (sb_sc_out b)"

definition buffers_ok :: "CurrentControlState \<Rightarrow> bool" where
  "buffers_ok s \<longleftrightarrow> length (db_buf (cst_double_buf s)) = 2 \<and> db_active (cst_double_buf s) \<in> {0, 1}
     \<and> list_all buffer_ok (db_buf (cst_double_buf s))
     \<and> (cst_observer_pending s \<longrightarrow> cst_observer_buffer s = db_active (cst_double_buf s))"

definition duty_ok :: "Svm \<Rightarrow> f32 \<Rightarrow> bool" where
  "duty_ok svm d \<longleftrightarrow> d = NaN \<or> svm_duty_min svm \<le> d \<and> d \<le> svm_duty_max svm"

definition phases_ok :: "Svm \<Rightarrow> ThreePhase \<Rightarrow> bool" where
  "phases_ok svm r \<longleftrightarrow> duty_ok svm (tp_a r) \<and> duty_ok svm (tp_b r) \<and> duty_ok svm (tp_c r)"

fun call_limited :: "Svm \<Rightarrow> HardwareCall \<Rightarrow> bool" where
  "call_limited svm (HotSetDutyPlan plan) \<longleftrightarrow> length plan = kNumSubSteps \<and> list_all (phases_ok svm) plan"
| "call_limited svm _ \<longleftrightarrow> True"

definition foc_inv :: "Svm \<Rightarrow> CurrentControlIsr \<Rightarrow> bool" where
  "foc_inv svm i \<longleftrightarrow> isr_svm i = svm \<and> svm_duty_min svm \<le> f32_of (1/2) \<and> f32_of (1/2) \<le> svm_duty_max svm
     \<and> (isr_force_duty_active i \<longrightarrow> phases_ok svm (hd (MailboxRead (isr_forced_duties i))))
     \<and> length (mb_slots (isr_forced_duties i)) = 2 \<and> mb_active (isr_forced_duties i) \<in> {0, 1}
     \<and> buffers_ok (isr_state i) \<and> estimate_ok (isr_mech_obs i)"

lemma clamped_duty_ok: "svm_duty_min svm \<le> svm_duty_max svm \<Longrightarrow> duty_ok svm (Clamp d (svm_duty_min svm) (svm_duty_max svm))"
  using Clamp_nan Clamp_range by (cases "d = NaN") (auto simp: duty_ok_def)

lemma modulated_ok:
  assumes "svm_duty_min svm \<le> svm_duty_max svm"
  shows "phases_ok svm (CalculateWithInverseDcLinkVoltage svm u k d)"
  using clamped_duty_ok [OF assms] by (simp add: CalculateWithInverseDcLinkVoltage_def Svm_Calculate_def Let_def phases_ok_def)

lemma neutral_ok: "svm_duty_min svm \<le> f32_of (1/2) \<Longrightarrow> f32_of (1/2) \<le> svm_duty_max svm \<Longrightarrow> phases_ok svm neutral_duties"
  by (simp add: phases_ok_def neutral_duties_def duty_ok_def)

lemma Calculate_angle_ok:
  assumes "Calculate_angle a = Some sc"
  shows "circle_ok sc"
proof -
  obtain raw where "Calculate raw = Some sc" using assms by (auto simp: Calculate_angle_def bind_eq_Some_conv)
  then show ?thesis using Calculate_circle [of raw] by (auto simp: circle_ok_def)
qed

lemma sin_cos_list_ok: "sin_cos_list as = Some scs \<Longrightarrow> length scs = length as \<and> list_all circle_ok scs"
  by (induction as arbitrary: scs) (auto simp: bind_eq_Some_conv Calculate_angle_ok)

lemma next_angles_ok: "next_angles m s b = Some b' \<Longrightarrow> buffer_ok b'"
  by (auto simp: next_angles_def Let_def bind_eq_Some_conv buffer_ok_def dest!: sin_cos_list_ok)

lemma sampled_buffer_frame [simp]:
  "sb_sc (sampled_buffer samples b) = sb_sc b" "sb_sc_out (sampled_buffer samples b) = sb_sc_out b"
  by (simp_all add: sampled_buffer_def Let_def)

lemma duty_plan_ok:
  assumes "svm_duty_min (isr_svm i) \<le> svm_duty_max (isr_svm i)" "length (sb_sc_out b) = kNumSubSteps"
  shows "length (duty_plan samples i u b) = kNumSubSteps \<and> list_all (phases_ok (isr_svm i)) (duty_plan samples i u b)"
  using assms(2) modulated_ok [OF assms(1)] by (auto simp: duty_plan_def plan_entry_def Let_def list_all_length)

lemma buffers_ok_update:
  assumes "buffers_ok s" "buffer_ok b" "cst_double_buf s' = \<lparr>db_buf = (db_buf (cst_double_buf s))[k := b], db_active = a\<rparr>"
    "a \<in> {0, 1}" "cst_observer_pending s' \<longrightarrow> cst_observer_buffer s' = a"
  shows "buffers_ok s'"
proof -
  have "set ((db_buf (cst_double_buf s))[k := b]) \<subseteq> insert b (set (db_buf (cst_double_buf s)))" by (rule set_update_subset_insert)
  then show ?thesis using assms by (auto simp: buffers_ok_def list_all_iff)
qed

lemma control_loop_ok:
  assumes "foc_inv svm i" "control_loop samples i = (j, calls)"
  shows "foc_inv svm j \<and> list_all (call_limited svm) calls"
proof -
  define db where "db = cst_double_buf (isr_state i)"
  define b where "b = sampled_buffer samples (db_buf db ! unat (db_active db))"
  obtain u cc where u: "ctl_Update (cst_i_ref (isr_state i)) (sb_i_dq_mean b) (mo_omega (isr_mech_obs i)) (cst_dt_slow (isr_state i))
    (cs_dc_link samples) (isr_cc i) = (u, cc)" by fastforce
  have inv: "buffers_ok (isr_state i)" "isr_svm i = svm" "svm_duty_min svm \<le> svm_duty_max svm"
    using assms(1) le_trans_f32 by (auto simp: foc_inv_def)
  then have "unat (db_active db) < length (db_buf db)" by (auto simp: buffers_ok_def db_def)
  then have b: "buffer_ok (b\<lparr>sb_u_dq := u\<rparr>)" using inv(1) by (simp add: buffers_ok_def list_all_length b_def db_def buffer_ok_def)
  have "cst_double_buf (isr_state j) = \<lparr>db_buf = (db_buf db)[unat (db_active db) := b\<lparr>sb_u_dq := u\<rparr>], db_active = db_active db\<rparr>"
    "cst_observer_buffer (isr_state j) = db_active db" "calls = [HotSetDutyPlan (duty_plan samples i u (b\<lparr>sb_u_dq := u\<rparr>))]"
    using assms(2) u unfolding control_loop_def b_def db_def
    by (auto simp: SetDutyPlan_def Let_def intro!: DoubleBuffer.equality)
  moreover have "buffers_ok (isr_state j)"
    by (rule buffers_ok_update [OF inv(1) b]) (use calculation inv(1) in \<open>auto simp: buffers_ok_def db_def\<close>)
  moreover have "list_all (call_limited svm) [HotSetDutyPlan (duty_plan samples i u (b\<lparr>sb_u_dq := u\<rparr>))]"
    using duty_plan_ok [of i "b\<lparr>sb_u_dq := u\<rparr>" samples u] b inv(2,3) by (simp add: buffer_ok_def)
  ultimately show ?thesis using assms(1) control_loop_frame [OF assms(2)] by (simp add: foc_inv_def)
qed

lemma checked_ok: "foc_inv svm i \<Longrightarrow> foc_inv svm (checked raw i)"
  by (simp add: foc_inv_def buffers_ok_def checked_frame)

lemma planned_ok: "foc_inv svm i \<Longrightarrow> foc_inv svm (planned d i)"
  by (simp add: foc_inv_def buffers_ok_def)

lemma uniform_ok: "phases_ok svm d \<Longrightarrow> call_limited svm (HotSetDutyPlan (replicate kNumSubSteps d))"
  by (simp add: list_all_length)

lemma cycle_ok:
  assumes "foc_inv svm i" "OnControlCycle raw i = (j, calls)"
  shows "foc_inv svm j \<and> list_all (call_limited svm) calls"
proof (cases "isr_hardware i")
  case True
  have t: "list_all (call_limited svm) (trip_calls raw i)" by (auto simp: list_all_iff dest: trip_calls_only)
  have n: "phases_ok svm neutral_duties" using assms(1) neutral_ok by (simp add: foc_inv_def)
  note c = checked_ok [OF assms(1), of raw]
  from True assms(2) show ?thesis
  proof (cases rule: cycle_cases)
    case tripped
    then show ?thesis using planned_ok [OF c] t uniform_ok [OF n] by (simp add: neutral_plan)
  next
    case forced
    then show ?thesis using planned_ok [OF c] uniform_ok assms(1) by (simp add: foc_inv_def)
  next
    case controlled
    then show ?thesis using control_loop_ok [OF c] by blast
  qed
qed (use assms in \<open>simp add: OnControlCycle_def\<close>)

lemma fuse_flux_ok: "estimate_ok m \<Longrightarrow> fuse_flux stage cycle dt u m = Some (u', m') \<Longrightarrow> estimate_ok m'"
  using UpdateAngle_ok by (auto simp: fuse_flux_def Let_def split: if_splits prod.splits option.splits)

lemma FuseHall_ok: "estimate_ok m \<Longrightarrow> FuseHall cycle u q m = Some (u', q', m') \<Longrightarrow> estimate_ok m'"
  using hf_Update_ok by (auto simp: FuseHall_def Let_def bind_eq_Some_conv split: if_splits prod.splits)

lemma run_hfi_ok: "estimate_ok m \<Longrightarrow> run_hfi cycle dt active h m = Some (h', m') \<Longrightarrow> estimate_ok m'"
  using hfi_updates_ok by (auto simp: run_hfi_def split: if_splits)

text \<open>The parts of a run that takes the finished cycle.\<close>

lemma RunOnce_True:
  assumes "RunOnce stage u q i = Some (r, u', q', j)" "su_bound u" "cst_observer_pending (isr_state i)"
  defines "s \<equiv> isr_state i"
  obtains m h b where "r" "estimate_ok (isr_mech_obs i) \<longrightarrow> estimate_ok m" "buffer_ok b"
    "j = i\<lparr>isr_state := s\<lparr>cst_double_buf := \<lparr>db_buf = (db_buf (cst_double_buf s))[unat (1 - cst_observer_buffer s) := b],
       db_active = 1 - cst_observer_buffer s\<rparr>, cst_observer_pending := False\<rparr>, isr_mech_obs := m, isr_hfi := h\<rparr>"
proof -
  let ?cycle = "db_buf (cst_double_buf s) ! unat (cst_observer_buffer s)"
  obtain u1 m1 u2 q2 m2 m3 h m4 b where run:
    "fuse_flux stage ?cycle (cst_dt_slow s) u (mo_PredictCovariance (cst_dt_slow s) (isr_mech_obs i)) = Some (u1, m1)"
    "FuseHall ?cycle u1 q m1 = Some (u2, q2, m2)" "mo_Predict (sb_i_dq_mean ?cycle) (cst_dt_slow s) m2 = Some m3"
    "run_hfi ?cycle (cst_dt_slow s) (isr_hfi_active i) (isr_hfi i) m3 = Some (h, m4)"
    "next_angles m4 s (db_buf (cst_double_buf s) ! unat (1 - cst_observer_buffer s)) = Some b"
    and j: "r" "j = i\<lparr>isr_state := s\<lparr>cst_double_buf := \<lparr>db_buf = (db_buf (cst_double_buf s))[unat (1 - cst_observer_buffer s) := b],
       db_active = 1 - cst_observer_buffer s\<rparr>, cst_observer_pending := False\<rparr>, isr_mech_obs := m4, isr_hfi := h\<rparr>"
    using assms(1-3) by (auto simp: RunOnce_def Let_def bind_eq_Some_conv s_def)
  have "estimate_ok (isr_mech_obs i) \<longrightarrow> estimate_ok m4"
    using fuse_flux_ok [OF PredictCovariance_ok run(1)] FuseHall_ok [OF _ run(2)] Predict_ok [OF _ run(3)] run_hfi_ok [OF _ run(4)] by blast
  then show thesis using next_angles_ok [OF run(5)] j that by blast
qed

lemma RunOnce_False:
  "RunOnce stage u q i = Some (r, u', q', j) \<Longrightarrow> \<not> su_bound u \<or> \<not> cst_observer_pending (isr_state i) \<Longrightarrow> \<not> r \<and> u' = u \<and> q' = q \<and> j = i"
  by (auto simp: RunOnce_def Let_def)

lemma other_half: "a \<in> {0, 1} \<Longrightarrow> 1 - a \<in> {0, 1 :: u8}" "a \<in> {0, 1} \<Longrightarrow> unat (1 - a) \<noteq> unat (a :: u8)"
  by auto

lemma RunOnce_ok:
  assumes "foc_inv svm i" "RunOnce stage u q i = Some (r, u', q', j)"
  shows "foc_inv svm j"
proof (cases "su_bound u \<and> cst_observer_pending (isr_state i)")
  case True
  have old: "buffers_ok (isr_state i)" using assms(1) by (simp add: foc_inv_def)
  from True obtain m h b where new: "estimate_ok m" "buffer_ok b"
    "j = i\<lparr>isr_state := isr_state i\<lparr>cst_double_buf := \<lparr>db_buf = (db_buf (cst_double_buf (isr_state i)))[unat (1 - cst_observer_buffer (isr_state i)) := b],
       db_active = 1 - cst_observer_buffer (isr_state i)\<rparr>, cst_observer_pending := False\<rparr>, isr_mech_obs := m, isr_hfi := h\<rparr>"
    using RunOnce_True [OF assms(2)] assms(1) unfolding foc_inv_def by metis
  have "cst_observer_buffer (isr_state i) \<in> {0, 1}" using old True by (auto simp: buffers_ok_def)
  from other_half(1) [OF this] have "buffers_ok (isr_state j)"
    by (rule buffers_ok_update [OF old new(2), rotated]) (simp_all add: new(3))
  then show ?thesis using assms(1) new by (simp add: foc_inv_def)
next
  case False
  then show ?thesis using RunOnce_False [OF assms(2)] assms(1) by auto
qed

lemma foc_inv_frame:
  assumes "foc_inv svm i" "isr_svm j = isr_svm i" "isr_force_duty_active j \<longrightarrow> isr_force_duty_active i"
    "isr_forced_duties j = isr_forced_duties i" "cst_double_buf (isr_state j) = cst_double_buf (isr_state i)"
    "cst_observer_pending (isr_state j) = cst_observer_pending (isr_state i)"
    "cst_observer_buffer (isr_state j) = cst_observer_buffer (isr_state i)" "isr_mech_obs j = isr_mech_obs i"
  shows "foc_inv svm j"
  using assms by (simp add: foc_inv_def buffers_ok_def)

lemma foc_op_ok:
  assumes "foc_inv svm (foc_isr s)" "foc_op x s = Some (s', calls)"
  shows "foc_inv svm (foc_isr s') \<and> list_all (call_limited svm) calls"
proof (cases x)
  case (Cycle raw)
  then show ?thesis using assms cycle_ok by (auto split: prod.splits)
next
  case (Observe stage)
  then show ?thesis using assms RunOnce_ok by auto
next
  case (Force da db dc)
  have "svm_duty_min svm \<le> svm_duty_max svm" using assms(1) le_trans_f32 by (auto simp: foc_inv_def)
  then show ?thesis using assms Force clamped_duty_ok
    by (auto simp: foc_inv_def ForceDuty_def clamp_duty_def phases_ok_def MailboxRead_def MailboxWrite_def Let_def)
qed (use assms in \<open>auto simp: SetCurrentRef_def SetCurrentGains_def SetOvercurrentLimit_def SetAdcTriggerOffset_def
  ReleaseForceDuty_def ClearTrips_def elim!: foc_inv_frame\<close>)

text \<open>
  C3. Whatever the order of control cycles, observer runs, Hall edges and commands, and whatever the samples and references, NaN
  included: every duty plan that reaches the hardware has four entries whose duties lie in the configured limits (or are NaN);
  the speed and angle estimate stays finite and in its range; the sine and cosine pairs of both buffer halves lie on the unit
  circle; and a pending cycle is the one in the active half.
\<close>
theorem foc_invariant:
  assumes "foc_inv svm (foc_isr s)" "foc_run ops s = Some (s', calls)"
  shows "foc_inv svm (foc_isr s') \<and> list_all (call_limited svm) calls"
proof (rule foc_run_induct [where P = "\<lambda>s. foc_inv svm (foc_isr s)", OF _ assms])
  fix x s s' calls
  assume "foc_inv svm (foc_isr s)" "foc_op x s = Some (s', calls)"
  then show "foc_inv svm (foc_isr s') \<and> list_all (call_limited svm) calls" by (rule foc_op_ok)
qed

text \<open>
  The observer hands over whole buffers: a run takes the finished cycle, leaves its half of the double buffer unchanged, puts the
  angles of the next cycle into the other half and makes that half the active one; the next control cycle neither counts an overrun
  nor writes the half the observer has read.
\<close>
theorem observer_hands_over:
  assumes "foc_inv svm i" "su_bound u" "cst_observer_pending (isr_state i)" "RunOnce stage u q i = Some (r, u', q', j)"
    and "control_loop samples j = (k, calls)"
  defines "finished \<equiv> cst_observer_buffer (isr_state i)"
  shows "r \<and> db_active (cst_double_buf (isr_state j)) = 1 - finished \<and> \<not> cst_observer_pending (isr_state j)
    \<and> db_buf (cst_double_buf (isr_state j)) ! unat finished = db_buf (cst_double_buf (isr_state i)) ! unat finished
    \<and> cst_observer_overruns (isr_state k) = cst_observer_overruns (isr_state i)
    \<and> db_buf (cst_double_buf (isr_state k)) ! unat finished = db_buf (cst_double_buf (isr_state i)) ! unat finished"
proof -
  have f: "finished \<in> {0, 1}" using assms(1,3) by (auto simp: foc_inv_def buffers_ok_def finished_def)
  then have n: "unat (1 - finished) \<noteq> unat finished" by (rule other_half(2))
  obtain m h b where j: "r" "j = i\<lparr>isr_state := isr_state i\<lparr>cst_double_buf := \<lparr>db_buf = (db_buf (cst_double_buf (isr_state i)))[unat (1 - finished) := b],
       db_active = 1 - finished\<rparr>, cst_observer_pending := False\<rparr>, isr_mech_obs := m, isr_hfi := h\<rparr>"
    using RunOnce_True [OF assms(4,2,3)] unfolding finished_def by metis
  have "cst_observer_overruns (isr_state k) = cst_observer_overruns (isr_state j)" "db_buf (cst_double_buf (isr_state k)) ! unat finished
      = db_buf (cst_double_buf (isr_state j)) ! unat finished"
    using assms(5) n j(2) by (auto simp: control_loop_def SetDutyPlan_def Let_def count_overrun_def split: prod.splits)
  then show ?thesis using j n by simp
qed

section \<open>Concrete runs\<close>

definition started_isr :: CurrentControlIsr where
  "started_isr = CurrentControlIsr_init\<lparr>isr_hardware := True\<rparr>"

definition started_foc :: Foc where
  "started_foc = \<lparr>foc_isr = started_isr, foc_slow = SlowUpdate_init\<lparr>su_bound := True\<rparr>, foc_hall = HallEventQueue_init kHallQueueBits\<rparr>"

definition cycle_samples :: "f32 \<Rightarrow> ControlCycleSamples" where
  "cycle_samples v = \<lparr>cs_phase_currents = replicate 4 zero_phases, cs_dc_link = v, cs_overcurrent = False, cs_timestamp = 0\<rparr>"

lemma started_inv: "foc_inv Svm_default started_isr"
proof -
  have "circle_ok SinCos_init" by code_simp
  then have "buffer_ok SubStepBuffer_init" by (simp add: SubStepBuffer_init_def buffer_ok_def list_all_length)
  then have "buffers_ok (isr_state started_isr)"
    by (simp add: started_isr_def CurrentControlIsr_init_def CurrentControlState_init_def buffers_ok_def DoubleBuffer_init_def list_all_length)
  moreover have "mo_omega_max MechanicalObserver_init * kSpeedGuard = Fin 0" "mo_omega_min MechanicalObserver_init * kSpeedGuard = Fin 0"
    by code_simp+
  then have "estimate_ok MechanicalObserver_init"
    by (simp add: estimate_ok_def speed_ok_def angle_ok_def speed_limits_ok_def le_finite MechanicalObserver_init_def f32_eval zero_f32_def)
  moreover have "svm_duty_min Svm_default \<le> f32_of (1/2)" "f32_of (1/2) \<le> svm_duty_max Svm_default"
    by code_simp+
  ultimately show ?thesis by (simp add: foc_inv_def started_isr_def CurrentControlIsr_init_def Mailbox_init_def)
qed

lemma foc_run_returns: "(\<forall>stage. Observe stage \<notin> set ops) \<Longrightarrow> \<exists>s' calls. foc_run ops s = Some (s', calls)"
proof (induction ops arbitrary: s)
  case (Cons x xs)
  then have "\<exists>r. foc_op x s = Some r" by (cases x) (auto simp: split_beta)
  then obtain s1 c1 where "foc_op x s = Some (s1, c1)" by auto
  moreover have "\<exists>s' calls. foc_run xs s1 = Some (s', calls)" using Cons by simp
  ultimately show ?case by auto
qed simp

theorem OnControlCycle_trips_witness:
  "Tripped (fst (OnControlCycle (cycle_samples NaN) started_isr))
    \<and> snd (OnControlCycle (cycle_samples NaN) started_isr) = [TripPowerStage, HotSetDutyPlan DutyPlan_init]"
proof -
  have v: "trip_voltage (cycle_samples NaN) started_isr" by (simp add: trip_voltage_def cycle_samples_def)
  have "trip_calls (cycle_samples NaN) started_isr = [TripPowerStage]" by code_simp
  then show ?thesis
    using v OnControlCycle_trips [of started_isr "cycle_samples NaN" "fst (OnControlCycle (cycle_samples NaN) started_isr)"
      "snd (OnControlCycle (cycle_samples NaN) started_isr)"] by (simp add: started_isr_def)
qed

definition tripped_foc :: Foc where
  "tripped_foc = started_foc\<lparr>foc_isr := started_isr\<lparr>isr_state := CurrentControlState_init\<lparr>cst_overcurrent_tripped := True\<rparr>\<rparr>\<rparr>"

theorem trip_latched_witness:
  "\<exists>s' calls. foc_run [Force 0 0 0, Cycle (cycle_samples 0), ReleaseForce] tripped_foc = Some (s', calls)
    \<and> Tripped (foc_isr s') \<and> list_all neutral_call calls"
proof -
  have t: "isr_hardware (foc_isr tripped_foc)" "Tripped (foc_isr tripped_foc)" by (simp_all add: tripped_foc_def started_isr_def Tripped_def)
  obtain s' calls where run: "foc_run [Force 0 0 0, Cycle (cycle_samples 0), ReleaseForce] tripped_foc = Some (s', calls)"
    using foc_run_returns [of "[Force 0 0 0, Cycle (cycle_samples 0), ReleaseForce]" tripped_foc] by auto
  then show ?thesis using trip_latched [OF t _ run] by auto
qed

theorem foc_invariant_witness:
  "\<exists>s' calls. foc_run [Force 1 1 NaN, Cycle (cycle_samples 0), ReleaseForce, Cycle (cycle_samples (f32_of 24))] started_foc = Some (s', calls)
    \<and> foc_inv Svm_default (foc_isr s') \<and> list_all (call_limited Svm_default) calls"
proof -
  obtain s' calls where run: "foc_run [Force 1 1 NaN, Cycle (cycle_samples 0), ReleaseForce, Cycle (cycle_samples (f32_of 24))] started_foc = Some (s', calls)"
    using foc_run_returns [of "[Force 1 1 NaN, Cycle (cycle_samples 0), ReleaseForce, Cycle (cycle_samples (f32_of 24))]" started_foc] by auto
  then show ?thesis using foc_invariant [OF _ run] started_inv by (simp add: started_foc_def)
qed

text \<open>The observer of a motor that stands still, without an angle source.\<close>

lemma zero_times: "isfinite x \<Longrightarrow> isfinite y \<Longrightarrow> val x = 0 \<Longrightarrow> isfinite (x * y) \<and> val (x * y) = 0"
  using mul_f32_finite [of x y] by simp

lemma next_angles_standing:
  assumes "estimate_ok m" "val (mo_omega m) = 0" "isfinite (cst_dt_fast s)" "isfinite (f32_of_int 3 + cst_output_delay_half_periods s)"
    "\<And>k. k < kNumSubSteps \<Longrightarrow> isfinite (f32_of_int 3 + cst_output_delay_half_periods s + f32_of_int (int k))"
  shows "next_angles m s b \<noteq> None"
proof -
  have ang: "\<exists>sc. Calculate_angle (mo_theta m + mo_omega m * cst_dt_fast s * x) = Some sc" if "isfinite x" for x
  proof -
    have t: "isfinite (mo_theta m)" "\<bar>val (mo_theta m)\<bar> \<le> pow2 2"
      using assms(1) by (auto simp: estimate_ok_def angle_ok_def le_finite pow2_nat)
    have "isfinite (mo_omega m)" using assms(1) by (simp add: estimate_ok_def speed_ok_def)
    then have z: "isfinite (mo_omega m * cst_dt_fast s * x)" "val (mo_omega m * cst_dt_fast s * x) = 0"
      using zero_times assms(2,3) that by blast+
    have "\<bar>rnd (val (mo_theta m))\<bar> \<le> pow2 2" using t(2) by (intro rnd_abs_less_pow2) auto
    moreover have "\<bar>val (mo_theta m) + val (mo_omega m * cst_dt_fast s * x)\<bar> \<le> pow2 127"
      using t(2) z(2) pow2_le_iff [of 2 127] by linarith
    moreover have "pow2 2 \<le> 2 ^ 30" by (simp add: pow2_nat)
    ultimately have "isfinite (mo_theta m + mo_omega m * cst_dt_fast s * x)" "\<bar>val (mo_theta m + mo_omega m * cst_dt_fast s * x)\<bar> \<le> 2 ^ 30"
      using add_f32_finite [OF t(1) z(1)] z(2) by simp_all
    then show ?thesis using Calculate_angle_circle by metis
  qed
  have list: "\<exists>scs. sin_cos_list as = Some scs" if "\<forall>a \<in> set as. \<exists>sc. Calculate_angle a = Some sc" for as
    using that by (induction as) auto
  have "list_all (\<lambda>k. isfinite (f32_of_int (int k))) [0..<kNumSubSteps]" by code_simp
  then have fin: "isfinite (f32_of_int (int k))" if "k < kNumSubSteps" for k
    using that by (simp add: list_all_iff)
  show ?thesis
    using list [of "map (\<lambda>k. mo_theta m + mo_omega m * cst_dt_fast s * f32_of_int (int k)) [0..<kNumSubSteps]"]
      list [of "map (\<lambda>k. mo_theta m + mo_omega m * cst_dt_fast s * (f32_of_int 3 + cst_output_delay_half_periods s + f32_of_int (int k))) [0..<kNumSubSteps]"]
      ang fin assms(5) by (auto simp: next_angles_def Let_def kNumSubSteps_def)
qed

definition waiting_isr :: CurrentControlIsr where
  "waiting_isr = started_isr\<lparr>isr_state := CurrentControlState_init\<lparr>cst_observer_pending := True\<rparr>\<rparr>"

lemma waiting_inv: "foc_inv Svm_default waiting_isr"
  using started_inv by (simp add: foc_inv_def buffers_ok_def waiting_isr_def started_isr_def CurrentControlIsr_init_def
      CurrentControlState_init_def DoubleBuffer_init_def)

lemma waiting_values:
  "isfinite (cst_dt_fast CurrentControlState_init)" "isfinite (cst_dt_slow CurrentControlState_init)"
  "mo_omega_max MechanicalObserver_init * kSpeedGuard = Fin 0" "mo_omega_min MechanicalObserver_init * kSpeedGuard = Fin 0"
  "isfinite (f32_of_int 3 + f32_of (3/2))"
  by code_simp+

lemma waiting_offsets: "k < kNumSubSteps \<Longrightarrow> isfinite (f32_of_int 3 + f32_of (3/2) + f32_of_int (int k))"
proof -
  have "list_all (\<lambda>k. isfinite (f32_of_int 3 + f32_of (3/2) + f32_of_int (int k))) [0..<kNumSubSteps]" by code_simp
  then show "k < kNumSubSteps \<Longrightarrow> isfinite (f32_of_int 3 + f32_of (3/2) + f32_of_int (int k))" by (simp add: list_all_iff)
qed

lemma waiting_runs: "\<exists>x. RunOnce kDisabled (foc_slow started_foc) (foc_hall started_foc) waiting_isr = Some x"
proof -
  define m where "m = mo_PredictCovariance (cst_dt_slow CurrentControlState_init) MechanicalObserver_init"
  have m: "estimate_ok m" unfolding m_def using started_inv by (intro PredictCovariance_ok) (simp add: foc_inv_def started_isr_def CurrentControlIsr_init_def)
  have lim: "mo_omega_max m = mo_omega_max MechanicalObserver_init" "mo_omega_min m = mo_omega_min MechanicalObserver_init"
    by (simp_all add: m_def mo_PredictCovariance_def Let_def)
  obtain n where n: "mo_Predict zero_rotor (cst_dt_slow CurrentControlState_init) m = Some n" "estimate_ok n"
    using Predict_returns [OF m, where W = 0 and dt = "cst_dt_slow CurrentControlState_init"] waiting_values lim by auto
  have "mo_omega_max n = mo_omega_max m" "mo_omega_min n = mo_omega_min m"
    using n(1) by (auto simp: mo_Predict_def Let_def ClampSpeed_def mo_UpdateSinCos_def bind_eq_Some_conv split: if_splits)
  then have "val (mo_omega n) = 0" using n(2) waiting_values(3,4) lim by (auto simp: estimate_ok_def speed_ok_def le_finite)
  then have ang: "\<exists>y. next_angles n (CurrentControlState_init\<lparr>cst_observer_pending := True\<rparr>) b = Some y" for b
    using next_angles_standing [OF n(2), of "CurrentControlState_init\<lparr>cst_observer_pending := True\<rparr>" b] waiting_values waiting_offsets
    by (simp add: CurrentControlState_init_def)
  have hall: "FuseHall c (foc_slow started_foc\<lparr>su_flux_obs := f\<rparr>) q m = Some (foc_slow started_foc\<lparr>su_flux_obs := f\<rparr>, snd (pop_events kMaxHallEvents q), m)" for c f q m
    by (simp add: FuseHall_def split_beta Let_def started_foc_def SlowUpdate_init_def HallFusion_init_def)
  have "isr_hfi_active started_isr = False" "su_bound (foc_slow started_foc)" "isr_mech_obs started_isr = MechanicalObserver_init"
    "sb_i_dq_mean (db_buf (cst_double_buf CurrentControlState_init) ! unat (cst_observer_buffer CurrentControlState_init)) = zero_rotor"
    by (simp_all add: started_isr_def started_foc_def CurrentControlIsr_init_def CurrentControlState_init_def DoubleBuffer_init_def SubStepBuffer_init_def)
  then show ?thesis using n(1) ang
    by (simp add: RunOnce_def Let_def m_def [symmetric] waiting_isr_def fuse_flux_def run_hfi_def hall) (metis bind.bind_lunit)
qed

theorem observer_hands_over_witness:
  "\<exists>r u q j. RunOnce kDisabled (foc_slow started_foc) (foc_hall started_foc) waiting_isr = Some (r, u, q, j)
    \<and> r \<and> db_active (cst_double_buf (isr_state j)) = 1"
proof -
  obtain r u q j where run: "RunOnce kDisabled (foc_slow started_foc) (foc_hall started_foc) waiting_isr = Some (r, u, q, j)"
    using waiting_runs by (auto simp: split_paired_Ex)
  obtain k calls where "control_loop (cycle_samples (f32_of 24)) j = (k, calls)" by fastforce
  from observer_hands_over [OF waiting_inv _ _ run this]
  have "r \<and> db_active (cst_double_buf (isr_state j)) = 1"
    by (simp add: started_foc_def waiting_isr_def CurrentControlState_init_def)
  then show ?thesis using run by blast
qed

end
