(* ===== verification/Motion_Control.thy ===== *)
theory Motion_Control
  imports Frames Nvm_Settings
begin

text \<open>
  The slow controllers of \<open>src/lib/motor_control/src\<close>: DC-link limit (\<open>dc_link_limit.hpp\<close>), speed loop
  (\<open>speed_controller.hpp\<close>), position loop with homing (\<open>position_controller.hpp\<close>), position tracker
  (\<open>position_tracker.hpp\<close>), field weakening (\<open>field_weakening.hpp\<close>) and the maximum-torque-per-ampere current
  (\<open>mtpa.hpp\<close>), all in binary32.
\<close>

section \<open>DC-link limit\<close>

record DcLinkLimit =
  dl_drive_current_max :: f32
  dl_charge_current_max :: f32
  dl_regen_derate_start :: f32
  dl_trip :: f32

record TorqueRange =
  tr_lower :: f32
  tr_upper :: f32

definition AllowedChargeCurrent :: "DcLinkLimit \<Rightarrow> f32 \<Rightarrow> f32" where
  "AllowedChargeCurrent l dc_link = (
     if \<not> (dc_link > dl_regen_derate_start l) then dl_charge_current_max l
     else if \<not> (dc_link < dl_trip l) then 0
     else dl_charge_current_max l * ((dl_trip l - dc_link) / (dl_trip l - dl_regen_derate_start l)))"

definition AllowedTorque :: "DcLinkLimit \<Rightarrow> f32 \<Rightarrow> f32 \<Rightarrow> TorqueRange" where
  "AllowedTorque l speed dc_link = (
     if \<not> (dc_link > 0) \<or> feq speed 0 \<or> \<not> isfinite speed then \<lparr>tr_lower = - PInf, tr_upper = PInf\<rparr>
     else (let
       motoring = (dc_link * dl_drive_current_max l) / speed;
       braking = - (dc_link * AllowedChargeCurrent l dc_link) / speed
     in if speed > 0 then \<lparr>tr_lower = braking, tr_upper = motoring\<rparr> else \<lparr>tr_lower = motoring, tr_upper = braking\<rparr>))"

definition dc_Limit :: "DcLinkLimit \<Rightarrow> Rotor \<Rightarrow> f32 \<Rightarrow> f32 \<Rightarrow> f32 \<Rightarrow> Rotor" where
  "dc_Limit l current torque_constant speed dc_link = (
     if \<not> (dc_link > 0) then current
     else (let
       power = (torque_constant * ro_q current) * speed;
       motoring_max = dc_link * dl_drive_current_max l;
       braking_max = - (dc_link * AllowedChargeCurrent l dc_link)
     in if power > motoring_max then \<lparr>ro_d = ro_d current, ro_q = ro_q current * (motoring_max / power)\<rparr>
        else if power < braking_max then \<lparr>ro_d = ro_d current, ro_q = ro_q current * (braking_max / power)\<rparr>
        else current))"

section \<open>Speed loop\<close>

record SpeedController =
  sp_kp :: f32
  sp_ki :: f32
  sp_accel_limit :: f32
  sp_torque_limit :: f32
  sp_torque_min :: f32
  sp_torque_max :: f32
  sp_reference :: f32
  sp_integral :: f32
  sp_output :: f32

definition SpeedController_init :: SpeedController where
  "SpeedController_init = \<lparr>sp_kp = 0, sp_ki = 0, sp_accel_limit = 0, sp_torque_limit = 0, sp_torque_min = - PInf, sp_torque_max = PInf,
     sp_reference = 0, sp_integral = 0, sp_output = 0\<rparr>"

definition sp_Reset :: "f32 \<Rightarrow> SpeedController \<Rightarrow> SpeedController" where
  "sp_Reset start c = c\<lparr>sp_reference := start, sp_integral := 0, sp_output := 0\<rparr>"

definition sp_Init :: "NvmSettings \<Rightarrow> SpeedController \<Rightarrow> SpeedController" where
  "sp_Init settings c = sp_Reset 0 (c\<lparr>sp_kp := nvm_speed_kp settings, sp_ki := nvm_speed_ki settings,
     sp_accel_limit := nvm_speed_accel_limit settings\<rparr>)"

text \<open>The torque bounds of a step.\<close>

definition step_limit :: "SpeedController \<Rightarrow> f32" where
  "step_limit c = (if sp_torque_limit c > 0 then sp_torque_limit c else 0)"

definition step_lower :: "SpeedController \<Rightarrow> f32" where
  "step_lower c = Max (- step_limit c) (sp_torque_min c)"

definition step_upper :: "SpeedController \<Rightarrow> f32" where
  "step_upper c = Min (step_limit c) (sp_torque_max c)"

definition Track :: "f32 \<Rightarrow> f32 \<Rightarrow> f32 \<Rightarrow> SpeedController \<Rightarrow> f32 \<times> SpeedController" where
  "Track speed_reference measured dt c = (
     if \<not> isfinite speed_reference \<or> \<not> isfinite measured then (let c = sp_Reset (sp_reference c) c in (sp_output c, c))
     else (let
       c = c\<lparr>sp_reference := speed_reference\<rparr>;
       lower = step_lower c;
       upper = step_upper c;
       error = sp_reference c - measured;
       proportional = sp_kp c * error;
       integral = sp_integral c + (proportional * (sp_ki c * dt));
       unlimited = proportional + integral;
       winds_up = (unlimited > upper \<and> error > 0 \<or> unlimited < lower \<and> error < 0);
       c = (if \<not> winds_up then c\<lparr>sp_integral := Clamp integral lower upper\<rparr> else c);
       c = c\<lparr>sp_output := Clamp (proportional + sp_integral c) lower upper\<rparr>
     in (sp_output c, c)))"

definition sp_Update :: "f32 \<Rightarrow> f32 \<Rightarrow> f32 \<Rightarrow> SpeedController \<Rightarrow> f32 \<times> SpeedController" where
  "sp_Update setpoint measured dt c = (
     if \<not> isfinite setpoint then Track setpoint measured dt c
     else if sp_accel_limit c > 0 then (let step = sp_accel_limit c * dt in
       Track (Clamp setpoint (sp_reference c - step) (sp_reference c + step)) measured dt c)
     else Track setpoint measured dt c)"

section \<open>Position loop\<close>

datatype HomingState = HmIdle | HmSearching | HmZeroing | HmDone | HmFault

text \<open>The callback and its context are set or null; its call is the second result of an update.\<close>

record PositionController =
  pc_kp_pos :: f32
  pc_kp_speed :: f32
  pc_ki_speed :: f32
  pc_speed_limit :: f32
  pc_accel_limit :: f32
  pc_position_tolerance :: f32
  pc_speed_tolerance :: f32
  pc_trapezoid_jump_threshold :: f32
  pc_homing_speed :: f32
  pc_homing_block_current_threshold :: f32
  pc_pos_ref_rad :: f32
  pc_pos_ref_limited :: f32
  pc_omega_demand_prev :: f32
  pc_speed_integrator :: f32
  pc_homing_state :: HomingState
  pc_home_callback :: bool
  pc_home_callback_context :: bool
  pc_omega_ref :: f32
  pc_in_position :: bool

definition PositionController_init :: PositionController where
  "PositionController_init = \<lparr>pc_kp_pos = f32_of 10, pc_kp_speed = f32_of 5, pc_ki_speed = f32_of 20, pc_speed_limit = f32_of 100,
     pc_accel_limit = f32_of 500, pc_position_tolerance = f32_of (1/100), pc_speed_tolerance = f32_of 1,
     pc_trapezoid_jump_threshold = f32_of (1/2), pc_homing_speed = f32_of 5, pc_homing_block_current_threshold = 0, pc_pos_ref_rad = 0,
     pc_pos_ref_limited = 0, pc_omega_demand_prev = 0, pc_speed_integrator = 0, pc_homing_state = HmIdle, pc_home_callback = False,
     pc_home_callback_context = False, pc_omega_ref = 0, pc_in_position = False\<rparr>"

definition SpeedDemand :: "f32 \<Rightarrow> f32 \<Rightarrow> f32 \<Rightarrow> PositionController \<Rightarrow> f32 \<times> PositionController" where
  "SpeedDemand pos_meas_rad omega_meas delta_time c = (let
     max_pos_step = pc_speed_limit c * delta_time;
     setpoint_jump_mag = Abs (pc_pos_ref_rad c - pos_meas_rad);
     c = (if setpoint_jump_mag > pc_trapezoid_jump_threshold c
       then c\<lparr>pc_pos_ref_limited := pc_pos_ref_limited c + Clamp (pc_pos_ref_rad c - pc_pos_ref_limited c) (- max_pos_step) max_pos_step\<rparr>
       else c\<lparr>pc_pos_ref_limited := pc_pos_ref_rad c\<rparr>);
     omega_demand = Clamp (pc_kp_pos c * (pc_pos_ref_limited c - pos_meas_rad)) (- pc_speed_limit c) (pc_speed_limit c);
     max_delta_omega = pc_accel_limit c * delta_time;
     omega_demand = Clamp omega_demand (pc_omega_demand_prev c - max_delta_omega) (pc_omega_demand_prev c + max_delta_omega)
   in (omega_demand, c\<lparr>pc_omega_demand_prev := omega_demand,
     pc_in_position := (Abs (pc_pos_ref_rad c - pos_meas_rad) \<le> pc_position_tolerance c \<and> Abs omega_meas \<le> pc_speed_tolerance c)\<rparr>))"

definition pc_zero :: "PositionController \<Rightarrow> PositionController" where
  "pc_zero c = c\<lparr>pc_homing_state := HmDone, pc_pos_ref_rad := 0, pc_pos_ref_limited := 0, pc_omega_demand_prev := 0,
     pc_speed_integrator := 0, pc_omega_ref := 0, pc_in_position := False\<rparr>"

definition pc_speed_loop :: "f32 \<Rightarrow> f32 \<Rightarrow> f32 \<Rightarrow> PositionController \<Rightarrow> PositionController" where
  "pc_speed_loop pos_meas_rad omega_meas delta_time c = (let
     (omega_demand, c) = SpeedDemand pos_meas_rad omega_meas delta_time c;
     speed_error = omega_demand - omega_meas;
     c = c\<lparr>pc_speed_integrator := Clamp (pc_speed_integrator c + (pc_ki_speed c * speed_error * delta_time)) (- pc_speed_limit c) (pc_speed_limit c)\<rparr>
   in c\<lparr>pc_omega_ref := Clamp ((pc_kp_speed c * speed_error) + pc_speed_integrator c) (- pc_speed_limit c) (pc_speed_limit c)\<rparr>)"

definition blocked :: "f32 \<Rightarrow> PositionController \<Rightarrow> bool" where
  "blocked feedback c \<longleftrightarrow> pc_homing_block_current_threshold c > 0 \<and> Abs feedback \<ge> pc_homing_block_current_threshold c"

definition pc_Update :: "f32 \<Rightarrow> f32 \<Rightarrow> f32 \<Rightarrow> f32 \<Rightarrow> PositionController \<Rightarrow> PositionController \<times> bool" where
  "pc_Update pos_meas_rad omega_meas delta_time homing_current_feedback c = (
     if pc_homing_state c = HmSearching \<and> \<not> blocked homing_current_feedback c
     then (c\<lparr>pc_omega_ref := pc_homing_speed c, pc_in_position := False\<rparr>, False)
     else if pc_homing_state c \<in> {HmSearching, HmZeroing}
     then (pc_zero c, pc_home_callback c \<and> pc_home_callback_context c)
     else (pc_speed_loop pos_meas_rad omega_meas delta_time c, False))"

definition pc_StartHoming :: "PositionController \<Rightarrow> PositionController" where
  "pc_StartHoming c = c\<lparr>pc_homing_state := HmSearching, pc_speed_integrator := 0, pc_omega_ref := 0, pc_in_position := False\<rparr>"

definition TriggerZeroing :: "PositionController \<Rightarrow> PositionController" where
  "TriggerZeroing c = (if pc_homing_state c = HmSearching then c\<lparr>pc_homing_state := HmZeroing\<rparr> else c)"

definition SetHomeCallback :: "bool \<Rightarrow> bool \<Rightarrow> PositionController \<Rightarrow> PositionController" where
  "SetHomeCallback callback context_set c = c\<lparr>pc_home_callback := callback, pc_home_callback_context := context_set\<rparr>"

definition pc_Fault :: "PositionController \<Rightarrow> PositionController" where
  "pc_Fault c = c\<lparr>pc_homing_state := HmFault, pc_omega_ref := 0\<rparr>"

definition pc_Reset :: "PositionController \<Rightarrow> PositionController" where
  "pc_Reset c = c\<lparr>pc_pos_ref_limited := pc_pos_ref_rad c, pc_omega_demand_prev := 0, pc_speed_integrator := 0,
     pc_homing_state := HmIdle, pc_omega_ref := 0, pc_in_position := False\<rparr>"

section \<open>Position tracker\<close>

record PositionTracker =
  pt_position_rad :: f32
  pt_position_rev :: f32
  pt_is_homed :: bool
  pt_raw_position_rad :: f32
  pt_home_offset_rad :: f32

definition PositionTracker_init :: PositionTracker where
  "PositionTracker_init = \<lparr>pt_position_rad = 0, pt_position_rev = 0, pt_is_homed = False, pt_raw_position_rad = 0, pt_home_offset_rad = 0\<rparr>"

definition UpdatePosition :: "PositionTracker \<Rightarrow> PositionTracker" where
  "UpdatePosition t = (let rad = pt_raw_position_rad t - pt_home_offset_rad t in t\<lparr>pt_position_rad := rad, pt_position_rev := rad / (f32_of 2 * kPi)\<rparr>)"

definition pt_Update :: "RotorAngle \<Rightarrow> u8 \<Rightarrow> PositionTracker \<Rightarrow> PositionTracker" where
  "pt_Update electrical_angle pole_pairs t = (if pole_pairs = 0 then t
     else UpdatePosition (t\<lparr>pt_raw_position_rad := AbsoluteAngle electrical_angle / f32_of_int (uint pole_pairs)\<rparr>))"

definition SetHome :: "PositionTracker \<Rightarrow> PositionTracker" where
  "SetHome t = UpdatePosition (t\<lparr>pt_home_offset_rad := pt_raw_position_rad t, pt_is_homed := True\<rparr>)"

definition pt_Reset :: "PositionTracker \<Rightarrow> PositionTracker" where
  "pt_Reset t = t\<lparr>pt_raw_position_rad := 0, pt_home_offset_rad := 0, pt_position_rad := 0, pt_position_rev := 0, pt_is_homed := False\<rparr>"

section \<open>Field weakening and MTPA\<close>

record FieldWeakening =
  fw_v_max :: f32
  fw_ki :: f32
  fw_i_d_min :: f32
  fw_i_d_fw :: f32

definition fw_Update :: "Stator \<Rightarrow> f32 \<Rightarrow> FieldWeakening \<Rightarrow> f32 \<times> FieldWeakening" where
  "fw_Update v_s dt f = (let
     error = fw_v_max f - Hypot (st_alpha v_s) (st_beta v_s);
     i_d = Clamp (fw_i_d_fw f + fw_ki f * error * dt) (fw_i_d_min f) 0
   in (i_d, f\<lparr>fw_i_d_fw := i_d\<rparr>))"

definition fw_Reset :: "FieldWeakening \<Rightarrow> FieldWeakening" where
  "fw_Reset f = f\<lparr>fw_i_d_fw := 0\<rparr>"

record Mtpa =
  mt_flux_pm :: f32
  mt_L_d :: f32
  mt_L_q :: f32

definition mt_Calculate :: "f32 \<Rightarrow> Mtpa \<Rightarrow> f32" where
  "mt_Calculate i_s c = (let delta_l = mt_L_d c - mt_L_q c in
     if Abs delta_l < f32_of (1 / 10 ^ 9) then 0
     else (let xi = mt_flux_pm c / (f32_of 2 * delta_l) in Clamp (xi - Hypot xi (i_s * f32_of (1/2))) (- i_s) 0))"

end
