(* ===== verification/Outer_Loop.thy ===== *)
theory Outer_Loop
  imports Motion_Control Current_Control Cart_Control
begin

text \<open>
  The control thread's loop (\<open>src/src/current_control/outer_loop.hpp\<close>, \<open>.cpp\<close>): torque, speed and position mode, homing, the
  battery window, and the current reference it hands to the control cycle. Its mailboxes and sequence locks hold whole values in one cell.
  A step is \<open>None\<close> where an angle wrap does not return or the revolution counter overflows.
\<close>

section \<open>Data\<close>

record OuterSetpoint =
  os_active :: bool
  os_mode :: u8
  os_current :: Rotor
  os_speed :: f32
  os_position :: f32

definition OuterSetpoint_init :: OuterSetpoint where
  "OuterSetpoint_init = \<lparr>os_active = False, os_mode = kTorque, os_current = zero_rotor, os_speed = 0, os_position = 0\<rparr>"

record OuterStatus =
  ot_steps :: u32
  ot_active :: bool
  ot_mode :: u8
  ot_speed :: f32
  ot_position :: f32
  ot_speed_reference :: f32
  ot_torque_reference :: f32
  ot_current_reference :: Rotor
  ot_in_position :: bool
  ot_torque_min :: f32
  ot_torque_max :: f32
  ot_regen_derated :: bool
  ot_homing :: HomingState

definition OuterStatus_init :: OuterStatus where
  "OuterStatus_init = \<lparr>ot_steps = 0, ot_active = False, ot_mode = kTorque, ot_speed = 0, ot_position = 0, ot_speed_reference = 0,
     ot_torque_reference = 0, ot_current_reference = zero_rotor, ot_in_position = False, ot_torque_min = 0, ot_torque_max = 0,
     ot_regen_derated = False, ot_homing = HmIdle\<rparr>"

record Gains =
  gn_speed_kp :: f32
  gn_speed_ki :: f32
  gn_speed_accel_limit :: f32
  gn_position_kp :: f32
  gn_position_speed_limit :: f32
  gn_position_accel_limit :: f32
  gn_position_tolerance :: f32
  gn_position_speed_tolerance :: f32

record Parameters =
  pm_generation :: u32
  pm_pole_pairs :: u8
  pm_dt :: f32
  pm_current_limit :: f32
  pm_torque_constant :: f32
  pm_dc_link :: DcLinkLimit
  pm_speed_min :: f32
  pm_speed_max :: f32
  pm_homing_speed :: f32
  pm_homing_current :: f32
  pm_gains :: Gains

record ObserverState =
  ob_cycles :: u32
  ob_electrical_angle :: f32
  ob_electrical_speed :: f32

record OuterLoop =
  ol_bound :: bool
  ol_setpoint :: "OuterSetpoint Mailbox"
  ol_battery :: "BatteryLimits Mailbox"
  ol_parameters :: "Parameters Mailbox"
  ol_gains :: "Gains Mailbox"
  ol_gains_generation :: u32
  ol_homing_requests :: u32
  ol_observer :: "ObserverState SeqLock"
  ol_status :: "OuterStatus SeqLock"
  ol_observer_cycles :: u32
  ol_generation :: u32
  ol_active :: Parameters
  ol_applied_gains_generation :: u32
  ol_applied_homing_requests :: u32
  ol_homing :: HomingState
  ol_blocked_steps :: u32
  ol_hold_home :: bool
  ol_held_setpoint :: f32
  ol_speed :: SpeedController
  ol_position :: PositionController
  ol_tracker :: PositionTracker
  ol_electrical_position :: RotorAngle
  ol_last_angle :: f32
  ol_tracking :: bool
  ol_mode :: u8
  ol_was_active :: bool
  ol_steps :: u32

definition kCyclesPerStep :: nat where "kCyclesPerStep = 8"

definition kHomingBlockTime :: f32 where "kHomingBlockTime = f32_of (1/10)"

definition Gains_init :: Gains where
  "Gains_init = \<lparr>gn_speed_kp = 0, gn_speed_ki = 0, gn_speed_accel_limit = 0, gn_position_kp = 0, gn_position_speed_limit = 0,
     gn_position_accel_limit = 0, gn_position_tolerance = 0, gn_position_speed_tolerance = 0\<rparr>"

definition Parameters_init :: Parameters where
  "Parameters_init = \<lparr>pm_generation = 0, pm_pole_pairs = 1, pm_dt = 0, pm_current_limit = 0, pm_torque_constant = 0,
     pm_dc_link = \<lparr>dl_drive_current_max = 0, dl_charge_current_max = 0, dl_regen_derate_start = 0, dl_trip = 0\<rparr>, pm_speed_min = 0,
     pm_speed_max = 0, pm_homing_speed = 0, pm_homing_current = 0, pm_gains = Gains_init\<rparr>"

definition OuterLoop_init :: OuterLoop where
  "OuterLoop_init = \<lparr>ol_bound = False, ol_setpoint = Mailbox_init [OuterSetpoint_init], ol_battery = Mailbox_init [BatteryLimits_init],
     ol_parameters = Mailbox_init [Parameters_init], ol_gains = Mailbox_init [Gains_init], ol_gains_generation = 0, ol_homing_requests = 0,
     ol_observer = SeqLock_init [\<lparr>ob_cycles = 0, ob_electrical_angle = 0, ob_electrical_speed = 0\<rparr>], ol_status = SeqLock_init [OuterStatus_init],
     ol_observer_cycles = 0, ol_generation = 0, ol_active = Parameters_init, ol_applied_gains_generation = 0, ol_applied_homing_requests = 0,
     ol_homing = HmIdle, ol_blocked_steps = 0, ol_hold_home = False, ol_held_setpoint = 0, ol_speed = SpeedController_init,
     ol_position = PositionController_init, ol_tracker = PositionTracker_init, ol_electrical_position = RotorAngle_init, ol_last_angle = 0,
     ol_tracking = False, ol_mode = kTorque, ol_was_active = False, ol_steps = 0\<rparr>"

section \<open>Hand-over\<close>

definition GainsFrom :: "NvmSettings \<Rightarrow> Gains" where
  "GainsFrom settings = \<lparr>gn_speed_kp = nvm_speed_kp settings, gn_speed_ki = nvm_speed_ki settings,
     gn_speed_accel_limit = nvm_speed_accel_limit settings, gn_position_kp = nvm_pos_kp_pos settings,
     gn_position_speed_limit = nvm_pos_speed_limit settings, gn_position_accel_limit = nvm_pos_accel_limit settings,
     gn_position_tolerance = nvm_pos_position_tolerance settings, gn_position_speed_tolerance = nvm_pos_speed_tolerance settings\<rparr>"

definition SetGains :: "Gains \<Rightarrow> OuterLoop \<Rightarrow> OuterLoop" where
  "SetGains gains o1 = o1\<lparr>ol_gains := MailboxWrite [gains] (ol_gains o1), ol_gains_generation := ol_gains_generation o1 + 1\<rparr>"

definition SetSetpoint :: "OuterSetpoint \<Rightarrow> OuterLoop \<Rightarrow> OuterLoop" where
  "SetSetpoint setpoint o1 = o1\<lparr>ol_setpoint := MailboxWrite [setpoint] (ol_setpoint o1)\<rparr>"

definition SetBatteryLimits :: "BatteryLimits \<Rightarrow> OuterLoop \<Rightarrow> OuterLoop" where
  "SetBatteryLimits limits o1 = o1\<lparr>ol_battery := MailboxWrite [limits] (ol_battery o1)\<rparr>"

definition ol_StartHoming :: "OuterLoop \<Rightarrow> OuterLoop" where
  "ol_StartHoming o1 = o1\<lparr>ol_homing_requests := ol_homing_requests o1 + 1\<rparr>"

definition Status :: "OuterLoop \<Rightarrow> OuterStatus option" where
  "Status o1 = map_option hd (SeqLockTry (ol_status o1))"

definition parameters_of :: "NvmSettings \<Rightarrow> u32 \<Rightarrow> Parameters" where
  "parameters_of settings generation = (let pole_pairs = f32_of_int (uint (nvm_pole_pairs settings)) in
     \<lparr>pm_generation = generation, pm_pole_pairs = nvm_pole_pairs settings,
       pm_dt = DtSlowFromPwmFrequency (nvm_pwm_frequency settings) * f32_of_int (int kCyclesPerStep),
       pm_current_limit = nvm_motor_i_max settings, pm_torque_constant = nvm_flux_pm settings * (f32_of (3/2) * pole_pairs),
       pm_dc_link = \<lparr>dl_drive_current_max = nvm_battery_drive_current_max settings, dl_charge_current_max = nvm_battery_charge_current_max settings,
         dl_regen_derate_start = nvm_dc_link_regen_derate_start settings, dl_trip = nvm_dc_link_trip settings\<rparr>,
       pm_speed_min = nvm_motor_omega_min settings / pole_pairs, pm_speed_max = nvm_motor_omega_max settings / pole_pairs,
       pm_homing_speed = nvm_pos_homing_speed settings, pm_homing_current = nvm_pos_homing_current settings, pm_gains = GainsFrom settings\<rparr>)"

definition ol_Init :: "NvmSettings \<Rightarrow> OuterLoop \<Rightarrow> OuterLoop" where
  "ol_Init settings o1 = (let
     generation = ol_generation o1 + 1;
     parameters = parameters_of settings generation
   in SetGains (pm_gains parameters) (o1\<lparr>ol_bound := True, ol_generation := generation,
     ol_parameters := MailboxWrite [parameters] (ol_parameters o1)\<rparr>))"

definition OnObserverCycle :: "CurrentControlIsr \<Rightarrow> OuterLoop \<Rightarrow> bool \<times> OuterLoop" where
  "OnObserverCycle isr o1 = (if \<not> ol_bound o1 then (False, o1) else (let
     m = isr_mech_obs isr;
     state = \<lparr>ob_cycles = cst_control_cycles (isr_state isr), ob_electrical_angle = mo_theta m, ob_electrical_speed = mo_omega m\<rparr>;
     o1 = o1\<lparr>ol_observer := SeqLockWrite [state] (ol_observer o1), ol_observer_cycles := ol_observer_cycles o1 + 1\<rparr>
   in if unat (ol_observer_cycles o1) < kCyclesPerStep then (False, o1) else (True, o1\<lparr>ol_observer_cycles := 0\<rparr>)))"

section \<open>Helpers of the step\<close>

definition ApplyGains :: "Gains \<Rightarrow> OuterLoop \<Rightarrow> OuterLoop" where
  "ApplyGains gains o1 = o1\<lparr>ol_active := (ol_active o1)\<lparr>pm_gains := gains\<rparr>,
     ol_speed := (ol_speed o1)\<lparr>sp_kp := gn_speed_kp gains, sp_ki := gn_speed_ki gains, sp_accel_limit := gn_speed_accel_limit gains\<rparr>,
     ol_position := (ol_position o1)\<lparr>pc_kp_pos := gn_position_kp gains, pc_speed_limit := gn_position_speed_limit gains,
       pc_accel_limit := gn_position_accel_limit gains, pc_position_tolerance := gn_position_tolerance gains,
       pc_speed_tolerance := gn_position_speed_tolerance gains\<rparr>\<rparr>"

definition LoadParameters :: "Parameters \<Rightarrow> OuterLoop \<Rightarrow> OuterLoop" where
  "LoadParameters parameters o1 = (let o1 = ApplyGains (pm_gains parameters) (o1\<lparr>ol_active := parameters\<rparr>) in
     o1\<lparr>ol_speed := (ol_speed o1)\<lparr>sp_torque_limit := pm_torque_constant parameters * pm_current_limit parameters\<rparr>,
       ol_tracking := False, ol_was_active := False, ol_homing := HmIdle, ol_hold_home := False\<rparr>)"

definition Restart :: "f32 \<Rightarrow> OuterLoop \<Rightarrow> OuterLoop" where
  "Restart speed o1 = o1\<lparr>ol_speed := sp_Reset speed (ol_speed o1),
     ol_position := pc_Reset ((ol_position o1)\<lparr>pc_pos_ref_rad := pt_position_rad (ol_tracker o1)\<rparr>)\<rparr>"

definition TakeHomingRequest :: "OuterSetpoint \<Rightarrow> f32 \<Rightarrow> OuterLoop \<Rightarrow> OuterLoop" where
  "TakeHomingRequest setpoint speed o1 = (
     if \<not> os_active setpoint \<or> os_mode setpoint \<noteq> kPosition then o1\<lparr>ol_homing := HmFault\<rparr>
     else o1\<lparr>ol_homing := HmSearching, ol_blocked_steps := 0, ol_hold_home := False, ol_speed := sp_Reset speed (ol_speed o1)\<rparr>)"

definition UpdateHoming :: "OuterSetpoint \<Rightarrow> f32 \<Rightarrow> OuterLoop \<Rightarrow> OuterLoop" where
  "UpdateHoming setpoint speed o1 = (let
     requests = ol_homing_requests o1;
     o1 = (if requests \<noteq> ol_applied_homing_requests o1
       then TakeHomingRequest setpoint speed (o1\<lparr>ol_applied_homing_requests := requests\<rparr>) else o1);
     position_mode = (os_active setpoint \<and> os_mode setpoint = kPosition);
     o1 = (if ol_homing o1 = HmSearching \<and> \<not> position_mode then o1\<lparr>ol_homing := HmFault\<rparr> else o1)
   in if \<not> os_active setpoint then o1\<lparr>ol_hold_home := False\<rparr> else o1)"

text \<open>Pushing against the stop: at the torque bound in the direction of the run, and slow.\<close>

definition stalled :: "f32 \<Rightarrow> f32 \<Rightarrow> OuterLoop \<Rightarrow> bool" where
  "stalled torque speed o1 = (let
     forward = (pm_homing_speed (ol_active o1) > 0);
     bound = (if forward then Min (sp_torque_limit (ol_speed o1)) (sp_torque_max (ol_speed o1))
       else - Max (- sp_torque_limit (ol_speed o1)) (sp_torque_min (ol_speed o1)));
     push = (if forward then torque else - torque)
   in bound > 0 \<and> push \<ge> f32_of (99/100) * bound \<and> Abs speed < f32_of (1/2) * Abs (pm_homing_speed (ol_active o1)))"

definition SearchHome :: "f32 \<Rightarrow> TorqueRange \<Rightarrow> f32 \<Rightarrow> OuterLoop \<Rightarrow> f32 \<times> OuterLoop" where
  "SearchHome speed window setpoint o1 = (let
     homing_torque = pm_torque_constant (ol_active o1) * pm_homing_current (ol_active o1);
     c = (ol_speed o1)\<lparr>sp_torque_min := Max (tr_lower window) (- homing_torque), sp_torque_max := Min (tr_upper window) homing_torque\<rparr>;
     (torque, c) = sp_Update (pm_homing_speed (ol_active o1)) speed (pm_dt (ol_active o1)) c;
     o1 = o1\<lparr>ol_speed := c\<rparr>;
     o1 = o1\<lparr>ol_blocked_steps := (if stalled torque speed o1 then ol_blocked_steps o1 + 1 else 0)\<rparr>
   in if f32_of_int (uint (ol_blocked_steps o1)) * pm_dt (ol_active o1) < kHomingBlockTime then (torque, o1)
      else (let o1 = Restart speed (o1\<lparr>ol_tracker := SetHome (ol_tracker o1), ol_homing := HmDone, ol_hold_home := True,
          ol_held_setpoint := setpoint\<rparr>) in (sp_output (ol_speed o1), o1)))"

definition PositionTorque :: "f32 \<Rightarrow> f32 \<Rightarrow> TorqueRange \<Rightarrow> OuterLoop \<Rightarrow> f32 \<times> OuterLoop" where
  "PositionTorque setpoint measured window o1 = (if ol_homing o1 = HmSearching then SearchHome measured window setpoint o1 else (let
     o1 = (if ol_hold_home o1 \<and> \<not> feq setpoint (ol_held_setpoint o1) then o1\<lparr>ol_hold_home := False\<rparr> else o1);
     c = (ol_position o1)\<lparr>pc_pos_ref_rad := (if ol_hold_home o1 then 0 else setpoint)\<rparr>;
     (demand, c) = SpeedDemand (pt_position_rad (ol_tracker o1)) measured (pm_dt (ol_active o1)) c;
     (torque, s) = Track (Clamp demand (pm_speed_min (ol_active o1)) (pm_speed_max (ol_active o1))) measured (pm_dt (ol_active o1)) (ol_speed o1)
   in (torque, o1\<lparr>ol_position := c, ol_speed := s\<rparr>)))"

definition TorqueToCurrent :: "Parameters \<Rightarrow> f32 \<Rightarrow> Rotor" where
  "TorqueToCurrent p torque = (if \<not> (pm_torque_constant p > 0) then zero_rotor else \<lparr>ro_d = 0, ro_q = torque / pm_torque_constant p\<rparr>)"

definition LimitCurrent :: "Parameters \<Rightarrow> Rotor \<Rightarrow> Rotor" where
  "LimitCurrent p current = (
     if \<not> isfinite (ro_d current) \<or> \<not> isfinite (ro_q current) then zero_rotor
     else (let magnitude = rotor_length current; limit = pm_current_limit p in
       if magnitude \<le> limit \<or> magnitude \<le> 0 then current
       else (let scale = limit / magnitude in \<lparr>ro_d = ro_d current * scale, ro_q = ro_q current * scale\<rparr>)))"

section \<open>The step\<close>

text \<open>New parameters and gains.\<close>

definition take_parameters :: "OuterLoop \<Rightarrow> OuterLoop" where
  "take_parameters o1 = (let
     parameters = hd (MailboxRead (ol_parameters o1));
     o1 = (if pm_generation parameters \<noteq> pm_generation (ol_active o1) then LoadParameters parameters o1 else o1)
   in if ol_gains_generation o1 \<noteq> ol_applied_gains_generation o1
      then ApplyGains (hd (MailboxRead (ol_gains o1))) (o1\<lparr>ol_applied_gains_generation := ol_gains_generation o1\<rparr>) else o1)"

definition battery_window :: "BatteryLimits \<Rightarrow> DcLinkLimit \<Rightarrow> DcLinkLimit" where
  "battery_window b l = (if bl_valid b then l\<lparr>dl_drive_current_max := bl_drive_current b, dl_charge_current_max := bl_charge_current b\<rparr> else l)"

text \<open>Section 1: the mechanical position.\<close>

definition track_position :: "ObserverState \<Rightarrow> OuterLoop \<Rightarrow> OuterLoop option" where
  "track_position observer o1 = do {
     o1 \<leftarrow> (if ol_tracking o1 then do {
         moved \<leftarrow> WrapAngle (ob_electrical_angle observer - ol_last_angle o1);
         a \<leftarrow> Advance moved (ol_electrical_position o1);
         Some (o1\<lparr>ol_electrical_position := a, ol_tracker := pt_Update a (pm_pole_pairs (ol_active o1)) (ol_tracker o1)\<rparr>) }
       else do {
         a \<leftarrow> FromAngle (ob_electrical_angle observer);
         Some (o1\<lparr>ol_electrical_position := a,
           ol_tracker := SetHome (pt_Update a (pm_pole_pairs (ol_active o1)) (pt_Reset (ol_tracker o1))), ol_tracking := True\<rparr>) });
     Some (o1\<lparr>ol_last_angle := ob_electrical_angle observer\<rparr>) }"

text \<open>Section 2: the torque, and with it the current, of the mode. The second result is the in-position flag of the status.\<close>

definition mode_current :: "OuterSetpoint \<Rightarrow> f32 \<Rightarrow> TorqueRange \<Rightarrow> OuterLoop \<Rightarrow> Rotor \<times> bool \<times> OuterLoop" where
  "mode_current setpoint speed window o1 = (
     if ol_mode o1 = kTorque then (os_current setpoint, False, o1)
     else if ol_mode o1 = kSpeed then (let
       target = Clamp (os_speed setpoint) (pm_speed_min (ol_active o1)) (pm_speed_max (ol_active o1));
       (torque, c) = sp_Update target speed (pm_dt (ol_active o1)) (ol_speed o1)
       in (TorqueToCurrent (ol_active o1) torque, False, o1\<lparr>ol_speed := c\<rparr>))
     else if ol_mode o1 = kPosition then (let (torque, o1) = PositionTorque (os_position setpoint) speed window o1
       in (TorqueToCurrent (ol_active o1) torque, pc_in_position (ol_position o1), o1))
     else (zero_rotor, False, o1))"

definition engage :: "OuterSetpoint \<Rightarrow> f32 \<Rightarrow> OuterLoop \<Rightarrow> OuterLoop" where
  "engage setpoint speed o1 = (if \<not> ol_was_active o1 \<or> os_mode setpoint \<noteq> ol_mode o1 then (let o1 = Restart speed o1 in
     o1\<lparr>ol_position := pc_Reset ((ol_position o1)\<lparr>pc_pos_ref_rad := os_position setpoint\<rparr>)\<rparr>) else o1)"

definition reference_current :: "OuterSetpoint \<Rightarrow> f32 \<Rightarrow> TorqueRange \<Rightarrow> OuterLoop \<Rightarrow> Rotor \<times> bool \<times> OuterLoop" where
  "reference_current setpoint speed window o1 = (
     if \<not> os_active setpoint then (zero_rotor, False, (Restart speed o1)\<lparr>ol_mode := kTorque, ol_was_active := False\<rparr>)
     else (let o1 = (engage setpoint speed o1)\<lparr>ol_was_active := True, ol_mode := os_mode setpoint\<rparr> in
       mode_current setpoint speed window (o1\<lparr>ol_speed := (ol_speed o1)\<lparr>sp_torque_min := tr_lower window, sp_torque_max := tr_upper window\<rparr>\<rparr>)))"

definition Step :: "CurrentControlIsr \<Rightarrow> OuterLoop \<Rightarrow> (CurrentControlIsr \<times> OuterLoop) option" where
  "Step isr o1 = (if \<not> ol_bound o1 then Some (isr, o1) else do {
     let o1 = take_parameters o1;
     observer \<leftarrow> map_option hd (SeqLockTry (ol_observer o1));
     let setpoint = hd (MailboxRead (ol_setpoint o1));
     let dc_link = battery_window (hd (MailboxRead (ol_battery o1))) (pm_dc_link (ol_active o1));
     let v_dc = cst_dc_link (isr_state isr);
     o1 \<leftarrow> track_position observer o1;
     let speed = ob_electrical_speed observer / f32_of_int (uint (pm_pole_pairs (ol_active o1)));
     let o1 = o1\<lparr>ol_steps := ol_steps o1 + 1\<rparr>;
     let window = AllowedTorque dc_link speed v_dc;
     let motor_torque = pm_torque_constant (ol_active o1) * pm_current_limit (ol_active o1);
     let position = pt_position_rad (ol_tracker o1);
     let o1 = UpdateHoming setpoint speed o1;
     let (current, in_position, o1) = reference_current setpoint speed window o1;
     let current = dc_Limit dc_link (LimitCurrent (ol_active o1) current) (pm_torque_constant (ol_active o1)) speed v_dc;
     let status = \<lparr>ot_steps = ol_steps o1, ot_active = os_active setpoint, ot_mode = ol_mode o1, ot_speed = speed, ot_position = position,
       ot_speed_reference = sp_reference (ol_speed o1), ot_torque_reference = sp_output (ol_speed o1), ot_current_reference = current,
       ot_in_position = in_position, ot_torque_min = Max (tr_lower window) (- motor_torque), ot_torque_max = Min (tr_upper window) motor_torque,
       ot_regen_derated = (AllowedChargeCurrent dc_link v_dc < dl_charge_current_max (pm_dc_link (ol_active o1))), ot_homing = ol_homing o1\<rparr>;
     Some (SetCurrentRef current isr, o1\<lparr>ol_status := SeqLockWrite [status] (ol_status o1)\<rparr>) })"

end
