(* ===== verification/Motion_Limits.thy ===== *)
theory Motion_Limits
  imports Motion_Control Vector_Limit
begin

text \<open>
  What the slow controllers bound: the DC-link limit shortens the current and never lengthens it, for every input, and the speed loop
  keeps its torque in the bounds of the step and its integrator in the torque limit, over runs in which the bounds change.
\<close>

section \<open>Signs of float results\<close>

lemma f32_round_not_negative: "0 \<le> q \<Longrightarrow> \<not> f32_round s q < 0"
  using rnd_nonneg [of q] by (auto simp: f32_round_def Let_def zero_of_def inf_of_def zero_f32_def less_f32_def)

lemma times_not_negative: "\<not> x < 0 \<Longrightarrow> \<not> y < 0 \<Longrightarrow> \<not> x * y < (0 :: f32)"
proof -
  assume a: "\<not> x < 0" "\<not> y < 0"
  have z: "\<not> f32_round s 0 < 0" for s by (rule f32_round_not_negative) simp
  show ?thesis using a f32_round_not_negative z
    by (cases x; cases y) (auto simp: times_f32_def Let_def zero_f32_def inf_of_def zero_of_def split: if_splits)
qed

lemma difference_cases:
  assumes "y < x"
  shows "x - y = PInf \<or> (\<exists>q. x - y = Fin q \<and> 0 \<le> q)"
proof -
  have r: "f32_round False q = PInf \<or> (\<exists>p. f32_round False q = Fin p \<and> 0 \<le> p)" if "0 \<le> q" for q
    using rnd_nonneg [OF that] by (auto simp: f32_round_def Let_def zero_of_def inf_of_def)
  have s: "\<not> (signbit x \<and> signbit (- y))" if "isfinite x" "isfinite y"
    using assms that by (cases x; cases y) (auto simp: less_finite split: if_splits)
  consider "isfinite x" "isfinite y" | "x = PInf" "y \<noteq> PInf" "y \<noteq> NaN" | "y = NInf" "x \<noteq> NaN" "x \<noteq> NInf"
    using assms by (cases x; cases y) (auto simp: less_f32_def)
  then show ?thesis
  proof cases
    case 1
    then have "x - y = f32_round (signbit x \<and> signbit (- y)) (val x - val y)" by (simp add: minus_f32_def plus_f32_def)
    then have "x - y = f32_round False (val x - val y)" by (simp only: s [OF 1])
    then show ?thesis using r [of "val x - val y"] assms 1 by (simp add: less_finite)
  next
    case 2
    then show ?thesis by (cases y) (auto simp: minus_f32_def plus_f32_def)
  next
    case 3
    then show ?thesis by (cases x) (auto simp: minus_f32_def plus_f32_def)
  qed
qed

lemma quotient_not_negative:
  assumes "x = PInf \<or> (\<exists>q. x = Fin q \<and> 0 \<le> q)" "y = PInf \<or> (\<exists>q. y = Fin q \<and> 0 \<le> q)"
  shows "\<not> x / y < 0"
proof -
  have "\<not> f32_round s (a / b) < 0" if "0 \<le> a" "0 \<le> b" for s a b by (rule f32_round_not_negative) (use that in simp)
  moreover have "\<not> PInf < 0" "\<not> Fin 0 < 0" by (simp_all add: zero_f32_def)
  moreover have "\<not> f32_round s 0 < 0" for s by (rule f32_round_not_negative) simp
  ultimately show ?thesis using assms by (auto simp: divide_f32_def Let_def inf_of_def zero_of_def)
qed

lemma less_trans_f32: "x < y \<Longrightarrow> y < z \<Longrightarrow> x < (z :: f32)"
  by (rule less_le_trans_f32 [OF _ less_imp_le_f32])

lemma AllowedChargeCurrent_not_negative:
  assumes "\<not> dl_charge_current_max l < 0"
  shows "\<not> AllowedChargeCurrent l dc_link < 0"
proof -
  have "\<not> (dl_trip l - dc_link) / (dl_trip l - dl_regen_derate_start l) < 0" if "dl_regen_derate_start l < dc_link" "dc_link < dl_trip l"
    using quotient_not_negative [OF difference_cases [OF that(2)] difference_cases [OF less_trans_f32 [OF that]]] .
  then show ?thesis using assms times_not_negative by (auto simp: AllowedChargeCurrent_def zero_f32_def)
qed

lemma ratio_unit:
  assumes "0 \<le> y" "y < x"
  shows "isfinite (y / x)" "0 \<le> val (y / x)" "val (y / x) \<le> 1"
proof -
  have "isfinite (y / x) \<and> 0 \<le> val (y / x) \<and> val (y / x) \<le> 1"
  proof (cases "isfinite x")
    case True
    then have y: "isfinite y" using assms by (cases y) (auto simp: less_f32_def less_eq_f32_def zero_f32_def)
    have v: "0 \<le> val y" "val y < val x" using assms y True by (simp_all add: zero_le_finite less_finite)
    have q: "0 \<le> val y / val x" "val y / val x \<le> 1" using v by simp_all
    have "(1 :: rat) \<le> pow2 127" by (simp add: pow2_def)
    then have d: "isfinite (y / x)" "val (y / x) = rnd (val y / val x)" using div_f32_finite [OF y True] q v by simp_all
    show ?thesis using rnd_mono [OF q(1)] rnd_mono [OF q(2)] by (simp add: d)
  next
    case False
    then have "x = PInf" using assms by (cases x) (auto simp: less_f32_def)
    then show ?thesis using assms by (cases y) (auto simp: divide_f32_def Let_def zero_of_def less_f32_def zero_f32_def less_eq_f32_def)
  qed
  then show "isfinite (y / x)" "0 \<le> val (y / x)" "val (y / x) \<le> 1" by blast+
qed

lemma ratio_unit_negative:
  assumes "y \<le> 0" "x < y"
  shows "isfinite (y / x)" "0 \<le> val (y / x)" "val (y / x) \<le> 1"
proof -
  have "isfinite (y / x) \<and> 0 \<le> val (y / x) \<and> val (y / x) \<le> 1"
  proof (cases "isfinite x")
    case True
    then have y: "isfinite y" using assms by (cases y) (auto simp: less_f32_def less_eq_f32_def zero_f32_def)
    have v: "val y \<le> 0" "val x < val y" using assms y True by (simp_all add: le_finite less_finite zero_f32_def)
    have q: "0 \<le> val y / val x" "val y / val x \<le> 1" using v by (simp_all add: divide_simps)
    have "(1 :: rat) \<le> pow2 127" by (simp add: pow2_def)
    then have d: "isfinite (y / x)" "val (y / x) = rnd (val y / val x)" using div_f32_finite [OF y True] q v by simp_all
    show ?thesis using rnd_mono [OF q(1)] rnd_mono [OF q(2)] by (simp add: d)
  next
    case False
    then have "x = NInf" using assms by (cases x) (auto simp: less_f32_def)
    then show ?thesis using assms by (cases y) (auto simp: divide_f32_def Let_def zero_of_def less_f32_def zero_f32_def less_eq_f32_def)
  qed
  then show "isfinite (y / x)" "0 \<le> val (y / x)" "val (y / x) \<le> 1" by blast+
qed

lemma negated: "\<not> x < 0 \<Longrightarrow> p < - x \<Longrightarrow> - x \<le> (0 :: f32)"
  by (cases x; cases p) (auto simp: zero_f32_def less_f32_def less_eq_f32_def split: if_splits)

lemma not_negated: "\<not> x < 0 \<Longrightarrow> x < p \<Longrightarrow> 0 \<le> (x :: f32)"
  by (cases x; cases p) (auto simp: zero_f32_def less_f32_def less_eq_f32_def split: if_splits)

text \<open>The DC-link limit shortens the current.\<close>

lemma dc_Limit_shrinks:
  assumes "isfinite (ro_q c)" "f32_ok (ro_q c)" "\<not> dl_drive_current_max l < 0" "\<not> dl_charge_current_max l < 0"
  shows "ro_d (dc_Limit l c k w v) = ro_d c" "isfinite (ro_q (dc_Limit l c k w v))" "\<bar>val (ro_q (dc_Limit l c k w v))\<bar> \<le> \<bar>val (ro_q c)\<bar>"
proof -
  define P :: "Rotor \<Rightarrow> bool" where "P = (\<lambda>r. ro_d r = ro_d c \<and> isfinite (ro_q r) \<and> \<bar>val (ro_q r)\<bar> \<le> \<bar>val (ro_q c)\<bar>)"
  have s: "P \<lparr>ro_d = ro_d c, ro_q = ro_q c * y\<rparr>" if "isfinite y" "0 \<le> val y" "val y \<le> 1" for y
    using mul_f32_shrinks [OF assms(2,1) that(1)] that by (simp add: P_def)
  have c: "P c" using assms by (simp add: P_def)
  have "P (dc_Limit l c k w v)"
  proof (cases "0 < v")
    case True
    then have v: "\<not> v < 0" by (cases v) (auto simp: less_f32_def zero_f32_def)
    have m: "\<not> v * dl_drive_current_max l < 0" "\<not> v * AllowedChargeCurrent l v < 0"
      using v assms times_not_negative AllowedChargeCurrent_not_negative by blast+
    show ?thesis using True c s [OF ratio_unit [OF not_negated [OF m(1)]]] s [OF ratio_unit_negative [OF negated [OF m(2)]]]
      by (simp add: dc_Limit_def Let_def)
  next
    case False
    then show ?thesis using c by (simp add: dc_Limit_def)
  qed
  then show "ro_d (dc_Limit l c k w v) = ro_d c" "isfinite (ro_q (dc_Limit l c k w v))" "\<bar>val (ro_q (dc_Limit l c k w v))\<bar> \<le> \<bar>val (ro_q c)\<bar>"
    by (simp_all add: P_def)
qed

section \<open>Results of bounded size\<close>

definition bounded :: "int \<Rightarrow> f32 \<Rightarrow> bool" where
  "bounded k x \<longleftrightarrow> isfinite x \<and> \<bar>val x\<bar> \<le> pow2 k"

lemma bounded_mono: "bounded a x \<Longrightarrow> a \<le> b \<Longrightarrow> bounded b x"
  unfolding bounded_def using order_trans [of "\<bar>val x\<bar>" "pow2 a" "pow2 b"] by simp

lemma bounded_times:
  assumes "bounded a x" "bounded b y" "a + b \<le> 127" "- 149 \<le> a + b"
  shows "bounded (a + b) (x * y)"
proof -
  have m: "\<bar>val x * val y\<bar> \<le> pow2 (a + b)"
    unfolding pow2_add abs_mult using assms by (intro mult_mono) (simp_all add: bounded_def)
  also have "\<dots> \<le> pow2 127" using assms(3) by simp
  finally have "isfinite (x * y)" "val (x * y) = rnd (val x * val y)"
    using mul_f32_finite assms(1,2) by (simp_all add: bounded_def)
  then show ?thesis using rnd_abs_less_pow2 [OF m assms(4)] by (simp add: bounded_def)
qed

lemma bounded_plus:
  assumes "bounded a x" "bounded a y" "a + 1 \<le> 127" "- 149 \<le> a + 1"
  shows "bounded (a + 1) (x + y)"
proof -
  have m: "\<bar>val x + val y\<bar> \<le> pow2 (a + 1)"
    using assms(1,2) unfolding bounded_def pow2_Suc by linarith
  also have "\<dots> \<le> pow2 127" using assms(3) by simp
  finally have "isfinite (x + y)" "val (x + y) = rnd (val x + val y)"
    using add_f32_finite assms(1,2) by (simp_all add: bounded_def)
  then show ?thesis using rnd_abs_less_pow2 [OF m assms(4)] by (simp add: bounded_def)
qed

lemma bounded_uminus: "bounded a x \<Longrightarrow> bounded a (- x)"
  by (simp add: bounded_def)

lemma bounded_minus: "bounded a x \<Longrightarrow> bounded a y \<Longrightarrow> a + 1 \<le> 127 \<Longrightarrow> - 149 \<le> a + 1 \<Longrightarrow> bounded (a + 1) (x - y)"
  unfolding minus_f32_def by (intro bounded_plus bounded_uminus)

section \<open>The speed loop\<close>

text \<open>The torque bounds of a step contain zero.\<close>

definition torque_bounds :: "SpeedController \<Rightarrow> bool" where
  "torque_bounds c \<longleftrightarrow> bounded 40 (sp_torque_limit c) \<and> 0 < val (sp_torque_limit c) \<and> sp_torque_min c \<le> 0 \<and> 0 \<le> sp_torque_max c"

definition within_torque :: "SpeedController \<Rightarrow> f32 \<Rightarrow> bool" where
  "within_torque c t \<longleftrightarrow> isfinite t \<and> \<bar>val t\<bar> \<le> val (sp_torque_limit c) \<and> sp_torque_min c \<le> t \<and> t \<le> sp_torque_max c"

lemma step_bounds:
  assumes "torque_bounds c"
  shows "step_lower c \<le> 0" "0 \<le> step_upper c" "step_lower c \<le> t \<Longrightarrow> t \<le> step_upper c \<Longrightarrow> within_torque c t"
proof -
  define u where "u = sp_torque_limit c"
  have u: "isfinite u" "0 < val u" "sp_torque_min c \<le> 0" "0 \<le> sp_torque_max c" using assms by (simp_all add: torque_bounds_def bounded_def u_def)
  have l: "step_limit c = u" using u by (simp add: step_limit_def u_def [symmetric] zero_less_finite)
  have n: "- u \<le> 0" "0 \<le> u" "u \<noteq> NaN" using u by (auto simp: le_finite zero_f32_def)
  show "step_lower c \<le> 0" "0 \<le> step_upper c" using n u by (simp_all add: step_lower_def step_upper_def l Max_def Min_def)
  have lo: "- u \<le> step_lower c" "sp_torque_min c \<le> step_lower c"
    using u(3) n le_not_nan [OF u(3)] u(1) by (auto simp: step_lower_def l Max_def le_refl_f32 less_imp_le_f32 not_less_f32)
  have up: "step_upper c \<le> u" "step_upper c \<le> sp_torque_max c"
    using u(4) n le_not_nan [OF u(4)] u(1) by (auto simp: step_upper_def l Min_def le_refl_f32 less_imp_le_f32 not_less_f32)
  show "within_torque c t" if t: "step_lower c \<le> t" "t \<le> step_upper c"
  proof -
    have b: "- u \<le> t" "t \<le> u" using le_trans_f32 [OF lo(1) t(1)] le_trans_f32 [OF t(2) up(1)] .
    then have "isfinite t" using between_f32_finite [of "- u" u t] u(1) by simp
    then show ?thesis using b u(1) le_trans_f32 [OF lo(2) t(1)] le_trans_f32 [OF t(2) up(2)]
      by (simp add: within_torque_def u_def [symmetric] le_finite abs_le_iff)
  qed
qed

lemma Clamp_torque:
  assumes "torque_bounds c" "isfinite v"
  shows "within_torque c (Clamp v (step_lower c) (step_upper c))"
proof -
  have v: "v \<noteq> NaN" using assms(2) by auto
  have "step_lower c \<le> step_upper c" by (rule le_trans_f32 [OF step_bounds(1) [OF assms(1)] step_bounds(2) [OF assms(1)]])
  from Clamp_range [OF v this] show ?thesis by (rule step_bounds(3) [OF assms(1)])
qed

text \<open>A run of the speed loop: the caller sets the bounds of each step.\<close>

type_synonym speed_step = "f32 \<times> f32 \<times> f32 \<times> f32 \<times> f32"

definition with_window :: "f32 \<Rightarrow> f32 \<Rightarrow> SpeedController \<Rightarrow> SpeedController" where
  "with_window lower upper c = c\<lparr>sp_torque_min := lower, sp_torque_max := upper\<rparr>"

fun speed_run :: "speed_step list \<Rightarrow> SpeedController \<Rightarrow> SpeedController" where
  "speed_run [] c = c"
| "speed_run ((lower, upper, w, measured, dt) # steps) c = speed_run steps (snd (Track w measured dt (with_window lower upper c)))"

text \<open>Gains, steps and the integrator of sane size; the bounds of a step contain zero.\<close>

definition gains_ok :: "SpeedController \<Rightarrow> bool" where
  "gains_ok c \<longleftrightarrow> bounded 30 (sp_kp c) \<and> bounded 30 (sp_ki c) \<and> bounded 40 (sp_torque_limit c) \<and> 0 < val (sp_torque_limit c)"

fun step_ok :: "speed_step \<Rightarrow> bool" where
  "step_ok (lower, upper, w, measured, dt) \<longleftrightarrow> lower \<le> 0 \<and> 0 \<le> upper \<and> bounded 20 dt
     \<and> (isfinite w \<longrightarrow> bounded 30 w) \<and> (isfinite measured \<longrightarrow> bounded 30 measured)"

definition integral_ok :: "SpeedController \<Rightarrow> bool" where
  "integral_ok c \<longleftrightarrow> isfinite (sp_integral c) \<and> \<bar>val (sp_integral c)\<bar> \<le> val (sp_torque_limit c)"

text \<open>The output without limits is beyond a bound of the step, in the direction of the speed error.\<close>

definition saturated :: "f32 \<Rightarrow> f32 \<Rightarrow> f32 \<Rightarrow> SpeedController \<Rightarrow> bool" where
  "saturated w measured dt c = (let e = w - measured; u = sp_kp c * e + (sp_integral c + sp_kp c * e * (sp_ki c * dt)) in
     u > step_upper c \<and> e > 0 \<or> u < step_lower c \<and> e < 0)"

lemma speed_step:
  assumes "Track w measured dt c = (t, c')" "gains_ok c" "integral_ok c" "step_ok (sp_torque_min c, sp_torque_max c, w, measured, dt)"
  shows "within_torque c t" "integral_ok c'" "gains_ok c'" "sp_torque_limit c' = sp_torque_limit c"
    "sp_integral c' = sp_integral c \<or> within_torque c (sp_integral c')"
    "isfinite w \<Longrightarrow> isfinite measured \<Longrightarrow> saturated w measured dt c \<Longrightarrow> sp_integral c' = sp_integral c"
    "\<not> isfinite w \<or> \<not> isfinite measured \<Longrightarrow> t = 0"
proof -
  have b: "torque_bounds c" using assms(2,4) by (simp add: torque_bounds_def gains_ok_def)
  have z: "within_torque c 0" using b by (auto simp: torque_bounds_def within_torque_def zero_f32_def)
  have keep: "sp_torque_limit c' = sp_torque_limit c" "gains_ok c'" using assms(1,2) by (auto simp: Track_def Let_def gains_ok_def sp_Reset_def split: if_splits)
  have inside: "isfinite x \<and> \<bar>val x\<bar> \<le> val (sp_torque_limit c)" if "within_torque c x" for x using that by (simp add: within_torque_def)
  have "within_torque c t \<and> (sp_integral c' = sp_integral c \<or> within_torque c (sp_integral c'))
    \<and> (isfinite w \<and> isfinite measured \<and> saturated w measured dt c \<longrightarrow> sp_integral c' = sp_integral c)
    \<and> (\<not> isfinite w \<or> \<not> isfinite measured \<longrightarrow> t = 0)"
  proof (cases "isfinite w \<and> isfinite measured")
    case False
    then show ?thesis using assms(1) z by (auto simp: Track_def Let_def sp_Reset_def)
  next
    case True
    define d where "d = c\<lparr>sp_reference := w\<rparr>"
    define p i where "p = sp_kp c * (w - measured)" and "i = sp_integral c + p * (sp_ki c * dt)"
    have e: "bounded 31 (w - measured)" using bounded_minus [of 30 w measured] True assms(4) by simp
    have p: "bounded 61 p" using bounded_times [OF _ e, of 30 "sp_kp c"] assms(2) by (simp add: p_def gains_ok_def)
    have k: "bounded 50 (sp_ki c * dt)" using bounded_times [of 30 "sp_ki c" 20 dt] assms(2,4) by (simp add: gains_ok_def)
    have pk: "bounded 111 (p * (sp_ki c * dt))" using bounded_times [OF p k] by simp
    have q: "bounded 40 x" if "isfinite x \<and> \<bar>val x\<bar> \<le> val (sp_torque_limit c)" for x
      using that assms(2) by (auto simp: bounded_def gains_ok_def)
    have old: "isfinite (sp_integral c) \<and> \<bar>val (sp_integral c)\<bar> \<le> val (sp_torque_limit c)" using assms(3) by (simp add: integral_ok_def)
    have i: "isfinite i" using bounded_plus [OF bounded_mono [OF q [OF old]] pk] by (simp add: i_def bounded_def)
    have s: "step_lower d = step_lower c" "step_upper d = step_upper c" by (simp_all add: d_def step_lower_def step_upper_def step_limit_def)
    have sat: "saturated w measured dt c = (p + i > step_upper c \<and> w - measured > 0 \<or> p + i < step_lower c \<and> w - measured < 0)"
      by (simp add: saturated_def Let_def p_def i_def)
    have t: "sp_integral c' = (if saturated w measured dt c then sp_integral c else Clamp i (step_lower c) (step_upper c))"
      "t = Clamp (p + sp_integral c') (step_lower c) (step_upper c)"
      using assms(1) True unfolding sat Track_def Let_def d_def [symmetric] s
      by (auto simp: d_def p_def [symmetric] i_def [symmetric] split: if_splits)
    have w: "sp_integral c' = sp_integral c \<or> within_torque c (sp_integral c')" using t(1) Clamp_torque [OF b i] by auto
    then have "isfinite (sp_integral c') \<and> \<bar>val (sp_integral c')\<bar> \<le> val (sp_torque_limit c)" using old inside by metis
    then have "isfinite (p + sp_integral c')" using bounded_plus [OF p bounded_mono [OF q]] by (simp add: bounded_def)
    then have "within_torque c t" unfolding t(2) by (rule Clamp_torque [OF b])
    then show ?thesis using w t(1) True by simp
  qed
  then show "within_torque c t" "sp_integral c' = sp_integral c \<or> within_torque c (sp_integral c')"
    "isfinite w \<Longrightarrow> isfinite measured \<Longrightarrow> saturated w measured dt c \<Longrightarrow> sp_integral c' = sp_integral c"
    "\<not> isfinite w \<or> \<not> isfinite measured \<Longrightarrow> t = 0" by blast+
  then show "integral_ok c'" using inside [of "sp_integral c'"] assms(3) keep by (auto simp: integral_ok_def)
  show "gains_ok c'" "sp_torque_limit c' = sp_torque_limit c" using keep by blast+
qed

lemma with_window_ok [simp]: "gains_ok (with_window lower upper c) = gains_ok c" "integral_ok (with_window lower upper c) = integral_ok c"
  "sp_torque_min (with_window lower upper c) = lower" "sp_torque_max (with_window lower upper c) = upper"
  "sp_torque_limit (with_window lower upper c) = sp_torque_limit c" "sp_integral (with_window lower upper c) = sp_integral c"
  by (simp_all add: with_window_def gains_ok_def integral_ok_def)

lemma speed_run_ok:
  "gains_ok c \<Longrightarrow> integral_ok c \<Longrightarrow> list_all step_ok steps
    \<Longrightarrow> gains_ok (speed_run steps c) \<and> integral_ok (speed_run steps c) \<and> sp_torque_limit (speed_run steps c) = sp_torque_limit c"
proof (induction steps arbitrary: c)
  case (Cons x steps)
  obtain lower upper w measured dt where x: "x = (lower, upper, w, measured, dt)" by (cases x)
  obtain t c' where t: "Track w measured dt (with_window lower upper c) = (t, c')" by fastforce
  note s = speed_step(2-4) [OF t]
  show ?case using Cons.IH [of c'] Cons.prems s t by (simp add: x)
qed simp

text \<open>
  C28. The speed loop over any number of steps with gains, periods and speeds of sane size, where the bounds of every step may be others (they
  contain zero, and may shrink below the integrator at any time): the torque of a step is a number within the torque limit and within the
  bounds of this step; the integrator never leaves the torque limit, and a step moves it only to within its bounds; a step whose unlimited
  output is beyond a bound in the direction of the speed error does not move it at all (conditional integration); and if a speed is not finite the
  torque is zero.
\<close>
theorem speed_torque_limited:
  assumes "gains_ok c" "integral_ok c" "list_all step_ok (steps @ [(lower, upper, w, measured, dt)])"
  defines "before \<equiv> with_window lower upper (speed_run steps c)"
  assumes "Track w measured dt before = (t, after)"
  shows "isfinite t \<and> lower \<le> t \<and> t \<le> upper \<and> \<bar>val t\<bar> \<le> val (sp_torque_limit c)
    \<and> isfinite (sp_integral after) \<and> \<bar>val (sp_integral after)\<bar> \<le> val (sp_torque_limit c)
    \<and> (sp_integral after = sp_integral before \<or> lower \<le> sp_integral after \<and> sp_integral after \<le> upper)
    \<and> (isfinite w \<and> isfinite measured \<and> saturated w measured dt before \<longrightarrow> sp_integral after = sp_integral before)
    \<and> (\<not> isfinite w \<or> \<not> isfinite measured \<longrightarrow> t = 0)"
proof -
  have r: "gains_ok before" "integral_ok before" "sp_torque_limit before = sp_torque_limit c"
    using speed_run_ok [OF assms(1,2), of steps] assms(3) by (simp_all add: before_def)
  have o: "step_ok (sp_torque_min before, sp_torque_max before, w, measured, dt)" using assms(3) by (simp add: before_def)
  note s = speed_step [OF assms(5) r(1,2) o]
  show ?thesis using s r(3) by (auto simp: within_torque_def integral_ok_def before_def)
qed

text \<open>Two steps; the second one shrinks the bounds below the integrator and saturates.\<close>

definition running_speed :: SpeedController where
  "running_speed = SpeedController_init\<lparr>sp_kp := Fin 1, sp_ki := Fin 1, sp_torque_limit := Fin 8\<rparr>"

definition shrunk_speed :: SpeedController where
  "shrunk_speed = with_window (Fin (- 8)) (Fin 1) (speed_run [(Fin (- 8), Fin 8, Fin 3, 0, Fin 1)] running_speed)"

theorem speed_torque_limited_witness:
  "Track (Fin 3) 0 (Fin 1) shrunk_speed = (Fin 1, shrunk_speed\<lparr>sp_output := Fin 1\<rparr>) \<and> sp_integral shrunk_speed = Fin 3
    \<and> sp_integral (snd (Track (Fin 3) 0 (Fin 1) shrunk_speed)) = sp_integral shrunk_speed
    \<and> fst (Track (Fin 3) 0 (Fin 1) shrunk_speed) \<le> Fin 1"
proof -
  obtain t c' where t: "Track (Fin 3) 0 (Fin 1) shrunk_speed = (t, c')" by fastforce
  have "gains_ok running_speed" "integral_ok running_speed"
    "list_all step_ok ([(Fin (- 8), Fin 8, Fin 3, 0, Fin 1)] @ [(Fin (- 8), Fin 1, Fin 3, 0, Fin 1)])"
    by (simp_all add: gains_ok_def integral_ok_def running_speed_def SpeedController_init_def bounded_def zero_f32_def pow2_def le_finite)
  note s = speed_torque_limited [OF this, folded shrunk_speed_def, OF t]
  have "saturated (Fin 3) 0 (Fin 1) shrunk_speed" by code_simp
  then have "sp_integral c' = sp_integral shrunk_speed" "t \<le> Fin 1" using s by (simp_all add: zero_f32_def)
  moreover have "Track (Fin 3) 0 (Fin 1) shrunk_speed = (Fin 1, shrunk_speed\<lparr>sp_output := Fin 1\<rparr>)" "sp_integral shrunk_speed = Fin 3" by code_simp+
  ultimately show ?thesis using t by simp
qed

end
