(* ===== verification/Outer_Loop_Safety.thy ===== *)
theory Outer_Loop_Safety
  imports Outer_Loop Motion_Limits
begin

text \<open>
  What a step of the outer loop hands to the control cycle: a current of at most the motor's limit for every input, and the homing
  state machine that the steps follow.
\<close>

section \<open>Limit of the motor current\<close>

lemma unscaled_length:
  assumes "isfinite d" "isfinite q" "isfinite l" "isfinite (d * d + q * q)" "Sqrt (d * d + q * q) \<le> l" "1 / 2 ^ 40 \<le> val l"
  shows "val d * val d + val q * val q \<le> val l * val l * (1 + 1 / 2 ^ 20)"
proof -
  define m where "m = d * d + q * q"
  define L where "L = val l"
  note f = square_sum_finite [OF assms(4), folded m_def]
  note sum = square_sum_error [OF f(3)]
  have L: "0 < L" using assms(6) by (intro less_le_trans [of 0 "1 / 2 ^ 40" L]) (simp_all add: L_def)
  have "1 / 2 ^ 40 * (1 / 2 ^ 40) \<le> L * L" using assms(6) by (intro mult_mono) (simp_all add: L_def)
  then have t: "4 * pow2 (- 150) \<le> L * L / 16777216" by (simp add: pow2_def)
  have le: "val m \<le> L * L * (1 + 3 / 16777216)"
  proof (cases "val m = 0")
    case True
    then show ?thesis using L by simp
  next
    case False
    then have m: "0 < val m" using sum(3) by simp
    note q = Sqrt_Fin [OF _ assms(4) [folded m_def] m]
    have s: "rnd_sqrt (val m) \<le> L" "0 < rnd_sqrt (val m)" and low: "(1 - 1 / 2 ^ 24)\<^sup>2 * val m \<le> (rnd_sqrt (val m))\<^sup>2"
      using assms(3,5) q rnd_sqrt_bounds [OF q(3)] by (simp_all add: m_def L_def le_finite)
    have "(rnd_sqrt (val m))\<^sup>2 \<le> L\<^sup>2" using s by (intro power_mono) simp_all
    moreover have "281474943156225 / 281474976710656 * val m \<le> (rnd_sqrt (val m))\<^sup>2" using low by (simp add: power2_eq_square)
    moreover have "0 \<le> L\<^sup>2" by simp
    ultimately have "val m \<le> L\<^sup>2 * (1 + 3 / 16777216)" unfolding distrib_left by linarith
    then show ?thesis by (simp only: power2_eq_square)
  qed
  define Q X where "Q = L * L" and "X = val d * val d + val q * val q"
  have "0 \<le> Q" "val m \<le> 16777219 / 16777216 * Q" "X \<le> 16777219 / 16777216 * val m + 4 * pow2 (- 150)" "4 * pow2 (- 150) \<le> 1 / 16777216 * Q"
    using le sum(1) t by (simp_all add: Q_def X_def)
  then have "X \<le> 1048577 / 1048576 * Q" by linarith
  then show ?thesis by (simp add: Q_def X_def L_def)
qed

lemma LimitCurrent_bounds:
  fixes p c
  defines "L \<equiv> val (pm_current_limit p)" and "r \<equiv> LimitCurrent p c"
  assumes "isfinite (pm_current_limit p)" "1 / 2 ^ 40 \<le> L" "L \<le> 2 ^ 40" "f32_ok (ro_q c)"
  shows "isfinite (ro_d r) \<and> isfinite (ro_q r) \<and> f32_ok (ro_q r) \<and> val (ro_d r) * val (ro_d r) + val (ro_q r) * val (ro_q r) \<le> L * L * (1 + 1 / 2 ^ 20)"
proof (cases "isfinite (ro_d c) \<and> isfinite (ro_q c)")
  case False
  then show ?thesis by (auto simp: r_def LimitCurrent_def zero_rotor_def zero_f32_def)
next
  case fin: True
  define l d q m where "l = pm_current_limit p" and "d = ro_d c" and "q = ro_q c" and "m = d * d + q * q"
  have L: "0 < L" "L = val l" using assms(4) less_le_trans [of 0 "1 / 2 ^ 40" L] by (simp_all add: l_def L_def)
  have f: "isfinite d" "isfinite q" "isfinite l" using fin assms(3) by (simp_all add: d_def q_def l_def)
  have r: "r = (if Sqrt m \<le> l \<or> Sqrt m \<le> 0 then c else \<lparr>ro_d = d * (l / Sqrt m), ro_q = q * (l / Sqrt m)\<rparr>)"
    using fin by (simp add: r_def LimitCurrent_def rotor_length_def Hypot_def Sqrt_def Let_def l_def d_def q_def m_def)
  show ?thesis
  proof (cases "isfinite m")
    case False
    then have m: "m = PInf" using square_sum_infinite f unfolding m_def by blast
    have "Sqrt m = PInf" by (simp add: m Sqrt_def f32_sqrt_def)
    moreover have "\<not> PInf \<le> l" "\<not> PInf \<le> 0" using f(3) by (cases l; auto simp: less_eq_f32_def less_f32_def zero_f32_def)+
    ultimately have "r = \<lparr>ro_d = d * (l / Sqrt PInf), ro_q = q * (l / Sqrt PInf)\<rparr>" by (simp add: r m)
    then show ?thesis using scaled_by_infinity [OF f(1,3)] scaled_by_infinity [OF f(2,3)] by simp
  next
    case mf: True
    show ?thesis
    proof (cases "Sqrt m \<le> l \<or> Sqrt m \<le> 0")
      case True
      have "Sqrt m \<le> l"
      proof (cases "Sqrt m \<le> 0")
        case True
        moreover have "0 \<le> l" using L f(3) by (simp add: zero_le_finite)
        ultimately show ?thesis by (rule le_trans_f32)
      qed (use True in simp)
      from unscaled_length [OF f mf [unfolded m_def] this [unfolded m_def]] show ?thesis
        using True f assms(4,6) L by (simp add: r d_def q_def)
    next
      case False
      have m: "0 < val m"
      proof (rule ccontr)
        assume "\<not> 0 < val m"
        moreover have "0 \<le> val m" using square_sum_error(3) [OF square_sum_finite(3) [OF mf [unfolded m_def]]] by (simp add: m_def)
        ultimately have "Sqrt m \<le> 0" using mf by (cases m) (auto simp: Sqrt_def f32_sqrt_def zero_f32_def le_finite)
        then show False using False by simp
      qed
      note q = Sqrt_Fin [OF _ mf m]
      have s: "val l < rnd_sqrt (val m)" and up: "(rnd_sqrt (val m))\<^sup>2 \<le> (1 + 1 / 2 ^ 24)\<^sup>2 * val m"
        using False f(3) q rnd_sqrt_bounds [OF q(3)] by (simp_all add: m_def le_finite)
      have "(1 / 2 ^ 40)\<^sup>2 \<le> (rnd_sqrt (val m))\<^sup>2" using s assms(4) L by (intro power_mono) simp_all
      then have b: "1 / 2 ^ 90 \<le> val m" using up by (simp add: power2_eq_square)
      note v = scaled_to_length [OF mf [unfolded m_def] b [unfolded m_def] f(3) assms(4,5) [unfolded L(2)], folded m_def]
      have "r = \<lparr>ro_d = d * (l / Sqrt m), ro_q = q * (l / Sqrt m)\<rparr>" using False by (simp add: r)
      then show ?thesis using v by (simp add: L(2))
    qed
  qed
qed

section \<open>Frames of the step\<close>

lemma track_position_active: "track_position ob o1 = Some o2 \<Longrightarrow> ol_active o2 = ol_active o1"
  by (auto simp: track_position_def split: if_splits bind_split_asm)

lemma Restart_active [simp]: "ol_active (Restart w o1) = ol_active o1"
  by (simp add: Restart_def)

lemma UpdateHoming_active [simp]: "ol_active (UpdateHoming sp w o1) = ol_active o1"
proof -
  have t: "ol_active (TakeHomingRequest sp w o2) = ol_active o2" for o2 by (simp add: TakeHomingRequest_def)
  have u: "ol_active (if b then f o2 else o2) = ol_active o2" if "\<And>o2. ol_active (f o2) = ol_active o2" for b f and o2 :: OuterLoop
    using that by simp
  show ?thesis unfolding UpdateHoming_def Let_def
    by (subst u, simp, subst u, simp, subst if_distrib [of ol_active], simp add: t)
qed

lemma engage_active [simp]: "ol_active (engage sp w o1) = ol_active o1"
  by (simp add: engage_def Let_def)

lemma SearchHome_active: "SearchHome w window sp o1 = (t, o2) \<Longrightarrow> ol_active o2 = ol_active o1"
  by (auto simp: SearchHome_def Let_def split: prod.splits if_splits)

lemma PositionTorque_active: "PositionTorque sp w window o1 = (t, o2) \<Longrightarrow> ol_active o2 = ol_active o1"
  by (auto simp: PositionTorque_def Let_def split: prod.splits if_splits elim!: SearchHome_active)

lemma TorqueToCurrent_ok: "f32_ok (ro_q (TorqueToCurrent p t))"
  by (simp add: TorqueToCurrent_def zero_rotor_def zero_f32_def)

lemma mode_current_frame:
  assumes "mode_current sp w window o1 = (c, pos, o2)"
  shows "ol_active o2 = ol_active o1" "f32_ok (ro_q (os_current sp)) \<Longrightarrow> f32_ok (ro_q c)"
  using assms TorqueToCurrent_ok
  by (auto simp: mode_current_def Let_def zero_rotor_def zero_f32_def split: prod.splits if_splits elim!: PositionTorque_active)

lemma reference_current_frame:
  assumes "reference_current sp w window o1 = (c, pos, o2)"
  shows "ol_active o2 = ol_active o1" "f32_ok (ro_q (os_current sp)) \<Longrightarrow> f32_ok (ro_q c)" "\<not> os_active sp \<Longrightarrow> c = zero_rotor"
proof -
  have z: "f32_ok (ro_q zero_rotor)" by (simp add: zero_rotor_def zero_f32_def)
  show "ol_active o2 = ol_active o1" "f32_ok (ro_q (os_current sp)) \<Longrightarrow> f32_ok (ro_q c)" "\<not> os_active sp \<Longrightarrow> c = zero_rotor"
    using assms z mode_current_frame by (cases "os_active sp"; force simp: reference_current_def Let_def)+
qed

lemma Step_parts:
  assumes "Step isr o1 = Some (isr', o1')" "ol_bound o1"
  defines "o2 \<equiv> take_parameters o1"
  defines "sp \<equiv> hd (MailboxRead (ol_setpoint o2))"
    and "l \<equiv> battery_window (hd (MailboxRead (ol_battery o2))) (pm_dc_link (ol_active o2))"
  obtains ob o3 w window c pos o4 status where "track_position ob o2 = Some o3"
    "reference_current sp w window (UpdateHoming sp w (o3\<lparr>ol_steps := ol_steps o3 + 1\<rparr>)) = (c, pos, o4)"
    "isr' = SetCurrentRef (dc_Limit l (LimitCurrent (ol_active o4) c) (pm_torque_constant (ol_active o4)) w (cst_dc_link (isr_state isr))) isr"
    "o1' = o4\<lparr>ol_status := status\<rparr>"
proof -
  have "\<exists>ob o3 w window c pos o4 status. track_position ob o2 = Some o3
     \<and> reference_current sp w window (UpdateHoming sp w (o3\<lparr>ol_steps := ol_steps o3 + 1\<rparr>)) = (c, pos, o4)
     \<and> SetCurrentRef (dc_Limit l (LimitCurrent (ol_active o4) c) (pm_torque_constant (ol_active o4)) w (cst_dc_link (isr_state isr))) isr = isr'
     \<and> o4\<lparr>ol_status := status\<rparr> = o1'"
    using assms(1,2) unfolding Step_def Let_def o2_def [symmetric] sp_def [symmetric] l_def [symmetric]
    by (simp split: prod.splits bind_split_asm) blast
  then show thesis using that by blast
qed

lemma Step_returns:
  assumes "SeqLockTry (ol_observer (take_parameters o1)) = Some ob" "track_position (hd ob) (take_parameters o1) \<noteq> None"
  obtains isr' o1' where "Step isr o1 = Some (isr', o1')"
proof (cases "ol_bound o1")
  case False
  then show ?thesis using that by (simp add: Step_def)
next
  case True
  then have "Step isr o1 \<noteq> None" using assms by (simp add: Step_def Let_def split: prod.splits bind_split)
  then show ?thesis using that by auto
qed

lemma Step_reference:
  assumes "Step isr o1 = Some (isr', o1')" "ol_bound o1"
  defines "o2 \<equiv> take_parameters o1"
  defines "p \<equiv> ol_active o2" and "sp \<equiv> hd (MailboxRead (ol_setpoint o2))"
    and "l \<equiv> battery_window (hd (MailboxRead (ol_battery o2))) (pm_dc_link (ol_active o2))"
  obtains c w where "isr' = SetCurrentRef (dc_Limit l (LimitCurrent p c) (pm_torque_constant p) w (cst_dc_link (isr_state isr))) isr"
    "f32_ok (ro_q (os_current sp)) \<Longrightarrow> f32_ok (ro_q c)" "\<not> os_active sp \<Longrightarrow> c = zero_rotor"
proof (rule Step_parts [OF assms(1,2), folded o2_def, folded sp_def l_def])
  fix ob o3 w window c pos o4 status
  assume t: "track_position ob o2 = Some o3"
    and r: "reference_current sp w window (UpdateHoming sp w (o3\<lparr>ol_steps := ol_steps o3 + 1\<rparr>)) = (c, pos, o4)"
    and i: "isr' = SetCurrentRef (dc_Limit l (LimitCurrent (ol_active o4) c) (pm_torque_constant (ol_active o4)) w (cst_dc_link (isr_state isr))) isr"
  have "ol_active o4 = p" using reference_current_frame(1) [OF r] track_position_active [OF t] by (simp add: p_def)
  then show thesis using that [OF _ reference_current_frame(2,3) [OF r]] i by simp
qed

section \<open>The current reference\<close>

definition handed_over :: "CurrentControlIsr \<Rightarrow> Rotor" where
  "handed_over isr = hd (MailboxRead (cst_i_ref_mailbox (isr_state isr)))"

definition mailbox_ok :: "'a Mailbox \<Rightarrow> bool" where
  "mailbox_ok m \<longleftrightarrow> length (mb_slots m) = 2 \<and> mb_active m \<in> {0, 1}"

lemma handed_over_SetCurrentRef: "mailbox_ok (cst_i_ref_mailbox (isr_state isr)) \<Longrightarrow> handed_over (SetCurrentRef r isr) = r"
  by (simp add: handed_over_def SetCurrentRef_def mailbox_ok_def MailboxRead_Write)

text \<open>
  C26. Whatever the observer, the setpoints and the battery window hold, NaN and infinities included, the reference that a step hands to the
  control cycle is finite and not longer than the motor's current limit, up to roundings, and without an active setpoint it is zero.
  The limit lies between \<open>2 ^ -40\<close> and \<open>2 ^ 40\<close>, and the battery limits are not negative.
\<close>
theorem current_reference_limited:
  fixes o1
  defines "o2 \<equiv> take_parameters o1"
  defines "p \<equiv> ol_active o2" and "sp \<equiv> hd (MailboxRead (ol_setpoint o2))"
    and "l \<equiv> battery_window (hd (MailboxRead (ol_battery o2))) (pm_dc_link (ol_active o2))"
  defines "L \<equiv> val (pm_current_limit p)"
  assumes "ol_bound o1" "Step isr o1 = Some (isr', o1')" "mailbox_ok (cst_i_ref_mailbox (isr_state isr))"
    and "isfinite (pm_current_limit p)" "1 / 2 ^ 40 \<le> L" "L \<le> 2 ^ 40" "f32_ok (ro_q (os_current sp))"
    and "\<not> dl_drive_current_max l < 0" "\<not> dl_charge_current_max l < 0"
  defines "r \<equiv> handed_over isr'"
  shows "isfinite (ro_d r) \<and> isfinite (ro_q r) \<and> (val (ro_d r))\<^sup>2 + (val (ro_q r))\<^sup>2 \<le> L\<^sup>2 * (1 + 1 / 2 ^ 20)
    \<and> (\<not> os_active sp \<longrightarrow> val (ro_d r) = 0 \<and> val (ro_q r) = 0)"
proof -
  obtain c w where s: "isr' = SetCurrentRef (dc_Limit l (LimitCurrent p c) (pm_torque_constant p) w (cst_dc_link (isr_state isr))) isr"
    and c: "f32_ok (ro_q (os_current sp)) \<Longrightarrow> f32_ok (ro_q c)" "\<not> os_active sp \<Longrightarrow> c = zero_rotor"
    using Step_reference [OF assms(7,6)] unfolding o2_def p_def sp_def l_def by blast
  define b where "b = LimitCurrent p c"
  have b: "isfinite (ro_d b)" "isfinite (ro_q b)" "f32_ok (ro_q b)" "val (ro_d b) * val (ro_d b) + val (ro_q b) * val (ro_q b) \<le> L * L * (1 + 1 / 2 ^ 20)"
    using LimitCurrent_bounds [of p c] assms(9-12) c(1) by (simp_all add: b_def L_def)
  have r: "r = dc_Limit l b (pm_torque_constant p) w (cst_dc_link (isr_state isr))"
    unfolding r_def s b_def by (rule handed_over_SetCurrentRef [OF assms(8)])
  note d = dc_Limit_shrinks [OF b(2,3) assms(13,14), of "pm_torque_constant p" w "cst_dc_link (isr_state isr)", folded r]
  have "(val (ro_q r))\<^sup>2 \<le> (val (ro_q b))\<^sup>2" using d(3) by (simp add: abs_le_square_iff)
  then have "(val (ro_d r))\<^sup>2 + (val (ro_q r))\<^sup>2 \<le> L\<^sup>2 * (1 + 1 / 2 ^ 20)" using b(4) d(1) by (simp add: power2_eq_square)
  moreover have "val (ro_d r) = 0 \<and> val (ro_q r) = 0" if "\<not> os_active sp"
  proof -
    have "val (ro_d b) = 0" "val (ro_q b) = 0" using c(2) [OF that]
      by (simp_all add: b_def LimitCurrent_def zero_rotor_def zero_f32_def Let_def rotor_length_def Hypot_def f32_sqrt_def f32_eval)
    then show ?thesis using d by simp
  qed
  ultimately show ?thesis using b d by simp
qed

definition limited_loop :: OuterLoop where
  "limited_loop = OuterLoop_init\<lparr>ol_bound := True,
     ol_parameters := Mailbox_init [Parameters_init\<lparr>pm_generation := 1, pm_current_limit := f32_of 20, pm_torque_constant := f32_of 1\<rparr>],
     ol_setpoint := Mailbox_init [OuterSetpoint_init\<lparr>os_active := True, os_current := \<lparr>ro_d = 0, ro_q = f32_of 30\<rparr>\<rparr>]\<rparr>"

definition standstill :: ObserverState where
  "standstill = \<lparr>ob_cycles = 0, ob_electrical_angle = 0, ob_electrical_speed = 0\<rparr>"

lemma limited_loop_taken:
  fixes n
  defines "o2 \<equiv> take_parameters (limited_loop\<lparr>ol_homing_requests := n\<rparr>)"
  shows "ol_active o2 = Parameters_init\<lparr>pm_generation := 1, pm_current_limit := f32_of 20, pm_torque_constant := f32_of 1\<rparr>"
    "ol_observer o2 = SeqLock_init [standstill]" "ol_battery o2 = Mailbox_init [BatteryLimits_init]" "\<not> ol_tracking o2"
    "ol_setpoint o2 = Mailbox_init [OuterSetpoint_init\<lparr>os_active := True, os_current := \<lparr>ro_d = 0, ro_q = f32_of 30\<rparr>\<rparr>]"
    "ol_homing_requests o2 = n" "ol_applied_homing_requests o2 = 0"
  by (simp_all add: o2_def take_parameters_def limited_loop_def LoadParameters_def ApplyGains_def OuterLoop_init_def MailboxRead_def
      Mailbox_init_def Parameters_init_def standstill_def Let_def)

lemma MailboxRead_init [simp]: "MailboxRead (Mailbox_init v) = v"
  by (simp add: MailboxRead_def Mailbox_init_def)

lemma limited_loop_steps: obtains isr' o1' where "Step isr (limited_loop\<lparr>ol_homing_requests := n\<rparr>) = Some (isr', o1')"
proof -
  have "FromAngle 0 \<noteq> None" using Advance_moves [of 0 RotorAngle_init]
    by (auto simp: FromAngle_def RotorAngle_init_def zero_f32_def in_int32_def)
  then have "track_position (hd [standstill]) (take_parameters (limited_loop\<lparr>ol_homing_requests := n\<rparr>)) \<noteq> None"
    using limited_loop_taken(4) [of n] by (auto simp: track_position_def standstill_def)
  moreover have "SeqLockTry (ol_observer (take_parameters (limited_loop\<lparr>ol_homing_requests := n\<rparr>))) = Some [standstill]"
    by (simp add: limited_loop_taken SeqLockTry_def SeqLock_init_def)
  ultimately show ?thesis using that Step_returns by blast
qed

theorem current_reference_limited_witness:
  "\<exists>isr' o1'. Step CurrentControlIsr_init (limited_loop\<lparr>ol_homing_requests := 0\<rparr>) = Some (isr', o1') \<and> isfinite (ro_q (handed_over isr'))
    \<and> (val (ro_q (handed_over isr')))\<^sup>2 \<le> 400 * (1 + 1 / 2 ^ 20)"
proof -
  obtain isr' o1' where s: "Step CurrentControlIsr_init (limited_loop\<lparr>ol_homing_requests := 0\<rparr>) = Some (isr', o1')" by (rule limited_loop_steps)
  note t = limited_loop_taken [of 0]
  have m: "mailbox_ok (cst_i_ref_mailbox (isr_state CurrentControlIsr_init))"
    by (simp add: mailbox_ok_def CurrentControlIsr_init_def CurrentControlState_init_def Mailbox_init_def)
  have e: "f32_of 20 = Fin 20" by (simp add: f32_eval)
  have "isfinite (ro_q (handed_over isr'))" "(val (ro_d (handed_over isr')))\<^sup>2 + (val (ro_q (handed_over isr')))\<^sup>2 \<le> 20\<^sup>2 * (1 + 1 / 2 ^ 20)"
    using current_reference_limited [OF _ s m] t by (simp_all add: limited_loop_def e battery_window_def BatteryLimits_init_def Parameters_init_def zero_f32_def)
  moreover have "0 \<le> (val (ro_d (handed_over isr')))\<^sup>2" by simp
  ultimately have "(val (ro_q (handed_over isr')))\<^sup>2 \<le> 20\<^sup>2 * (1 + 1 / 2 ^ 20)" by linarith
  then show ?thesis using s \<open>isfinite (ro_q (handed_over isr'))\<close> by (intro exI [of _ isr'] exI [of _ o1']) simp
qed

section \<open>Homing\<close>

definition homing_next :: "bool \<Rightarrow> bool \<Rightarrow> bool \<Rightarrow> HomingState \<Rightarrow> HomingState" where
  "homing_next request position_mode long s = (let s = (if request then HmSearching else s) in
     if request \<and> \<not> position_mode \<or> s = HmSearching \<and> \<not> position_mode then HmFault
     else if s = HmSearching \<and> long then HmDone else s)"

definition long_block :: "OuterLoop \<Rightarrow> bool" where
  "long_block o1 \<longleftrightarrow> \<not> f32_of_int (uint (ol_blocked_steps o1)) * pm_dt (ol_active o1) < kHomingBlockTime"

lemma homing_frame [simp]:
  "ol_homing (Restart w o1) = ol_homing o1" "ol_homing (engage sp w o1) = ol_homing o1"
  "ol_blocked_steps (Restart w o1) = ol_blocked_steps o1" "ol_mode (Restart w o1) = ol_mode o1"
  by (simp_all add: Restart_def engage_def Let_def)

lemma SearchHome_homing:
  assumes "SearchHome w window sp o1 = (t, o2)" "ol_homing o1 = HmSearching"
  shows "ol_homing o2 = (if long_block o2 then HmDone else HmSearching)"
  using assms by (auto simp: SearchHome_def Let_def long_block_def split: prod.splits if_splits)

lemma PositionTorque_homing:
  assumes "PositionTorque sp w window o1 = (t, o2)"
  shows "ol_homing o2 = (if ol_homing o1 = HmSearching \<and> long_block o2 then HmDone else ol_homing o1)"
proof (cases "ol_homing o1 = HmSearching")
  case True
  then show ?thesis using SearchHome_homing [of w window sp o1 t o2] assms by (simp add: PositionTorque_def)
next
  case False
  then show ?thesis using assms by (auto simp: PositionTorque_def Let_def split: prod.splits if_splits)
qed

lemma mode_current_homing:
  assumes "mode_current sp w window o1 = (c, pos, o2)"
  shows "ol_homing o2 = (if ol_mode o1 = kPosition \<and> ol_homing o1 = HmSearching \<and> long_block o2 then HmDone else ol_homing o1)"
proof (cases "ol_mode o1 = kPosition")
  case True
  obtain t o3 where p: "PositionTorque (os_position sp) w window o1 = (t, o3)" by fastforce
  show ?thesis using assms PositionTorque_homing [OF p] True by (simp add: mode_current_def p kTorque_def kSpeed_def kPosition_def)
next
  case False
  then show ?thesis using assms by (auto simp: mode_current_def Let_def split: prod.splits if_splits)
qed

lemma reference_current_homing:
  assumes "reference_current sp w window o1 = (c, pos, o2)"
  shows "ol_homing o2 = (if os_active sp \<and> os_mode sp = kPosition \<and> ol_homing o1 = HmSearching \<and> long_block o2 then HmDone else ol_homing o1)"
proof (cases "os_active sp")
  case True
  then show ?thesis using assms by (simp add: reference_current_def Let_def mode_current_homing)
next
  case False
  then show ?thesis using assms by (auto simp: reference_current_def)
qed

lemma UpdateHoming_homing:
  "ol_homing (UpdateHoming sp w o1) = (let m = (os_active sp \<and> os_mode sp = kPosition);
     s = (if ol_homing_requests o1 \<noteq> ol_applied_homing_requests o1 then HmSearching else ol_homing o1) in
     if ol_homing_requests o1 \<noteq> ol_applied_homing_requests o1 \<and> \<not> m \<or> s = HmSearching \<and> \<not> m then HmFault else s)"
  by (auto simp: UpdateHoming_def TakeHomingRequest_def Let_def)

lemma track_position_homing: "track_position ob o1 = Some o2 \<Longrightarrow> ol_homing o2 = ol_homing o1
  \<and> ol_homing_requests o2 = ol_homing_requests o1 \<and> ol_applied_homing_requests o2 = ol_applied_homing_requests o1"
  by (auto simp: track_position_def split: if_splits bind_split_asm)

text \<open>
  C27. Every step of the outer loop refines the homing machine: a request starts the search in position mode and faults otherwise, the search
  ends only when the axle was blocked long enough, and it faults when the drive leaves position mode.
\<close>
theorem homing_refines:
  fixes o1
  defines "o2 \<equiv> take_parameters o1"
  defines "sp \<equiv> hd (MailboxRead (ol_setpoint o2))"
  assumes "Step isr o1 = Some (isr', o1')" "ol_bound o1"
  shows "ol_homing o1' = homing_next (ol_homing_requests o2 \<noteq> ol_applied_homing_requests o2) (os_active sp \<and> os_mode sp = kPosition) (long_block o1') (ol_homing o2)"
proof (rule Step_parts [OF assms(3,4), folded o2_def, folded sp_def])
  fix ob o3 w window c pos o4 status
  assume t: "track_position ob o2 = Some o3" and o: "o1' = o4\<lparr>ol_status := status\<rparr>"
    and r: "reference_current sp w window (UpdateHoming sp w (o3\<lparr>ol_steps := ol_steps o3 + 1\<rparr>)) = (c, pos, o4)"
  have h: "ol_homing o1' = ol_homing o4" "long_block o1' = long_block o4" by (simp_all add: o long_block_def)
  show ?thesis using track_position_homing [OF t]
    unfolding h reference_current_homing [OF r] UpdateHoming_homing homing_next_def Let_def by auto
qed

theorem homing_refines_witness:
  "\<exists>isr' o1'. Step CurrentControlIsr_init (limited_loop\<lparr>ol_homing_requests := 1\<rparr>) = Some (isr', o1') \<and> ol_homing o1' = HmFault"
proof -
  obtain isr' o1' where s: "Step CurrentControlIsr_init (limited_loop\<lparr>ol_homing_requests := 1\<rparr>) = Some (isr', o1')" by (rule limited_loop_steps)
  have "ol_bound (limited_loop\<lparr>ol_homing_requests := 1\<rparr>)" by (simp add: limited_loop_def)
  from homing_refines [OF s this] have "ol_homing o1' = HmFault"
    by (simp add: limited_loop_taken homing_next_def OuterSetpoint_init_def kTorque_def kPosition_def)
  then show ?thesis using s by blast
qed

end
