(* ===== verification/Canard_Transport.thy ===== *)
theory Canard_Transport
  imports Prelude
begin

text \<open>
  The transport of the bus node, \<open>src/lib/cyphal/transport.hpp\<close>, \<open>can_media.hpp\<close> and \<open>canard_transport.hpp\<close>, \<open>.cpp\<close>.
  \<open>Transport\<close> is the interface as the node sees it, with the node-ID laws it relies on as a locale. \<open>CanardTransport\<close> implements it
  over libcanard and its heap, which are not part of the sources: their calls are the fields of \<open>Libcanard\<close>, over one opaque
  state, and each call also reports how many allocations failed in it. The drivers below are the fields of \<open>CanMedia\<close>.
\<close>

section \<open>The interface\<close>

definition kNodeIdUnset :: u8 where "kNodeIdUnset = 255"

definition kNodeIdMax :: u8 where "kNodeIdMax = 127"

datatype TransferKind = TkMessage | TkServiceRequest | TkServiceResponse

datatype Priority = PrExceptional | PrImmediate | PrFast | PrHigh | PrNominal | PrLow | PrSlow | PrOptional

record Transfer =
  tf_port_id :: u16
  tf_source_node_id :: u8
  tf_destination_node_id :: u8
  tf_transfer_id :: u8
  tf_kind :: TransferKind
  tf_priority :: Priority
  tf_payload :: "u8 list"

definition Transfer_init :: Transfer where
  "Transfer_init = \<lparr>tf_port_id = 0, tf_source_node_id = kNodeIdUnset, tf_destination_node_id = kNodeIdUnset, tf_transfer_id = 0,
     tf_kind = TkMessage, tf_priority = PrNominal, tf_payload = []\<rparr>"

datatype ReceiveResult = RrNoTransfer | RrReceived | RrError

text \<open>The operations over the state \<open>'w\<close> of the world. The buffer of a reception is given by its size; the transfer is returned.\<close>

record 'w Transport =
  tp_send :: "Transfer \<Rightarrow> 'w \<Rightarrow> bool \<times> 'w"
  tp_receive :: "nat \<Rightarrow> 'w \<Rightarrow> ReceiveResult \<times> Transfer \<times> 'w"
  tp_subscribe :: "TransferKind \<Rightarrow> u16 \<Rightarrow> nat \<Rightarrow> 'w \<Rightarrow> bool \<times> 'w"
  tp_set_node_id :: "u8 \<Rightarrow> 'w \<Rightarrow> 'w"
  tp_node_id :: "'w \<Rightarrow> u8"
  tp_process :: "u64 \<Rightarrow> 'w \<Rightarrow> 'w option"

locale transport =
  fixes send :: "Transfer \<Rightarrow> 'w \<Rightarrow> bool \<times> 'w"
    and receive :: "nat \<Rightarrow> 'w \<Rightarrow> ReceiveResult \<times> Transfer \<times> 'w"
    and subscribe :: "TransferKind \<Rightarrow> u16 \<Rightarrow> nat \<Rightarrow> 'w \<Rightarrow> bool \<times> 'w"
    and set_node_id :: "u8 \<Rightarrow> 'w \<Rightarrow> 'w"
    and node_id :: "'w \<Rightarrow> u8"
    and process :: "u64 \<Rightarrow> 'w \<Rightarrow> 'w option"
  assumes node_id_range: "node_id w \<le> kNodeIdMax \<or> node_id w = kNodeIdUnset"
    and node_id_set: "node_id (set_node_id n w) = (if n \<le> kNodeIdMax then n else kNodeIdUnset)"
    and node_id_send: "node_id (snd (send t w)) = node_id w"
    and node_id_receive: "node_id (snd (snd (receive buffer w))) = node_id w"
    and node_id_subscribe: "node_id (snd (subscribe kind port extent w)) = node_id w"
    and node_id_process: "process now w = Some w' \<Longrightarrow> node_id w' = node_id w"
begin

lemma anonymous_or_small: "node_id w \<noteq> kNodeIdUnset \<Longrightarrow> node_id w \<le> kNodeIdMax"
  using node_id_range by blast

end

section \<open>The drivers\<close>

definition kCanClassicMtu :: nat where "kCanClassicMtu = 8"

definition kCanFdMtu :: nat where "kCanFdMtu = 64"

text \<open>\<open>cf_data\<close> holds the valid bytes of the frame, its length is \<open>size\<close>.\<close>

record CanFrame =
  cf_extended_can_id :: u32
  cf_data :: "u8 list"

datatype CanBusState = CsErrorActive | CsErrorWarning | CsErrorPassive | CsBusOff

definition state_number :: "CanBusState \<Rightarrow> nat" where
  "state_number s = (case s of CsErrorActive \<Rightarrow> 0 | CsErrorWarning \<Rightarrow> 1 | CsErrorPassive \<Rightarrow> 2 | CsBusOff \<Rightarrow> 3)"

record CanBusStatus =
  bs_state :: CanBusState
  bs_bus_off_count :: u32

record 'm CanMedia =
  cm_push :: "CanFrame \<Rightarrow> 'm \<Rightarrow> bool \<times> 'm"
  cm_pop :: "'m \<Rightarrow> CanFrame option \<times> 'm"
  cm_bus_status :: "'m \<Rightarrow> CanBusStatus"

section \<open>libcanard\<close>

datatype CanardTransferKind = CkMessage | CkResponse | CkRequest

record CanardTransferMetadata =
  md_priority :: Priority
  md_transfer_kind :: CanardTransferKind
  md_port_id :: u16
  md_remote_node_id :: u8
  md_transfer_id :: u8

record CanardTxQueueItem =
  ti_deadline :: u64
  ti_frame :: CanFrame

text \<open>
  \<open>lc_tx_push\<close> takes the index of the queue, the local node-ID, the deadline, the payload and the time, and returns the result, the
  number of expired frames and the number of failed allocations; \<open>lc_tx_free\<close> pops and frees the first item of a queue; \<open>lc_deallocate\<close> frees a received payload;
  \<open>lc_rx_extent\<close> is the extent of an existing subscription.
\<close>

record 'c Libcanard =
  lc_node_id_unset :: u8
  lc_error_out_of_memory :: int
  lc_tx_push :: "nat \<Rightarrow> u8 \<Rightarrow> u64 \<Rightarrow> CanardTransferMetadata \<Rightarrow> u8 list \<Rightarrow> u64 \<Rightarrow> 'c \<Rightarrow> int \<times> u64 \<times> u64 \<times> 'c"
  lc_tx_peek :: "nat \<Rightarrow> 'c \<Rightarrow> CanardTxQueueItem option"
  lc_tx_free :: "nat \<Rightarrow> 'c \<Rightarrow> 'c"
  lc_rx_accept :: "u8 \<Rightarrow> u64 \<Rightarrow> CanFrame \<Rightarrow> u8 \<Rightarrow> 'c \<Rightarrow> int \<times> (CanardTransferMetadata \<times> u8 list) \<times> u64 \<times> 'c"
  lc_deallocate :: "u8 list \<Rightarrow> 'c \<Rightarrow> 'c"
  lc_rx_extent :: "CanardTransferKind \<Rightarrow> u16 \<Rightarrow> 'c \<Rightarrow> nat option"
  lc_rx_subscribe :: "CanardTransferKind \<Rightarrow> u16 \<Rightarrow> nat \<Rightarrow> u64 \<Rightarrow> 'c \<Rightarrow> int \<times> u64 \<times> 'c"

definition ToCanard :: "TransferKind \<Rightarrow> CanardTransferKind" where
  "ToCanard kind = (case kind of TkMessage \<Rightarrow> CkMessage | TkServiceRequest \<Rightarrow> CkRequest | TkServiceResponse \<Rightarrow> CkResponse)"

definition FromCanard :: "CanardTransferKind \<Rightarrow> TransferKind" where
  "FromCanard kind = (case kind of CkMessage \<Rightarrow> TkMessage | CkRequest \<Rightarrow> TkServiceRequest | CkResponse \<Rightarrow> TkServiceResponse)"

section \<open>The implementation\<close>

definition kMaxInterfaces :: nat where "kMaxInterfaces = 2"

definition kMaxSubscriptions :: nat where "kMaxSubscriptions = 24"

definition kDefaultTxTimeoutUs :: u64 where "kDefaultTxTimeoutUs = 100000"

definition kTransferIdTimeoutUs :: u64 where "kTransferIdTimeoutUs = 2000000"

definition kMaxFramesPerReceive :: nat where "kMaxFramesPerReceive = 64"

record ('c, 'm) CanardTransport =
  ct_heap :: bool
  ct_canard :: 'c
  ct_node_id :: u8
  ct_interfaces :: "'m list"
  ct_subscription_count :: nat
  ct_next_rx_interface :: nat
  ct_now_us :: u64
  ct_tx_dropped :: u64
  ct_out_of_memory :: u64

text \<open>The constructor: \<open>heap\<close> says whether the arena was accepted, a null interface is \<open>None\<close>.\<close>

definition CanardTransport_init :: "'c Libcanard \<Rightarrow> bool \<Rightarrow> 'c \<Rightarrow> 'm option list \<Rightarrow> ('c, 'm) CanardTransport" where
  "CanardTransport_init lib heap canard interfaces = \<lparr>ct_heap = heap, ct_canard = canard, ct_node_id = lc_node_id_unset lib,
     ct_interfaces = take kMaxInterfaces (List.map_filter id interfaces), ct_subscription_count = 0, ct_next_rx_interface = 0,
     ct_now_us = 0, ct_tx_dropped = 0, ct_out_of_memory = 0\<rparr>"

abbreviation interface_count :: "('c, 'm) CanardTransport \<Rightarrow> nat" where
  "interface_count t \<equiv> length (ct_interfaces t)"

definition IsValid :: "('c, 'm) CanardTransport \<Rightarrow> bool" where
  "IsValid t \<longleftrightarrow> ct_heap t \<and> interface_count t > 0"

definition SetLocalNodeId :: "'c Libcanard \<Rightarrow> u8 \<Rightarrow> ('c, 'm) CanardTransport \<Rightarrow> ('c, 'm) CanardTransport" where
  "SetLocalNodeId lib node_id t = t\<lparr>ct_node_id := (if node_id \<le> kNodeIdMax then node_id else lc_node_id_unset lib)\<rparr>"

definition LocalNodeId :: "('c, 'm) CanardTransport \<Rightarrow> u8" where
  "LocalNodeId t = (if ct_node_id t \<le> kNodeIdMax then ct_node_id t else kNodeIdUnset)"

text \<open>One interface of \<open>Send\<close>; the flag is \<open>accepted\<close>.\<close>

definition send_on :: "'c Libcanard \<Rightarrow> Transfer \<Rightarrow> nat \<Rightarrow> bool \<times> ('c, 'm) CanardTransport \<Rightarrow> bool \<times> ('c, 'm) CanardTransport" where
  "send_on lib transfer i = (\<lambda>(accepted, t). let
     metadata = \<lparr>md_priority = tf_priority transfer, md_transfer_kind = ToCanard (tf_kind transfer), md_port_id = tf_port_id transfer,
       md_remote_node_id = (if tf_kind transfer = TkMessage then lc_node_id_unset lib else tf_destination_node_id transfer),
       md_transfer_id = tf_transfer_id transfer\<rparr>;
     (result, expired, failed, canard) = lc_tx_push lib i (ct_node_id t) (ct_now_us t + kDefaultTxTimeoutUs) metadata
       (tf_payload transfer) (ct_now_us t) (ct_canard t);
     t = t\<lparr>ct_canard := canard, ct_out_of_memory := ct_out_of_memory t + failed, ct_tx_dropped := ct_tx_dropped t + expired\<rparr>
   in if result > 0 then (True, t)
      else if result = - lc_error_out_of_memory lib then (accepted, t\<lparr>ct_tx_dropped := ct_tx_dropped t + 1\<rparr>)
      else (accepted, t))"

definition ct_Send :: "'c Libcanard \<Rightarrow> Transfer \<Rightarrow> ('c, 'm) CanardTransport \<Rightarrow> bool \<times> ('c, 'm) CanardTransport" where
  "ct_Send lib transfer t = (if \<not> IsValid t then (False, t) else fold (send_on lib transfer) [0..<interface_count t] (False, t))"

text \<open>The loop of \<open>Receive\<close> with the attempts that are left.\<close>

fun receive_frames :: "'c Libcanard \<Rightarrow> 'm CanMedia \<Rightarrow> nat \<Rightarrow> nat \<Rightarrow> nat \<Rightarrow> ('c, 'm) CanardTransport
    \<Rightarrow> ReceiveResult \<times> Transfer \<times> ('c, 'm) CanardTransport" where
  "receive_frames lib media buffer_size 0 idle t = (RrNoTransfer, Transfer_init, t)"
| "receive_frames lib media buffer_size (Suc attempts) idle t = (
     if \<not> idle < interface_count t then (RrNoTransfer, Transfer_init, t)
     else let
       iface = ct_next_rx_interface t;
       t = t\<lparr>ct_next_rx_interface := (iface + 1) mod interface_count t\<rparr>;
       (popped, m) = cm_pop media (ct_interfaces t ! iface);
       t = t\<lparr>ct_interfaces := (ct_interfaces t)[iface := m]\<rparr>
     in case popped of
       None \<Rightarrow> receive_frames lib media buffer_size attempts (idle + 1) t
     | Some frame \<Rightarrow> let
         (result, (metadata, payload), failed, canard) = lc_rx_accept lib (ct_node_id t) (ct_now_us t) frame (of_nat iface) (ct_canard t);
         t = t\<lparr>ct_canard := canard, ct_out_of_memory := ct_out_of_memory t + failed\<rparr>
       in if result = - lc_error_out_of_memory lib
          then receive_frames lib media buffer_size attempts 0 (t\<lparr>ct_out_of_memory := ct_out_of_memory t + 1\<rparr>)
          else if result \<noteq> 1 then receive_frames lib media buffer_size attempts 0 t
          else (let t = t\<lparr>ct_canard := lc_deallocate lib payload (ct_canard t)\<rparr> in (RrReceived, \<lparr>tf_port_id = md_port_id metadata, tf_source_node_id = md_remote_node_id metadata,
              tf_destination_node_id = (if FromCanard (md_transfer_kind metadata) = TkMessage then kNodeIdUnset else LocalNodeId t),
              tf_transfer_id = md_transfer_id metadata, tf_kind = FromCanard (md_transfer_kind metadata),
              tf_priority = md_priority metadata, tf_payload = take (min (length payload) buffer_size) payload\<rparr>, t)))"

definition ct_Receive :: "'c Libcanard \<Rightarrow> 'm CanMedia \<Rightarrow> nat \<Rightarrow> ('c, 'm) CanardTransport \<Rightarrow> ReceiveResult \<times> Transfer \<times> ('c, 'm) CanardTransport" where
  "ct_Receive lib media buffer_size t = (if \<not> IsValid t then (RrError, Transfer_init, t)
     else receive_frames lib media buffer_size kMaxFramesPerReceive 0 t)"

definition ct_Subscribe :: "'c Libcanard \<Rightarrow> TransferKind \<Rightarrow> u16 \<Rightarrow> nat \<Rightarrow> ('c, 'm) CanardTransport \<Rightarrow> bool \<times> ('c, 'm) CanardTransport" where
  "ct_Subscribe lib kind port_id extent t = (
     case lc_rx_extent lib (ToCanard kind) port_id (ct_canard t) of
       Some existing \<Rightarrow> if extent \<le> existing then (True, t)
         else (let (result, failed, canard) = lc_rx_subscribe lib (ToCanard kind) port_id extent kTransferIdTimeoutUs (ct_canard t)
           in (result \<ge> 0, t\<lparr>ct_canard := canard, ct_out_of_memory := ct_out_of_memory t + failed\<rparr>))
     | None \<Rightarrow> if ct_subscription_count t \<ge> kMaxSubscriptions then (False, t)
         else (let (result, failed, canard) = lc_rx_subscribe lib (ToCanard kind) port_id extent kTransferIdTimeoutUs (ct_canard t);
             t = t\<lparr>ct_canard := canard, ct_out_of_memory := ct_out_of_memory t + failed\<rparr>
           in if result < 0 then (False, t) else (True, t\<lparr>ct_subscription_count := ct_subscription_count t + 1\<rparr>)))"

definition BusStatus :: "'m CanMedia \<Rightarrow> ('c, 'm) CanardTransport \<Rightarrow> CanBusStatus" where
  "BusStatus media t = (let
     status = fold (\<lambda>m status. let interface = cm_bus_status media m in
         \<lparr>bs_state = (if state_number (bs_state interface) < state_number (bs_state status) then bs_state interface else bs_state status),
           bs_bus_off_count = bs_bus_off_count status + bs_bus_off_count interface\<rparr>)
       (ct_interfaces t) \<lparr>bs_state = CsBusOff, bs_bus_off_count = 0\<rparr>
   in if interface_count t = 0 then status\<lparr>bs_state := CsErrorActive\<rparr> else status)"

text \<open>The inner loop of \<open>Process\<close>: the queue of one interface.\<close>

partial_function (option) process_queue :: "'c Libcanard \<Rightarrow> 'm CanMedia \<Rightarrow> nat \<Rightarrow> u64 \<Rightarrow> 'c \<times> 'm \<times> u64 \<Rightarrow> ('c \<times> 'm \<times> u64) option" where
  "process_queue lib media i now_us s = (case s of (canard, m, dropped) \<Rightarrow> case lc_tx_peek lib i canard of
     None \<Rightarrow> Some s
   | Some item \<Rightarrow> if ti_deadline item < now_us
       then process_queue lib media i now_us (lc_tx_free lib i canard, m, dropped + 1)
       else (let frame = (ti_frame item)\<lparr>cf_data := take (min (length (cf_data (ti_frame item))) kCanFdMtu) (cf_data (ti_frame item))\<rparr>;
           (pushed, m) = cm_push media frame m
         in if \<not> pushed then Some (canard, m, dropped)
            else process_queue lib media i now_us (lc_tx_free lib i canard, m, dropped)))"

definition process_interface :: "'c Libcanard \<Rightarrow> 'm CanMedia \<Rightarrow> u64 \<Rightarrow> nat \<Rightarrow> ('c, 'm) CanardTransport \<Rightarrow> ('c, 'm) CanardTransport option" where
  "process_interface lib media now_us i t = map_option (\<lambda>(canard, m, dropped).
       t\<lparr>ct_canard := canard, ct_interfaces := (ct_interfaces t)[i := m], ct_tx_dropped := dropped\<rparr>)
     (process_queue lib media i now_us (ct_canard t, ct_interfaces t ! i, ct_tx_dropped t))"

fun process_interfaces :: "'c Libcanard \<Rightarrow> 'm CanMedia \<Rightarrow> u64 \<Rightarrow> nat list \<Rightarrow> ('c, 'm) CanardTransport \<Rightarrow> ('c, 'm) CanardTransport option" where
  "process_interfaces lib media now_us [] t = Some t"
| "process_interfaces lib media now_us (i # is) t = Option.bind (process_interface lib media now_us i t) (process_interfaces lib media now_us is)"

definition ct_Process :: "'c Libcanard \<Rightarrow> 'm CanMedia \<Rightarrow> u64 \<Rightarrow> ('c, 'm) CanardTransport \<Rightarrow> ('c, 'm) CanardTransport option" where
  "ct_Process lib media now_us t = process_interfaces lib media now_us [0..<interface_count t] (t\<lparr>ct_now_us := now_us\<rparr>)"

section \<open>The node-ID\<close>

lemma receive_frames_node_id: "ct_node_id (snd (snd (receive_frames lib media n a idle t))) = ct_node_id t"
  by (induction lib media n a idle t rule: receive_frames.induct) (auto simp: Let_def split: prod.splits option.splits)

lemma send_on_node_id: "ct_node_id (snd (send_on lib transfer i s)) = ct_node_id (snd s)"
  by (cases s) (auto simp: send_on_def Let_def split: prod.splits)

lemma fold_send_on_node_id: "ct_node_id (snd (fold (send_on lib transfer) is s)) = ct_node_id (snd s)"
  by (induction "is" arbitrary: s) (auto simp: send_on_node_id)

lemma process_interfaces_node_id: "process_interfaces lib media now_us is t = Some t' \<Longrightarrow> ct_node_id t' = ct_node_id t"
  by (induction lib media now_us "is" t rule: process_interfaces.induct) (auto simp: process_interface_def split: bind_split_asm)

text \<open>The documented value of an unset node-ID is 255.\<close>

definition documented :: "'c Libcanard \<Rightarrow> 'c Libcanard" where
  "documented lib = lib\<lparr>lc_node_id_unset := 255\<rparr>"

lemma node_id_laws:
  "LocalNodeId t \<le> kNodeIdMax \<or> LocalNodeId t = kNodeIdUnset"
  "LocalNodeId (SetLocalNodeId (documented lib) n t) = (if n \<le> kNodeIdMax then n else kNodeIdUnset)"
  "LocalNodeId (snd (ct_Send lib transfer t)) = LocalNodeId t"
  "LocalNodeId (snd (snd (ct_Receive lib media buffer t))) = LocalNodeId t"
  "LocalNodeId (snd (ct_Subscribe lib kind port extent t)) = LocalNodeId t"
  "ct_Process lib media now_us t = Some t' \<Longrightarrow> LocalNodeId t' = LocalNodeId t"
  using process_interfaces_node_id [of lib media now_us "[0..<interface_count t]" "t\<lparr>ct_now_us := now_us\<rparr>" t']
  by (auto simp: LocalNodeId_def SetLocalNodeId_def documented_def kNodeIdMax_def ct_Send_def fold_send_on_node_id ct_Receive_def
      receive_frames_node_id ct_Subscribe_def ct_Process_def Let_def split: option.splits prod.splits)

interpretation canard: transport "ct_Send (documented lib)" "ct_Receive (documented lib) media" "ct_Subscribe (documented lib)"
    "SetLocalNodeId (documented lib)" LocalNodeId "ct_Process (documented lib) media"
  by unfold_locales (rule node_id_laws, assumption?)+

section \<open>The transmit queue\<close>

text \<open>
  What libcanard documents of its transmit queue: it is a list of items, the peek returns the first one and the pop removes it. \<open>drain\<close>
  is what \<open>Process\<close> does to this list.
\<close>

definition queue_laws :: "'c Libcanard \<Rightarrow> nat \<Rightarrow> ('c \<Rightarrow> CanardTxQueueItem list) \<Rightarrow> bool" where
  "queue_laws lib i contents \<longleftrightarrow> (\<forall>c. lc_tx_peek lib i c = (case contents c of [] \<Rightarrow> None | item # _ \<Rightarrow> Some item))
     \<and> (\<forall>c. contents (lc_tx_free lib i c) = tl (contents c))"

definition wire_frame :: "CanardTxQueueItem \<Rightarrow> CanFrame" where
  "wire_frame item = (ti_frame item)\<lparr>cf_data := take kCanFdMtu (cf_data (ti_frame item))\<rparr>"

fun drain :: "'m CanMedia \<Rightarrow> u64 \<Rightarrow> CanardTxQueueItem list \<Rightarrow> 'm \<times> u64 \<Rightarrow> CanardTxQueueItem list \<times> 'm \<times> u64" where
  "drain media now_us [] (m, dropped) = ([], m, dropped)"
| "drain media now_us (item # items) (m, dropped) = (
     if ti_deadline item < now_us then drain media now_us items (m, dropped + 1)
     else case cm_push media (wire_frame item) m of
       (True, m) \<Rightarrow> drain media now_us items (m, dropped)
     | (False, m) \<Rightarrow> (item # items, m, dropped))"

lemma drain_keeps_order: "\<exists>gone. items = gone @ fst (drain media now_us items s)"
proof (induction items arbitrary: s)
  case Nil
  show ?case by (cases s) simp
next
  case (Cons item items)
  obtain m dropped where s: "s = (m, dropped)" by fastforce
  obtain pushed m' where q: "cm_push media (wire_frame item) m = (pushed, m')" by fastforce
  show ?case using Cons [of "(m, dropped + 1)"] Cons [of "(m', dropped)"]
    by (cases "ti_deadline item < now_us"; cases pushed) (auto simp: s q intro: exI [of _ "item # _"])
qed

lemma process_queue_drained:
  assumes "queue_laws lib i contents"
  shows "\<exists>c'. process_queue lib media i now_us (c, m, dropped) = Some (c', snd (drain media now_us (contents c) (m, dropped)))
    \<and> contents c' = fst (drain media now_us (contents c) (m, dropped))"
proof (induction "contents c" arbitrary: c m dropped)
  case Nil
  then have "lc_tx_peek lib i c = None" using assms by (simp add: queue_laws_def flip: Nil)
  then show ?case by (subst process_queue.simps) (simp flip: Nil)
next
  case (Cons item items)
  have p: "lc_tx_peek lib i c = Some item" and t: "items = contents (lc_tx_free lib i c)"
    using assms by (simp_all add: queue_laws_def flip: Cons(2))
  have f: "(ti_frame item)\<lparr>cf_data := take (min (length (cf_data (ti_frame item))) kCanFdMtu) (cf_data (ti_frame item))\<rparr> = wire_frame item"
    by (simp add: wire_frame_def min_def)
  obtain pushed m' where q: "cm_push media (wire_frame item) m = (pushed, m')" by fastforce
  show ?case
    using Cons(1) [OF t, of m "dropped + 1"] Cons(1) [OF t, of m' dropped]
    by (subst process_queue.simps) (cases pushed; simp add: p f q Let_def flip: Cons(2) t)
qed

text \<open>
  C30. \<open>Process\<close> ends on every queue, and sends it in order: expired frames are dropped and counted, the others go to the driver until it is
  busy, and from the first frame that it did not take on the queue is kept as it is.
\<close>
theorem process_queue_drains:
  assumes "queue_laws lib i contents"
  shows "\<exists>c'. process_queue lib media i now_us (c, m, dropped) = Some (c', snd (drain media now_us (contents c) (m, dropped)))
    \<and> contents c' = fst (drain media now_us (contents c) (m, dropped)) \<and> (\<exists>gone. contents c = gone @ contents c')"
  using process_queue_drained [OF assms] drain_keeps_order [of "contents c" media now_us "(m, dropped)"] by fastforce

definition list_canard :: "CanardTxQueueItem list Libcanard" where
  "list_canard = \<lparr>lc_node_id_unset = 255, lc_error_out_of_memory = 3, lc_tx_push = \<lambda>i n d md p now c. (0, 0, 0, c),
     lc_tx_peek = \<lambda>i c. (case c of [] \<Rightarrow> None | item # _ \<Rightarrow> Some item), lc_tx_free = \<lambda>i c. tl c,
     lc_rx_accept = \<lambda>n now f i c. (0, (\<lparr>md_priority = PrNominal, md_transfer_kind = CkMessage, md_port_id = 0, md_remote_node_id = 0, md_transfer_id = 0\<rparr>, []), 0, c),
     lc_deallocate = \<lambda>p c. c, lc_rx_extent = \<lambda>k p c. None, lc_rx_subscribe = \<lambda>k p e t c. (0, 0, c)\<rparr>"

text \<open>A driver that takes one frame.\<close>

definition one_frame_media :: "CanFrame list CanMedia" where
  "one_frame_media = \<lparr>cm_push = \<lambda>f m. if m = [] then (True, [f]) else (False, m), cm_pop = \<lambda>m. (None, m),
     cm_bus_status = \<lambda>m. \<lparr>bs_state = CsErrorActive, bs_bus_off_count = 0\<rparr>\<rparr>"

definition queued :: "nat \<Rightarrow> CanardTxQueueItem" where
  "queued n = \<lparr>ti_deadline = of_nat n, ti_frame = \<lparr>cf_extended_can_id = of_nat n, cf_data = [of_nat n]\<rparr>\<rparr>"

theorem process_queue_drains_witness:
  "\<exists>c'. process_queue list_canard one_frame_media 0 6 (map queued [5, 7, 8], [], 0) = Some (c', [ti_frame (queued 7)], 1) \<and> c' = [queued 8]"
proof -
  have "queue_laws list_canard 0 id" by (auto simp: queue_laws_def list_canard_def split: list.split)
  from process_queue_drains [OF this, of one_frame_media 6 "map queued [5, 7, 8]" "[]" 0]
  show ?thesis by (simp add: queued_def one_frame_media_def wire_frame_def kCanFdMtu_def)
qed

end
