(* ===== verification/Register_Value.thy ===== *)
theory Register_Value
  imports Float_Bounds
begin

unbundle bit_operations_syntax

text \<open>
  The values of the register service, \<open>src/lib/cyphal/register_value.hpp\<close> and \<open>.cpp\<close>. The tagged union itself is generated from the
  standard; the model has the members the sources select and read, each an array as a list. The capacity of the byte arrays is set by
  the generated type and an argument here. A double is a value of the same datatype as a float, without the limit on its digits.
\<close>

datatype RegisterValue =
    RvEmpty
  | RvString "u8 list"
  | RvUnstructured "u8 list"
  | RvBit "bool list"
  | RvInteger64 "u64 list"
  | RvInteger32 "u32 list"
  | RvInteger16 "u16 list"
  | RvInteger8 "u8 list"
  | RvNatural64 "u64 list"
  | RvNatural32 "u32 list"
  | RvNatural16 "u16 list"
  | RvNatural8 "u8 list"
  | RvReal64 "f32 list"
  | RvReal32 "f32 list"
  | RvReal16 "f32 list"

section \<open>Writing\<close>

definition Assign :: "nat \<Rightarrow> 'a list \<Rightarrow> 'a list" where
  "Assign capacity elements = take (min (length elements) capacity) elements"

definition SetEmpty :: RegisterValue where
  "SetEmpty = RvEmpty"

definition SetString :: "nat \<Rightarrow> u8 list \<Rightarrow> RegisterValue" where
  "SetString capacity text = RvString (Assign capacity text)"

definition SetUnstructured :: "nat \<Rightarrow> u8 list \<Rightarrow> RegisterValue" where
  "SetUnstructured capacity bytes = RvUnstructured (Assign capacity bytes)"

definition SetBit :: "bool \<Rightarrow> RegisterValue" where
  "SetBit b = RvBit [b]"

definition SetNatural8 :: "u8 \<Rightarrow> RegisterValue" where
  "SetNatural8 number = RvNatural8 [number]"

definition SetNatural16 :: "u16 \<Rightarrow> RegisterValue" where
  "SetNatural16 number = RvNatural16 [number]"

definition SetNatural32 :: "u32 \<Rightarrow> RegisterValue" where
  "SetNatural32 number = RvNatural32 [number]"

definition SetReal32 :: "f32 \<Rightarrow> RegisterValue" where
  "SetReal32 number = RvReal32 [number]"

section \<open>Reading\<close>

definition IsEmpty :: "RegisterValue \<Rightarrow> bool" where
  "IsEmpty v = (v = RvEmpty)"

text \<open>\<open>static_cast<float>\<close> of a double.\<close>

fun narrowed :: "f32 \<Rightarrow> f32" where
  "narrowed (Fin q) = f32_of q"
| "narrowed x = x"

definition First :: "('a \<Rightarrow> f32) \<Rightarrow> 'a list \<Rightarrow> f32 option" where
  "First to_float elements = (case elements of [] \<Rightarrow> None | e # _ \<Rightarrow> Some (to_float e))"

fun GetNumber :: "RegisterValue \<Rightarrow> f32 option" where
  "GetNumber (RvBit xs) = First (\<lambda>b. if b then f32_of 1 else f32_of 0) xs"
| "GetNumber (RvInteger64 xs) = First (\<lambda>x. f32_of_int (sint x)) xs"
| "GetNumber (RvInteger32 xs) = First (\<lambda>x. f32_of_int (sint x)) xs"
| "GetNumber (RvInteger16 xs) = First (\<lambda>x. f32_of_int (sint x)) xs"
| "GetNumber (RvInteger8 xs) = First (\<lambda>x. f32_of_int (sint x)) xs"
| "GetNumber (RvNatural64 xs) = First (\<lambda>x. f32_of_int (uint x)) xs"
| "GetNumber (RvNatural32 xs) = First (\<lambda>x. f32_of_int (uint x)) xs"
| "GetNumber (RvNatural16 xs) = First (\<lambda>x. f32_of_int (uint x)) xs"
| "GetNumber (RvNatural8 xs) = First (\<lambda>x. f32_of_int (uint x)) xs"
| "GetNumber (RvReal64 xs) = First narrowed xs"
| "GetNumber (RvReal32 xs) = First id xs"
| "GetNumber (RvReal16 xs) = First id xs"
| "GetNumber _ = None"

definition integral_number :: "f32 option \<Rightarrow> int option" where
  "integral_number number = (case number of None \<Rightarrow> None
   | Some x \<Rightarrow> if \<not> isfinite x \<or> of_int (rtrunc (val x)) \<noteq> val x \<or> Abs x > f32_of 9000000000000000 then None
       else Some (rtrunc (val x)))"

fun GetInteger :: "RegisterValue \<Rightarrow> int option" where
  "GetInteger (RvInteger64 xs) = (case xs of [] \<Rightarrow> None | x # _ \<Rightarrow> Some (sint x))"
| "GetInteger (RvNatural64 xs) = (case xs of [] \<Rightarrow> None | x # _ \<Rightarrow> if uint x > 2 ^ 63 - 1 then None else Some (uint x))"
| "GetInteger (RvNatural32 xs) = (case xs of [] \<Rightarrow> None | x # _ \<Rightarrow> Some (uint x))"
| "GetInteger (RvInteger32 xs) = (case xs of [] \<Rightarrow> None | x # _ \<Rightarrow> Some (sint x))"
| "GetInteger v = integral_number (GetNumber v)"

definition GetString :: "RegisterValue \<Rightarrow> u8 list option" where
  "GetString v = (case v of RvString text \<Rightarrow> Some text | _ \<Rightarrow> None)"

section \<open>The number a value stands for\<close>

definition the_finite :: "f32 \<Rightarrow> rat option" where
  "the_finite x = (if isfinite x then Some (val x) else None)"

fun number_of_value :: "RegisterValue \<Rightarrow> rat option" where
  "number_of_value (RvBit (b # _)) = Some (of_bool b)"
| "number_of_value (RvInteger64 (x # _)) = Some (of_int (sint x))"
| "number_of_value (RvInteger32 (x # _)) = Some (of_int (sint x))"
| "number_of_value (RvInteger16 (x # _)) = Some (of_int (sint x))"
| "number_of_value (RvInteger8 (x # _)) = Some (of_int (sint x))"
| "number_of_value (RvNatural64 (x # _)) = Some (of_int (uint x))"
| "number_of_value (RvNatural32 (x # _)) = Some (of_int (uint x))"
| "number_of_value (RvNatural16 (x # _)) = Some (of_int (uint x))"
| "number_of_value (RvNatural8 (x # _)) = Some (of_int (uint x))"
| "number_of_value (RvReal64 (x # _)) = the_finite x"
| "number_of_value (RvReal32 (x # _)) = the_finite x"
| "number_of_value (RvReal16 (x # _)) = the_finite x"
| "number_of_value _ = None"

fun is_double :: "RegisterValue \<Rightarrow> bool" where
  "is_double (RvReal64 _) = True"
| "is_double _ = False"

lemma f32_of_int_exact: "\<bar>n\<bar> \<le> 2 ^ 24 \<Longrightarrow> isfinite (f32_of_int n) \<and> val (f32_of_int n) = of_int n"
proof -
  assume n: "\<bar>n\<bar> \<le> 2 ^ 24"
  then have "\<bar>of_int n :: rat\<bar> \<le> of_int (2 ^ 24)" unfolding of_int_abs [symmetric] of_int_le_iff .
  also have "of_int (2 ^ 24) \<le> pow2 127" by (simp add: pow2_def)
  finally show ?thesis using f32_of_finite [of "of_int n"] rnd_of_int [OF n] by (simp add: f32_of_int_def)
qed

lemma integral_number_eq:
  assumes "isfinite x"
  shows "integral_number (Some x) = Some i \<longleftrightarrow> val x = of_int i \<and> \<not> f32_of 9000000000000000 < Abs x"
proof -
  have "rtrunc (of_int i) = i" for i by (simp add: rtrunc_def)
  then show ?thesis using assms by (auto simp: integral_number_def)
qed

lemma integral_number_infinite: "\<not> isfinite x \<Longrightarrow> integral_number (Some x) = None"
  by (simp add: integral_number_def)

definition kIntegralLimit :: f32 where
  "kIntegralLimit = f32_of 9000000000000000"

lemma kIntegralLimit_bounds: "isfinite kIntegralLimit" "of_int (2 ^ 24) \<le> val kIntegralLimit"
proof -
  have b: "\<bar>9000000000000000 :: rat\<bar> \<le> pow2 127" by (simp add: pow2_def)
  have "of_int (2 ^ 24) \<le> (9000000000000000 :: rat)" by simp
  from rnd_mono [OF this] rnd_of_int [of "2 ^ 24"] have "of_int (2 ^ 24) \<le> rnd 9000000000000000" by (simp del: of_int_power)
  then show "isfinite kIntegralLimit" "of_int (2 ^ 24) \<le> val kIntegralLimit"
    using f32_of_finite [OF b] by (simp_all only: kIntegralLimit_def)
qed

lemma small_integral:
  assumes "\<bar>n\<bar> \<le> 2 ^ 24"
  shows "integral_number (Some (f32_of_int n)) = Some n"
proof -
  note e = f32_of_int_exact [OF assms]
  have "\<bar>of_int n :: rat\<bar> \<le> of_int (2 ^ 24)" using assms unfolding of_int_abs [symmetric] of_int_le_iff .
  then have "\<not> kIntegralLimit < Abs (f32_of_int n)" using e kIntegralLimit_bounds by (simp add: less_finite)
  then show ?thesis using integral_number_eq [of "f32_of_int n" n] e by (simp add: kIntegralLimit_def)
qed

section \<open>Properties\<close>

text \<open>
  An integer read from a register value is exactly the number of the value, whatever its type, except for a double, which is
  rounded to a float first.
\<close>
theorem GetInteger_exact:
  assumes "GetInteger v = Some i" "\<not> is_double v"
  shows "number_of_value v = Some (of_int i)"
proof -
  have small: "\<bar>sint (x :: u16)\<bar> \<le> 2 ^ 24" "\<bar>sint (y :: u8)\<bar> \<le> 2 ^ 24" "\<bar>uint x\<bar> \<le> 2 ^ 24" "\<bar>uint y\<bar> \<le> 2 ^ 24" for x y
    using sint_range_size [of x] sint_range_size [of y] uint_bounded [of x] uint_bounded [of y] by (simp_all add: word_size) linarith+
  note exact = small_integral [OF small(1)] small_integral [OF small(2)] small_integral [OF small(3)] small_integral [OF small(4)]
  have real: "integral_number (Some x) = Some i \<Longrightarrow> the_finite x = Some (of_int i)" for x
    using integral_number_eq [of x i] integral_number_infinite [of x] by (cases "isfinite x") (auto simp: the_finite_def)
  have bit: "integral_number (Some (f32_of 1)) = Some 1" "integral_number (Some (f32_of 0)) = Some 0"
    using small_integral [of 1] small_integral [of 0] by (simp_all add: f32_of_int_def)
  show ?thesis using assms bit
    by (cases v) (auto simp: First_def exact integral_number_def [of None] real split: list.splits if_splits)
qed

theorem GetInteger_exact_witness: "number_of_value (RvInteger8 [- 3]) = Some (of_int (- 3))"
  by (rule GetInteger_exact) code_simp+

text \<open>
  A double that is not integral is read as an integer: it is rounded to a float first.
\<close>
theorem GetInteger_double: "GetInteger (RvReal64 [Fin (100000001 / 2)]) = Some 50000000 \<and> number_of_value (RvReal64 [Fin (100000001 / 2)]) = Some (100000001 / 2)"
  by code_simp

end
