(* ===== verification/Register_Provider.thy ===== *)
theory Register_Provider
  imports Register_Value Settings_Persistence
begin

text \<open>
  The settings as registers of the bus, \<open>src/src/drive/settings_register_provider.hpp\<close> and \<open>.cpp\<close>: the conversion of a field to a
  register value and back, and the provider that reads the live settings and writes them through the store, so that every write is
  validated. The table of \<open>Settings_Registers\<close> takes the place of the generated visitor. The capacity of a register string is an
  argument, as the type is generated.
\<close>

datatype RegisterWriteResult = RwAccepted | RwReadOnly | RwTypeMismatch | RwOutOfRange

record RegisterFlags =
  rf_mutable :: bool
  rf_persistent :: bool

fun ToValue :: "nat \<Rightarrow> string \<Rightarrow> RegValue \<Rightarrow> RegisterValue" where
  "ToValue capacity name (VFloat x) = SetReal32 x"
| "ToValue capacity name (VByte b) = (if name = ''uavcan.node.id'' then SetNatural16 (ucast b) else SetNatural8 b)"
| "ToValue capacity name (VPort p) = SetNatural16 p"
| "ToValue capacity name (VName n) = SetString capacity (terminated_prefix kNodeNameMaxLen n)"

definition ToInteger :: "int \<Rightarrow> RegisterValue \<Rightarrow> int option" where
  "ToInteger maximum v = (case GetInteger v of None \<Rightarrow> None | Some n \<Rightarrow> if n < 0 \<or> n > maximum then None else Some n)"

text \<open>The second argument is the field: its type selects the conversion, and it is returned as it was unless the value is accepted.\<close>

fun FromValue :: "RegisterValue \<Rightarrow> RegValue \<Rightarrow> RegisterWriteResult \<times> RegValue" where
  "FromValue v (VFloat x) = (case GetNumber v of None \<Rightarrow> (RwTypeMismatch, VFloat x)
     | Some number \<Rightarrow> if \<not> isfinite number then (RwOutOfRange, VFloat x) else (RwAccepted, VFloat number))"
| "FromValue v (VByte b) = (if GetNumber v = None then (RwTypeMismatch, VByte b)
     else case ToInteger 255 v of None \<Rightarrow> (RwOutOfRange, VByte b) | Some n \<Rightarrow> (RwAccepted, VByte (word_of_int n)))"
| "FromValue v (VPort p) = (if GetNumber v = None then (RwTypeMismatch, VPort p)
     else case ToInteger 65535 v of None \<Rightarrow> (RwOutOfRange, VPort p) | Some n \<Rightarrow> (RwAccepted, VPort (word_of_int n)))"
| "FromValue v (VName old) = (case GetString v of None \<Rightarrow> (RwTypeMismatch, VName old)
     | Some text \<Rightarrow> if length text > kNodeNameMaxLen then (RwOutOfRange, VName old) else (RwAccepted, VName (zero_padded text)))"

record 'w SettingsRegisterProvider =
  srp_store :: "'w SettingsStore"
  srp_write_count :: u32

definition SettingsRegisterCount :: nat where
  "SettingsRegisterCount = length registers"

definition srp_Name :: "nat \<Rightarrow> string" where
  "srp_Name index = (if index < length registers then rg_name (registers ! index) else [])"

text \<open>The value is an argument as well: an index beyond the table leaves it as it was.\<close>

definition srp_Read :: "nat \<Rightarrow> nat \<Rightarrow> RegisterValue \<Rightarrow> 'w SettingsRegisterProvider \<Rightarrow> RegisterFlags \<times> RegisterValue" where
  "srp_Read capacity index v p = (\<lparr>rf_mutable = True, rf_persistent = True\<rparr>,
     if index < length registers
     then (let r = registers ! index in ToValue capacity (rg_name r) (rg_get r (st_settings (srp_store p)))) else v)"

text \<open>What the visitor of \<open>Write\<close> makes of the candidate, and its result.\<close>

definition written :: "nat \<Rightarrow> RegisterValue \<Rightarrow> NvmSettings \<Rightarrow> RegisterWriteResult \<times> NvmSettings" where
  "written index v candidate = (if index < length registers
     then (let r = registers ! index; (result, field) = FromValue v (rg_get r candidate) in (result, rg_put r field candidate))
     else (RwTypeMismatch, candidate))"

definition srp_Write :: "nat \<Rightarrow> RegisterValue \<Rightarrow> 'w SettingsRegisterProvider \<Rightarrow> RegisterWriteResult \<times> 'w SettingsRegisterProvider" where
  "srp_Write index v p = (let
     result = fst (written index v (st_settings (srp_store p)));
     (status, store) = Update (\<lambda>candidate. snd (written index v candidate)) (srp_store p);
     p = p\<lparr>srp_store := store\<rparr>
   in if result \<noteq> RwAccepted then (result, p)
      else if status \<noteq> kSuccess then (RwOutOfRange, p)
      else (RwAccepted, p\<lparr>srp_write_count := srp_write_count p + 1\<rparr>))"

section \<open>Conversion\<close>

lemma FromValue_kind: "same_kind old (snd (FromValue v old))"
  by (cases old) (auto split: option.splits)

lemma FromValue_rejected: "fst (FromValue v old) \<noteq> RwAccepted \<Longrightarrow> snd (FromValue v old) = old"
  by (cases old) (auto split: option.splits if_splits)

text \<open>A value that a field gave is accepted by a field of the same type and gives the same value, up to the text after the end of a name.\<close>

lemma ToInteger_byte: "ToInteger 255 (SetNatural8 b) = Some (uint b)" "ToInteger 255 (SetNatural16 (ucast b)) = Some (uint b)"
  and ToInteger_port: "ToInteger 65535 (SetNatural16 p) = Some (uint p)"
  using uint_bounded [of b] uint_bounded [of p] small_integral [of "uint b"] small_integral [of "uint p"]
  by (simp_all add: ToInteger_def SetNatural8_def SetNatural16_def First_def uint_up_ucast is_up)

lemma FromValue_ToValue:
  assumes "same_kind old field" "value_ok field" "kNodeNameMaxLen \<le> capacity" "\<And>x. field = VFloat x \<Longrightarrow> isfinite x"
  shows "\<exists>w. FromValue (ToValue capacity name field) old = (RwAccepted, w) \<and> SameEncoding w field \<and> (\<not> same_kind field (VName []) \<longrightarrow> w = field)"
proof (cases field)
  case (VFloat x)
  then show ?thesis using assms by (cases old) (auto simp: SetReal32_def First_def)
next
  case (VByte b)
  have "GetNumber (SetNatural8 b) \<noteq> None" "GetNumber (SetNatural16 (ucast b)) \<noteq> None" by (simp_all add: SetNatural8_def SetNatural16_def First_def)
  then show ?thesis using assms VByte by (cases old) (auto simp: ToInteger_byte)
next
  case (VPort p)
  have "GetNumber (SetNatural16 p) \<noteq> None" by (simp add: SetNatural16_def First_def)
  then show ?thesis using assms VPort by (cases old) (auto simp: ToInteger_port)
next
  case (VName n)
  define t where "t = terminated_prefix kNodeNameMaxLen n"
  have t: "length t \<le> kNodeNameMaxLen" "0 \<notin> set t" using terminated_prefix_props [of kNodeNameMaxLen n] by (simp_all add: t_def)
  have "terminated_prefix kNodeNameMaxLen (zero_padded t) = t"
    using terminated_prefix_padded [OF t, of "kNodeNameMaxLen - length t"] t(1) by (simp add: zero_padded_def Suc_diff_le)
  then show ?thesis using assms VName t
    by (cases old) (auto simp: GetString_def SetString_def Assign_def SameEncoding_def t_def [symmetric])
qed

lemma rg_put_get: "r \<in> set registers \<Longrightarrow> rg_put r (rg_get r s) s = s"
proof -
  have "list_all (\<lambda>r. rg_put r (rg_get r s) s = s) registers"
    unfolding registers_def register_defs list.pred_inject Register.simps
    by simp
  then show "r \<in> set registers \<Longrightarrow> rg_put r (rg_get r s) s = s"
    by (auto simp only: list_all_iff)
qed

lemma rg_put_name:
  assumes "r \<in> set registers" "same_kind (rg_get r s) (VName [])"
  shows "\<exists>x. rg_put r w s = s\<lparr>nvm_identity := x\<rparr>"
proof -
  have "list_all (\<lambda>r. same_kind (rg_get r s) (VName []) \<longrightarrow> (\<exists>x. rg_put r w s = s\<lparr>nvm_identity := x\<rparr>)) registers"
    unfolding registers_def register_defs list.pred_inject Register.simps
    by (simp, cases s) auto
  then show ?thesis using assms by (auto simp only: list_all_iff)
qed

text \<open>The store is left alone unless the write is accepted; then the live settings are the candidate, which is valid.\<close>

lemma srp_Write_cases:
  assumes "srp_Write index v p = (result, p')"
  shows "result \<noteq> RwAccepted \<Longrightarrow> st_settings (srp_store p') = st_settings (srp_store p)"
    "result = RwAccepted \<Longrightarrow> Validate (st_settings (srp_store p')) (st_capabilities (srp_store p')) = kSuccess"
    "result = RwAccepted \<Longrightarrow> index < length registers"
    "result = RwAccepted \<Longrightarrow> \<exists>field. FromValue v (rg_get (registers ! index) (st_settings (srp_store p))) = (RwAccepted, field)
      \<and> st_settings (srp_store p') = rg_put (registers ! index) field (st_settings (srp_store p))"
proof -
  define s where "s = st_settings (srp_store p)"
  have keep: "snd (written index v s) = s" if "fst (written index v s) \<noteq> RwAccepted"
    using that FromValue_rejected [of v "rg_get (registers ! index) s"]
    by (auto simp: written_def Let_def rg_put_get split: prod.splits if_splits)
  have st: "st_settings (srp_store p') = (if Validate (snd (written index v s)) (st_capabilities (srp_store p)) = kSuccess then snd (written index v s) else s)"
    "st_capabilities (srp_store p') = st_capabilities (srp_store p)"
    using assms by (auto simp: srp_Write_def Let_def Update_def Commit_def s_def split: if_splits)
  have acc: "fst (written index v s) = RwAccepted \<and> Validate (snd (written index v s)) (st_capabilities (srp_store p)) = kSuccess" if "result = RwAccepted"
    using assms that by (auto simp: srp_Write_def Let_def Update_def Commit_def s_def split: if_splits)
  have rej: "fst (written index v s) \<noteq> RwAccepted \<or> Validate (snd (written index v s)) (st_capabilities (srp_store p)) \<noteq> kSuccess" if "result \<noteq> RwAccepted"
    using assms that by (auto simp: srp_Write_def Let_def Update_def Commit_def s_def split: if_splits)
  show "st_settings (srp_store p') = st_settings (srp_store p)" if "result \<noteq> RwAccepted"
    using rej [OF that] keep st(1) by (auto simp: s_def)
  show "Validate (st_settings (srp_store p')) (st_capabilities (srp_store p')) = kSuccess" if "result = RwAccepted"
    using acc [OF that] st by simp
  show idx: "index < length registers" if "result = RwAccepted"
    using acc [OF that] by (auto simp: written_def split: if_splits)
  show "\<exists>field. FromValue v (rg_get (registers ! index) (st_settings (srp_store p))) = (RwAccepted, field)
      \<and> st_settings (srp_store p') = rg_put (registers ! index) field (st_settings (srp_store p))" if "result = RwAccepted"
    using acc [OF that] st(1) idx [OF that] by (auto simp: written_def Let_def s_def [symmetric] split: prod.splits)
qed

section \<open>Properties\<close>

text \<open>
  C29. A register write over the bus either is accepted, and then exactly the addressed register has the value that was sent, every other
  register its old one, and the live settings pass the validation; or it is rejected and the live settings are those from before.
\<close>
theorem register_write:
  assumes "srp_Write index v p = (result, p')"
  defines "s \<equiv> st_settings (srp_store p)" and "s' \<equiv> st_settings (srp_store p')"
  shows "(if result = RwAccepted
      then index < length registers \<and> Validate s' (st_capabilities (srp_store p')) = kSuccess
        \<and> FromValue v (rg_get (registers ! index) s) = (RwAccepted, rg_get (registers ! index) s')
        \<and> (\<forall>r. r \<in> set registers \<and> r \<noteq> registers ! index \<longrightarrow> rg_get r s' = rg_get r s)
      else s' = s)"
proof (cases "result = RwAccepted")
  case False
  then show ?thesis using srp_Write_cases(1) [OF assms(1)] by (simp add: s_def s'_def)
next
  case True
  note c = srp_Write_cases(2-4) [OF assms(1) True]
  define r where "r = registers ! index"
  have r: "r \<in> set registers" using c(2) by (simp add: r_def)
  obtain field where f: "FromValue v (rg_get r s) = (RwAccepted, field)" "s' = rg_put r field s" using c(3) by (auto simp: r_def s_def s'_def)
  have "same_kind (rg_get r s) field" using FromValue_kind [of "rg_get r s" v] f(1) by simp
  then have "rg_get r s' = field" using rg_get_put [OF r] f(2) by simp
  moreover have "rg_get q s' = rg_get q s" if "q \<in> set registers" "q \<noteq> r" for q
    using rg_get_put_other [OF r that] f(2) by simp
  ultimately show ?thesis using True c(1,2) f(1) by (simp add: r_def [symmetric] s'_def)
qed

definition default_provider :: "world SettingsRegisterProvider" where
  "default_provider = \<lparr>srp_store = default_store, srp_write_count = 0\<rparr>"

theorem register_write_witness:
  "\<exists>p'. srp_Write 3 (RvString [55]) default_provider = (RwTypeMismatch, p') \<and> st_settings (srp_store p') = st_settings default_store"
proof -
  obtain result p' where w: "srp_Write 3 (RvString [55]) default_provider = (result, p')" by fastforce
  have "FromValue (RvString [55]) (rg_get (registers ! 3) s) = (RwTypeMismatch, rg_get (registers ! 3) s)" for s
    by (simp add: registers_def byte_register_def)
  then have "result = RwTypeMismatch" using w
    by (auto simp: srp_Write_def Let_def written_def registers_def split: prod.splits if_splits)
  with register_write [OF w] w show ?thesis by (simp add: default_provider_def)
qed

text \<open>
  What a read of a register returned can be written back: the write is accepted, and no register of the settings changes its
  stored form.
\<close>
theorem register_write_back:
  assumes "Validate (st_settings (srp_store p)) (st_capabilities (srp_store p)) = kSuccess" "settings_ok (st_settings (srp_store p))"
    and "index < length registers" "kNodeNameMaxLen \<le> capacity"
  shows "\<exists>p'. srp_Write index (snd (srp_Read capacity index RvEmpty p)) p = (RwAccepted, p')
    \<and> (\<forall>r \<in> set registers. SameEncoding (rg_get r (st_settings (srp_store p'))) (rg_get r (st_settings (srp_store p))))"
proof -
  define s where "s = st_settings (srp_store p)"
  define r where "r = registers ! index"
  define v where "v = snd (srp_Read capacity index RvEmpty p)"
  have r: "r \<in> set registers" using assms(3) by (simp add: r_def)
  have v: "v = ToValue capacity (rg_name r) (rg_get r s)" using assms(3) by (simp add: v_def srp_Read_def Let_def r_def s_def)
  have ok: "value_ok (rg_get r s)" using assms(2) r by (simp add: settings_ok_def list_all_iff s_def)
  have fin: "isfinite x" if "rg_get r s = VFloat x" for x
    using valid_register_limits [OF assms(1) r] that by (simp add: s_def within_limits_def)
  obtain w where w: "FromValue v (rg_get r s) = (RwAccepted, w)" "SameEncoding w (rg_get r s)" "\<not> same_kind (rg_get r s) (VName []) \<longrightarrow> w = rg_get r s"
    using FromValue_ToValue [OF same_kind_refl ok assms(4) fin, of "rg_name r"] unfolding v by blast
  have put: "rg_put r w s = s \<or> (\<exists>x. rg_put r w s = s\<lparr>nvm_identity := x\<rparr>)"
    using w(3) rg_put_get [OF r, of s] rg_put_name [OF r, of s w] by auto
  have valid: "Validate (rg_put r w s) (st_capabilities (srp_store p)) = kSuccess" using put assms(1) Validate_identity by (auto simp: s_def)
  have "written index v s = (RwAccepted, rg_put r w s)" using assms(3) w(1) by (simp add: written_def r_def Let_def)
  then have wr: "\<exists>p'. srp_Write index v p = (RwAccepted, p') \<and> st_settings (srp_store p') = rg_put r w s"
    using valid by (simp add: srp_Write_def Let_def Update_def Commit_def s_def)
  have "same_kind (rg_get r s) w" using FromValue_kind [of "rg_get r s" v] w(1) by simp
  then have same: "SameEncoding (rg_get q (rg_put r w s)) (rg_get q s)" if "q \<in> set registers" for q
    using rg_get_put [OF r] rg_get_put_other [OF r that] w(2) by (cases "q = r") auto
  show ?thesis using wr same unfolding v_def s_def by auto
qed

theorem register_write_back_witness:
  "\<exists>p'. srp_Write 1 (snd (srp_Read 256 1 RvEmpty default_provider)) default_provider = (RwAccepted, p')
    \<and> (\<forall>r \<in> set registers. SameEncoding (rg_get r (st_settings (srp_store p'))) (rg_get r (st_settings (srp_store default_provider))))"
proof (rule register_write_back)
  show "Validate (st_settings (srp_store default_provider)) (st_capabilities (srp_store default_provider)) = kSuccess"
    by (simp add: default_provider_def default_store_def SettingsStore_init_def default_profile_def default_valid)
  show "settings_ok (st_settings (srp_store default_provider))"
    by (simp add: default_provider_def default_store_def SettingsStore_init_def default_profile_def default_settings_ok)
qed (simp_all add: registers_def kNodeNameMaxLen_def)

end
