(* ===== verification/Cyphal_Node.thy ===== *)
theory Cyphal_Node
  imports Canard_Transport Register_Provider "HOL-Library.Monad_Syntax"
begin

unbundle bit_operations_syntax

text \<open>
  The bus node, \<open>src/lib/cyphal/node.hpp\<close> and \<open>.cpp\<close>: its tables of register providers, listeners, servers and publishers, the dispatch
  of transfers, plug-and-play allocation, heartbeat and port list. The transport, the objects the node calls back and the generated
  serialization code are fields of \<open>NodeEnv\<close>, functions over one state of the world; objects are named by numbers. A callback that
  calls into the node again is not modelled. The receive and transmit buffers are the byte lists passed on.
\<close>

section \<open>Data\<close>

datatype Health = HeNominal | HeAdvisory | HeCaution | HeWarning

datatype Mode = MoOperational | MoInitialization | MoMaintenance | MoSoftwareUpdate

datatype Severity = SvTrace | SvDebug | SvInfo | SvNotice | SvWarning | SvError | SvCritical | SvAlert

definition health_value :: "Health \<Rightarrow> u8" where
  "health_value h = (case h of HeNominal \<Rightarrow> 0 | HeAdvisory \<Rightarrow> 1 | HeCaution \<Rightarrow> 2 | HeWarning \<Rightarrow> 3)"

definition mode_value :: "Mode \<Rightarrow> u8" where
  "mode_value m = (case m of MoOperational \<Rightarrow> 0 | MoInitialization \<Rightarrow> 1 | MoMaintenance \<Rightarrow> 2 | MoSoftwareUpdate \<Rightarrow> 3)"

definition severity_value :: "Severity \<Rightarrow> u8" where
  "severity_value s = (case s of SvTrace \<Rightarrow> 0 | SvDebug \<Rightarrow> 1 | SvInfo \<Rightarrow> 2 | SvNotice \<Rightarrow> 3 | SvWarning \<Rightarrow> 4 | SvError \<Rightarrow> 5
     | SvCritical \<Rightarrow> 6 | SvAlert \<Rightarrow> 7)"

definition kHeartbeat :: u16 where "kHeartbeat = 7509"
definition kPortList :: u16 where "kPortList = 7510"
definition kNodeIdAllocation :: u16 where "kNodeIdAllocation = 8166"
definition kDiagnosticRecord :: u16 where "kDiagnosticRecord = 8184"
definition kRegisterAccess :: u16 where "kRegisterAccess = 384"
definition kRegisterList :: u16 where "kRegisterList = 385"
definition kGetInfo :: u16 where "kGetInfo = 430"
definition kExecuteCommand :: u16 where "kExecuteCommand = 435"

lemmas fixed_ports = kHeartbeat_def kPortList_def kNodeIdAllocation_def kDiagnosticRecord_def kRegisterAccess_def kRegisterList_def
  kGetInfo_def kExecuteCommand_def

record NodeInfo =
  nf_name :: "u8 list"
  nf_hardware_major :: u8
  nf_hardware_minor :: u8
  nf_software_major :: u8
  nf_software_minor :: u8
  nf_vcs_revision_id :: u64
  nf_unique_id :: "u8 list"

definition NodeInfo_init :: NodeInfo where
  "NodeInfo_init = \<lparr>nf_name = [117, 110, 105, 109, 111, 99], nf_hardware_major = 0, nf_hardware_minor = 0, nf_software_major = 0,
     nf_software_minor = 0, nf_vcs_revision_id = 0, nf_unique_id = replicate 16 0\<rparr>"

definition kStatusBadCommand :: u8 where "kStatusBadCommand = 3"

record CommandResult =
  cr_status :: u8
  cr_output :: "u8 list"

definition kCommandOutputMaxLength :: nat where "kCommandOutputMaxLength = 46"

record Publisher =
  pb_port_id :: u16
  pb_priority :: Priority
  pb_next_transfer_id :: u8

definition kMaxRegisterProviders :: nat where "kMaxRegisterProviders = 6"
definition kMaxListeners :: nat where "kMaxListeners = 12"
definition kMaxPublishers :: nat where "kMaxPublishers = 8"
definition kMaxServers :: nat where "kMaxServers = 8"
definition kHeartbeatPeriodUs :: u64 where "kHeartbeatPeriodUs = 1000000"
definition kPortListPeriodUs :: u64 where "kPortListPeriodUs = 5000000"
definition kMaxTransfersPerSpin :: nat where "kMaxTransfersPerSpin = 32"

definition kTxBufferSize :: nat where "kTxBufferSize = 600"

text \<open>The messages that are serialized by generated code.\<close>

record GetInfoResponse =
  gi_hardware :: "u8 \<times> u8"
  gi_software :: "u8 \<times> u8"
  gi_vcs_revision_id :: u64
  gi_unique_id :: "u8 list"
  gi_name :: "u8 list"

record AccessResponse =
  ar_value :: RegisterValue
  ar_mutable :: bool
  ar_persistent :: bool

record Heartbeat =
  hb_uptime :: u32
  hb_health :: u8
  hb_mode :: u8
  hb_vendor_status :: u8

record AllocationData =
  al_unique_id_hash :: u64
  al_allocated :: "u16 list"

text \<open>A serialization gives the bytes, or \<open>None\<close> for a negative result; so does a deserialization.\<close>

record 'w NodeEnv = "'w Transport" +
  cb_on_message :: "nat \<Rightarrow> Transfer \<Rightarrow> u64 \<Rightarrow> 'w \<Rightarrow> 'w"
  cb_on_command :: "u16 \<Rightarrow> u8 list \<Rightarrow> 'w \<Rightarrow> CommandResult \<times> 'w"
  cb_on_node_id_allocated :: "u8 \<Rightarrow> 'w \<Rightarrow> 'w"
  cb_on_request :: "nat \<Rightarrow> Transfer \<Rightarrow> 'w \<Rightarrow> (nat option \<times> u8 list) \<times> 'w"
  cb_count :: "nat \<Rightarrow> 'w \<Rightarrow> nat"
  cb_name :: "nat \<Rightarrow> nat \<Rightarrow> 'w \<Rightarrow> u8 list"
  cb_read :: "nat \<Rightarrow> nat \<Rightarrow> RegisterValue \<Rightarrow> 'w \<Rightarrow> RegisterFlags \<times> RegisterValue"
  cb_write :: "nat \<Rightarrow> nat \<Rightarrow> RegisterValue \<Rightarrow> 'w \<Rightarrow> RegisterWriteResult \<times> 'w"
  cd_request_extent :: "u16 \<Rightarrow> nat"
  cd_name_capacity :: nat
  cd_text_capacity :: nat
  cd_get_info :: "GetInfoResponse \<Rightarrow> u8 list option"
  cd_list_request :: "u8 list \<Rightarrow> u16 option"
  cd_list_response :: "u8 list \<Rightarrow> u8 list option"
  cd_access_request :: "u8 list \<Rightarrow> (u8 list \<times> RegisterValue) option"
  cd_access_response :: "AccessResponse \<Rightarrow> u8 list option"
  cd_command_request :: "u8 list \<Rightarrow> (u16 \<times> u8 list) option"
  cd_command_response :: "CommandResult \<Rightarrow> u8 list option"
  cd_allocation :: "AllocationData \<Rightarrow> u8 list option"
  cd_allocation_data :: "u8 list \<Rightarrow> AllocationData option"
  cd_heartbeat :: "Heartbeat \<Rightarrow> u8 list option"
  cd_record :: "u8 \<Rightarrow> u8 list \<Rightarrow> u8 list option"

record CyphalNode =
  cn_info :: NodeInfo
  cn_command_handler :: bool
  cn_node_id_listener :: bool
  cn_providers :: "nat list"
  cn_listeners :: "(u16 \<times> nat) list"
  cn_servers :: "(u16 \<times> nat) list"
  cn_published_subjects :: "u16 list"
  cn_health :: Health
  cn_mode :: Mode
  cn_vendor_status :: u8
  cn_started :: bool
  cn_start_us :: u64
  cn_next_heartbeat_us :: u64
  cn_next_port_list_us :: u64
  cn_next_allocation_us :: u64
  cn_allocation_seed :: u32
  cn_heartbeat :: Publisher
  cn_port_list :: Publisher
  cn_allocation :: Publisher
  cn_diagnostic :: Publisher

definition CyphalNode_init :: CyphalNode where
  "CyphalNode_init = \<lparr>cn_info = NodeInfo_init, cn_command_handler = False, cn_node_id_listener = False, cn_providers = [],
     cn_listeners = [], cn_servers = [], cn_published_subjects = [], cn_health = HeNominal, cn_mode = MoInitialization,
     cn_vendor_status = 0, cn_started = False, cn_start_us = 0, cn_next_heartbeat_us = 0, cn_next_port_list_us = 0,
     cn_next_allocation_us = 0, cn_allocation_seed = 0,
     cn_heartbeat = \<lparr>pb_port_id = kHeartbeat, pb_priority = PrNominal, pb_next_transfer_id = 0\<rparr>,
     cn_port_list = \<lparr>pb_port_id = kPortList, pb_priority = PrOptional, pb_next_transfer_id = 0\<rparr>,
     cn_allocation = \<lparr>pb_port_id = kNodeIdAllocation, pb_priority = PrSlow, pb_next_transfer_id = 0\<rparr>,
     cn_diagnostic = \<lparr>pb_port_id = kDiagnosticRecord, pb_priority = PrOptional, pb_next_transfer_id = 0\<rparr>\<rparr>"

section \<open>Port lists\<close>

text \<open>The writer is the list of the bytes written so far; a byte beyond the buffer is counted but not stored, so the list may be longer than it.\<close>

type_synonym Writer = "u8 list"

definition U8 :: "u8 \<Rightarrow> Writer \<Rightarrow> Writer" where
  "U8 v w = w @ [v]"

definition U16 :: "u16 \<Rightarrow> Writer \<Rightarrow> Writer" where
  "U16 v w = U8 (ucast (drop_bit 8 v)) (U8 (ucast (v AND 0xFF)) w)"

definition U32 :: "u32 \<Rightarrow> Writer \<Rightarrow> Writer" where
  "U32 v w = U16 (ucast (drop_bit 16 v)) (U16 (ucast (v AND 0xFFFF)) w)"

definition Fits :: "Writer \<Rightarrow> bool" where
  "Fits w \<longleftrightarrow> length w \<le> kTxBufferSize"

definition WriteSubjectList :: "u16 list \<Rightarrow> Writer \<Rightarrow> Writer" where
  "WriteSubjectList ids w = (let count = (of_nat (min (length ids) 255) :: u8);
     w = U8 count (U8 1 (U32 (2 + 2 * ucast count) w))
   in fold (\<lambda>i. U16 (ids ! i AND 0x1FFF)) [0..<unat count] w)"

definition service_bits :: "u16 list \<Rightarrow> nat \<Rightarrow> u8" where
  "service_bits sids byte = fold (\<lambda>service bits. if unat (service div 8) = byte
     then bits OR push_bit (unat (service mod 8)) 1 else bits) sids 0"

definition WriteServiceList :: "u16 list \<Rightarrow> Writer \<Rightarrow> Writer" where
  "WriteServiceList sids w = fold (\<lambda>byte. U8 (service_bits sids byte)) [0..<64] (U32 64 w)"

definition kServedServices :: "u16 list" where
  "kServedServices = [kRegisterAccess, kRegisterList, kGetInfo, kExecuteCommand]"

definition port_list_bytes :: "CyphalNode \<Rightarrow> Writer" where
  "port_list_bytes n = WriteServiceList (kServedServices @ map fst (cn_servers n)) (WriteServiceList []
     (WriteSubjectList (map fst (cn_listeners n))
       (WriteSubjectList ([kHeartbeat, kPortList, kDiagnosticRecord] @ cn_published_subjects n) [])))"

section \<open>The tables\<close>

definition AddRegisterProvider :: "nat \<Rightarrow> CyphalNode \<Rightarrow> bool \<times> CyphalNode" where
  "AddRegisterProvider provider n = (if length (cn_providers n) \<ge> kMaxRegisterProviders then (False, n)
     else (True, n\<lparr>cn_providers := cn_providers n @ [provider]\<rparr>))"

definition SetInfo :: "NodeInfo \<Rightarrow> CyphalNode \<Rightarrow> CyphalNode" where
  "SetInfo info n = n\<lparr>cn_info := info\<rparr>"

definition cn_Subscribe :: "'w NodeEnv \<Rightarrow> u16 \<Rightarrow> nat \<Rightarrow> nat \<Rightarrow> CyphalNode \<times> 'w \<Rightarrow> bool \<times> CyphalNode \<times> 'w" where
  "cn_Subscribe env subject_id extent listener = (\<lambda>(n, w).
     if subject_id = kUnsetPortId then (True, n, w)
     else if length (cn_listeners n) \<ge> kMaxListeners then (False, n, w)
     else (let (subscribed, w) = tp_subscribe env TkMessage subject_id extent w in
       if \<not> subscribed then (False, n, w) else (True, n\<lparr>cn_listeners := cn_listeners n @ [(subject_id, listener)]\<rparr>, w)))"

definition AddServer :: "'w NodeEnv \<Rightarrow> u16 \<Rightarrow> nat \<Rightarrow> nat \<Rightarrow> CyphalNode \<times> 'w \<Rightarrow> bool \<times> CyphalNode \<times> 'w" where
  "AddServer env service_id request_extent handler = (\<lambda>(n, w).
     if service_id = kUnsetPortId then (True, n, w)
     else (let taken = (service_id \<in> set kServedServices \<or> service_id \<in> fst ` set (cn_servers n)) in
       if service_id > kMaxServiceId \<or> taken \<or> length (cn_servers n) \<ge> kMaxServers then (False, n, w)
       else (let (subscribed, w) = tp_subscribe env TkServiceRequest service_id request_extent w in
         if \<not> subscribed then (False, n, w) else (True, n\<lparr>cn_servers := cn_servers n @ [(service_id, handler)]\<rparr>, w))))"

definition AddPublisher :: "Publisher \<Rightarrow> CyphalNode \<Rightarrow> bool \<times> CyphalNode" where
  "AddPublisher publisher n = (if pb_port_id publisher = kUnsetPortId then (True, n)
     else if length (cn_published_subjects n) \<ge> kMaxPublishers then (False, n)
     else (True, n\<lparr>cn_published_subjects := cn_published_subjects n @ [pb_port_id publisher]\<rparr>))"

section \<open>Identity\<close>

definition UniqueIdHash :: "CyphalNode \<Rightarrow> u64" where
  "UniqueIdHash n = fold (\<lambda>byte hash. (hash XOR ucast byte) * 0x100000001B3) (nf_unique_id (cn_info n)) 0xCBF29CE484222325
     AND (push_bit 48 1 - 1)"

definition UptimeSeconds :: "u64 \<Rightarrow> CyphalNode \<Rightarrow> u32" where
  "UptimeSeconds now_us n = ucast ((now_us - cn_start_us n) div 1000000)"

section \<open>Sending\<close>

definition message_of :: "u8 \<Rightarrow> Publisher \<Rightarrow> u8 list \<Rightarrow> Transfer" where
  "message_of node_id publisher payload = \<lparr>tf_port_id = pb_port_id publisher, tf_source_node_id = node_id,
     tf_destination_node_id = kNodeIdUnset, tf_transfer_id = pb_next_transfer_id publisher, tf_kind = TkMessage,
     tf_priority = pb_priority publisher, tf_payload = payload\<rparr>"

definition next_message :: "Publisher \<Rightarrow> Publisher" where
  "next_message publisher = publisher\<lparr>pb_next_transfer_id := (pb_next_transfer_id publisher + 1) AND 0x1F\<rparr>"

definition PublishInternal :: "'w NodeEnv \<Rightarrow> Publisher \<Rightarrow> u8 list \<Rightarrow> 'w \<Rightarrow> bool \<times> Publisher \<times> 'w" where
  "PublishInternal env publisher payload w = (let (sent, w) = tp_send env (message_of (tp_node_id env w) publisher payload) w in
     (sent, next_message publisher, w))"

definition Publish :: "'w NodeEnv \<Rightarrow> Publisher \<Rightarrow> u8 list \<Rightarrow> 'w \<Rightarrow> bool \<times> Publisher \<times> 'w" where
  "Publish env publisher payload w = (if pb_port_id publisher = kUnsetPortId \<or> tp_node_id env w = kNodeIdUnset then (False, publisher, w)
     else PublishInternal env publisher payload w)"

definition Respond :: "'w NodeEnv \<Rightarrow> Transfer \<Rightarrow> u8 list \<Rightarrow> 'w \<Rightarrow> 'w" where
  "Respond env request payload w = snd (tp_send env \<lparr>tf_port_id = tf_port_id request, tf_source_node_id = tp_node_id env w,
     tf_destination_node_id = tf_source_node_id request, tf_transfer_id = tf_transfer_id request, tf_kind = TkServiceResponse,
     tf_priority = tf_priority request, tf_payload = payload\<rparr> w)"

definition respond_with :: "'w NodeEnv \<Rightarrow> Transfer \<Rightarrow> u8 list option \<Rightarrow> 'w \<Rightarrow> 'w" where
  "respond_with env request response w = (case response of None \<Rightarrow> w | Some payload \<Rightarrow> Respond env request payload w)"

definition Log :: "'w NodeEnv \<Rightarrow> Severity \<Rightarrow> u8 list \<Rightarrow> CyphalNode \<times> 'w \<Rightarrow> bool \<times> CyphalNode \<times> 'w" where
  "Log env severity text = (\<lambda>(n, w). if tp_node_id env w = kNodeIdUnset then (False, n, w)
     else case cd_record env (severity_value severity) (take (cd_text_capacity env) text) of
       None \<Rightarrow> (False, n, w)
     | Some payload \<Rightarrow> (let (sent, p, w) = PublishInternal env (cn_diagnostic n) payload w in (sent, n\<lparr>cn_diagnostic := p\<rparr>, w)))"

definition PublishHeartbeat :: "'w NodeEnv \<Rightarrow> u64 \<Rightarrow> CyphalNode \<times> 'w \<Rightarrow> CyphalNode \<times> 'w" where
  "PublishHeartbeat env now_us = (\<lambda>(n, w).
     case cd_heartbeat env \<lparr>hb_uptime = UptimeSeconds now_us n, hb_health = health_value (cn_health n), hb_mode = mode_value (cn_mode n),
       hb_vendor_status = cn_vendor_status n\<rparr> of
       None \<Rightarrow> (n, w)
     | Some payload \<Rightarrow> (let (_, p, w) = PublishInternal env (cn_heartbeat n) payload w in (n\<lparr>cn_heartbeat := p\<rparr>, w)))"

definition PublishPortList :: "'w NodeEnv \<Rightarrow> CyphalNode \<times> 'w \<Rightarrow> CyphalNode \<times> 'w" where
  "PublishPortList env = (\<lambda>(n, w). if Fits (port_list_bytes n)
     then (let (_, p, w) = PublishInternal env (cn_port_list n) (port_list_bytes n) w in (n\<lparr>cn_port_list := p\<rparr>, w)) else (n, w))"

definition RequestNodeId :: "'w NodeEnv \<Rightarrow> u64 \<Rightarrow> CyphalNode \<times> 'w \<Rightarrow> CyphalNode \<times> 'w" where
  "RequestNodeId env now_us = (\<lambda>(n, w). let
     (n, w) = (case cd_allocation env \<lparr>al_unique_id_hash = UniqueIdHash n, al_allocated = []\<rparr> of
       None \<Rightarrow> (n, w)
     | Some payload \<Rightarrow> (let (_, p, w) = PublishInternal env (cn_allocation n) payload w in (n\<lparr>cn_allocation := p\<rparr>, w)));
     seed = cn_allocation_seed n * 1664525 + 1013904223
   in (n\<lparr>cn_allocation_seed := seed, cn_next_allocation_us := now_us + 500000 + ucast (seed mod 1000000)\<rparr>, w))"

section \<open>Handlers\<close>

definition HandleGetInfo :: "'w NodeEnv \<Rightarrow> Transfer \<Rightarrow> CyphalNode \<Rightarrow> 'w \<Rightarrow> 'w" where
  "HandleGetInfo env request n w = (let info = cn_info n in respond_with env request (cd_get_info env
     \<lparr>gi_hardware = (nf_hardware_major info, nf_hardware_minor info), gi_software = (nf_software_major info, nf_software_minor info),
       gi_vcs_revision_id = nf_vcs_revision_id info, gi_unique_id = nf_unique_id info,
       gi_name = take (min (length (nf_name info)) kNodeNameMaxLen) (nf_name info)\<rparr>) w)"

fun find_name :: "'w NodeEnv \<Rightarrow> u8 list \<Rightarrow> nat \<Rightarrow> nat list \<Rightarrow> 'w \<Rightarrow> nat option" where
  "find_name env name provider [] w = None"
| "find_name env name provider (i # is) w = (if cb_name env provider i w = name then Some i else find_name env name provider is w)"

fun find_register :: "'w NodeEnv \<Rightarrow> u8 list \<Rightarrow> nat list \<Rightarrow> 'w \<Rightarrow> (nat \<times> nat) option" where
  "find_register env name [] w = None"
| "find_register env name (provider # providers) w = (case find_name env name provider [0..<cb_count env provider w] w of
     Some i \<Rightarrow> Some (provider, i) | None \<Rightarrow> find_register env name providers w)"

definition FindRegister :: "'w NodeEnv \<Rightarrow> u8 list \<Rightarrow> CyphalNode \<Rightarrow> 'w \<Rightarrow> (nat \<times> nat) option" where
  "FindRegister env name n w = find_register env name (cn_providers n) w"

fun listed_name :: "'w NodeEnv \<Rightarrow> nat \<Rightarrow> nat list \<Rightarrow> 'w \<Rightarrow> u8 list" where
  "listed_name env index [] w = []"
| "listed_name env index (provider # providers) w = (let count = cb_count env provider w in
     if index < count then (let name = cb_name env provider index w in take (min (length name) (cd_name_capacity env)) name)
     else listed_name env (index - count) providers w)"

definition HandleRegisterList :: "'w NodeEnv \<Rightarrow> Transfer \<Rightarrow> CyphalNode \<Rightarrow> 'w \<Rightarrow> 'w" where
  "HandleRegisterList env request n w = (case cd_list_request env (tf_payload request) of
     None \<Rightarrow> w
   | Some index \<Rightarrow> respond_with env request (cd_list_response env (listed_name env (unat index) (cn_providers n) w)) w)"

text \<open>The answer of an access and the world after it; the response starts empty and without flags.\<close>

definition access_register :: "'w NodeEnv \<Rightarrow> u8 list \<Rightarrow> RegisterValue \<Rightarrow> CyphalNode \<Rightarrow> 'w \<Rightarrow> AccessResponse \<times> 'w" where
  "access_register env name value n w = (case FindRegister env name n w of
     None \<Rightarrow> (\<lparr>ar_value = RvEmpty, ar_mutable = False, ar_persistent = False\<rparr>, w)
   | Some (provider, i) \<Rightarrow> (let
       flags = fst (cb_read env provider i RvEmpty w);
       w = (if \<not> IsEmpty value \<and> rf_mutable flags then snd (cb_write env provider i value w) else w)
     in (\<lparr>ar_value = snd (cb_read env provider i RvEmpty w), ar_mutable = rf_mutable flags, ar_persistent = rf_persistent flags\<rparr>, w)))"

definition HandleRegisterAccess :: "'w NodeEnv \<Rightarrow> Transfer \<Rightarrow> CyphalNode \<Rightarrow> 'w \<Rightarrow> 'w" where
  "HandleRegisterAccess env request n w = (case cd_access_request env (tf_payload request) of
     None \<Rightarrow> w
   | Some (name, value) \<Rightarrow> (let (response, w) = access_register env name value n w in
       respond_with env request (cd_access_response env response) w))"

definition HandleExecuteCommand :: "'w NodeEnv \<Rightarrow> Transfer \<Rightarrow> CyphalNode \<Rightarrow> 'w \<Rightarrow> 'w" where
  "HandleExecuteCommand env request n w = (case cd_command_request env (tf_payload request) of
     None \<Rightarrow> w
   | Some (command, parameter) \<Rightarrow> (let
       (response, w) = (if cn_command_handler n
         then (let (result, w) = cb_on_command env command parameter w in
           (\<lparr>cr_status = cr_status result, cr_output = take (min (length (cr_output result)) kCommandOutputMaxLength) (cr_output result)\<rparr>, w))
         else (\<lparr>cr_status = kStatusBadCommand, cr_output = []\<rparr>, w))
     in respond_with env request (cd_command_response env response) w))"

definition HandleApplicationRequest :: "'w NodeEnv \<Rightarrow> Transfer \<Rightarrow> CyphalNode \<Rightarrow> 'w \<Rightarrow> 'w" where
  "HandleApplicationRequest env request n w = (case map_of (cn_servers n) (tf_port_id request) of
     None \<Rightarrow> w
   | Some handler \<Rightarrow> (let ((answer, buffer), w) = cb_on_request env handler request w in
       case answer of None \<Rightarrow> w | Some sz \<Rightarrow> if sz \<le> kTxBufferSize then Respond env request (take sz buffer) w else w))"

definition HandleAllocation :: "'w NodeEnv \<Rightarrow> Transfer \<Rightarrow> CyphalNode \<times> 'w \<Rightarrow> CyphalNode \<times> 'w" where
  "HandleAllocation env message = (\<lambda>(n, w).
     if tp_node_id env w \<noteq> kNodeIdUnset \<or> tf_source_node_id message = kNodeIdUnset then (n, w)
     else case cd_allocation_data env (tf_payload message) of
       None \<Rightarrow> (n, w)
     | Some response \<Rightarrow>
         if length (al_allocated response) \<noteq> 1 \<or> al_unique_id_hash response \<noteq> UniqueIdHash n
            \<or> hd (al_allocated response) > ucast kNodeIdMax then (n, w)
         else (let node_id = ucast (hd (al_allocated response)); w = tp_set_node_id env node_id w; n = n\<lparr>cn_next_heartbeat_us := 0\<rparr>
           in (n, if cn_node_id_listener n then cb_on_node_id_allocated env node_id w else w)))"

fun deliver :: "'w NodeEnv \<Rightarrow> Transfer \<Rightarrow> u64 \<Rightarrow> (u16 \<times> nat) list \<Rightarrow> 'w \<Rightarrow> 'w" where
  "deliver env transfer now_us [] w = w"
| "deliver env transfer now_us ((subject_id, listener) # listeners) w = deliver env transfer now_us listeners
     (if subject_id = tf_port_id transfer then cb_on_message env listener transfer now_us w else w)"

definition Dispatch :: "'w NodeEnv \<Rightarrow> Transfer \<Rightarrow> u64 \<Rightarrow> CyphalNode \<times> 'w \<Rightarrow> CyphalNode \<times> 'w" where
  "Dispatch env transfer now_us = (\<lambda>(n, w).
     if tf_kind transfer = TkServiceRequest then
       (if tp_node_id env w = kNodeIdUnset then (n, w)
        else (n, if tf_port_id transfer = kGetInfo then HandleGetInfo env transfer n w
          else if tf_port_id transfer = kRegisterList then HandleRegisterList env transfer n w
          else if tf_port_id transfer = kRegisterAccess then HandleRegisterAccess env transfer n w
          else if tf_port_id transfer = kExecuteCommand then HandleExecuteCommand env transfer n w
          else HandleApplicationRequest env transfer n w))
     else if tf_kind transfer \<noteq> TkMessage then (n, w)
     else if tf_port_id transfer = kNodeIdAllocation then HandleAllocation env transfer (n, w)
     else (n, deliver env transfer now_us (cn_listeners n) w))"

section \<open>Start and spin\<close>

definition Start :: "'w NodeEnv \<Rightarrow> u8 \<Rightarrow> u64 \<Rightarrow> CyphalNode \<times> 'w \<Rightarrow> bool \<times> CyphalNode \<times> 'w" where
  "Start env node_id now_us = (\<lambda>(n, w). let
     seed = ucast (UniqueIdHash n XOR drop_bit 32 (UniqueIdHash n));
     n = n\<lparr>cn_start_us := now_us, cn_next_heartbeat_us := now_us, cn_next_port_list_us := now_us + kPortListPeriodUs,
       cn_allocation_seed := seed, cn_next_allocation_us := now_us + ucast (seed mod 1000000)\<rparr>;
     w = tp_set_node_id env (if node_id \<le> kNodeIdMax then node_id else kNodeIdUnset) w;
     subscribe = (\<lambda>kind port (subscribed, w). let (done, w) = tp_subscribe env kind port (cd_request_extent env port) w in (done \<and> subscribed, w));
     (subscribed, w) = fold (subscribe TkServiceRequest) [kGetInfo, kRegisterList, kRegisterAccess, kExecuteCommand] (True, w);
     (subscribed, w) = (if tp_node_id env w = kNodeIdUnset then subscribe TkMessage kNodeIdAllocation (subscribed, w) else (subscribed, w))
   in (subscribed, n\<lparr>cn_started := True\<rparr>, w))"

fun receive_transfers :: "'w NodeEnv \<Rightarrow> u64 \<Rightarrow> nat \<Rightarrow> CyphalNode \<times> 'w \<Rightarrow> CyphalNode \<times> 'w" where
  "receive_transfers env now_us 0 (n, w) = (n, w)"
| "receive_transfers env now_us (Suc k) (n, w) = (let (result, transfer, w) = tp_receive env kTxBufferSize w in
     if result \<noteq> RrReceived then (n, w) else receive_transfers env now_us k (Dispatch env transfer now_us (n, w)))"

text \<open>What is due at the end of a spin.\<close>

definition spin_heartbeat :: "'w NodeEnv \<Rightarrow> u64 \<Rightarrow> CyphalNode \<times> 'w \<Rightarrow> CyphalNode \<times> 'w" where
  "spin_heartbeat env now_us = (\<lambda>(n, w). if now_us \<ge> cn_next_heartbeat_us n then (let
       (n, w) = PublishHeartbeat env now_us (n, w);
       n = n\<lparr>cn_next_heartbeat_us := cn_next_heartbeat_us n + kHeartbeatPeriodUs\<rparr>
     in (if cn_next_heartbeat_us n \<le> now_us then n\<lparr>cn_next_heartbeat_us := now_us + kHeartbeatPeriodUs\<rparr> else n, w)) else (n, w))"

definition spin_port_list :: "'w NodeEnv \<Rightarrow> u64 \<Rightarrow> CyphalNode \<times> 'w \<Rightarrow> CyphalNode \<times> 'w" where
  "spin_port_list env now_us = (\<lambda>(n, w). if now_us \<ge> cn_next_port_list_us n then (let
       (n, w) = PublishPortList env (n, w) in (n\<lparr>cn_next_port_list_us := now_us + kPortListPeriodUs\<rparr>, w)) else (n, w))"

definition spin_due :: "'w NodeEnv \<Rightarrow> u64 \<Rightarrow> CyphalNode \<times> 'w \<Rightarrow> CyphalNode \<times> 'w" where
  "spin_due env now_us = (\<lambda>(n, w). if tp_node_id env w = kNodeIdUnset
     then (if now_us \<ge> cn_next_allocation_us n then RequestNodeId env now_us (n, w) else (n, w))
     else spin_port_list env now_us (spin_heartbeat env now_us (n, w)))"

definition Spin :: "'w NodeEnv \<Rightarrow> u64 \<Rightarrow> CyphalNode \<times> 'w \<Rightarrow> (CyphalNode \<times> 'w) option" where
  "Spin env now_us = (\<lambda>(n, w). do {
     w \<leftarrow> tp_process env now_us w;
     if \<not> cn_started n then Some (n, w) else do {
       let (n, w) = spin_due env now_us (receive_transfers env now_us kMaxTransfersPerSpin (n, w));
       w \<leftarrow> tp_process env now_us w;
       Some (n, w) } })"

end
