(* ===== verification/Cyphal_Bus.thy ===== *)
theory Cyphal_Bus
  imports Cyphal_Node
begin

unbundle bit_operations_syntax

text \<open>
  Theorems of the bus node: the registers of all providers as one list, the bytes of the port list against a parser, the invariant of
  the tables, plug-and-play allocation and the heartbeat, over the model of the transport.
\<close>

section \<open>Registers\<close>

definition bus_registers :: "'w NodeEnv \<Rightarrow> CyphalNode \<Rightarrow> 'w \<Rightarrow> (nat \<times> nat) list" where
  "bus_registers env n w = concat (map (\<lambda>p. map (Pair p) [0..<cb_count env p w]) (cn_providers n))"

definition bus_name :: "'w NodeEnv \<Rightarrow> 'w \<Rightarrow> nat \<times> nat \<Rightarrow> u8 list" where
  "bus_name env w = (\<lambda>(p, i). cb_name env p i w)"

lemma find_name_find: "map_option (Pair p) (find_name env name p is w) = find (\<lambda>r. bus_name env w r = name) (map (Pair p) is)"
  by (induction "is") (auto simp: bus_name_def)

lemma find_append: "find P (xs @ ys) = (case find P xs of None \<Rightarrow> find P ys | Some x \<Rightarrow> Some x)"
  by (induction xs) auto

lemma find_register_find: "find_register env name ps w =
   find (\<lambda>r. bus_name env w r = name) (concat (map (\<lambda>p. map (Pair p) [0..<cb_count env p w]) ps))"
proof (induction ps)
  case (Cons p ps)
  show ?case using find_name_find [of p env name "[0..<cb_count env p w]" w, symmetric]
    by (simp add: find_append Cons split: option.splits)
qed simp

lemma listed_name_nth: "listed_name env index ps w = (let rs = concat (map (\<lambda>p. map (Pair p) [0..<cb_count env p w]) ps) in
   if index < length rs then take (cd_name_capacity env) (bus_name env w (rs ! index)) else [])"
proof (induction ps arbitrary: index)
  case (Cons p ps)
  show ?case
    by (auto simp: Cons Let_def nth_append bus_name_def min_def)
qed simp

text \<open>
  C31. The register list of the bus is the list of all registers of the providers in their order: the request with index \<open>i\<close> is answered
  with the name of its \<open>i\<close>-th entry and with an empty name beyond its end, and an access addresses the first entry with the name.
\<close>
theorem register_list_equivalence:
  "listed_name env index (cn_providers n) w = (if index < length (bus_registers env n w)
      then take (cd_name_capacity env) (bus_name env w (bus_registers env n w ! index)) else [])
   \<and> FindRegister env name n w = find (\<lambda>r. bus_name env w r = name) (bus_registers env n w)"
  by (simp add: listed_name_nth bus_registers_def Let_def FindRegister_def find_register_find)

section \<open>Port lists\<close>

lemma U16_bytes: "U16 v w = w @ [ucast (v AND 0xFF), ucast (drop_bit 8 v)]"
  by (simp add: U16_def U8_def)

lemma U32_bytes: "U32 v w = w @ [ucast (ucast (v AND 0xFFFF) AND (0xFF :: u16)), ucast (drop_bit 8 (ucast (v AND 0xFFFF) :: u16)),
   ucast (ucast (drop_bit 16 v) AND (0xFF :: u16)), ucast (drop_bit 8 (ucast (drop_bit 16 v) :: u16))]"
  by (simp add: U32_def U16_bytes)

lemma U32_four: obtains a b c d where "U32 v w = w @ [a, b, c, d]"
  unfolding U32_bytes by blast

fun id_bytes :: "u16 list \<Rightarrow> u8 list" where
  "id_bytes [] = []"
| "id_bytes (v # vs) = [ucast (v AND 0xFF), ucast (drop_bit 8 v)] @ id_bytes vs"

lemma fold_U16: "fold (\<lambda>i. U16 (f i)) is w = w @ id_bytes (map f is)"
  by (induction "is" arbitrary: w) (auto simp: U16_bytes)

lemma unat_byte: "n \<le> 255 \<Longrightarrow> unat (of_nat n :: u8) = n"
  by (simp add: unsigned_of_nat take_bit_nat_eq_self)

lemma map_indexed: "map (\<lambda>i. f (xs ! i)) [0..<length xs] = map f xs"
  by (rule nth_equalityI) simp_all

lemma WriteSubjectList_bytes:
  assumes "length ids \<le> 255"
  shows "\<exists>a b c d. WriteSubjectList ids w = w @ [a, b, c, d, 1, of_nat (length ids)] @ id_bytes (map (\<lambda>v. v AND 0x1FFF) ids)"
proof -
  have "unat (of_nat (length ids) :: u8) = length ids" using assms by (simp add: unat_byte)
  moreover have "map (\<lambda>i. ids ! i AND 0x1FFF) [0..<length ids] = map (\<lambda>v. v AND 0x1FFF) ids" by (rule map_indexed)
  moreover have "min (length ids) 255 = length ids" using assms by simp
  ultimately have e: "WriteSubjectList ids w = U8 (of_nat (length ids)) (U8 1 (U32 (2 + 2 * ucast (of_nat (length ids) :: u8)) w))
      @ id_bytes (map (\<lambda>v. v AND 0x1FFF) ids)"
    by (simp only: WriteSubjectList_def Let_def fold_U16)
  obtain a b c d where "U32 (2 + 2 * ucast (of_nat (length ids) :: u8)) w = w @ [a, b, c, d]" by (rule U32_four)
  then have "WriteSubjectList ids w = w @ [a, b, c, d, 1, of_nat (length ids)] @ id_bytes (map (\<lambda>v. v AND 0x1FFF) ids)"
    unfolding e U8_def by simp
  then show ?thesis by blast
qed

lemma fold_U8: "fold (\<lambda>b. U8 (f b)) bs w = w @ map f bs"
  by (induction bs arbitrary: w) (auto simp: U8_def)

lemma WriteServiceList_bytes: "\<exists>a b c d. WriteServiceList sids w = w @ [a, b, c, d] @ map (service_bits sids) [0..<64]"
proof -
  obtain a b c d where "U32 64 w = w @ [a, b, c, d]" by (rule U32_four)
  then show ?thesis unfolding WriteServiceList_def fold_U8 by (simp del: upt_Suc) 
qed

text \<open>A reader of the message: identifiers of a list, and the numbers of the bits of a mask.\<close>

fun read_ids :: "nat \<Rightarrow> u8 list \<Rightarrow> u16 list" where
  "read_ids (Suc k) (lo # hi # bytes) = (ucast lo OR push_bit 8 (ucast hi)) # read_ids k bytes"
| "read_ids _ _ = []"

definition read_subjects :: "u8 list \<Rightarrow> (u16 list \<times> u8 list) option" where
  "read_subjects bytes = (if length bytes < 6 \<or> bytes ! 4 \<noteq> 1 \<or> length bytes < 6 + 2 * unat (bytes ! 5) then None
     else Some (read_ids (unat (bytes ! 5)) (drop 6 bytes), drop (2 * unat (bytes ! 5)) (drop 6 bytes)))"

definition read_services :: "u8 list \<Rightarrow> (nat list \<times> u8 list) option" where
  "read_services bytes = (if length bytes < 68 then None
     else Some (filter (\<lambda>i. bit (bytes ! (4 + i div 8)) (i mod 8)) [0..<512], drop 68 bytes))"

definition read_port_list :: "u8 list \<Rightarrow> (u16 list \<times> u16 list \<times> nat list \<times> nat list) option" where
  "read_port_list bytes = do {
     (publishers, bytes) \<leftarrow> read_subjects bytes;
     (subscribers, bytes) \<leftarrow> read_subjects bytes;
     (clients, bytes) \<leftarrow> read_services bytes;
     (servers, bytes) \<leftarrow> read_services bytes;
     if bytes = [] then Some (publishers, subscribers, clients, servers) else None }"

lemma id_bytes_length [simp]: "length (id_bytes vs) = 2 * length vs"
  by (induction vs) auto

lemma ucast_join: "ucast (ucast (v AND 0xFF) :: u8) OR push_bit 8 (ucast (ucast (drop_bit 8 v) :: u8)) = (v :: u16)"
  using port_of_bytes [of v] by (simp add: and_byte)

lemma read_ids_bytes: "read_ids (length vs) (id_bytes vs @ rest) = vs"
  by (induction vs) (auto simp: ucast_join)

lemma read_subjects_bytes: "length vs \<le> 255 \<Longrightarrow> read_subjects ([a, b, c, d, 1, of_nat (length vs)] @ id_bytes vs @ rest) = Some (vs, rest)"
  by (simp add: read_subjects_def unat_byte read_ids_bytes)

lemma service_bits_bit: "k < 8 \<Longrightarrow> bit (service_bits sids byte) k \<longleftrightarrow> (\<exists>s \<in> set sids. unat s = 8 * byte + k)"
proof -
  assume k: "k < 8"
  have g: "bit (fold (\<lambda>service bits. if unat (service div 8) = byte then bits OR push_bit (unat (service mod 8)) 1 else bits) sids b) k
      \<longleftrightarrow> bit b k \<or> (\<exists>s \<in> set sids. unat s = 8 * byte + k)" for b :: u8
  proof (induction sids arbitrary: b)
    case (Cons s sids)
    have u: "unat (s div 8) = unat s div 8" "unat (s mod 8) = unat s mod 8" by (simp_all add: unat_div unat_mod)
    have e: "unat s = 8 * byte + k \<longleftrightarrow> unat s div 8 = byte \<and> unat s mod 8 = k" using k by auto
    have p: "bit (2 ^ j :: u8) k \<longleftrightarrow> j = k" for j using k by (auto simp: bit_exp_iff)
    show ?case by (auto simp: Cons u e bit_or_iff p)
  qed simp
  show ?thesis by (simp add: service_bits_def g)
qed

lemma read_services_bytes: "read_services ([a, b, c, d] @ map (service_bits sids) [0..<64] @ rest) =
   Some (filter (\<lambda>i. i \<in> unat ` set sids) [0..<512], rest)"
proof -
  have "bit (([a, b, c, d] @ map (service_bits sids) [0..<64] @ rest) ! (4 + i div 8)) (i mod 8) \<longleftrightarrow> i \<in> unat ` set sids" if "i < 512" for i
  proof -
    have "([a, b, c, d] @ map (service_bits sids) [0..<64] @ rest) ! (4 + i div 8) = service_bits sids (i div 8)"
      using that div_less_iff_less_mult [of 8 i 64] by (simp add: nth_append nth_Cons')
    then show ?thesis using service_bits_bit [of "i mod 8" sids "i div 8"] by (auto simp: image_iff)
  qed
  then have "filter (\<lambda>i. bit (([a, b, c, d] @ map (service_bits sids) [0..<64] @ rest) ! (4 + i div 8)) (i mod 8)) [0..<512]
      = filter (\<lambda>i. i \<in> unat ` set sids) [0..<512]" by (intro filter_cong) (simp_all only: set_upt atLeastLessThan_iff)
  moreover have "drop 68 ([a, b, c, d] @ map (service_bits sids) [0..<64] @ rest) = rest" by simp
  moreover have "\<not> length ([a, b, c, d] @ map (service_bits sids) [0..<64] @ rest) < 68" by simp
  ultimately show ?thesis unfolding read_services_def by simp
qed

section \<open>The tables\<close>

definition servers_ok :: "CyphalNode \<Rightarrow> bool" where
  "servers_ok n \<longleftrightarrow> distinct (kServedServices @ map fst (cn_servers n)) \<and> (\<forall>s \<in> set (cn_servers n). fst s \<le> kMaxServiceId)"

definition tables_ok :: "CyphalNode \<Rightarrow> bool" where
  "tables_ok n \<longleftrightarrow> length (cn_providers n) \<le> kMaxRegisterProviders \<and> length (cn_listeners n) \<le> kMaxListeners
     \<and> length (cn_published_subjects n) \<le> kMaxPublishers \<and> length (cn_servers n) \<le> kMaxServers
     \<and> servers_ok n
     \<and> kUnsetPortId \<notin> fst ` set (cn_listeners n) \<and> kUnsetPortId \<notin> set (cn_published_subjects n)"

text \<open>The operations of a node.\<close>

datatype node_op = NoProvider nat | NoSubscribe u16 nat nat | NoServer u16 nat nat | NoPublisher Publisher | NoStart u8 u64 | NoSpin u64
  | NoLog Severity "u8 list"

fun run_node_op :: "'w NodeEnv \<Rightarrow> node_op \<Rightarrow> CyphalNode \<times> 'w \<Rightarrow> (CyphalNode \<times> 'w) option" where
  "run_node_op env (NoProvider p) (n, w) = Some (snd (AddRegisterProvider p n), w)"
| "run_node_op env (NoSubscribe s e l) (n, w) = Some (snd (cn_Subscribe env s e l (n, w)))"
| "run_node_op env (NoServer s e h) (n, w) = Some (snd (AddServer env s e h (n, w)))"
| "run_node_op env (NoPublisher p) (n, w) = Some (snd (AddPublisher p n), w)"
| "run_node_op env (NoStart i t) (n, w) = Some (snd (Start env i t (n, w)))"
| "run_node_op env (NoSpin t) (n, w) = Spin env t (n, w)"
| "run_node_op env (NoLog s text) (n, w) = Some (snd (Log env s text (n, w)))"

fun node_run :: "'w NodeEnv \<Rightarrow> node_op list \<Rightarrow> CyphalNode \<times> 'w \<Rightarrow> (CyphalNode \<times> 'w) option" where
  "node_run env [] s = Some s"
| "node_run env (op # ops) s = Option.bind (run_node_op env op s) (node_run env ops)"

text \<open>What an operation does not touch.\<close>

definition same_tables :: "CyphalNode \<Rightarrow> CyphalNode \<Rightarrow> bool" where
  "same_tables n m \<longleftrightarrow> cn_providers m = cn_providers n \<and> cn_listeners m = cn_listeners n \<and> cn_servers m = cn_servers n
     \<and> cn_published_subjects m = cn_published_subjects n \<and> cn_info m = cn_info n"

lemma same_tables_refl [simp]: "same_tables n n"
  by (simp add: same_tables_def)

lemma same_tables_trans: "same_tables a b \<Longrightarrow> same_tables b c \<Longrightarrow> same_tables a c"
  by (simp add: same_tables_def)

lemma Dispatch_tables: "same_tables n (fst (Dispatch env t now (n, w)))"
  by (auto simp: Dispatch_def HandleAllocation_def same_tables_def Let_def split: option.splits)

lemma receive_transfers_tables: "same_tables (fst s) (fst (receive_transfers env now k s))"
proof (induction k arbitrary: s)
  case 0
  show ?case by (cases s) simp
next
  case (Suc k)
  obtain n w where s: "s = (n, w)" by fastforce
  obtain r t w' where t: "tp_receive env kTxBufferSize w = (r, t, w')" by (rule prod_cases3)
  have "same_tables n (fst (receive_transfers env now k (Dispatch env t now (n, w'))))"
    by (rule same_tables_trans [OF Dispatch_tables Suc])
  then show ?case by (simp add: s t)
qed

lemma spin_due_tables: "same_tables n (fst (spin_due env now (n, w)))"
proof -
  have h: "same_tables n (fst (spin_heartbeat env now (n, w)))" for n w
    by (auto simp: spin_heartbeat_def PublishHeartbeat_def same_tables_def Let_def split: option.splits prod.splits)
  have p: "same_tables n (fst (spin_port_list env now (n, w)))" for n w
    by (auto simp: spin_port_list_def PublishPortList_def same_tables_def Let_def split: option.splits prod.splits)
  have r: "same_tables n (fst (RequestNodeId env now (n, w)))"
    by (auto simp: RequestNodeId_def same_tables_def Let_def split: option.splits prod.splits)
  obtain n' w' where s: "spin_heartbeat env now (n, w) = (n', w')" by fastforce
  show ?thesis using r h [of n w] p [of n' w'] same_tables_trans [of n n'] by (simp add: spin_due_def s)
qed

lemma Spin_tables:
  assumes "Spin env now (n, w) = Some (m, w')"
  shows "same_tables n m"
proof -
  obtain w1 where "tp_process env now w = Some w1" using assms by (auto simp: Spin_def split: bind_split_asm)
  moreover obtain n2 w2 where r: "receive_transfers env now kMaxTransfersPerSpin (n, w1) = (n2, w2)" by fastforce
  moreover obtain n3 w3 where d: "spin_due env now (n2, w2) = (n3, w3)" by fastforce
  ultimately have "m = n \<or> m = n3" using assms by (auto simp: Spin_def split: bind_split_asm if_splits)
  moreover have "same_tables n n3"
    using receive_transfers_tables [of "(n, w1)" env now kMaxTransfersPerSpin] spin_due_tables [of n2 env now w2] same_tables_trans [of n n2 n3]
    by (simp add: r d)
  ultimately show ?thesis by auto
qed

lemma servers_ok_same: "cn_servers m = cn_servers n \<Longrightarrow> servers_ok m = servers_ok n"
  by (simp add: servers_ok_def)

lemma servers_ok_frame [simp]:
  "servers_ok (n\<lparr>cn_providers := x\<rparr>) = servers_ok n" "servers_ok (n\<lparr>cn_listeners := y\<rparr>) = servers_ok n"
  "servers_ok (n\<lparr>cn_published_subjects := z\<rparr>) = servers_ok n"
  by (simp_all add: servers_ok_def)

lemma servers_ok_add: "servers_ok n \<Longrightarrow> s \<notin> set kServedServices \<Longrightarrow> s \<notin> fst ` set (cn_servers n) \<Longrightarrow> s \<le> kMaxServiceId \<Longrightarrow>
    servers_ok (n\<lparr>cn_servers := cn_servers n @ [(s, h)]\<rparr>)"
  by (auto simp: servers_ok_def)

lemma tables_ok_same: "same_tables n m \<Longrightarrow> tables_ok n \<Longrightarrow> tables_ok m"
  using servers_ok_same [of m n] by (simp add: same_tables_def tables_ok_def)

lemma run_node_op_tables:
  assumes "run_node_op env op (n, w) = Some (m, w')" "tables_ok n"
  shows "tables_ok m"
proof (cases op)
  case (NoSubscribe s e l)
  then show ?thesis using assms by (auto simp: cn_Subscribe_def tables_ok_def Let_def split: if_splits prod.splits)
next
  case (NoServer s e h)
  then show ?thesis using assms by (auto simp: AddServer_def tables_ok_def servers_ok_add Let_def not_less split: if_splits prod.splits)
next
  case (NoStart i t)
  have "same_tables n m" using assms NoStart by (auto simp: Start_def same_tables_def Let_def split: if_splits prod.splits)
  then show ?thesis using tables_ok_same assms(2) by blast
next
  case (NoSpin t)
  then have "same_tables n m" using Spin_tables [of env t n w m w'] assms by simp
  then show ?thesis using tables_ok_same assms(2) by blast
next
  case (NoLog s t)
  have "same_tables n m" using assms NoLog by (auto simp: Log_def same_tables_def Let_def split: if_splits prod.splits option.splits)
  then show ?thesis using tables_ok_same assms(2) by blast
qed (use assms in \<open>auto simp: AddRegisterProvider_def AddPublisher_def tables_ok_def split: if_splits\<close>)

lemma node_run_tables: "node_run env ops (n, w) = Some (m, w') \<Longrightarrow> tables_ok n \<Longrightarrow> tables_ok m"
proof (induction ops arbitrary: n w)
  case (Cons op ops)
  obtain n1 w1 where o: "run_node_op env op (n, w) = Some (n1, w1)" and r: "node_run env ops (n1, w1) = Some (m, w')"
    using Cons.prems(1) by (cases "run_node_op env op (n, w)") auto
  show ?case by (rule Cons.IH [OF r run_node_op_tables [OF o Cons.prems(2)]])
qed simp

lemma tables_ok_init: "tables_ok CyphalNode_init"
  by (simp add: tables_ok_def servers_ok_def CyphalNode_init_def kServedServices_def fixed_ports)

section \<open>Properties of the tables\<close>

text \<open>
  C32. Whatever operations a node goes through, on any transport, the port list fits into the transmit buffer, and a reader of its bytes
  finds exactly the published subjects, the subscribed subjects, no client and the served services.
\<close>
theorem port_list_round_trip:
  assumes "node_run env ops (CyphalNode_init, w) = Some (n, w')"
  shows "Fits (port_list_bytes n) \<and> read_port_list (port_list_bytes n) = Some (
      map (\<lambda>v. v AND 0x1FFF) ([kHeartbeat, kPortList, kDiagnosticRecord] @ cn_published_subjects n),
      map (\<lambda>v. v AND 0x1FFF) (map fst (cn_listeners n)), [],
      filter (\<lambda>i. i \<in> unat ` set (kServedServices @ map fst (cn_servers n))) [0..<512])"
proof -
  have ok: "tables_ok n" by (rule node_run_tables [OF assms tables_ok_init])
  define ps where "ps = [kHeartbeat, kPortList, kDiagnosticRecord] @ cn_published_subjects n"
  define ls where "ls = map fst (cn_listeners n)"
  define ss where "ss = kServedServices @ map fst (cn_servers n)"
  define m where "m = (\<lambda>v :: u16. v AND 0x1FFF)"
  have len: "length ps \<le> 11" "length ls \<le> 12" using ok by (simp_all add: ps_def ls_def tables_ok_def kMaxPublishers_def kMaxListeners_def)
  define w1 where "w1 = WriteSubjectList ps []"
  define w2 where "w2 = WriteSubjectList ls w1"
  define w3 where "w3 = WriteServiceList [] w2"
  have n: "port_list_bytes n = WriteServiceList ss w3" by (simp add: port_list_bytes_def ps_def ls_def ss_def w1_def w2_def w3_def)
  obtain a b c d where w1: "w1 = [a, b, c, d, 1, of_nat (length (map m ps))] @ id_bytes (map m ps)"
    using WriteSubjectList_bytes [of ps "[]"] len by (auto simp: m_def w1_def)
  obtain a' b' c' d' where w2: "w2 = w1 @ [a', b', c', d', 1, of_nat (length (map m ls))] @ id_bytes (map m ls)"
    using WriteSubjectList_bytes [of ls w1] len by (auto simp: m_def w2_def)
  obtain e f g h where w3: "w3 = w2 @ [e, f, g, h] @ map (service_bits []) [0..<64]"
    using WriteServiceList_bytes [of "[]" w2] by (auto simp: w3_def)
  obtain e' f' g' h' where w4: "port_list_bytes n = w3 @ [e', f', g', h'] @ map (service_bits ss) [0..<64]"
    using WriteServiceList_bytes [of ss w3] by (auto simp: n)
  have bytes: "port_list_bytes n = [a, b, c, d, 1, of_nat (length (map m ps))] @ id_bytes (map m ps)
      @ [a', b', c', d', 1, of_nat (length (map m ls))] @ id_bytes (map m ls)
      @ [e, f, g, h] @ map (service_bits []) [0..<64] @ [e', f', g', h'] @ map (service_bits ss) [0..<64] @ []"
    by (simp only: w4 w3 w2 w1 append_assoc append_Nil2)
  have fits: "Fits (port_list_bytes n)" using len unfolding Fits_def bytes by (simp add: kTxBufferSize_def)
  have "length (map m ps) \<le> 255" "length (map m ls) \<le> 255" using len by simp_all
  then have "read_port_list (port_list_bytes n) = Some (map m ps, map m ls, filter (\<lambda>i. i \<in> unat ` set ([] :: u16 list)) [0..<512], filter (\<lambda>i. i \<in> unat ` set ss) [0..<512])"
    unfolding read_port_list_def bytes by (simp only: read_subjects_bytes read_services_bytes Option.bind.simps prod.case simp_thms if_True)
  then show ?thesis using fits by (simp add: ps_def ls_def ss_def m_def)
qed

text \<open>
  Every operation keeps the tables within their capacities, the services distinct from each other and from the ones the node serves
  itself, all of them in range, and no unset port in a table.
\<close>
theorem node_tables_invariant:
  assumes "node_run env ops (CyphalNode_init, w) = Some (n, w')"
  shows "tables_ok n"
  by (rule node_run_tables [OF assms tables_ok_init])

theorem port_list_round_trip_witness:
  "Fits (port_list_bytes (snd (AddPublisher \<lparr>pb_port_id = 1024, pb_priority = PrNominal, pb_next_transfer_id = 0\<rparr> CyphalNode_init)))"
proof -
  define p where "p = \<lparr>pb_port_id = 1024, pb_priority = PrNominal, pb_next_transfer_id = 0\<rparr>"
  have "node_run undefined [NoPublisher p] (CyphalNode_init, ()) = Some (snd (AddPublisher p CyphalNode_init), ())" by simp
  from port_list_round_trip [OF this] show ?thesis by (simp add: p_def)
qed

theorem node_tables_invariant_witness:
  "tables_ok (snd (AddRegisterProvider 0 (snd (AddPublisher \<lparr>pb_port_id = 65535, pb_priority = PrNominal, pb_next_transfer_id = 0\<rparr> CyphalNode_init))))"
proof -
  define p where "p = \<lparr>pb_port_id = 65535, pb_priority = PrNominal, pb_next_transfer_id = 0\<rparr>"
  have "node_run undefined [NoPublisher p, NoProvider 0] (CyphalNode_init, ()) = Some (snd (AddRegisterProvider 0 (snd (AddPublisher p CyphalNode_init))), ())" by simp
  from node_tables_invariant [OF this] show ?thesis by (simp add: p_def)
qed

section \<open>The node and its transport\<close>

text \<open>An environment over libcanard: the transport is the model's, the callbacks and codecs are those of \<open>app\<close>, which does not see the transport.\<close>

definition over_canard :: "'c Libcanard \<Rightarrow> 'm CanMedia \<Rightarrow> 'a NodeEnv \<Rightarrow> (('c, 'm) CanardTransport \<times> 'a) NodeEnv" where
  "over_canard lib media app = \<lparr>
     tp_send = \<lambda>t (c, a). (let (r, c) = ct_Send (documented lib) t c in (r, c, a)),
     tp_receive = \<lambda>k (c, a). (let (r, t, c) = ct_Receive (documented lib) media k c in (r, t, c, a)),
     tp_subscribe = \<lambda>k p e (c, a). (let (r, c) = ct_Subscribe (documented lib) k p e c in (r, c, a)),
     tp_set_node_id = \<lambda>i (c, a). (SetLocalNodeId (documented lib) i c, a),
     tp_node_id = \<lambda>(c, a). LocalNodeId c,
     tp_process = \<lambda>now (c, a). map_option (\<lambda>c. (c, a)) (ct_Process (documented lib) media now c),
     cb_on_message = \<lambda>l t now (c, a). (c, cb_on_message app l t now a),
     cb_on_command = \<lambda>k p (c, a). (let (r, a) = cb_on_command app k p a in (r, c, a)),
     cb_on_node_id_allocated = \<lambda>i (c, a). (c, cb_on_node_id_allocated app i a),
     cb_on_request = \<lambda>h t (c, a). (let (r, a) = cb_on_request app h t a in (r, c, a)),
     cb_count = \<lambda>p (c, a). cb_count app p a, cb_name = \<lambda>p i (c, a). cb_name app p i a,
     cb_read = \<lambda>p i v (c, a). cb_read app p i v a,
     cb_write = \<lambda>p i v (c, a). (let (r, a) = cb_write app p i v a in (r, c, a)),
     cd_request_extent = cd_request_extent app, cd_name_capacity = cd_name_capacity app, cd_text_capacity = cd_text_capacity app,
     cd_get_info = cd_get_info app, cd_list_request = cd_list_request app, cd_list_response = cd_list_response app,
     cd_access_request = cd_access_request app, cd_access_response = cd_access_response app,
     cd_command_request = cd_command_request app, cd_command_response = cd_command_response app, cd_allocation = cd_allocation app,
     cd_allocation_data = cd_allocation_data app, cd_heartbeat = cd_heartbeat app, cd_record = cd_record app\<rparr>"

locale node_env = transport "tp_send env" "tp_receive env" "tp_subscribe env" "tp_set_node_id env" "tp_node_id env" "tp_process env"
  for env :: "'w NodeEnv" +
  assumes id_message: "tp_node_id env (cb_on_message env l t now w) = tp_node_id env w"
    and id_command: "tp_node_id env (snd (cb_on_command env c p w)) = tp_node_id env w"
    and id_allocated: "tp_node_id env (cb_on_node_id_allocated env i w) = tp_node_id env w"
    and id_request: "tp_node_id env (snd (cb_on_request env h t w)) = tp_node_id env w"
    and id_write: "tp_node_id env (snd (cb_write env q j v w)) = tp_node_id env w"
begin

lemmas id_laws = node_id_send node_id_receive node_id_subscribe id_message id_command id_allocated id_request id_write

lemma respond_with_id: "tp_node_id env (respond_with env t r w) = tp_node_id env w"
  by (simp add: respond_with_def Respond_def node_id_send split: option.split)

lemma access_register_id: "tp_node_id env (snd (access_register env name v n w)) = tp_node_id env w"
  by (auto simp: access_register_def Let_def id_write split: option.split)

lemma handlers_id:
  "tp_node_id env (HandleGetInfo env t n w) = tp_node_id env w"
  "tp_node_id env (HandleRegisterList env t n w) = tp_node_id env w"
  "tp_node_id env (HandleRegisterAccess env t n w) = tp_node_id env w"
  "tp_node_id env (HandleExecuteCommand env t n w) = tp_node_id env w"
  "tp_node_id env (HandleApplicationRequest env t n w) = tp_node_id env w"
proof -
  show "tp_node_id env (HandleGetInfo env t n w) = tp_node_id env w" by (simp add: HandleGetInfo_def Let_def respond_with_id)
  show "tp_node_id env (HandleRegisterList env t n w) = tp_node_id env w"
    by (simp add: HandleRegisterList_def respond_with_id split: option.split)
  show "tp_node_id env (HandleRegisterAccess env t n w) = tp_node_id env w"
    using access_register_id by (auto simp: HandleRegisterAccess_def respond_with_id split: option.split prod.split) (metis snd_conv)
  show "tp_node_id env (HandleExecuteCommand env t n w) = tp_node_id env w"
    using id_command by (auto simp: HandleExecuteCommand_def Let_def respond_with_id split: option.split prod.split) (metis snd_conv)
  show "tp_node_id env (HandleApplicationRequest env t n w) = tp_node_id env w"
    using id_request [of _ t w] by (auto simp: HandleApplicationRequest_def Respond_def node_id_send split: option.split prod.split) (metis snd_conv)+
qed

lemma deliver_id: "tp_node_id env (deliver env t now ls w) = tp_node_id env w"
proof (induction ls arbitrary: w)
  case (Cons l ls)
  then show ?case by (cases l) (simp add: id_message)
qed simp

text \<open>A node with a node-ID keeps it, and no transfer it receives changes the node itself.\<close>

lemma Dispatch_named:
  assumes "tp_node_id env w \<noteq> kNodeIdUnset"
  shows "fst (Dispatch env t now (n, w)) = n" "tp_node_id env (snd (Dispatch env t now (n, w))) = tp_node_id env w"
  using assms by (auto simp: Dispatch_def HandleAllocation_def handlers_id deliver_id)

lemma receive_transfers_named:
  "tp_node_id env w \<noteq> kNodeIdUnset \<Longrightarrow> fst (receive_transfers env now k (n, w)) = n
    \<and> tp_node_id env (snd (receive_transfers env now k (n, w))) = tp_node_id env w"
proof (induction k arbitrary: w)
  case (Suc k)
  obtain r t w' where t: "tp_receive env kTxBufferSize w = (r, t, w')" by (rule prod_cases3)
  have w': "tp_node_id env w' = tp_node_id env w" using node_id_receive [of kTxBufferSize w] by (simp add: t)
  obtain w'' where d: "Dispatch env t now (n, w') = (n, w'')" "tp_node_id env w'' = tp_node_id env w"
    using Dispatch_named [of w' t now n] Suc.prems w' by (metis prod.collapse)
  show ?case using Suc.IH [of w''] Suc.prems d w' by (simp add: t)
qed simp

lemma PublishInternal_id: "PublishInternal env p b w = (s, p', w') \<Longrightarrow> tp_node_id env w' = tp_node_id env w \<and> p' = next_message p"
  using node_id_send by (auto simp: PublishInternal_def split: prod.splits) (metis snd_conv)

lemma due_named:
  assumes "tp_node_id env w \<noteq> kNodeIdUnset"
  shows "tp_node_id env (snd (spin_due env now (n, w))) = tp_node_id env w"
proof -
  have h: "tp_node_id env (snd (spin_heartbeat env now (n, w))) = tp_node_id env w"
    using PublishInternal_id by (auto simp: spin_heartbeat_def PublishHeartbeat_def Let_def split: option.splits prod.splits)
  have p: "tp_node_id env (snd (spin_port_list env now (n, w))) = tp_node_id env w" for n w
    using PublishInternal_id by (auto simp: spin_port_list_def PublishPortList_def Let_def split: prod.splits)
  obtain n' w' where s: "spin_heartbeat env now (n, w) = (n', w')" by fastforce
  show ?thesis using assms h p [of n' w'] by (simp add: spin_due_def s)
qed

lemma Spin_named:
  assumes "Spin env now (n, w) = Some (n', w')" "tp_node_id env w \<noteq> kNodeIdUnset"
  shows "tp_node_id env w' = tp_node_id env w"
    "cn_started n \<Longrightarrow> \<exists>w''. tp_node_id env w'' = tp_node_id env w \<and> n' = fst (spin_due env now (n, w''))"
proof -
  obtain w1 where p: "tp_process env now w = Some w1" using assms(1) by (auto simp: Spin_def split: bind_split_asm)
  have w1: "tp_node_id env w1 = tp_node_id env w" by (rule node_id_process [OF p])
  obtain w2 where r: "receive_transfers env now kMaxTransfersPerSpin (n, w1) = (n, w2)" and w2: "tp_node_id env w2 = tp_node_id env w"
    using receive_transfers_named [of w1 now kMaxTransfersPerSpin n] assms(2) w1 by (metis prod.collapse)
  obtain n3 w3 where d: "spin_due env now (n, w2) = (n3, w3)" by fastforce
  have w3: "tp_node_id env w3 = tp_node_id env w" using due_named [of w2 now n] assms(2) w2 by (simp add: d)
  have c: "if cn_started n then n' = n3 \<and> tp_process env now w3 = Some w' else n' = n \<and> w' = w1"
    using assms(1) by (auto simp: Spin_def p r d split: bind_split_asm)
  show "tp_node_id env w' = tp_node_id env w" using c w1 w3 node_id_process [of now w3 w'] by (auto split: if_splits)
  show "\<exists>w''. tp_node_id env w'' = tp_node_id env w \<and> n' = fst (spin_due env now (n, w''))" if "cn_started n"
    using c that w2 d by (intro exI [of _ w2]) simp
qed

text \<open>The schedule of the heartbeat.\<close>

lemma heartbeat_due:
  fixes n w
  assumes "tp_node_id env w \<noteq> kNodeIdUnset" "uint now + 1000000 < 2 ^ 64"
  defines "n' \<equiv> fst (spin_due env now (n, w))"
  shows "now < cn_next_heartbeat_us n'"
    "now < cn_next_heartbeat_us n \<Longrightarrow> cn_next_heartbeat_us n' = cn_next_heartbeat_us n \<and> cn_heartbeat n' = cn_heartbeat n"
    "cn_next_heartbeat_us n \<le> now \<Longrightarrow> now < cn_next_heartbeat_us n + kHeartbeatPeriodUs \<Longrightarrow> cn_next_heartbeat_us n' = cn_next_heartbeat_us n + kHeartbeatPeriodUs"
    "cn_next_heartbeat_us n \<le> now \<Longrightarrow> uint (cn_next_heartbeat_us n') \<le> uint now + 1000000"
    "cn_next_heartbeat_us n \<le> now \<Longrightarrow> (\<And>h. cd_heartbeat env h \<noteq> None) \<Longrightarrow> cn_heartbeat n' = next_message (cn_heartbeat n)"
proof -
  obtain m w1 where s: "spin_heartbeat env now (n, w) = (m, w1)" by fastforce
  have n': "cn_next_heartbeat_us n' = cn_next_heartbeat_us m" "cn_heartbeat n' = cn_heartbeat m"
    using assms(1) by (auto simp: n'_def spin_due_def s spin_port_list_def PublishPortList_def Let_def split: prod.splits)
  define x where "x = cn_next_heartbeat_us n"
  have m: "cn_next_heartbeat_us m = (if x \<le> now then if x + kHeartbeatPeriodUs \<le> now then now + kHeartbeatPeriodUs else x + kHeartbeatPeriodUs else x)"
    using s by (auto simp: spin_heartbeat_def PublishHeartbeat_def x_def Let_def split: option.splits prod.splits if_splits)
  have period: "uint (x + kHeartbeatPeriodUs) = uint x + 1000000" if "x \<le> now" for x
  proof -
    have "uint x + uint kHeartbeatPeriodUs < 2 ^ 64" using that assms(2) by (simp add: word_le_def kHeartbeatPeriodUs_def)
    then have "uint (x + kHeartbeatPeriodUs) = uint x + uint kHeartbeatPeriodUs" using uint_add_lem [of x kHeartbeatPeriodUs] by simp
    then show ?thesis by (simp add: kHeartbeatPeriodUs_def)
  qed
  have later: "uint (now + kHeartbeatPeriodUs) = uint now + 1000000" using period [of now] by simp
  then have after: "now < now + kHeartbeatPeriodUs" by (simp only: word_less_def)
  show "now < cn_next_heartbeat_us n'" using after unfolding n' m by (simp only: not_le split: if_split) blast
  show "uint (cn_next_heartbeat_us n') \<le> uint now + 1000000" if "cn_next_heartbeat_us n \<le> now"
  proof -
    have le: "x \<le> now" using that by (simp only: x_def)
    have "uint (x + kHeartbeatPeriodUs) \<le> uint now + 1000000"
      unfolding period [OF le] using le by (simp only: word_le_def add_le_cancel_right)
    then show ?thesis using le later unfolding n' m by (cases "x + kHeartbeatPeriodUs \<le> now") (simp_all only: if_True if_False order_refl)
  qed
  show "cn_next_heartbeat_us n' = cn_next_heartbeat_us n \<and> cn_heartbeat n' = cn_heartbeat n" if "now < cn_next_heartbeat_us n"
  proof -
    have "\<not> cn_next_heartbeat_us n \<le> now" using that by (simp only: not_le)
    then have "m = n" using s by (simp add: spin_heartbeat_def)
    then show ?thesis using n' by simp
  qed
  show "cn_next_heartbeat_us n' = cn_next_heartbeat_us n + kHeartbeatPeriodUs" if "cn_next_heartbeat_us n \<le> now" "now < cn_next_heartbeat_us n + kHeartbeatPeriodUs"
  proof -
    have "\<not> x + kHeartbeatPeriodUs \<le> now" using that(2) by (simp only: x_def not_le)
    then show ?thesis using that(1) unfolding n' m by (simp only: x_def [symmetric] if_True if_False)
  qed
  show "cn_heartbeat n' = next_message (cn_heartbeat n)" if le: "cn_next_heartbeat_us n \<le> now" and some: "\<And>h. cd_heartbeat env h \<noteq> None"
  proof -
    obtain b where b: "cd_heartbeat env \<lparr>hb_uptime = UptimeSeconds now n, hb_health = health_value (cn_health n), hb_mode = mode_value (cn_mode n),
      hb_vendor_status = cn_vendor_status n\<rparr> = Some b" using some by fast
    then show ?thesis using s le PublishInternal_id
      by (auto simp: n' spin_heartbeat_def PublishHeartbeat_def Let_def split: prod.splits if_splits)
  qed
qed

lemma HandleAllocation_id:
  "tp_node_id env (snd (HandleAllocation env t (n, w))) = (if tp_node_id env w = kNodeIdUnset \<and> tf_source_node_id t \<noteq> kNodeIdUnset
     then (case cd_allocation_data env (tf_payload t) of None \<Rightarrow> kNodeIdUnset | Some r \<Rightarrow>
       if length (al_allocated r) = 1 \<and> al_unique_id_hash r = UniqueIdHash n \<and> hd (al_allocated r) \<le> 127 then ucast (hd (al_allocated r)) else kNodeIdUnset)
     else tp_node_id env w)"
proof -
  have "(ucast x :: u8) \<le> kNodeIdMax" if "x \<le> 127" for x :: u16
    using that by (simp add: kNodeIdMax_def word_le_nat_alt unsigned_ucast_eq take_bit_nat_eq_self)
  then show ?thesis by (auto simp: HandleAllocation_def Let_def id_allocated node_id_set kNodeIdMax_def not_le split: option.split)
qed

end

lemma node_id_results:
  "ct_Send lib t c = (r, c') \<Longrightarrow> LocalNodeId c' = LocalNodeId c"
  "ct_Receive lib media k c = (rr, tr, c') \<Longrightarrow> LocalNodeId c' = LocalNodeId c"
  "ct_Subscribe lib kind port extent c = (r, c') \<Longrightarrow> LocalNodeId c' = LocalNodeId c"
  using node_id_laws(3) [of lib t c] node_id_laws(4) [of lib media k c] node_id_laws(5) [of lib kind port extent c] by simp_all

interpretation bus: node_env "over_canard lib media app"
proof unfold_locales
qed (auto simp: over_canard_def node_id_laws dest: node_id_results split: prod.splits)

section \<open>Properties on the bus\<close>

text \<open>
  A node over the transport takes a node-ID from exactly one kind of message: while it has none, an allocation of a named node with one
  identifier of at most 127 for the hash of its own unique-ID. Every other message leaves its node-ID as it is.
\<close>
theorem allocation_adopts:
  "tp_node_id (over_canard lib media app) (snd (HandleAllocation (over_canard lib media app) t (n, w)))
    = (if tp_node_id (over_canard lib media app) w = kNodeIdUnset \<and> tf_source_node_id t \<noteq> kNodeIdUnset
     then (case cd_allocation_data app (tf_payload t) of None \<Rightarrow> kNodeIdUnset | Some r \<Rightarrow>
       if length (al_allocated r) = 1 \<and> al_unique_id_hash r = UniqueIdHash n \<and> hd (al_allocated r) \<le> 127 then ucast (hd (al_allocated r)) else kNodeIdUnset)
     else tp_node_id (over_canard lib media app) w)"
proof -
  have "cd_allocation_data (over_canard lib media app) = cd_allocation_data app" by (simp add: over_canard_def)
  then show ?thesis by (simp only: bus.HandleAllocation_id)
qed

text \<open>
  A named, started node keeps its node-ID in every spin and after it the next heartbeat lies in the future, at most a period away when
  one was due: a heartbeat that was not due is not sent, one that was due is sent once, and as long as the spins are less than a
  period late the heartbeats stay on the grid of the first one.
\<close>
theorem heartbeat_schedule:
  fixes n w
  defines "x \<equiv> cn_next_heartbeat_us n"
  assumes "Spin (over_canard lib media app) now (n, c, a) = Some (n', c', a')" "cn_started n" "LocalNodeId c \<noteq> kNodeIdUnset"
    and "uint now + 1000000 < 2 ^ 64" "\<And>h. cd_heartbeat app h \<noteq> None"
  shows "LocalNodeId c' = LocalNodeId c \<and> now < cn_next_heartbeat_us n'
    \<and> (if now < x then cn_next_heartbeat_us n' = x \<and> cn_heartbeat n' = cn_heartbeat n
       else uint (cn_next_heartbeat_us n') \<le> uint now + 1000000 \<and> cn_heartbeat n' = next_message (cn_heartbeat n)
         \<and> (now < x + kHeartbeatPeriodUs \<longrightarrow> cn_next_heartbeat_us n' = x + kHeartbeatPeriodUs))"
proof -
  have id: "tp_node_id (over_canard lib media app) (c, a) = LocalNodeId c" for c a by (simp add: over_canard_def)
  have h: "cd_heartbeat (over_canard lib media app) h \<noteq> None" for h using assms(6) by (simp add: over_canard_def)
  note s = bus.Spin_named [OF assms(2), unfolded id, OF assms(4)]
  obtain w where w: "tp_node_id (over_canard lib media app) w = LocalNodeId c" "n' = fst (spin_due (over_canard lib media app) now (n, w))"
    using s(2) assms(3) by blast
  note d = bus.heartbeat_due [where lib = lib and media = media and app = app and n = n and w = w and now = now, folded w(2), unfolded w(1), OF assms(4,5)]
  show ?thesis using s(1) d h by (auto simp: x_def not_less)
qed

text \<open>
  An anonymous node is silent: it answers no request, whatever its port, and publishes and logs nothing.
\<close>
theorem anonymous_silent:
  assumes "LocalNodeId c = kNodeIdUnset"
  shows "(tf_kind t = TkServiceRequest \<longrightarrow> Dispatch (over_canard lib media app) t now (n, c, a) = (n, c, a))
    \<and> Publish (over_canard lib media app) p b (c, a) = (False, p, c, a)
    \<and> Log (over_canard lib media app) sev text (n, c, a) = (False, n, c, a)"
  using assms by (simp add: Dispatch_def Publish_def Log_def over_canard_def)

lemma process_interfaces_returns:
  assumes "\<And>i. queue_laws lib i (contents i)"
  shows "process_interfaces lib media now is t \<noteq> None"
proof (induction "is" arbitrary: t)
  case (Cons i "is")
  have "\<exists>c'. process_queue lib media i now (ct_canard t, ct_interfaces t ! i, ct_tx_dropped t)
      = Some (c', snd (drain media now (contents i (ct_canard t)) (ct_interfaces t ! i, ct_tx_dropped t)))
    \<and> contents i c' = fst (drain media now (contents i (ct_canard t)) (ct_interfaces t ! i, ct_tx_dropped t))"
    by (rule process_queue_drained [OF assms])
  then have "process_interface lib media now i t \<noteq> None" by (auto simp: process_interface_def)
  then obtain t' where "process_interface lib media now i t = Some t'" by blast
  then show ?case using Cons [of t'] by simp
qed simp

lemma queue_laws_documented: "queue_laws (documented lib) i contents = queue_laws lib i contents"
  by (simp add: queue_laws_def documented_def)

lemma spin_returns_at:
  assumes "\<And>i. queue_laws lib i (contents i)"
  shows "\<exists>s'. Spin (over_canard lib media app) now (n, c, a) = Some s'"
proof -
  have p: "tp_process (over_canard lib media app) now w \<noteq> None" for w
    using process_interfaces_returns [of "documented lib" contents media now] assms
    by (cases w) (simp add: over_canard_def ct_Process_def queue_laws_documented)
  obtain w1 where w1: "tp_process (over_canard lib media app) now (c, a) = Some w1" using p by blast
  obtain n2 w2 where d: "spin_due (over_canard lib media app) now (receive_transfers (over_canard lib media app) now kMaxTransfersPerSpin (n, w1)) = (n2, w2)"
    by (rule prod.exhaust)
  obtain w3 where "tp_process (over_canard lib media app) now w2 = Some w3" using p by blast
  then show ?thesis by (simp add: Spin_def w1 d)
qed

text \<open>
  Over transmit queues as libcanard documents them every spin returns.
\<close>
theorem spin_returns:
  assumes "\<And>i. queue_laws lib i (contents i)"
  shows "\<exists>s'. Spin (over_canard lib media app) now (n, c, a) = Some s'"
  by (rule spin_returns_at [OF assms])

definition quiet_app :: "unit NodeEnv" where
  "quiet_app = \<lparr>tp_send = \<lambda>t w. (False, w), tp_receive = \<lambda>k w. (RrError, Transfer_init, w), tp_subscribe = \<lambda>k p e w. (False, w),
     tp_set_node_id = \<lambda>i w. w, tp_node_id = \<lambda>w. 0, tp_process = \<lambda>now w. Some w, cb_on_message = \<lambda>l t now w. w,
     cb_on_command = \<lambda>k p w. (\<lparr>cr_status = 0, cr_output = []\<rparr>, w), cb_on_node_id_allocated = \<lambda>i w. w,
     cb_on_request = \<lambda>h t w. ((None, []), w), cb_count = \<lambda>p w. 0, cb_name = \<lambda>p i w. [],
     cb_read = \<lambda>p i v w. (\<lparr>rf_mutable = False, rf_persistent = False\<rparr>, v), cb_write = \<lambda>p i v w. (RwReadOnly, w),
     cd_request_extent = \<lambda>p. 0, cd_name_capacity = 0, cd_text_capacity = 0, cd_get_info = \<lambda>x. None, cd_list_request = \<lambda>x. None,
     cd_list_response = \<lambda>x. None, cd_access_request = \<lambda>x. None, cd_access_response = \<lambda>x. None, cd_command_request = \<lambda>x. None,
     cd_command_response = \<lambda>x. None, cd_allocation = \<lambda>x. None, cd_allocation_data = \<lambda>x. None, cd_heartbeat = \<lambda>h. Some [0],
     cd_record = \<lambda>s t. None\<rparr>"

definition quiet_transport :: "u8 \<Rightarrow> (CanardTxQueueItem list, CanFrame list) CanardTransport" where
  "quiet_transport node_id = SetLocalNodeId list_canard node_id (CanardTransport_init list_canard False [] [])"

lemma list_canard_laws: "queue_laws list_canard i id"
  by (auto simp: queue_laws_def list_canard_def split: list.split)

theorem anonymous_silent_witness:
  "Publish (over_canard list_canard one_frame_media quiet_app) (cn_heartbeat CyphalNode_init) [1] (quiet_transport 255, ())
    = (False, cn_heartbeat CyphalNode_init, quiet_transport 255, ())"
proof -
  have "LocalNodeId (quiet_transport 255) = kNodeIdUnset" by code_simp
  then show ?thesis by (simp add: anonymous_silent)
qed

theorem spin_returns_witness:
  "\<exists>s'. Spin (over_canard list_canard one_frame_media quiet_app) 7 (CyphalNode_init, quiet_transport 5, ()) = Some s'"
  by (rule spin_returns [where contents = "\<lambda>i. id"]) (rule list_canard_laws)

theorem heartbeat_schedule_witness:
  "\<exists>n' c'. Spin (over_canard list_canard one_frame_media quiet_app) 1500000
      (CyphalNode_init\<lparr>cn_started := True, cn_next_heartbeat_us := 1000000\<rparr>, quiet_transport 5, ()) = Some (n', c', ())
    \<and> cn_next_heartbeat_us n' = 2000000 \<and> LocalNodeId c' = 5"
proof -
  define n where "n = CyphalNode_init\<lparr>cn_started := True, cn_next_heartbeat_us := 1000000\<rparr>"
  have "\<exists>s'. Spin (over_canard list_canard one_frame_media quiet_app) 1500000 (n, quiet_transport 5, ()) = Some s'"
    by (rule spin_returns_at [where contents = "\<lambda>i. id", OF list_canard_laws])
  then obtain n' c' where s: "Spin (over_canard list_canard one_frame_media quiet_app) 1500000 (n, quiet_transport 5, ()) = Some (n', c', ())"
    by auto
  have i: "LocalNodeId (quiet_transport 5) = 5" by code_simp
  have "cn_next_heartbeat_us n' = 2000000 \<and> LocalNodeId c' = 5"
    using heartbeat_schedule [OF s] i by (simp add: n_def quiet_app_def kNodeIdUnset_def kHeartbeatPeriodUs_def)
  then show ?thesis using s by (auto simp: n_def)
qed

end
