(* ===== verification/Float64.thy ===== *)
theory Float64
  imports Float32
begin

text \<open>
  The type \<open>double\<close> of the sources, used where a float would lose the digits of a long sum: the classes of \<open>f32\<close> with a significand
  of 53 bits and the exponents of binary64. A float converts to it exactly; the conversion back is one more rounding.
\<close>

datatype f64 = F64 (dval: f32)

definition ulp_exp64 :: "rat \<Rightarrow> int" where
  "ulp_exp64 q = max (- 1074) (ilog2 \<bar>q\<bar> - 52)"

definition rnd64 :: "rat \<Rightarrow> rat" where
  "rnd64 q = (if q = 0 then 0 else of_int (round_even (q / pow2 (ulp_exp64 q))) * pow2 (ulp_exp64 q))"

definition f64_round :: "bool \<Rightarrow> rat \<Rightarrow> f64" where
  "f64_round s q = (let r = rnd64 q in
     F64 (if r = 0 then zero_of s else if 2 ^ 1024 \<le> \<bar>r\<bar> then inf_of (r < 0) else Fin r))"

definition widen :: "f32 \<Rightarrow> f64" where
  "widen x = F64 x"

fun narrow :: "f64 \<Rightarrow> f32" where
  "narrow (F64 (Fin q)) = f32_of q"
| "narrow (F64 x) = x"

instantiation f64 :: "{zero, plus, minus, times, inverse}"
begin

definition zero_f64 :: f64 where "0 = F64 0"

definition plus_f64 :: "f64 \<Rightarrow> f64 \<Rightarrow> f64" where
  "a + b = (let x = dval a; y = dval b in
     if is_nan x \<or> is_nan y then F64 NaN
     else if is_inf x then (if is_inf y \<and> x \<noteq> y then F64 NaN else a)
     else if is_inf y then b
     else f64_round (signbit x \<and> signbit y) (val x + val y))"

definition minus_f64 :: "f64 \<Rightarrow> f64 \<Rightarrow> f64" where
  "a - b = a + F64 (- dval b)"

definition times_f64 :: "f64 \<Rightarrow> f64 \<Rightarrow> f64" where
  "a * b = (let x = dval a; y = dval b; s = (signbit x \<noteq> signbit y) in
     if is_nan x \<or> is_nan y then F64 NaN
     else if is_inf x \<or> is_inf y
       then F64 (if isfinite x \<and> val x = 0 \<or> isfinite y \<and> val y = 0 then NaN else inf_of s)
     else f64_round s (val x * val y))"

definition divide_f64 :: "f64 \<Rightarrow> f64 \<Rightarrow> f64" where
  "a div b = (let x = dval a; y = dval b; s = (signbit x \<noteq> signbit y) in
     if is_nan x \<or> is_nan y then F64 NaN
     else if is_inf x then F64 (if is_inf y then NaN else inf_of s)
     else if is_inf y then F64 (zero_of s)
     else if val y = 0 then F64 (if val x = 0 then NaN else inf_of s)
     else f64_round s (val x / val y))"

definition inverse_f64 :: "f64 \<Rightarrow> f64" where
  "inverse a = F64 (Fin 1) div a"

instance ..

end

end
