(* ===== verification/Hw_Startup.thy ===== *)
theory Hw_Startup
  imports Current_Control Power_Stage Float64
begin

text \<open>
  The startup aid (\<open>src/src/startup/hw_startup.hpp\<close>, \<open>.cpp\<close>, \<open>startup_results.hpp\<close>): the bring-up sequence that checks a new board
  with forced duties, first without and then with the motor, and calibrates the current sensing. The state of the model is the object
  with what it works on: the control cycle, the power stage, the settings store and the calls on the hardware. The log is left out.
\<close>

unbundle bit_operations_syntax

section \<open>Data\<close>

datatype FsmState =
    FsmIdle | FsmPwmDisable | FsmAdcOffsetCal | FsmAdcNoiseFloor | FsmDutyForceLow | FsmDutyForceMid | FsmDutyForceHigh
  | FsmDcLinkVoltageCheck | FsmGateDriverEnableCheck | FsmConnectMotor | FsmPhaseAdcAlignment | FsmCurrentSenseCalibration
  | FsmDone | FsmFault

definition fsm_states :: "FsmState list" where
  "fsm_states = [FsmIdle, FsmPwmDisable, FsmAdcOffsetCal, FsmAdcNoiseFloor, FsmDutyForceLow, FsmDutyForceMid, FsmDutyForceHigh,
     FsmDcLinkVoltageCheck, FsmGateDriverEnableCheck, FsmConnectMotor, FsmPhaseAdcAlignment, FsmCurrentSenseCalibration, FsmDone, FsmFault]"

text \<open>The number of a state in the C++ enumeration.\<close>

fun fsm_index :: "FsmState \<Rightarrow> nat" where
  "fsm_index FsmIdle = 0"
| "fsm_index FsmPwmDisable = 1"
| "fsm_index FsmAdcOffsetCal = 2"
| "fsm_index FsmAdcNoiseFloor = 3"
| "fsm_index FsmDutyForceLow = 4"
| "fsm_index FsmDutyForceMid = 5"
| "fsm_index FsmDutyForceHigh = 6"
| "fsm_index FsmDcLinkVoltageCheck = 7"
| "fsm_index FsmGateDriverEnableCheck = 8"
| "fsm_index FsmConnectMotor = 9"
| "fsm_index FsmPhaseAdcAlignment = 10"
| "fsm_index FsmCurrentSenseCalibration = 11"
| "fsm_index FsmDone = 12"
| "fsm_index FsmFault = 13"

datatype StartupFault = SfNone | SfAborted | SfEmergencyStop | SfOvercurrent | SfTrip | SfEnableLost | SfApplyFailed

datatype StartupNeeds = NeedsNone | NeedsDcLinkVoltage | NeedsPhaseCurrent | NeedsMotorConnected

datatype StartupStart = SsStarted | SsRunning | SsNotReleased

datatype StartupContinue = ScAccepted | ScNotRunning | ScMeasuring | ScNeedsReading | ScNeedsConfirmation | ScUnexpectedConfirmation

record StartupStatus =
  sts_step :: FsmState
  sts_active :: bool
  sts_measured :: bool
  sts_needs :: StartupNeeds
  sts_progress :: u8
  sts_passed :: u32
  sts_failed :: u32
  sts_fault :: StartupFault
  sts_started :: bool

definition kNumStartupSteps :: nat where "kNumStartupSteps = 14"

record StartupResults =
  sr_passed :: "bool list"
  sr_adc_offset_a :: f32
  sr_adc_offset_b :: f32
  sr_adc_offset_c :: f32
  sr_adc_noise_rms_a :: f32
  sr_adc_noise_rms_b :: f32
  sr_gain_vdc :: f32
  sr_gain_a :: f32
  sr_gain_b :: f32
  sr_gain_c :: f32
  sr_adc_trigger_offset_optimal :: u32
  sr_current_state :: FsmState

definition StartupResults_init :: StartupResults where
  "StartupResults_init = \<lparr>sr_passed = replicate kNumStartupSteps False, sr_adc_offset_a = 0, sr_adc_offset_b = 0, sr_adc_offset_c = 0,
     sr_adc_noise_rms_a = 0, sr_adc_noise_rms_b = 0, sr_gain_vdc = f32_of 1, sr_gain_a = f32_of 1, sr_gain_b = f32_of 1,
     sr_gain_c = f32_of 1, sr_adc_trigger_offset_optimal = 168, sr_current_state = FsmIdle\<rparr>"

definition kNCal :: u32 where "kNCal = 1024"
definition kNGate :: u32 where "kNGate = 512"
definition kHoldSamples :: u32 where "kHoldSamples = 1000"
definition kNAlignSamples :: u32 where "kNAlignSamples = 256"
definition kNSweepSteps :: nat where "kNSweepSteps = 21"

record HwStartup =
  hs_offset_threshold :: f32
  hs_noise_threshold :: f32
  hs_gain_tolerance :: f32
  hs_vdc_gain_tolerance :: f32
  hs_vdc_min_valid :: f32
  hs_oc_fraction :: f32
  hs_duty_step_fraction :: f32
  hs_v_cal_fraction :: f32
  hs_results :: StartupResults
  hs_state :: FsmState
  hs_step_done :: bool
  hs_next_step_requested :: bool
  hs_started :: bool
  hs_reading_prompted :: bool
  hs_completed :: u32
  hs_fault :: StartupFault
  hs_sample_count :: u32
  hs_accum_a :: f64
  hs_accum_b :: f64
  hs_accum_c :: f64
  hs_accum_sq_a :: f64
  hs_accum_sq_b :: f64
  hs_sweep_pos :: u32
  hs_sweep_noise_a :: "f32 list"
  hs_base_trigger_offset :: u32
  hs_gate_mean_disabled :: f32
  hs_gate_mean_enabled :: f32
  hs_gate_phase_disabled :: bool
  hs_ext_current :: f32
  hs_ext_vdc :: f32
  hs_oc_limit :: f32

definition HwStartup_init :: HwStartup where
  "HwStartup_init = \<lparr>hs_offset_threshold = f32_of (1/2), hs_noise_threshold = f32_of (1/10), hs_gain_tolerance = f32_of (1/20),
     hs_vdc_gain_tolerance = f32_of (1/50), hs_vdc_min_valid = f32_of 1, hs_oc_fraction = f32_of (1/10),
     hs_duty_step_fraction = f32_of (9/20), hs_v_cal_fraction = f32_of (1/500), hs_results = StartupResults_init,
     hs_state = FsmIdle, hs_step_done = False, hs_next_step_requested = False, hs_started = False, hs_reading_prompted = False,
     hs_completed = 0, hs_fault = SfNone, hs_sample_count = 0, hs_accum_a = 0, hs_accum_b = 0, hs_accum_c = 0, hs_accum_sq_a = 0,
     hs_accum_sq_b = 0, hs_sweep_pos = 0, hs_sweep_noise_a = replicate kNSweepSteps 0, hs_base_trigger_offset = 0,
     hs_gate_mean_disabled = 0, hs_gate_mean_enabled = 0, hs_gate_phase_disabled = True, hs_ext_current = 0, hs_ext_vdc = 0,
     hs_oc_limit = f32_of 10\<rparr>"

text \<open>The object with the parts it drives.\<close>

record 'w Bringup =
  bu_fsm :: HwStartup
  bu_cc :: CurrentControlIsr
  bu_stage :: PowerStage
  bu_store :: "'w SettingsStore"
  bu_calls :: "HardwareCall list"

definition on_fsm :: "(HwStartup \<Rightarrow> HwStartup) \<Rightarrow> 'w Bringup \<Rightarrow> 'w Bringup" where
  "on_fsm f w = w\<lparr>bu_fsm := f (bu_fsm w)\<rparr>"

definition on_cc :: "(CurrentControlIsr \<Rightarrow> CurrentControlIsr) \<Rightarrow> 'w Bringup \<Rightarrow> 'w Bringup" where
  "on_cc f w = w\<lparr>bu_cc := f (bu_cc w)\<rparr>"

definition on_stage :: "(PowerStage \<Rightarrow> PowerStage) \<Rightarrow> 'w Bringup \<Rightarrow> 'w Bringup" where
  "on_stage f w = w\<lparr>bu_stage := f (bu_stage w)\<rparr>"

definition set_trigger :: "u32 \<Rightarrow> 'w Bringup \<Rightarrow> 'w Bringup" where
  "set_trigger offset w = (let (cc, calls) = SetAdcTriggerOffset offset (bu_cc w) in w\<lparr>bu_cc := cc, bu_calls := bu_calls w @ calls\<rparr>)"

definition pass :: "FsmState \<Rightarrow> bool \<Rightarrow> StartupResults \<Rightarrow> StartupResults" where
  "pass s ok r = r\<lparr>sr_passed := (sr_passed r)[fsm_index s := ok]\<rparr>"

definition on_results :: "(StartupResults \<Rightarrow> StartupResults) \<Rightarrow> HwStartup \<Rightarrow> HwStartup" where
  "on_results f h = h\<lparr>hs_results := f (hs_results h)\<rparr>"

section \<open>Helpers\<close>

definition kNeutralDuty :: f32 where "kNeutralDuty = f32_of (1/2)"

definition force_all :: "f32 \<Rightarrow> 'w Bringup \<Rightarrow> 'w Bringup" where
  "force_all duty = on_cc (ForceDuty duty duty duty)"

definition IsActive :: "HwStartup \<Rightarrow> bool" where
  "IsActive h \<longleftrightarrow> hs_state h \<noteq> FsmIdle \<and> hs_state h \<noteq> FsmDone \<and> hs_state h \<noteq> FsmFault"

definition TransitionTo :: "FsmState \<Rightarrow> HwStartup \<Rightarrow> HwStartup" where
  "TransitionTo s h = on_results (\<lambda>r. r\<lparr>sr_current_state := s\<rparr>) (h\<lparr>hs_state := s, hs_step_done := False,
     hs_next_step_requested := False, hs_sample_count := 0, hs_accum_a := 0, hs_accum_b := 0, hs_accum_c := 0, hs_accum_sq_a := 0,
     hs_accum_sq_b := 0\<rparr>)"

definition EnterFault :: "StartupFault \<Rightarrow> 'w Bringup \<Rightarrow> 'w Bringup" where
  "EnterFault fault w = on_stage PowerStageDisable (force_all kNeutralDuty
     (on_fsm (\<lambda>h. on_results (\<lambda>r. r\<lparr>sr_current_state := FsmFault\<rparr>) (h\<lparr>hs_fault := fault, hs_state := FsmFault\<rparr>)) w))"

definition CheckMotorOc :: "'w Bringup \<Rightarrow> bool" where
  "CheckMotorOc w \<longleftrightarrow> Exceeds (cst_raw_phase_currents (isr_state (bu_cc w))) (hs_oc_limit (bu_fsm w))"

text \<open>One sample into the sums; the caller compares the new count with the number it needs.\<close>

definition CollectSample :: "CurrentControlIsr \<Rightarrow> HwStartup \<Rightarrow> HwStartup" where
  "CollectSample cc h = (let
     i = cst_raw_phase_currents (isr_state cc);
     ia = widen (tp_a i);
     ib = widen (tp_b i)
   in h\<lparr>hs_accum_a := hs_accum_a h + ia, hs_accum_b := hs_accum_b h + ib, hs_accum_c := hs_accum_c h + widen (tp_c i),
     hs_accum_sq_a := hs_accum_sq_a h + ia * ia, hs_accum_sq_b := hs_accum_sq_b h + ib * ib,
     hs_sample_count := hs_sample_count h + 1\<rparr>)"

definition MeanOf :: "f64 \<Rightarrow> u32 \<Rightarrow> f32" where
  "MeanOf acc n = narrow acc / f32_of_int (uint n)"

definition RmsCurrent :: "f64 \<Rightarrow> f64 \<Rightarrow> u32 \<Rightarrow> f32" where
  "RmsCurrent acc squares n = (let
     count = F64 (Fin (of_int (uint n)));
     variance = narrow (squares / count - (acc / count) * (acc / count))
   in if variance > 0 then f32_sqrt variance else 0)"

definition ValidateCurrentState :: "HwStartup \<Rightarrow> bool" where
  "ValidateCurrentState h \<longleftrightarrow> \<not> (hs_state h = FsmCurrentSenseCalibration \<and> hs_ext_current h < f32_of (1/1000))
     \<and> \<not> (hs_state h = FsmDcLinkVoltageCheck \<and> hs_ext_vdc h < hs_vdc_min_valid h)"

section \<open>The end of the sequence\<close>

definition correction_of :: "f32 \<Rightarrow> f32" where
  "correction_of gain = (if gain > f32_of (1/10000) then f32_of 1 / gain else f32_of 1)"

definition startup_calibration :: "StartupResults \<Rightarrow> AdcCalibration" where
  "startup_calibration r = \<lparr>cal_offset_a = sr_adc_offset_a r, cal_offset_b = sr_adc_offset_b r, cal_offset_c = sr_adc_offset_c r,
     cal_gain_a = correction_of (sr_gain_a r), cal_gain_b = correction_of (sr_gain_b r), cal_gain_c = correction_of (sr_gain_c r),
     cal_gain_vdc = correction_of (sr_gain_vdc r)\<rparr>"

definition RunDone :: "'w Bringup \<Rightarrow> 'w Bringup" where
  "RunDone w = (let
     w = on_cc ReleaseForceDuty (on_stage PowerStageDisable w);
     (status, store) = ApplyAdcCalibration (startup_calibration (hs_results (bu_fsm w))) (bu_store w);
     w = w\<lparr>bu_store := store\<rparr>
   in if status \<noteq> kSuccess then EnterFault SfApplyFailed w
      else on_fsm (\<lambda>h. on_results (\<lambda>r. r\<lparr>sr_current_state := FsmDone\<rparr>) (h\<lparr>hs_state := FsmDone\<rparr>)) w)"

definition AdvanceToNextState :: "'w Bringup \<Rightarrow> 'w Bringup" where
  "AdvanceToNextState w = (let
     k = fsm_index (hs_state (bu_fsm w));
     w = on_fsm (\<lambda>h. h\<lparr>hs_next_step_requested := False, hs_completed := hs_completed h OR push_bit k 1\<rparr>) w
   in if k + 1 \<ge> fsm_index FsmDone then RunDone w else on_fsm (TransitionTo (fsm_states ! (k + 1))) w)"

definition advance_if_requested :: "'w Bringup \<Rightarrow> 'w Bringup" where
  "advance_if_requested w = (let h = bu_fsm w in
     if hs_step_done h \<and> hs_next_step_requested h \<and> ValidateCurrentState h then AdvanceToNextState w else w)"

section \<open>The steps\<close>

definition RunPwmDisable :: "'w Bringup \<Rightarrow> 'w Bringup" where
  "RunPwmDisable w = (let
     w = on_fsm (\<lambda>h. h\<lparr>hs_step_done := True\<rparr>) (force_all kNeutralDuty w);
     h = bu_fsm w
   in if hs_step_done h \<and> hs_next_step_requested h \<and> ValidateCurrentState h
      then AdvanceToNextState (on_fsm (on_results (pass FsmPwmDisable True)) w) else w)"

definition offset_results :: "HwStartup \<Rightarrow> HwStartup" where
  "offset_results h = (let
     a = MeanOf (hs_accum_a h) kNCal;
     b = MeanOf (hs_accum_b h) kNCal;
     c = MeanOf (hs_accum_c h) kNCal;
     ok = (Abs a < hs_offset_threshold h \<and> Abs b < hs_offset_threshold h \<and> Abs c < hs_offset_threshold h)
   in on_results (\<lambda>r. pass FsmAdcOffsetCal ok (r\<lparr>sr_adc_offset_a := a, sr_adc_offset_b := b, sr_adc_offset_c := c\<rparr>))
        (h\<lparr>hs_step_done := True\<rparr>))"

definition RunAdcOffsetCal :: "'w Bringup \<Rightarrow> 'w Bringup" where
  "RunAdcOffsetCal w = (let w = force_all kNeutralDuty w in
     advance_if_requested (if hs_step_done (bu_fsm w) then w
       else on_fsm (\<lambda>h. let h = CollectSample (bu_cc w) h in if hs_sample_count h \<ge> kNCal then offset_results h else h) w))"

definition noise_results :: "HwStartup \<Rightarrow> HwStartup" where
  "noise_results h = (let
     a = RmsCurrent (hs_accum_a h) (hs_accum_sq_a h) kNCal;
     b = RmsCurrent (hs_accum_b h) (hs_accum_sq_b h) kNCal;
     ok = (a < hs_noise_threshold h \<and> b < hs_noise_threshold h)
   in on_results (\<lambda>r. pass FsmAdcNoiseFloor ok (r\<lparr>sr_adc_noise_rms_a := a, sr_adc_noise_rms_b := b\<rparr>)) (h\<lparr>hs_step_done := True\<rparr>))"

definition RunAdcNoiseFloor :: "'w Bringup \<Rightarrow> 'w Bringup" where
  "RunAdcNoiseFloor w = (let w = force_all kNeutralDuty w in
     advance_if_requested (if hs_step_done (bu_fsm w) then w
       else on_fsm (\<lambda>h. let h = CollectSample (bu_cc w) h in if hs_sample_count h \<ge> kNCal then noise_results h else h) w))"

definition RunDutyForce :: "f32 \<Rightarrow> 'w Bringup \<Rightarrow> 'w Bringup" where
  "RunDutyForce duty w = (let w = force_all duty w; h = bu_fsm w in
     if \<not> hs_step_done h \<and> hs_sample_count h < kHoldSamples then on_fsm (\<lambda>h. h\<lparr>hs_sample_count := hs_sample_count h + 1\<rparr>) w
     else advance_if_requested (if hs_step_done h then w
       else on_fsm (\<lambda>h. on_results (pass (hs_state h) True) (h\<lparr>hs_step_done := True\<rparr>)) w))"

definition vdc_results :: "f32 \<Rightarrow> HwStartup \<Rightarrow> HwStartup" where
  "vdc_results measured h = (let
     gain = measured / hs_ext_vdc h;
     ok = (Abs (gain - f32_of 1) < hs_vdc_gain_tolerance h)
   in on_results (\<lambda>r. pass FsmDcLinkVoltageCheck ok (r\<lparr>sr_gain_vdc := gain\<rparr>)) (h\<lparr>hs_step_done := True\<rparr>))"

definition measure_vdc :: "f32 \<Rightarrow> HwStartup \<Rightarrow> HwStartup" where
  "measure_vdc raw_vdc h = (let
     counting = hs_sample_count h < kNCal;
     h = (if counting then h\<lparr>hs_accum_a := hs_accum_a h + widen raw_vdc, hs_sample_count := hs_sample_count h + 1\<rparr> else h)
   in if counting \<and> hs_sample_count h < kNCal then h
      else if hs_ext_vdc h > hs_vdc_min_valid h then vdc_results (MeanOf (hs_accum_a h) kNCal) h
      else if hs_sample_count h = kNCal then h\<lparr>hs_sample_count := hs_sample_count h + 1\<rparr>
      else h)"

definition RunDcLinkVoltageCheck :: "'w Bringup \<Rightarrow> 'w Bringup" where
  "RunDcLinkVoltageCheck w = (let w = force_all kNeutralDuty w in
     if hs_step_done (bu_fsm w) then advance_if_requested w
     else on_fsm (measure_vdc (cst_raw_vdc (isr_state (bu_cc w)))) w)"

definition gate_baseline :: "HwStartup \<Rightarrow> HwStartup" where
  "gate_baseline h = h\<lparr>hs_gate_mean_disabled := MeanOf (hs_accum_a h) kNGate, hs_sample_count := 0, hs_accum_a := 0, hs_accum_b := 0,
     hs_accum_c := 0, hs_accum_sq_a := 0, hs_accum_sq_b := 0, hs_gate_phase_disabled := False\<rparr>"

definition gate_results :: "HwStartup \<Rightarrow> HwStartup" where
  "gate_results h = (let
     mean = MeanOf (hs_accum_a h) kNGate;
     delta = Abs (mean - hs_gate_mean_disabled h);
     threshold = f32_of 2 * sr_adc_noise_rms_a (hs_results h)
   in on_results (pass FsmGateDriverEnableCheck (delta > threshold))
        (h\<lparr>hs_gate_mean_enabled := mean, hs_gate_phase_disabled := True, hs_step_done := True\<rparr>))"

definition RunGateDriverEnableCheck :: "'w Bringup \<Rightarrow> 'w Bringup" where
  "RunGateDriverEnableCheck w =
    (if hs_step_done (bu_fsm w) then advance_if_requested w
     else if hs_gate_phase_disabled (bu_fsm w) then
       on_fsm (\<lambda>h. let h = CollectSample (bu_cc w) h in if hs_sample_count h \<ge> kNGate then gate_baseline h else h)
         (force_all kNeutralDuty w)
     else
       on_fsm (\<lambda>h. let h = CollectSample (bu_cc w) h in if hs_sample_count h \<ge> kNGate then gate_results h else h)
         (on_cc (ForceDuty (f32_of (11/20)) (f32_of (9/20)) (f32_of (9/20))) w))"

definition oc_limit_of :: "'w Bringup \<Rightarrow> f32" where
  "oc_limit_of w = cap_max_phase_current (st_capabilities (bu_store w)) * hs_oc_fraction (bu_fsm w)"

text \<open>The barrier between the phases: the outputs go off, and come on again with the continue.\<close>

definition motor_wait :: "'w Bringup \<Rightarrow> 'w Bringup" where
  "motor_wait w = on_fsm (\<lambda>h. on_results (pass FsmConnectMotor True) (h\<lparr>hs_oc_limit := oc_limit_of w, hs_step_done := True\<rparr>))
     (on_stage PowerStageDisable w)"

definition clear_fault_state :: "'w Bringup \<Rightarrow> 'w Bringup" where
  "clear_fault_state w = (if GetPowerStageState (bu_stage w) = kFault then on_stage PowerStageClearFault w else w)"

definition enable_stage :: "'w Bringup \<Rightarrow> bool \<times> 'w Bringup" where
  "enable_stage w = (let (ok, stage) = Enable (bu_stage w) in (ok, w\<lparr>bu_stage := stage\<rparr>))"

definition RunConnectMotorWait :: "'w Bringup \<Rightarrow> 'w Bringup" where
  "RunConnectMotorWait w = (let
     w = force_all kNeutralDuty w;
     w = (if hs_step_done (bu_fsm w) then w else motor_wait w);
     h = bu_fsm w
   in if hs_step_done h \<and> hs_next_step_requested h \<and> ValidateCurrentState h then
        (let (ok, w) = enable_stage (clear_fault_state w) in if ok then AdvanceToNextState w else EnterFault SfEnableLost w)
      else w)"

definition InjectAlphaCurrent :: "'w Bringup \<Rightarrow> 'w Bringup" where
  "InjectAlphaCurrent w = (let
     v = hs_v_cal_fraction (bu_fsm w);
     da = kNeutralDuty + v;
     db = kNeutralDuty - v * f32_of (1/2);
     dc = kNeutralDuty - v * f32_of (1/2)
   in on_cc (ForceDuty da db dc) w)"

text \<open>
  The offset of a sweep position, over exact integers: the 32-bit sum of the code is the same while it does not overflow, which is
  undefined there (a base above \<open>2 ^ 27\<close> ticks).
\<close>

definition sweep_ticks :: "u32 \<Rightarrow> nat \<Rightarrow> u32" where
  "sweep_ticks base pos = (let
     half_tick = sint (base div 2);
     offset_steps = int pos - int (kNSweepSteps div 2);
     ticks = sint base + offset_steps * half_tick
   in if ticks > 0 then word_of_int ticks else 0)"

definition best_sweep :: "f32 list \<Rightarrow> nat \<times> f32" where
  "best_sweep noise = fold (\<lambda>i (pos, best). if noise ! i < best then (i, noise ! i) else (pos, best)) [1..<kNSweepSteps] (0, noise ! 0)"

definition finish_sweep :: "'w Bringup \<Rightarrow> 'w Bringup" where
  "finish_sweep w = (let
     h = bu_fsm w;
     (best_pos, best_noise) = best_sweep (hs_sweep_noise_a h);
     ticks = sweep_ticks (hs_base_trigger_offset h) best_pos;
     ok = (best_noise < f32_of 2 * sr_adc_noise_rms_a (hs_results h));
     w = on_fsm (on_results (\<lambda>r. pass FsmPhaseAdcAlignment ok (r\<lparr>sr_adc_trigger_offset_optimal := ticks\<rparr>))) w
   in on_fsm (\<lambda>h. h\<lparr>hs_step_done := True\<rparr>) (set_trigger ticks w))"

definition next_sweep_position :: "HwStartup \<Rightarrow> HwStartup" where
  "next_sweep_position h = h\<lparr>hs_sweep_noise_a := (hs_sweep_noise_a h)[unat (hs_sweep_pos h) :=
       RmsCurrent (hs_accum_a h) (hs_accum_sq_a h) kNAlignSamples],
     hs_sweep_pos := hs_sweep_pos h + 1, hs_sample_count := 0, hs_accum_a := 0, hs_accum_b := 0, hs_accum_c := 0,
     hs_accum_sq_a := 0, hs_accum_sq_b := 0\<rparr>"

definition sweep_sample :: "'w Bringup \<Rightarrow> 'w Bringup" where
  "sweep_sample w = (let w = on_fsm (CollectSample (bu_cc w)) w in
     if hs_sample_count (bu_fsm w) \<ge> kNAlignSamples then
       (let w = on_fsm next_sweep_position w in
        set_trigger (sweep_ticks (hs_base_trigger_offset (bu_fsm w)) (unat (hs_sweep_pos (bu_fsm w)))) w)
     else w)"

definition RunPhaseAdcAlignment :: "'w Bringup \<Rightarrow> 'w Bringup" where
  "RunPhaseAdcAlignment w = (let w = InjectAlphaCurrent w in
     if hs_step_done (bu_fsm w) then advance_if_requested w
     else let w = (if hs_sweep_pos (bu_fsm w) = 0 \<and> hs_sample_count (bu_fsm w) = 0
                   then on_fsm (\<lambda>h. h\<lparr>hs_base_trigger_offset := cst_adc_trigger_offset (isr_state (bu_cc w))\<rparr>) w else w)
       in if unat (hs_sweep_pos (bu_fsm w)) \<ge> kNSweepSteps then finish_sweep w else sweep_sample w)"

definition within_gain :: "f32 \<Rightarrow> f32 \<Rightarrow> bool" where
  "within_gain tolerance gain \<longleftrightarrow> gain > f32_of (1/10000) \<and> Abs (gain - f32_of 1) < tolerance"

definition signal_gain :: "f32 \<Rightarrow> f32 \<Rightarrow> f32" where
  "signal_gain signal reference = (if Abs signal > f32_of (1/10000) then signal / reference else 0)"

definition FinishCurrentSenseCalibration :: "HwStartup \<Rightarrow> HwStartup" where
  "FinishCurrentSenseCalibration h = (let
     r = hs_results h;
     signal_a = MeanOf (hs_accum_a h) kNCal - sr_adc_offset_a r;
     signal_b = MeanOf (hs_accum_b h) kNCal - sr_adc_offset_b r;
     signal_c = MeanOf (hs_accum_c h) kNCal - sr_adc_offset_c r;
     half_return = - hs_ext_current h * f32_of (1/2);
     gain_a = signal_gain signal_a (hs_ext_current h);
     gain_b = signal_gain signal_b half_return;
     gain_c = signal_gain signal_c half_return;
     ok = (within_gain (hs_gain_tolerance h) gain_a \<and> within_gain (hs_gain_tolerance h) gain_b \<and> within_gain (hs_gain_tolerance h) gain_c)
   in on_results (\<lambda>r. pass FsmCurrentSenseCalibration ok (r\<lparr>sr_gain_a := gain_a, sr_gain_b := gain_b, sr_gain_c := gain_c\<rparr>)) h)"

definition RunCurrentSenseCalibration :: "'w Bringup \<Rightarrow> 'w Bringup" where
  "RunCurrentSenseCalibration w = (let w = InjectAlphaCurrent w in
     if hs_step_done (bu_fsm w) then advance_if_requested w
     else let counting = hs_sample_count (bu_fsm w) < kNCal;
       w = (if counting then on_fsm (CollectSample (bu_cc w)) w else w)
     in if counting \<and> \<not> hs_sample_count (bu_fsm w) \<ge> kNCal then w
        else if hs_ext_current (bu_fsm w) < f32_of (1/1000) then on_fsm (\<lambda>h. h\<lparr>hs_reading_prompted := True\<rparr>) w
        else advance_if_requested (on_fsm (\<lambda>h. (FinishCurrentSenseCalibration h)\<lparr>hs_step_done := True\<rparr>) w))"

definition run_step :: "'w Bringup \<Rightarrow> 'w Bringup" where
  "run_step w = (case hs_state (bu_fsm w) of
     FsmIdle \<Rightarrow> w
   | FsmPwmDisable \<Rightarrow> RunPwmDisable w
   | FsmAdcOffsetCal \<Rightarrow> RunAdcOffsetCal w
   | FsmAdcNoiseFloor \<Rightarrow> RunAdcNoiseFloor w
   | FsmDutyForceLow \<Rightarrow> RunDutyForce (kNeutralDuty - hs_duty_step_fraction (bu_fsm w)) w
   | FsmDutyForceMid \<Rightarrow> RunDutyForce kNeutralDuty w
   | FsmDutyForceHigh \<Rightarrow> RunDutyForce (kNeutralDuty + hs_duty_step_fraction (bu_fsm w)) w
   | FsmDcLinkVoltageCheck \<Rightarrow> RunDcLinkVoltageCheck w
   | FsmGateDriverEnableCheck \<Rightarrow> RunGateDriverEnableCheck w
   | FsmConnectMotor \<Rightarrow> RunConnectMotorWait w
   | FsmPhaseAdcAlignment \<Rightarrow> RunPhaseAdcAlignment w
   | FsmCurrentSenseCalibration \<Rightarrow> RunCurrentSenseCalibration w
   | FsmDone \<Rightarrow> w
   | FsmFault \<Rightarrow> w)"

definition hs_RunOnce :: "'w Bringup \<Rightarrow> 'w Bringup" where
  "hs_RunOnce w =
    (if \<not> cst_samples_ready (isr_state (bu_cc w)) then w
     else let w = on_cc (\<lambda>cc. cc\<lparr>isr_state := isr_state cc\<lparr>cst_samples_ready := False\<rparr>\<rparr>) w in
       if IsActive (bu_fsm w) \<and> hs_state (bu_fsm w) \<noteq> FsmConnectMotor \<and> GetPowerStageState (bu_stage w) \<noteq> kEnabled
         then EnterFault (if TripName (bu_cc w) \<noteq> None then SfTrip else SfEnableLost) w
       else if IsActive (bu_fsm w) \<and> CheckMotorOc w then EnterFault SfOvercurrent w
       else run_step w)"

section \<open>The commands\<close>

definition SetExtCurrent :: "f32 \<Rightarrow> 'w Bringup \<Rightarrow> 'w Bringup" where
  "SetExtCurrent current = on_fsm (\<lambda>h. h\<lparr>hs_ext_current := current\<rparr>)"

definition SetExtVdc :: "f32 \<Rightarrow> 'w Bringup \<Rightarrow> 'w Bringup" where
  "SetExtVdc voltage = on_fsm (\<lambda>h. h\<lparr>hs_ext_vdc := voltage\<rparr>)"

definition fresh_run :: "f32 \<Rightarrow> HwStartup \<Rightarrow> HwStartup" where
  "fresh_run oc_limit h = h\<lparr>hs_state := FsmIdle, hs_results := StartupResults_init, hs_sample_count := 0, hs_sweep_pos := 0,
     hs_step_done := False, hs_next_step_requested := False, hs_ext_current := 0, hs_ext_vdc := 0, hs_reading_prompted := False,
     hs_completed := 0, hs_fault := SfNone, hs_oc_limit := oc_limit\<rparr>"

definition RequestRun :: "'w Bringup \<Rightarrow> StartupStart \<times> 'w Bringup" where
  "RequestRun w =
    (if IsActive (bu_fsm w) then (SsRunning, w)
     else let
       w = on_fsm (fresh_run (oc_limit_of w)) w;
       w = force_all kNeutralDuty (on_cc ClearTrips (clear_fault_state w));
       (ok, w) = enable_stage w
     in if \<not> ok then (SsNotReleased, on_cc ReleaseForceDuty w)
        else (SsStarted, on_fsm (\<lambda>h. TransitionTo FsmPwmDisable (h\<lparr>hs_started := True\<rparr>)) w))"

definition Needs :: "HwStartup \<Rightarrow> StartupNeeds" where
  "Needs h = (if \<not> IsActive h then NeedsNone else case hs_state h of
     FsmDcLinkVoltageCheck \<Rightarrow> if \<not> hs_step_done h \<and> hs_sample_count h \<ge> kNCal then NeedsDcLinkVoltage else NeedsNone
   | FsmCurrentSenseCalibration \<Rightarrow> if \<not> hs_step_done h \<and> hs_sample_count h \<ge> kNCal then NeedsPhaseCurrent else NeedsNone
   | FsmConnectMotor \<Rightarrow> if hs_step_done h then NeedsMotorConnected else NeedsNone
   | _ \<Rightarrow> NeedsNone)"

definition RequestNextStep :: "bool \<Rightarrow> 'w Bringup \<Rightarrow> StartupContinue \<times> 'w Bringup" where
  "RequestNextStep motor_connected w = (let h = bu_fsm w in
     if \<not> IsActive h then (ScNotRunning, w)
     else if Needs h = NeedsDcLinkVoltage \<or> Needs h = NeedsPhaseCurrent then (ScNeedsReading, w)
     else if Needs h = NeedsMotorConnected \<and> \<not> motor_connected then (ScNeedsConfirmation, w)
     else if Needs h = NeedsNone \<and> motor_connected then (ScUnexpectedConfirmation, w)
     else if \<not> hs_step_done h then (ScMeasuring, w)
     else (ScAccepted, on_fsm (\<lambda>h. h\<lparr>hs_next_step_requested := True\<rparr>) w))"

definition RequestAbort :: "StartupFault \<Rightarrow> 'w Bringup \<Rightarrow> 'w Bringup" where
  "RequestAbort reason w = (if \<not> IsActive (bu_fsm w) then w else EnterFault reason w)"

section \<open>The status\<close>

text \<open>The samples a state has taken and needs, as 32-bit numbers.\<close>

definition progress_done :: "HwStartup \<Rightarrow> u32" where
  "progress_done h = (case hs_state h of
     FsmGateDriverEnableCheck \<Rightarrow> if hs_gate_phase_disabled h then hs_sample_count h else kNGate + hs_sample_count h
   | FsmPhaseAdcAlignment \<Rightarrow> hs_sweep_pos h * kNAlignSamples + hs_sample_count h
   | _ \<Rightarrow> hs_sample_count h)"

definition progress_total :: "HwStartup \<Rightarrow> u32" where
  "progress_total h = (if hs_state h \<in> {FsmAdcOffsetCal, FsmAdcNoiseFloor, FsmDcLinkVoltageCheck, FsmCurrentSenseCalibration} then kNCal
     else if hs_state h \<in> {FsmDutyForceLow, FsmDutyForceMid, FsmDutyForceHigh} then kHoldSamples
     else if hs_state h = FsmGateDriverEnableCheck then 2 * kNGate
     else if hs_state h = FsmPhaseAdcAlignment then of_nat kNSweepSteps * kNAlignSamples
     else 1)"

definition Progress :: "HwStartup \<Rightarrow> u8" where
  "Progress h = (if \<not> IsActive h then (if hs_state h = FsmDone then 100 else 0)
     else if hs_step_done h then 100
     else ucast (min (progress_done h) (progress_total h) * 100 div progress_total h))"

definition passed_mask :: "StartupResults \<Rightarrow> u32" where
  "passed_mask r = fold (\<lambda>i mask. if sr_passed r ! i then mask OR push_bit i 1 else mask) [0..<kNumStartupSteps] 0"

definition hs_Status :: "HwStartup \<Rightarrow> StartupStatus" where
  "hs_Status h = (let
     active = IsActive h;
     measured = (active \<and> hs_step_done h);
     passed = passed_mask (hs_results h);
     finished = (if measured then hs_completed h OR push_bit (fsm_index (hs_state h)) 1 else hs_completed h)
   in \<lparr>sts_step = hs_state h, sts_active = active, sts_measured = measured, sts_needs = Needs h, sts_progress = Progress h,
     sts_passed = passed, sts_failed = finished AND NOT passed, sts_fault = hs_fault h, sts_started = hs_started h\<rparr>)"

end
