(* ===== verification/Hw_Startup_Safety.thy ===== *)
theory Hw_Startup_Safety
  imports Hw_Startup Settings_Persistence
begin

text \<open>
  Safety of the startup aid: whatever commands, control cycles, readings and changes of the external enable arrive in any order, the
  outputs are released only inside a run and only with forced duties, the steps follow each other without a gap, and no voltage is
  applied with the motor connected before the operator has confirmed it.
\<close>

unbundle bit_operations_syntax

section \<open>The run as a sequence of events\<close>

datatype startup_event =
    EvSpin
  | EvStart
  | EvContinue bool
  | EvAbort StartupFault
  | EvVdc f32
  | EvCurrent f32
  | EvCycle ControlCycleSamples
  | EvExternal bool

fun startup_react :: "startup_event \<Rightarrow> 'w Bringup \<Rightarrow> 'w Bringup" where
  "startup_react EvSpin w = hs_RunOnce w"
| "startup_react EvStart w = snd (RequestRun w)"
| "startup_react (EvContinue confirmed) w = snd (RequestNextStep confirmed w)"
| "startup_react (EvAbort reason) w = RequestAbort reason w"
| "startup_react (EvVdc v) w = SetExtVdc v w"
| "startup_react (EvCurrent c) w = SetExtCurrent c w"
| "startup_react (EvCycle raw) w = (let (cc, calls) = OnControlCycle raw (bu_cc w) in
     w\<lparr>bu_cc := cc, bu_stage := if TripPowerStage \<in> set calls then PowerStageTrip (bu_stage w) else bu_stage w,
       bu_calls := bu_calls w @ calls\<rparr>)"
| "startup_react (EvExternal present) w = on_stage (SetExternalEnable present) w"

definition startup_run :: "startup_event list \<Rightarrow> 'w Bringup \<Rightarrow> 'w Bringup" where
  "startup_run evs w = fold startup_react evs w"

lemma startup_run_simps [simp]: "startup_run [] w = w" "startup_run (evs @ [e]) w = startup_react e (startup_run evs w)"
  by (simp_all add: startup_run_def)

section \<open>The invariant\<close>

definition forced :: "CurrentControlIsr \<Rightarrow> ThreePhase" where
  "forced cc = hd (MailboxRead (isr_forced_duties cc))"

definition duty_box_ok :: "CurrentControlIsr \<Rightarrow> bool" where
  "duty_box_ok cc \<longleftrightarrow> length (mb_slots (isr_forced_duties cc)) = 2 \<and> mb_active (isr_forced_duties cc) \<in> {0, 1}"

definition clamped :: "Svm \<Rightarrow> f32 \<Rightarrow> f32 \<Rightarrow> f32 \<Rightarrow> ThreePhase" where
  "clamped svm a b c = \<lparr>tp_a = clamp_duty svm a, tp_b = clamp_duty svm b, tp_c = clamp_duty svm c\<rparr>"

text \<open>The duties that may reach a connected motor: neutral, or the small injection of phase 2.\<close>

definition neutral_set :: "Svm \<Rightarrow> ThreePhase" where
  "neutral_set svm = clamped svm kNeutralDuty kNeutralDuty kNeutralDuty"

definition injection_set :: "f32 \<Rightarrow> Svm \<Rightarrow> ThreePhase" where
  "injection_set v svm = clamped svm (kNeutralDuty + v) (kNeutralDuty - v * f32_of (1/2)) (kNeutralDuty - v * f32_of (1/2))"

definition calm :: "f32 \<Rightarrow> Svm \<Rightarrow> ThreePhase \<Rightarrow> bool" where
  "calm v svm d \<longleftrightarrow> d = neutral_set svm \<or> d = injection_set v svm"

definition phase2 :: "HwStartup \<Rightarrow> bool" where
  "phase2 h \<longleftrightarrow> hs_state h \<in> {FsmPhaseAdcAlignment, FsmCurrentSenseCalibration}"

text \<open>The motor may be connected: the operator was asked to connect it.\<close>

definition motor_asked :: "HwStartup \<Rightarrow> bool" where
  "motor_asked h \<longleftrightarrow> phase2 h \<or> hs_state h = FsmConnectMotor \<and> hs_step_done h"

definition steps_mask :: "nat \<Rightarrow> u32" where
  "steps_mask k = push_bit k 1 - 2"

definition arrays_ok :: "HwStartup \<Rightarrow> bool" where
  "arrays_ok h \<longleftrightarrow> length (sr_passed (hs_results h)) = kNumStartupSteps \<and> length (hs_sweep_noise_a h) = kNSweepSteps
     \<and> unat (hs_sweep_pos h) \<le> kNSweepSteps"

definition counted :: "HwStartup \<Rightarrow> bool" where
  "counted h \<longleftrightarrow> (IsActive h \<or> hs_state h = FsmDone \<longrightarrow> hs_completed h = steps_mask (fsm_index (hs_state h)))
     \<and> (hs_next_step_requested h \<longrightarrow> hs_step_done h)"

definition outputs_ok :: "'w Bringup \<Rightarrow> bool" where
  "outputs_ok w \<longleftrightarrow> duty_box_ok (bu_cc w)
     \<and> (ps_enabled (bu_stage w) \<longrightarrow> IsActive (bu_fsm w) \<and> isr_force_duty_active (bu_cc w)
          \<and> (hs_state (bu_fsm w) = FsmConnectMotor \<longrightarrow> \<not> hs_step_done (bu_fsm w)))
     \<and> (motor_asked (bu_fsm w) \<longrightarrow> calm (hs_v_cal_fraction (bu_fsm w)) (isr_svm (bu_cc w)) (forced (bu_cc w)))"

definition startup_inv :: "'w Bringup \<Rightarrow> bool" where
  "startup_inv w \<longleftrightarrow> outputs_ok w \<and> counted (bu_fsm w) \<and> arrays_ok (bu_fsm w)"

section \<open>Frames\<close>

lemmas on_defs = on_fsm_def on_cc_def on_stage_def on_results_def

lemma on_sel [simp]:
  "bu_fsm (on_fsm f w) = f (bu_fsm w)" "bu_cc (on_fsm f w) = bu_cc w" "bu_stage (on_fsm f w) = bu_stage w" "bu_store (on_fsm f w) = bu_store w"
  "bu_fsm (on_cc g w) = bu_fsm w" "bu_cc (on_cc g w) = g (bu_cc w)" "bu_stage (on_cc g w) = bu_stage w" "bu_store (on_cc g w) = bu_store w"
  "bu_fsm (on_stage p w) = bu_fsm w" "bu_cc (on_stage p w) = bu_cc w" "bu_stage (on_stage p w) = p (bu_stage w)" "bu_store (on_stage p w) = bu_store w"
  "hs_results (on_results r h) = r (hs_results h)" "hs_state (on_results r h) = hs_state h" "hs_step_done (on_results r h) = hs_step_done h"
  "hs_next_step_requested (on_results r h) = hs_next_step_requested h" "hs_completed (on_results r h) = hs_completed h"
  "hs_v_cal_fraction (on_results r h) = hs_v_cal_fraction h" "hs_sweep_noise_a (on_results r h) = hs_sweep_noise_a h"
  "hs_fault (on_results r h) = hs_fault h" "hs_sweep_pos (on_results r h) = hs_sweep_pos h" "length (sr_passed (pass s ok x)) = length (sr_passed x)"
  by (simp_all add: on_defs pass_def)

lemma ForceDuty_forces:
  assumes "duty_box_ok cc"
  shows "duty_box_ok (ForceDuty a b c cc)" "forced (ForceDuty a b c cc) = clamped (isr_svm cc) a b c"
  using assms by (auto simp: duty_box_ok_def ForceDuty_def MailboxWrite_def MailboxRead_def forced_def clamped_def Let_def)

lemma ForceDuty_frame [simp]: "isr_svm (ForceDuty a b c cc) = isr_svm cc" "isr_force_duty_active (ForceDuty a b c cc)"
  "isr_state (ForceDuty a b c cc) = isr_state cc"
  by (simp_all add: ForceDuty_def)

definition cc_quiet :: "CurrentControlIsr \<Rightarrow> CurrentControlIsr \<Rightarrow> bool" where
  "cc_quiet cc cc' \<longleftrightarrow> isr_svm cc' = isr_svm cc \<and> isr_forced_duties cc' = isr_forced_duties cc
     \<and> isr_force_duty_active cc' = isr_force_duty_active cc"

lemma cc_quietD: "cc_quiet cc cc' \<Longrightarrow> isr_svm cc' = isr_svm cc \<and> forced cc' = forced cc \<and> duty_box_ok cc' = duty_box_ok cc
    \<and> isr_force_duty_active cc' = isr_force_duty_active cc"
  by (simp add: cc_quiet_def forced_def duty_box_ok_def)

lemma cc_quiet_set_trigger: "cc_quiet (bu_cc w) (bu_cc (set_trigger t w))" "bu_fsm (set_trigger t w) = bu_fsm w"
  "bu_stage (set_trigger t w) = bu_stage w" "bu_store (set_trigger t w) = bu_store w"
  by (simp_all add: set_trigger_def SetAdcTriggerOffset_def cc_quiet_def)

lemma cc_quiet_trans: "cc_quiet a b \<Longrightarrow> cc_quiet b c \<Longrightarrow> cc_quiet a c"
  and cc_quiet_state [simp]: "cc_quiet cc (cc\<lparr>isr_state := s\<rparr>)"
  and cc_quiet_gains: "cc_quiet cc (take_gains cc)"
  by (simp_all add: cc_quiet_def take_gains_def Let_def)

lemma cc_quiet_parts: "uncontrolled d cc = (cc', calls) \<Longrightarrow> cc_quiet cc cc'" "control_loop samples cc = (cc', calls) \<Longrightarrow> cc_quiet cc cc'"
  by (auto simp: uncontrolled_def control_loop_def Let_def cc_quiet_def split: prod.splits)

lemma cc_quiet_cycle: "OnControlCycle raw cc = (cc', calls) \<Longrightarrow> cc_quiet cc cc'"
proof -
  assume c: "OnControlCycle raw cc = (cc', calls)"
  show ?thesis
  proof (cases "isr_hardware cc")
    case True
    then obtain s t cs where u: "cc_quiet cc (take_gains (cc\<lparr>isr_state := s\<rparr>)\<lparr>isr_state := t\<rparr>)"
      "(\<exists>d. uncontrolled d (take_gains (cc\<lparr>isr_state := s\<rparr>)\<lparr>isr_state := t\<rparr>) = (cc', cs))
        \<or> (\<exists>x. control_loop x (take_gains (cc\<lparr>isr_state := s\<rparr>)\<lparr>isr_state := t\<rparr>) = (cc', cs))"
      using c cc_quiet_trans [OF cc_quiet_trans [OF cc_quiet_state cc_quiet_gains] cc_quiet_state]
      unfolding OnControlCycle_def Let_def by (auto split: prod.splits if_splits; blast)
    then show ?thesis using cc_quiet_trans cc_quiet_parts by blast
  next
    case False
    then show ?thesis using c by (simp add: OnControlCycle_def cc_quiet_def)
  qed
qed

text \<open>What the measuring part of a step does: no change of the state, of the outputs or of the requests.\<close>

definition measured :: "HwStartup \<Rightarrow> HwStartup \<Rightarrow> bool" where
  "measured h h' \<longleftrightarrow> hs_state h' = hs_state h \<and> hs_next_step_requested h' = hs_next_step_requested h \<and> hs_completed h' = hs_completed h
     \<and> hs_v_cal_fraction h' = hs_v_cal_fraction h \<and> (hs_step_done h \<longrightarrow> hs_step_done h') \<and> (arrays_ok h \<longrightarrow> arrays_ok h')"

definition works :: "'w Bringup \<Rightarrow> 'w Bringup \<Rightarrow> bool" where
  "works w w' \<longleftrightarrow> measured (bu_fsm w) (bu_fsm w') \<and> bu_stage w' = bu_stage w \<and> bu_store w' = bu_store w
     \<and> isr_svm (bu_cc w') = isr_svm (bu_cc w)
     \<and> (isr_force_duty_active (bu_cc w) \<longrightarrow> isr_force_duty_active (bu_cc w'))
     \<and> (duty_box_ok (bu_cc w) \<longrightarrow> duty_box_ok (bu_cc w'))
     \<and> (duty_box_ok (bu_cc w) \<and> phase2 (bu_fsm w) \<and> calm (hs_v_cal_fraction (bu_fsm w)) (isr_svm (bu_cc w)) (forced (bu_cc w))
         \<longrightarrow> calm (hs_v_cal_fraction (bu_fsm w)) (isr_svm (bu_cc w)) (forced (bu_cc w')))"

lemma works_refl [simp]: "works w w"
  by (simp add: works_def measured_def)

lemma works_trans: "works w w' \<Longrightarrow> works w' w'' \<Longrightarrow> works w w''"
  by (auto simp: works_def measured_def phase2_def)

lemma works_fsm: "measured (bu_fsm w) (f (bu_fsm w)) \<Longrightarrow> works w (on_fsm f w)"
  by (simp add: works_def)

lemma works_trigger: "works w (set_trigger t w)"
  using cc_quietD [OF cc_quiet_set_trigger(1) [of w t]] by (simp add: works_def cc_quiet_set_trigger measured_def)

lemma works_force:
  "phase2 (bu_fsm w) \<longrightarrow> calm (hs_v_cal_fraction (bu_fsm w)) (isr_svm (bu_cc w)) (clamped (isr_svm (bu_cc w)) a b c)
     \<Longrightarrow> works w (on_cc (ForceDuty a b c) w)"
  using ForceDuty_forces by (auto simp: works_def measured_def)

lemma works_neutral: "works w (force_all kNeutralDuty w)"
  unfolding force_all_def by (rule works_force) (simp add: calm_def neutral_set_def)

lemma works_inject: "works w (InjectAlphaCurrent w)"
  unfolding InjectAlphaCurrent_def Let_def by (rule works_force) (simp add: calm_def injection_set_def)

lemma measured_collect: "measured h (CollectSample cc h)"
  by (simp add: measured_def CollectSample_def Let_def arrays_ok_def)

lemma measured_trans: "measured h h' \<Longrightarrow> measured h' h'' \<Longrightarrow> measured h h''"
  by (auto simp: measured_def)

lemma measured_results:
  "measured h (offset_results h)" "measured h (noise_results h)" "measured h (vdc_results x h)" "measured h (gate_results h)"
  "measured h (gate_baseline h)" "measured h (FinishCurrentSenseCalibration h)" "measured h (measure_vdc x h)"
  by (auto simp: measured_def arrays_ok_def offset_results_def noise_results_def vdc_results_def gate_results_def gate_baseline_def
      FinishCurrentSenseCalibration_def measure_vdc_def Let_def)

lemma measured_next_sweep: "unat (hs_sweep_pos h) < kNSweepSteps \<Longrightarrow> measured h (next_sweep_position h)"
proof -
  assume "unat (hs_sweep_pos h) < kNSweepSteps"
  then have "unat (hs_sweep_pos h + 1) \<le> kNSweepSteps" by (simp add: kNSweepSteps_def) unat_arith
  then show ?thesis by (simp add: measured_def arrays_ok_def next_sweep_position_def)
qed

section \<open>The steps\<close>

text \<open>A step works and then stays or, when it has measured and the next step is requested, advances.\<close>

definition steps_to :: "'w Bringup \<Rightarrow> 'w Bringup \<Rightarrow> bool" where
  "steps_to w w' \<longleftrightarrow> (\<exists>w1. works w w1 \<and> (w' = w1 \<or> hs_step_done (bu_fsm w1) \<and> hs_next_step_requested (bu_fsm w1) \<and> w' = AdvanceToNextState w1))"

lemma steps_to_works: "works w w1 \<Longrightarrow> steps_to w w1"
  by (auto simp: steps_to_def)

lemma steps_to_trans: "works w w1 \<Longrightarrow> steps_to w1 w' \<Longrightarrow> steps_to w w'"
  unfolding steps_to_def using works_trans by blast

lemma steps_to_advance: "works w w1 \<Longrightarrow> steps_to w (advance_if_requested w1)"
  by (auto simp: steps_to_def advance_if_requested_def Let_def)

lemma steps_to_next: "works w w1 \<Longrightarrow> hs_step_done (bu_fsm w1) \<Longrightarrow> hs_next_step_requested (bu_fsm w1) \<Longrightarrow> steps_to w (AdvanceToNextState w1)"
  by (auto simp: steps_to_def)

lemma works_sample: "(\<And>h. measured h (g h)) \<Longrightarrow>
    works w (on_fsm (\<lambda>h. let h = CollectSample cc h in if hs_sample_count h \<ge> n then g h else h) w)"
  by (rule works_fsm) (auto simp: Let_def intro: measured_collect measured_trans [OF measured_collect])

lemma steps_sweep: "unat (hs_sweep_pos (bu_fsm w)) < kNSweepSteps \<Longrightarrow> works w (sweep_sample w)"
proof -
  assume pos: "unat (hs_sweep_pos (bu_fsm w)) < kNSweepSteps"
  have c: "works w (on_fsm (CollectSample (bu_cc w)) w)" by (rule works_fsm) (rule measured_collect)
  have "hs_sweep_pos (CollectSample (bu_cc w) (bu_fsm w)) = hs_sweep_pos (bu_fsm w)" by (simp add: CollectSample_def Let_def)
  then have "works w (on_fsm next_sweep_position (on_fsm (CollectSample (bu_cc w)) w))"
    using pos by (intro works_trans [OF c] works_fsm measured_next_sweep) simp
  then show ?thesis using c by (auto simp: sweep_sample_def Let_def intro: works_trans [OF _ works_trigger])
qed

lemma works_finish_sweep: "works w (finish_sweep w)"
  unfolding finish_sweep_def Let_def split_beta
  by (intro works_trans [OF works_fsm works_trans [OF works_trigger works_fsm]])
    (simp_all add: measured_def arrays_ok_def cc_quiet_set_trigger)

lemma steps_PhaseAdcAlignment: "steps_to w (RunPhaseAdcAlignment w)"
proof -
  define v where "v = InjectAlphaCurrent w"
  have v: "works w v" unfolding v_def by (rule works_inject)
  define u where "u = (if hs_sweep_pos (bu_fsm v) = 0 \<and> hs_sample_count (bu_fsm v) = 0
      then on_fsm (\<lambda>h. h\<lparr>hs_base_trigger_offset := cst_adc_trigger_offset (isr_state (bu_cc v))\<rparr>) v else v)"
  have u: "works v u" unfolding u_def by (auto intro!: works_fsm simp: measured_def arrays_ok_def)
  have "RunPhaseAdcAlignment w = (if hs_step_done (bu_fsm v) then advance_if_requested v
      else if unat (hs_sweep_pos (bu_fsm u)) \<ge> kNSweepSteps then finish_sweep u else sweep_sample u)"
    by (simp add: RunPhaseAdcAlignment_def v_def u_def Let_def)
  then show ?thesis
    using steps_to_advance [OF v] works_trans [OF works_trans [OF v u] works_finish_sweep] works_trans [OF works_trans [OF v u] steps_sweep]
    by (auto intro: steps_to_works)
qed

lemma steps_CurrentSense: "steps_to w (RunCurrentSenseCalibration w)"
proof -
  define v where "v = InjectAlphaCurrent w"
  have v: "works w v" unfolding v_def by (rule works_inject)
  define u where "u = (if hs_sample_count (bu_fsm v) < kNCal then on_fsm (CollectSample (bu_cc v)) v else v)"
  have u: "works v u" unfolding u_def by (auto intro!: works_fsm measured_collect)
  have p: "works u (on_fsm (\<lambda>h. h\<lparr>hs_reading_prompted := True\<rparr>) u)" by (rule works_fsm) (simp add: measured_def arrays_ok_def)
  have "measured h (FinishCurrentSenseCalibration h\<lparr>hs_step_done := True\<rparr>)" for h
    using measured_results(6) [of h] by (simp add: measured_def arrays_ok_def)
  then have f: "works u (on_fsm (\<lambda>h. (FinishCurrentSenseCalibration h)\<lparr>hs_step_done := True\<rparr>) u)" by (rule works_fsm)
  have c: "works v (on_fsm (CollectSample (bu_cc v)) v)" by (rule works_fsm) (rule measured_collect)
  show ?thesis
    using steps_to_advance [OF v] steps_to_works [OF works_trans [OF v u]] steps_to_works [OF works_trans [OF works_trans [OF v u] p]]
      steps_to_advance [OF works_trans [OF works_trans [OF v u] f]] steps_to_works [OF works_trans [OF v c]]
    by (simp add: RunCurrentSenseCalibration_def Let_def v_def [symmetric] u_def [symmetric])
qed

lemma works_done: "works w (on_fsm (\<lambda>h. h\<lparr>hs_step_done := True\<rparr>) w)"
  by (rule works_fsm) (simp add: measured_def arrays_ok_def)

lemma works_pass: "works w (on_fsm (on_results (pass s ok)) w)"
  by (rule works_fsm) (simp add: measured_def arrays_ok_def)

lemma works_gate: "\<not> phase2 (bu_fsm w) \<Longrightarrow> works w (on_cc (ForceDuty a b c) w)"
  by (rule works_force) simp

lemma steps_first_phase:
  "\<not> phase2 (bu_fsm w) \<Longrightarrow> steps_to w (RunPwmDisable w)" "steps_to w (RunAdcOffsetCal w)" "steps_to w (RunAdcNoiseFloor w)"
  "\<not> phase2 (bu_fsm w) \<Longrightarrow> steps_to w (RunDutyForce d w)" "steps_to w (RunDcLinkVoltageCheck w)"
  "\<not> phase2 (bu_fsm w) \<Longrightarrow> steps_to w (RunGateDriverEnableCheck w)"
proof -
  define v where "v = force_all kNeutralDuty w"
  have v: "works w v" unfolding v_def by (rule works_neutral)
  show "steps_to w (RunPwmDisable w)"
    unfolding RunPwmDisable_def Let_def v_def [symmetric]
    using works_trans [OF v works_done] works_trans [OF works_trans [OF v works_done] works_pass]
    by (auto intro: steps_to_works intro!: steps_to_next)
  show "steps_to w (RunAdcOffsetCal w)" "steps_to w (RunAdcNoiseFloor w)"
    unfolding RunAdcOffsetCal_def RunAdcNoiseFloor_def Let_def v_def [symmetric]
    using v works_trans [OF v works_sample [unfolded Let_def]] measured_results(1,2) by (auto intro!: steps_to_advance)
  have m: "works v (on_fsm (measure_vdc x) v)" for x by (rule works_fsm) (rule measured_results)
  show "steps_to w (RunDcLinkVoltageCheck w)"
    unfolding RunDcLinkVoltageCheck_def Let_def v_def [symmetric]
    using v works_trans [OF v m] by (auto intro!: steps_to_advance intro: steps_to_works)
  assume p: "\<not> phase2 (bu_fsm w)"
  show "steps_to w (RunGateDriverEnableCheck w)"
    unfolding RunGateDriverEnableCheck_def v_def [symmetric]
    using steps_to_advance [OF works_refl] works_trans [OF v works_sample] works_trans [OF works_gate [OF p] works_sample]
      measured_results(4,5) by (auto intro: steps_to_works)
  define u where "u = force_all d w"
  have u: "works w u" unfolding u_def force_all_def by (rule works_gate [OF p])
  have "measured (bu_fsm u) (on_results (pass s True) (bu_fsm u\<lparr>hs_step_done := True\<rparr>))"
    "measured (bu_fsm u) (bu_fsm u\<lparr>hs_sample_count := n\<rparr>)" for s n
    by (simp_all add: measured_def arrays_ok_def)
  then show "steps_to w (RunDutyForce d w)"
    unfolding RunDutyForce_def Let_def u_def [symmetric]
    using u by (auto intro!: steps_to_advance works_trans [OF u works_fsm] intro: steps_to_works)
qed

lemma run_step_steps:
  assumes "hs_state (bu_fsm w) \<noteq> FsmConnectMotor"
  shows "steps_to w (run_step w)"
  using assms steps_first_phase [of w] steps_PhaseAdcAlignment [of w] steps_CurrentSense [of w] steps_to_works [OF works_refl, of w]
  by (cases "hs_state (bu_fsm w)") (simp_all add: run_step_def phase2_def)

section \<open>The invariant holds\<close>

lemma EnterFault_sel [simp]:
  "hs_state (bu_fsm (EnterFault f w)) = FsmFault" "hs_step_done (bu_fsm (EnterFault f w)) = hs_step_done (bu_fsm w)"
  "hs_next_step_requested (bu_fsm (EnterFault f w)) = hs_next_step_requested (bu_fsm w)" "hs_fault (bu_fsm (EnterFault f w)) = f"
  "\<not> ps_enabled (bu_stage (EnterFault f w))" "bu_store (EnterFault f w) = bu_store w"
  "arrays_ok (bu_fsm (EnterFault f w)) = arrays_ok (bu_fsm w)"
  "bu_cc (EnterFault f w) = ForceDuty kNeutralDuty kNeutralDuty kNeutralDuty (bu_cc w)"
  by (simp_all add: EnterFault_def PowerStageDisable_def force_all_def arrays_ok_def)

lemma EnterFault_inv:
  assumes "duty_box_ok (bu_cc w)" "arrays_ok (bu_fsm w)" "hs_next_step_requested (bu_fsm w) \<longrightarrow> hs_step_done (bu_fsm w)"
  shows "startup_inv (EnterFault f w)"
  using assms ForceDuty_forces(1) [OF assms(1)]
  by (simp add: startup_inv_def outputs_ok_def counted_def IsActive_def motor_asked_def phase2_def)

lemma ReleaseForceDuty_quiet: "duty_box_ok (ReleaseForceDuty cc) = duty_box_ok cc" "forced (ReleaseForceDuty cc) = forced cc"
  "isr_svm (ReleaseForceDuty cc) = isr_svm cc"
  by (simp_all add: ReleaseForceDuty_def duty_box_ok_def forced_def)

lemma steps_mask_Suc: "k < 12 \<Longrightarrow> 0 < k \<Longrightarrow> steps_mask k OR push_bit k 1 = steps_mask (Suc k)"
proof -
  have "list_all (\<lambda>k. steps_mask k OR push_bit k 1 = steps_mask (Suc k)) [1..<12]" by code_simp
  then show "k < 12 \<Longrightarrow> 0 < k \<Longrightarrow> ?thesis" by (simp add: list_all_iff)
qed

text \<open>The end of the sequence leaves the outputs off, with the calibration applied or with a fault.\<close>

lemma RunDone_inv:
  assumes "duty_box_ok (bu_cc w)" "arrays_ok (bu_fsm w)" "\<not> hs_next_step_requested (bu_fsm w)" "hs_completed (bu_fsm w) = steps_mask 12"
  shows "startup_inv (RunDone w)" "hs_state (bu_fsm (RunDone w)) \<in> {FsmDone, FsmFault}"
proof -
  define v where "v = on_cc ReleaseForceDuty (on_stage PowerStageDisable w)"
  obtain status store where a: "ApplyAdcCalibration (startup_calibration (hs_results (bu_fsm v))) (bu_store v) = (status, store)" by fastforce
  have r: "RunDone w = (let u = v\<lparr>bu_store := store\<rparr> in if status \<noteq> kSuccess then EnterFault SfApplyFailed u
      else on_fsm (\<lambda>h. on_results (\<lambda>r. r\<lparr>sr_current_state := FsmDone\<rparr>) (h\<lparr>hs_state := FsmDone\<rparr>)) u)"
    using a unfolding RunDone_def v_def [symmetric] Let_def by simp
  show "hs_state (bu_fsm (RunDone w)) \<in> {FsmDone, FsmFault}" by (simp add: r Let_def)
  show "startup_inv (RunDone w)"
  proof (cases "status = kSuccess")
    case True
    then show ?thesis using assms unfolding r v_def
      by (simp add: startup_inv_def outputs_ok_def counted_def arrays_ok_def motor_asked_def phase2_def IsActive_def
          ReleaseForceDuty_quiet PowerStageDisable_def)
  next
    case False
    then show ?thesis using assms unfolding r v_def by (simp add: EnterFault_inv ReleaseForceDuty_quiet)
  qed
qed

lemma fsm_states_nth: "fsm_states ! fsm_index s = s" "fsm_index s < 14"
  by (cases s; simp add: fsm_states_def)+

lemma AdvanceToNextState_next:
  assumes "IsActive (bu_fsm w)" "hs_state (bu_fsm w) \<noteq> FsmCurrentSenseCalibration"
  shows "AdvanceToNextState w = on_fsm (TransitionTo (fsm_states ! Suc (fsm_index (hs_state (bu_fsm w)))))
    (on_fsm (\<lambda>h. h\<lparr>hs_next_step_requested := False, hs_completed := hs_completed h OR push_bit (fsm_index (hs_state (bu_fsm w))) 1\<rparr>) w)"
    "fsm_index (fsm_states ! Suc (fsm_index (hs_state (bu_fsm w)))) = Suc (fsm_index (hs_state (bu_fsm w)))"
    "IsActive (bu_fsm (AdvanceToNextState w))"
  using assms by (cases "hs_state (bu_fsm w)"; simp add: IsActive_def AdvanceToNextState_def Let_def fsm_states_def TransitionTo_def)+

lemma AdvanceToNextState_done:
  assumes "hs_state (bu_fsm w) = FsmCurrentSenseCalibration"
  shows "AdvanceToNextState w
    = RunDone (on_fsm (\<lambda>h. h\<lparr>hs_next_step_requested := False, hs_completed := hs_completed h OR push_bit 11 1\<rparr>) w)"
  using assms by (simp add: AdvanceToNextState_def Let_def)

lemma AdvanceToNextState_inv:
  assumes "IsActive (bu_fsm w)" "counted (bu_fsm w)" "arrays_ok (bu_fsm w)" "duty_box_ok (bu_cc w)"
    "ps_enabled (bu_stage w) \<longrightarrow> isr_force_duty_active (bu_cc w)"
    "hs_state (bu_fsm w) \<in> {FsmConnectMotor, FsmPhaseAdcAlignment} \<longrightarrow> calm (hs_v_cal_fraction (bu_fsm w)) (isr_svm (bu_cc w)) (forced (bu_cc w))"
  shows "startup_inv (AdvanceToNextState w)"
proof (cases "hs_state (bu_fsm w) = FsmCurrentSenseCalibration")
  case True
  then have "hs_completed (bu_fsm w) OR push_bit 11 1 = steps_mask 12"
    using assms(1,2) steps_mask_Suc [of 11] by (simp add: counted_def)
  then show ?thesis unfolding AdvanceToNextState_done [OF True]
    using assms(3,4) by (intro RunDone_inv) (simp_all add: arrays_ok_def)
next
  case False
  define k where "k = fsm_index (hs_state (bu_fsm w))"
  have k: "0 < k" "k < 12" using assms(1) by (cases "hs_state (bu_fsm w)"; simp add: k_def IsActive_def)+
  have c: "hs_completed (bu_fsm w) OR push_bit k 1 = steps_mask (Suc k)"
    using assms(1,2) steps_mask_Suc k by (simp add: counted_def k_def)
  note adv = AdvanceToNextState_next [OF assms(1) False, folded k_def]
  have h: "bu_fsm (AdvanceToNextState w) = TransitionTo (fsm_states ! Suc k) ((bu_fsm w)\<lparr>hs_next_step_requested := False, hs_completed := steps_mask (Suc k)\<rparr>)"
    "bu_cc (AdvanceToNextState w) = bu_cc w" "bu_stage (AdvanceToNextState w) = bu_stage w"
    unfolding adv(1) using c by simp_all
  have p: "phase2 (bu_fsm (AdvanceToNextState w)) \<longrightarrow> hs_state (bu_fsm w) \<in> {FsmConnectMotor, FsmPhaseAdcAlignment}"
    using assms(1) False unfolding h by (cases "hs_state (bu_fsm w)") (simp_all add: k_def phase2_def TransitionTo_def fsm_states_def IsActive_def)
  have t: "\<not> hs_step_done (bu_fsm (AdvanceToNextState w))" "\<not> hs_next_step_requested (bu_fsm (AdvanceToNextState w))"
    "hs_completed (bu_fsm (AdvanceToNextState w)) = steps_mask (Suc k)" "hs_state (bu_fsm (AdvanceToNextState w)) = fsm_states ! Suc k"
    "hs_v_cal_fraction (bu_fsm (AdvanceToNextState w)) = hs_v_cal_fraction (bu_fsm w)" "arrays_ok (bu_fsm (AdvanceToNextState w))"
    unfolding h using assms(3) by (simp_all add: TransitionTo_def arrays_ok_def)
  show ?thesis
    using assms(4-6) p t adv(2,3) h(2,3) by (auto simp: startup_inv_def outputs_ok_def counted_def motor_asked_def)
qed

lemma works_inv:
  assumes "startup_inv w" "works w w1" "hs_state (bu_fsm w) \<noteq> FsmConnectMotor"
  shows "startup_inv w1"
  using assms by (auto simp: startup_inv_def outputs_ok_def counted_def motor_asked_def phase2_def works_def measured_def IsActive_def)

lemma steps_to_inv:
  assumes "startup_inv w" "steps_to w w'" "hs_state (bu_fsm w) \<noteq> FsmConnectMotor" "IsActive (bu_fsm w)"
  shows "startup_inv w'"
proof -
  obtain w1 where w1: "works w w1" "w' = w1 \<or> w' = AdvanceToNextState w1" using assms(2) by (auto simp: steps_to_def)
  have i: "startup_inv w1" by (rule works_inv [OF assms(1) w1(1) assms(3)])
  have s: "hs_state (bu_fsm w1) = hs_state (bu_fsm w)" using w1(1) by (simp add: works_def measured_def)
  have "startup_inv (AdvanceToNextState w1)"
    using i s assms(3,4) by (intro AdvanceToNextState_inv) (auto simp: startup_inv_def outputs_ok_def motor_asked_def phase2_def IsActive_def)
  then show ?thesis using w1(2) i by auto
qed

text \<open>The barrier: the outputs are off while it waits, and the neutral duties are forced before they come on again.\<close>

lemma enable_stage_sel [simp]: "bu_fsm (snd (enable_stage w)) = bu_fsm w" "bu_cc (snd (enable_stage w)) = bu_cc w"
  "bu_fsm (clear_fault_state w) = bu_fsm w" "bu_cc (clear_fault_state w) = bu_cc w"
  by (simp_all add: enable_stage_def clear_fault_state_def split_beta)

lemma enable_fails: "\<not> fst (enable_stage w) \<Longrightarrow> \<not> ps_enabled (bu_stage w) \<Longrightarrow> \<not> ps_enabled (bu_stage (snd (enable_stage w)))"
  by (auto simp: enable_stage_def power_stage_defs split: if_splits)

lemma clear_fault_stage [simp]: "ps_enabled (bu_stage (clear_fault_state w)) = ps_enabled (bu_stage w)"
  by (simp add: clear_fault_state_def PowerStageClearFault_def)

lemma ConnectMotor_inv:
  assumes "startup_inv w" "hs_state (bu_fsm w) = FsmConnectMotor"
  shows "startup_inv (RunConnectMotorWait w)"
proof -
  define v where "v = force_all kNeutralDuty w"
  define u where "u = (if hs_step_done (bu_fsm v) then v else motor_wait v)"
  have box: "duty_box_ok (bu_cc w)" using assms(1) by (simp add: startup_inv_def outputs_ok_def)
  have v: "bu_fsm v = bu_fsm w" "bu_stage v = bu_stage w" "duty_box_ok (bu_cc v)" "isr_force_duty_active (bu_cc v)"
    "forced (bu_cc v) = neutral_set (isr_svm (bu_cc v))"
    using ForceDuty_forces [OF box] by (simp_all add: v_def force_all_def neutral_set_def)
  have u: "bu_cc u = bu_cc v" "hs_step_done (bu_fsm u)" "hs_state (bu_fsm u) = FsmConnectMotor" "\<not> ps_enabled (bu_stage u)"
    "counted (bu_fsm u)" "arrays_ok (bu_fsm u)"
    using assms v(1,2) unfolding u_def
    by (auto simp: motor_wait_def startup_inv_def outputs_ok_def counted_def arrays_ok_def IsActive_def PowerStageDisable_def)
  have calm: "calm (hs_v_cal_fraction (bu_fsm u)) (isr_svm (bu_cc u)) (forced (bu_cc u))" using v(5) u(1) by (simp add: calm_def)
  have i: "startup_inv u" using u v(3) calm by (simp add: startup_inv_def outputs_ok_def)
  obtain ok t where t: "enable_stage (clear_fault_state u) = (ok, t)" by fastforce
  then have ts: "bu_fsm t = bu_fsm u" "bu_cc t = bu_cc u"
    using enable_stage_sel [of "clear_fault_state u"] by simp_all
  have "startup_inv (AdvanceToNextState t)"
    using u v(3,4) calm by (intro AdvanceToNextState_inv) (auto simp: ts IsActive_def)
  moreover have "startup_inv (EnterFault f t)" for f
    using u v(3) by (intro EnterFault_inv) (simp_all add: ts)
  moreover have "RunConnectMotorWait w = (if hs_step_done (bu_fsm u) \<and> hs_next_step_requested (bu_fsm u) \<and> ValidateCurrentState (bu_fsm u)
      then if ok then AdvanceToNextState t else EnterFault SfEnableLost t else u)"
    unfolding RunConnectMotorWait_def Let_def v_def [symmetric] u_def [symmetric] t by simp
  ultimately show ?thesis using i by simp
qed

lemma run_step_inv:
  assumes "startup_inv w"
  shows "startup_inv (run_step w)"
proof (cases "hs_state (bu_fsm w) = FsmConnectMotor \<or> \<not> IsActive (bu_fsm w)")
  case True
  then show ?thesis using assms ConnectMotor_inv [OF assms] by (auto simp: run_step_def IsActive_def)
next
  case False
  then show ?thesis using steps_to_inv [OF assms run_step_steps] by simp
qed

lemma startup_inv_cc:
  assumes "startup_inv w" "cc_quiet (bu_cc w) cc"
  shows "startup_inv (w\<lparr>bu_cc := cc\<rparr>)"
  using assms cc_quietD [OF assms(2)] by (simp add: startup_inv_def outputs_ok_def)

lemma RunOnce_inv:
  assumes "startup_inv w"
  shows "startup_inv (hs_RunOnce w)"
proof -
  define v where "v = on_cc (\<lambda>cc. cc\<lparr>isr_state := isr_state cc\<lparr>cst_samples_ready := False\<rparr>\<rparr>) w"
  have v: "startup_inv v"
    using startup_inv_cc [OF assms, of "bu_cc v"] by (simp add: v_def on_cc_def cc_quiet_def)
  then have "startup_inv (EnterFault f v)" for f by (intro EnterFault_inv) (auto simp: startup_inv_def outputs_ok_def counted_def)
  then show ?thesis using assms run_step_inv [OF v] by (simp add: hs_RunOnce_def Let_def v_def [symmetric])
qed

lemma RequestRun_inv:
  assumes "startup_inv w"
  shows "startup_inv (snd (RequestRun w))"
proof (cases "IsActive (bu_fsm w)")
  case True
  then show ?thesis using assms by (simp add: RequestRun_def)
next
  case False
  define v where "v = force_all kNeutralDuty (on_cc ClearTrips (clear_fault_state (on_fsm (fresh_run (oc_limit_of w)) w)))"
  have box: "duty_box_ok (ClearTrips (bu_cc w))" using assms by (simp add: startup_inv_def outputs_ok_def ClearTrips_def duty_box_ok_def)
  have v: "bu_fsm v = fresh_run (oc_limit_of w) (bu_fsm w)" "ps_enabled (bu_stage v) = ps_enabled (bu_stage w)"
    "duty_box_ok (bu_cc v)" "isr_force_duty_active (bu_cc v)"
    using ForceDuty_forces(1) [OF box] by (simp_all add: v_def force_all_def)
  have off: "\<not> ps_enabled (bu_stage v)" using assms False v(2) by (simp add: startup_inv_def outputs_ok_def)
  obtain ok u where u: "enable_stage v = (ok, u)" by fastforce
  have us: "bu_fsm u = bu_fsm v" "bu_cc u = bu_cc v" "\<not> ok \<longrightarrow> \<not> ps_enabled (bu_stage u)"
    using u enable_stage_sel(1,2) [of v] enable_fails [of v] off by auto
  have arr: "arrays_ok (fresh_run (oc_limit_of w) (bu_fsm w))"
    using assms by (simp add: arrays_ok_def fresh_run_def startup_inv_def StartupResults_init_def)
  have "snd (RequestRun w) = (if ok then on_fsm (\<lambda>h. TransitionTo FsmPwmDisable (h\<lparr>hs_started := True\<rparr>)) u else on_cc ReleaseForceDuty u)"
    using False u by (simp add: RequestRun_def Let_def v_def)
  then show ?thesis
    using v us arr by (simp add: startup_inv_def outputs_ok_def counted_def motor_asked_def phase2_def IsActive_def TransitionTo_def
        fresh_run_def arrays_ok_def ReleaseForceDuty_quiet steps_mask_def)
qed

lemma startup_react_inv:
  assumes "startup_inv w"
  shows "startup_inv (startup_react e w)"
proof (cases e)
  case EvSpin
  then show ?thesis using RunOnce_inv [OF assms] by simp
next
  case EvStart
  then show ?thesis using RequestRun_inv [OF assms] by simp
next
  case (EvContinue c)
  then show ?thesis using assms
    by (auto simp: RequestNextStep_def Let_def startup_inv_def outputs_ok_def counted_def arrays_ok_def motor_asked_def phase2_def IsActive_def)
next
  case (EvAbort r)
  moreover have "startup_inv (EnterFault r w)"
    using assms by (intro EnterFault_inv) (auto simp: startup_inv_def outputs_ok_def counted_def)
  ultimately show ?thesis using assms by (simp add: RequestAbort_def)
next
  case (EvCycle raw)
  obtain cc calls where c: "OnControlCycle raw (bu_cc w) = (cc, calls)" by fastforce
  from startup_inv_cc [OF assms cc_quiet_cycle [OF c]] show ?thesis
    using EvCycle c by (simp add: startup_inv_def outputs_ok_def PowerStageTrip_def)
next
  case (EvExternal p)
  then show ?thesis using assms by (auto simp: startup_inv_def outputs_ok_def SetExternalEnable_def PowerStageTrip_def Let_def)
qed (use assms in \<open>auto simp: SetExtVdc_def SetExtCurrent_def startup_inv_def outputs_ok_def counted_def arrays_ok_def motor_asked_def
  phase2_def IsActive_def\<close>)

lemma startup_run_inv: "startup_inv w \<Longrightarrow> startup_inv (startup_run evs w)"
  by (induction evs rule: rev_induct) (simp_all add: startup_react_inv)

text \<open>
  C33. The outputs of a startup run, for every order of commands, control cycles, trips, readings and changes of the external enable:
  the power stage is on only while a run is active, never while the operator connects the motor, and only with forced duties, so the
  current controller drives nothing; from the request to connect the motor on, the forced duties are the neutral ones or the small
  injection and nothing else. The steps are taken in their order without a gap, and a step is left only after it has measured.
\<close>
theorem startup_outputs_safe:
  assumes "startup_inv w"
  shows "(ps_enabled (bu_stage (startup_run evs w)) \<longrightarrow> IsActive (bu_fsm (startup_run evs w)) \<and> isr_force_duty_active (bu_cc (startup_run evs w))
       \<and> \<not> (hs_state (bu_fsm (startup_run evs w)) = FsmConnectMotor \<and> hs_step_done (bu_fsm (startup_run evs w))))
    \<and> (motor_asked (bu_fsm (startup_run evs w)) \<longrightarrow> forced (bu_cc (startup_run evs w))
         \<in> {neutral_set (isr_svm (bu_cc (startup_run evs w))),
            injection_set (hs_v_cal_fraction (bu_fsm (startup_run evs w))) (isr_svm (bu_cc (startup_run evs w)))})
    \<and> (IsActive (bu_fsm (startup_run evs w)) \<longrightarrow> hs_completed (bu_fsm (startup_run evs w))
         = steps_mask (fsm_index (hs_state (bu_fsm (startup_run evs w)))))
    \<and> (hs_next_step_requested (bu_fsm (startup_run evs w)) \<longrightarrow> hs_step_done (bu_fsm (startup_run evs w)))"
  using startup_run_inv [OF assms, of evs] by (auto simp: startup_inv_def outputs_ok_def counted_def calm_def)

text \<open>
  C34. The arrays of the startup aid are used within their bounds: after every order of events the results have one entry per step and
  the sweep one noise value per position, the number of positions measured is at most that of the sweep, and a position that is being
  measured is one of the array.
\<close>
theorem startup_well_formed:
  assumes "startup_inv w"
  shows "length (sr_passed (hs_results (bu_fsm (startup_run evs w)))) = kNumStartupSteps
    \<and> length (hs_sweep_noise_a (bu_fsm (startup_run evs w))) = kNSweepSteps
    \<and> (unat (hs_sweep_pos (bu_fsm (startup_run evs w))) = kNSweepSteps
       \<or> unat (hs_sweep_pos (bu_fsm (startup_run evs w))) < length (hs_sweep_noise_a (bu_fsm (startup_run evs w))))"
  using startup_run_inv [OF assms, of evs] by (auto simp: startup_inv_def arrays_ok_def)

section \<open>The confirmation of the motor\<close>

definition committed :: "HwStartup \<Rightarrow> bool" where
  "committed h \<longleftrightarrow> phase2 h \<or> hs_state h = FsmConnectMotor \<and> hs_next_step_requested h"

lemma steps_to_committed:
  assumes "steps_to w w'" "hs_state (bu_fsm w) \<noteq> FsmConnectMotor" "\<not> phase2 (bu_fsm w)" "IsActive (bu_fsm w)"
  shows "\<not> committed (bu_fsm w')"
proof -
  obtain w1 where w1: "works w w1" "w' = w1 \<or> w' = AdvanceToNextState w1" using assms(1) by (auto simp: steps_to_def)
  have s: "hs_state (bu_fsm w1) = hs_state (bu_fsm w)" using w1(1) by (simp add: works_def measured_def)
  have a: "IsActive (bu_fsm w1)" "hs_state (bu_fsm w1) \<noteq> FsmCurrentSenseCalibration"
    using s assms(3,4) by (simp_all add: IsActive_def phase2_def)
  have "hs_state (bu_fsm (AdvanceToNextState w1)) = fsm_states ! Suc (fsm_index (hs_state (bu_fsm w)))"
    "\<not> hs_next_step_requested (bu_fsm (AdvanceToNextState w1))"
    unfolding AdvanceToNextState_next(1) [OF a] by (simp_all add: TransitionTo_def s)
  then have "\<not> committed (bu_fsm (AdvanceToNextState w1))"
    using assms(2-4) by (cases "hs_state (bu_fsm w)") (simp_all add: committed_def phase2_def IsActive_def fsm_states_def)
  moreover have "\<not> committed (bu_fsm w1)" using s assms(2,3) by (simp add: committed_def phase2_def)
  ultimately show ?thesis using w1(2) by blast
qed

lemma ConnectMotor_waits:
  assumes "\<not> hs_next_step_requested (bu_fsm w)" "hs_state (bu_fsm w) = FsmConnectMotor"
  shows "\<not> committed (bu_fsm (RunConnectMotorWait w))"
  using assms by (simp add: RunConnectMotorWait_def Let_def force_all_def motor_wait_def committed_def phase2_def)

lemma RunOnce_committed:
  assumes "\<not> committed (bu_fsm w)"
  shows "\<not> committed (bu_fsm (hs_RunOnce w))"
proof -
  define v where "v = on_cc (\<lambda>cc. cc\<lparr>isr_state := isr_state cc\<lparr>cst_samples_ready := False\<rparr>\<rparr>) w"
  have v: "\<not> committed (bu_fsm v)" using assms by (simp add: v_def)
  have "\<not> committed (bu_fsm (EnterFault f v))" for f by (simp add: committed_def phase2_def)
  moreover have "\<not> committed (bu_fsm (run_step v))"
  proof (cases "hs_state (bu_fsm v) = FsmConnectMotor \<or> \<not> IsActive (bu_fsm v)")
    case True
    then show ?thesis using v ConnectMotor_waits [of v] by (auto simp: run_step_def IsActive_def committed_def phase2_def)
  next
    case False
    then show ?thesis using steps_to_committed [OF run_step_steps, of v] v by (simp add: committed_def)
  qed
  ultimately show ?thesis using assms by (simp add: hs_RunOnce_def Let_def v_def [symmetric])
qed

lemma react_committed:
  assumes "committed (bu_fsm (startup_react e w))" "\<not> committed (bu_fsm w)"
  shows "e = EvContinue True \<and> hs_state (bu_fsm w) = FsmConnectMotor \<and> hs_step_done (bu_fsm w)"
proof (cases e)
  case EvSpin
  then show ?thesis using RunOnce_committed [OF assms(2)] assms(1) by simp
next
  case EvStart
  then show ?thesis using assms by (auto simp: RequestRun_def Let_def split_beta committed_def phase2_def TransitionTo_def fresh_run_def
      on_defs force_all_def clear_fault_state_def enable_stage_def split: if_splits)
next
  case (EvContinue c)
  then show ?thesis using assms by (auto simp: RequestNextStep_def Let_def committed_def phase2_def Needs_def IsActive_def split: if_splits FsmState.splits)
qed (use assms in \<open>auto simp: RequestAbort_def SetExtVdc_def SetExtCurrent_def committed_def phase2_def Let_def split_beta split: if_splits\<close>)

text \<open>
  C35. No voltage on a motor without the operator: a run is in phase 2 only after the command CONTINUE with the confirmation that the
  motor is connected. It was given in this run, in the step that asks for it, while the outputs were off, and from then on the run
  has only been in this step and in phase 2.
\<close>
theorem motor_confirmed:
  assumes "startup_inv w" "\<not> committed (bu_fsm w)" "phase2 (bu_fsm (startup_run evs w))"
  shows "\<exists>k < length evs. evs ! k = EvContinue True \<and> hs_state (bu_fsm (startup_run (take k evs) w)) = FsmConnectMotor
    \<and> \<not> ps_enabled (bu_stage (startup_run (take k evs) w))
    \<and> (\<forall>j \<in> {k<..length evs}. committed (bu_fsm (startup_run (take j evs) w)))"
proof -
  have "\<exists>k < length evs. evs ! k = EvContinue True \<and> hs_state (bu_fsm (startup_run (take k evs) w)) = FsmConnectMotor
    \<and> \<not> ps_enabled (bu_stage (startup_run (take k evs) w))
    \<and> (\<forall>j \<in> {k<..length evs}. committed (bu_fsm (startup_run (take j evs) w)))"
    if "committed (bu_fsm (startup_run evs w))" for evs
    using that
  proof (induction evs rule: rev_induct)
    case Nil
    then show ?case using assms(2) by simp
  next
    case (snoc e evs)
    show ?case
    proof (cases "committed (bu_fsm (startup_run evs w))")
      case True
      from snoc.IH [OF this] obtain k where k: "k < length evs" "evs ! k = EvContinue True"
        "hs_state (bu_fsm (startup_run (take k evs) w)) = FsmConnectMotor" "\<not> ps_enabled (bu_stage (startup_run (take k evs) w))"
        "\<forall>j \<in> {k<..length evs}. committed (bu_fsm (startup_run (take j evs) w))" by blast
      have "committed (bu_fsm (startup_run (take j (evs @ [e])) w))" if "j \<in> {k<..length (evs @ [e])}" for j
        using that k(5) snoc.prems by (cases "j = Suc (length evs)") auto
      then show ?thesis using k by (intro exI [of _ k]) (simp add: nth_append)
    next
      case False
      then have e: "e = EvContinue True" "hs_state (bu_fsm (startup_run evs w)) = FsmConnectMotor" "hs_step_done (bu_fsm (startup_run evs w))"
        using react_committed [of e "startup_run evs w"] snoc.prems by auto
      then have "\<not> ps_enabled (bu_stage (startup_run evs w))"
        using startup_run_inv [OF assms(1), of evs] by (auto simp: startup_inv_def outputs_ok_def)
      then show ?thesis using e snoc.prems by (intro exI [of _ "length evs"]) auto
    qed
  qed
  then show ?thesis using assms(3) by (simp add: committed_def)
qed

section \<open>The end of a run\<close>

lemma ConnectMotor_result:
  assumes "hs_state (bu_fsm w) = FsmConnectMotor"
  shows "\<exists>u. hs_state (bu_fsm u) = FsmConnectMotor
    \<and> (RunConnectMotorWait w = u \<or> RunConnectMotorWait w = AdvanceToNextState u \<or> RunConnectMotorWait w = EnterFault SfEnableLost u)"
proof -
  define v where "v = (if hs_step_done (bu_fsm w) then force_all kNeutralDuty w else motor_wait (force_all kNeutralDuty w))"
  have "hs_state (bu_fsm v) = FsmConnectMotor" using assms by (simp add: v_def force_all_def motor_wait_def)
  moreover have "RunConnectMotorWait w = (if hs_step_done (bu_fsm v) \<and> hs_next_step_requested (bu_fsm v) \<and> ValidateCurrentState (bu_fsm v)
      then if fst (enable_stage (clear_fault_state v)) then AdvanceToNextState (snd (enable_stage (clear_fault_state v)))
        else EnterFault SfEnableLost (snd (enable_stage (clear_fault_state v))) else v)"
    by (simp add: RunConnectMotorWait_def Let_def v_def force_all_def split_beta)
  ultimately show ?thesis by (metis enable_stage_sel(1,3))
qed

lemma ApplyAdcCalibration_valid: "ApplyAdcCalibration c st = (kSuccess, st') \<Longrightarrow> Validate (st_settings st') (st_capabilities st) = kSuccess"
  by (simp add: ApplyAdcCalibration_def Update_def Commit_def Let_def split: if_splits) auto

lemma RunDone_done:
  assumes "hs_state (bu_fsm (RunDone w)) = FsmDone"
  shows "ApplyAdcCalibration (startup_calibration (hs_results (bu_fsm (RunDone w)))) (bu_store w) = (kSuccess, bu_store (RunDone w))"
    "\<not> ps_enabled (bu_stage (RunDone w))" "\<not> isr_force_duty_active (bu_cc (RunDone w))"
proof -
  obtain status store where a: "ApplyAdcCalibration (startup_calibration (hs_results (bu_fsm w))) (bu_store w) = (status, store)" by fastforce
  have ok: "status = kSuccess" using assms a by (auto simp: RunDone_def Let_def split: if_splits)
  show "ApplyAdcCalibration (startup_calibration (hs_results (bu_fsm (RunDone w)))) (bu_store w) = (kSuccess, bu_store (RunDone w))"
    "\<not> ps_enabled (bu_stage (RunDone w))" "\<not> isr_force_duty_active (bu_cc (RunDone w))"
    using a ok by (simp_all add: RunDone_def Let_def startup_calibration_def ReleaseForceDuty_def PowerStageDisable_def)
qed

lemma steps_to_done:
  assumes "steps_to w w'" "hs_state (bu_fsm w) \<noteq> FsmDone" "IsActive (bu_fsm w)" "hs_state (bu_fsm w') = FsmDone"
  shows "hs_state (bu_fsm w) = FsmCurrentSenseCalibration \<and> hs_next_step_requested (bu_fsm w)
    \<and> (\<exists>v. w' = RunDone v \<and> bu_store v = bu_store w)"
proof -
  obtain w1 where w1: "works w w1" "w' = w1 \<or> hs_next_step_requested (bu_fsm w1) \<and> w' = AdvanceToNextState w1" using assms(1) by (auto simp: steps_to_def)
  have s: "hs_state (bu_fsm w1) = hs_state (bu_fsm w)" "hs_next_step_requested (bu_fsm w1) = hs_next_step_requested (bu_fsm w)"
    "bu_store w1 = bu_store w" using w1(1) by (simp_all add: works_def measured_def)
  have a: "w' = AdvanceToNextState w1" "hs_next_step_requested (bu_fsm w)" using w1(2) s assms(2,4) by auto
  have i: "IsActive (bu_fsm w1)" using s assms(3) by (simp add: IsActive_def)
  have c: "hs_state (bu_fsm w1) = FsmCurrentSenseCalibration"
    using AdvanceToNextState_next(3) [OF i] a assms(4) by (auto simp: IsActive_def)
  then show ?thesis using a s AdvanceToNextState_done [OF c] by auto
qed

lemma calibration_settings:
  assumes "ApplyAdcCalibration (startup_calibration r) st = (kSuccess, st')"
  shows "st_settings st' = (st_settings st)\<lparr>nvm_adc_offset_a := sr_adc_offset_a r, nvm_adc_offset_b := sr_adc_offset_b r,
    nvm_adc_offset_c := sr_adc_offset_c r,
    nvm_adc_gain_a := (if f32_of (1/10000) < sr_gain_a r then f32_of 1 / sr_gain_a r else f32_of 1),
    nvm_adc_gain_b := (if f32_of (1/10000) < sr_gain_b r then f32_of 1 / sr_gain_b r else f32_of 1),
    nvm_adc_gain_c := (if f32_of (1/10000) < sr_gain_c r then f32_of 1 / sr_gain_c r else f32_of 1),
    nvm_adc_gain_vdc := (if f32_of (1/10000) < sr_gain_vdc r then f32_of 1 / sr_gain_vdc r else f32_of 1)\<rparr>"
  using assms by (auto simp: ApplyAdcCalibration_def Update_def Commit_def startup_calibration_def correction_of_def Let_def split: if_splits)

text \<open>
  C36. A run that ends in DONE has gone through its last step with the decision of the operator, and has written to the live settings
  exactly this: the measured offset of each phase and, for each phase and for the supply voltage, the inverse of the measured gain (one
  where the gain was not measured); every other setting is the one of before. These settings passed the validation. The run leaves the
  outputs off and the control loop released. A calibration that the validation refuses does not end the run in DONE.
\<close>
theorem startup_done_applies:
  assumes "hs_state (bu_fsm w) \<noteq> FsmDone" "hs_state (bu_fsm (hs_RunOnce w)) = FsmDone"
  shows "hs_state (bu_fsm w) = FsmCurrentSenseCalibration \<and> hs_next_step_requested (bu_fsm w)
    \<and> (let r = hs_results (bu_fsm (hs_RunOnce w)); correction = (\<lambda>gain. if f32_of (1/10000) < gain then f32_of 1 / gain else f32_of 1)
       in st_settings (bu_store (hs_RunOnce w)) = (st_settings (bu_store w))\<lparr>
            nvm_adc_offset_a := sr_adc_offset_a r, nvm_adc_offset_b := sr_adc_offset_b r, nvm_adc_offset_c := sr_adc_offset_c r,
            nvm_adc_gain_a := correction (sr_gain_a r), nvm_adc_gain_b := correction (sr_gain_b r),
            nvm_adc_gain_c := correction (sr_gain_c r), nvm_adc_gain_vdc := correction (sr_gain_vdc r)\<rparr>)
    \<and> Validate (st_settings (bu_store (hs_RunOnce w))) (st_capabilities (bu_store w)) = kSuccess
    \<and> \<not> ps_enabled (bu_stage (hs_RunOnce w)) \<and> \<not> isr_force_duty_active (bu_cc (hs_RunOnce w))"
proof -
  define v where "v = on_cc (\<lambda>cc. cc\<lparr>isr_state := isr_state cc\<lparr>cst_samples_ready := False\<rparr>\<rparr>) w"
  have v: "bu_fsm v = bu_fsm w" "bu_store v = bu_store w" by (simp_all add: v_def)
  have r: "hs_RunOnce w = run_step v"
    using assms by (auto simp: hs_RunOnce_def Let_def v_def [symmetric] split: if_splits)
  have act: "IsActive (bu_fsm v)" using assms r v by (cases "hs_state (bu_fsm v)") (auto simp: run_step_def IsActive_def)
  have nc: "hs_state (bu_fsm v) \<noteq> FsmConnectMotor"
  proof
    assume c: "hs_state (bu_fsm v) = FsmConnectMotor"
    then obtain u where "hs_state (bu_fsm u) = FsmConnectMotor"
      "run_step v = u \<or> run_step v = AdvanceToNextState u \<or> run_step v = EnterFault SfEnableLost u"
      using ConnectMotor_result [OF c] by (auto simp: run_step_def)
    then show False using assms(2) r AdvanceToNextState_next(3) [of u] by (auto simp: IsActive_def)
  qed
  obtain u where u: "hs_state (bu_fsm w) = FsmCurrentSenseCalibration" "hs_next_step_requested (bu_fsm w)" "run_step v = RunDone u" "bu_store u = bu_store w"
    using steps_to_done [OF run_step_steps [OF nc] _ act] assms r v by auto
  note d = RunDone_done [of u]
  have valid: "Validate (st_settings (bu_store (hs_RunOnce w))) (st_capabilities (bu_store w)) = kSuccess"
    using ApplyAdcCalibration_valid [OF d(1)] assms(2) u r by simp
  have "ApplyAdcCalibration (startup_calibration (hs_results (bu_fsm (hs_RunOnce w)))) (bu_store w) = (kSuccess, bu_store (hs_RunOnce w))"
    using d(1) assms(2) u r by simp
  note calibration_settings [OF this]
  moreover have "\<not> ps_enabled (bu_stage (hs_RunOnce w))" "\<not> isr_force_duty_active (bu_cc (hs_RunOnce w))"
    using d(2,3) assms(2) u r by simp_all
  ultimately show ?thesis using u(1,2) valid unfolding Let_def by (intro conjI)
qed

section \<open>Witnesses\<close>

definition powered_up :: "'w SettingsStore \<Rightarrow> 'w Bringup" where
  "powered_up store = \<lparr>bu_fsm = HwStartup_init, bu_cc = CurrentControlIsr_init, bu_stage = PowerStage_init, bu_store = store, bu_calls = []\<rparr>"

lemma powered_up_inv: "startup_inv (powered_up store)"
  by (simp add: powered_up_def startup_inv_def outputs_ok_def counted_def arrays_ok_def HwStartup_init_def IsActive_def motor_asked_def
      phase2_def CurrentControlIsr_init_def duty_box_ok_def Mailbox_init_def PowerStage_init_def StartupResults_init_def)

theorem startup_well_formed_witness:
  "length (sr_passed (hs_results (bu_fsm (startup_run [EvStart, EvSpin, EvSpin] (powered_up default_store))))) = 14
    \<and> length (hs_sweep_noise_a (bu_fsm (startup_run [EvStart, EvSpin, EvSpin] (powered_up default_store)))) = kNSweepSteps"
  using startup_well_formed [OF powered_up_inv, of "[EvStart, EvSpin, EvSpin]" default_store] by (simp add: kNumStartupSteps_def)

theorem startup_outputs_safe_witness:
  "ps_enabled (bu_stage (startup_run [EvStart] (powered_up default_store)))
    \<and> isr_force_duty_active (bu_cc (startup_run [EvStart] (powered_up default_store)))
    \<and> hs_completed (bu_fsm (startup_run [EvStart] (powered_up default_store))) = 0"
proof -
  have e: "ps_enabled (bu_stage (startup_run [EvStart] (powered_up default_store)))"
    "hs_state (bu_fsm (startup_run [EvStart] (powered_up default_store))) = FsmPwmDisable"
    by (simp_all add: startup_run_def powered_up_def RequestRun_def Let_def IsActive_def HwStartup_init_def on_defs fresh_run_def
        clear_fault_state_def power_stage_defs PowerStage_init_def enable_stage_def force_all_def TransitionTo_def)
  then show ?thesis using startup_outputs_safe [OF powered_up_inv, of "[EvStart]" default_store]
    by (simp add: steps_mask_def)
qed

definition waiting_motor :: "world Bringup" where
  "waiting_motor = (powered_up default_store)\<lparr>bu_fsm := HwStartup_init\<lparr>hs_state := FsmConnectMotor, hs_step_done := True,
     hs_completed := steps_mask 9\<rparr>, bu_cc := ForceDuty kNeutralDuty kNeutralDuty kNeutralDuty
       (CurrentControlIsr_init\<lparr>isr_state := CurrentControlState_init\<lparr>cst_samples_ready := True\<rparr>\<rparr>)\<rparr>"

lemma waiting_motor_inv: "startup_inv waiting_motor" "\<not> committed (bu_fsm waiting_motor)"
proof -
  have box: "duty_box_ok (CurrentControlIsr_init\<lparr>isr_state := CurrentControlState_init\<lparr>cst_samples_ready := True\<rparr>\<rparr>)"
    by (simp add: duty_box_ok_def CurrentControlIsr_init_def Mailbox_init_def)
  from ForceDuty_forces [OF this] show "startup_inv waiting_motor"
    by (simp add: waiting_motor_def powered_up_def startup_inv_def outputs_ok_def counted_def arrays_ok_def motor_asked_def phase2_def
        HwStartup_init_def IsActive_def PowerStage_init_def StartupResults_init_def calm_def neutral_set_def)
  show "\<not> committed (bu_fsm waiting_motor)" by (simp add: waiting_motor_def committed_def phase2_def HwStartup_init_def)
qed

lemma waiting_motor_starts: "hs_state (bu_fsm (startup_run [EvContinue True, EvSpin] waiting_motor)) = FsmPhaseAdcAlignment"
proof -
  have oc: "\<not> Exceeds zero_phases (f32_of 10)" by code_simp
  then show ?thesis
    by (simp add: startup_run_def waiting_motor_def powered_up_def RequestNextStep_def Needs_def Let_def IsActive_def on_defs HwStartup_init_def
        hs_RunOnce_def CheckMotorOc_def run_step_def RunConnectMotorWait_def force_all_def ValidateCurrentState_def clear_fault_state_def
        enable_stage_def power_stage_defs PowerStage_init_def AdvanceToNextState_def TransitionTo_def fsm_states_def
        CurrentControlIsr_init_def CurrentControlState_init_def)
qed

theorem motor_confirmed_witness:
  "\<exists>k < 2. [EvContinue True, EvSpin] ! k = EvContinue True \<and> \<not> ps_enabled (bu_stage (startup_run (take k [EvContinue True, EvSpin]) waiting_motor))"
proof -
  have "phase2 (bu_fsm (startup_run [EvContinue True, EvSpin] waiting_motor))" using waiting_motor_starts by (simp add: phase2_def)
  from motor_confirmed [OF waiting_motor_inv this] obtain k where "k < 2" "[EvContinue True, EvSpin] ! k = EvContinue True"
    "\<not> ps_enabled (bu_stage (startup_run (take k [EvContinue True, EvSpin]) waiting_motor))" by (auto simp: numeral_2_eq_2)
  then show ?thesis by blast
qed

definition calibrated_startup :: "world Bringup" where
  "calibrated_startup = (powered_up default_store)\<lparr>bu_fsm := HwStartup_init\<lparr>hs_state := FsmCurrentSenseCalibration, hs_step_done := True,
     hs_next_step_requested := True, hs_ext_current := f32_of 5,
     hs_results := StartupResults_init\<lparr>sr_gain_a := f32_of 2\<rparr>\<rparr>, bu_stage := PowerStage_init\<lparr>ps_enabled := True\<rparr>,
     bu_cc := CurrentControlIsr_init\<lparr>isr_state := CurrentControlState_init\<lparr>cst_samples_ready := True\<rparr>\<rparr>\<rparr>"

lemma gain_kept_valid:
  "Validate (NvmSettings_default 1 0\<lparr>nvm_adc_gain_a := f32_of (1/2)\<rparr>) HardwareCapabilities_default = kSuccess"
proof -
  let ?s = "NvmSettings_default 1 0" and ?t = "NvmSettings_default 1 0\<lparr>nvm_adc_gain_a := f32_of (1/2)\<rparr>"
  have g: "isfinite (f32_of (1/2))" "\<not> f32_of (1/2) \<le> 0" by code_simp+
  note V = Validate_success [OF default_valid [of 1 0]]
  have "IsFinite ?t" using V(1) g unfolding IsFinite_def IsFiniteEbike_def by simp
  moreover have "\<not> modulation_out_of_range ?t" using V(8) g unfolding modulation_out_of_range_def by simp
  moreover have "IsValidEnumValues ?t = IsValidEnumValues ?s" "limits_out_of_range ?t = limits_out_of_range ?s"
    "motor_out_of_range ?t = motor_out_of_range ?s" "observer_out_of_range ?t = observer_out_of_range ?s"
    "ports_out_of_range ?t = ports_out_of_range ?s" "cart_out_of_range ?t = cart_out_of_range ?s"
    "ebike_out_of_range ?t = ebike_out_of_range ?s" "trace_ports_out_of_range ?t = trace_ports_out_of_range ?s"
    "HasPortIdCollision ?t = HasPortIdCollision ?s"
    unfolding IsValidEnumValues_def range_defs HasPortIdCollision_def subjects_def services_def Let_def by simp_all
  ultimately show ?thesis using V by (simp add: Validate_def)
qed

lemma measured_correction: "correction_of (f32_of 2) = f32_of (1/2)" "correction_of (f32_of 1) = f32_of 1" "f32_of 1 / f32_of 2 = f32_of (1/2)"
  "f32_of 1 / f32_of 1 = f32_of 1" "f32_of (1/10000) < f32_of 2" "f32_of (1/10000) < f32_of 1"
  by code_simp+

lemma calibrated_startup_done: "hs_state (bu_fsm (hs_RunOnce calibrated_startup)) = FsmDone"
  "hs_results (bu_fsm (hs_RunOnce calibrated_startup)) = StartupResults_init\<lparr>sr_gain_a := f32_of 2, sr_current_state := FsmDone\<rparr>"
proof -
  let ?r = "StartupResults_init\<lparr>sr_gain_a := f32_of 2\<rparr>"
  have oc: "\<not> Exceeds zero_phases (f32_of 10)" "\<not> f32_of 5 < f32_of (1/1000)" "(0 :: f32) = f32_of 0"
    by code_simp+
  have same: "NvmSettings_default 1 0\<lparr>nvm_adc_offset_a := 0, nvm_adc_offset_b := 0, nvm_adc_offset_c := 0, nvm_adc_gain_a := f32_of (1/2),
      nvm_adc_gain_b := f32_of 1, nvm_adc_gain_c := f32_of 1, nvm_adc_gain_vdc := f32_of 1\<rparr> = NvmSettings_default 1 0\<lparr>nvm_adc_gain_a := f32_of (1/2)\<rparr>"
    by (simp add: NvmSettings_default_def oc(3))
  have st: "ApplyAdcCalibration (startup_calibration ?r) default_store
      = (kSuccess, default_store\<lparr>st_settings := NvmSettings_default 1 0\<lparr>nvm_adc_gain_a := f32_of (1/2)\<rparr>\<rparr>)"
    by (simp add: ApplyAdcCalibration_def Update_def Commit_def Let_def startup_calibration_def StartupResults_init_def measured_correction
        default_store_def SettingsStore_init_def default_profile_def same gain_kept_valid)
  show "hs_state (bu_fsm (hs_RunOnce calibrated_startup)) = FsmDone" "hs_results (bu_fsm (hs_RunOnce calibrated_startup)) = ?r\<lparr>sr_current_state := FsmDone\<rparr>"
    by (simp_all add: calibrated_startup_def powered_up_def hs_RunOnce_def Let_def IsActive_def on_defs HwStartup_init_def CheckMotorOc_def run_step_def
        RunCurrentSenseCalibration_def advance_if_requested_def InjectAlphaCurrent_def ValidateCurrentState_def AdvanceToNextState_def RunDone_def
        GetPowerStageState_def CurrentControlIsr_init_def CurrentControlState_init_def oc(1,2) st)
qed

theorem startup_done_applies_witness:
  "nvm_adc_gain_a (st_settings (bu_store (hs_RunOnce calibrated_startup))) = f32_of (1/2)
    \<and> nvm_adc_gain_b (st_settings (bu_store (hs_RunOnce calibrated_startup))) = f32_of 1
    \<and> Validate (st_settings (bu_store (hs_RunOnce calibrated_startup))) (st_capabilities (bu_store calibrated_startup)) = kSuccess
    \<and> \<not> ps_enabled (bu_stage (hs_RunOnce calibrated_startup)) \<and> \<not> isr_force_duty_active (bu_cc (hs_RunOnce calibrated_startup))"
proof -
  let ?r = "StartupResults_init\<lparr>sr_gain_a := f32_of 2, sr_current_state := FsmDone\<rparr>"
  have w: "hs_state (bu_fsm calibrated_startup) \<noteq> FsmDone" by (simp add: calibrated_startup_def)
  have r: "sr_gain_a ?r = f32_of 2" "sr_gain_b ?r = f32_of 1" by (simp_all add: StartupResults_init_def)
  have fields: "nvm_adc_gain_a (st\<lparr>nvm_adc_offset_a := x1, nvm_adc_offset_b := x2, nvm_adc_offset_c := x3, nvm_adc_gain_a := x4,
      nvm_adc_gain_b := x5, nvm_adc_gain_c := x6, nvm_adc_gain_vdc := x7\<rparr>) = x4"
    "nvm_adc_gain_b (st\<lparr>nvm_adc_offset_a := x1, nvm_adc_offset_b := x2, nvm_adc_offset_c := x3, nvm_adc_gain_a := x4,
      nvm_adc_gain_b := x5, nvm_adc_gain_c := x6, nvm_adc_gain_vdc := x7\<rparr>) = x5" for st :: NvmSettings and x1 x2 x3 x4 x5 x6 x7
    by simp_all
  note fin = startup_done_applies [OF w calibrated_startup_done(1), unfolded Let_def calibrated_startup_done(2) r]
  then have "nvm_adc_gain_a (st_settings (bu_store (hs_RunOnce calibrated_startup))) = f32_of (1/2)"
    "nvm_adc_gain_b (st_settings (bu_store (hs_RunOnce calibrated_startup))) = f32_of 1"
    by (simp_all only: fields measured_correction if_True)
  then show ?thesis using fin by (intro conjI) blast+
qed

end
