(* ===== verification/Commissioning.thy ===== *)
theory Commissioning
  imports Hw_Startup Cyphal_Node
begin

text \<open>
  The commissioning of a drive over the bus, \<open>src/src/drive/commissioning.hpp\<close> and \<open>.cpp\<close>: the commands of the startup aid with their
  parameters, the status message with its publication times, and the register of the results. The codes are those of
  \<open>src/dsdl/unimoc/drive/CommissioningStatus.0.1.dsdl\<close>; the serialization of the message is generated code and not part of the model.
\<close>

section \<open>Text\<close>

definition text_of :: "string \<Rightarrow> u8 list" where
  "text_of s = map of_char s"

subsection \<open>The number at the start of a text\<close>

text \<open>
  \<open>std::strtof\<close> in the C locale: white space, a sign, then a decimal or a hexadecimal number, \<open>inf\<close>, \<open>infinity\<close> or \<open>nan\<close>. The result is
  the value and the rest of the text, which is the whole text when there is no number. A \<open>nan\<close> with characters in parentheses is read
  without them, which leaves a rest that no caller accepts.
\<close>

definition is_space :: "u8 \<Rightarrow> bool" where
  "is_space b \<longleftrightarrow> b = 32 \<or> 9 \<le> b \<and> b \<le> 13"

definition lower :: "u8 \<Rightarrow> u8" where
  "lower b = (if 65 \<le> b \<and> b \<le> 90 then b + 32 else b)"

definition digit :: "nat \<Rightarrow> u8 \<Rightarrow> nat option" where
  "digit base b = (let d = (if 48 \<le> b \<and> b \<le> 57 then unat (b - 48) else if 97 \<le> lower b \<and> lower b \<le> 102 then unat (lower b - 87) else 16)
     in if d < base then Some d else None)"

definition digits :: "nat \<Rightarrow> u8 list \<Rightarrow> nat list \<times> u8 list" where
  "digits base bs = (map (\<lambda>b. the (digit base b)) (takeWhile (\<lambda>b. digit base b \<noteq> None) bs), dropWhile (\<lambda>b. digit base b \<noteq> None) bs)"

definition digits_value :: "nat \<Rightarrow> nat list \<Rightarrow> int" where
  "digits_value base ds = foldl (\<lambda>a d. a * int base + int d) 0 ds"

definition sign_of :: "u8 list \<Rightarrow> bool \<times> u8 list" where
  "sign_of bs = (case bs of b # r \<Rightarrow> if b = 45 then (True, r) else if b = 43 then (False, r) else (False, bs) | [] \<Rightarrow> (False, []))"

text \<open>The exponent after its letter; without a digit it is not taken.\<close>

definition exponent_of :: "u8 \<Rightarrow> u8 list \<Rightarrow> int \<times> u8 list" where
  "exponent_of letter bs = (case bs of [] \<Rightarrow> (0, []) | b # r \<Rightarrow>
     if lower b \<noteq> letter then (0, bs)
     else let (negative, r) = sign_of r; (ds, rest) = digits 10 r in
       if ds = [] then (0, bs) else (if negative then - digits_value 10 ds else digits_value 10 ds, rest))"

definition rat_power :: "nat \<Rightarrow> int \<Rightarrow> rat" where
  "rat_power base e = (if 0 \<le> e then of_nat base ^ nat e else 1 / of_nat base ^ nat (- e))"

text \<open>A number without its sign in the given base; the exponent letter has its own base.\<close>

definition unsigned_number :: "nat \<Rightarrow> u8 \<Rightarrow> nat \<Rightarrow> u8 list \<Rightarrow> (rat \<times> u8 list) option" where
  "unsigned_number base letter exponent_base bs = (let
     (whole, r) = digits base bs;
     (fraction, r) = (case r of b # r' \<Rightarrow> if b = 46 then digits base r' else ([], r) | [] \<Rightarrow> ([], []))
   in if whole = [] \<and> fraction = [] then None
      else let (e, rest) = exponent_of letter r in
        Some (of_int (digits_value base (whole @ fraction)) / of_nat base ^ length fraction * rat_power exponent_base e, rest))"

definition starts_with :: "string \<Rightarrow> u8 list \<Rightarrow> bool" where
  "starts_with s bs \<longleftrightarrow> map lower (take (length s) bs) = text_of s"

definition unsigned_float :: "bool \<Rightarrow> u8 list \<Rightarrow> (f32 \<times> u8 list) option" where
  "unsigned_float negative bs =
    (if starts_with ''infinity'' bs then Some (inf_of negative, drop 8 bs)
     else if starts_with ''inf'' bs then Some (inf_of negative, drop 3 bs)
     else if starts_with ''nan'' bs then Some (NaN, drop 3 bs)
     else let hex = (if starts_with ''0x'' bs then unsigned_number 16 112 2 (drop 2 bs) else None) in
       map_option (\<lambda>(q, rest). (f32_round negative (if negative then - q else q), rest))
         (if hex \<noteq> None then hex else unsigned_number 10 101 10 bs))"

definition strtof :: "u8 list \<Rightarrow> f32 \<times> u8 list" where
  "strtof bs = (let (negative, r) = sign_of (dropWhile is_space bs)
     in case unsigned_float negative r of None \<Rightarrow> (0, bs) | Some x \<Rightarrow> x)"

definition kMaxReading :: f32 where "kMaxReading = f32_of 1000"

definition Number :: "u8 list \<Rightarrow> f32 option" where
  "Number text = (if text = [] \<or> length text \<ge> 24 then None
     else let (value, rest) = strtof text in
       if rest \<noteq> [] \<or> \<not> isfinite value \<or> \<not> value > 0 \<or> value > kMaxReading then None else Some value)"

section \<open>The commands\<close>

definition kStatusSuccess :: u8 where "kStatusSuccess = 0"
definition kStatusFailure :: u8 where "kStatusFailure = 1"
definition kStatusBadParameter :: u8 where "kStatusBadParameter = 4"
definition kStatusBadState :: u8 where "kStatusBadState = 5"

definition COMMAND_START_STARTUP_AID :: u16 where "COMMAND_START_STARTUP_AID = 0x200"
definition COMMAND_CONTINUE :: u16 where "COMMAND_CONTINUE = 0x202"
definition COMMAND_SET_READING :: u16 where "COMMAND_SET_READING = 0x203"
definition COMMAND_ABORT :: u16 where "COMMAND_ABORT = 0x204"
definition COMMAND_APPLY_IDENTIFICATION :: u16 where "COMMAND_APPLY_IDENTIFICATION = 0x205"

definition result :: "u8 \<Rightarrow> string \<Rightarrow> CommandResult" where
  "result status text = \<lparr>cr_status = status, cr_output = text_of text\<rparr>"

definition Handles :: "u16 \<Rightarrow> bool" where
  "Handles command \<longleftrightarrow> command \<ge> COMMAND_START_STARTUP_AID \<and> command \<le> COMMAND_APPLY_IDENTIFICATION"

definition cm_Start :: "bool \<Rightarrow> bool \<Rightarrow> 'w Bringup \<Rightarrow> CommandResult \<times> 'w Bringup" where
  "cm_Start engaged emergency_stop w =
    (if engaged then (result kStatusBadState ''engaged: disengage first'', w)
     else if emergency_stop then (result kStatusBadState ''emergency stop latched: restart first'', w)
     else let (start, w) = RequestRun w in
       (case start of
          SsStarted \<Rightarrow> result kStatusSuccess ''started: phase 1 without the motor''
        | SsRunning \<Rightarrow> result kStatusBadState ''the startup aid runs already''
        | SsNotReleased \<Rightarrow> result kStatusFailure ''outputs not released: external enable missing'', w))"

definition cm_Continue :: "u8 list \<Rightarrow> 'w Bringup \<Rightarrow> CommandResult \<times> 'w Bringup" where
  "cm_Continue confirmation w = (let confirmed = (confirmation = text_of ''motor-connected'') in
     if confirmation \<noteq> [] \<and> \<not> confirmed then (result kStatusBadParameter ''unknown confirmation'', w)
     else let (answer, w) = RequestNextStep confirmed w in
       (case answer of
          ScAccepted \<Rightarrow> result kStatusSuccess ''''
        | ScNotRunning \<Rightarrow> result kStatusBadState ''the startup aid is not running''
        | ScMeasuring \<Rightarrow> result kStatusBadState ''the step is still measuring''
        | ScNeedsReading \<Rightarrow> result kStatusBadState ''the step needs its meter reading''
        | ScNeedsConfirmation \<Rightarrow> result kStatusBadParameter ''confirm motor-connected''
        | ScUnexpectedConfirmation \<Rightarrow> result kStatusBadParameter ''this step takes no confirmation'', w))"

definition cm_SetReading :: "u8 list \<Rightarrow> 'w Bringup \<Rightarrow> CommandResult \<times> 'w Bringup" where
  "cm_SetReading reading w =
    (if \<not> IsActive (bu_fsm w) then (result kStatusBadState ''the startup aid is not running'', w)
     else if 61 \<notin> set reading then (result kStatusBadParameter ''expected vdc=<V> or current=<A>'', w)
     else let name = takeWhile (\<lambda>b. b \<noteq> 61) reading in
       (case Number (tl (dropWhile (\<lambda>b. b \<noteq> 61) reading)) of
          None \<Rightarrow> (result kStatusBadParameter ''not a positive number'', w)
        | Some value \<Rightarrow>
            if name = text_of ''vdc'' then (result kStatusSuccess '''', SetExtVdc value w)
            else if name = text_of ''current'' then (result kStatusSuccess '''', SetExtCurrent value w)
            else (result kStatusBadParameter ''expected vdc=<V> or current=<A>'', w)))"

definition cm_OnCommand :: "bool \<Rightarrow> bool \<Rightarrow> u16 \<Rightarrow> u8 list \<Rightarrow> 'w Bringup \<Rightarrow> CommandResult \<times> 'w Bringup" where
  "cm_OnCommand engaged emergency_stop command parameter w =
    (if command = COMMAND_START_STARTUP_AID then cm_Start engaged emergency_stop w
     else if command = COMMAND_CONTINUE then cm_Continue parameter w
     else if command = COMMAND_SET_READING then cm_SetReading parameter w
     else if command = COMMAND_ABORT then (result kStatusSuccess '''', RequestAbort SfAborted w)
     else (result kStatusBadCommand ''not implemented'', w))"

section \<open>The status message\<close>

datatype CommissioningState = CsIdle | CsMeasuring | CsWaiting | CsNeedsReading | CsDone | CsFailed | CsAborted

definition StateOf :: "StartupStatus \<Rightarrow> CommissioningState" where
  "StateOf s =
    (if sts_active s then
       (if sts_needs s = NeedsDcLinkVoltage \<or> sts_needs s = NeedsPhaseCurrent then CsNeedsReading
        else if sts_measured s then CsWaiting else CsMeasuring)
     else if sts_step s = FsmDone then CsDone
     else if sts_step s = FsmFault then
       (if sts_fault s = SfAborted \<or> sts_fault s = SfEmergencyStop then CsAborted else CsFailed)
     else CsIdle)"

text \<open>The message; an enumeration stands for its number, and the counter is always 0 (motor identification).\<close>

record CommissioningStatus =
  cs_procedure :: bool
  cs_step :: FsmState
  cs_state :: CommissioningState
  cs_needs :: StartupNeeds
  cs_progress :: u8
  cs_passed :: u32
  cs_failed :: u32
  cs_fault :: StartupFault

definition CommissioningStatus_init :: CommissioningStatus where
  "CommissioningStatus_init = \<lparr>cs_procedure = False, cs_step = FsmIdle, cs_state = CsIdle, cs_needs = NeedsNone, cs_progress = 0,
     cs_passed = 0, cs_failed = 0, cs_fault = SfNone\<rparr>"

definition cm_Status :: "HwStartup \<Rightarrow> CommissioningStatus" where
  "cm_Status h = (let s = hs_Status h in
     \<lparr>cs_procedure = sts_started s, cs_step = sts_step s, cs_state = StateOf s, cs_needs = sts_needs s, cs_progress = sts_progress s,
      cs_passed = sts_passed s, cs_failed = sts_failed s, cs_fault = sts_fault s\<rparr>)"

record Commissioning =
  cm_last :: CommissioningStatus
  cm_published :: bool
  cm_next_us :: u64

definition Commissioning_init :: Commissioning where
  "Commissioning_init = \<lparr>cm_last = CommissioningStatus_init, cm_published = False, cm_next_us = 0\<rparr>"

definition kActivePeriodUs :: u64 where "kActivePeriodUs = 500000"
definition kIdlePeriodUs :: u64 where "kIdlePeriodUs = 2000000"

text \<open>The message to publish, if it is due.\<close>

definition cm_Due :: "u64 \<Rightarrow> HwStartup \<Rightarrow> Commissioning \<Rightarrow> CommissioningStatus option \<times> Commissioning" where
  "cm_Due now_us h c = (let
     status = cm_Status h;
     changed = (\<not> cm_published c \<or> status \<noteq> cm_last c)
   in if \<not> changed \<and> now_us < cm_next_us c then (None, c)
      else (Some status, c\<lparr>cm_next_us := now_us + (if IsActive h then kActivePeriodUs else kIdlePeriodUs), cm_last := status,
        cm_published := True\<rparr>))"

section \<open>The register of the results\<close>

definition kStartupResults :: string where "kStartupResults = ''unimoc.startup.results''"

definition cm_Count :: nat where "cm_Count = 1"

definition cm_Name :: "nat \<Rightarrow> string" where
  "cm_Name index = (if index = 0 then kStartupResults else [])"

definition cm_Read :: "nat \<Rightarrow> HwStartup \<Rightarrow> RegisterFlags \<times> RegisterValue" where
  "cm_Read index h = (\<lparr>rf_mutable = False, rf_persistent = False\<rparr>,
     if index \<noteq> 0 then SetEmpty else RvNatural8 (map (\<lambda>ok. if ok then 1 else 0) (sr_passed (hs_results h))))"

definition cm_Write :: "nat \<Rightarrow> RegisterValue \<Rightarrow> RegisterWriteResult" where
  "cm_Write index v = RwReadOnly"

section \<open>What a commander may rely on\<close>

lemmas status_codes = kStatusSuccess_def kStatusFailure_def kStatusBadParameter_def kStatusBadState_def

lemma no_needs_measured: "Needs h = NeedsMotorConnected \<Longrightarrow> hs_step_done h"
  and motor_need_active: "Needs h \<noteq> NeedsNone \<Longrightarrow> IsActive h"
  by (cases "hs_state h"; simp add: Needs_def split: if_splits)+

lemma waiting_iff: "cs_state (cm_Status h) = CsWaiting \<longleftrightarrow> IsActive h \<and> hs_step_done h \<and> (Needs h = NeedsNone \<or> Needs h = NeedsMotorConnected)"
  by (cases "Needs h") (auto simp: cm_Status_def StateOf_def hs_Status_def Let_def dest: motor_need_active)

lemma cs_needs_eq: "cs_needs (cm_Status h) = Needs h"
  by (simp add: cm_Status_def hs_Status_def Let_def)

lemma next_step_accepted:
  "fst (RequestNextStep c w) = ScAccepted \<longleftrightarrow> cs_state (cm_Status (bu_fsm w)) = CsWaiting \<and> c = (Needs (bu_fsm w) = NeedsMotorConnected)"
  by (cases "Needs (bu_fsm w)") (auto simp: waiting_iff RequestNextStep_def Let_def dest: no_needs_measured)

lemma next_step_frame:
  "snd (RequestNextStep c w) = (if fst (RequestNextStep c w) = ScAccepted then on_fsm (\<lambda>h. h\<lparr>hs_next_step_requested := True\<rparr>) w else w)"
  by (simp add: RequestNextStep_def Let_def)

definition status_accepts :: "u8 list \<Rightarrow> CommissioningStatus \<Rightarrow> bool" where
  "status_accepts parameter s \<longleftrightarrow> cs_state s = CsWaiting
     \<and> parameter = (if cs_needs s = NeedsMotorConnected then text_of ''motor-connected'' else [])"

text \<open>C37. The published state is all a commander needs for the step command: CONTINUE is accepted exactly when the status says that the step
  waits and the parameter is what the status says it needs, and a command that is not accepted changes nothing at all.\<close>

theorem continue_accepted_iff:
  "(cr_status (fst (cm_Continue parameter w)) = kStatusSuccess \<longleftrightarrow> status_accepts parameter (cm_Status (bu_fsm w)))
   \<and> snd (cm_Continue parameter w)
      = (if status_accepts parameter (cm_Status (bu_fsm w)) then on_fsm (\<lambda>h. h\<lparr>hs_next_step_requested := True\<rparr>) w else w)"
proof -
  let ?yes = "text_of ''motor-connected''"
  have yes: "?yes \<noteq> []" by (simp add: text_of_def)
  consider "parameter \<noteq> []" "parameter \<noteq> ?yes" | "parameter = []" | "parameter = ?yes" by blast
  then show ?thesis
  proof cases
    case 1
    then show ?thesis by (simp add: cm_Continue_def status_accepts_def result_def status_codes)
  qed (cases "RequestNextStep False w"; cases "RequestNextStep True w"; cases "fst (RequestNextStep False w)"; cases "fst (RequestNextStep True w)";
    use next_step_accepted [of False w] next_step_accepted [of True w] next_step_frame [of False w] next_step_frame [of True w] yes in
    \<open>auto simp: cm_Continue_def status_accepts_def result_def status_codes cs_needs_eq\<close>)+
qed

end
