(* ===== verification/Pedal_Assist.thy ===== *)
theory Pedal_Assist
  imports Float_Bounds Angle_Wrap Kunteng
begin

text \<open>
  The crank and the assist law of the e-bike: \<open>src/lib/ebike/src/pedal_observer.hpp\<close> (angle, cadence and mean torque of the crank from
  the pulses of a sensor ring) and \<open>assist_controller.hpp\<close> (the motor torque for the effort of the rider). The counters stay far below
  their width and are natural numbers. The exponential function of the library is an argument.
\<close>

section \<open>The pedal observer\<close>

definition kMaxPedalPulses :: nat where "kMaxPedalPulses = 64"

record PedalObserverConfig =
  pedal_pulses_per_rev :: u8
  pedal_angle_variance :: f32
  pedal_cadence_noise :: f32
  pedal_stop_timeout :: f32
  pedal_torque_time_constant :: f32
  pedal_zero_offset :: f32
  pedal_zero_window :: f32
  pedal_zero_hold :: f32
  pedal_zero_time_constant :: f32

definition PedalObserverConfig_init :: PedalObserverConfig where
  "PedalObserverConfig_init = \<lparr>pedal_pulses_per_rev = 36, pedal_angle_variance = f32_of (3/10000), pedal_cadence_noise = f32_of 100,
     pedal_stop_timeout = f32_of (1/2), pedal_torque_time_constant = from_milli (f32_of 20), pedal_zero_offset = 0,
     pedal_zero_window = f32_of 3, pedal_zero_hold = f32_of 1, pedal_zero_time_constant = f32_of 30\<rparr>"

record Covariance =
  cov_angle :: f32
  cov_cross :: f32
  cov_cadence :: f32

definition kInitialCadenceVariance :: f32 where "kInitialCadenceVariance = f32_of 100"
definition kOverdueMargin :: f32 where "kOverdueMargin = f32_of (5/4)"

definition Covariance_init :: Covariance where
  "Covariance_init = \<lparr>cov_angle = f32_of 1, cov_cross = 0, cov_cadence = kInitialCadenceVariance\<rparr>"

record PedalObserver =
  po_config :: PedalObserverConfig
  po_pulses_per_rev :: nat
  po_pulse_angle :: f32
  po_angle :: f32
  po_omega :: f32
  po_p :: Covariance
  po_time_since_pulse :: f32
  po_still_time :: f32
  po_pulses_seen :: nat
  po_pedaling :: bool
  po_bins :: "f32 list"
  po_bin_index :: nat
  po_completed_bins :: nat
  po_bin_sum :: f32
  po_bin_count :: nat
  po_mean_torque :: f32
  po_torque_fast :: f32
  po_zero_offset :: f32

definition ResetCrank :: "PedalObserver \<Rightarrow> PedalObserver" where
  "ResetCrank p = p\<lparr>po_pedaling := False, po_pulses_seen := 0, po_omega := 0, po_p := Covariance_init, po_time_since_pulse := 0,
     po_bin_index := 0, po_completed_bins := 0, po_bin_sum := 0, po_bin_count := 0, po_mean_torque := 0\<rparr>"

definition PedalObserver_init :: "PedalObserverConfig \<Rightarrow> PedalObserver" where
  "PedalObserver_init config = (let n = min (max (unat (pedal_pulses_per_rev config)) 2) kMaxPedalPulses in
     ResetCrank \<lparr>po_config = config, po_pulses_per_rev = n,
       po_pulse_angle = f32_of 2 * kPi * f32_of 1 / f32_of_int (int n),
       po_angle = 0, po_omega = 0, po_p = Covariance_init, po_time_since_pulse = 0, po_still_time = 0, po_pulses_seen = 0,
       po_pedaling = False, po_bins = replicate kMaxPedalPulses 0, po_bin_index = 0, po_completed_bins = 0, po_bin_sum = 0,
       po_bin_count = 0, po_mean_torque = 0, po_torque_fast = 0, po_zero_offset = pedal_zero_offset config\<rparr>)"

definition predict_covariance :: "f32 \<Rightarrow> f32 \<Rightarrow> Covariance \<Rightarrow> Covariance" where
  "predict_covariance step noise p = (let
     p = p\<lparr>cov_angle := cov_angle p + ((step * ((f32_of 2 * cov_cross p) + (step * cov_cadence p))) + (noise * step * step * step / f32_of 3))\<rparr>;
     p = p\<lparr>cov_cross := cov_cross p + ((step * cov_cadence p) + (noise * step * step / f32_of 2))\<rparr>
   in p\<lparr>cov_cadence := cov_cadence p + noise * step\<rparr>)"

definition po_Predict :: "f32 \<Rightarrow> PedalObserver \<Rightarrow> PedalObserver option" where
  "po_Predict dt p =
    (if po_pulses_seen p = 0 then Some (p\<lparr>po_still_time := po_still_time p + dt\<rparr>)
     else let p = p\<lparr>po_time_since_pulse := po_time_since_pulse p + dt\<rparr> in
       if po_time_since_pulse p > pedal_stop_timeout (po_config p)
       then Some ((ResetCrank p)\<lparr>po_still_time := po_time_since_pulse p\<rparr>)
       else do {
         angle \<leftarrow> WrapAngle (po_angle p + po_omega p * dt);
         let limit = po_pulse_angle p * kOverdueMargin;
         let omega = (if po_omega p * po_time_since_pulse p > limit then limit / po_time_since_pulse p else po_omega p);
         Some (p\<lparr>po_angle := angle, po_omega := omega, po_p := predict_covariance dt (pedal_cadence_noise (po_config p)) (po_p p)\<rparr>) })"

definition FuseAngle :: "f32 \<Rightarrow> PedalObserver \<Rightarrow> PedalObserver option" where
  "FuseAngle innovation p = do {
     let c = po_p p;
     let variance = cov_angle c + pedal_angle_variance (po_config p);
     let gain_angle = cov_angle c / variance;
     let gain_cadence = cov_cross c / variance;
     angle \<leftarrow> WrapAngle (po_angle p + innovation * gain_angle);
     Some (p\<lparr>po_angle := angle, po_omega := po_omega p + innovation * gain_cadence,
       po_p := \<lparr>cov_angle = cov_angle c * (f32_of 1 - gain_angle), cov_cross = cov_cross c * (f32_of 1 - gain_angle),
         cov_cadence = cov_cadence c - gain_cadence * cov_cross c\<rparr>\<rparr>) }"

text \<open>The mean over the closed bins of the last half revolution, the newest first.\<close>

definition half_revolution_mean :: "nat \<Rightarrow> nat \<Rightarrow> nat \<Rightarrow> f32 list \<Rightarrow> f32" where
  "half_revolution_mean n closing completed bins =
     foldl (\<lambda>acc i. acc + bins ! ((closing + n - i) mod n)) 0 [0..<completed] / f32_of_int (int completed)"

definition FinishBin :: "PedalObserver \<Rightarrow> PedalObserver" where
  "FinishBin p = (let
     n = po_pulses_per_rev p;
     closing = (po_bin_index p + n - 1) mod n;
     bins = (po_bins p)[closing := if po_bin_count p > 0 then po_bin_sum p / f32_of_int (int (po_bin_count p)) else po_torque_fast p];
     window = max (n div 2) 1;
     completed = min (po_completed_bins p + 1) window
   in p\<lparr>po_bins := bins, po_bin_sum := 0, po_bin_count := 0, po_completed_bins := completed,
     po_mean_torque := half_revolution_mean n closing completed bins\<rparr>)"

definition first_pulse :: "PedalObserver \<Rightarrow> PedalObserver" where
  "first_pulse p = p\<lparr>po_bin_index := 0, po_angle := 0, po_p := Covariance_init, po_bin_sum := 0, po_bin_count := 0, po_pedaling := False\<rparr>"

definition second_pulse :: "f32 \<Rightarrow> PedalObserver \<Rightarrow> PedalObserver" where
  "second_pulse measured p = p\<lparr>po_omega := po_pulse_angle p / po_time_since_pulse p, po_angle := measured,
     po_p := \<lparr>cov_angle = pedal_angle_variance (po_config p), cov_cross = 0, cov_cadence = kInitialCadenceVariance / f32_of 100\<rparr>\<rparr>"

definition OnPulse :: "PedalObserver \<Rightarrow> PedalObserver option" where
  "OnPulse p = do {
     let p = p\<lparr>po_still_time := 0, po_bin_index := (po_bin_index p + 1) mod po_pulses_per_rev p\<rparr>;
     let measured = po_pulse_angle p * f32_of_int (int (po_bin_index p));
     p \<leftarrow> (if po_pulses_seen p = 0 then Some (first_pulse p)
       else do {
         p \<leftarrow> (if po_pulses_seen p = 1 then Some (second_pulse measured p)
           else do { innovation \<leftarrow> WrapAngle (measured - po_angle p); FuseAngle innovation p });
         Some (FinishBin (p\<lparr>po_pedaling := True\<rparr>)) });
     Some (p\<lparr>po_time_since_pulse := 0, po_pulses_seen := min (po_pulses_seen p + 1) 2\<rparr>) }"

definition TrimZero :: "f32 \<Rightarrow> f32 \<Rightarrow> PedalObserver \<Rightarrow> PedalObserver" where
  "TrimZero dt torque p =
    (if po_pedaling p \<or> po_still_time p < pedal_zero_hold (po_config p) then p
     else let error = torque - po_zero_offset p in
       if error > - pedal_zero_window (po_config p) \<and> error < pedal_zero_window (po_config p)
       then p\<lparr>po_zero_offset := po_zero_offset p + error * (dt / pedal_zero_time_constant (po_config p))\<rparr> else p)"

text \<open>The pulses of a step in their order; the second component is the time of the last edge.\<close>

fun step_pulses :: "f32 \<Rightarrow> f32 list \<Rightarrow> f32 \<times> PedalObserver \<Rightarrow> (f32 \<times> PedalObserver) option" where
  "step_pulses dt [] acc = Some acc"
| "step_pulses dt (age # ages) (elapsed, p) = do {
     let edge = std_clamp (dt - age) elapsed dt;
     p \<leftarrow> po_Predict (edge - elapsed) p;
     p \<leftarrow> OnPulse p;
     step_pulses dt ages (edge, p) }"

definition torque_sample :: "f32 \<Rightarrow> f32 \<Rightarrow> PedalObserver \<Rightarrow> PedalObserver" where
  "torque_sample dt torque p = (let
     compensated = torque - po_zero_offset p;
     alpha = dt / (pedal_torque_time_constant (po_config p) + dt);
     p = p\<lparr>po_torque_fast := po_torque_fast p + (compensated - po_torque_fast p) * alpha\<rparr>
   in if po_pulses_seen p > 0 then p\<lparr>po_bin_sum := po_bin_sum p + compensated, po_bin_count := po_bin_count p + 1\<rparr> else p)"

definition po_Step :: "f32 \<Rightarrow> f32 \<Rightarrow> f32 list \<Rightarrow> PedalObserver \<Rightarrow> PedalObserver option" where
  "po_Step dt torque ages p = do {
     (elapsed, p) \<leftarrow> step_pulses dt ages (0, p);
     p \<leftarrow> po_Predict (dt - elapsed) p;
     Some (TrimZero dt torque (torque_sample dt torque p)) }"

definition Cadence :: "PedalObserver \<Rightarrow> f32" where
  "Cadence p = (if po_pedaling p then po_omega p else 0)"

definition MeanTorque :: "PedalObserver \<Rightarrow> f32" where
  "MeanTorque p = (if po_pedaling p then po_mean_torque p else 0)"

definition PedalPower :: "PedalObserver \<Rightarrow> f32" where
  "PedalPower p = MeanTorque p * Cadence p"

definition SetZeroOffset :: "f32 \<Rightarrow> PedalObserver \<Rightarrow> PedalObserver" where
  "SetZeroOffset offset p = p\<lparr>po_zero_offset := offset\<rparr>"

section \<open>The assist law\<close>

definition kAssistLevels :: nat where "kAssistLevels = 8"

record AssistConfig =
  ac_level_gain :: "f32 list"
  ac_power_scale :: f32
  ac_max_ratio :: f32
  ac_torque_ratio :: f32
  ac_torque_deadband :: f32
  ac_min_cadence :: f32
  ac_speed_taper :: f32
  ac_rise_time :: f32
  ac_fall_time :: f32

definition AssistConfig_init :: AssistConfig where
  "AssistConfig_init = \<lparr>ac_level_gain = map f32_of [0, 3/10, 6/10, 1, 3/2, 2, 2, 2], ac_power_scale = f32_of 300, ac_max_ratio = f32_of 4,
     ac_torque_ratio = f32_of (1/2), ac_torque_deadband = f32_of 2, ac_min_cadence = f32_of 2, ac_speed_taper = f32_of 20,
     ac_rise_time = f32_of (1/2), ac_fall_time = f32_of (3/20)\<rparr>"

record AssistInput =
  ai_pedaling :: bool
  ai_cadence :: f32
  ai_pedal_torque :: f32
  ai_motor_speed :: f32
  ai_speed_limit :: f32
  ai_torque_limit :: f32
  ai_level :: u8

record AssistController =
  as_config :: AssistConfig
  as_torque :: f32
  as_ratio :: f32

definition AssistController_init :: "AssistConfig \<Rightarrow> AssistController" where
  "AssistController_init config = \<lparr>as_config = config, as_torque = 0, as_ratio = 0\<rparr>"

definition kMaxExponent :: f32 where "kMaxExponent = f32_of 20"

definition assist_off :: "AssistConfig \<Rightarrow> AssistInput \<Rightarrow> bool" where
  "assist_off c input \<longleftrightarrow> \<not> ai_pedaling input \<or> min (unat (ai_level input)) (kAssistLevels - 1) = 0 \<or> ai_cadence input < ac_min_cadence c
     \<or> ai_pedal_torque input - ac_torque_deadband c \<le> 0 \<or> ai_speed_limit input \<le> 0 \<or> ai_torque_limit input \<le> 0"

definition speed_ratio :: "AssistConfig \<Rightarrow> f32 \<Rightarrow> f32 \<Rightarrow> f32" where
  "speed_ratio c cadence motor = (if motor * ac_torque_ratio c > cadence then cadence / motor else ac_torque_ratio c)"

definition fade :: "AssistConfig \<Rightarrow> f32 \<Rightarrow> f32 \<Rightarrow> f32" where
  "fade c speed_limit motor = std_clamp ((speed_limit - motor) / ac_speed_taper c) 0 (f32_of 1)"

text \<open>The target torque and the assist ratio.\<close>

definition Target :: "(f32 \<Rightarrow> f32) \<Rightarrow> AssistInput \<Rightarrow> AssistConfig \<Rightarrow> f32 \<times> f32" where
  "Target exp_f input c =
    (if assist_off c input then (0, 0)
     else let
       level = min (unat (ai_level input)) (kAssistLevels - 1);
       driving = ai_pedal_torque input - ac_torque_deadband c;
       power = driving * ai_cadence input;
       boost = exp_f (std_min (power / ac_power_scale c) kMaxExponent);
       ratio = std_min (boost * ac_level_gain c ! level) (ac_max_ratio c);
       motor = (if ai_motor_speed input < 0 then - ai_motor_speed input else ai_motor_speed input)
     in (std_min (driving * ratio * speed_ratio c (ai_cadence input) motor * fade c (ai_speed_limit input) motor) (ai_torque_limit input),
         ratio))"

definition as_Step :: "(f32 \<Rightarrow> f32) \<Rightarrow> f32 \<Rightarrow> AssistInput \<Rightarrow> AssistController \<Rightarrow> f32 \<times> AssistController" where
  "as_Step exp_f dt input a = (let
     (target, ratio) = Target exp_f input (as_config a);
     limit = std_max (ai_torque_limit input) 0;
     up = limit * (dt / ac_rise_time (as_config a));
     down = std_max limit (as_torque a) * (dt / ac_fall_time (as_config a));
     torque = (if target > as_torque a then std_min (as_torque a + up) target else std_max (as_torque a - down) target)
   in (torque, a\<lparr>as_torque := torque, as_ratio := ratio\<rparr>))"

end
