(* ===== verification/Ebike_Control.thy ===== *)
theory Ebike_Control
  imports Pedal_Assist Nvm_Settings
begin

text \<open>
  The e-bike on the battery case controller, \<open>src/src/ebike/ebike_control.hpp\<close> and \<open>.cpp\<close>: crank and display in, engagement and torque
  out. The hardware hands over what it has collected since the last update, as \<open>EbikeIo\<close> says; the frames for the display are a result.
  An update is \<open>None\<close> where the code is undefined (a cast of a number that does not fit) or an angle wrap does not return.
\<close>

section \<open>Data\<close>

record EbikeParameters =
  ep_pedal :: PedalObserverConfig
  ep_assist :: AssistConfig
  ep_engage_hold :: f32
  ep_rearm_pedal_stop :: f32
  ep_display_timeout :: f32
  ep_wheel_circumference_m :: f32
  ep_gear_ratio :: f32
  ep_battery_cells :: u8
  ep_nominal_voltage :: u8
  ep_reversed :: bool

definition EbikeParameters_init :: EbikeParameters where
  "EbikeParameters_init = \<lparr>ep_pedal = PedalObserverConfig_init, ep_assist = AssistConfig_init, ep_engage_hold = f32_of 2,
     ep_rearm_pedal_stop = f32_of 1, ep_display_timeout = f32_of 2, ep_wheel_circumference_m = f32_of (21/10), ep_gear_ratio = f32_of 1,
     ep_battery_cells = 10, ep_nominal_voltage = 36, ep_reversed = False\<rparr>"

definition EbikeParameters_From :: "NvmSettings \<Rightarrow> EbikeParameters" where
  "EbikeParameters_From s = \<lparr>ep_pedal = PedalObserverConfig_init\<lparr>pedal_pulses_per_rev := nvm_ebike_pulses_per_rev s\<rparr>,
     ep_assist = \<lparr>ac_level_gain = [f32_of 0, nvm_ebike_gain_1 s, nvm_ebike_gain_2 s, nvm_ebike_gain_3 s, nvm_ebike_gain_4 s,
         nvm_ebike_gain_5 s, nvm_ebike_gain_5 s, nvm_ebike_gain_5 s],
       ac_power_scale = nvm_ebike_power_scale s, ac_max_ratio = nvm_ebike_max_ratio s, ac_torque_ratio = nvm_ebike_torque_ratio s,
       ac_torque_deadband = nvm_ebike_torque_deadband s, ac_min_cadence = nvm_ebike_min_cadence s, ac_speed_taper = nvm_ebike_speed_taper s,
       ac_rise_time = nvm_ebike_rise_time s, ac_fall_time = nvm_ebike_fall_time s\<rparr>,
     ep_engage_hold = nvm_ebike_engage_hold s, ep_rearm_pedal_stop = nvm_ebike_rearm_time s, ep_display_timeout = nvm_ebike_display_timeout s,
     ep_wheel_circumference_m = nvm_ebike_wheel_circumference s, ep_gear_ratio = nvm_ebike_gear_ratio s,
     ep_battery_cells = nvm_ebike_battery_cells s, ep_nominal_voltage = nvm_ebike_nominal_voltage s, ep_reversed = (nvm_cart_reversed s \<noteq> 0)\<rparr>"

record EbikeVehicle =
  ev_motor_speed :: f32
  ev_torque_min :: f32
  ev_torque_max :: f32
  ev_dc_link :: f32
  ev_battery_current :: f32
  ev_motor_temperature :: f32
  ev_engaged :: bool
  ev_faulted :: bool

record EbikeOutput =
  eo_engage :: bool
  eo_torque :: f32
  eo_light :: bool

definition EbikeOutput_init :: EbikeOutput where
  "EbikeOutput_init = \<lparr>eo_engage = False, eo_torque = 0, eo_light = False\<rparr>"

text \<open>What the hardware hands over in one update: the crank torque, the ages of the pulses and the bytes of the display.\<close>

record EbikeIo =
  io_crank_torque :: f32
  io_pulse_ages :: "f32 list"
  io_display :: "u8 list"

definition kMaxPulsesPerUpdate :: nat where "kMaxPulsesPerUpdate = 8"
definition kMaxDisplayBytes :: nat where "kMaxDisplayBytes = 16"
definition kMaxStepUs :: u64 where "kMaxStepUs = 20000"
definition kStepUs :: u64 where "kStepUs = 1000"
definition kBarHysteresisCellVolts :: f32 where "kBarHysteresisCellVolts = f32_of (1/20)"
definition kBarsMaxCurrent :: f32 where "kBarsMaxCurrent = f32_of 2"
definition kErrorFault :: u8 where "kErrorFault = 1"
definition kMaxWheelPeriod :: f32 where "kMaxWheelPeriod = from_milli (f32_of 65535)"

definition kCellVolts :: "f32 list" where
  "kCellVolts = map f32_of [0, 315/100, 335/100, 355/100, 375/100, 395/100]"

definition kBarCodes :: "BatteryLevel list" where
  "kBarCodes = [kBelowEmpty, kEmpty, kOneBar, kTwoBars, kThreeBars, kFourBars]"

definition DisplayRequest_init :: DisplayRequest where
  "DisplayRequest_init = \<lparr>dr_assist_level = 0, dr_light = False, dr_wheel_size_code = 0, dr_max_speed = 0, dr_motor_characteristic = 0,
     dr_power_assist_mode = False, dr_max_current_code = 0, dr_raw = replicate kDisplayFrameSize 0\<rparr>"

record EbikeControl =
  ek_parameters :: EbikeParameters
  ek_motor_speed_per_kmh :: f32
  ek_pedal :: PedalObserver
  ek_assist :: AssistController
  ek_decoder :: DisplayDecoder
  ek_request :: DisplayRequest
  ek_started :: bool
  ek_last_update_us :: u64
  ek_last_request_us :: u64
  ek_display_alive :: bool
  ek_output :: EbikeOutput
  ek_wanting :: bool
  ek_last_want_us :: u64
  ek_latched :: bool
  ek_pedal_still_since_us :: u64
  ek_was_engaged :: bool
  ek_bars :: nat

section \<open>Configuration\<close>

definition speed_per_kmh :: "EbikeParameters \<Rightarrow> f32" where
  "speed_per_kmh p = (f32_of 2 * kPi * ep_gear_ratio p) / (std_max (ep_wheel_circumference_m p) (f32_of (1/10)) * f32_of (36/10))"

definition ek_Configure :: "EbikeParameters \<Rightarrow> EbikeControl \<Rightarrow> EbikeControl" where
  "ek_Configure parameters e = e\<lparr>ek_parameters := parameters, ek_pedal := PedalObserver_init (ep_pedal parameters),
     ek_assist := AssistController_init (ep_assist parameters), ek_motor_speed_per_kmh := speed_per_kmh parameters,
     ek_wanting := False, ek_latched := False, ek_output := EbikeOutput_init\<rparr>"

definition EbikeControl_init :: EbikeControl where
  "EbikeControl_init = ek_Configure EbikeParameters_init \<lparr>ek_parameters = EbikeParameters_init, ek_motor_speed_per_kmh = 0,
     ek_pedal = PedalObserver_init PedalObserverConfig_init, ek_assist = AssistController_init AssistConfig_init,
     ek_decoder = DisplayDecoder_init, ek_request = DisplayRequest_init, ek_started = False, ek_last_update_us = 0, ek_last_request_us = 0,
     ek_display_alive = False, ek_output = EbikeOutput_init, ek_wanting = False, ek_last_want_us = 0, ek_latched = False,
     ek_pedal_still_since_us = 0, ek_was_engaged = False, ek_bars = 5\<rparr>"

definition Inhibit :: "EbikeControl \<Rightarrow> EbikeControl" where
  "Inhibit e = e\<lparr>ek_latched := True, ek_wanting := False\<rparr>"

section \<open>The display\<close>

text \<open>The highest level whose threshold, shifted by the hysteresis, the cell voltage reaches.\<close>

definition bar_level :: "(f32 \<Rightarrow> f32) \<Rightarrow> f32 \<Rightarrow> nat" where
  "bar_level shifted cell_voltage = foldl (\<lambda>best level. if cell_voltage \<ge> shifted (kCellVolts ! level) then level else best) 0 [1..<length kCellVolts]"

definition next_bars :: "EbikeVehicle \<Rightarrow> EbikeControl \<Rightarrow> nat" where
  "next_bars vehicle e = (let bars = ek_bars e in
     if ev_battery_current vehicle < kBarsMaxCurrent \<and> ev_battery_current vehicle > - kBarsMaxCurrent then
       (let cells = f32_of_int (uint (max (ep_battery_cells (ek_parameters e)) 1));
          cell_voltage = (ev_dc_link vehicle / f32_of 1) / cells;
          rising = bar_level (\<lambda>v. v + kBarHysteresisCellVolts) cell_voltage;
          falling = bar_level (\<lambda>v. v - kBarHysteresisCellVolts) cell_voltage
        in if bars < rising then rising else if bars > falling then falling else bars)
     else bars)"

definition WheelPeriod :: "EbikeParameters \<Rightarrow> f32 \<Rightarrow> f32" where
  "WheelPeriod p motor_speed = (let speed = (if motor_speed < 0 then - motor_speed else motor_speed) in
     if speed \<le> 0 then kMaxWheelPeriod
     else std_min ((f32_of 2 * kPi * ep_gear_ratio p) / speed) kMaxWheelPeriod)"

definition status_of :: "EbikeVehicle \<Rightarrow> EbikeControl \<Rightarrow> ControllerStatus" where
  "status_of vehicle e = \<lparr>cs_battery_level = kBarCodes ! ek_bars e, cs_nominal_voltage = ep_nominal_voltage (ek_parameters e),
     cs_wheel_period = WheelPeriod (ek_parameters e) (ev_motor_speed vehicle),
     cs_error_code = (if ev_faulted vehicle \<or> ek_latched e then kErrorFault else 0),
     cs_throttle = False, cs_cruise = False, cs_pas = po_pedaling (ek_pedal e), cs_brake = False,
     cs_battery_current = ev_battery_current vehicle, cs_motor_temperature = ev_motor_temperature vehicle\<rparr>"

definition answer :: "u64 \<Rightarrow> EbikeVehicle \<Rightarrow> DisplayRequest \<Rightarrow> EbikeControl \<Rightarrow> (u8 list \<times> EbikeControl) option" where
  "answer now_us vehicle request e = do {
     let e = e\<lparr>ek_request := request, ek_last_request_us := now_us, ek_display_alive := True\<rparr>;
     let e = e\<lparr>ek_bars := next_bars vehicle e\<rparr>;
     frame \<leftarrow> EncodeControllerFrame (status_of vehicle e);
     Some (frame, e) }"

fun service_bytes :: "u64 \<Rightarrow> EbikeVehicle \<Rightarrow> u8 list \<Rightarrow> EbikeControl \<Rightarrow> (u8 list list \<times> EbikeControl) option" where
  "service_bytes now_us vehicle [] e = Some ([], e)"
| "service_bytes now_us vehicle (b # bytes) e = (let (request, decoder) = DecoderPush b (ek_decoder e); e = e\<lparr>ek_decoder := decoder\<rparr> in
     case request of None \<Rightarrow> service_bytes now_us vehicle bytes e
     | Some r \<Rightarrow> do {
         (frame, e) \<leftarrow> answer now_us vehicle r e;
         (frames, e) \<leftarrow> service_bytes now_us vehicle bytes e;
         Some (frame # frames, e) })"

text \<open>\<open>static_cast<uint64_t>\<close> of a time in microseconds.\<close>

definition microseconds :: "f32 \<Rightarrow> u64 option" where
  "microseconds t = map_option word_of_int (f32_cast 0 (2 ^ 64 - 1) (t * f32_of 1000000))"

definition display_timeout :: "u64 \<Rightarrow> EbikeControl \<Rightarrow> EbikeControl option" where
  "display_timeout now_us e = (if \<not> ek_display_alive e then Some e
     else do { timeout \<leftarrow> microseconds (ep_display_timeout (ek_parameters e));
       Some (if now_us - ek_last_request_us e \<ge> timeout then e\<lparr>ek_display_alive := False\<rparr> else e) })"

definition ServiceDisplay :: "u64 \<Rightarrow> EbikeVehicle \<Rightarrow> u8 list \<Rightarrow> EbikeControl \<Rightarrow> (u8 list list \<times> EbikeControl) option" where
  "ServiceDisplay now_us vehicle bytes e = do {
     (frames, e) \<leftarrow> service_bytes now_us vehicle (take kMaxDisplayBytes bytes) e;
     e \<leftarrow> display_timeout now_us e;
     Some (frames, e) }"

section \<open>The update\<close>

text \<open>Engagement on demand, with the latch of a fault or of an inhibition.\<close>

definition wants :: "EbikeControl \<Rightarrow> bool" where
  "wants e \<longleftrightarrow> ek_display_alive e \<and> dr_assist_level (ek_request e) > 0 \<and> po_pedaling (ek_pedal e)"

definition latch_fault :: "u64 \<Rightarrow> EbikeVehicle \<Rightarrow> EbikeControl \<Rightarrow> EbikeControl" where
  "latch_fault now_us vehicle e = (let
     e = (if po_pedaling (ek_pedal e) then e\<lparr>ek_pedal_still_since_us := now_us\<rparr> else e)
   in if ev_faulted vehicle \<and> (ek_wanting e \<or> ek_was_engaged e \<or> wants e) then e\<lparr>ek_latched := True\<rparr> else e)"

definition rearm :: "u64 \<Rightarrow> EbikeControl \<Rightarrow> EbikeControl option" where
  "rearm now_us e = (if \<not> ek_latched e then Some e
     else do { stop \<leftarrow> microseconds (ep_rearm_pedal_stop (ek_parameters e));
       Some (if now_us - ek_pedal_still_since_us e \<ge> stop then e\<lparr>ek_latched := False\<rparr> else e) })"

definition demand :: "u64 \<Rightarrow> EbikeControl \<Rightarrow> EbikeControl option" where
  "demand now_us e = (if wants e \<and> \<not> ek_latched e then Some (e\<lparr>ek_wanting := True, ek_last_want_us := now_us\<rparr>)
     else if \<not> ek_wanting e then Some e
     else if ek_latched e then Some (e\<lparr>ek_wanting := False\<rparr>)
     else do { hold \<leftarrow> microseconds (ep_engage_hold (ek_parameters e));
       Some (if now_us - ek_last_want_us e \<ge> hold then e\<lparr>ek_wanting := False\<rparr> else e) })"

definition assist_input :: "EbikeVehicle \<Rightarrow> EbikeControl \<Rightarrow> AssistInput" where
  "assist_input vehicle e = (let reversed = ep_reversed (ek_parameters e) in
     \<lparr>ai_pedaling = po_pedaling (ek_pedal e), ai_cadence = Cadence (ek_pedal e), ai_pedal_torque = MeanTorque (ek_pedal e),
      ai_motor_speed = (if reversed then - ev_motor_speed vehicle else ev_motor_speed vehicle),
      ai_speed_limit = ek_motor_speed_per_kmh e * f32_of_int (uint (dr_max_speed (ek_request e))),
      ai_torque_limit = (if reversed then - ev_torque_min vehicle else ev_torque_max vehicle),
      ai_level = (if ek_display_alive e then dr_assist_level (ek_request e) else 0)\<rparr>)"

definition ek_output_of :: "f32 \<Rightarrow> EbikeControl \<Rightarrow> EbikeOutput" where
  "ek_output_of torque e = \<lparr>eo_engage = (ek_wanting e \<and> \<not> ek_latched e),
     eo_torque = (if ep_reversed (ek_parameters e) then - torque else torque),
     eo_light = (ek_display_alive e \<and> dr_light (ek_request e))\<rparr>"

definition begin_update :: "u64 \<Rightarrow> EbikeControl \<Rightarrow> f32 \<times> EbikeControl" where
  "begin_update now_us e = (let
     elapsed = (if ek_started e then min (now_us - ek_last_update_us e) kMaxStepUs else kStepUs);
     e = (if ek_started e then e else e\<lparr>ek_started := True, ek_pedal_still_since_us := now_us\<rparr>)
   in (f32_of_int (uint elapsed) * f32_of (1/1000000), e\<lparr>ek_last_update_us := now_us\<rparr>))"

definition engagement :: "u64 \<Rightarrow> EbikeVehicle \<Rightarrow> EbikeControl \<Rightarrow> EbikeControl option" where
  "engagement now_us vehicle e = do { e \<leftarrow> rearm now_us (latch_fault now_us vehicle e); demand now_us e }"

text \<open>The assist step: the torque is zero until the drive is engaged, and the ramp restarts from zero when it is not wanted.\<close>

definition drive_assist :: "(f32 \<Rightarrow> f32) \<Rightarrow> f32 \<Rightarrow> EbikeVehicle \<Rightarrow> AssistInput \<Rightarrow> EbikeControl \<Rightarrow> EbikeControl" where
  "drive_assist exp_f dt vehicle input e = (let
     (torque, assist) = as_Step exp_f dt (if \<not> ek_wanting e \<or> ek_latched e then input\<lparr>ai_level := 0\<rparr> else input) (ek_assist e)
   in e\<lparr>ek_was_engaged := ev_engaged vehicle, ek_assist := assist, ek_output := ek_output_of torque e\<rparr>)"

definition ek_Update :: "(f32 \<Rightarrow> f32) \<Rightarrow> EbikeIo \<Rightarrow> u64 \<Rightarrow> EbikeVehicle \<Rightarrow> EbikeControl \<Rightarrow> (EbikeOutput \<times> u8 list list \<times> EbikeControl) option" where
  "ek_Update exp_f io now_us vehicle e =
    (if ek_started e \<and> now_us - ek_last_update_us e < kStepUs then Some (ek_output e, [], e)
     else do {
       let (dt, e) = begin_update now_us e;
       pedal \<leftarrow> po_Step dt (io_crank_torque io) (take kMaxPulsesPerUpdate (io_pulse_ages io)) (ek_pedal e);
       (frames, e) \<leftarrow> ServiceDisplay now_us vehicle (io_display io) (e\<lparr>ek_pedal := pedal\<rparr>);
       let input = assist_input vehicle e;
       e \<leftarrow> engagement now_us vehicle e;
       let e = drive_assist exp_f dt vehicle input e;
       Some (ek_output e, frames, e) })"

end
