(* ===== verification/Ebike_Safety.thy ===== *)
theory Ebike_Safety
  imports Ebike_Control Float_Relative
begin

text \<open>
  Safety of the e-bike: for finite inputs the assist torque never brakes and never exceeds its limit, and a latched drive stays off until
  the pedals have rested, over any run of updates.
\<close>

section \<open>Products of numbers that are not negative\<close>

definition within2 :: "int \<Rightarrow> f32 \<Rightarrow> bool" where
  "within2 k x \<longleftrightarrow> isfinite x \<and> 0 \<le> val x \<and> val x \<le> pow2 k"

lemma within2D: "within2 k x \<Longrightarrow> isfinite x" "within2 k x \<Longrightarrow> 0 \<le> val x" "within2 k x \<Longrightarrow> val x \<le> pow2 k"
  by (simp_all add: within2_def)

lemma rnd_within2: "0 \<le> q \<Longrightarrow> q \<le> pow2 k \<Longrightarrow> - 149 \<le> k \<Longrightarrow> 0 \<le> rnd q \<and> rnd q \<le> pow2 k"
  using rnd_between [of 0 "pow2 k" q] by (simp add: representable_pow2)

lemma within2_times:
  assumes "within2 a x" "within2 b y" "- 149 \<le> a + b" "a + b \<le> 127"
  shows "within2 (a + b) (x * y)"
proof -
  have p: "0 \<le> val x * val y" "val x * val y \<le> pow2 a * pow2 b"
    using assms by (auto simp: within2_def intro: mult_mono)
  then have b: "val x * val y \<le> pow2 (a + b)" by (simp add: pow2_add)
  also have "\<dots> \<le> pow2 127" using assms(4) by simp
  finally have "\<bar>val x * val y\<bar> \<le> pow2 127" using p(1) by simp
  from mul_f32_finite [OF _ _ this] show ?thesis
    using assms rnd_within2 [OF p(1) b] by (simp add: within2_def)
qed

lemma within2_min:
  assumes "within2 a x" "within2 b y"
  shows "within2 a (std_min x y)" "within2 b (std_min x y)" "val (std_min x y) \<le> val y"
  using assms by (auto simp: std_min_def within2_def less_finite)

lemma std_clamp_unit: "v \<noteq> NaN \<Longrightarrow> within2 0 (std_clamp v 0 (f32_of 1))"
proof -
  assume "v \<noteq> NaN"
  have one: "isfinite (f32_of 1)" "val (f32_of 1) = 1" by (simp_all add: f32_eval)
  show ?thesis using \<open>v \<noteq> NaN\<close> one
    by (cases v) (auto simp: std_clamp_def within2_def zero_f32_def less_finite less_f32_def split: if_splits)
qed

text \<open>Rounding at most doubles a number that is not negative.\<close>

lemma rnd_le_double:
  assumes "0 \<le> q"
  shows "rnd q \<le> 2 * q"
proof (cases "pow2 (- 149) \<le> 2 * q")
  case True
  have "\<bar>rnd q - q\<bar> \<le> q / 16777216 + pow2 (- 150)" using rnd_relative [of q] assms by simp
  moreover have "pow2 (- 150) = pow2 (- 149) / 2" using pow2_diff [of "- 149" 1] by (simp add: pow2_def [of 1])
  ultimately show ?thesis
  proof (cases "pow2 (- 148) \<le> 2 * q")
    case True
    have "pow2 (- 148) = 2 * pow2 (- 149)" using pow2_Suc [of "- 149"] by simp
    then have "pow2 (- 149) \<le> q" using True by simp
    then show ?thesis using \<open>\<bar>rnd q - q\<bar> \<le> _\<close> \<open>pow2 (- 150) = _\<close> assms by linarith
  next
    case False
    have "pow2 (- 148) = 2 * pow2 (- 149)" using pow2_Suc [of "- 149"] by simp
    then have "q \<le> pow2 (- 149)" using False by simp
    from rnd_within2 [OF assms this] show ?thesis using \<open>pow2 (- 149) \<le> 2 * q\<close> by simp
  qed
next
  case False
  then have "q \<le> pow2 (- 150)" using pow2_diff [of "- 149" 1] by (simp add: pow2_def [of 1])
  then have "rnd q \<le> rnd (pow2 (- 150))" by (rule rnd_mono)
  also have "rnd (pow2 (- 150)) = 0" by code_simp
  finally show ?thesis using assms by simp
qed

section \<open>The assist torque\<close>

text \<open>What is assumed of the exponential function, and of the configuration and the inputs.\<close>

definition exp_ok :: "(f32 \<Rightarrow> f32) \<Rightarrow> bool" where
  "exp_ok exp_f \<longleftrightarrow> (\<forall>x. x \<le> f32_of 20 \<longrightarrow> within2 29 (exp_f x))"

definition assist_config_ok :: "AssistConfig \<Rightarrow> bool" where
  "assist_config_ok c \<longleftrightarrow> length (ac_level_gain c) = kAssistLevels \<and> list_all (within2 20) (ac_level_gain c)
     \<and> isfinite (ac_power_scale c) \<and> 0 < val (ac_power_scale c) \<and> within2 20 (ac_max_ratio c) \<and> within2 20 (ac_torque_ratio c)
     \<and> within2 20 (ac_torque_deadband c) \<and> within2 20 (ac_min_cadence c) \<and> isfinite (ac_speed_taper c) \<and> 0 < val (ac_speed_taper c)
     \<and> isfinite (ac_rise_time c) \<and> pow2 (- 20) \<le> val (ac_rise_time c) \<and> isfinite (ac_fall_time c) \<and> pow2 (- 20) \<le> val (ac_fall_time c)"

definition assist_input_ok :: "AssistInput \<Rightarrow> bool" where
  "assist_input_ok i \<longleftrightarrow> isfinite (ai_pedal_torque i) \<and> \<bar>val (ai_pedal_torque i)\<bar> \<le> pow2 40 \<and> isfinite (ai_cadence i)
     \<and> \<bar>val (ai_cadence i)\<bar> \<le> pow2 40 \<and> isfinite (ai_motor_speed i) \<and> isfinite (ai_speed_limit i) \<and> isfinite (ai_torque_limit i) \<and> f32_ok (ai_torque_limit i)"

lemma div_not_nan: "isfinite x \<Longrightarrow> isfinite y \<Longrightarrow> val y \<noteq> 0 \<Longrightarrow> x / y \<noteq> NaN"
  and sub_not_nan: "isfinite x \<Longrightarrow> isfinite y \<Longrightarrow> x - y \<noteq> NaN"
  by (auto simp: divide_f32_def minus_f32_def plus_f32_def f32_round_def zero_of_def inf_of_def Let_def)

lemma div_pos_not_nan: "x \<noteq> NaN \<Longrightarrow> isfinite y \<Longrightarrow> val y \<noteq> 0 \<Longrightarrow> x / y \<noteq> NaN"
  by (cases x) (auto simp: divide_f32_def f32_round_def zero_of_def inf_of_def Let_def)

lemma fade_within2: "assist_config_ok c \<Longrightarrow> isfinite limit \<Longrightarrow> isfinite motor \<Longrightarrow> within2 0 (fade c limit motor)"
  unfolding fade_def by (intro std_clamp_unit div_pos_not_nan sub_not_nan) (auto simp: assist_config_ok_def)

lemma speed_ratio_within2:
  assumes "assist_config_ok c" "isfinite cadence" "0 \<le> val cadence" "val cadence \<le> pow2 40" "isfinite motor" "0 \<le> val motor"
  shows "within2 21 (speed_ratio c cadence motor)"
proof (cases "motor * ac_torque_ratio c > cadence")
  case True
  define r where "r = ac_torque_ratio c"
  have r: "isfinite r" "0 \<le> val r" "val r \<le> pow2 20" using assms(1) by (simp_all add: r_def assist_config_ok_def within2_def)
  have pos: "0 < val motor"
  proof (rule ccontr)
    assume "\<not> 0 < val motor"
    then have "val motor = 0" using assms(6) by simp
    then have "isfinite (motor * r)" "val (motor * r) = 0" using mul_f32_finite [of motor r] assms(5) r(1) by simp_all
    then show False using True assms(2,3) by (simp add: r_def [symmetric] less_finite)
  qed
  have bound: "val cadence \<le> 2 * (val motor * val r)"
  proof (cases "\<bar>val motor * val r\<bar> \<le> pow2 127")
    case True
    have "val cadence < rnd (val motor * val r)"
      using \<open>motor * ac_torque_ratio c > cadence\<close> mul_f32_finite [OF assms(5) r(1) True] assms(2) by (simp add: r_def [symmetric] less_finite)
    also have "\<dots> \<le> 2 * (val motor * val r)" using assms(6) r(2) by (intro rnd_le_double) simp
    finally show ?thesis by simp
  next
    case False
    have "0 \<le> val motor * val r" using assms(6) r(2) by simp
    moreover have "pow2 40 \<le> pow2 127" by simp
    ultimately show ?thesis using False assms(4) by linarith
  qed
  then have "val cadence / val motor \<le> 2 * val r" using pos by (simp add: field_simps)
  also have "\<dots> \<le> pow2 21" using r(3) pow2_Suc [of 20] by simp
  finally have q: "val cadence / val motor \<le> pow2 21" .
  moreover have "0 \<le> val cadence / val motor" using assms(3,6) by simp
  moreover have "pow2 21 \<le> pow2 127" by simp
  ultimately have "\<bar>val cadence / val motor\<bar> \<le> pow2 127" by linarith
  from div_f32_finite [OF assms(2,5) _ this] show ?thesis
    using True pos rnd_within2 [OF \<open>0 \<le> val cadence / val motor\<close> q] by (simp add: speed_ratio_def within2_def)
next
  case False
  have "pow2 20 \<le> pow2 21" by simp
  then show ?thesis using False assms(1) by (auto simp: speed_ratio_def assist_config_ok_def within2_def intro: order_trans)
qed

lemma Target_range:
  assumes "exp_ok exp_f" "assist_config_ok c" "assist_input_ok i" "Target exp_f i c = (t, r)"
  shows "isfinite t" "0 \<le> val t" "val t \<le> max (val (ai_torque_limit i)) 0"
proof -
  have "isfinite t \<and> 0 \<le> val t \<and> val t \<le> max (val (ai_torque_limit i)) 0"
  proof (cases "assist_off c i")
    case True
    then show ?thesis using assms(4) by (auto simp: Target_def zero_f32_def)
  next
    case False
    define level where "level = min (unat (ai_level i)) (kAssistLevels - 1)"
    define driving where "driving = ai_pedal_torque i - ac_torque_deadband c"
    define power where "power = driving * ai_cadence i"
    define boost where "boost = exp_f (std_min (power / ac_power_scale c) kMaxExponent)"
    define ratio where "ratio = std_min (boost * ac_level_gain c ! level) (ac_max_ratio c)"
    define motor where "motor = (if ai_motor_speed i < 0 then - ai_motor_speed i else ai_motor_speed i)"
    note ok = assms(2) [unfolded assist_config_ok_def] and inp = assms(3) [unfolded assist_input_ok_def]
    have zero: "isfinite 0" "val 0 = 0" by (simp_all add: zero_f32_def)
    have off: "\<not> driving \<le> 0" "\<not> ai_cadence i < ac_min_cadence c" "\<not> ai_torque_limit i \<le> 0"
      using False by (auto simp: assist_off_def driving_def)
    have small: "pow2 20 \<le> pow2 40" "pow2 41 \<le> pow2 127" "pow2 41 = 2 * pow2 40" using pow2_Suc [of 40] pow2_le_iff [of 41 127] by simp_all
    have d: "\<bar>val (ai_pedal_torque i) - val (ac_torque_deadband c)\<bar> \<le> pow2 41"
    proof -
      have "\<bar>val (ai_pedal_torque i)\<bar> \<le> pow2 40" "0 \<le> val (ac_torque_deadband c)" "val (ac_torque_deadband c) \<le> pow2 20"
        using inp ok by (auto simp: within2_def)
      then show ?thesis using small unfolding small(3) by linarith
    qed
    have drv: "within2 41 driving"
    proof -
      have "isfinite driving" "val driving = rnd (val (ai_pedal_torque i) - val (ac_torque_deadband c))"
        using sub_f32_finite [of "ai_pedal_torque i" "ac_torque_deadband c"] d small inp ok by (auto simp: driving_def within2_def)
      moreover have "0 < val driving" using off(1) calculation(1) zero by (simp add: le_finite)
      ultimately show ?thesis using rnd_abs_less_pow2 [OF d] by (simp add: within2_def)
    qed
    have cad: "within2 40 (ai_cadence i)" using off(2) inp ok by (auto simp: within2_def less_finite)
    have "within2 81 power" unfolding power_def using within2_times [OF drv cad] by simp
    then have "power / ac_power_scale c \<noteq> NaN" using ok by (intro div_not_nan) (auto simp: within2_def)
    then have "std_min (power / ac_power_scale c) kMaxExponent \<le> f32_of 20"
      using not_less_f32 [of "f32_of 20" "power / ac_power_scale c"] le_refl_f32 [of "f32_of 20"]
      by (auto simp: std_min_def kMaxExponent_def f32_eval)
    then have "within2 29 boost" using assms(1) by (simp add: exp_ok_def boost_def)
    moreover have "within2 20 (ac_level_gain c ! level)"
      using ok by (auto simp: list_all_length level_def kAssistLevels_def)
    ultimately have "within2 49 (boost * ac_level_gain c ! level)" using within2_times [of 29 boost 20] by simp
    then have "within2 20 ratio" unfolding ratio_def using ok by (intro within2_min(2)) auto
    then have "within2 61 (driving * ratio)" using within2_times [OF drv, of 20 ratio] by simp
    moreover have m: "isfinite motor" "0 \<le> val motor" using inp zero by (auto simp: motor_def less_finite)
    then have "within2 21 (speed_ratio c (ai_cadence i) motor)"
      using cad by (intro speed_ratio_within2 [OF assms(2)]) (auto simp: within2_def)
    ultimately have "within2 82 (driving * ratio * speed_ratio c (ai_cadence i) motor)"
      using within2_times [of 61 "driving * ratio" 21] by simp
    then have p: "within2 82 (driving * ratio * speed_ratio c (ai_cadence i) motor * fade c (ai_speed_limit i) motor)"
      using within2_times [of 82 _ 0] fade_within2 [OF assms(2) _ m(1), of "ai_speed_limit i"] inp by simp
    have l: "isfinite (ai_torque_limit i)" "0 < val (ai_torque_limit i)" using off(3) inp zero by (auto simp: le_finite)
    have "Target exp_f i c = (std_min (driving * ratio * speed_ratio c (ai_cadence i) motor * fade c (ai_speed_limit i) motor)
        (ai_torque_limit i), ratio)"
      using False by (simp add: Target_def Let_def driving_def power_def boost_def ratio_def level_def motor_def)
    then have "t = std_min (driving * ratio * speed_ratio c (ai_cadence i) motor * fade c (ai_speed_limit i) motor) (ai_torque_limit i)"
      using assms(4) by simp
    then show ?thesis using p l by (auto simp: std_min_def within2_def less_finite)
  qed
  then show "isfinite t" "0 \<le> val t" "val t \<le> max (val (ai_torque_limit i)) 0" by blast+
qed

text \<open>The ramp towards a target stays between the old value and the target.\<close>

lemma ramp_towards:
  assumes "f32_ok x" "isfinite x" "0 \<le> x" "0 \<le> up" "0 \<le> down" "isfinite t" "0 \<le> t" "x \<le> m" "t \<le> m"
  defines "r \<equiv> if t > x then std_min (x + up) t else std_max (x - down) t"
  shows "0 \<le> r" "r \<le> m"
proof -
  have nn: "x \<noteq> NaN" "t \<noteq> NaN" using assms(2,6) by auto
  have b: "x - down \<le> x" "x \<le> x + up" using band assms(1-5) by blast+
  then have nu: "x + up \<noteq> NaN" "x - down \<noteq> NaN" by (auto dest: le_not_nan)
  have "0 \<le> r \<and> r \<le> m"
  proof (cases "t > x")
    case True
    then have "r = std_min (x + up) t" by (simp add: r_def)
    then show ?thesis using True b(2) assms(3,7,9) nn nu
      by (auto simp: std_min_def not_less_f32 intro: le_trans_f32)
  next
    case False
    then have "r = std_max (x - down) t" by (simp add: r_def)
    then show ?thesis using False b(1) assms(3,7,8,9) nn nu
      by (auto simp: std_max_def not_less_f32 intro: le_trans_f32)
  qed
  then show "0 \<le> r" "r \<le> m" by simp_all
qed

lemma step_share: "within2 20 dt \<Longrightarrow> isfinite y \<Longrightarrow> pow2 (- 20) \<le> val y \<Longrightarrow> within2 40 (dt / y)"
proof -
  assume a: "within2 20 dt" "isfinite y" "pow2 (- 20) \<le> val y"
  have "0 < val y" using a(3) pow2_pos(1) [of "- 20"] by linarith
  have "val dt / val y \<le> val dt / pow2 (- 20)"
    using a \<open>0 < val y\<close> by (intro divide_left_mono) (simp_all add: within2_def)
  also have "\<dots> \<le> pow2 20 / pow2 (- 20)" using a by (intro divide_right_mono) (simp_all add: within2_def)
  also have "\<dots> = pow2 40" using pow2_diff [of 20 "- 20"] by simp
  finally have q: "val dt / val y \<le> pow2 40" .
  moreover have p: "0 \<le> val dt / val y" using a \<open>0 < val y\<close> by (simp add: within2_def)
  moreover have "pow2 40 \<le> pow2 127" by simp
  ultimately have "\<bar>val dt / val y\<bar> \<le> pow2 127" by linarith
  from div_f32_finite [OF _ a(2) _ this] show ?thesis
    using a \<open>0 < val y\<close> rnd_within2 [OF p q] by (simp add: within2_def)
qed

lemma nonneg_product: "isfinite x \<Longrightarrow> 0 \<le> x \<Longrightarrow> within2 k y \<Longrightarrow> 0 \<le> x * y"
proof -
  assume a: "isfinite x" "0 \<le> x" "within2 k y"
  then have "0 \<le> rnd (val x * val y)" by (intro rnd_nonneg) (simp add: within2_def zero_le_finite)
  then have "0 \<le> f32_round s (val x * val y)" for s
    by (auto simp: f32_round_def Let_def zero_of_def inf_of_def zero_f32_def less_eq_f32_def less_f32_def)
  then show "0 \<le> x * y" using a by (simp add: times_f32_def Let_def within2_def)
qed

text \<open>One step keeps the torque a well-formed number between zero and any bound of the old torque and of the limit.\<close>

definition torque_ok :: "f32 \<Rightarrow> f32 \<Rightarrow> bool" where
  "torque_ok m t \<longleftrightarrow> f32_ok t \<and> isfinite t \<and> 0 \<le> t \<and> t \<le> m"

lemma f32_ok_result: "f32_ok x \<Longrightarrow> f32_ok (x + y)" "f32_ok x \<Longrightarrow> f32_ok (x - y)" "f32_ok (x * y)"
  by (cases y; auto simp: plus_f32_def minus_f32_def times_f32_def Let_def zero_of_def inf_of_def)+

lemma as_Step_bounded:
  assumes "exp_ok exp_f" "assist_config_ok (as_config a)" "assist_input_ok i" "within2 20 dt"
    "isfinite m" "0 \<le> m" "ai_torque_limit i \<le> m" "torque_ok m (as_torque a)" "as_Step exp_f dt i a = (t, a')"
  shows "torque_ok m t \<and> as_torque a' = t \<and> as_config a' = as_config a"
proof -
  obtain target ratio where T: "Target exp_f i (as_config a) = (target, ratio)" by (cases "Target exp_f i (as_config a)")
  note range = Target_range [OF assms(1-3) T]
  have lim: "isfinite (ai_torque_limit i)" "f32_ok (ai_torque_limit i)" using assms(3) by (simp_all add: assist_input_ok_def)
  have tgt: "0 \<le> target" "target \<le> m"
    using range lim assms(5-7) by (auto simp: zero_le_finite le_finite)
  define limit where "limit = std_max (ai_torque_limit i) 0"
  define up where "up = limit * (dt / ac_rise_time (as_config a))"
  define down where "down = std_max limit (as_torque a) * (dt / ac_fall_time (as_config a))"
  have zero: "isfinite 0" by (simp add: zero_f32_def)
  have old: "f32_ok (as_torque a)" "isfinite (as_torque a)" "0 \<le> as_torque a" "as_torque a \<le> m"
    using assms(8) by (simp_all add: torque_ok_def)
  have l: "isfinite limit" "0 \<le> limit" using lim(1) zero by (auto simp: limit_def std_max_def le_finite less_finite)
  have l': "isfinite (std_max limit (as_torque a))" "0 \<le> std_max limit (as_torque a)"
    using l old by (auto simp: std_max_def)
  have share: "within2 40 (dt / ac_rise_time (as_config a))" "within2 40 (dt / ac_fall_time (as_config a))"
    using assms(2,4) by (auto simp: assist_config_ok_def intro: step_share)
  have ud: "0 \<le> up" "0 \<le> down" unfolding up_def down_def
    by (rule nonneg_product [OF l share(1)], rule nonneg_product [OF l' share(2)])
  have t: "t = (if target > as_torque a then std_min (as_torque a + up) target else std_max (as_torque a - down) target)"
    and a': "a' = a\<lparr>as_torque := t, as_ratio := ratio\<rparr>"
    using assms(9) T by (auto simp: as_Step_def Let_def up_def down_def limit_def)
  have "f32_ok target"
  proof -
    have "target = 0 \<or> target = ai_torque_limit i \<or> (\<exists>x y. target = x * y)"
      using T by (auto simp: Target_def std_min_def Let_def split: if_splits)
    then show ?thesis using lim(2) f32_ok_result(3) by (auto simp: zero_f32_def)
  qed
  then have ok: "f32_ok t" using old(1) by (auto simp: t std_min_def std_max_def intro: f32_ok_result)
  have "0 \<le> t" "t \<le> m" unfolding t by (rule ramp_towards; use old ud range(1) tgt in simp)+
  then show ?thesis using ok assms(5) between_f32_finite [of 0 m t] zero by (simp add: a' torque_ok_def)
qed

text \<open>The controller over a run of steps.\<close>

fun assist_run :: "(f32 \<Rightarrow> f32) \<Rightarrow> (f32 \<times> AssistInput) list \<Rightarrow> AssistController \<Rightarrow> AssistController" where
  "assist_run exp_f [] a = a"
| "assist_run exp_f ((dt, i) # steps) a = assist_run exp_f steps (snd (as_Step exp_f dt i a))"

lemma assist_run_bounded:
  "exp_ok exp_f \<Longrightarrow> assist_config_ok (as_config a) \<Longrightarrow> isfinite m \<Longrightarrow> 0 \<le> m \<Longrightarrow> torque_ok m (as_torque a)
   \<Longrightarrow> list_all (\<lambda>(dt, i). within2 20 dt \<and> assist_input_ok i \<and> ai_torque_limit i \<le> m) steps
   \<Longrightarrow> torque_ok m (as_torque (assist_run exp_f steps a))"
proof (induction steps arbitrary: a)
  case Nil
  then show ?case by simp
next
  case (Cons s steps)
  obtain dt i where s: "s = (dt, i)" by (cases s)
  obtain t a' where S: "as_Step exp_f dt i a = (t, a')" by (cases "as_Step exp_f dt i a")
  have "torque_ok m t \<and> as_torque a' = t \<and> as_config a' = as_config a"
    using Cons.prems s by (intro as_Step_bounded [OF _ _ _ _ _ _ _ _ S]) auto
  then show ?case using Cons.IH [of a'] Cons.prems s S by simp
qed

section \<open>The latch of the engagement\<close>

text \<open>What the latch reads: kept by the service of the display.\<close>

definition latch_view :: "EbikeControl \<Rightarrow> EbikeParameters \<times> PedalObserver \<times> bool \<times> bool \<times> bool \<times> bool \<times> u64" where
  "latch_view e = (ek_parameters e, ek_pedal e, ek_wanting e, ek_latched e, ek_was_engaged e, ek_started e, ek_pedal_still_since_us e)"

lemma answer_view: "answer now_us v r e = Some (f, e') \<Longrightarrow> latch_view e' = latch_view e"
  by (auto simp: answer_def latch_view_def Let_def bind_eq_Some_conv)

lemma service_bytes_view: "service_bytes now_us v bytes e = Some (fs, e') \<Longrightarrow> latch_view e' = latch_view e"
proof (induction bytes arbitrary: e fs e')
  case Nil
  then show ?case by simp
next
  case (Cons b bytes)
  obtain r d where P: "DecoderPush b (ek_decoder e) = (r, d)" by (cases "DecoderPush b (ek_decoder e)")
  have d: "latch_view (e\<lparr>ek_decoder := d\<rparr>) = latch_view e" by (simp add: latch_view_def)
  show ?case
  proof (cases r)
    case None
    then show ?thesis using Cons.IH [of "e\<lparr>ek_decoder := d\<rparr>" fs e'] Cons.prems P d by simp
  next
    case (Some q)
    then obtain f e1 fs1 where A: "answer now_us v q (e\<lparr>ek_decoder := d\<rparr>) = Some (f, e1)"
      and S: "service_bytes now_us v bytes e1 = Some (fs1, e')"
      using Cons.prems P by (auto simp: bind_eq_Some_conv)
    show ?thesis using Cons.IH [OF S] answer_view [OF A] d by simp
  qed
qed

lemma ServiceDisplay_view: "ServiceDisplay now_us v bytes e = Some (fs, e') \<Longrightarrow> latch_view e' = latch_view e"
proof -
  assume "ServiceDisplay now_us v bytes e = Some (fs, e')"
  then obtain e1 where S: "service_bytes now_us v (take kMaxDisplayBytes bytes) e = Some (fs, e1)"
    and T: "display_timeout now_us e1 = Some e'"
    by (auto simp: ServiceDisplay_def bind_eq_Some_conv)
  have "latch_view e' = latch_view e1" using T by (auto simp: display_timeout_def latch_view_def bind_eq_Some_conv split: if_splits)
  then show ?thesis using service_bytes_view [OF S] by simp
qed

text \<open>The pedals have stood still for the time that a latched drive waits for.\<close>

definition stood_still :: "u64 \<Rightarrow> EbikeControl \<Rightarrow> bool" where
  "stood_still now_us e = (case microseconds (ep_rearm_pedal_stop (ek_parameters e)) of None \<Rightarrow> False
     | Some stop \<Rightarrow> now_us - ek_pedal_still_since_us e \<ge> stop)"

lemma timed_cases: "(m \<bind> (\<lambda>s. Some (if P s then a else b))) = Some r \<Longrightarrow> (\<exists>s. m = Some s \<and> r = (if P s then a else b))"
  by (cases m) auto

lemma rearm_cases:
  assumes "rearm now_us e = Some e'"
  obtains "e' = e" "\<not> ek_latched e \<or> \<not> stood_still now_us e" | "e' = e\<lparr>ek_latched := False\<rparr>" "stood_still now_us e"
proof (cases "ek_latched e")
  case True
  have "\<exists>stop. microseconds (ep_rearm_pedal_stop (ek_parameters e)) = Some stop
      \<and> e' = (if now_us - ek_pedal_still_since_us e \<ge> stop then e\<lparr>ek_latched := False\<rparr> else e)"
    using assms True by (intro timed_cases) (simp add: rearm_def)
  then obtain stop where M: "microseconds (ep_rearm_pedal_stop (ek_parameters e)) = Some stop"
    and E: "e' = (if now_us - ek_pedal_still_since_us e \<ge> stop then e\<lparr>ek_latched := False\<rparr> else e)" by blast
  have S: "stood_still now_us e = (now_us - ek_pedal_still_since_us e \<ge> stop)" by (simp only: stood_still_def M option.case)
  show ?thesis
  proof (cases "stood_still now_us e")
    case True
    then show ?thesis using that(2) E S by simp
  next
    case False
    then show ?thesis using that(1) E S by simp
  qed
next
  case False
  then have "e' = e" using assms by (simp add: rearm_def)
  then show ?thesis using that False by blast
qed

lemma rearm_latch: "rearm now_us e = Some e' \<Longrightarrow> ek_latched e' = (ek_latched e \<and> \<not> stood_still now_us e)"
  and rearm_rest: "rearm now_us e = Some e' \<Longrightarrow> ek_parameters e' = ek_parameters e \<and> ek_pedal_still_since_us e' = ek_pedal_still_since_us e
     \<and> wants e' = wants e \<and> ek_wanting e' = ek_wanting e \<and> ek_pedal e' = ek_pedal e \<and> ek_started e' = ek_started e"
  by (erule rearm_cases; simp add: wants_def; blast)+

lemma demand_cases:
  assumes "demand now_us e = Some e'"
  obtains "e' = e" "ek_latched e \<longrightarrow> \<not> ek_wanting e" | "e' = e\<lparr>ek_wanting := False\<rparr>"
    | "\<not> ek_latched e" "e' = e\<lparr>ek_wanting := True, ek_last_want_us := now_us\<rparr>"
proof (cases "wants e \<and> \<not> ek_latched e")
  case True
  then show ?thesis using assms that(3) unfolding demand_def if_P [OF True] by blast
next
  case no: False
  show ?thesis
  proof (cases "ek_wanting e")
    case w: True
    show ?thesis
    proof (cases "ek_latched e")
      case True
      then show ?thesis using assms no w that(2) by (simp add: demand_def)
    next
      case False
      have "demand now_us e = (microseconds (ep_engage_hold (ek_parameters e)) \<bind>
          (\<lambda>hold. Some (if now_us - ek_last_want_us e \<ge> hold then e\<lparr>ek_wanting := False\<rparr> else e)))"
        using no w False by (simp only: demand_def if_False not_True_eq_False simp_thms)
      then have "(microseconds (ep_engage_hold (ek_parameters e)) \<bind>
          (\<lambda>hold. Some (if now_us - ek_last_want_us e \<ge> hold then e\<lparr>ek_wanting := False\<rparr> else e))) = Some e'"
        using assms by (rule subst)
      from timed_cases [OF this] obtain hold
        where E: "e' = (if now_us - ek_last_want_us e \<ge> hold then e\<lparr>ek_wanting := False\<rparr> else e)" by blast
      show ?thesis
      proof (cases "now_us - ek_last_want_us e \<ge> hold")
        case True
        then show ?thesis using that(2) unfolding E if_P [OF True] by blast
      next
        case long: False
        then show ?thesis using that(1) False unfolding E if_not_P [OF long] by blast
      qed
    qed
  next
    case False
    then have "e' = e" using assms no by (simp add: demand_def)
    then show ?thesis using that(1) False by blast
  qed
qed

lemma demand_rest: "demand now_us e = Some e' \<Longrightarrow> ek_latched e' = ek_latched e \<and> ek_parameters e' = ek_parameters e
     \<and> ek_pedal_still_since_us e' = ek_pedal_still_since_us e \<and> wants e' = wants e \<and> (ek_latched e \<longrightarrow> \<not> ek_wanting e')
     \<and> ek_pedal e' = ek_pedal e \<and> ek_started e' = ek_started e"
  by (erule demand_cases) (simp_all add: wants_def)

lemma latch_fault_rest: "ek_latched (latch_fault now_us v e) = (ek_latched e \<or> ev_faulted v \<and> (ek_wanting e \<or> ek_was_engaged e \<or> wants e))"
  "wants (latch_fault now_us v e) = wants e"
  "ek_pedal_still_since_us (latch_fault now_us v e) = (if po_pedaling (ek_pedal e) then now_us else ek_pedal_still_since_us e)"
  "ek_pedal (latch_fault now_us v e) = ek_pedal e" "ek_started (latch_fault now_us v e) = ek_started e"
  "ek_parameters (latch_fault now_us v e) = ek_parameters e"
  by (auto simp: latch_fault_def wants_def Let_def)

text \<open>One update: it is skipped, or it decides the latch anew.\<close>

lemma ek_Update_latch:
  assumes "ek_Update exp_f io now_us v e = Some (out, frames, e')"
  shows "ek_started e \<and> now_us - ek_last_update_us e < kStepUs \<and> out = ek_output e \<and> e' = e
    \<or> ek_output e' = out \<and> eo_engage out = (ek_wanting e' \<and> \<not> ek_latched e') \<and> (ek_latched e' \<longrightarrow> \<not> ek_wanting e')
      \<and> ek_latched e' = ((ek_latched e \<or> ev_faulted v \<and> (ek_wanting e \<or> ek_was_engaged e \<or> wants e')) \<and> \<not> stood_still now_us e')
      \<and> \<not> (ek_started e \<and> now_us - ek_last_update_us e < kStepUs) \<and> ek_started e' \<and> ek_parameters e' = ek_parameters e
      \<and> ek_pedal_still_since_us e' = (if po_pedaling (ek_pedal e') then now_us else if ek_started e then ek_pedal_still_since_us e else now_us)"
proof (cases "ek_started e \<and> now_us - ek_last_update_us e < kStepUs")
  case True
  then have "out = ek_output e" "e' = e" using assms by (auto simp: ek_Update_def)
  then show ?thesis using True by blast
next
  case False
  obtain dt e0 where B: "begin_update now_us e = (dt, e0)" by (cases "begin_update now_us e")
  from assms False B obtain p fs e1 e3
    where S: "ServiceDisplay now_us v (io_display io) (e0\<lparr>ek_pedal := p\<rparr>) = Some (fs, e1)"
      and G: "engagement now_us v e1 = Some e3" and E': "e' = drive_assist exp_f dt v (assist_input v e1) e3" and O: "out = ek_output e'"
    by (auto simp: ek_Update_def bind_eq_Some_conv Let_def)
  obtain e2 where R: "rearm now_us (latch_fault now_us v e1) = Some e2" and D: "demand now_us e2 = Some e3"
    using G by (auto simp: engagement_def bind_eq_Some_conv)
  obtain torque assist where E: "e' = e3\<lparr>ek_was_engaged := ev_engaged v, ek_assist := assist, ek_output := ek_output_of torque e3\<rparr>"
    unfolding E' drive_assist_def Let_def by (metis (no_types, lifting) case_prod_beta)
  have same: "ek_latched e' = ek_latched e3" "ek_wanting e' = ek_wanting e3" "wants e' = wants e3"
    "ek_parameters e' = ek_parameters e3" "ek_pedal_still_since_us e' = ek_pedal_still_since_us e3"
    "ek_pedal e' = ek_pedal e3" "ek_started e' = ek_started e3"
    by (simp_all add: E wants_def)
  have w: "wants e' = wants e1" using same demand_rest [OF D] rearm_rest [OF R] latch_fault_rest(2) [of now_us v e1] by simp
  have k: "stood_still now_us e' = stood_still now_us (latch_fault now_us v e1)"
    using same demand_rest [OF D] rearm_rest [OF R] by (simp only: stood_still_def)
  have "latch_view e1 = latch_view (e0\<lparr>ek_pedal := p\<rparr>)" by (rule ServiceDisplay_view [OF S])
  moreover have "ek_latched e0 = ek_latched e" "ek_wanting e0 = ek_wanting e" "ek_was_engaged e0 = ek_was_engaged e" "ek_started e0"
    "ek_parameters e0 = ek_parameters e" "ek_pedal_still_since_us e0 = (if ek_started e then ek_pedal_still_since_us e else now_us)"
    using B by (cases "ek_started e"; auto simp: begin_update_def Let_def)+
  ultimately have v: "ek_latched e1 = ek_latched e" "ek_wanting e1 = ek_wanting e" "ek_was_engaged e1 = ek_was_engaged e" "ek_started e1"
    "ek_parameters e1 = ek_parameters e" "ek_pedal_still_since_us e1 = (if ek_started e then ek_pedal_still_since_us e else now_us)"
    by (simp_all add: latch_view_def)
  have rest: "ek_started e'" "ek_parameters e' = ek_parameters e" "ek_pedal e' = ek_pedal e1"
    "ek_pedal_still_since_us e' = (if po_pedaling (ek_pedal e1) then now_us else ek_pedal_still_since_us e1)"
    using demand_rest [OF D] rearm_rest [OF R] by (simp_all only: same latch_fault_rest v)
  have "ek_latched e' = ((ek_latched e \<or> ev_faulted v \<and> (ek_wanting e \<or> ek_was_engaged e \<or> wants e')) \<and> \<not> stood_still now_us e')"
    using demand_rest [OF D] rearm_latch [OF R] latch_fault_rest(1) [of now_us v e1] unfolding w k same(1) by (simp add: v)
  moreover have "ek_latched e' \<longrightarrow> \<not> ek_wanting e'" using demand_rest [OF D] by (simp add: same)
  moreover have "eo_engage out = (ek_wanting e' \<and> \<not> ek_latched e')" unfolding same O by (simp add: E ek_output_of_def)
  ultimately show ?thesis using False rest v(6) by (simp add: O)
qed

text \<open>A run of updates: the time of each, whether it found the pedals turning, its output and the state after it. An update that is skipped
  observes nothing.\<close>

record Update_trace =
  tr_now_us :: u64
  tr_turning :: bool
  tr_out :: EbikeOutput
  tr_state :: EbikeControl

fun ek_run :: "(f32 \<Rightarrow> f32) \<Rightarrow> (EbikeIo \<times> u64 \<times> EbikeVehicle) list \<Rightarrow> EbikeControl \<Rightarrow> Update_trace list option" where
  "ek_run exp_f [] e = Some []"
| "ek_run exp_f ((io, now_us, v) # inputs) e = do {
     (out, frames, e') \<leftarrow> ek_Update exp_f io now_us v e;
     trace \<leftarrow> ek_run exp_f inputs e';
     let carried_out = (\<not> (ek_started e \<and> now_us - ek_last_update_us e < kStepUs));
     Some (\<lparr>tr_now_us = now_us, tr_turning = (carried_out \<and> po_pedaling (ek_pedal e')), tr_out = out, tr_state = e'\<rparr> # trace) }"

text \<open>At the update \<open>k\<close> of a run the pedals have rested for a time: so long ago lies the start, and every update that found them turning.\<close>

definition rested :: "u64 \<Rightarrow> u64 \<Rightarrow> Update_trace list \<Rightarrow> nat \<Rightarrow> bool" where
  "rested stop start trace k \<longleftrightarrow> tr_now_us (trace ! k) - start \<ge> stop
     \<and> (\<forall>j\<le>k. tr_turning (trace ! j) \<longrightarrow> tr_now_us (trace ! k) - tr_now_us (trace ! j) \<ge> stop)"

text \<open>The start of a run: the last time the pedals turned before it, for a control that never ran the time of the first update.\<close>

definition resting_from :: "EbikeControl \<Rightarrow> (EbikeIo \<times> u64 \<times> EbikeVehicle) list \<Rightarrow> u64" where
  "resting_from e inputs = (if ek_started e then ek_pedal_still_since_us e else case inputs of [] \<Rightarrow> 0 | (io, now_us, v) # _ \<Rightarrow> now_us)"

definition kept_latched :: "EbikeControl \<Rightarrow> Update_trace \<Rightarrow> bool" where
  "kept_latched e t \<longleftrightarrow> ek_latched (tr_state t) \<and> (eo_engage (tr_out t) \<longrightarrow>
     tr_out t = ek_output e \<and> ek_started e \<and> tr_now_us t - ek_last_update_us e < kStepUs)"

lemma word_minus_mono: "s \<le> t \<Longrightarrow> t \<le> now \<Longrightarrow> now - t \<le> now - (s :: u64)"
  by (simp add: word_le_nat_alt unat_sub)

lemma ek_run_times: "ek_run exp_f inputs e = Some trace \<Longrightarrow> map tr_now_us trace = map (\<lambda>(io, now_us, v). now_us) inputs"
  by (induction exp_f inputs e arbitrary: trace rule: ek_run.induct) (auto simp: bind_eq_Some_conv Let_def)

lemma rested_Cons:
  assumes "rested stop later trace k" "k < length trace" "start \<le> later" "later \<le> tr_now_us (trace ! k)"
    "tr_turning t \<Longrightarrow> tr_now_us t \<le> later"
  shows "rested stop start (t # trace) (Suc k)"
proof -
  have m: "stop \<le> tr_now_us (trace ! k) - s" if "s \<le> later" for s
    using assms(1,4) that word_minus_mono [of s later "tr_now_us (trace ! k)"] by (auto simp: rested_def)
  show ?thesis unfolding rested_def
  proof (intro conjI allI impI)
    fix j
    assume "j \<le> Suc k" "tr_turning ((t # trace) ! j)"
    then show "stop \<le> tr_now_us ((t # trace) ! Suc k) - tr_now_us ((t # trace) ! j)"
      using assms(1,5) m by (cases j) (auto simp: rested_def)
  qed (use m assms(3) in simp)
qed

lemma ek_run_latched:
  assumes "ek_run exp_f inputs e = Some trace" "ek_latched e" "microseconds (ep_rearm_pedal_stop (ek_parameters e)) = Some stop"
    "sorted (resting_from e inputs # map (\<lambda>(io, now_us, v). now_us) inputs)" "i < length trace"
  shows "(\<exists>k\<le>i. rested stop (resting_from e inputs) trace k) \<or> kept_latched e (trace ! i)"
  using assms
proof (induction inputs arbitrary: e trace i)
  case Nil
  then show ?case by simp
next
  case (Cons input inputs)
  obtain io now_us v where input: "input = (io, now_us, v)" by (cases input)
  obtain out frames e1 rest where U: "ek_Update exp_f io now_us v e = Some (out, frames, e1)" and R: "ek_run exp_f inputs e1 = Some rest"
    and T: "trace = \<lparr>tr_now_us = now_us, tr_turning = (\<not> (ek_started e \<and> now_us - ek_last_update_us e < kStepUs)
      \<and> po_pedaling (ek_pedal e1)), tr_out = out, tr_state = e1\<rparr> # rest"
    using Cons.prems(1) input by (auto simp: bind_eq_Some_conv Let_def)
  define start where "start = resting_from e (input # inputs)"
  have start: "start = (if ek_started e then ek_pedal_still_since_us e else now_us)" by (simp add: start_def resting_from_def input)
  have sorted: "start \<le> now_us" "sorted (now_us # map tr_now_us rest)"
    using Cons.prems(4) by (simp_all add: start_def ek_run_times [OF R] input)
  show ?case
  proof (cases "ek_started e \<and> now_us - ek_last_update_us e < kStepUs")
    case skip: True
    then have same: "e1 = e" "out = ek_output e" using ek_Update_latch [OF U] by blast+
    have r: "resting_from e inputs = start" using skip by (simp add: resting_from_def start)
    show ?thesis
    proof (cases i)
      case 0
      then show ?thesis using same skip Cons.prems(2) T by (simp add: kept_latched_def)
    next
      case (Suc i')
      have "sorted (resting_from e inputs # map (\<lambda>(io, now_us, v). now_us) inputs)"
        using sorted by (auto simp: r ek_run_times [OF R] intro: order_trans)
      from Cons.IH [OF _ Cons.prems(2,3) this, of rest i'] have "(\<exists>k\<le>i'. rested stop start rest k) \<or> kept_latched e (rest ! i')"
        using R same Cons.prems(5) T Suc by (simp add: r)
      then show ?thesis
      proof
        assume "\<exists>k\<le>i'. rested stop start rest k"
        then obtain k where k: "k \<le> i'" "rested stop start rest k" by blast
        have "rested stop start trace (Suc k)" unfolding T
          using k skip Cons.prems(5) T Suc sorted by (intro rested_Cons [OF k(2)]) (auto intro: order_trans)
        then show ?thesis using k Suc by (auto simp: start_def)
      qed (simp add: T Suc)
    qed
  next
    case run: False
    define later where "later = ek_pedal_still_since_us e1"
    have later: "later = (if po_pedaling (ek_pedal e1) then now_us else start)"
      and e1: "ek_started e1" "ek_parameters e1 = ek_parameters e" "ek_output e1 = out" "eo_engage out \<longrightarrow> \<not> ek_latched e1"
      and L: "ek_latched e1 \<or> stood_still now_us e1"
      using ek_Update_latch [OF U] run Cons.prems(2) by (auto simp: later_def start)
    show ?thesis
    proof (cases "stood_still now_us e1")
      case True
      then have "stop \<le> now_us - later" by (simp add: stood_still_def e1 Cons.prems(3) later_def)
      then have "rested stop start trace 0" using word_minus_mono [OF sorted(1), of now_us]
        by (cases "po_pedaling (ek_pedal e1)") (auto simp: T rested_def later)
      then show ?thesis by (auto simp: start_def)
    next
      case False
      then have latched: "ek_latched e1" "\<not> eo_engage out" using L e1 by auto
      have r: "resting_from e1 inputs = later" by (simp add: resting_from_def e1 later_def)
      have le: "start \<le> later" "later \<le> now_us" using sorted by (auto simp: later)
      show ?thesis
      proof (cases i)
        case 0
        then show ?thesis using latched T by (simp add: kept_latched_def)
      next
        case (Suc i')
        have "sorted (resting_from e1 inputs # map (\<lambda>(io, now_us, v). now_us) inputs)"
          using sorted le by (auto simp: r ek_run_times [OF R] intro: order_trans)
        from Cons.IH [OF R latched(1) _ this, of i'] have "(\<exists>k\<le>i'. rested stop later rest k) \<or> kept_latched e1 (rest ! i')"
          using Cons.prems(3,5) T Suc e1 by (simp add: r)
        then show ?thesis
        proof
          assume "\<exists>k\<le>i'. rested stop later rest k"
          then obtain k where k: "k \<le> i'" "rested stop later rest k" by blast
          have "rested stop start trace (Suc k)" unfolding T
            using k run le Cons.prems(5) T Suc sorted by (intro rested_Cons [OF k(2)]) (auto simp: later intro: order_trans)
          then show ?thesis using k Suc by (auto simp: start_def)
        next
          assume "kept_latched e1 (rest ! i')"
          then have "kept_latched e (rest ! i')" using latched e1 by (auto simp: kept_latched_def)
          then show ?thesis by (simp add: T Suc)
        qed
      qed
    qed
  qed
qed

section \<open>The properties\<close>

text \<open>C38. The assist never brakes and never exceeds its limit as long as its inputs are finite: over any run of steps whose pedal torque and
  cadence are finite and at most \<open>2^40\<close>, whose motor speed, speed limit and torque limit are finite, and whose time is between zero and \<open>2^20\<close>
  seconds, and for a configuration in its sane range, the torque stays a finite number between zero and the bound of all torque limits,
  whether the crank turns or not, at any level and any speed. An input that is infinite or NaN is outside of
  the claim: two crank pulses at one edge, after a pause of the thread, give an infinite cadence, and the ramp can then fall below zero. What is asked of the exponential
  function is its range up to the exponent that the law allows.\<close>

theorem assist_bounded:
  assumes "exp_ok exp_f" "assist_config_ok c" "isfinite m" "0 \<le> m"
    "list_all (\<lambda>(dt, i). within2 20 dt \<and> assist_input_ok i \<and> ai_torque_limit i \<le> m) steps"
  shows "let t = as_torque (assist_run exp_f steps (AssistController_init c)) in isfinite t \<and> 0 \<le> t \<and> t \<le> m"
proof -
  have "torque_ok m (as_torque (AssistController_init c))"
    using assms(4) by (simp add: torque_ok_def AssistController_init_def zero_f32_def)
  moreover have "as_config (AssistController_init c) = c" by (simp add: AssistController_init_def)
  ultimately show ?thesis using assist_run_bounded [OF assms(1) _ assms(3,4) _ assms(5), of "AssistController_init c"] assms(2)
    by (simp add: torque_ok_def Let_def)
qed

definition example_assist_input :: AssistInput where
  "example_assist_input = \<lparr>ai_pedaling = True, ai_cadence = f32_of 5, ai_pedal_torque = f32_of 20, ai_motor_speed = f32_of 10,
     ai_speed_limit = f32_of 50, ai_torque_limit = f32_of 30, ai_level = 3\<rparr>"

lemma assist_bounded_witness:
  "0 < as_torque (assist_run (\<lambda>x. f32_of 1) [(f32_of (1/8), example_assist_input), (f32_of (1/8), example_assist_input)]
      (AssistController_init AssistConfig_init))
   \<and> (let t = as_torque (assist_run (\<lambda>x. f32_of 1) [(f32_of (1/8), example_assist_input), (f32_of (1/8), example_assist_input)]
      (AssistController_init AssistConfig_init)) in isfinite t \<and> 0 \<le> t \<and> t \<le> f32_of 30)"
proof
  show "0 < as_torque (assist_run (\<lambda>x. f32_of 1) [(f32_of (1/8), example_assist_input), (f32_of (1/8), example_assist_input)]
      (AssistController_init AssistConfig_init))" by code_simp
  have e: "exp_ok (\<lambda>x. f32_of 1)" unfolding exp_ok_def by (intro allI impI, code_simp)
  have c: "assist_config_ok AssistConfig_init" by code_simp
  have m: "isfinite (f32_of 30)" "0 \<le> f32_of 30" by code_simp+
  have s: "list_all (\<lambda>(dt, i). within2 20 dt \<and> assist_input_ok i \<and> ai_torque_limit i \<le> f32_of 30)
      [(f32_of (1/8), example_assist_input), (f32_of (1/8), example_assist_input)]"
  proof -
    have "within2 20 (f32_of (1/8))" "ai_torque_limit example_assist_input \<le> f32_of 30" by code_simp+
    moreover have "assist_input_ok example_assist_input"
    proof -
      have "isfinite (ai_pedal_torque example_assist_input) \<and> \<bar>val (ai_pedal_torque example_assist_input)\<bar> \<le> pow2 40
        \<and> isfinite (ai_cadence example_assist_input) \<and> \<bar>val (ai_cadence example_assist_input)\<bar> \<le> pow2 40
        \<and> isfinite (ai_motor_speed example_assist_input) \<and> isfinite (ai_speed_limit example_assist_input)
        \<and> isfinite (ai_torque_limit example_assist_input)" by code_simp
      moreover have "f32_ok (ai_torque_limit example_assist_input)" by (simp add: example_assist_input_def)
      ultimately show ?thesis by (simp add: assist_input_ok_def)
    qed
    ultimately show ?thesis by simp
  qed
  show "let t = as_torque (assist_run (\<lambda>x. f32_of 1) [(f32_of (1/8), example_assist_input), (f32_of (1/8), example_assist_input)]
      (AssistController_init AssistConfig_init)) in isfinite t \<and> 0 \<le> t \<and> t \<le> f32_of 30"
    by (rule assist_bounded [OF e c m s])
qed

text \<open>C39. The latch of the e-bike: over any run of updates with any inputs, a control that a fault or the bus has latched stays latched, and
  does not ask for the drive, until an update at which the pedals have rested for the time set: every update that found them turning, and the
  start of the run, lie at least that long ago. One output is excepted: an update within the same millisecond as the last one before the
  run is skipped and returns the output of that one again, which an inhibition does not clear. The times of the updates must not run
  backwards, and the time to wait must fit its 64-bit counter.\<close>

theorem ebike_latch:
  assumes "ek_run exp_f inputs e = Some trace" "ek_latched e" "microseconds (ep_rearm_pedal_stop (ek_parameters e)) = Some stop"
    "sorted (resting_from e inputs # map (\<lambda>(io, now_us, v). now_us) inputs)" "i < length trace"
  shows "(\<exists>k\<le>i. rested stop (resting_from e inputs) trace k)
    \<or> ek_latched (tr_state (trace ! i)) \<and> (eo_engage (tr_out (trace ! i)) \<longrightarrow>
        tr_out (trace ! i) = ek_output e \<and> ek_started e \<and> tr_now_us (trace ! i) - ek_last_update_us e < kStepUs)"
  using ek_run_latched [OF assms] by (simp add: kept_latched_def)

definition example_vehicle :: EbikeVehicle where
  "example_vehicle = \<lparr>ev_motor_speed = 0, ev_torque_min = f32_of (- 5), ev_torque_max = f32_of 5, ev_dc_link = f32_of 36,
     ev_battery_current = 0, ev_motor_temperature = f32_of 20, ev_engaged = False, ev_faulted = False\<rparr>"

definition example_io :: EbikeIo where
  "example_io = \<lparr>io_crank_torque = 0, io_pulse_ages = [], io_display = []\<rparr>"

lemma ebike_latch_witness:
  "\<exists>t. ek_run (\<lambda>x. f32_of 1) [(example_io, 5000, example_vehicle)] (Inhibit EbikeControl_init) = Some [t]
     \<and> ek_latched (tr_state t) \<and> \<not> eo_engage (tr_out t)"
proof -
  define e where "e = Inhibit EbikeControl_init"
  define e1 where "e1 = e\<lparr>ek_started := True, ek_pedal_still_since_us := 5000, ek_last_update_us := 5000\<rparr>"
  define dt where "dt = f32_of_int (uint kStepUs) * f32_of (1/1000000)"
  have e: "ek_latched e" "\<not> ek_wanting e" "\<not> ek_started e" "\<not> ek_display_alive e" "ek_parameters e = EbikeParameters_init"
    "ek_pedal e = PedalObserver_init PedalObserverConfig_init" "ek_output e = EbikeOutput_init"
    by (simp_all add: e_def Inhibit_def EbikeControl_init_def ek_Configure_def EbikeParameters_init_def)
  have B: "begin_update 5000 e = (dt, e1)" using e by (simp add: begin_update_def e1_def dt_def)
  obtain p where P: "po_Step dt 0 [] (PedalObserver_init PedalObserverConfig_init) = Some p" and still: "\<not> po_pedaling p"
  proof -
    have "case po_Step dt 0 [] (PedalObserver_init PedalObserverConfig_init) of None \<Rightarrow> False | Some p \<Rightarrow> \<not> po_pedaling p"
      unfolding dt_def by code_simp
    then show ?thesis using that by (auto split: option.splits)
  qed
  have m: "microseconds (f32_of 1) = Some 1000000" by code_simp
  have D: "ServiceDisplay 5000 example_vehicle [] (e1\<lparr>ek_pedal := p\<rparr>) = Some ([], e1\<lparr>ek_pedal := p\<rparr>)"
    using e by (simp add: ServiceDisplay_def display_timeout_def e1_def)
  define e2 where "e2 = e1\<lparr>ek_pedal := p\<rparr>"
  have e2: "ek_latched e2" "\<not> ek_wanting e2" "\<not> wants e2" "ek_parameters e2 = EbikeParameters_init" "ek_pedal_still_since_us e2 = 5000"
    "\<not> po_pedaling (ek_pedal e2)"
    using e still by (simp_all add: e2_def e1_def wants_def)
  have G: "engagement 5000 example_vehicle e2 = Some e2"
    using e2 m by (simp add: engagement_def latch_fault_def example_vehicle_def rearm_def demand_def EbikeParameters_init_def)
  define e3 where "e3 = drive_assist (\<lambda>x. f32_of 1) dt example_vehicle (assist_input example_vehicle e2) e2"
  have U: "ek_Update (\<lambda>x. f32_of 1) example_io 5000 example_vehicle e = Some (ek_output e3, [], e3)"
    using e(3,6) B P D G by (simp add: ek_Update_def example_io_def e1_def e2_def e3_def Let_def)
  define t where "t = \<lparr>tr_now_us = 5000, tr_turning = po_pedaling (ek_pedal e3), tr_out = ek_output e3, tr_state = e3\<rparr>"
  have R: "ek_run (\<lambda>x. f32_of 1) [(example_io, 5000, example_vehicle)] e = Some [t]" using U by (simp add: t_def e(3))
  have M: "microseconds (ep_rearm_pedal_stop (ek_parameters e)) = Some 1000000" using e m by (simp add: EbikeParameters_init_def)
  have S: "resting_from e [(example_io, 5000, example_vehicle)] = 5000" using e by (simp add: resting_from_def)
  have "ek_latched (tr_state t) \<and> \<not> eo_engage (tr_out t)"
    using ebike_latch [OF R e(1) M, of 0] e(3) by (simp add: S rested_def t_def)
  then show ?thesis using R unfolding e_def by blast
qed

end
