(* ===== verification/Drive_Node.thy ===== *)
theory Drive_Node
  imports Commissioning Ebike_Control Outer_Loop Slow_Update Register_Provider
begin

text \<open>
  The application of one drive on the bus, \<open>src/src/drive/drive_node.hpp\<close> and \<open>.cpp\<close>, with the start sequence of
  \<open>src/src/current_control/current_control_runtime.hpp\<close>: it decides when the outputs are released, and joins the parts that the other
  theories model: the control cycle, observer and outer loop, the startup aid and its commands, the cart, the e-bike and the settings.

  The world of the settings store is a pair of the storage and the power stage, which the save gate needs. What the node dispatches in a spin
  comes as a list of messages, commands, register writes and an allocated node-ID; its other calls (log records, messages to publish, health)
  and those to the hardware and to the hooks are appended to \<open>dn_calls\<close>. The conversion between messages and bytes is generated code:
  arguments of the model on reception, left out on publication. A spin is \<open>None\<close> where the behaviour of the code is undefined.
\<close>

section \<open>Data\<close>

subsection \<open>Messages\<close>

record Telemetry =
  tm_control_cycles :: u32
  tm_i_d :: f32
  tm_i_q :: f32
  tm_i_d_ref :: f32
  tm_i_q_ref :: f32
  tm_u_d :: f32
  tm_u_q :: f32
  tm_electrical_angle :: f32
  tm_electrical_speed :: f32
  tm_dc_link_voltage :: f32
  tm_power_stage :: u8
  tm_overcurrent_tripped :: bool
  tm_engaged :: bool

record DriveStatus =
  ds_wheel_speed :: f32
  ds_estimated_torque :: f32
  ds_drive_torque_limit :: f32
  ds_brake_torque_limit :: f32
  ds_dc_link_voltage :: f32
  ds_dc_link_current :: f32
  ds_power_stage_temperature :: f32
  ds_motor_temperature :: f32
  ds_wheel :: u8
  ds_power_stage :: u8
  ds_engaged :: bool
  ds_limp_home :: bool
  ds_regen_derated :: bool
  ds_overcurrent_tripped :: bool
  ds_overvoltage_tripped :: bool

subsection \<open>Calls\<close>

text \<open>The readiness values that the drive distinguishes.\<close>

datatype Readiness = RdEngaged | RdStandby | RdOther

datatype NodeCall =
    NcAddRegisterProvider string
  | NcSubscribe u16
  | NcAddPublisher u16
  | NcStart u8
  | NcSetMode Mode
  | NcLog Severity "u8 list"
  | NcPublishTelemetry Telemetry
  | NcPublishDriveStatus DriveStatus
  | NcPublishCommissioning CommissioningStatus
  | NcPublishHoming u8
  | NcSetHealth Health
  | NcSetVendorStatus u8
  | NcDisplay "u8 list"
  | NcMotorStop
  | NcMotorInitialize f32 u32
  | NcResetTiming
  | NcSettingsApplied NvmSettings
  | NcRestart

text \<open>What a dispatch of the node hands to the drive, and the inputs of one spin.\<close>

datatype NodeEvent = NeMessage u16 "u8 list" | NeCommand u16 "u8 list" | NeWrite nat RegisterValue | NeAllocated u8

record SpinInput =
  si_now :: u64
  si_events :: "NodeEvent list"
  si_bus :: CanBusStatus
  si_io :: EbikeIo
  si_motor_temperature :: "f32 option"
  si_bridge_temperature :: "f32 option"

text \<open>
  The surroundings of the drive: the timer clock, the answer of \<open>Initialize\<close>, the exponential function, whether the hooks are set, the
  answers of the node, and the generated conversions of the received messages.
\<close>

record DriveEnv =
  de_timer_clock :: u32
  de_initialize :: "f32 \<Rightarrow> u32 \<Rightarrow> bool"
  de_exp :: "f32 \<Rightarrow> f32"
  de_has_restart :: bool
  de_has_applied :: bool
  de_accepts :: "NodeCall \<Rightarrow> bool"
  de_readiness :: "u8 list \<Rightarrow> Readiness option"
  de_current :: "u8 list \<Rightarrow> (f32 \<times> f32) option"
  de_torque :: "u8 list \<Rightarrow> f32 option"
  de_speed :: "u8 list \<Rightarrow> f32 option"
  de_position :: "u8 list \<Rightarrow> f32 option"
  de_servo :: "u8 list \<Rightarrow> (f32 \<times> f32 \<times> f32 \<times> f32) option"
  de_wheel :: "u8 list \<Rightarrow> f32 list option"
  de_pedals :: "u8 list \<Rightarrow> CartPedals option"
  de_battery :: "u8 list \<Rightarrow> (f32 \<times> f32 \<times> u8) option"

subsection \<open>The drive\<close>

record DrivePorts =
  pt_readiness :: u16
  pt_current :: u16
  pt_torque :: u16
  pt_speed :: u16
  pt_position :: u16
  pt_servo :: u16
  pt_wheel :: u16
  pt_pedal :: u16
  pt_battery :: u16
  pt_telemetry :: u16
  pt_drive_status :: u16
  pt_commissioning :: u16
  pt_homing :: u16

record 's DriveNode =
  dn_bring :: "('s \<times> PowerStage) Bringup"
  dn_storage :: 's
  dn_slow :: SlowUpdate
  dn_outer :: OuterLoop
  dn_write_count :: u32
  dn_commissioning :: Commissioning
  dn_startup_active :: bool
  dn_ports :: DrivePorts
  dn_command_timeout_us :: u64
  dn_telemetry_period_us :: u64
  dn_drive_status_period_us :: u64
  dn_cart_wheel :: u8
  dn_current_limit :: f32
  dn_torque_constant :: f32
  dn_applied_writes :: u32
  dn_checked_writes :: u32
  dn_applied_settings :: NvmSettings
  dn_settings_pending :: bool
  dn_settings_waiting :: bool
  dn_waiting_announced :: bool
  dn_next_telemetry_us :: u64
  dn_next_drive_status_us :: u64
  dn_last_homing :: HomingState
  dn_homing_published :: bool
  dn_next_homing_us :: u64
  dn_cart :: CartControl
  dn_cart_mode :: CartMode
  dn_ebike :: "EbikeControl option"
  dn_ebike_engage :: bool
  dn_ebike_torque :: f32
  dn_bus_lost :: bool
  dn_bus_off_count :: u32
  dn_engaged :: bool
  dn_rearm_required :: bool
  dn_emergency_stop :: bool
  dn_engage_requested :: bool
  dn_last_readiness_us :: u64
  dn_last_setpoint_us :: u64
  dn_setpoint_active :: bool
  dn_setpoint :: OuterSetpoint
  dn_restart_requested :: bool
  dn_restart_at_us :: u64
  dn_now_us :: u64
  dn_calls :: "NodeCall list"

abbreviation dn_isr :: "'s DriveNode \<Rightarrow> CurrentControlIsr" where "dn_isr d \<equiv> bu_cc (dn_bring d)"
abbreviation dn_stage :: "'s DriveNode \<Rightarrow> PowerStage" where "dn_stage d \<equiv> bu_stage (dn_bring d)"
abbreviation dn_fsm :: "'s DriveNode \<Rightarrow> HwStartup" where "dn_fsm d \<equiv> bu_fsm (dn_bring d)"
abbreviation dn_store :: "'s DriveNode \<Rightarrow> ('s \<times> PowerStage) SettingsStore" where "dn_store d \<equiv> bu_store (dn_bring d)"
abbreviation dn_live :: "'s DriveNode \<Rightarrow> NvmSettings" where "dn_live d \<equiv> st_settings (bu_store (dn_bring d))"

definition DrivePorts_init :: DrivePorts where
  "DrivePorts_init = \<lparr>pt_readiness = kUnsetPortId, pt_current = kUnsetPortId, pt_torque = kUnsetPortId, pt_speed = kUnsetPortId,
     pt_position = kUnsetPortId, pt_servo = kUnsetPortId, pt_wheel = kUnsetPortId, pt_pedal = kUnsetPortId, pt_battery = kUnsetPortId,
     pt_telemetry = kUnsetPortId, pt_drive_status = kUnsetPortId, pt_commissioning = kUnsetPortId, pt_homing = kUnsetPortId\<rparr>"

text \<open>The constructor, over the objects it gets, and \<open>SetLocalControl\<close>; the first two arguments are the software version.\<close>

definition DriveNode_init :: "u8 \<Rightarrow> u8 \<Rightarrow> ('s \<times> PowerStage) Bringup \<Rightarrow> 's \<Rightarrow> SlowUpdate \<Rightarrow> OuterLoop \<Rightarrow> EbikeControl option \<Rightarrow> 's DriveNode" where
  "DriveNode_init sw_major sw_minor bring storage slow outer ebike = \<lparr>dn_bring = bring, dn_storage = storage, dn_slow = slow, dn_outer = outer,
     dn_write_count = 0, dn_commissioning = Commissioning_init, dn_startup_active = False, dn_ports = DrivePorts_init,
     dn_command_timeout_us = 500000, dn_telemetry_period_us = 0, dn_drive_status_period_us = 0, dn_cart_wheel = 0, dn_current_limit = 0,
     dn_torque_constant = 0, dn_applied_writes = 0, dn_checked_writes = 0, dn_applied_settings = NvmSettings_default sw_major sw_minor,
     dn_settings_pending = False, dn_settings_waiting = False, dn_waiting_announced = False, dn_next_telemetry_us = 0,
     dn_next_drive_status_us = 0, dn_last_homing = HmIdle, dn_homing_published = False, dn_next_homing_us = 0, dn_cart = CartControl_init,
     dn_cart_mode = kOff, dn_ebike = ebike, dn_ebike_engage = False, dn_ebike_torque = 0, dn_bus_lost = False, dn_bus_off_count = 0,
     dn_engaged = False, dn_rearm_required = False, dn_emergency_stop = False, dn_engage_requested = False, dn_last_readiness_us = 0,
     dn_last_setpoint_us = 0, dn_setpoint_active = False, dn_setpoint = OuterSetpoint_init, dn_restart_requested = False,
     dn_restart_at_us = 0, dn_now_us = 0, dn_calls = []\<rparr>"

section \<open>Helpers\<close>

definition node_calls :: "NodeCall list \<Rightarrow> 's DriveNode \<Rightarrow> 's DriveNode" where
  "node_calls cs d = d\<lparr>dn_calls := dn_calls d @ cs\<rparr>"

definition dn_Log :: "Severity \<Rightarrow> u8 list \<Rightarrow> 's DriveNode \<Rightarrow> 's DriveNode" where
  "dn_Log severity message = node_calls [NcLog severity message]"

definition Joined :: "nat \<Rightarrow> u8 list \<Rightarrow> u8 list \<Rightarrow> u8 list" where
  "Joined capacity prefix detail = take capacity (prefix @ detail)"

definition ToMicroseconds :: "f32 \<Rightarrow> u64 option" where
  "ToMicroseconds time = map_option word_of_int (f32_cast 0 (2 ^ 64 - 1) (time * f32_of 1000000))"

definition PeriodMicroseconds :: "f32 \<Rightarrow> u64 option" where
  "PeriodMicroseconds rate = (if rate > 0 then map_option word_of_int (f32_cast 0 (2 ^ 64 - 1) (f32_of 1000000 / rate)) else Some 0)"

text \<open>Whether a deadline was due, and the next one.\<close>

definition Due :: "u64 \<Rightarrow> u64 \<Rightarrow> u64 \<Rightarrow> bool \<times> u64" where
  "Due period_us now_us next_us =
    (if period_us = 0 \<or> now_us < next_us then (False, next_us)
     else (True, if next_us + period_us \<le> now_us then now_us + period_us else next_us + period_us))"

definition Kelvin :: "f32 option \<Rightarrow> f32" where
  "Kelvin temperature = (case temperature of None \<Rightarrow> NaN | Some t \<Rightarrow> t + f32_of (27315/100))"

definition MeasuredCurrent :: "CurrentControlIsr \<Rightarrow> Rotor option" where
  "MeasuredCurrent isr = do { sin_cos \<leftarrow> Calculate_angle (mo_theta (isr_mech_obs isr));
     Some (ToRotor (ToStator (cst_phase_currents (isr_state isr))) sin_cos) }"

definition stage_value :: "PowerStageState \<Rightarrow> u8" where
  "stage_value s = (case s of kDisabled \<Rightarrow> 0 | kEnabled \<Rightarrow> 1 | kFault \<Rightarrow> 2 | kBlocked \<Rightarrow> 3)"

definition homing_value :: "HomingState \<Rightarrow> u8" where
  "homing_value s = (case s of HmIdle \<Rightarrow> 0 | HmSearching \<Rightarrow> 1 | HmZeroing \<Rightarrow> 2 | HmDone \<Rightarrow> 3 | HmFault \<Rightarrow> 4)"

definition contactor_of :: "u8 \<Rightarrow> Contactor" where
  "contactor_of c = (if c = 0 then kContactorOpen else if c = 1 then kContactorPrecharge else if c = 2 then kContactorClosed else kContactorOpening)"

section \<open>Setpoints\<close>

definition dn_SetCurrentSetpoint :: "f32 \<Rightarrow> f32 \<Rightarrow> u64 \<Rightarrow> 's DriveNode \<Rightarrow> 's DriveNode" where
  "dn_SetCurrentSetpoint i_d i_q now_us d =
    (if \<not> isfinite i_d \<or> \<not> isfinite i_q then d
     else let
       magnitude = Hypot i_d i_q;
       scale = (if magnitude > dn_current_limit d \<and> magnitude > 0 then dn_current_limit d / magnitude else f32_of 1)
     in d\<lparr>dn_setpoint := OuterSetpoint_init\<lparr>os_mode := kTorque, os_current := \<lparr>ro_d = i_d * scale, ro_q = i_q * scale\<rparr>\<rparr>,
       dn_last_setpoint_us := now_us, dn_setpoint_active := True\<rparr>)"

definition dn_SetSpeedSetpoint :: "f32 \<Rightarrow> u64 \<Rightarrow> 's DriveNode \<Rightarrow> 's DriveNode" where
  "dn_SetSpeedSetpoint speed now_us d = (if \<not> isfinite speed then d
     else d\<lparr>dn_setpoint := OuterSetpoint_init\<lparr>os_mode := kSpeed, os_speed := speed\<rparr>, dn_last_setpoint_us := now_us, dn_setpoint_active := True\<rparr>)"

definition dn_SetPositionSetpoint :: "f32 \<Rightarrow> u64 \<Rightarrow> 's DriveNode \<Rightarrow> 's DriveNode" where
  "dn_SetPositionSetpoint position now_us d = (if \<not> isfinite position then d
     else d\<lparr>dn_setpoint := OuterSetpoint_init\<lparr>os_mode := kPosition, os_position := position\<rparr>, dn_last_setpoint_us := now_us,
       dn_setpoint_active := True\<rparr>)"

definition ClearSetpoint :: "'s DriveNode \<Rightarrow> 's DriveNode" where
  "ClearSetpoint d = d\<lparr>dn_setpoint_active := False, dn_setpoint := OuterSetpoint_init\<rparr>"

text \<open>The current for a torque, and zero without a torque constant.\<close>

definition torque_current :: "f32 \<Rightarrow> 's DriveNode \<Rightarrow> f32" where
  "torque_current torque d = (if dn_torque_constant d > 0 then torque / dn_torque_constant d else 0)"

section \<open>Settings\<close>

definition dn_LoadParameters :: "NvmSettings \<Rightarrow> 's DriveNode \<Rightarrow> 's DriveNode option" where
  "dn_LoadParameters settings d = do {
     timeout \<leftarrow> ToMicroseconds (nvm_command_timeout settings);
     telemetry_period \<leftarrow> PeriodMicroseconds (nvm_telemetry_rate settings);
     drive_status_period \<leftarrow> PeriodMicroseconds (nvm_cart_status_rate settings);
     Some (d\<lparr>dn_command_timeout_us := timeout, dn_telemetry_period_us := telemetry_period, dn_drive_status_period_us := drive_status_period,
       dn_cart_wheel := nvm_cart_wheel settings, dn_cart := Configure (CartParameters_From settings) (dn_cart d),
       dn_ebike := (if \<not> dn_engaged d then map_option (ek_Configure (EbikeParameters_From settings)) (dn_ebike d) else dn_ebike d),
       dn_current_limit := nvm_motor_i_max settings,
       dn_torque_constant := nvm_flux_pm settings * (f32_of (3/2) * f32_of_int (uint (nvm_pole_pairs settings)))\<rparr>) }"

text \<open>\<open>StartRuntime\<close> of \<open>current_control_runtime.hpp\<close>.\<close>

definition StartRuntime :: "DriveEnv \<Rightarrow> NvmSettings \<Rightarrow> f32 \<Rightarrow> 's DriveNode \<Rightarrow> (bool \<times> 's DriveNode) option" where
  "StartRuntime env settings overcurrent_limit d = do {
     isr \<leftarrow> isr_Init settings (de_timer_clock env) (dn_isr d);
     slow \<leftarrow> su_Init settings isr (dn_slow d);
     let outer = ol_Init settings (dn_outer d);
     let (isr, calls) = SetOvercurrentLimit overcurrent_limit isr;
     let pwm = nvm_pwm_frequency settings;
     let trigger = cst_adc_trigger_offset (isr_state isr);
     Some (de_initialize env pwm trigger,
       (node_calls [NcMotorStop, NcMotorInitialize pwm trigger] d)\<lparr>dn_bring := (dn_bring d)\<lparr>bu_cc := isr, bu_calls := bu_calls (dn_bring d) @ calls\<rparr>,
         dn_slow := slow, dn_outer := outer\<rparr>) }"

definition ApplySettings :: "DriveEnv \<Rightarrow> 's DriveNode \<Rightarrow> (bool \<times> 's DriveNode) option" where
  "ApplySettings env d =
    (if GetPowerStageState (dn_stage d) = kEnabled then Some (False, d\<lparr>dn_settings_pending := True\<rparr>)
     else do {
       let live = dn_live d;
       let d = d\<lparr>dn_applied_writes := dn_write_count d, dn_checked_writes := dn_write_count d, dn_settings_pending := False,
         dn_applied_settings := live\<rparr>;
       d \<leftarrow> dn_LoadParameters live d;
       (started, d) \<leftarrow> StartRuntime env live (cap_max_phase_current (st_capabilities (dn_store d))) d;
       if \<not> started then Some (False, dn_Log SvError (text_of ''settings rejected by the hardware (PWM frequency)'') d)
       else do {
         let d = (if de_has_applied env then node_calls [NcSettingsApplied live] d else d);
         Some (True, if dn_waiting_announced d
           then dn_Log SvInfo (text_of ''waiting settings applied'') (d\<lparr>dn_waiting_announced := False\<rparr>) else d) } })"

text \<open>The registers that may change while engaged.\<close>

definition CopyTunable :: "NvmSettings \<Rightarrow> NvmSettings \<Rightarrow> NvmSettings" where
  "CopyTunable source target = fold (\<lambda>r t. if entry_effect (rg_entry r) = kImmediate then rg_put r (rg_get r source) t else t) registers target"

definition FirstUntunableChange :: "NvmSettings \<Rightarrow> NvmSettings \<Rightarrow> string option" where
  "FirstUntunableChange applied live = (let untuned = CopyTunable applied live in
     map_option rg_name (find (\<lambda>r. \<not> SameEncoding (rg_get r applied) (rg_get r untuned)) registers))"

definition TuneLive :: "'s DriveNode \<Rightarrow> 's DriveNode option" where
  "TuneLive d = (let
     d = d\<lparr>dn_checked_writes := dn_write_count d\<rparr>;
     live = dn_live d
   in case FirstUntunableChange (dn_applied_settings d) live of
        Some name \<Rightarrow> Some (dn_Log SvWarning (Joined 112 (text_of ''settings wait for the disengage: '') (text_of name))
          (d\<lparr>dn_settings_pending := True, dn_waiting_announced := True\<rparr>))
      | None \<Rightarrow> do {
          let gains = \<lparr>cg_kp_d = nvm_current_kp_d live, cg_ki_d = nvm_current_ki_d live, cg_kp_q = nvm_current_kp_q live,
            cg_ki_q = nvm_current_ki_q live\<rparr>;
          let d = d\<lparr>dn_bring := on_cc (SetCurrentGains gains) (dn_bring d), dn_outer := SetGains (GainsFrom live) (dn_outer d)\<rparr>;
          d \<leftarrow> dn_LoadParameters live d;
          Some (d\<lparr>dn_applied_settings := live, dn_applied_writes := dn_checked_writes d\<rparr>) })"

section \<open>Engagement\<close>

text \<open>\<open>Enable\<close> and \<open>Disable\<close> of the power stage of the drive.\<close>

definition dn_Disable :: "'s DriveNode \<Rightarrow> 's DriveNode" where
  "dn_Disable d = d\<lparr>dn_bring := on_stage PowerStageDisable (dn_bring d)\<rparr>"

definition dn_ClearFaults :: "'s DriveNode \<Rightarrow> 's DriveNode" where
  "dn_ClearFaults d = d\<lparr>dn_bring := on_stage PowerStageClearFault (on_cc ClearTrips (dn_bring d))\<rparr>"

text \<open>The setpoints of before are dropped, and the outer loop gets none.\<close>

definition drop_setpoints :: "'s DriveNode \<Rightarrow> 's DriveNode" where
  "drop_setpoints d = (ClearSetpoint d)\<lparr>dn_cart := Reset (dn_cart d), dn_outer := SetSetpoint OuterSetpoint_init (dn_outer d)\<rparr>"

definition Disengage :: "string \<Rightarrow> 's DriveNode \<Rightarrow> 's DriveNode" where
  "Disengage reason d = (let
     d = drop_setpoints d;
     d = (if dn_engaged d \<or> \<not> IsActive (dn_fsm d) then dn_Disable d else d)
   in if dn_engaged d then dn_Log SvNotice (Joined 64 (text_of ''disengaged: '') (text_of reason)) (d\<lparr>dn_engaged := False\<rparr>) else d)"

definition release_outputs :: "'s DriveNode \<Rightarrow> 's DriveNode" where
  "release_outputs d = (let
     d = dn_ClearFaults (drop_setpoints d);
     (ok, stage) = Enable (dn_stage d);
     d = d\<lparr>dn_bring := on_stage (\<lambda>_. stage) (dn_bring d)\<rparr>
   in if \<not> ok
      then dn_Log SvWarning (text_of ''engage refused: external enable missing or fault latched'') (d\<lparr>dn_rearm_required := True\<rparr>)
      else dn_Log SvInfo (text_of ''engaged'') (d\<lparr>dn_engaged := True\<rparr>))"

definition Engage :: "DriveEnv \<Rightarrow> 's DriveNode \<Rightarrow> 's DriveNode option" where
  "Engage env d =
    (if dn_engaged d \<or> dn_emergency_stop d then Some d
     else if IsActive (dn_fsm d)
       then Some (dn_Log SvWarning (text_of ''engage refused: the startup aid is running'') (d\<lparr>dn_rearm_required := True\<rparr>))
     else if dn_settings_pending d \<or> dn_write_count d \<noteq> dn_applied_writes d
       then do { (applied, d) \<leftarrow> ApplySettings env d; Some (if applied then release_outputs d else d) }
     else Some (release_outputs d))"

section \<open>Messages\<close>

definition OnReadiness :: "DriveEnv \<Rightarrow> u8 list \<Rightarrow> u64 \<Rightarrow> 's DriveNode \<Rightarrow> 's DriveNode" where
  "OnReadiness env payload now_us d = (case de_readiness env payload of None \<Rightarrow> d
     | Some readiness \<Rightarrow> let d = d\<lparr>dn_last_readiness_us := now_us\<rparr> in
         if readiness = RdEngaged
         then (if dn_ebike d \<noteq> None then d
               else if \<not> dn_engaged d \<and> \<not> dn_rearm_required d then d\<lparr>dn_engage_requested := True\<rparr> else d)
         else let d = d\<lparr>dn_rearm_required := False, dn_ebike := map_option Inhibit (dn_ebike d)\<rparr> in
           if dn_engaged d then Disengage ''readiness'' d
           else if readiness = RdStandby then dn_ClearFaults d
           else d)"

definition OnCurrentSetpoint :: "DriveEnv \<Rightarrow> u8 list \<Rightarrow> u64 \<Rightarrow> 's DriveNode \<Rightarrow> 's DriveNode" where
  "OnCurrentSetpoint env payload now_us d = (case de_current env payload of None \<Rightarrow> d
     | Some (i_d, i_q) \<Rightarrow> dn_SetCurrentSetpoint i_d i_q now_us d)"

definition OnTorqueSetpoint :: "DriveEnv \<Rightarrow> u8 list \<Rightarrow> u64 \<Rightarrow> 's DriveNode \<Rightarrow> 's DriveNode" where
  "OnTorqueSetpoint env payload now_us d = (case de_torque env payload of None \<Rightarrow> d
     | Some torque \<Rightarrow> if dn_torque_constant d \<le> 0 then d else dn_SetCurrentSetpoint 0 (torque / dn_torque_constant d) now_us d)"

definition OnSpeedSetpoint :: "DriveEnv \<Rightarrow> u8 list \<Rightarrow> u64 \<Rightarrow> 's DriveNode \<Rightarrow> 's DriveNode" where
  "OnSpeedSetpoint env payload now_us d = (case de_speed env payload of None \<Rightarrow> d | Some speed \<Rightarrow> dn_SetSpeedSetpoint speed now_us d)"

definition OnPositionSetpoint :: "DriveEnv \<Rightarrow> u8 list \<Rightarrow> u64 \<Rightarrow> 's DriveNode \<Rightarrow> 's DriveNode" where
  "OnPositionSetpoint env payload now_us d = (case de_position env payload of None \<Rightarrow> d
     | Some position \<Rightarrow> dn_SetPositionSetpoint position now_us d)"

definition OnServoSetpoint :: "DriveEnv \<Rightarrow> u8 list \<Rightarrow> u64 \<Rightarrow> 's DriveNode \<Rightarrow> 's DriveNode" where
  "OnServoSetpoint env payload now_us d = (case de_servo env payload of None \<Rightarrow> d
     | Some (position, speed, acceleration, torque) \<Rightarrow>
         (case SelectControlModeFromUdralServoRotation position speed acceleration torque of None \<Rightarrow> d
          | Some mode \<Rightarrow>
              if mode = kPosition then dn_SetPositionSetpoint position now_us d
              else if mode = kSpeed then dn_SetSpeedSetpoint speed now_us d
              else if dn_torque_constant d > 0 then dn_SetCurrentSetpoint 0 (torque / dn_torque_constant d) now_us d
              else d))"

definition dn_OnWheelCommand :: "DriveEnv \<Rightarrow> u8 list \<Rightarrow> u64 \<Rightarrow> 's DriveNode \<Rightarrow> 's DriveNode" where
  "dn_OnWheelCommand env payload now_us d = (case de_wheel env payload of None \<Rightarrow> d
     | Some torques \<Rightarrow> if unat (dn_cart_wheel d) \<ge> length torques then d
         else d\<lparr>dn_cart := OnWheelCommand (torques ! unat (dn_cart_wheel d)) now_us (dn_cart d)\<rparr>)"

definition dn_OnPedalState :: "DriveEnv \<Rightarrow> u8 list \<Rightarrow> u64 \<Rightarrow> 's DriveNode \<Rightarrow> 's DriveNode" where
  "dn_OnPedalState env payload now_us d = (case de_pedals env payload of None \<Rightarrow> d
     | Some pedals \<Rightarrow> d\<lparr>dn_cart := OnPedalState pedals now_us (dn_cart d)\<rparr>)"

definition dn_OnBatteryStatus :: "DriveEnv \<Rightarrow> u8 list \<Rightarrow> u64 \<Rightarrow> 's DriveNode \<Rightarrow> 's DriveNode" where
  "dn_OnBatteryStatus env payload now_us d = (case de_battery env payload of None \<Rightarrow> d
     | Some (discharge, charge, contactor) \<Rightarrow> d\<lparr>dn_cart := OnBatteryStatus
         \<lparr>cb_discharge_limit = discharge, cb_charge_limit = charge, cb_contactor = contactor_of contactor\<rparr> now_us (dn_cart d)\<rparr>)"

definition OnMessage :: "DriveEnv \<Rightarrow> u16 \<Rightarrow> u8 list \<Rightarrow> u64 \<Rightarrow> 's DriveNode \<Rightarrow> 's DriveNode" where
  "OnMessage env port payload now_us d = (let p = dn_ports d in
     if port = pt_readiness p then OnReadiness env payload now_us d
     else if port = pt_current p then OnCurrentSetpoint env payload now_us d
     else if port = pt_torque p then OnTorqueSetpoint env payload now_us d
     else if port = pt_speed p then OnSpeedSetpoint env payload now_us d
     else if port = pt_position p then OnPositionSetpoint env payload now_us d
     else if port = pt_servo p then OnServoSetpoint env payload now_us d
     else if port = pt_wheel p then dn_OnWheelCommand env payload now_us d
     else if port = pt_pedal p then dn_OnPedalState env payload now_us d
     else if port = pt_battery p then dn_OnBatteryStatus env payload now_us d
     else d)"

section \<open>Commands\<close>

definition kCommandRestart :: u16 where "kCommandRestart = 65535"
definition kCommandFactoryReset :: u16 where "kCommandFactoryReset = 65532"
definition kCommandEmergencyStop :: u16 where "kCommandEmergencyStop = 65531"
definition kCommandStorePersistentStates :: u16 where "kCommandStorePersistentStates = 65530"
definition kCmdResetTiming :: u16 where "kCmdResetTiming = 0x0300"
definition kCmdStartHoming :: u16 where "kCmdStartHoming = 0x0400"
definition kRestartDelayUs :: u64 where "kRestartDelayUs = 200000"

definition dn_StartHoming :: "'s DriveNode \<Rightarrow> (CommandResult \<times> 's DriveNode) option" where
  "dn_StartHoming d =
    (if \<not> dn_engaged d \<or> os_mode (dn_setpoint d) \<noteq> kPosition then Some (result kStatusBadState ''engage in position control first'', d)
     else if \<not> nvm_pos_homing_current (dn_applied_settings d) > 0 then Some (result kStatusBadState ''homing off: homing_current is 0'', d)
     else if \<not> Abs (nvm_pos_homing_speed (dn_applied_settings d)) > 0 then Some (result kStatusBadState ''homing off: homing_speed is 0'', d)
     else do {
       status \<leftarrow> Status (dn_outer d);
       Some (if ot_homing status = HmSearching then (result kStatusBadState ''homing runs already'', d)
         else (result kStatusSuccess '''', dn_Log SvInfo (text_of ''homing started'') (d\<lparr>dn_outer := ol_StartHoming (dn_outer d)\<rparr>))) })"

definition SaveToFlash :: "'s DriveNode \<Rightarrow> SettingsStatus \<times> 's DriveNode" where
  "SaveToFlash d = (let (status, store, storage, stage) = SaveChanged (dn_store d) (dn_storage d, dn_stage d)
     in (status, d\<lparr>dn_bring := (dn_bring d)\<lparr>bu_store := store, bu_stage := stage\<rparr>, dn_storage := storage\<rparr>))"

definition save_result :: "SettingsStatus \<Rightarrow> CommandResult" where
  "save_result status = (if status = kSuccess then result kStatusSuccess ''''
     else if status = kPersistBlocked then result kStatusBadState ''outputs released: disengage first''
     else result kStatusFailure ''flash write failed'')"

definition dn_FactoryReset :: "'s DriveNode \<Rightarrow> CommandResult \<times> 's DriveNode" where
  "dn_FactoryReset d =
    (if dn_engaged d \<or> IsActive (dn_fsm d) then (result kStatusBadState '''', d)
     else let (status, store) = ResetToFactoryDefaults (dn_store d);
       d = d\<lparr>dn_bring := (dn_bring d)\<lparr>bu_store := store\<rparr>\<rparr>
     in if status \<noteq> kSuccess then (result kStatusFailure '''', d)
        else let (status, d) = SaveToFlash (d\<lparr>dn_settings_pending := True\<rparr>) in (save_result status, d))"

definition abort_startup :: "StartupFault \<Rightarrow> 's DriveNode \<Rightarrow> 's DriveNode" where
  "abort_startup reason d = d\<lparr>dn_bring := RequestAbort reason (dn_bring d)\<rparr>"

definition OnCommand :: "u16 \<Rightarrow> u8 list \<Rightarrow> 's DriveNode \<Rightarrow> (CommandResult \<times> 's DriveNode) option" where
  "OnCommand command parameter d =
    (if Handles command
       then (let (r, bring) = cm_OnCommand (dn_engaged d) (dn_emergency_stop d) command parameter (dn_bring d) in Some (r, d\<lparr>dn_bring := bring\<rparr>))
     else if command = kCommandRestart
       then Some (result kStatusSuccess '''', (Disengage ''restart'' (abort_startup SfAborted d))\<lparr>dn_restart_requested := True,
         dn_restart_at_us := dn_now_us d + kRestartDelayUs\<rparr>)
     else if command = kCommandEmergencyStop
       then Some (result kStatusSuccess '''', Disengage ''emergency stop'' (abort_startup SfEmergencyStop (d\<lparr>dn_emergency_stop := True\<rparr>)))
     else if command = kCmdResetTiming then Some (result kStatusSuccess '''', node_calls [NcResetTiming] d)
     else if command = kCmdStartHoming then dn_StartHoming d
     else if command = kCommandStorePersistentStates then (let (status, d) = SaveToFlash d in Some (save_result status, d))
     else if command = kCommandFactoryReset then Some (dn_FactoryReset d)
     else Some (result kStatusBadCommand '''', d))"

definition OnNodeIdAllocated :: "DriveEnv \<Rightarrow> u8 \<Rightarrow> 's DriveNode \<Rightarrow> 's DriveNode" where
  "OnNodeIdAllocated env node_id d = (let
     d = (if pt_readiness (dn_ports d) = kUnsetPortId
       then (let port = EffectiveReadinessId (nvm_sub_readiness_id (dn_live d)) node_id; d = node_calls [NcSubscribe port] d in
         if de_accepts env (NcSubscribe port) then d\<lparr>dn_ports := (dn_ports d)\<lparr>pt_readiness := port\<rparr>\<rparr>
         else dn_Log SvWarning (text_of ''readiness could not be subscribed'') d)
       else d);
     (status, store) = SetNodeId node_id (dn_store d);
     d = d\<lparr>dn_bring := (dn_bring d)\<lparr>bu_store := store\<rparr>\<rparr>;
     d = (if status = kSuccess
       then (let (status, d) = SaveToFlash d in
         if status = kSuccess then dn_Log SvInfo (text_of ''node-ID allocated and saved'') d else d)
       else d)
   in d\<lparr>dn_applied_writes := dn_write_count d\<rparr>)"

text \<open>A write of a settings register over the bus.\<close>

definition dn_Write :: "nat \<Rightarrow> RegisterValue \<Rightarrow> 's DriveNode \<Rightarrow> 's DriveNode" where
  "dn_Write index v d = (let p = snd (srp_Write index v \<lparr>srp_store = dn_store d, srp_write_count = dn_write_count d\<rparr>)
     in d\<lparr>dn_bring := (dn_bring d)\<lparr>bu_store := srp_store p\<rparr>, dn_write_count := srp_write_count p\<rparr>)"

fun dispatch :: "DriveEnv \<Rightarrow> NodeEvent \<Rightarrow> 's DriveNode \<Rightarrow> 's DriveNode option" where
  "dispatch env (NeMessage port payload) d = Some (OnMessage env port payload (dn_now_us d) d)"
| "dispatch env (NeCommand command parameter) d = map_option snd (OnCommand command parameter d)"
| "dispatch env (NeWrite index v) d = Some (dn_Write index v d)"
| "dispatch env (NeAllocated node_id) d = Some (OnNodeIdAllocated env node_id d)"

fun dispatch_all :: "DriveEnv \<Rightarrow> NodeEvent list \<Rightarrow> 's DriveNode \<Rightarrow> 's DriveNode option" where
  "dispatch_all env [] d = Some d"
| "dispatch_all env (e # es) d = do { d \<leftarrow> dispatch env e d; dispatch_all env es d }"

section \<open>The spin\<close>

definition WatchBus :: "CanBusStatus \<Rightarrow> 's DriveNode \<Rightarrow> 's DriveNode" where
  "WatchBus bus d = (let
     went_off = (bs_state bus = CsBusOff \<or> bs_bus_off_count bus \<noteq> dn_bus_off_count d);
     d = d\<lparr>dn_bus_off_count := bs_bus_off_count bus\<rparr>;
     d = (if went_off \<and> \<not> dn_bus_lost d then d\<lparr>dn_bus_lost := True, dn_cart := OnBusLost (dn_cart d)\<rparr> else d)
   in if dn_bus_lost d \<and> bs_state bus \<noteq> CsBusOff
      then dn_Log SvWarning (text_of ''CAN bus-off, back on the bus'') (d\<lparr>dn_bus_lost := False\<rparr>) else d)"

text \<open>What the drive tells the e-bike.\<close>

definition vehicle_of :: "SpinInput \<Rightarrow> 's DriveNode \<Rightarrow> EbikeVehicle option" where
  "vehicle_of i d = do {
     outer \<leftarrow> Status (dn_outer d);
     current \<leftarrow> MeasuredCurrent (dn_isr d);
     let torque = dn_torque_constant d * ro_q current;
     let dc_link = cst_dc_link (isr_state (dn_isr d));
     Some \<lparr>ev_motor_speed = ot_speed outer, ev_torque_min = ot_torque_min outer, ev_torque_max = ot_torque_max outer, ev_dc_link = dc_link,
       ev_battery_current = (if dc_link > 0 then (torque * ot_speed outer) / dc_link else 0),
       ev_motor_temperature = (case si_motor_temperature i of None \<Rightarrow> 0 | Some t \<Rightarrow> t),
       ev_engaged = dn_engaged d, ev_faulted = dn_rearm_required d\<rparr> }"

text \<open>What the answer of the e-bike does to the engagement.\<close>

definition follow_ebike :: "u64 \<Rightarrow> EbikeOutput \<Rightarrow> 's DriveNode \<Rightarrow> 's DriveNode" where
  "follow_ebike now_us out d = (let d = d\<lparr>dn_ebike_engage := eo_engage out, dn_ebike_torque := eo_torque out\<rparr> in
     if eo_engage out then (let d = d\<lparr>dn_last_readiness_us := now_us\<rparr> in
       if \<not> dn_engaged d \<and> \<not> dn_rearm_required d then d\<lparr>dn_engage_requested := True\<rparr> else d)
     else let d = d\<lparr>dn_rearm_required := False\<rparr> in if dn_engaged d then Disengage ''e-bike'' d else d)"

definition SpinLocalControl :: "DriveEnv \<Rightarrow> SpinInput \<Rightarrow> 's DriveNode \<Rightarrow> 's DriveNode option" where
  "SpinLocalControl env i d = (case dn_ebike d of None \<Rightarrow> Some d
     | Some ebike \<Rightarrow> do {
         vehicle \<leftarrow> vehicle_of i d;
         (out, frames, ebike) \<leftarrow> ek_Update (de_exp env) (si_io i) (si_now i) vehicle ebike;
         Some (follow_ebike (si_now i) out (node_calls (map NcDisplay frames) (d\<lparr>dn_ebike := Some ebike\<rparr>))) })"

definition engage_on_request :: "DriveEnv \<Rightarrow> 's DriveNode \<Rightarrow> 's DriveNode option" where
  "engage_on_request env d = (if dn_engage_requested d then Engage env (d\<lparr>dn_engage_requested := False\<rparr>) else Some d)"

definition SpinStartup :: "'s DriveNode \<Rightarrow> 's DriveNode" where
  "SpinStartup d =
    (if IsActive (dn_fsm d) then d\<lparr>dn_startup_active := True, dn_bring := hs_RunOnce (dn_bring d)\<rparr>
     else if dn_startup_active d
       then d\<lparr>dn_startup_active := False, dn_bring := on_cc ReleaseForceDuty (dn_bring d), dn_settings_pending := True\<rparr>
     else d)"

definition PublishCommissioning :: "u64 \<Rightarrow> 's DriveNode \<Rightarrow> 's DriveNode" where
  "PublishCommissioning now_us d = (let (status, c) = cm_Due now_us (dn_fsm d) (dn_commissioning d); d = d\<lparr>dn_commissioning := c\<rparr> in
     case status of None \<Rightarrow> d | Some s \<Rightarrow> node_calls [NcPublishCommissioning s] d)"

text \<open>The checks of an engaged drive: the readiness, and the power stage with the trips of the control cycle.\<close>

definition check_engagement :: "u64 \<Rightarrow> bool \<Rightarrow> 's DriveNode \<Rightarrow> 's DriveNode" where
  "check_engagement now_us holds d =
    (if \<not> dn_engaged d then d
     else if now_us - dn_last_readiness_us d > dn_command_timeout_us d \<and> \<not> holds then Disengage ''readiness timeout'' d
     else if GetPowerStageState (dn_stage d) \<noteq> kEnabled \<or> Tripped (dn_isr d)
       then Disengage (case TripName (dn_isr d) of None \<Rightarrow> ''power stage fault'' | Some trip \<Rightarrow> trip) (d\<lparr>dn_rearm_required := True\<rparr>)
     else d)"

text \<open>The torque of the cart or of the e-bike replaces the setpoints; a setpoint that is not renewed is dropped.\<close>

definition apply_torques :: "u64 \<Rightarrow> CartOutput \<Rightarrow> 's DriveNode \<Rightarrow> 's DriveNode" where
  "apply_torques now_us cart d = (let
     d = (if dn_engaged d \<and> co_mode cart \<noteq> kOff then dn_SetCurrentSetpoint 0 (torque_current (co_torque cart) d) now_us d else d);
     d = (if dn_engaged d \<and> dn_ebike d \<noteq> None \<and> dn_ebike_engage d
          then dn_SetCurrentSetpoint 0 (torque_current (dn_ebike_torque d) d) now_us d else d)
   in if dn_engaged d \<and> dn_setpoint_active d \<and> now_us - dn_last_setpoint_us d > dn_command_timeout_us d then ClearSetpoint d else d)"

definition SpinEngagement :: "u64 \<Rightarrow> 's DriveNode \<Rightarrow> 's DriveNode option" where
  "SpinEngagement now_us d = do {
     outer \<leftarrow> Status (dn_outer d);
     let (out, cart) = CartUpdate now_us (ot_speed outer) (dn_engaged d) (dn_cart d);
     let d = check_engagement now_us (co_holds_engagement out) (d\<lparr>dn_cart := cart, dn_cart_mode := co_mode out\<rparr>);
     let d = apply_torques now_us out d;
     Some (d\<lparr>dn_outer := SetBatteryLimits (Battery now_us (dn_cart d)) (dn_outer d)\<rparr>) }"

definition hand_setpoint :: "'s DriveNode \<Rightarrow> 's DriveNode" where
  "hand_setpoint d = d\<lparr>dn_outer := SetSetpoint ((dn_setpoint d)\<lparr>os_active := dn_engaged d\<rparr>) (dn_outer d)\<rparr>"

definition spin_settings :: "DriveEnv \<Rightarrow> 's DriveNode \<Rightarrow> 's DriveNode option" where
  "spin_settings env d = do {
     d \<leftarrow> (if dn_engaged d \<and> dn_write_count d \<noteq> dn_checked_writes d then TuneLive d else Some d);
     let d = (if \<not> dn_engaged d \<and> dn_write_count d \<noteq> dn_applied_writes d then d\<lparr>dn_settings_pending := True\<rparr> else d);
     if \<not> dn_engaged d \<and> dn_settings_pending d then map_option snd (ApplySettings env d) else Some d }"

section \<open>Publications\<close>

definition PublishTelemetry :: "'s DriveNode \<Rightarrow> 's DriveNode option" where
  "PublishTelemetry d = (let isr = dn_isr d; state = isr_state isr in do {
     current \<leftarrow> MeasuredCurrent isr;
     angle \<leftarrow> WrapAnglePositive (mo_theta (isr_mech_obs isr));
     Some (node_calls [NcPublishTelemetry \<lparr>tm_control_cycles = cst_control_cycles state, tm_i_d = ro_d current, tm_i_q = ro_q current,
       tm_i_d_ref = ro_d (cst_i_ref state), tm_i_q_ref = ro_q (cst_i_ref state), tm_u_d = ro_d (cst_u_dq_last state),
       tm_u_q = ro_q (cst_u_dq_last state), tm_electrical_angle = angle, tm_electrical_speed = mo_omega (isr_mech_obs isr),
       tm_dc_link_voltage = cst_dc_link state, tm_power_stage = stage_value (GetPowerStageState (dn_stage d)),
       tm_overcurrent_tripped = cst_overcurrent_tripped state, tm_engaged = dn_engaged d\<rparr>] d) })"

definition drive_status :: "SpinInput \<Rightarrow> OuterStatus \<Rightarrow> Rotor \<Rightarrow> 's DriveNode \<Rightarrow> DriveStatus" where
  "drive_status i outer current d = (let
     state = isr_state (dn_isr d);
     torque = dn_torque_constant d * ro_q current;
     cart_min = Min (ToCart (dn_cart d) (ot_torque_min outer)) (ToCart (dn_cart d) (ot_torque_max outer));
     cart_max = Max (ToCart (dn_cart d) (ot_torque_min outer)) (ToCart (dn_cart d) (ot_torque_max outer));
     speed = ToCart (dn_cart d) (ot_speed outer);
     forward = (\<not> speed < 0)
   in \<lparr>ds_wheel_speed = speed, ds_estimated_torque = ToCart (dn_cart d) torque,
     ds_drive_torque_limit = Max (if forward then cart_max else - cart_min) 0,
     ds_brake_torque_limit = Max (if forward then - cart_min else cart_max) 0,
     ds_dc_link_voltage = cst_dc_link state,
     ds_dc_link_current = (if cst_dc_link state > 0 then (torque * ot_speed outer) / cst_dc_link state else NaN),
     ds_power_stage_temperature = Kelvin (si_bridge_temperature i), ds_motor_temperature = Kelvin (si_motor_temperature i),
     ds_wheel = dn_cart_wheel d, ds_power_stage = stage_value (GetPowerStageState (dn_stage d)), ds_engaged = dn_engaged d,
     ds_limp_home = (dn_cart_mode d = kLimpHome), ds_regen_derated = ot_regen_derated outer,
     ds_overcurrent_tripped = cst_overcurrent_tripped state, ds_overvoltage_tripped = cst_overvoltage_tripped state\<rparr>)"

definition PublishDriveStatus :: "SpinInput \<Rightarrow> 's DriveNode \<Rightarrow> 's DriveNode option" where
  "PublishDriveStatus i d = do {
     outer \<leftarrow> Status (dn_outer d);
     current \<leftarrow> MeasuredCurrent (dn_isr d);
     Some (node_calls [NcPublishDriveStatus (drive_status i outer current d)] d) }"

definition kHomingActivePeriodUs :: u64 where "kHomingActivePeriodUs = 500000"
definition kHomingIdlePeriodUs :: u64 where "kHomingIdlePeriodUs = 2000000"

definition PublishHoming :: "u64 \<Rightarrow> 's DriveNode \<Rightarrow> 's DriveNode option" where
  "PublishHoming now_us d = do {
     outer \<leftarrow> Status (dn_outer d);
     let state = ot_homing outer;
     Some (if dn_homing_published d \<and> state = dn_last_homing d \<and> now_us < dn_next_homing_us d then d
       else node_calls [NcPublishHoming (homing_value state)] (d\<lparr>dn_next_homing_us := now_us
         + (if state = HmSearching then kHomingActivePeriodUs else kHomingIdlePeriodUs), dn_last_homing := state, dn_homing_published := True\<rparr>)) }"

definition spin_publish :: "SpinInput \<Rightarrow> 's DriveNode \<Rightarrow> 's DriveNode option" where
  "spin_publish i d = do {
     let (due, next_us) = Due (dn_telemetry_period_us d) (si_now i) (dn_next_telemetry_us d);
     let d = d\<lparr>dn_next_telemetry_us := next_us\<rparr>;
     d \<leftarrow> (if due then PublishTelemetry d else Some d);
     let (due, next_us) = Due (dn_drive_status_period_us d) (si_now i) (dn_next_drive_status_us d);
     let d = d\<lparr>dn_next_drive_status_us := next_us\<rparr>;
     d \<leftarrow> (if due then PublishDriveStatus i d else Some d);
     PublishHoming (si_now i) d }"

definition kPowerStageMask :: u8 where "kPowerStageMask = 0x07"
definition kEngaged :: u8 where "kEngaged = 0x08"
definition kTripLatched :: u8 where "kTripLatched = 0x10"
definition kEmergencyStop :: u8 where "kEmergencyStop = 0x20"
definition kSettingsPending :: u8 where "kSettingsPending = 0x40"
definition kLocalControl :: u8 where "kLocalControl = 0x80"

definition vendor_status :: "'s DriveNode \<Rightarrow> u8" where
  "vendor_status d = (let flag = (\<lambda>set bit. if set then bit else 0) in
     (stage_value (GetPowerStageState (dn_stage d)) AND kPowerStageMask) OR flag (dn_engaged d) kEngaged OR flag (Tripped (dn_isr d)) kTripLatched
       OR flag (dn_emergency_stop d) kEmergencyStop OR flag (dn_settings_waiting d) kSettingsPending OR flag (dn_ebike d \<noteq> None) kLocalControl)"

definition health_of :: "'s DriveNode \<Rightarrow> Health" where
  "health_of d = (if dn_emergency_stop d then HeCaution
     else if GetPowerStageState (dn_stage d) = kFault \<or> Tripped (dn_isr d) then HeAdvisory else HeNominal)"

definition UpdateStatus :: "'s DriveNode \<Rightarrow> 's DriveNode" where
  "UpdateStatus d = node_calls [NcSetHealth (health_of d), NcSetVendorStatus (vendor_status d)] d"

definition spin_end :: "DriveEnv \<Rightarrow> u64 \<Rightarrow> 's DriveNode \<Rightarrow> 's DriveNode" where
  "spin_end env now_us d = (let
     d = (if dn_restart_requested d \<and> now_us \<ge> dn_restart_at_us d \<and> de_has_restart env
          then node_calls [NcRestart] (d\<lparr>dn_restart_requested := False\<rparr>) else d)
   in UpdateStatus (d\<lparr>dn_settings_waiting := dn_settings_pending d \<or> dn_write_count d \<noteq> dn_applied_writes d\<rparr>))"

definition dn_Spin :: "DriveEnv \<Rightarrow> SpinInput \<Rightarrow> 's DriveNode \<Rightarrow> 's DriveNode option" where
  "dn_Spin env i d = do {
     d \<leftarrow> dispatch_all env (si_events i) (d\<lparr>dn_now_us := si_now i\<rparr>);
     d \<leftarrow> SpinLocalControl env i (WatchBus (si_bus i) d);
     d \<leftarrow> engage_on_request env d;
     d \<leftarrow> SpinEngagement (si_now i) (PublishCommissioning (si_now i) (SpinStartup d));
     d \<leftarrow> spin_settings env (hand_setpoint d);
     d \<leftarrow> spin_publish i d;
     Some (spin_end env (si_now i) d) }"

section \<open>The start\<close>

definition kRegisterProviders :: "string list" where
  "kRegisterProviders = [''settings'', ''info'', ''commissioning'', ''timing'']"

definition ports_of :: "NvmSettings \<Rightarrow> u8 \<Rightarrow> DrivePorts" where
  "ports_of live node_id = \<lparr>pt_readiness = EffectiveReadinessId (nvm_sub_readiness_id live) node_id, pt_current = nvm_sub_current_setpoint_id live,
     pt_torque = nvm_sub_torque_setpoint_id live, pt_speed = nvm_sub_speed_setpoint_id live, pt_position = nvm_sub_position_setpoint_id live,
     pt_servo = nvm_sub_servo_setpoint_id live, pt_wheel = nvm_sub_wheel_command_id live, pt_pedal = nvm_sub_pedal_state_id live,
     pt_battery = nvm_sub_battery_status_id live, pt_telemetry = nvm_pub_telemetry_id live, pt_drive_status = nvm_pub_drive_status_id live,
     pt_commissioning = nvm_pub_commissioning_id live, pt_homing = nvm_pub_homing_state_id live\<rparr>"

definition start_calls :: "DrivePorts \<Rightarrow> NodeCall list" where
  "start_calls p = map NcAddRegisterProvider kRegisterProviders
     @ map NcSubscribe [pt_readiness p, pt_current p, pt_torque p, pt_speed p, pt_position p, pt_servo p, pt_wheel p, pt_pedal p, pt_battery p]
     @ map NcAddPublisher [pt_telemetry p, pt_drive_status p, pt_commissioning p, pt_homing p]"

definition dn_Start :: "DriveEnv \<Rightarrow> u64 \<Rightarrow> 's DriveNode \<Rightarrow> (bool \<times> 's DriveNode) option" where
  "dn_Start env now_us d = (let
     live = dn_live d;
     node_id = (if nvm_node_id live = 0 then kNodeIdUnset else nvm_node_id live);
     ports = ports_of live node_id;
     d = d\<lparr>dn_now_us := now_us, dn_ports := ports, dn_applied_writes := dn_write_count d, dn_checked_writes := dn_write_count d,
       dn_applied_settings := live\<rparr>
   in do {
     d \<leftarrow> dn_LoadParameters live d;
     let calls = start_calls ports @ [NcStart node_id];
     let d = (node_calls (calls @ [NcSetMode MoOperational]) d)\<lparr>dn_next_telemetry_us := now_us, dn_next_drive_status_us := now_us\<rparr>;
     Some (list_all (de_accepts env) calls, UpdateStatus d) })"

end
