(* ===== verification/Drive_Safety.thy ===== *)
theory Drive_Safety
  imports Drive_Node Hw_Startup_Safety Outer_Loop_Safety
begin

text \<open>
  Who may release the outputs of a drive: over every order of spins with any messages, commands, register writes and allocated node-IDs,
  control cycles, trips and changes of the external enable, the outputs belong to the engaged drive or to the startup aid, which forces the
  duties, and to nobody after an emergency stop.
\<close>

section \<open>The settings storage and the power stage\<close>

text \<open>A store that reaches the power stage by its save gate only.\<close>

definition gated :: "('s \<times> PowerStage) SettingsStore \<Rightarrow> bool" where
  "gated st \<longleftrightarrow> (\<forall>key bytes w. snd (snd (Settings_Store.Write (st_storage st) key bytes w)) = snd w)
     \<and> (\<forall>key w. snd (snd (Erase (st_storage st) key w)) = snd w)
     \<and> (\<forall>w. snd (snd (TryBegin (st_save_gate st) w)) = snd (save_gate_begin (snd w)))
     \<and> (\<forall>w. snd (End (st_save_gate st) w) = save_gate_end (snd w))"

lemma gatedD:
  assumes "gated st"
  shows "snd (snd (Settings_Store.Write (st_storage st) key bytes w)) = snd w" "snd (snd (Erase (st_storage st) key w)) = snd w"
    "snd (snd (TryBegin (st_save_gate st) w)) = snd (save_gate_begin (snd w))" "snd (End (st_save_gate st) w) = save_gate_end (snd w)"
  using assms unfolding gated_def by blast+

lemma gated_cong: "st_storage st' = st_storage st \<Longrightarrow> st_save_gate st' = st_save_gate st \<Longrightarrow> gated st' = gated st"
  by (simp add: gated_def)

lemma gate_enabled: "ps_enabled (snd (save_gate_begin p)) = ps_enabled p" "ps_enabled (save_gate_end p) = ps_enabled p"
  by (simp_all add: power_stage_defs)

lemma save_write_enabled: "gated st \<Longrightarrow> snd (sv_world (save_write st r sv)) = snd (sv_world sv)"
  by (simp add: save_write_def Let_def split_beta gatedD)

lemma save_register_enabled: "gated st \<Longrightarrow> ps_enabled (snd (sv_world (save_register st r sv))) = ps_enabled (snd (sv_world sv))"
  by (simp add: save_register_def Let_def split_beta save_write_enabled gatedD gate_enabled)

lemma save_registers_enabled: "gated st \<Longrightarrow> ps_enabled (snd (sv_world (fold (save_register st) rs sv))) = ps_enabled (snd (sv_world sv))"
  by (induction rs arbitrary: sv) (simp_all add: save_register_enabled)

lemma SaveChanged_enabled:
  assumes "gated st" "SaveChanged st w = (status, st', w')"
  shows "ps_enabled (snd w') = ps_enabled (snd w)" "gated st'"
proof -
  show "gated st'" using SaveChanged_frame [OF assms(2)] assms(1) gated_cong by metis
  define sv where "sv = fold (save_register st) registers \<lparr>sv_result = kSuccess, sv_saving = False, sv_stored = st_stored st, sv_world = w\<rparr>"
  have "w' = (if sv_saving sv then End (st_save_gate st) (sv_world sv) else sv_world sv)"
    using assms(2) unfolding SaveChanged_eq Let_def sv_def [symmetric] by simp
  moreover have "snd (End (st_save_gate st) (sv_world sv)) = save_gate_end (snd (sv_world sv))" by (rule gatedD(4) [OF assms(1)])
  ultimately show "ps_enabled (snd w') = ps_enabled (snd w)"
    using save_registers_enabled [OF assms(1), of registers] gate_enabled(2) by (simp add: sv_def)
qed

lemma gated_Commit: "gated (snd (Commit c st)) = gated st"
  by (rule gated_cong) (simp_all add: Commit_frame)

lemma gated_ops: "gated (snd (SetNodeId n st)) = gated st" "gated (snd (ResetToFactoryDefaults st)) = gated st"
  "gated (snd (ApplyAdcCalibration c st)) = gated st" "gated (snd (Update f st)) = gated st"
  by (simp_all add: SetNodeId_def ResetToFactoryDefaults_def ApplyAdcCalibration_def Update_def gated_Commit)

section \<open>The startup aid\<close>

definition owned :: "'w Bringup \<Rightarrow> bool" where
  "owned w \<longleftrightarrow> (ps_enabled (bu_stage w) \<longrightarrow> IsActive (bu_fsm w) \<and> isr_force_duty_active (bu_cc w))"

text \<open>The store is changed by the calibration of a run that ends in DONE, and only so.\<close>

definition store_follows :: "'w SettingsStore \<Rightarrow> 'w SettingsStore \<Rightarrow> bool" where
  "store_follows st st' \<longleftrightarrow> st' = st \<or> (\<exists>c. st' = snd (ApplyAdcCalibration c st))"

lemma RunDone_owned: "owned (RunDone w)" "store_follows (bu_store w) (bu_store (RunDone w))"
  by (auto simp: RunDone_def Let_def owned_def PowerStageDisable_def store_follows_def split: prod.splits intro: exI [where x = "startup_calibration (hs_results (bu_fsm w))"])

lemma EnterFault_owned: "owned (EnterFault f w)"
  by (simp add: owned_def)

lemma Advance_owned:
  assumes "IsActive (bu_fsm w)" "owned w"
  shows "owned (AdvanceToNextState w)" "store_follows (bu_store w) (bu_store (AdvanceToNextState w))"
proof -
  have "owned (AdvanceToNextState w) \<and> store_follows (bu_store w) (bu_store (AdvanceToNextState w))"
  proof (cases "hs_state (bu_fsm w) = FsmCurrentSenseCalibration")
    case True
    show ?thesis unfolding AdvanceToNextState_done [OF True]
      using RunDone_owned [of "on_fsm (\<lambda>h. h\<lparr>hs_next_step_requested := False, hs_completed := hs_completed h OR push_bit 11 1\<rparr>) w"] by simp
  next
    case False
    note a = AdvanceToNextState_next [OF assms(1) False]
    have "bu_cc (AdvanceToNextState w) = bu_cc w" "bu_stage (AdvanceToNextState w) = bu_stage w" "bu_store (AdvanceToNextState w) = bu_store w"
      unfolding a(1) by simp_all
    then show ?thesis using assms(2) a(3) by (simp add: owned_def store_follows_def)
  qed
  then show "owned (AdvanceToNextState w)" "store_follows (bu_store w) (bu_store (AdvanceToNextState w))" by auto
qed

lemma steps_to_owned:
  assumes "steps_to w w'" "owned w" "IsActive (bu_fsm w)"
  shows "owned w' \<and> store_follows (bu_store w) (bu_store w')"
proof -
  obtain w1 where w1: "works w w1" "w' = w1 \<or> w' = AdvanceToNextState w1" using assms(1) by (auto simp: steps_to_def)
  have o: "owned w1" "IsActive (bu_fsm w1)" "bu_store w1 = bu_store w"
    using w1(1) assms(2,3) by (auto simp: works_def measured_def owned_def IsActive_def)
  show ?thesis using w1(2) Advance_owned [OF o(2,1)] o by (auto simp: store_follows_def)
qed

lemma enable_stage_store [simp]: "bu_store (snd (enable_stage w)) = bu_store w" "bu_store (clear_fault_state w) = bu_store w"
  by (simp_all add: enable_stage_def clear_fault_state_def split_beta)

lemma ConnectMotor_owned:
  assumes "owned w" "hs_state (bu_fsm w) = FsmConnectMotor"
  shows "owned (RunConnectMotorWait w) \<and> store_follows (bu_store w) (bu_store (RunConnectMotorWait w))"
proof -
  define f where "f = force_all kNeutralDuty w"
  define v where "v = (if hs_step_done (bu_fsm f) then f else motor_wait f)"
  have f: "hs_state (bu_fsm f) = FsmConnectMotor" "isr_force_duty_active (bu_cc f)" "bu_store f = bu_store w"
    using assms(2) by (simp_all add: f_def force_all_def)
  have v: "hs_state (bu_fsm v) = FsmConnectMotor" "isr_force_duty_active (bu_cc v)" "bu_store v = bu_store w"
    using f by (simp_all add: v_def motor_wait_def)
  obtain ok t where e: "enable_stage (clear_fault_state v) = (ok, t)" by fastforce
  then have t: "bu_fsm t = bu_fsm v" "bu_cc t = bu_cc v" "bu_store t = bu_store v"
    using enable_stage_sel [of "clear_fault_state v"] enable_stage_store(1) [of "clear_fault_state v"] by simp_all
  have act: "IsActive (bu_fsm v)" "IsActive (bu_fsm t)" using v t by (simp_all add: IsActive_def)
  have o: "owned v" "owned t" using act v(2) t by (simp_all add: owned_def)
  have "RunConnectMotorWait w = (if hs_step_done (bu_fsm v) \<and> hs_next_step_requested (bu_fsm v) \<and> ValidateCurrentState (bu_fsm v)
      then if ok then AdvanceToNextState t else EnterFault SfEnableLost t else v)"
    unfolding RunConnectMotorWait_def Let_def f_def [symmetric] v_def [symmetric] e by simp
  then show ?thesis using o Advance_owned [OF act(2) o(2)] EnterFault_owned [of SfEnableLost t] v(3) t(3) by (simp add: store_follows_def)
qed

lemma RunOnce_owned:
  assumes "owned w" "IsActive (bu_fsm w)"
  shows "owned (hs_RunOnce w) \<and> store_follows (bu_store w) (bu_store (hs_RunOnce w))"
proof -
  define v where "v = on_cc (\<lambda>cc. cc\<lparr>isr_state := isr_state cc\<lparr>cst_samples_ready := False\<rparr>\<rparr>) w"
  have v: "bu_fsm v = bu_fsm w" "bu_store v = bu_store w" "owned v" using assms(1) by (simp_all add: v_def owned_def)
  have "owned (run_step v) \<and> store_follows (bu_store w) (bu_store (run_step v))"
  proof (cases "hs_state (bu_fsm v) = FsmConnectMotor")
    case True
    then show ?thesis using ConnectMotor_owned [OF v(3)] v by (simp add: run_step_def)
  next
    case False
    then show ?thesis using steps_to_owned [OF run_step_steps v(3)] v assms(2) by simp
  qed
  moreover have "owned (EnterFault f v) \<and> store_follows (bu_store w) (bu_store (EnterFault f v))" for f
    using EnterFault_owned [of f v] v by (simp add: store_follows_def)
  ultimately show ?thesis using assms by (simp add: hs_RunOnce_def Let_def v_def [symmetric] store_follows_def)
qed

lemma gated_follows: "store_follows st st' \<Longrightarrow> gated st \<Longrightarrow> gated st'"
  by (auto simp: store_follows_def gated_ops)

lemma RequestRun_owned:
  assumes "owned w"
  shows "owned (snd (RequestRun w)) \<and> bu_store (snd (RequestRun w)) = bu_store w"
proof (cases "IsActive (bu_fsm w)")
  case True
  then show ?thesis using assms by (simp add: RequestRun_def)
next
  case False
  define v where "v = force_all kNeutralDuty (on_cc ClearTrips (clear_fault_state (on_fsm (fresh_run (oc_limit_of w)) w)))"
  have v: "ps_enabled (bu_stage v) = ps_enabled (bu_stage w)" "isr_force_duty_active (bu_cc v)" "bu_store v = bu_store w"
    by (simp_all add: v_def force_all_def)
  have off: "\<not> ps_enabled (bu_stage v)" using assms False v(1) by (simp add: owned_def)
  obtain ok u where u: "enable_stage v = (ok, u)" by fastforce
  have us: "bu_cc u = bu_cc v" "\<not> ok \<longrightarrow> \<not> ps_enabled (bu_stage u)" "bu_store u = bu_store v"
    using u enable_stage_sel(2) [of v] enable_fails [of v] off by (auto simp: enable_stage_def split_beta)
  have "snd (RequestRun w) = (if ok then on_fsm (\<lambda>h. TransitionTo FsmPwmDisable (h\<lparr>hs_started := True\<rparr>)) u else on_cc ReleaseForceDuty u)"
    using False u by (simp add: RequestRun_def Let_def v_def)
  then show ?thesis using us v by (simp add: owned_def TransitionTo_def IsActive_def)
qed

lemma SetReading_cases:
  "snd (cm_SetReading p w) = w \<or> (\<exists>v. snd (cm_SetReading p w) = SetExtVdc v w \<or> snd (cm_SetReading p w) = SetExtCurrent v w)"
  unfolding cm_SetReading_def Let_def by (auto split: option.splits)

lemma Continue_cases: "snd (cm_Continue p w) = w \<or> snd (cm_Continue p w) = on_fsm (\<lambda>h. h\<lparr>hs_next_step_requested := True\<rparr>) w"
proof -
  have "snd (RequestNextStep c w) = w \<or> snd (RequestNextStep c w) = on_fsm (\<lambda>h. h\<lparr>hs_next_step_requested := True\<rparr>) w" for c
    by (simp add: next_step_frame)
  then show ?thesis unfolding cm_Continue_def Let_def split_beta by simp
qed

lemma Start_cases: "snd (cm_Start e s w) = w \<or> \<not> e \<and> \<not> s \<and> snd (cm_Start e s w) = snd (RequestRun w)"
  by (simp add: cm_Start_def Let_def split_beta)

lemma OnCommand_rule:
  assumes "P w" "\<And>v. P (SetExtVdc v w)" "\<And>v. P (SetExtCurrent v w)" "P (on_fsm (\<lambda>h. h\<lparr>hs_next_step_requested := True\<rparr>) w)"
    "P (RequestAbort SfAborted w)" "\<not> e \<Longrightarrow> \<not> s \<Longrightarrow> P (snd (RequestRun w))"
  shows "P (snd (cm_OnCommand e s c p w))"
proof -
  have "P (snd (cm_Start e s w))" "P (snd (cm_Continue p w))" "P (snd (cm_SetReading p w))"
    using assms Start_cases [of e s w] Continue_cases [of p w] SetReading_cases [of p w] by metis+
  then show ?thesis using assms(1,5) by (simp add: cm_OnCommand_def)
qed

lemma owned_fsm: "(\<And>h. hs_state (f h) = hs_state h) \<Longrightarrow> owned (on_fsm f w) = owned w" "(\<And>h. hs_state (f h) = hs_state h) \<Longrightarrow> IsActive (f h) = IsActive h"
  by (simp_all add: owned_def IsActive_def)

text \<open>A command of the startup aid starts a run only for a drive that is not engaged and not stopped.\<close>

lemma Commissioning_owned:
  assumes "owned w"
  shows "owned (snd (cm_OnCommand e s c p w)) \<and> bu_store (snd (cm_OnCommand e s c p w)) = bu_store w"
proof (rule OnCommand_rule)
  show "owned (RequestAbort SfAborted w) \<and> bu_store (RequestAbort SfAborted w) = bu_store w"
    using assms EnterFault_owned [of SfAborted w] by (simp add: RequestAbort_def)
  show "owned (snd (RequestRun w)) \<and> bu_store (snd (RequestRun w)) = bu_store w" by (rule RequestRun_owned [OF assms])
qed (use assms in \<open>simp_all add: SetExtVdc_def SetExtCurrent_def owned_fsm\<close>)

lemma Commissioning_idle:
  assumes "\<not> IsActive (bu_fsm w)" "e \<or> s"
  shows "\<not> IsActive (bu_fsm (snd (cm_OnCommand e s c p w))) \<and> bu_stage (snd (cm_OnCommand e s c p w)) = bu_stage w
     \<and> bu_store (snd (cm_OnCommand e s c p w)) = bu_store w"
  by (rule OnCommand_rule) (use assms in \<open>simp_all add: SetExtVdc_def SetExtCurrent_def owned_fsm RequestAbort_def\<close>)

section \<open>The interrupts and threads around the node\<close>

text \<open>The handlers of \<open>src/src/main.cpp\<close>; the queue of the Hall events is the platform's.\<close>

definition ControlCycleHandler :: "ControlCycleSamples \<Rightarrow> 's DriveNode \<Rightarrow> 's DriveNode" where
  "ControlCycleHandler raw d = (let (cc, calls) = OnControlCycle raw (dn_isr d) in d\<lparr>dn_bring := (dn_bring d)\<lparr>bu_cc := cc,
     bu_stage := if TripPowerStage \<in> set calls then PowerStageTrip (dn_stage d) else dn_stage d, bu_calls := bu_calls (dn_bring d) @ calls\<rparr>\<rparr>)"

definition ObserverHandler :: "HallEventQueue \<Rightarrow> 's DriveNode \<Rightarrow> (bool \<times> HallEventQueue \<times> 's DriveNode) option" where
  "ObserverHandler hall d = do {
     (ran, slow, hall, isr) \<leftarrow> RunOnce (GetPowerStageState (dn_stage d)) (dn_slow d) hall (dn_isr d);
     let (notify, outer) = OnObserverCycle isr (dn_outer d);
     Some (notify, hall, d\<lparr>dn_slow := slow, dn_outer := outer, dn_bring := (dn_bring d)\<lparr>bu_cc := isr\<rparr>\<rparr>) }"

definition ControlThreadHandler :: "'s DriveNode \<Rightarrow> 's DriveNode option" where
  "ControlThreadHandler d = do {
     (isr, outer) \<leftarrow> Step (dn_isr d) (dn_outer d);
     Some (d\<lparr>dn_outer := outer, dn_bring := (dn_bring d)\<lparr>bu_cc := isr\<rparr>\<rparr>) }"

datatype drive_event = DeSpin SpinInput | DeCycle ControlCycleSamples | DeObserver HallEventQueue | DeControl | DeExternal bool

fun drive_react :: "DriveEnv \<Rightarrow> drive_event \<Rightarrow> 's DriveNode \<Rightarrow> 's DriveNode option" where
  "drive_react env (DeSpin i) d = dn_Spin env i d"
| "drive_react env (DeCycle raw) d = Some (ControlCycleHandler raw d)"
| "drive_react env (DeObserver hall) d = map_option (\<lambda>(_, _, d). d) (ObserverHandler hall d)"
| "drive_react env DeControl d = ControlThreadHandler d"
| "drive_react env (DeExternal present) d = Some (d\<lparr>dn_bring := on_stage (SetExternalEnable present) (dn_bring d)\<rparr>)"

fun drive_run :: "DriveEnv \<Rightarrow> drive_event list \<Rightarrow> 's DriveNode \<Rightarrow> 's DriveNode option" where
  "drive_run env [] d = Some d"
| "drive_run env (e # es) d = do { d \<leftarrow> drive_react env e d; drive_run env es d }"

section \<open>Who owns the outputs\<close>

text \<open>The mailbox by which the outer loop gets its setpoint.\<close>

abbreviation box_ok :: "'s DriveNode \<Rightarrow> bool" where
  "box_ok d \<equiv> mailbox_ok (ol_setpoint (dn_outer d))"

lemma box_SetSetpoint [simp]: "mailbox_ok (ol_setpoint (SetSetpoint s o1)) = mailbox_ok (ol_setpoint o1)"
  by (auto simp: SetSetpoint_def MailboxWrite_def mailbox_ok_def Let_def)

lemma setpoint_box [simp]: "ol_setpoint (SetGains g o1) = ol_setpoint o1" "ol_setpoint (ol_Init st o1) = ol_setpoint o1"
  "ol_setpoint (SetBatteryLimits l o1) = ol_setpoint o1" "ol_setpoint (ol_StartHoming o1) = ol_setpoint o1"
  by (simp_all add: SetGains_def ol_Init_def SetBatteryLimits_def ol_StartHoming_def Let_def)

definition drive_ok :: "'s DriveNode \<Rightarrow> bool" where
  "drive_ok d \<longleftrightarrow> box_ok d \<and> gated (dn_store d) \<and> (dn_emergency_stop d \<longrightarrow> \<not> IsActive (dn_fsm d))
     \<and> (if dn_engaged d then \<not> IsActive (dn_fsm d) \<and> \<not> dn_emergency_stop d else owned (dn_bring d))"

text \<open>A step that leaves the ownership as it is, and one that may change it.\<close>

definition keeps :: "'s DriveNode \<Rightarrow> 's DriveNode \<Rightarrow> bool" where
  "keeps d d' \<longleftrightarrow> dn_engaged d' = dn_engaged d \<and> dn_emergency_stop d' = dn_emergency_stop d \<and> IsActive (dn_fsm d') = IsActive (dn_fsm d)
     \<and> (ps_enabled (dn_stage d') \<longrightarrow> ps_enabled (dn_stage d) \<and> (isr_force_duty_active (dn_isr d) \<longrightarrow> isr_force_duty_active (dn_isr d')))
     \<and> (gated (dn_store d) \<longrightarrow> gated (dn_store d')) \<and> box_ok d' = box_ok d"

definition moves :: "'s DriveNode \<Rightarrow> 's DriveNode \<Rightarrow> bool" where
  "moves d d' \<longleftrightarrow> (drive_ok d \<longrightarrow> drive_ok d') \<and> (dn_emergency_stop d \<longrightarrow> dn_emergency_stop d')"

lemma keeps_moves: "keeps d d' \<Longrightarrow> moves d d'"
  by (auto simp: keeps_def moves_def drive_ok_def owned_def)

lemma keeps_trans: "keeps d d' \<Longrightarrow> keeps d' d'' \<Longrightarrow> keeps d d''"
  by (auto simp: keeps_def)

lemma moves_trans: "moves d d' \<Longrightarrow> moves d' d'' \<Longrightarrow> moves d d''"
  by (auto simp: moves_def)

lemma moves_refl [simp]: "moves d d"
  by (simp add: moves_def)

definition power :: "'s DriveNode \<Rightarrow> bool \<times> bool \<times> ('s \<times> PowerStage) Bringup \<times> bool" where
  "power d = (dn_engaged d, dn_emergency_stop d, dn_bring d, box_ok d)"

lemma keeps_power: "power d' = power d \<Longrightarrow> keeps d d'"
  by (simp add: keeps_def power_def)

lemma moves_power: "power d' = power d \<Longrightarrow> moves d d'"
  by (rule keeps_moves) (rule keeps_power)

lemma power_calls [simp]: "power (node_calls cs d) = power d" "power (dn_Log s t d) = power d"
  by (simp_all add: power_def node_calls_def dn_Log_def)

lemma calls_sel [simp]: "dn_engaged (node_calls cs d) = dn_engaged d" "dn_bring (node_calls cs d) = dn_bring d"
  "dn_emergency_stop (node_calls cs d) = dn_emergency_stop d" "dn_outer (node_calls cs d) = dn_outer d"
  "dn_engaged (dn_Log s t d) = dn_engaged d" "dn_bring (dn_Log s t d) = dn_bring d" "dn_emergency_stop (dn_Log s t d) = dn_emergency_stop d"
  "dn_outer (dn_Log s t d) = dn_outer d"
  by (simp_all add: node_calls_def dn_Log_def)

subsection \<open>Setpoints and messages\<close>

lemma power_setpoints [simp]:
  "power (dn_SetCurrentSetpoint a b n d) = power d" "power (dn_SetSpeedSetpoint a n d) = power d" "power (dn_SetPositionSetpoint a n d) = power d"
  "power (ClearSetpoint d) = power d" "power (drop_setpoints d) = power d"
  by (simp_all add: power_def dn_SetCurrentSetpoint_def dn_SetSpeedSetpoint_def dn_SetPositionSetpoint_def ClearSetpoint_def drop_setpoints_def Let_def)

lemma drop_setpoints_sel [simp]: "dn_engaged (drop_setpoints d) = dn_engaged d" "dn_bring (drop_setpoints d) = dn_bring d"
  "dn_emergency_stop (drop_setpoints d) = dn_emergency_stop d" "box_ok (drop_setpoints d) = box_ok d"
  by (simp_all add: drop_setpoints_def ClearSetpoint_def)

lemma power_messages:
  "power (OnCurrentSetpoint env p n d) = power d" "power (OnTorqueSetpoint env p n d) = power d" "power (OnSpeedSetpoint env p n d) = power d"
  "power (OnPositionSetpoint env p n d) = power d" "power (OnServoSetpoint env p n d) = power d" "power (dn_OnWheelCommand env p n d) = power d"
  "power (dn_OnPedalState env p n d) = power d" "power (dn_OnBatteryStatus env p n d) = power d"
  by (simp_all add: OnCurrentSetpoint_def OnTorqueSetpoint_def OnSpeedSetpoint_def OnPositionSetpoint_def OnServoSetpoint_def split: option.split prod.split)
    (simp_all add: dn_OnWheelCommand_def dn_OnPedalState_def dn_OnBatteryStatus_def power_def split: option.split prod.split)

lemma Disengage_bring: "dn_bring (Disengage r d) = (if dn_engaged d \<or> \<not> IsActive (dn_fsm d) then on_stage PowerStageDisable (dn_bring d) else dn_bring d)"
  "\<not> dn_engaged (Disengage r d)" "dn_emergency_stop (Disengage r d) = dn_emergency_stop d" "box_ok (Disengage r d) = box_ok d"
  by (simp_all add: Disengage_def Let_def dn_Disable_def)

lemma Disengage_moves: "moves d (Disengage r d)"
  by (auto simp: moves_def drive_ok_def Disengage_bring owned_def PowerStageDisable_def)

lemma ClearFaults_keeps: "keeps d (dn_ClearFaults d)"
  by (simp add: keeps_def dn_ClearFaults_def PowerStageClearFault_def ClearTrips_def)

text \<open>A rule for the branches of an operation.\<close>

lemma if_intro: "P a \<Longrightarrow> P b \<Longrightarrow> P (if c then a else b)"
  by simp

lemma OnReadiness_moves: "moves d (OnReadiness env p n d)"
proof (cases "de_readiness env p")
  case None
  then show ?thesis by (simp add: OnReadiness_def)
next
  case (Some r)
  define e where "e = d\<lparr>dn_last_readiness_us := n\<rparr>"
  define f where "f = e\<lparr>dn_rearm_required := False, dn_ebike := map_option Inhibit (dn_ebike e)\<rparr>"
  have R: "OnReadiness env p n d = (if r = RdEngaged then (if dn_ebike e \<noteq> None then e
      else if \<not> dn_engaged e \<and> \<not> dn_rearm_required e then e\<lparr>dn_engage_requested := True\<rparr> else e)
    else if dn_engaged f then Disengage ''readiness'' f else if r = RdStandby then dn_ClearFaults f else f)"
    unfolding OnReadiness_def Some option.case Let_def e_def f_def by (rule refl)
  have m: "moves d e" "moves d (e\<lparr>dn_engage_requested := True\<rparr>)" "moves d f"
    by (rule moves_power; simp add: power_def e_def f_def)+
  note m = m moves_trans [OF m(3) Disengage_moves] moves_trans [OF m(3) keeps_moves [OF ClearFaults_keeps]]
  show ?thesis unfolding R by (rule if_intro [where P = "moves d"] m)+
qed

text \<open>A message is one of the nine, or nothing.\<close>

lemma OnMessage_rule:
  assumes "P d" "port = pt_readiness (dn_ports d) \<Longrightarrow> P (OnReadiness env p n d)" "P (OnCurrentSetpoint env p n d)" "P (OnTorqueSetpoint env p n d)"
    "P (OnSpeedSetpoint env p n d)" "P (OnPositionSetpoint env p n d)" "P (OnServoSetpoint env p n d)" "P (dn_OnWheelCommand env p n d)"
    "P (dn_OnPedalState env p n d)" "P (dn_OnBatteryStatus env p n d)"
  shows "P (OnMessage env port p n d)"
proof (cases "port = pt_readiness (dn_ports d)")
  case True
  then show ?thesis unfolding OnMessage_def Let_def if_P [OF True] by (rule assms(2))
next
  case False
  show ?thesis unfolding OnMessage_def Let_def if_not_P [OF False] by (rule if_intro [where P = P] assms(1,3-))+
qed

lemma OnMessage_moves: "moves d (OnMessage env port p n d)"
  by (rule OnMessage_rule [where P = "moves d"]) (rule moves_refl OnReadiness_moves power_messages [THEN moves_power])+

subsection \<open>Commands and writes\<close>

lemma SaveToFlash_keeps:
  assumes "gated (dn_store d)"
  shows "keeps d (snd (SaveToFlash d))"
proof -
  obtain status store storage stage where c: "SaveChanged (dn_store d) (dn_storage d, dn_stage d) = (status, store, storage, stage)"
    by (cases "SaveChanged (dn_store d) (dn_storage d, dn_stage d)") auto
  from SaveChanged_enabled [OF assms c] show ?thesis by (simp add: SaveToFlash_def c keeps_def)
qed

lemma ok_gated: "(gated (dn_store d) \<Longrightarrow> moves d d') \<Longrightarrow> dn_emergency_stop d' = dn_emergency_stop d \<Longrightarrow> moves d d'"
  by (auto simp: moves_def drive_ok_def)

lemma SaveToFlash_stop [simp]: "dn_emergency_stop (snd (SaveToFlash d)) = dn_emergency_stop d"
  by (simp add: SaveToFlash_def split_beta Let_def)

lemma SaveToFlash_moves: "moves d (snd (SaveToFlash d))"
  by (rule ok_gated) (simp_all add: SaveToFlash_keeps keeps_moves)

lemma store_moves:
  assumes "gated store = gated (dn_store d)"
  shows "moves d (d\<lparr>dn_bring := (dn_bring d)\<lparr>bu_store := store\<rparr>\<rparr>)"
  using assms by (intro keeps_moves) (simp add: keeps_def)

lemma FactoryReset_moves: "moves d (snd (dn_FactoryReset d))"
proof -
  obtain status store where R: "ResetToFactoryDefaults (dn_store d) = (status, store)" by fastforce
  define e where "e = d\<lparr>dn_bring := (dn_bring d)\<lparr>bu_store := store\<rparr>\<rparr>"
  have e: "moves d e" unfolding e_def using gated_ops(2) [of "dn_store d"] R by (intro store_moves) simp
  have "moves e (e\<lparr>dn_settings_pending := True\<rparr>)" by (rule moves_power) (simp add: power_def)
  then have s: "moves d (snd (SaveToFlash (e\<lparr>dn_settings_pending := True\<rparr>)))" using e SaveToFlash_moves moves_trans by blast
  show ?thesis unfolding dn_FactoryReset_def R Let_def prod.case e_def [symmetric] using e s by (simp add: split_beta)
qed

lemma NodeIdAllocated_moves: "moves d (OnNodeIdAllocated env n d)"
proof -
  define port where "port = EffectiveReadinessId (nvm_sub_readiness_id (dn_live d)) n"
  define e where "e = (if pt_readiness (dn_ports d) = kUnsetPortId
    then (if de_accepts env (NcSubscribe port) then (node_calls [NcSubscribe port] d)\<lparr>dn_ports := (dn_ports (node_calls [NcSubscribe port] d))\<lparr>pt_readiness := port\<rparr>\<rparr>
      else dn_Log SvWarning (text_of ''readiness could not be subscribed'') (node_calls [NcSubscribe port] d)) else d)"
  have e: "moves d e" by (rule moves_power) (simp add: e_def power_def)
  obtain status store where S: "SetNodeId n (dn_store e) = (status, store)" by fastforce
  define f where "f = e\<lparr>dn_bring := (dn_bring e)\<lparr>bu_store := store\<rparr>\<rparr>"
  have f: "moves d f" unfolding f_def using gated_ops(1) [of n "dn_store e"] S by (intro moves_trans [OF e] store_moves) simp
  define g where "g = snd (SaveToFlash f)"
  have g: "moves d g" unfolding g_def by (rule moves_trans [OF f SaveToFlash_moves])
  have l: "moves d (dn_Log s t g)" for s t by (rule moves_trans [OF g moves_power]) simp
  have w: "moves x y \<Longrightarrow> moves x (y\<lparr>dn_applied_writes := k\<rparr>)" for x y :: "'a DriveNode" and k
    by (rule moves_trans) (auto intro: moves_power simp: power_def)
  have "OnNodeIdAllocated env n d = (if status = kSuccess then (if fst (SaveToFlash f) = kSuccess
      then dn_Log SvInfo (text_of ''node-ID allocated and saved'') g else g) else f)\<lparr>dn_applied_writes := dn_write_count
        (if status = kSuccess then (if fst (SaveToFlash f) = kSuccess
      then dn_Log SvInfo (text_of ''node-ID allocated and saved'') g else g) else f)\<rparr>"
    unfolding OnNodeIdAllocated_def Let_def port_def [symmetric] e_def [symmetric] S split_beta fst_conv snd_conv f_def [symmetric]
    unfolding g_def [symmetric] by (rule refl)
  then show ?thesis using f g l w by simp
qed

lemma Write_moves: "moves d (dn_Write i v d)"
proof -
  define p where "p = snd (srp_Write i v \<lparr>srp_store = dn_store d, srp_write_count = dn_write_count d\<rparr>)"
  have "gated (srp_store p) = gated (dn_store d)"
    unfolding p_def by (simp add: srp_Write_def Let_def split_beta gated_ops(4))
  then have "moves d (d\<lparr>dn_bring := (dn_bring d)\<lparr>bu_store := srp_store p\<rparr>\<rparr>)" by (rule store_moves)
  then have "moves d (d\<lparr>dn_bring := (dn_bring d)\<lparr>bu_store := srp_store p\<rparr>, dn_write_count := srp_write_count p\<rparr>)"
    by (rule moves_trans) (auto intro: moves_power simp: power_def)
  then show ?thesis unfolding dn_Write_def Let_def p_def [symmetric] .
qed

lemma abort_idle: "\<not> IsActive (dn_fsm (abort_startup r d))" "dn_engaged (abort_startup r d) = dn_engaged d"
  "dn_emergency_stop (abort_startup r d) = dn_emergency_stop d"
  by (simp_all add: abort_startup_def RequestAbort_def) (simp add: IsActive_def)

lemma abort_moves: "moves d (abort_startup r d)"
proof -
  have "owned (RequestAbort r (dn_bring d)) = (if IsActive (dn_fsm d) then True else owned (dn_bring d))"
    using EnterFault_owned [of r "dn_bring d"] by (simp add: RequestAbort_def)
  moreover have "bu_store (RequestAbort r (dn_bring d)) = dn_store d" by (simp add: RequestAbort_def)
  moreover have "\<not> IsActive (bu_fsm (RequestAbort r (dn_bring d)))" using abort_idle(1) [of r d] by (simp add: abort_startup_def)
  ultimately show ?thesis by (auto simp: moves_def drive_ok_def abort_startup_def)
qed

lemma stop_moves: "moves d (Disengage r (abort_startup f (d\<lparr>dn_emergency_stop := True\<rparr>)))"
proof -
  define e where "e = abort_startup f (d\<lparr>dn_emergency_stop := True\<rparr>)"
  have e: "\<not> IsActive (dn_fsm e)" "dn_emergency_stop e" "dn_engaged e = dn_engaged d" "dn_store e = dn_store d" "box_ok e = box_ok d"
    using abort_idle [of f "d\<lparr>dn_emergency_stop := True\<rparr>"] by (simp_all add: e_def) (simp_all add: abort_startup_def RequestAbort_def)
  then have "drive_ok d \<Longrightarrow> drive_ok (Disengage r e)"
    by (auto simp: drive_ok_def Disengage_bring owned_def PowerStageDisable_def)
  moreover have "dn_emergency_stop (Disengage r e)" using e(2) by (simp add: Disengage_bring)
  ultimately show ?thesis unfolding e_def [symmetric] by (simp add: moves_def)
qed

lemma Commissioning_moves: "moves d (d\<lparr>dn_bring := snd (cm_OnCommand (dn_engaged d) (dn_emergency_stop d) c p (dn_bring d))\<rparr>)"
proof (cases "dn_engaged d \<or> dn_emergency_stop d")
  case True
  have "drive_ok d \<Longrightarrow> \<not> IsActive (dn_fsm d)" using True by (auto simp: drive_ok_def split: if_splits)
  from Commissioning_idle [OF this True] Commissioning_owned [of "dn_bring d"] show ?thesis
    by (auto simp: moves_def drive_ok_def)
next
  case False
  then show ?thesis using Commissioning_owned [of "dn_bring d"] by (simp add: moves_def drive_ok_def)
qed

lemma StartHoming_moves: "dn_StartHoming d = Some (r, d') \<Longrightarrow> moves d d'"
  by (rule moves_power) (auto simp: dn_StartHoming_def bind_eq_Some_conv power_def Let_def split: if_splits)

subsection \<open>Operations that may be undefined\<close>

definition always :: "('a \<Rightarrow> bool) \<Rightarrow> 'a option \<Rightarrow> bool" where
  "always P m \<longleftrightarrow> (\<forall>x. m = Some x \<longrightarrow> P x)"

lemma always_simps [simp]: "always P (Some x) = P x" "always P None"
  by (simp_all add: always_def)

lemma always_bind: "always Q m \<Longrightarrow> (\<And>x. Q x \<Longrightarrow> always P (f x)) \<Longrightarrow> always P (m \<bind> f)"
  by (cases m) (simp_all add: always_def)

lemma always_any: "(\<And>x. always P (f x)) \<Longrightarrow> always P (m \<bind> f)"
  by (cases m) (simp_all add: always_def)

lemma alwaysD: "always P m \<Longrightarrow> m = Some x \<Longrightarrow> P x"
  by (simp add: always_def)

lemma StartHoming_always: "always (\<lambda>(r, d'). moves d d') (dn_StartHoming d)"
  using StartHoming_moves by (auto simp: always_def)

lemma OnCommand_moves: "always (\<lambda>(r, d'). moves d d') (OnCommand c p d)"
proof -
  let ?P = "always (\<lambda>(r, d'). moves d d')"
  have restart: "?P (Some (x, (Disengage r (abort_startup f d))\<lparr>dn_restart_requested := True, dn_restart_at_us := k\<rparr>))" for x r f k
  proof -
    have "moves d ((Disengage r (abort_startup f d))\<lparr>dn_restart_requested := True, dn_restart_at_us := k\<rparr>)"
      by (rule moves_trans [OF moves_trans [OF abort_moves Disengage_moves] moves_power]) (simp add: power_def)
    then show ?thesis by simp
  qed
  have others: "?P (Some (x, node_calls cs d))" "?P (Some (x, d))" "?P (Some (x, snd (SaveToFlash d)))" "?P (Some (dn_FactoryReset d))"
      "?P (Some (x, Disengage r (abort_startup f (d\<lparr>dn_emergency_stop := True\<rparr>))))" "?P (dn_StartHoming d)"
      "?P (Some (x, d\<lparr>dn_bring := snd (cm_OnCommand (dn_engaged d) (dn_emergency_stop d) c p (dn_bring d))\<rparr>))" for x cs r f
    using moves_power [of "node_calls cs d" d] SaveToFlash_moves FactoryReset_moves stop_moves StartHoming_always Commissioning_moves
    by (simp_all add: split_beta)
  show ?thesis unfolding OnCommand_def Let_def split_beta [of _ "cm_OnCommand _ _ _ _ _"] split_beta [of _ "SaveToFlash _"]
    by (rule if_intro [where P = ?P] restart others)+
qed

text \<open>Everything that a dispatch hands to the drive.\<close>

lemma dispatch_moves: "always (moves d) (dispatch env e d)"
proof (cases e)
  case (NeCommand c p)
  then show ?thesis using OnCommand_moves [of d c p] by (auto simp: always_def)
qed (simp_all add: OnMessage_moves Write_moves NodeIdAllocated_moves)

lemma dispatch_all_moves: "always (moves d) (dispatch_all env es d)"
proof (induction es arbitrary: d)
  case (Cons e es)
  have "always (moves d) (dispatch_all env es d')" if "moves d d'" for d'
    using Cons.IH [of d'] moves_trans [OF that] by (auto simp: always_def)
  then show ?case by (simp add: always_bind [OF dispatch_moves])
qed simp

section \<open>The spin\<close>

text \<open>What the watch of the bus does not touch.\<close>

lemma WatchBus_view:
  assumes "\<And>x c. f (x\<lparr>dn_bus_off_count := c\<rparr>) = f x" "\<And>x b c. f (x\<lparr>dn_bus_lost := b, dn_cart := c\<rparr>) = f x"
    "\<And>x b. f (x\<lparr>dn_bus_lost := b\<rparr>) = f x" "\<And>x t m. f (dn_Log t m x) = f x"
  shows "f (WatchBus bus d) = f d"
proof -
  define x where "x = d\<lparr>dn_bus_off_count := bs_bus_off_count bus\<rparr>"
  define y where "y = (if (bs_state bus = CsBusOff \<or> bs_bus_off_count bus \<noteq> dn_bus_off_count d) \<and> \<not> dn_bus_lost x
    then x\<lparr>dn_bus_lost := True, dn_cart := OnBusLost (dn_cart x)\<rparr> else x)"
  have "f y = f d" by (simp add: y_def x_def assms)
  moreover have "WatchBus bus d = (if dn_bus_lost y \<and> bs_state bus \<noteq> CsBusOff
      then dn_Log SvWarning (text_of ''CAN bus-off, back on the bus'') (y\<lparr>dn_bus_lost := False\<rparr>) else y)"
    unfolding WatchBus_def Let_def x_def [symmetric] unfolding y_def [symmetric] by (rule refl)
  ultimately show ?thesis by (simp add: assms)
qed

lemma WatchBus_power: "power (WatchBus bus d) = power d"
  by (rule WatchBus_view) (simp_all add: power_def)

lemma follow_ebike_moves: "moves d (follow_ebike n out d)"
proof -
  define e where "e = d\<lparr>dn_ebike_engage := eo_engage out, dn_ebike_torque := eo_torque out\<rparr>"
  have p: "moves d (e\<lparr>dn_last_readiness_us := n\<rparr>)" "moves d (e\<lparr>dn_last_readiness_us := n, dn_engage_requested := True\<rparr>)"
    "moves d (e\<lparr>dn_rearm_required := False\<rparr>)"
    by (rule moves_power; simp add: e_def power_def)+
  note p = p moves_trans [OF p(3) Disengage_moves]
  show ?thesis unfolding follow_ebike_def Let_def e_def [symmetric] by (rule if_intro [where P = "moves d"] p)+
qed

lemma SpinLocalControl_moves: "always (moves d) (SpinLocalControl env i d)"
proof (cases "dn_ebike d")
  case None
  then show ?thesis by (simp add: SpinLocalControl_def)
next
  case (Some ebike)
  have "moves d (follow_ebike n out (node_calls cs (d\<lparr>dn_ebike := Some e\<rparr>)))" for n out cs e
    by (rule moves_trans [OF moves_power follow_ebike_moves]) (simp add: power_def)
  then show ?thesis unfolding SpinLocalControl_def Some option.case
    by (intro always_any) (simp add: split_beta)
qed

lemma LoadParameters_power: "always (\<lambda>d'. power d' = power d) (dn_LoadParameters s d)"
  unfolding dn_LoadParameters_def by (intro always_any) (simp add: power_def)

lemma StartRuntime_keeps: "\<not> ps_enabled (dn_stage d) \<Longrightarrow> always (\<lambda>(ok, d'). keeps d d' \<and> \<not> ps_enabled (dn_stage d')) (StartRuntime env s l d)"
  unfolding StartRuntime_def by (intro always_any) (simp add: keeps_def split_beta Let_def)

lemma not_enabled: "GetPowerStageState p \<noteq> kEnabled \<Longrightarrow> \<not> ps_enabled p"
  by (auto simp: GetPowerStageState_def)

lemma ApplySettings_keeps: "always (\<lambda>(ok, d'). keeps d d') (ApplySettings env d)"
proof (cases "GetPowerStageState (dn_stage d) = kEnabled")
  case True
  then show ?thesis by (simp add: ApplySettings_def keeps_def)
next
  case False
  define e where "e = d\<lparr>dn_applied_writes := dn_write_count d, dn_checked_writes := dn_write_count d, dn_settings_pending := False,
    dn_applied_settings := dn_live d\<rparr>"
  have e: "power e = power d" by (simp add: e_def power_def)
  have log: "keeps d (dn_Log s t x)" "keeps d (node_calls cs x)" "keeps d (x\<lparr>dn_waiting_announced := b\<rparr>)" if "keeps d x" for s t cs b x
    using that by (simp_all add: keeps_def)
  show ?thesis
    unfolding ApplySettings_def if_not_P [OF False] Let_def e_def [symmetric]
  proof (rule always_bind [OF LoadParameters_power], goal_cases)
    case (1 x)
    then have k: "keeps d x" "\<not> ps_enabled (dn_stage x)"
      using e keeps_power [of x d] not_enabled [OF False] by (simp_all add: power_def)
    show ?case
    proof (rule always_bind [OF StartRuntime_keeps [OF k(2)]], goal_cases)
      case (1 p)
      obtain ok y where p: "p = (ok, y)" by fastforce
      then have "keeps d y" using 1 keeps_trans [OF k(1)] by simp
      then show ?case by (simp add: p log)
    qed
  qed
qed

lemma ApplySettings_moves: "always (\<lambda>(ok, d'). moves d d') (ApplySettings env d)"
  using ApplySettings_keeps [of d env] keeps_moves by (auto simp: always_def)

subsection \<open>Engagement\<close>

lemma Enable_fails: "\<not> fst (Enable p) \<Longrightarrow> \<not> ps_enabled p \<Longrightarrow> \<not> ps_enabled (snd (Enable p))"
  by (auto simp: power_stage_defs split: if_splits)

lemma release_outputs_ok:
  assumes "drive_ok d" "\<not> dn_engaged d" "\<not> dn_emergency_stop d" "\<not> IsActive (dn_fsm d)"
  shows "drive_ok (release_outputs d)" "\<not> dn_emergency_stop (release_outputs d)"
proof -
  define e where "e = dn_ClearFaults (drop_setpoints d)"
  have e: "\<not> dn_engaged e" "\<not> dn_emergency_stop e" "\<not> IsActive (dn_fsm e)" "gated (dn_store e)" "\<not> ps_enabled (dn_stage e)" "box_ok e"
    using assms by (simp_all add: e_def dn_ClearFaults_def drive_ok_def owned_def PowerStageClearFault_def)
  obtain ok stage where E: "Enable (dn_stage e) = (ok, stage)" by fastforce
  have r: "release_outputs d = (if \<not> ok
      then dn_Log SvWarning (text_of ''engage refused: external enable missing or fault latched'')
        ((e\<lparr>dn_bring := on_stage (\<lambda>_. stage) (dn_bring e)\<rparr>)\<lparr>dn_rearm_required := True\<rparr>)
      else dn_Log SvInfo (text_of ''engaged'') ((e\<lparr>dn_bring := on_stage (\<lambda>_. stage) (dn_bring e)\<rparr>)\<lparr>dn_engaged := True\<rparr>))"
    unfolding release_outputs_def Let_def e_def [symmetric] E by simp
  have s: "\<not> ok \<longrightarrow> \<not> ps_enabled stage" using Enable_fails [of "dn_stage e"] e(5) E by simp
  show "drive_ok (release_outputs d)" "\<not> dn_emergency_stop (release_outputs d)"
    unfolding r using e s by (simp_all add: drive_ok_def owned_def)
qed

lemma release_outputs_moves: "\<not> dn_engaged d \<Longrightarrow> \<not> dn_emergency_stop d \<Longrightarrow> \<not> IsActive (dn_fsm d) \<Longrightarrow> moves d (release_outputs d)"
  using release_outputs_ok [of d] by (simp add: moves_def)

lemma Engage_moves: "always (moves d) (Engage env d)"
proof (cases "dn_engaged d \<or> dn_emergency_stop d \<or> IsActive (dn_fsm d)")
  case True
  have "moves d (dn_Log s t (d\<lparr>dn_rearm_required := True\<rparr>))" for s t by (rule moves_power) (simp add: power_def)
  then show ?thesis using True unfolding Engage_def by auto
next
  case False
  have "moves d (if ok then release_outputs x else x)" if "keeps d x" for ok x
  proof -
    have "moves x (release_outputs x)" using that False by (intro release_outputs_moves) (simp_all add: keeps_def)
    then show ?thesis using keeps_moves [OF that] moves_trans [OF keeps_moves [OF that]] by simp
  qed
  then have "always (moves d) (ApplySettings env d \<bind> (\<lambda>(applied, d). Some (if applied then release_outputs d else d)))"
    by (intro always_bind [OF ApplySettings_keeps]) (simp add: split_beta)
  then show ?thesis using False release_outputs_moves [of d] unfolding Engage_def by simp
qed

lemma engage_on_request_moves: "always (moves d) (engage_on_request env d)"
proof -
  have "moves d (d\<lparr>dn_engage_requested := False\<rparr>)" by (rule moves_power) (simp add: power_def)
  then show ?thesis
    using Engage_moves [of "d\<lparr>dn_engage_requested := False\<rparr>" env] moves_trans unfolding engage_on_request_def always_def by auto
qed

lemma SpinStartup_moves: "moves d (SpinStartup d)"
proof (cases "IsActive (dn_fsm d)")
  case True
  define e where "e = d\<lparr>dn_startup_active := True, dn_bring := hs_RunOnce (dn_bring d)\<rparr>"
  have "drive_ok d \<Longrightarrow> drive_ok e"
    using True RunOnce_owned [of "dn_bring d"] gated_follows [of "dn_store d"] by (auto simp: drive_ok_def e_def)
  then show ?thesis using True unfolding SpinStartup_def e_def [symmetric] by (simp add: moves_def) (simp add: e_def)
next
  case False
  define e where "e = d\<lparr>dn_startup_active := False, dn_bring := on_cc ReleaseForceDuty (dn_bring d), dn_settings_pending := True\<rparr>"
  have "drive_ok d \<Longrightarrow> drive_ok e" using False by (auto simp: drive_ok_def e_def owned_def)
  then show ?thesis using False unfolding SpinStartup_def e_def [symmetric] by (simp add: moves_def) (simp add: e_def)
qed

lemma PublishCommissioning_power: "power (PublishCommissioning n d) = power d"
  by (simp add: PublishCommissioning_def Let_def split_beta power_def split: option.split)

lemma check_engagement_moves: "moves d (check_engagement n h d)"
proof -
  have "moves d (Disengage r (d\<lparr>dn_rearm_required := True\<rparr>))" for r
    by (rule moves_trans [OF moves_power Disengage_moves]) (simp add: power_def)
  then show ?thesis unfolding check_engagement_def
    by (intro if_intro [where P = "moves d"] moves_refl Disengage_moves)
qed

lemma apply_torques_power: "power (apply_torques n cart d) = power d"
proof -
  define x where "x = (if dn_engaged d \<and> co_mode cart \<noteq> kOff then dn_SetCurrentSetpoint 0 (torque_current (co_torque cart) d) n d else d)"
  define y where "y = (if dn_engaged x \<and> dn_ebike x \<noteq> None \<and> dn_ebike_engage x
    then dn_SetCurrentSetpoint 0 (torque_current (dn_ebike_torque x) x) n x else x)"
  have "power x = power d" "power y = power x" by (simp_all add: x_def y_def)
  then show ?thesis unfolding apply_torques_def Let_def x_def [symmetric] unfolding y_def [symmetric] by simp
qed

lemma SpinEngagement_moves: "always (moves d) (SpinEngagement n d)"
  unfolding SpinEngagement_def Let_def split_beta
proof (rule always_any, simp only: always_simps, goal_cases)
  case (1 outer)
  define out where "out = fst (CartUpdate n (ot_speed outer) (dn_engaged d) (dn_cart d))"
  define e where "e = d\<lparr>dn_cart := snd (CartUpdate n (ot_speed outer) (dn_engaged d) (dn_cart d)), dn_cart_mode := co_mode out\<rparr>"
  have "moves d e" by (rule moves_power) (simp add: e_def power_def)
  from moves_trans [OF this check_engagement_moves]
  have c: "moves d (check_engagement n (co_holds_engagement out) e)" .
  have "power ((apply_torques n out f)\<lparr>dn_outer := SetBatteryLimits l (dn_outer (apply_torques n out f))\<rparr>) = power f" for f :: "'a DriveNode" and l
    using apply_torques_power [of n out f] by (simp add: power_def)
  then show ?case unfolding out_def [symmetric] e_def [symmetric] by (intro moves_trans [OF c moves_power]) simp
qed

lemma TuneLive_keeps: "always (keeps d) (TuneLive d)"
proof -
  define e where "e = d\<lparr>dn_checked_writes := dn_write_count d\<rparr>"
  show ?thesis
  proof (cases "FirstUntunableChange (dn_applied_settings e) (dn_live e)")
    case (Some name)
    then show ?thesis unfolding TuneLive_def Let_def e_def [symmetric] by (simp add: keeps_def) (simp add: e_def)
  next
    case None
    define f where "f = e\<lparr>dn_bring := on_cc (SetCurrentGains \<lparr>cg_kp_d = nvm_current_kp_d (dn_live e), cg_ki_d = nvm_current_ki_d (dn_live e),
      cg_kp_q = nvm_current_kp_q (dn_live e), cg_ki_q = nvm_current_ki_q (dn_live e)\<rparr>) (dn_bring e),
      dn_outer := SetGains (GainsFrom (dn_live e)) (dn_outer e)\<rparr>"
    have f: "keeps d f" by (simp add: keeps_def f_def e_def SetCurrentGains_def)
    have "keeps f (x\<lparr>dn_applied_settings := s, dn_applied_writes := w\<rparr>)" if "power x = power f" for x s w
      using that by (intro keeps_power) (simp add: power_def)
    then have "keeps d (x\<lparr>dn_applied_settings := s, dn_applied_writes := w\<rparr>)" if "power x = power f" for x s w
      using keeps_trans [OF f] that by blast
    then show ?thesis
      unfolding TuneLive_def Let_def e_def [symmetric] None option.case f_def [symmetric]
      by (intro always_bind [OF LoadParameters_power]) simp
  qed
qed

lemma hand_setpoint_power: "power (hand_setpoint d) = power d"
  by (simp add: hand_setpoint_def power_def)

text \<open>The settings of a spin; an engaged drive stays as it is.\<close>

lemma spin_settings_keeps: "always (keeps d) (spin_settings env d)"
proof -
  define t where "t = (if dn_engaged d \<and> dn_write_count d \<noteq> dn_checked_writes d then TuneLive d else Some d)"
  have t: "always (keeps d) t" using TuneLive_keeps [of d] unfolding t_def by (simp add: keeps_def)
  have "always (keeps d) (if \<not> dn_engaged (if c then x\<lparr>dn_settings_pending := True\<rparr> else x) \<and> dn_settings_pending (if c then x\<lparr>dn_settings_pending := True\<rparr> else x)
      then map_option snd (ApplySettings env (if c then x\<lparr>dn_settings_pending := True\<rparr> else x)) else Some (if c then x\<lparr>dn_settings_pending := True\<rparr> else x))"
    if "keeps d x" for x c
  proof -
    define y where "y = (if c then x\<lparr>dn_settings_pending := True\<rparr> else x)"
    have y: "keeps d y" using keeps_trans [OF that keeps_power [of y x]] by (simp add: y_def power_def)
    have "always (keeps d) (map_option snd (ApplySettings env y))"
      using ApplySettings_keeps [of y env] keeps_trans [OF y] by (auto simp: always_def)
    then show ?thesis using y unfolding y_def [symmetric] by simp
  qed
  then show ?thesis unfolding spin_settings_def t_def [symmetric] Let_def by (intro always_bind [OF t])
qed

subsection \<open>Publications\<close>

lemma Telemetry_power: "always (\<lambda>d'. power d' = power d) (PublishTelemetry d)"
  unfolding PublishTelemetry_def Let_def by (intro always_any) simp

lemma DriveStatus_power: "always (\<lambda>d'. power d' = power d) (PublishDriveStatus i d)"
  unfolding PublishDriveStatus_def by (intro always_any) simp

lemma Homing_power: "always (\<lambda>d'. power d' = power d) (PublishHoming n d)"
  unfolding PublishHoming_def Let_def by (intro always_any) (simp add: power_def)

lemma always_power: "always (\<lambda>x. power x = power d) m \<Longrightarrow> power d = power e \<Longrightarrow> always (\<lambda>x. power x = power e) m"
  by (simp add: always_def)

lemma spin_publish_power: "always (\<lambda>d'. power d' = power d) (spin_publish i d)"
proof -
  have next1: "power (d\<lparr>dn_next_telemetry_us := n\<rparr>) = power d" and next2: "power (d\<lparr>dn_next_drive_status_us := n\<rparr>) = power d"
    for n and d :: "'a DriveNode" by (simp_all add: power_def)
  have step: "always (\<lambda>x. power x = power d) (if due then m else Some e)" if "power e = power d" "always (\<lambda>x. power x = power e) m"
    for due m e and d :: "'a DriveNode" using that by (simp add: always_power)
  show ?thesis unfolding spin_publish_def Let_def split_beta
    by (rule always_bind [OF step [OF next1 Telemetry_power]], rule always_bind [OF always_power [OF step [OF next2 DriveStatus_power]]], assumption)
      (rule always_power [OF Homing_power])
qed

lemma spin_end_power: "power (spin_end env n d) = power d"
  by (simp add: spin_end_def Let_def UpdateStatus_def power_def)

section \<open>A spin in two halves\<close>

text \<open>Up to the setpoint that the outer loop gets, and the rest, in which the ownership stays as it is.\<close>

definition spin_control :: "DriveEnv \<Rightarrow> SpinInput \<Rightarrow> 's DriveNode \<Rightarrow> 's DriveNode option" where
  "spin_control env i d = do {
     d \<leftarrow> SpinLocalControl env i (WatchBus (si_bus i) d);
     d \<leftarrow> engage_on_request env d;
     SpinEngagement (si_now i) (PublishCommissioning (si_now i) (SpinStartup d)) }"

definition spin_rest :: "DriveEnv \<Rightarrow> SpinInput \<Rightarrow> 's DriveNode \<Rightarrow> 's DriveNode option" where
  "spin_rest env i d = do {
     d \<leftarrow> spin_settings env (hand_setpoint d);
     d \<leftarrow> spin_publish i d;
     Some (spin_end env (si_now i) d) }"

lemma dn_Spin_parts: "dn_Spin env i d = dispatch_all env (si_events i) (d\<lparr>dn_now_us := si_now i\<rparr>) \<bind>
    (\<lambda>d. spin_control env i d \<bind> spin_rest env i)"
  by (simp add: dn_Spin_def spin_control_def spin_rest_def [abs_def])

lemma moves_link: "moves d e \<Longrightarrow> always (moves e) m \<Longrightarrow> always (moves d) m"
  using moves_trans by (auto simp: always_def)

lemma spin_control_moves: "always (moves d) (spin_control env i d)"
  unfolding spin_control_def
  by (rule always_bind [OF moves_link [OF moves_power [OF WatchBus_power] SpinLocalControl_moves]],
      rule always_bind [OF moves_link [OF _ engage_on_request_moves]], assumption)
    (rule moves_link [OF moves_trans [OF moves_trans [OF _ SpinStartup_moves] moves_power [OF PublishCommissioning_power]] SpinEngagement_moves])

lemma spin_rest_keeps: "always (keeps d) (spin_rest env i d)"
proof -
  have link: "always (keeps d) m" if "keeps d e" "always (keeps e) m" for e m
    using that keeps_trans by (auto simp: always_def)
  have publish: "always (keeps e) (spin_publish i e)" for e :: "'a DriveNode"
    using spin_publish_power [of e i] keeps_power by (auto simp: always_def)
  show ?thesis unfolding spin_rest_def
    by (rule always_bind [OF link [OF keeps_power [OF hand_setpoint_power] spin_settings_keeps]],
        rule always_bind [OF link [OF _ publish]], assumption)
      (simp only: always_simps, erule keeps_trans [OF _ keeps_power [OF spin_end_power]])
qed

lemma spin_after_dispatch: "always (moves d) (spin_control env i d \<bind> spin_rest env i)"
proof -
  have "always (moves d) (spin_rest env i e)" if "moves d e" for e
    using spin_rest_keeps [of e env i] keeps_moves moves_trans [OF that] by (auto simp: always_def)
  then show ?thesis by (rule always_bind [OF spin_control_moves])
qed

lemma Spin_moves: "always (moves d) (dn_Spin env i d)"
proof -
  have "moves d (d\<lparr>dn_now_us := si_now i\<rparr>)" by (rule moves_power) (simp add: power_def)
  from moves_link [OF this dispatch_all_moves] show ?thesis unfolding dn_Spin_parts
    by (rule always_bind) (rule moves_link [OF _ spin_after_dispatch])
qed

section \<open>The interrupts\<close>

lemma ControlCycleHandler_keeps: "keeps d (ControlCycleHandler raw d)"
proof -
  obtain cc calls where c: "OnControlCycle raw (dn_isr d) = (cc, calls)" by fastforce
  from cc_quietD [OF cc_quiet_cycle [OF c]] show ?thesis by (simp add: ControlCycleHandler_def c keeps_def PowerStageTrip_def)
qed

lemma ObserverHandler_keeps: "always (\<lambda>(_, _, d'). keeps d d') (ObserverHandler hall d)"
proof -
  have r: "always (\<lambda>(_, _, _, isr). isr_force_duty_active isr = isr_force_duty_active i) (RunOnce stage u q i)" for stage u q i
    unfolding RunOnce_def Let_def split_beta
    by (rule if_intro [where P = "always (\<lambda>p. isr_force_duty_active (snd (snd (snd p))) = isr_force_duty_active i)"]) (simp, intro always_any, simp)
  have b: "ol_setpoint (snd (OnObserverCycle isr o1)) = ol_setpoint o1" for isr o1
    by (simp add: OnObserverCycle_def Let_def)
  show ?thesis unfolding ObserverHandler_def
    by (rule always_bind [OF r]) (use b in \<open>auto simp: keeps_def split_beta Let_def\<close>)
qed

lemma Step_force: "always (\<lambda>(isr', o'). isr_force_duty_active isr' = isr_force_duty_active isr) (Step isr o1)"
proof (cases "ol_bound o1")
  case True
  have "isr_force_duty_active isr' = isr_force_duty_active isr" if "Step isr o1 = Some (isr', o')" for isr' o'
    by (rule Step_reference [OF that True]) (simp add: SetCurrentRef_def)
  then show ?thesis by (auto simp: always_def)
qed (simp add: Step_def)

lemma Restart_box [simp]: "ol_setpoint (Restart w o1) = ol_setpoint o1"
  by (simp add: Restart_def)

lemma take_parameters_box: "ol_setpoint (take_parameters o1) = ol_setpoint o1"
  by (simp add: take_parameters_def LoadParameters_def ApplyGains_def Let_def)

lemma engage_box [simp]: "ol_setpoint (engage sp w o1) = ol_setpoint o1"
  by (simp add: engage_def Let_def)

lemma UpdateHoming_box: "ol_setpoint (UpdateHoming sp w o1) = ol_setpoint o1"
proof -
  have t: "ol_setpoint (TakeHomingRequest sp w o2) = ol_setpoint o2" for o2 by (simp add: TakeHomingRequest_def)
  have u: "ol_setpoint (if b then f o2 else o2) = ol_setpoint o2" if "\<And>o2. ol_setpoint (f o2) = ol_setpoint o2" for b f and o2 :: OuterLoop
    using that by simp
  show ?thesis unfolding UpdateHoming_def Let_def
    by (subst u, simp, subst u, simp, subst if_distrib [of ol_setpoint], simp add: t)
qed

lemma ol_steps_box: "ol_setpoint (o1\<lparr>ol_steps := k\<rparr>) = ol_setpoint o1"
  by simp

lemma track_position_box: "track_position ob o1 = Some o2 \<Longrightarrow> ol_setpoint o2 = ol_setpoint o1"
  by (auto simp: track_position_def bind_eq_Some_conv split: if_splits)

lemma SearchHome_box: "ol_setpoint (snd (SearchHome w window sp o1)) = ol_setpoint o1"
  by (simp add: SearchHome_def Let_def split_beta)

lemma PositionTorque_box: "ol_setpoint (snd (PositionTorque sp w window o1)) = ol_setpoint o1"
  by (simp add: PositionTorque_def Let_def split_beta SearchHome_box)

lemma reference_current_box: "ol_setpoint (snd (snd (reference_current sp w window o1))) = ol_setpoint o1"
  by (simp add: reference_current_def mode_current_def Let_def split_beta PositionTorque_box)

lemma Step_box:
  assumes "Step isr o1 = Some (isr', o1')"
  shows "ol_setpoint o1' = ol_setpoint o1"
proof (cases "ol_bound o1")
  case True
  from Step_parts [OF assms True] obtain ob o3 w window c pos o4 status
    where t: "track_position ob (take_parameters o1) = Some o3"
      and r: "reference_current (hd (MailboxRead (ol_setpoint (take_parameters o1)))) w window
        (UpdateHoming (hd (MailboxRead (ol_setpoint (take_parameters o1)))) w (o3\<lparr>ol_steps := ol_steps o3 + 1\<rparr>)) = (c, pos, o4)"
      and o': "o1' = o4\<lparr>ol_status := status\<rparr>" by metis
  have "ol_setpoint o4 = ol_setpoint (UpdateHoming (hd (MailboxRead (ol_setpoint (take_parameters o1)))) w (o3\<lparr>ol_steps := ol_steps o3 + 1\<rparr>))"
    using reference_current_box [of "hd (MailboxRead (ol_setpoint (take_parameters o1)))" w window
        "UpdateHoming (hd (MailboxRead (ol_setpoint (take_parameters o1)))) w (o3\<lparr>ol_steps := ol_steps o3 + 1\<rparr>)"] unfolding r by simp
  then show ?thesis using track_position_box [OF t] o' by (simp add: UpdateHoming_box take_parameters_box)
qed (use assms in \<open>simp add: Step_def\<close>)

lemma ControlThreadHandler_keeps: "always (keeps d) (ControlThreadHandler d)"
proof -
  have "keeps d (d\<lparr>dn_outer := o', dn_bring := (dn_bring d)\<lparr>bu_cc := isr'\<rparr>\<rparr>)" if "Step (dn_isr d) (dn_outer d) = Some (isr', o')" for isr' o'
    using Step_box [OF that] Step_force [of "dn_isr d" "dn_outer d"] that by (simp add: keeps_def)
  then show ?thesis unfolding ControlThreadHandler_def by (cases "Step (dn_isr d) (dn_outer d)") auto
qed

lemma drive_react_moves: "always (moves d) (drive_react env e d)"
proof (cases e)
  case (DeObserver hall)
  then show ?thesis using ObserverHandler_keeps [of d hall] keeps_moves by (auto simp: always_def)
next
  case DeControl
  then show ?thesis using ControlThreadHandler_keeps [of d] keeps_moves by (auto simp: always_def)
next
  case (DeExternal p)
  have "keeps d (d\<lparr>dn_bring := on_stage (SetExternalEnable p) (dn_bring d)\<rparr>)"
    by (simp add: keeps_def SetExternalEnable_def PowerStageTrip_def Let_def)
  then show ?thesis using DeExternal keeps_moves by simp
qed (simp_all add: Spin_moves keeps_moves [OF ControlCycleHandler_keeps])

lemma drive_run_moves: "always (moves d) (drive_run env es d)"
proof (induction es arbitrary: d)
  case (Cons e es)
  have "always (moves d) (drive_run env es d')" if "moves d d'" for d'
    using Cons.IH [of d'] moves_trans [OF that] by (auto simp: always_def)
  then show ?case by (simp add: always_bind [OF drive_react_moves])
qed simp

lemma drive_run_append: "drive_run env (es @ fs) d = drive_run env es d \<bind> drive_run env fs"
proof (induction es arbitrary: d)
  case (Cons e es)
  then show ?case by (cases "drive_react env e d") simp_all
qed simp

section \<open>The emergency stop\<close>

lemma stop_command: "OnCommand kCommandEmergencyStop p d = Some (r, d') \<Longrightarrow> dn_emergency_stop d'"
proof -
  have "\<not> Handles kCommandEmergencyStop" "kCommandEmergencyStop \<noteq> kCommandRestart" by code_simp+
  then show "OnCommand kCommandEmergencyStop p d = Some (r, d') \<Longrightarrow> dn_emergency_stop d'"
    by (auto simp: OnCommand_def Disengage_bring abort_idle)
qed

lemma dispatch_all_stop:
  "dispatch_all env es d = Some d' \<Longrightarrow> NeCommand kCommandEmergencyStop p \<in> set es \<Longrightarrow> dn_emergency_stop d'"
proof (induction es arbitrary: d)
  case (Cons e es)
  obtain d1 where d1: "dispatch env e d = Some d1" "dispatch_all env es d1 = Some d'"
    using Cons.prems(1) by (auto simp: bind_eq_Some_conv)
  show ?case
  proof (cases "e = NeCommand kCommandEmergencyStop p")
    case True
    then have "dn_emergency_stop d1" using d1(1) stop_command [of p d] by auto
    then show ?thesis using alwaysD [OF dispatch_all_moves d1(2)] by (simp add: moves_def)
  next
    case False
    then show ?thesis using Cons d1(2) by auto
  qed
qed simp

lemma Spin_stop:
  assumes "dn_Spin env i d = Some d'" "NeCommand kCommandEmergencyStop p \<in> set (si_events i)"
  shows "dn_emergency_stop d'"
proof -
  obtain d1 where d1: "dispatch_all env (si_events i) (d\<lparr>dn_now_us := si_now i\<rparr>) = Some d1" "spin_control env i d1 \<bind> spin_rest env i = Some d'"
    using assms(1) unfolding dn_Spin_parts by (auto simp: bind_eq_Some_conv)
  show ?thesis using dispatch_all_stop [OF d1(1) assms(2)] alwaysD [OF spin_after_dispatch d1(2)] by (simp add: moves_def)
qed

section \<open>Properties\<close>

text \<open>C4. The outputs of the drive have one owner: over every order of spins, control cycles, observer and control threads and changes of
  the external enable, outputs that are released belong to the engaged drive without a run of the startup aid, or to a run that forces the
  duties while the drive is not engaged; and after an emergency stop to nobody.\<close>

theorem drive_outputs_owned:
  assumes "drive_ok d" "drive_run env es d = Some d'"
  shows "(ps_enabled (dn_stage d') \<longrightarrow> dn_engaged d' \<and> \<not> IsActive (dn_fsm d')
        \<or> \<not> dn_engaged d' \<and> IsActive (dn_fsm d') \<and> isr_force_duty_active (dn_isr d'))
     \<and> (dn_emergency_stop d' \<longrightarrow> \<not> dn_engaged d' \<and> \<not> IsActive (dn_fsm d') \<and> \<not> ps_enabled (dn_stage d'))"
proof -
  have "drive_ok d'" using alwaysD [OF drive_run_moves assms(2)] assms(1) by (simp add: moves_def)
  then show ?thesis by (auto simp: drive_ok_def owned_def split: if_splits)
qed

text \<open>C5. An emergency stop is final: after a spin that dispatches the command, among whatever other messages and commands, the drive is not
  engaged, no startup run is active and the outputs are off, and no later sequence of events changes that.\<close>

theorem emergency_stop_final:
  assumes "drive_ok d" "drive_run env (es @ DeSpin i # fs) d = Some d'" "NeCommand kCommandEmergencyStop p \<in> set (si_events i)"
  shows "dn_emergency_stop d' \<and> \<not> dn_engaged d' \<and> \<not> IsActive (dn_fsm d') \<and> \<not> ps_enabled (dn_stage d')"
proof -
  obtain d1 d2 where r: "drive_run env es d = Some d1" "dn_Spin env i d1 = Some d2" "drive_run env fs d2 = Some d'"
    using assms(2) by (auto simp: drive_run_append bind_eq_Some_conv)
  have "dn_emergency_stop d'" using Spin_stop [OF r(2) assms(3)] alwaysD [OF drive_run_moves r(3)] by (simp add: moves_def)
  moreover have "drive_ok d'" using alwaysD [OF drive_run_moves assms(2)] assms(1) by (simp add: moves_def)
  ultimately show ?thesis by (auto simp: drive_ok_def owned_def split: if_splits)
qed

end
