(* ===== verification/Drive_Engagement.thy ===== *)
theory Drive_Engagement
  imports Drive_Safety
begin

text \<open>
  How a drive is engaged and stays so: what a spin has checked of an engaged drive and what the outer loop is handed, the checks of the
  readiness and of the power stage, and the latch after a fault, which only a readiness other than ENGAGED takes back.
\<close>

section \<open>What an engaged spin has checked\<close>

text \<open>The setpoint that the outer loop takes in its next step.\<close>

definition handed :: "'s DriveNode \<Rightarrow> OuterSetpoint" where
  "handed d = hd (MailboxRead (ol_setpoint (dn_outer d)))"

definition settled :: "'s DriveNode \<Rightarrow> 's DriveNode \<Rightarrow> bool" where
  "settled d d' \<longleftrightarrow> dn_engaged d' = dn_engaged d \<and> handed d' = handed d
     \<and> (dn_engaged d \<longrightarrow> dn_stage d' = dn_stage d \<and> Tripped (dn_isr d') = Tripped (dn_isr d))"

lemma settled_refl [simp]: "settled d d"
  by (simp add: settled_def)

lemma settled_trans: "settled d d' \<Longrightarrow> settled d' d'' \<Longrightarrow> settled d d''"
  by (auto simp: settled_def)

lemma settled_link: "settled d e \<Longrightarrow> always (settled e) m \<Longrightarrow> always (settled d) m"
  using settled_trans by (auto simp: always_def)

definition shown :: "'s DriveNode \<Rightarrow> bool \<times> ('s \<times> PowerStage) Bringup \<times> OuterLoop" where
  "shown d = (dn_engaged d, dn_bring d, dn_outer d)"

lemma shown_settled: "shown d' = shown d \<Longrightarrow> settled d d'"
  by (simp add: shown_def settled_def handed_def)

lemma shown_calls [simp]: "shown (node_calls cs d) = shown d" "shown (dn_Log s t d) = shown d"
  by (simp_all add: shown_def node_calls_def dn_Log_def)

lemma LoadParameters_shown: "always (\<lambda>d'. shown d' = shown d) (dn_LoadParameters s d)"
  unfolding dn_LoadParameters_def by (intro always_any) (simp add: shown_def)

lemma StartRuntime_settled: "\<not> dn_engaged d \<Longrightarrow> always (\<lambda>(ok, d'). settled d d') (StartRuntime env s l d)"
  unfolding StartRuntime_def by (intro always_any) (simp add: settled_def handed_def split_beta Let_def)

lemma ApplySettings_settled:
  assumes "\<not> dn_engaged d"
  shows "always (\<lambda>(ok, d'). settled d d') (ApplySettings env d)"
proof (cases "GetPowerStageState (dn_stage d) = kEnabled")
  case True
  have "settled d (d\<lparr>dn_settings_pending := True\<rparr>)" by (rule shown_settled) (simp add: shown_def)
  then show ?thesis using True by (simp add: ApplySettings_def)
next
  case False
  define e where "e = d\<lparr>dn_applied_writes := dn_write_count d, dn_checked_writes := dn_write_count d, dn_settings_pending := False,
    dn_applied_settings := dn_live d\<rparr>"
  have e: "shown e = shown d" by (simp add: e_def shown_def)
  have log: "settled d (dn_Log s t x)" "settled d (node_calls cs x)" "settled d (x\<lparr>dn_waiting_announced := b\<rparr>)" if "settled d x" for s t cs b x
    using that by (simp_all add: settled_def handed_def)
  show ?thesis
    unfolding ApplySettings_def if_not_P [OF False] Let_def e_def [symmetric]
  proof (rule always_bind [OF LoadParameters_shown], goal_cases)
    case (1 x)
    then have x: "settled d x" "\<not> dn_engaged x" using e assms shown_settled [of x d] by (simp_all add: shown_def)
    show ?case
    proof (rule always_bind [OF StartRuntime_settled [OF x(2)]], goal_cases)
      case (1 p)
      obtain ok y where p: "p = (ok, y)" by fastforce
      then have "settled d y" using 1 settled_trans [OF x(1)] by simp
      then show ?case by (simp add: p log)
    qed
  qed
qed

lemma TuneLive_settled: "always (settled d) (TuneLive d)"
proof -
  define e where "e = d\<lparr>dn_checked_writes := dn_write_count d\<rparr>"
  have e: "settled d e" by (rule shown_settled) (simp add: e_def shown_def)
  show ?thesis
  proof (cases "FirstUntunableChange (dn_applied_settings e) (dn_live e)")
    case (Some name)
    have "settled e (dn_Log s t (e\<lparr>dn_settings_pending := True, dn_waiting_announced := True\<rparr>))" for s t
      by (rule shown_settled) (simp add: shown_def)
    then show ?thesis unfolding TuneLive_def Let_def e_def [symmetric] using Some settled_trans [OF e] by simp
  next
    case None
    define f where "f = e\<lparr>dn_bring := on_cc (SetCurrentGains \<lparr>cg_kp_d = nvm_current_kp_d (dn_live e), cg_ki_d = nvm_current_ki_d (dn_live e),
      cg_kp_q = nvm_current_kp_q (dn_live e), cg_ki_q = nvm_current_ki_q (dn_live e)\<rparr>) (dn_bring e),
      dn_outer := SetGains (GainsFrom (dn_live e)) (dn_outer e)\<rparr>"
    have f: "settled d f" by (simp add: settled_def f_def e_def SetCurrentGains_def Tripped_def handed_def)
    have "settled d (x\<lparr>dn_applied_settings := s, dn_applied_writes := w\<rparr>)" if "shown x = shown f" for x s w
      using that by (intro settled_trans [OF f shown_settled]) (simp add: shown_def)
    then show ?thesis
      unfolding TuneLive_def Let_def e_def [symmetric] None option.case f_def [symmetric]
      by (intro always_bind [OF LoadParameters_shown]) simp
  qed
qed

lemma spin_settings_settled: "always (settled d) (spin_settings env d)"
proof -
  define t where "t = (if dn_engaged d \<and> dn_write_count d \<noteq> dn_checked_writes d then TuneLive d else Some d)"
  have t: "always (settled d) t" using TuneLive_settled [of d] unfolding t_def by simp
  have "always (settled d) (if \<not> dn_engaged (if c then x\<lparr>dn_settings_pending := True\<rparr> else x) \<and> dn_settings_pending (if c then x\<lparr>dn_settings_pending := True\<rparr> else x)
      then map_option snd (ApplySettings env (if c then x\<lparr>dn_settings_pending := True\<rparr> else x)) else Some (if c then x\<lparr>dn_settings_pending := True\<rparr> else x))"
    if "settled d x" for x c
  proof -
    define y where "y = (if c then x\<lparr>dn_settings_pending := True\<rparr> else x)"
    have y: "settled d y" using settled_trans [OF that shown_settled [of y x]] by (simp add: y_def shown_def)
    have "\<not> dn_engaged y \<Longrightarrow> always (settled d) (map_option snd (ApplySettings env y))"
      using ApplySettings_settled [of y env] settled_trans [OF y] by (auto simp: always_def)
    then show ?thesis using y unfolding y_def [symmetric] by simp
  qed
  then show ?thesis unfolding spin_settings_def t_def [symmetric] Let_def by (intro always_bind [OF t])
qed

lemma publish_shown: "always (\<lambda>d'. shown d' = shown d) (PublishTelemetry d)" "always (\<lambda>d'. shown d' = shown d) (PublishDriveStatus i d)"
  "always (\<lambda>d'. shown d' = shown d) (PublishHoming n d)"
  unfolding PublishTelemetry_def PublishDriveStatus_def PublishHoming_def Let_def by (intro always_any, simp add: shown_def)+

lemma always_shown: "always (\<lambda>x. shown x = shown d) m \<Longrightarrow> shown d = shown e \<Longrightarrow> always (\<lambda>x. shown x = shown e) m"
  by (simp add: always_def)

lemma spin_publish_shown: "always (\<lambda>d'. shown d' = shown d) (spin_publish i d)"
proof -
  have next1: "shown (d\<lparr>dn_next_telemetry_us := n\<rparr>) = shown d" and next2: "shown (d\<lparr>dn_next_drive_status_us := n\<rparr>) = shown d"
    for n and d :: "'a DriveNode" by (simp_all add: shown_def)
  have step: "always (\<lambda>x. shown x = shown d) (if due then m else Some e)" if "shown e = shown d" "always (\<lambda>x. shown x = shown e) m"
    for due m e and d :: "'a DriveNode" using that by (simp add: always_shown)
  show ?thesis unfolding spin_publish_def Let_def split_beta
    by (rule always_bind [OF step [OF next1 publish_shown(1)]], rule always_bind [OF always_shown [OF step [OF next2 publish_shown(2)]]], assumption)
      (rule always_shown [OF publish_shown(3)])
qed

lemma spin_rest_settled: "always (settled (hand_setpoint d)) (spin_rest env i d)"
proof -
  have publish: "always (settled e) (spin_publish i e)" for e :: "'a DriveNode"
    using spin_publish_shown [of e i] shown_settled by (auto simp: always_def)
  have last: "settled e (spin_end env n e)" for n and e :: "'a DriveNode"
    by (rule shown_settled) (simp add: spin_end_def Let_def UpdateStatus_def shown_def)
  show ?thesis unfolding spin_rest_def
    by (rule always_bind [OF spin_settings_settled], rule always_bind [OF settled_link [OF _ publish]], assumption)
      (simp only: always_simps, erule settled_trans [OF _ last])
qed

text \<open>What the checks of the engagement leave of an engaged drive.\<close>

lemma apply_torques_shown: "dn_engaged (apply_torques n cart d) = dn_engaged d" "dn_bring (apply_torques n cart d) = dn_bring d"
  using apply_torques_power [of n cart d] by (simp_all add: power_def)

lemma check_engagement_engaged:
  "dn_engaged (check_engagement n h d) = (dn_engaged d \<and> (n - dn_last_readiness_us d \<le> dn_command_timeout_us d \<or> h)
     \<and> GetPowerStageState (dn_stage d) = kEnabled \<and> \<not> Tripped (dn_isr d))"
  "dn_engaged (check_engagement n h d) \<Longrightarrow> check_engagement n h d = d"
  by (auto simp: check_engagement_def Disengage_bring)

lemma check_engagement_checked: "dn_engaged (check_engagement n h d) \<longrightarrow> ps_enabled (dn_stage (check_engagement n h d))
    \<and> \<not> Tripped (dn_isr (check_engagement n h d))"
  using check_engagement_engaged [of n h d] by (auto simp: GetPowerStageState_def split: if_splits)

lemma SpinEngagement_checked:
  "always (\<lambda>d'. dn_engaged d' \<longrightarrow> ps_enabled (dn_stage d') \<and> \<not> Tripped (dn_isr d')) (SpinEngagement n d)"
  unfolding SpinEngagement_def Let_def split_beta
proof (rule always_any, simp only: always_simps, goal_cases)
  case (1 outer)
  show ?case by (simp add: apply_torques_shown check_engagement_checked)
qed

lemma spin_control_checked:
  "always (\<lambda>d'. dn_engaged d' \<longrightarrow> ps_enabled (dn_stage d') \<and> \<not> Tripped (dn_isr d')) (spin_control env i d)"
  unfolding spin_control_def by (intro always_any SpinEngagement_checked)

lemma hand_setpoint_handed: "box_ok d \<Longrightarrow> handed (hand_setpoint d) = (dn_setpoint d)\<lparr>os_active := dn_engaged d\<rparr>"
  "dn_engaged (hand_setpoint d) = dn_engaged d" "dn_bring (hand_setpoint d) = dn_bring d"
  by (simp_all add: hand_setpoint_def handed_def SetSetpoint_def MailboxRead_Write mailbox_ok_def)

text \<open>C8. After every spin the outer loop is handed a setpoint that is active exactly when the drive is engaged, so a drive that is not
  engaged commands no current; and an engaged drive has its outputs released and no latched trip.\<close>

theorem spin_hands_over:
  assumes "drive_ok d" "dn_Spin env i d = Some d'"
  shows "os_active (handed d') = dn_engaged d' \<and> (dn_engaged d' \<longrightarrow> ps_enabled (dn_stage d') \<and> \<not> Tripped (dn_isr d'))"
proof -
  obtain d1 d2 where r: "dispatch_all env (si_events i) (d\<lparr>dn_now_us := si_now i\<rparr>) = Some d1" "spin_control env i d1 = Some d2"
    "spin_rest env i d2 = Some d'"
    using assms(2) unfolding dn_Spin_parts by (auto simp: bind_eq_Some_conv)
  have "moves d (d\<lparr>dn_now_us := si_now i\<rparr>)" by (rule moves_power) (simp add: power_def)
  then have "moves d d2" using alwaysD [OF dispatch_all_moves r(1)] alwaysD [OF spin_control_moves r(2)] moves_trans by blast
  then have box: "box_ok d2" using assms(1) by (simp add: moves_def drive_ok_def)
  have c: "dn_engaged d2 \<longrightarrow> ps_enabled (dn_stage d2) \<and> \<not> Tripped (dn_isr d2)" using alwaysD [OF spin_control_checked r(2)] .
  have s: "settled (hand_setpoint d2) d'" using alwaysD [OF spin_rest_settled r(3)] .
  then show ?thesis using c hand_setpoint_handed(1) [OF box] hand_setpoint_handed(2,3) [of d2] by (simp add: settled_def)
qed

text \<open>C7. The checks of an engaged drive, decided exactly: it stays engaged if and only if its readiness is fresh or the cart holds the
  engagement, the power stage is enabled and nothing has tripped. Otherwise its outputs are off and its setpoint is dropped, and it has to
  be armed again exactly when the readiness was not the reason.\<close>

theorem engagement_decided:
  assumes "dn_engaged d" "SpinEngagement now_us d = Some d'" "Status (dn_outer d) = Some outer"
    "CartUpdate now_us (ot_speed outer) True (dn_cart d) = (out, cart)"
  defines "ready \<equiv> now_us - dn_last_readiness_us d \<le> dn_command_timeout_us d \<or> co_holds_engagement out"
    and "safe \<equiv> GetPowerStageState (dn_stage d) = kEnabled \<and> \<not> Tripped (dn_isr d)"
  shows "dn_engaged d' = (ready \<and> safe)
     \<and> (\<not> dn_engaged d' \<longrightarrow> \<not> ps_enabled (dn_stage d') \<and> \<not> dn_setpoint_active d' \<and> dn_rearm_required d' = (dn_rearm_required d \<or> ready))"
proof -
  define e where "e = d\<lparr>dn_cart := cart, dn_cart_mode := co_mode out\<rparr>"
  define c where "c = check_engagement now_us (co_holds_engagement out) e"
  have e: "dn_engaged e" "dn_last_readiness_us e = dn_last_readiness_us d" "dn_command_timeout_us e = dn_command_timeout_us d"
    "dn_bring e = dn_bring d" "dn_rearm_required e = dn_rearm_required d" using assms(1) by (simp_all add: e_def)
  have d': "d' = (apply_torques now_us out c)\<lparr>dn_outer := SetBatteryLimits (Battery now_us (dn_cart (apply_torques now_us out c)))
      (dn_outer (apply_torques now_us out c))\<rparr>"
    using assms(1-4) unfolding SpinEngagement_def by (simp add: c_def e_def Let_def)
  have eng: "dn_engaged c = (ready \<and> safe)" using check_engagement_engaged(1) [of now_us _ e] e unfolding c_def ready_def safe_def by auto
  have off: "\<not> ps_enabled (dn_stage c) \<and> \<not> dn_setpoint_active c \<and> dn_rearm_required c = (dn_rearm_required d \<or> ready)" if "\<not> dn_engaged c"
  proof -
    have dis: "\<not> ps_enabled (dn_stage (Disengage r x)) \<and> \<not> dn_setpoint_active (Disengage r x) \<and> dn_rearm_required (Disengage r x) = dn_rearm_required x"
      if "dn_engaged x" for r and x :: "'a DriveNode"
      using that by (simp add: Disengage_def Let_def dn_Disable_def drop_setpoints_def ClearSetpoint_def PowerStageDisable_def dn_Log_def node_calls_def)
    show ?thesis using that e dis [of e] dis [of "e\<lparr>dn_rearm_required := True\<rparr>"] unfolding c_def check_engagement_def ready_def by auto
  qed
  have "\<not> dn_engaged c \<Longrightarrow> apply_torques now_us out c = c" by (simp add: apply_torques_def)
  then show ?thesis using eng off by (simp add: d' apply_torques_shown)
qed

section \<open>The latch after a fault\<close>

definition guard :: "'s DriveNode \<Rightarrow> bool \<times> bool \<times> bool \<times> bool \<times> u16" where
  "guard d = (dn_rearm_required d, dn_engaged d, dn_engage_requested d, dn_ebike d = None, pt_readiness (dn_ports d))"

text \<open>A drive without an e-bike that waits to be armed, with the readiness on port \<open>p\<close>.\<close>

definition latched :: "u16 \<Rightarrow> 's DriveNode \<Rightarrow> bool" where
  "latched p d \<longleftrightarrow> guard d = (True, False, False, True, p)"

lemma latched_guard: "guard d' = guard d \<Longrightarrow> latched p d \<Longrightarrow> latched p d'"
  by (simp add: latched_def)

lemma latchedD: "latched p d \<Longrightarrow> dn_rearm_required d \<and> \<not> dn_engaged d \<and> \<not> dn_engage_requested d \<and> dn_ebike d = None \<and> pt_readiness (dn_ports d) = p"
  by (simp add: latched_def guard_def)

lemma guard_calls [simp]: "guard (node_calls cs d) = guard d" "guard (dn_Log s t d) = guard d"
  by (simp_all add: guard_def node_calls_def dn_Log_def)

lemma calls_guard [simp]:
  "dn_rearm_required (node_calls cs d) = dn_rearm_required d" "dn_engage_requested (node_calls cs d) = dn_engage_requested d"
  "dn_ebike (node_calls cs d) = dn_ebike d" "dn_ports (node_calls cs d) = dn_ports d"
  "dn_rearm_required (dn_Log s t d) = dn_rearm_required d" "dn_engage_requested (dn_Log s t d) = dn_engage_requested d"
  "dn_ebike (dn_Log s t d) = dn_ebike d" "dn_ports (dn_Log s t d) = dn_ports d"
  by (simp_all add: node_calls_def dn_Log_def)

lemma guard_setpoints [simp]:
  "guard (dn_SetCurrentSetpoint a b n d) = guard d" "guard (dn_SetSpeedSetpoint a n d) = guard d" "guard (dn_SetPositionSetpoint a n d) = guard d"
  "guard (ClearSetpoint d) = guard d" "guard (drop_setpoints d) = guard d"
  by (simp_all add: guard_def dn_SetCurrentSetpoint_def dn_SetSpeedSetpoint_def dn_SetPositionSetpoint_def ClearSetpoint_def drop_setpoints_def Let_def)

lemma guard_messages:
  "guard (OnCurrentSetpoint env p n d) = guard d" "guard (OnTorqueSetpoint env p n d) = guard d" "guard (OnSpeedSetpoint env p n d) = guard d"
  "guard (OnPositionSetpoint env p n d) = guard d" "guard (OnServoSetpoint env p n d) = guard d" "guard (dn_OnWheelCommand env p n d) = guard d"
  "guard (dn_OnPedalState env p n d) = guard d" "guard (dn_OnBatteryStatus env p n d) = guard d"
  by (simp_all add: OnCurrentSetpoint_def OnTorqueSetpoint_def OnSpeedSetpoint_def OnPositionSetpoint_def OnServoSetpoint_def split: option.split prod.split)
    (simp_all add: dn_OnWheelCommand_def dn_OnPedalState_def dn_OnBatteryStatus_def guard_def split: option.split prod.split)

lemma Disengage_latched: "latched p d \<Longrightarrow> latched p (Disengage r d)"
  by (rule latched_guard) (auto simp: Disengage_def Let_def dn_Disable_def guard_def drop_setpoints_def ClearSetpoint_def dest: latchedD)

text \<open>What does not arm the drive: a readiness message without an answer, or ENGAGED.\<close>

definition arms :: "DriveEnv \<Rightarrow> u16 \<Rightarrow> NodeEvent \<Rightarrow> bool" where
  "arms env p e \<longleftrightarrow> (\<exists>payload r. e = NeMessage p payload \<and> de_readiness env payload = Some r \<and> r \<noteq> RdEngaged)"

lemma OnReadiness_latched:
  assumes "latched p d" "\<not> arms env p (NeMessage p payload)"
  shows "latched p (OnReadiness env payload n d)"
proof -
  have "latched p (d\<lparr>dn_last_readiness_us := n\<rparr>)" by (rule latched_guard [OF _ assms(1)]) (simp add: guard_def)
  then show ?thesis using assms latchedD [OF assms(1)]
    by (cases "de_readiness env payload") (auto simp: OnReadiness_def Let_def arms_def)
qed

lemma OnMessage_latched:
  assumes "latched p d" "\<not> arms env p (NeMessage port payload)"
  shows "latched p (OnMessage env port payload n d)"
proof (rule OnMessage_rule [where P = "latched p"])
  assume "port = pt_readiness (dn_ports d)"
  then show "latched p (OnReadiness env payload n d)" using OnReadiness_latched [OF assms(1)] assms latchedD [OF assms(1)] by simp
qed (fact assms(1), (rule latched_guard [OF _ assms(1)], rule guard_messages)+)

lemma guard_save: "guard (snd (SaveToFlash d)) = guard d"
  by (simp add: SaveToFlash_def split_beta Let_def guard_def)

lemma guard_bring: "guard (d\<lparr>dn_bring := w\<rparr>) = guard d"
  by (simp add: guard_def)

lemma guard_factory: "guard (snd (dn_FactoryReset d)) = guard d"
proof -
  have p: "guard (e\<lparr>dn_settings_pending := True\<rparr>) = guard e" for e :: "'a DriveNode" by (simp add: guard_def)
  show ?thesis unfolding dn_FactoryReset_def Let_def split_beta by (simp add: guard_save p guard_bring)
qed

lemma guard_homing: "always (\<lambda>(r, d'). guard d' = guard d) (dn_StartHoming d)"
  unfolding dn_StartHoming_def by (simp add: always_any, intro impI always_any) (simp add: guard_def)

lemma OnCommand_latched:
  assumes "latched p d"
  shows "always (\<lambda>(r, d'). latched p d') (OnCommand c x d)"
proof -
  let ?P = "always (\<lambda>(r, d'). latched p d')"
  have g: "guard d' = guard d \<Longrightarrow> latched p d'" for d' by (rule latched_guard [OF _ assms])
  have abort: "latched p (abort_startup f (d\<lparr>dn_emergency_stop := b\<rparr>))" "latched p (abort_startup f d)" for f b
    by (rule g; simp add: abort_startup_def guard_def)+
  have restart: "?P (Some (y, (Disengage r (abort_startup f d))\<lparr>dn_restart_requested := True, dn_restart_at_us := k\<rparr>))" for y r f k
    using latched_guard [OF _ Disengage_latched [OF abort(2)], where d' = "(Disengage r (abort_startup f d))\<lparr>dn_restart_requested := True, dn_restart_at_us := k\<rparr>"]
    by (simp add: guard_def)
  have "?P (dn_StartHoming d)" using guard_homing [of d] g by (auto simp: always_def)
  then have others: "?P (Some (y, node_calls cs d))" "?P (Some (y, d))" "?P (Some (y, snd (SaveToFlash d)))" "?P (Some (dn_FactoryReset d))"
      "?P (Some (y, Disengage r (abort_startup f (d\<lparr>dn_emergency_stop := True\<rparr>))))" "?P (dn_StartHoming d)"
      "?P (Some (y, d\<lparr>dn_bring := snd (cm_OnCommand (dn_engaged d) (dn_emergency_stop d) c x (dn_bring d))\<rparr>))" for y cs r f
    using assms g [OF guard_calls(1)] g [OF guard_save] g [OF guard_factory] Disengage_latched [OF abort(1)] g [OF guard_bring] by (simp_all add: split_beta)
  show ?thesis unfolding OnCommand_def Let_def split_beta [of _ "cm_OnCommand _ _ _ _ _"] split_beta [of _ "SaveToFlash _"]
    by (rule if_intro [where P = ?P] restart others)+
qed

lemma OnNodeIdAllocated_latched:
  assumes "latched p d" "p \<noteq> kUnsetPortId"
  shows "latched p (OnNodeIdAllocated env n d)"
proof -
  have w: "guard (e\<lparr>dn_applied_writes := k\<rparr>) = guard e" for e :: "'a DriveNode" and k by (simp add: guard_def)
  have "guard (OnNodeIdAllocated env n d) = guard d"
    using latchedD [OF assms(1)] assms(2) unfolding OnNodeIdAllocated_def Let_def split_beta by (simp add: w guard_save guard_bring)
  then show ?thesis by (rule latched_guard [OF _ assms(1)])
qed

lemma dispatch_latched:
  assumes "latched p d" "p \<noteq> kUnsetPortId" "\<not> arms env p e"
  shows "always (latched p) (dispatch env e d)"
proof (cases e)
  case (NeMessage port payload)
  then show ?thesis using OnMessage_latched assms by simp
next
  case (NeCommand c x)
  then show ?thesis using OnCommand_latched [OF assms(1), of c x] by (auto simp: always_def)
next
  case (NeWrite i v)
  have "guard (dn_Write i v d) = guard d" by (simp add: dn_Write_def Let_def guard_def)
  then show ?thesis using NeWrite latched_guard [OF _ assms(1)] by simp
next
  case (NeAllocated n)
  then show ?thesis using OnNodeIdAllocated_latched [OF assms(1,2)] by simp
qed

lemma dispatch_all_latched:
  "latched p d \<Longrightarrow> p \<noteq> kUnsetPortId \<Longrightarrow> \<forall>e\<in>set es. \<not> arms env p e \<Longrightarrow> always (latched p) (dispatch_all env es d)"
proof (induction es arbitrary: d)
  case (Cons e es)
  have "always (latched p) (dispatch env e d)" using Cons.prems by (intro dispatch_latched) auto
  then show ?case using Cons by (auto intro: always_bind)
qed simp

lemma guard_watch: "guard (WatchBus bus d) = guard d"
  by (rule WatchBus_view) (simp_all add: guard_def)

lemma guard_parts: "guard (SpinStartup d) = guard d" "guard (PublishCommissioning n d) = guard d" "guard (hand_setpoint d) = guard d"
  "guard (spin_end env n d) = guard d"
  by (simp_all add: SpinStartup_def PublishCommissioning_def hand_setpoint_def spin_end_def UpdateStatus_def Let_def split_beta guard_def split: option.split)

lemma guard_load: "always (\<lambda>d'. guard d' = guard d) (dn_LoadParameters s d)"
  unfolding dn_LoadParameters_def by (intro always_any) (simp add: guard_def)

lemma guard_start: "always (\<lambda>(ok, d'). guard d' = guard d) (StartRuntime env s l d)"
  unfolding StartRuntime_def by (intro always_any) (simp add: guard_def split_beta Let_def node_calls_def)

lemma guard_apply: "always (\<lambda>(ok, d'). guard d' = guard d) (ApplySettings env d)"
proof (cases "GetPowerStageState (dn_stage d) = kEnabled")
  case True
  then show ?thesis by (simp add: ApplySettings_def guard_def)
next
  case False
  define e where "e = d\<lparr>dn_applied_writes := dn_write_count d, dn_checked_writes := dn_write_count d, dn_settings_pending := False,
    dn_applied_settings := dn_live d\<rparr>"
  have e: "guard e = guard d" by (simp add: e_def guard_def)
  have w: "guard (x\<lparr>dn_waiting_announced := b\<rparr>) = guard x" for x :: "'a DriveNode" and b by (simp add: guard_def)
  show ?thesis
    unfolding ApplySettings_def if_not_P [OF False] Let_def e_def [symmetric]
  proof (rule always_bind [OF guard_load], goal_cases)
    case (1 x)
    show ?case
    proof (rule always_bind [OF guard_start], goal_cases)
      case (1 q)
      obtain ok y where "q = (ok, y)" by fastforce
      then show ?case using 1 \<open>guard x = guard e\<close> e by (simp add: w)
    qed
  qed
qed

lemma spin_control_latched:
  assumes "latched p d"
  shows "always (latched p) (spin_control env i d)"
proof -
  define e where "e = PublishCommissioning (si_now i) (SpinStartup (WatchBus (si_bus i) d))"
  have w: "latched p (WatchBus (si_bus i) d)" by (rule latched_guard [OF guard_watch assms])
  have e: "latched p e" by (rule latched_guard [OF _ w]) (simp add: e_def guard_parts)
  have c: "spin_control env i d = SpinEngagement (si_now i) e"
    using latchedD [OF w] by (simp add: spin_control_def SpinLocalControl_def engage_on_request_def e_def)
  have t: "apply_torques n out x = x" "check_engagement n h x = x" if "\<not> dn_engaged x" for n out h and x :: "'a DriveNode"
    using that by (simp_all add: apply_torques_def check_engagement_def)
  have upd: "latched p (e\<lparr>dn_cart := cart, dn_cart_mode := m, dn_outer := o2\<rparr>)" for cart m o2
    by (rule latched_guard [OF _ e]) (simp add: guard_def)
  have off: "\<not> dn_engaged (e\<lparr>dn_cart := cart, dn_cart_mode := m\<rparr>)" for cart m using latchedD [OF e] by simp
  show ?thesis unfolding c SpinEngagement_def Let_def split_beta t(2) [OF off] t(1) [OF off] by (intro always_any) (simp only: always_simps upd)
qed

lemma spin_rest_latched:
  assumes "latched p d"
  shows "always (latched p) (spin_rest env i d)"
proof -
  define h where "h = hand_setpoint d"
  have h: "latched p h" by (rule latched_guard [OF _ assms]) (simp add: h_def guard_parts)
  have pend: "latched p (x\<lparr>dn_settings_pending := True\<rparr>)" if "latched p x" for x :: "'a DriveNode" by (rule latched_guard [OF _ that]) (simp add: guard_def)
  have app: "always (latched p) (map_option snd (ApplySettings env x))" if "latched p x" for x :: "'a DriveNode"
    using guard_apply [of x env] latched_guard [OF _ that] by (auto simp: always_def)
  have s: "always (latched p) (spin_settings env h)"
    using latchedD [OF h] h pend [OF h] app unfolding spin_settings_def Let_def by simp
  have pub: "always (\<lambda>d'. guard d' = guard d) (PublishTelemetry d)" "always (\<lambda>d'. guard d' = guard d) (PublishDriveStatus i d)"
    "always (\<lambda>d'. guard d' = guard d) (PublishHoming n d)" for n and d :: "'a DriveNode"
    unfolding PublishTelemetry_def PublishDriveStatus_def PublishHoming_def Let_def by (intro always_any, simp add: guard_def)+
  have nx: "guard (d\<lparr>dn_next_telemetry_us := n\<rparr>) = guard d" "guard (d\<lparr>dn_next_drive_status_us := n\<rparr>) = guard d" for n and d :: "'a DriveNode"
    by (simp_all add: guard_def)
  have lift: "latched p x \<Longrightarrow> always (\<lambda>y. guard y = guard z) m \<Longrightarrow> guard z = guard x \<Longrightarrow> always (latched p) (if due then m else Some z)"
    for x z :: "'a DriveNode" and m due using latched_guard [of _ x p] by (auto simp: always_def)
  have hom: "latched p x \<Longrightarrow> always (latched p) (PublishHoming n x)" for n and x :: "'a DriveNode"
    using pub(3) [of x n] latched_guard [of _ x p] by (auto simp: always_def)
  have publish: "always (latched p) (spin_publish i x)" if "latched p x" for x :: "'a DriveNode"
    unfolding spin_publish_def Let_def split_beta
    by (rule always_bind [OF lift [OF that pub(1) nx(1)]], rule always_bind [OF lift [OF _ pub(2) nx(2)]], assumption)
      (rule hom)
  show ?thesis unfolding spin_rest_def h_def [symmetric]
    by (rule always_bind [OF s], rule always_bind [OF publish], assumption) (simp only: always_simps, erule latched_guard [OF guard_parts(4)])
qed

lemma drive_react_latched:
  assumes "latched p d" "p \<noteq> kUnsetPortId" "\<And>i. e = DeSpin i \<Longrightarrow> \<forall>x\<in>set (si_events i). \<not> arms env p x"
  shows "always (latched p) (drive_react env e d)"
proof (cases e)
  case (DeSpin i)
  have "latched p (d\<lparr>dn_now_us := si_now i\<rparr>)" by (rule latched_guard [OF _ assms(1)]) (simp add: guard_def)
  from dispatch_all_latched [OF this assms(2) assms(3) [OF DeSpin]] show ?thesis
    unfolding DeSpin drive_react.simps dn_Spin_parts
    by (rule always_bind) (rule always_bind [OF spin_control_latched], assumption, rule spin_rest_latched)
next
  case (DeObserver hall)
  have "latched p (d\<lparr>dn_slow := s, dn_outer := o2, dn_bring := w\<rparr>)" for s o2 w by (rule latched_guard [OF _ assms(1)]) (simp add: guard_def)
  then show ?thesis unfolding DeObserver drive_react.simps ObserverHandler_def Let_def split_beta
    by (cases "RunOnce (GetPowerStageState (dn_stage d)) (dn_slow d) hall (dn_isr d)") simp_all
next
  case DeControl
  have "latched p (d\<lparr>dn_outer := o2, dn_bring := w\<rparr>)" for o2 w by (rule latched_guard [OF _ assms(1)]) (simp add: guard_def)
  then show ?thesis unfolding DeControl drive_react.simps ControlThreadHandler_def split_beta by (intro always_any) simp
next
  case (DeCycle raw)
  have "latched p (ControlCycleHandler raw d)" unfolding ControlCycleHandler_def split_beta Let_def
    by (rule latched_guard [OF guard_bring assms(1)])
  then show ?thesis using DeCycle by simp
next
  case (DeExternal x)
  then show ?thesis using latched_guard [OF guard_bring assms(1)] by simp
qed

text \<open>C6. A fault needs an acknowledgement, on a drive without local control: such a drive that a fault has disengaged, with no request to
  engage pending and its readiness port subscribed, stays disengaged, whatever messages, commands, writes, control cycles and trips come,
  until a readiness message other than ENGAGED arrives; ENGAGED alone, however often, does not engage it again. It does not hold of a drive
  with an e-bike, whose local control arms the drive again whenever the e-bike does not ask for it.\<close>

theorem fault_needs_acknowledgement:
  assumes "dn_rearm_required d" "\<not> dn_engaged d" "\<not> dn_engage_requested d" "dn_ebike d = None" "pt_readiness (dn_ports d) \<noteq> kUnsetPortId"
    "drive_run env es d = Some d'" "\<forall>i e. DeSpin i \<in> set es \<and> e \<in> set (si_events i) \<longrightarrow> \<not> arms env (pt_readiness (dn_ports d)) e"
  shows "dn_rearm_required d' \<and> \<not> dn_engaged d'"
proof -
  have "always (latched p) (drive_run env es d)" if "latched p d" "p \<noteq> kUnsetPortId" "\<forall>i e. DeSpin i \<in> set es \<and> e \<in> set (si_events i) \<longrightarrow> \<not> arms env p e"
    for p and d :: "'a DriveNode"
    using that
  proof (induction es arbitrary: d)
    case (Cons e es)
    have "always (latched p) (drive_react env e d)" by (rule drive_react_latched [OF Cons.prems(1,2)]) (use Cons.prems(3) in auto)
    moreover have "always (latched p) (drive_run env es x)" if "latched p x" for x :: "'a DriveNode" using Cons.IH [OF that Cons.prems(2)] Cons.prems(3) by auto
    ultimately show ?case by (simp add: always_bind)
  qed simp
  moreover have "latched (pt_readiness (dn_ports d)) d" using assms(1-4) by (simp add: latched_def guard_def)
  ultimately have "latched (pt_readiness (dn_ports d)) d'" using assms(5-7) by (auto simp: always_def)
  then show ?thesis by (simp add: latchedD)
qed

end
