(* ===== verification/Drive_Requests.thy ===== *)
theory Drive_Requests
  imports Drive_Engagement
begin

text \<open>
  What a drive does for its commander: a spin without messages returns, a request is granted in the spin that receives it, and a concrete
  drive on which the properties of the drive node are seen.
\<close>

section \<open>Spins that return\<close>

definition returns :: "('a \<Rightarrow> bool) \<Rightarrow> 'a option \<Rightarrow> bool" where
  "returns P m \<longleftrightarrow> (\<exists>x. m = Some x \<and> P x)"

lemma returns_Some [simp]: "returns P (Some x) = P x"
  by (simp add: returns_def)

lemma returns_bind: "returns Q m \<Longrightarrow> (\<And>x. Q x \<Longrightarrow> returns P (f x)) \<Longrightarrow> returns P (m \<bind> f)"
  by (auto simp: returns_def)

text \<open>Nothing pending: no local control, no run of the startup aid and none that just ended, no settings to apply or to check, the status of
  the outer loop not being written, and an estimated angle that the publications can convert. The periods of the publications are free.\<close>

definition angle_readable :: "f32 \<Rightarrow> bool" where
  "angle_readable theta \<longleftrightarrow> Calculate_angle theta \<noteq> None \<and> WrapAnglePositive theta \<noteq> None"

lemma angle_readable: "isfinite theta \<Longrightarrow> \<bar>val theta\<bar> \<le> 2 ^ 24 \<Longrightarrow> angle_readable theta"
proof -
  assume a: "isfinite theta" "\<bar>val theta\<bar> \<le> 2 ^ 24"
  then have "\<bar>val theta\<bar> \<le> 2 ^ 30" by simp
  from counts_of_angle_near [OF a(1) this] obtain counts carry where "counts_of_angle theta = Some (counts, carry)" by metis
  moreover obtain sc where "Calculate (wrap32 counts) = Some sc" using Calculate_circle by blast
  ultimately show ?thesis using WrapAnglePositive_in_range [OF a] by (auto simp: angle_readable_def Calculate_angle_def)
qed

definition calm_view :: "'s DriveNode \<Rightarrow> bool list \<times> u32 list \<times> f32" where
  "calm_view d = ([dn_ebike d = None, IsActive (dn_fsm d), dn_startup_active d, dn_settings_pending d, Status (dn_outer d) = None],
     [dn_write_count d, dn_applied_writes d, dn_checked_writes d], mo_theta (isr_mech_obs (dn_isr d)))"

definition nothing_pending :: "'s DriveNode \<Rightarrow> bool" where
  "nothing_pending d \<longleftrightarrow> (\<exists>n theta. calm_view d = ([True, False, False, False, False], [n, n, n], theta) \<and> angle_readable theta)"

lemma nothing_pendingD:
  assumes "nothing_pending d"
  shows "dn_ebike d = None" "\<not> IsActive (dn_fsm d)" "\<not> dn_startup_active d" "\<not> dn_settings_pending d" "Status (dn_outer d) \<noteq> None"
    "dn_write_count d = dn_applied_writes d" "dn_write_count d = dn_checked_writes d" "angle_readable (mo_theta (isr_mech_obs (dn_isr d)))"
  using assms by (auto simp: nothing_pending_def calm_view_def)

lemma calm_same: "calm_view d' = calm_view d \<Longrightarrow> nothing_pending d \<Longrightarrow> nothing_pending d'"
  by (simp add: nothing_pending_def)

lemma calm_calls [simp]: "calm_view (node_calls cs d) = calm_view d" "calm_view (dn_Log s t d) = calm_view d"
  by (simp_all add: calm_view_def node_calls_def dn_Log_def)

lemma Status_frames [simp]: "Status (SetSetpoint s o1) = Status o1" "Status (SetBatteryLimits b o1) = Status o1"
  by (simp_all add: Status_def SetSetpoint_def SetBatteryLimits_def)

lemma calm_setpoints [simp]: "calm_view (dn_SetCurrentSetpoint a b n d) = calm_view d" "calm_view (ClearSetpoint d) = calm_view d"
  "calm_view (drop_setpoints d) = calm_view d" "calm_view (hand_setpoint d) = calm_view d"
  by (simp_all add: calm_view_def dn_SetCurrentSetpoint_def ClearSetpoint_def drop_setpoints_def hand_setpoint_def Let_def)

lemma calm_Disengage: "calm_view (Disengage r d) = calm_view d"
proof -
  define e where "e = drop_setpoints d"
  define f where "f = (if dn_engaged e \<or> \<not> IsActive (dn_fsm e) then dn_Disable e else e)"
  have "calm_view f = calm_view d" by (simp add: f_def dn_Disable_def calm_view_def) (simp add: e_def calm_view_def drop_setpoints_def ClearSetpoint_def)
  moreover have "calm_view (f\<lparr>dn_engaged := False\<rparr>) = calm_view f" by (simp add: calm_view_def)
  ultimately show ?thesis unfolding Disengage_def Let_def e_def [symmetric] f_def [symmetric] by simp
qed

lemma calm_release: "calm_view (release_outputs d) = calm_view d"
proof -
  define e where "e = dn_ClearFaults (drop_setpoints d)"
  have e: "calm_view e = calm_view d"
    by (simp add: e_def calm_view_def dn_ClearFaults_def ClearTrips_def) (simp add: drop_setpoints_def ClearSetpoint_def)
  have "calm_view ((e\<lparr>dn_bring := on_stage p (dn_bring e)\<rparr>)\<lparr>dn_rearm_required := b\<rparr>) = calm_view e"
    "calm_view ((e\<lparr>dn_bring := on_stage p (dn_bring e)\<rparr>)\<lparr>dn_engaged := b\<rparr>) = calm_view e" for p b by (simp_all add: calm_view_def)
  then show ?thesis unfolding release_outputs_def Let_def e_def [symmetric] split_beta using e by simp
qed

lemma calm_engage: "nothing_pending d \<Longrightarrow> returns nothing_pending (engage_on_request env d)"
proof -
  assume p: "nothing_pending d"
  have e: "nothing_pending (d\<lparr>dn_engage_requested := False\<rparr>)" by (rule calm_same [OF _ p]) (simp add: calm_view_def)
  note n = nothing_pendingD [OF e]
  have "Engage env (d\<lparr>dn_engage_requested := False\<rparr>) = (if dn_engaged d \<or> dn_emergency_stop d then Some (d\<lparr>dn_engage_requested := False\<rparr>)
      else Some (release_outputs (d\<lparr>dn_engage_requested := False\<rparr>)))"
    using n by (simp add: Engage_def)
  then show ?thesis using p e calm_same [OF calm_release e] by (simp add: engage_on_request_def)
qed

lemma calm_engagement: "nothing_pending d \<Longrightarrow> returns nothing_pending (SpinEngagement n d)"
proof -
  assume p: "nothing_pending d"
  then obtain outer where o: "Status (dn_outer d) = Some outer" using nothing_pendingD(5) by blast
  have c: "calm_view (check_engagement m h e) = calm_view e" for m h and e :: "'a DriveNode"
  proof -
    have "calm_view (e\<lparr>dn_rearm_required := True\<rparr>) = calm_view e" by (simp add: calm_view_def)
    then show ?thesis by (simp add: check_engagement_def calm_Disengage)
  qed
  have t: "calm_view (apply_torques m out e) = calm_view e" for m out and e :: "'a DriveNode"
  proof -
    define x where "x = (if dn_engaged e \<and> co_mode out \<noteq> kOff then dn_SetCurrentSetpoint 0 (torque_current (co_torque out) e) m e else e)"
    define y where "y = (if dn_engaged x \<and> dn_ebike x \<noteq> None \<and> dn_ebike_engage x
      then dn_SetCurrentSetpoint 0 (torque_current (dn_ebike_torque x) x) m x else x)"
    have "calm_view x = calm_view e" "calm_view y = calm_view x" by (simp_all add: x_def y_def)
    then show ?thesis unfolding apply_torques_def Let_def x_def [symmetric] unfolding y_def [symmetric] by simp
  qed
  define out where "out = fst (CartUpdate n (ot_speed outer) (dn_engaged d) (dn_cart d))"
  define e where "e = apply_torques n out (check_engagement n (co_holds_engagement out)
    (d\<lparr>dn_cart := snd (CartUpdate n (ot_speed outer) (dn_engaged d) (dn_cart d)), dn_cart_mode := co_mode out\<rparr>))"
  have u: "calm_view (d\<lparr>dn_cart := ca, dn_cart_mode := m\<rparr>) = calm_view d" for ca m by (simp add: calm_view_def)
  have "calm_view e = calm_view d" by (simp add: e_def c t u)
  moreover have "calm_view (e\<lparr>dn_outer := SetBatteryLimits b (dn_outer e)\<rparr>) = calm_view e" for b by (simp add: calm_view_def)
  ultimately have "nothing_pending (e\<lparr>dn_outer := SetBatteryLimits b (dn_outer e)\<rparr>)" for b by (intro calm_same [OF _ p]) simp
  then show ?thesis unfolding SpinEngagement_def o Let_def split_beta by (simp add: e_def out_def)
qed

lemma calm_startup: "nothing_pending d \<Longrightarrow> SpinStartup d = d"
  using nothing_pendingD(2,3) [of d] by (simp add: SpinStartup_def)

lemma calm_commissioning: "calm_view (PublishCommissioning n d) = calm_view d"
proof -
  have "calm_view (d\<lparr>dn_commissioning := c\<rparr>) = calm_view d" for c by (simp add: calm_view_def)
  then show ?thesis by (simp add: PublishCommissioning_def Let_def split_beta split: option.split)
qed

lemma calm_watch: "calm_view (WatchBus bus d) = calm_view d"
  by (rule WatchBus_view) (simp_all add: calm_view_def dn_Log_def node_calls_def)

lemma calm_control: "nothing_pending d \<Longrightarrow> returns nothing_pending (spin_control env i d)"
proof -
  assume "nothing_pending d"
  then have w: "nothing_pending (WatchBus (si_bus i) d)" by (rule calm_same [OF calm_watch])
  then have "SpinLocalControl env i (WatchBus (si_bus i) d) = Some (WatchBus (si_bus i) d)"
    using nothing_pendingD(1) [OF w] by (simp add: SpinLocalControl_def)
  then show ?thesis unfolding spin_control_def
    by (simp, intro returns_bind [OF calm_engage [OF w]]) (simp add: calm_startup calm_engagement calm_same [OF calm_commissioning])
qed

lemma calm_publications:
  assumes "nothing_pending d"
  shows "returns nothing_pending (PublishTelemetry d)" "returns nothing_pending (PublishDriveStatus i d)" "returns nothing_pending (PublishHoming n d)"
proof -
  have a: "angle_readable (mo_theta (isr_mech_obs (dn_isr d)))" by (rule nothing_pendingD(8) [OF assms])
  obtain sc where sc: "MeasuredCurrent (dn_isr d) = Some sc" using a by (auto simp: MeasuredCurrent_def angle_readable_def)
  obtain theta where theta: "WrapAnglePositive (mo_theta (isr_mech_obs (dn_isr d))) = Some theta" using a by (auto simp: angle_readable_def)
  obtain outer where o: "Status (dn_outer d) = Some outer" using nothing_pendingD(5) [OF assms] by blast
  have same: "nothing_pending (node_calls cs d)" for cs by (rule calm_same [OF _ assms]) simp
  have h: "calm_view (d\<lparr>dn_next_homing_us := a, dn_last_homing := b, dn_homing_published := True\<rparr>) = calm_view d" for a b
    by (simp add: calm_view_def)
  show "returns nothing_pending (PublishTelemetry d)" using sc theta same by (simp add: PublishTelemetry_def Let_def)
  show "returns nothing_pending (PublishDriveStatus i d)" using sc o same by (simp add: PublishDriveStatus_def)
  show "returns nothing_pending (PublishHoming n d)" using o assms h by (auto simp: PublishHoming_def Let_def intro!: calm_same [OF _ assms])
qed

lemma calm_rest: "nothing_pending d \<Longrightarrow> returns nothing_pending (spin_rest env i d)"
proof -
  assume "nothing_pending d"
  then have h: "nothing_pending (hand_setpoint d)" by (rule calm_same [OF calm_setpoints(4)])
  then have s: "spin_settings env (hand_setpoint d) = Some (hand_setpoint d)"
    using nothing_pendingD [OF h] by (simp add: spin_settings_def Let_def)
  have pub: "returns nothing_pending (spin_publish i e)" if e: "nothing_pending e" for e :: "'a DriveNode"
  proof -
    have due: "nothing_pending (x\<lparr>dn_next_telemetry_us := t\<rparr>)" "nothing_pending (x\<lparr>dn_next_drive_status_us := t\<rparr>)"
      if "nothing_pending x" for x :: "'a DriveNode" and t
      by (rule calm_same [OF _ that], simp add: calm_view_def)+
    show ?thesis unfolding spin_publish_def Let_def split_beta
      by (intro returns_bind [of nothing_pending]; simp add: calm_publications due e split: if_splits)
  qed
  have last: "calm_view (spin_end env n e) = calm_view e" for n and e :: "'a DriveNode"
  proof -
    have "calm_view (x\<lparr>dn_settings_waiting := b\<rparr>) = calm_view x" "calm_view (x\<lparr>dn_restart_requested := b\<rparr>) = calm_view x" for b and x :: "'a DriveNode"
      by (simp_all add: calm_view_def)
    then show ?thesis unfolding spin_end_def Let_def UpdateStatus_def by simp
  qed
  show ?thesis unfolding spin_rest_def s by (simp, intro returns_bind [OF pub [OF h]]) (simp add: calm_same [OF last])
qed

lemma calm_spin:
  assumes "nothing_pending d"
  shows "\<exists>d'. spin_control env i d \<bind> spin_rest env i = Some d' \<and> nothing_pending d'"
  using returns_bind [OF calm_control [OF assms, of env i] calm_rest] by (simp add: returns_def)

text \<open>A drive with nothing pending answers: a spin without received messages returns, whatever the setpoints, the engagement, the latches and
  the bus are, and again nothing is pending after it.\<close>

theorem idle_spin_returns:
  assumes "nothing_pending d" "si_events i = []"
  shows "\<exists>d'. dn_Spin env i d = Some d' \<and> nothing_pending d'"
proof -
  have "nothing_pending (d\<lparr>dn_now_us := si_now i\<rparr>)" by (rule calm_same [OF _ assms(1)]) (simp add: calm_view_def)
  from calm_spin [OF this] show ?thesis using assms(2) by (simp add: dn_Spin_parts)
qed

text \<open>What the engagement reads besides: the times and the stage.\<close>

definition fresh_view :: "'s DriveNode \<Rightarrow> bool \<times> bool \<times> ('s \<times> PowerStage) Bringup \<times> u64 list \<times> bool" where
  "fresh_view d = (dn_engaged d, dn_emergency_stop d, dn_bring d, [dn_last_readiness_us d, dn_command_timeout_us d], dn_engage_requested d)"

lemma fresh_calls [simp]: "fresh_view (node_calls cs d) = fresh_view d" "fresh_view (dn_Log s t d) = fresh_view d"
  by (simp_all add: fresh_view_def node_calls_def dn_Log_def)

lemma fresh_watch: "fresh_view (WatchBus bus d) = fresh_view d"
  by (rule WatchBus_view) (simp_all add: fresh_view_def dn_Log_def node_calls_def)

lemma fresh_commissioning: "fresh_view (PublishCommissioning n d) = fresh_view d"
proof -
  have "fresh_view (d\<lparr>dn_commissioning := c\<rparr>) = fresh_view d" for c by (simp add: fresh_view_def)
  then show ?thesis by (simp add: PublishCommissioning_def Let_def split_beta split: option.split)
qed

lemma Enable_grants: "ps_external_enable p \<Longrightarrow> \<not> ps_fault p \<Longrightarrow> \<not> ps_enable_lock p \<Longrightarrow> fst (Enable p) \<and> ps_enabled (snd (Enable p))"
  by (simp add: power_stage_defs)

lemma release_grants:
  assumes "ps_external_enable (dn_stage d)" "\<not> ps_enable_lock (dn_stage d)"
  shows "dn_engaged (release_outputs d)" "ps_enabled (dn_stage (release_outputs d))" "\<not> Tripped (dn_isr (release_outputs d))"
    "dn_last_readiness_us (release_outputs d) = dn_last_readiness_us d"
proof -
  define e where "e = dn_ClearFaults (drop_setpoints d)"
  have e: "dn_stage e = PowerStageClearFault (dn_stage d)" "\<not> Tripped (dn_isr e)" "dn_last_readiness_us e = dn_last_readiness_us d"
    by (simp_all add: e_def dn_ClearFaults_def Tripped_def ClearTrips_def) (simp add: drop_setpoints_def ClearSetpoint_def)
  have g: "fst (Enable (dn_stage e)) \<and> ps_enabled (snd (Enable (dn_stage e)))"
    using assms by (intro Enable_grants) (simp_all add: e PowerStageClearFault_def)
  have r: "release_outputs d = dn_Log SvInfo (text_of ''engaged'') ((e\<lparr>dn_bring := on_stage (\<lambda>_. snd (Enable (dn_stage e))) (dn_bring e)\<rparr>)\<lparr>dn_engaged := True\<rparr>)"
    unfolding release_outputs_def Let_def e_def [symmetric] split_beta using g by simp
  show "dn_engaged (release_outputs d)" "ps_enabled (dn_stage (release_outputs d))" "\<not> Tripped (dn_isr (release_outputs d))"
    "dn_last_readiness_us (release_outputs d) = dn_last_readiness_us d"
    unfolding r using e g by (simp_all add: dn_Log_def node_calls_def)
qed

text \<open>The messages on the other ports leave all of this: what is pending, the engagement and its latches.\<close>

definition message_view :: "'s DriveNode \<Rightarrow> (bool list \<times> u32 list \<times> f32) \<times> (bool \<times> bool \<times> ('s \<times> PowerStage) Bringup \<times> u64 list \<times> bool)
    \<times> (bool \<times> bool \<times> bool \<times> bool \<times> u16) \<times> u64" where
  "message_view d = (calm_view d, fresh_view d, guard d, dn_now_us d)"

definition other_message :: "u16 \<Rightarrow> NodeEvent \<Rightarrow> bool" where
  "other_message readiness e \<longleftrightarrow> (case e of NeMessage port payload \<Rightarrow> port \<noteq> readiness | _ \<Rightarrow> False)"

lemma view_setpoints:
  "message_view (dn_SetCurrentSetpoint a b n d) = message_view d" "message_view (dn_SetSpeedSetpoint a n d) = message_view d"
  "message_view (dn_SetPositionSetpoint a n d) = message_view d" "message_view (d\<lparr>dn_cart := c\<rparr>) = message_view d"
  by (simp_all add: message_view_def calm_view_def fresh_view_def guard_def dn_SetCurrentSetpoint_def dn_SetSpeedSetpoint_def
      dn_SetPositionSetpoint_def Let_def)

lemma OnMessage_other:
  assumes "port \<noteq> pt_readiness (dn_ports d)"
  shows "message_view (OnMessage env port payload n d) = message_view d"
proof (rule OnMessage_rule [where P = "\<lambda>x. message_view x = message_view d"])
  show "message_view (OnCurrentSetpoint env payload n d) = message_view d" by (simp add: OnCurrentSetpoint_def view_setpoints split: option.split prod.split)
  show "message_view (OnTorqueSetpoint env payload n d) = message_view d" by (simp add: OnTorqueSetpoint_def view_setpoints split: option.split)
  show "message_view (OnSpeedSetpoint env payload n d) = message_view d" by (simp add: OnSpeedSetpoint_def view_setpoints split: option.split)
  show "message_view (OnPositionSetpoint env payload n d) = message_view d" by (simp add: OnPositionSetpoint_def view_setpoints split: option.split)
  show "message_view (OnServoSetpoint env payload n d) = message_view d" by (simp add: OnServoSetpoint_def view_setpoints split: option.split prod.split)
  show "message_view (dn_OnWheelCommand env payload n d) = message_view d" by (simp add: dn_OnWheelCommand_def view_setpoints split: option.split)
  show "message_view (dn_OnPedalState env payload n d) = message_view d" by (simp add: dn_OnPedalState_def view_setpoints split: option.split)
  show "message_view (dn_OnBatteryStatus env payload n d) = message_view d" by (simp add: dn_OnBatteryStatus_def view_setpoints split: option.split prod.split)
qed (use assms in auto)

lemma view_port: "message_view d' = message_view d \<Longrightarrow> pt_readiness (dn_ports d') = pt_readiness (dn_ports d)"
  by (simp add: message_view_def guard_def)

lemma dispatch_others:
  "\<forall>e \<in> set es. other_message (pt_readiness (dn_ports d)) e \<Longrightarrow> \<exists>d'. dispatch_all env es d = Some d' \<and> message_view d' = message_view d"
proof (induction es arbitrary: d)
  case Nil
  then show ?case by simp
next
  case (Cons e es)
  obtain port payload where e: "e = NeMessage port payload" "port \<noteq> pt_readiness (dn_ports d)"
    using Cons.prems by (auto simp: other_message_def split: NodeEvent.splits)
  define d1 where "d1 = OnMessage env port payload (dn_now_us d) d"
  have v: "message_view d1 = message_view d" unfolding d1_def by (rule OnMessage_other [OF e(2)])
  obtain d' where "dispatch_all env es d1 = Some d'" "message_view d' = message_view d1"
    using Cons.IH [of d1] Cons.prems view_port [OF v] by auto
  then show ?case using v e by (simp add: d1_def)
qed

lemma dispatch_append: "dispatch_all env (es @ fs) d = dispatch_all env es d \<bind> dispatch_all env fs"
  by (induction es arbitrary: d) (auto simp: bind_assoc intro!: arg_cong [where f = "Option.bind _"])

lemma dispatch_engaged:
  assumes "nothing_pending d" "\<not> dn_engaged d" "\<not> dn_rearm_required d" "de_readiness env payload = Some RdEngaged"
    "\<forall>e \<in> set (before @ after). other_message (pt_readiness (dn_ports d)) e"
  shows "\<exists>d'. dispatch_all env (before @ NeMessage (pt_readiness (dn_ports d)) payload # after) d = Some d' \<and> nothing_pending d'
    \<and> \<not> dn_engaged d' \<and> dn_emergency_stop d' = dn_emergency_stop d \<and> dn_bring d' = dn_bring d \<and> dn_last_readiness_us d' = dn_now_us d
    \<and> dn_engage_requested d'"
proof -
  obtain d1 where d1: "dispatch_all env before d = Some d1" "message_view d1 = message_view d" using dispatch_others [of before d env] assms(5) by auto
  define d2 where "d2 = d1\<lparr>dn_last_readiness_us := dn_now_us d1, dn_engage_requested := True\<rparr>"
  have n1: "nothing_pending d1" using d1(2) assms(1) calm_same by (auto simp: message_view_def)
  have p1: "pt_readiness (dn_ports d1) = pt_readiness (dn_ports d)" by (rule view_port [OF d1(2)])
  have "\<not> dn_engaged d1" "\<not> dn_rearm_required d1" "dn_ebike d1 = None"
    using d1(2) assms(2,3) nothing_pendingD(1) [OF n1] by (simp_all add: message_view_def fresh_view_def guard_def)
  then have on: "OnMessage env (pt_readiness (dn_ports d1)) payload (dn_now_us d1) d1 = d2"
    using assms(4) by (simp add: OnMessage_def OnReadiness_def d2_def)
  obtain d3 where d3: "dispatch_all env after d2 = Some d3" "message_view d3 = message_view d2"
    using dispatch_others [of after d2 env] assms(5) p1 by (auto simp: d2_def)
  have "nothing_pending d2" by (rule calm_same [OF _ n1]) (simp add: d2_def calm_view_def)
  then have "nothing_pending d3" using d3(2) calm_same by (auto simp: message_view_def)
  moreover have "dispatch_all env (before @ NeMessage (pt_readiness (dn_ports d)) payload # after) d = Some d3"
    using d1(1) on d3(1) p1 by (simp add: dispatch_append)
  ultimately show ?thesis using d1(2) d3(2) assms(2) by (auto simp: message_view_def fresh_view_def d2_def)
qed

lemma grant_readiness:
  assumes "nothing_pending d" "\<not> dn_engaged d" "\<not> dn_emergency_stop d" "\<not> dn_rearm_required d"
    "ps_external_enable (dn_stage d)" "\<not> ps_enable_lock (dn_stage d)"
    "si_events i = before @ NeMessage (pt_readiness (dn_ports d)) payload # after" "de_readiness env payload = Some RdEngaged"
    "\<forall>e \<in> set (before @ after). other_message (pt_readiness (dn_ports d)) e"
  shows "\<exists>d'. dn_Spin env i d = Some d' \<and> dn_engaged d' \<and> ps_enabled (dn_stage d')"
proof -
  have n0: "nothing_pending (d\<lparr>dn_now_us := si_now i\<rparr>)" by (rule calm_same [OF _ assms(1)]) (simp add: calm_view_def)
  obtain d1 where dis: "dispatch_all env (si_events i) (d\<lparr>dn_now_us := si_now i\<rparr>) = Some d1" and n1: "nothing_pending d1"
    and f1: "\<not> dn_engaged d1" "\<not> dn_emergency_stop d1" "dn_bring d1 = dn_bring d" "dn_last_readiness_us d1 = si_now i" "dn_engage_requested d1"
    using dispatch_engaged [OF n0, of env payload before after] assms by auto
  define w where "w = WatchBus (si_bus i) d1"
  define r where "r = release_outputs (w\<lparr>dn_engage_requested := False\<rparr>)"
  define p where "p = PublishCommissioning (si_now i) r"
  have w: "nothing_pending w" unfolding w_def by (rule calm_same [OF calm_watch n1])
  have fw: "\<not> dn_engaged w" "\<not> dn_emergency_stop w" "dn_bring w = dn_bring d" "dn_last_readiness_us w = si_now i" "dn_engage_requested w"
    using fresh_watch [of "si_bus i" d1] f1 by (simp_all add: fresh_view_def w_def)
  have w': "nothing_pending (w\<lparr>dn_engage_requested := False\<rparr>)" by (rule calm_same [OF _ w]) (simp add: calm_view_def)
  have r: "nothing_pending r" unfolding r_def by (rule calm_same [OF calm_release w'])
  have "Engage env (w\<lparr>dn_engage_requested := False\<rparr>) = Some r" using nothing_pendingD [OF w'] fw by (simp add: Engage_def r_def)
  then have c: "spin_control env i d1 = SpinEngagement (si_now i) p"
    using nothing_pendingD(1) [OF w] fw(5) calm_startup [OF r] by (simp add: spin_control_def w_def [symmetric] SpinLocalControl_def engage_on_request_def p_def)
  have gr: "dn_engaged p" "ps_enabled (dn_stage p)" "\<not> Tripped (dn_isr p)" "dn_last_readiness_us p = si_now i"
    using release_grants [of "w\<lparr>dn_engage_requested := False\<rparr>"] assms(5,6) fw fresh_commissioning [of "si_now i" r]
    by (simp_all add: fresh_view_def p_def r_def)
  have "nothing_pending p" unfolding p_def by (rule calm_same [OF calm_commissioning r])
  then obtain outer where o: "Status (dn_outer p) = Some outer" using nothing_pendingD(5) by blast
  have "dn_engaged (check_engagement (si_now i) h (p\<lparr>dn_cart := ca, dn_cart_mode := m\<rparr>))" for h ca m
    using gr by (simp add: check_engagement_engaged(1) GetPowerStageState_def)
  then have "always dn_engaged (SpinEngagement (si_now i) p)" unfolding SpinEngagement_def o Let_def split_beta by (simp add: apply_torques_shown)
  moreover obtain d' where d': "spin_control env i d1 \<bind> spin_rest env i = Some d'" using calm_spin [OF n1] by blast
  then obtain d2 where d2: "spin_control env i d1 = Some d2" "spin_rest env i d2 = Some d'" by (auto simp: bind_eq_Some_conv)
  ultimately have e: "dn_engaged d2" using c by (simp add: always_def)
  have s: "settled (hand_setpoint d2) d'" using alwaysD [OF spin_rest_settled d2(2)] .
  have "ps_enabled (dn_stage d2)" using alwaysD [OF spin_control_checked d2(1)] e by simp
  then have "dn_engaged d' \<and> ps_enabled (dn_stage d')" using s e hand_setpoint_handed(2,3) [of d2] by (simp add: settled_def)
  moreover have "dn_Spin env i d = Some d'" using dis d' by (simp add: dn_Spin_parts)
  ultimately show ?thesis by blast
qed

text \<open>C9. A request is granted: a readiness message ENGAGED engages a drive that neither a fault nor an emergency stop holds, in the same spin,
  when the external enable is present and no settings are being saved; its outputs are then released. Any messages on other ports may
  arrive in the spin before and after it; the readiness message is the only one on its port, and there is no command and no write. This is
  a drive without local control (an e-bike answers its rider instead), without a run of the startup aid (which refuses the request) or one
  that ended just before, without settings that wait to be applied or checked (they are applied first), whose outer loop is not writing its
  status, and whose estimated angle is finite and at most \<open>2^24\<close> rad in magnitude, so that the publications of the spin return. The rates of
  the publications are free.\<close>

theorem readiness_engages:
  assumes "dn_ebike d = None" "\<not> IsActive (dn_fsm d)" "\<not> dn_startup_active d" "\<not> dn_settings_pending d"
    "dn_applied_writes d = dn_write_count d" "dn_checked_writes d = dn_write_count d" "Status (dn_outer d) \<noteq> None"
    "isfinite (mo_theta (isr_mech_obs (dn_isr d)))" "\<bar>val (mo_theta (isr_mech_obs (dn_isr d)))\<bar> \<le> 2 ^ 24"
    "\<not> dn_engaged d" "\<not> dn_emergency_stop d" "\<not> dn_rearm_required d" "ps_external_enable (dn_stage d)" "\<not> ps_enable_lock (dn_stage d)"
    "si_events i = before @ NeMessage (pt_readiness (dn_ports d)) payload # after" "de_readiness env payload = Some RdEngaged"
    "\<forall>e \<in> set (before @ after). other_message (pt_readiness (dn_ports d)) e"
  shows "\<exists>d'. dn_Spin env i d = Some d' \<and> dn_engaged d' \<and> ps_enabled (dn_stage d')"
proof -
  have "nothing_pending d" using assms(1-7) angle_readable [OF assms(8,9)] by (simp add: nothing_pending_def calm_view_def)
  then show ?thesis using assms(10-) by (rule grant_readiness)
qed

section \<open>An example\<close>

definition example_gate :: "('s \<times> PowerStage) SettingsSaveGate" where
  "example_gate = \<lparr>gate_begin = Some (\<lambda>(s, p). let (granted, p) = save_gate_begin p in (granted, s, p)),
     gate_end = Some (\<lambda>(s, p). (s, save_gate_end p))\<rparr>"

definition example_store :: "(unit \<times> PowerStage) SettingsStore" where
  "example_store = SettingsStore_init default_profile \<lparr>ss_load_all = None, ss_write = None, ss_erase = None\<rparr> example_gate"

lemma example_gated: "gated example_store"
  by (simp add: gated_def example_store_def example_gate_def SettingsStore_init_def Settings_Store.Write_def Erase_def TryBegin_def End_def
      split_beta Let_def)

definition example_env :: DriveEnv where
  "example_env = \<lparr>de_timer_clock = 170000000, de_initialize = \<lambda>_ _. True, de_exp = \<lambda>x. f32_of 1, de_has_restart = True, de_has_applied = True,
     de_accepts = \<lambda>_. True, de_readiness = \<lambda>p. if p = [3] then Some RdEngaged else if p = [2] then Some RdStandby else None,
     de_current = \<lambda>_. None, de_torque = \<lambda>_. None, de_speed = \<lambda>_. None, de_position = \<lambda>_. None, de_servo = \<lambda>_. None, de_wheel = \<lambda>_. None,
     de_pedals = \<lambda>_. None, de_battery = \<lambda>_. None\<rparr>"

definition example_drive :: "unit DriveNode" where
  "example_drive = (DriveNode_init 1 0 (powered_up example_store) () SlowUpdate_init OuterLoop_init None)\<lparr>dn_ports := DrivePorts_init\<lparr>pt_readiness := 100\<rparr>\<rparr>"

definition example_spin :: "NodeEvent list \<Rightarrow> SpinInput" where
  "example_spin events = \<lparr>si_now = 1000, si_events = events, si_bus = \<lparr>bs_state = CsErrorActive, bs_bus_off_count = 0\<rparr>,
     si_io = \<lparr>io_crank_torque = 0, io_pulse_ages = [], io_display = []\<rparr>, si_motor_temperature = None, si_bridge_temperature = None\<rparr>"

lemma example_ok: "drive_ok example_drive"
  by (simp add: drive_ok_def example_drive_def DriveNode_init_def powered_up_def example_gated owned_def PowerStage_init_def HwStartup_init_def
      IsActive_def OuterLoop_init_def mailbox_ok_def Mailbox_init_def)


lemma example_sel: "dn_ebike example_drive = None" "dn_bring example_drive = powered_up example_store" "dn_outer example_drive = OuterLoop_init"
  "\<not> dn_engaged example_drive" "\<not> dn_engage_requested example_drive" "\<not> dn_rearm_required example_drive" "\<not> dn_emergency_stop example_drive"
  "pt_readiness (dn_ports example_drive) = 100" "\<not> dn_settings_pending example_drive" "dn_write_count example_drive = 0"
  "dn_applied_writes example_drive = 0" "dn_checked_writes example_drive = 0" "dn_telemetry_period_us example_drive = 0" "dn_drive_status_period_us example_drive = 0"
  "dn_bus_off_count example_drive = 0" "\<not> dn_bus_lost example_drive" "\<not> dn_startup_active example_drive" "dn_command_timeout_us example_drive = 500000"
  "\<not> dn_homing_published example_drive" "\<not> dn_restart_requested example_drive"
  by (simp_all add: example_drive_def DriveNode_init_def)

lemma powered_sel: "bu_fsm (powered_up s) = HwStartup_init" "bu_stage (powered_up s) = PowerStage_init" "bu_cc (powered_up s) = CurrentControlIsr_init"
  "hs_state HwStartup_init = FsmIdle" "\<not> IsActive HwStartup_init"
  by (simp_all add: powered_up_def HwStartup_init_def IsActive_def)

lemma outer_status: "Status OuterLoop_init = Some OuterStatus_init"
  by (simp add: Status_def OuterLoop_init_def SeqLockTry_def SeqLock_init_def)

lemma initial_angle: "mo_theta (isr_mech_obs CurrentControlIsr_init) = 0"
  by (simp add: CurrentControlIsr_init_def MechanicalObserver_init_def)

lemma example_pending: "nothing_pending example_drive"
proof -
  have "angle_readable 0" by (rule angle_readable) (simp_all add: zero_f32_def)
  then show ?thesis by (simp add: nothing_pending_def calm_view_def example_sel powered_sel outer_status initial_angle)
qed

lemma example_engages:
  "\<exists>d'. dn_Spin example_env (example_spin [NeMessage 100 [3]]) example_drive = Some d' \<and> dn_engaged d' \<and> ps_enabled (dn_stage d')"
  by (rule grant_readiness [OF example_pending, where before = "[]" and after = "[]"])
    (simp_all add: example_sel powered_sel PowerStage_init_def example_spin_def example_env_def)

text \<open>The request among other messages, with telemetry and drive status at their rates.\<close>

theorem readiness_engages_witness:
  "\<exists>d'. dn_Spin example_env (example_spin [NeMessage 101 [1, 2], NeMessage 100 [3], NeMessage 102 []])
       (example_drive\<lparr>dn_telemetry_period_us := 50000, dn_drive_status_period_us := 20000\<rparr>) = Some d' \<and> dn_engaged d' \<and> ps_enabled (dn_stage d')"
  by (rule readiness_engages [where before = "[NeMessage 101 [1, 2]]" and after = "[NeMessage 102 []]"])
    (simp_all add: example_sel powered_sel PowerStage_init_def example_spin_def example_env_def outer_status initial_angle zero_f32_def
      other_message_def)

text \<open>A spin that receives the emergency stop.\<close>

lemma example_stop_returns: "\<exists>d'. dn_Spin example_env (example_spin [NeCommand kCommandEmergencyStop []]) example_drive = Some d'"
proof -
  define s where "s = Disengage ''emergency stop'' (abort_startup SfEmergencyStop (example_drive\<lparr>dn_now_us := 1000, dn_emergency_stop := True\<rparr>))"
  have "\<not> Handles kCommandEmergencyStop" "kCommandEmergencyStop \<noteq> kCommandRestart" by code_simp+
  then have d: "dispatch_all example_env (si_events (example_spin [NeCommand kCommandEmergencyStop []]))
      (example_drive\<lparr>dn_now_us := si_now (example_spin [NeCommand kCommandEmergencyStop []])\<rparr>) = Some s"
    by (simp add: OnCommand_def s_def example_spin_def)
  have "nothing_pending s" unfolding s_def
    by (rule calm_same [OF _ example_pending]) (simp add: calm_Disengage, simp add: calm_view_def abort_startup_def RequestAbort_def example_sel powered_sel)
  from calm_spin [OF this] show ?thesis unfolding dn_Spin_parts d by auto
qed

theorem emergency_stop_final_witness:
  "\<exists>d'. drive_run example_env [DeSpin (example_spin [NeCommand kCommandEmergencyStop []]), DeExternal False, DeExternal True] example_drive = Some d'
     \<and> dn_emergency_stop d' \<and> \<not> dn_engaged d' \<and> \<not> IsActive (dn_fsm d') \<and> \<not> ps_enabled (dn_stage d')"
proof -
  let ?i = "example_spin [NeCommand kCommandEmergencyStop []]"
  obtain d' where d': "drive_run example_env ([] @ DeSpin ?i # [DeExternal False, DeExternal True]) example_drive = Some d'"
    using example_stop_returns by auto
  from emergency_stop_final [OF example_ok this, of "[]"] d' show ?thesis by (simp add: example_spin_def)
qed

theorem drive_outputs_owned_witness:
  "\<exists>d'. drive_run example_env [DeSpin (example_spin [NeMessage 100 [3]])] example_drive = Some d' \<and> ps_enabled (dn_stage d') \<and> dn_engaged d' \<and> \<not> IsActive (dn_fsm d')"
proof -
  have "\<exists>d'. dn_Spin example_env (example_spin [NeMessage 100 [3]]) example_drive = Some d' \<and> dn_engaged d' \<and> ps_enabled (dn_stage d')"
    by (rule example_engages)
  then obtain d' where d': "drive_run example_env [DeSpin (example_spin [NeMessage 100 [3]])] example_drive = Some d'" "dn_engaged d'" "ps_enabled (dn_stage d')"
    by auto
  from drive_outputs_owned [OF example_ok d'(1)] d' show ?thesis by auto
qed

theorem idle_spin_returns_witness:
  "\<exists>d'. dn_Spin example_env (example_spin []) (example_drive\<lparr>dn_engaged := True\<rparr>) = Some d' \<and> nothing_pending d'"
proof (rule idle_spin_returns)
  show "nothing_pending (example_drive\<lparr>dn_engaged := True\<rparr>)" by (rule calm_same [OF _ example_pending]) (simp add: calm_view_def)
qed (simp add: example_spin_def)

theorem spin_hands_over_witness:
  "\<exists>d'. dn_Spin example_env (example_spin [NeMessage 100 [3]]) example_drive = Some d' \<and> os_active (handed d') \<and> \<not> Tripped (dn_isr d')"
proof -
  obtain d' where d': "dn_Spin example_env (example_spin [NeMessage 100 [3]]) example_drive = Some d'" "dn_engaged d'"
    using example_engages by blast
  from spin_hands_over [OF example_ok d'(1)] d' show ?thesis by blast
qed

theorem engagement_decided_witness:
  "\<exists>d'. SpinEngagement 1000 (example_drive\<lparr>dn_engaged := True\<rparr>) = Some d' \<and> \<not> dn_engaged d' \<and> dn_rearm_required d'"
proof -
  define d where "d = example_drive\<lparr>dn_engaged := True\<rparr>"
  have "nothing_pending d" unfolding d_def by (rule calm_same [OF _ example_pending]) (simp add: calm_view_def)
  from calm_engagement [OF this] obtain d' where d': "SpinEngagement 1000 d = Some d'" by (auto simp: returns_def)
  obtain out cart where c: "CartUpdate 1000 (ot_speed OuterStatus_init) True (dn_cart d) = (out, cart)" by fastforce
  have "dn_engaged d" "Status (dn_outer d) = Some OuterStatus_init" by (simp_all add: d_def example_sel outer_status)
  from engagement_decided [OF this(1) d' this(2) c] have "\<not> dn_engaged d' \<and> dn_rearm_required d'"
    by (simp add: d_def example_sel powered_sel PowerStage_init_def GetPowerStageState_def example_drive_def DriveNode_init_def)
  then show ?thesis using d' unfolding d_def by blast
qed

theorem fault_needs_acknowledgement_witness:
  "\<exists>d'. drive_run example_env [DeSpin (example_spin [NeMessage 100 [3]])] (example_drive\<lparr>dn_rearm_required := True\<rparr>) = Some d'
     \<and> dn_rearm_required d' \<and> \<not> dn_engaged d'"
proof -
  define d where "d = example_drive\<lparr>dn_rearm_required := True\<rparr>"
  define e where "e = d\<lparr>dn_now_us := 1000, dn_last_readiness_us := 1000\<rparr>"
  have "dispatch_all example_env (si_events (example_spin [NeMessage 100 [3]])) (d\<lparr>dn_now_us := si_now (example_spin [NeMessage 100 [3]])\<rparr>) = Some e"
    by (simp add: example_spin_def OnMessage_def OnReadiness_def d_def e_def example_sel example_env_def)
  moreover have "nothing_pending e" unfolding e_def d_def by (rule calm_same [OF _ example_pending]) (simp add: calm_view_def)
  ultimately have "\<exists>d'. dn_Spin example_env (example_spin [NeMessage 100 [3]]) d = Some d'"
    using calm_spin [of e example_env "example_spin [NeMessage 100 [3]]"] by (auto simp: dn_Spin_parts)
  then obtain d' where r: "drive_run example_env [DeSpin (example_spin [NeMessage 100 [3]])] d = Some d'" by auto
  have "dn_rearm_required d' \<and> \<not> dn_engaged d'"
    by (rule fault_needs_acknowledgement [OF _ _ _ _ _ r])
      (simp_all add: d_def example_sel kUnsetPortId_def arms_def example_spin_def example_env_def)
  then show ?thesis using r unfolding d_def by blast
qed

section \<open>A run that is aborted before its first spin\<close>

text \<open>
  START and ABORT of the startup aid in the messages of one spin: the run ends before \<open>SpinStartup\<close> has seen it, so the forced duties are
  not released, and a drive that engages then drives its outputs with the forced neutral duties instead of the control loop.
\<close>

lemma aborted_start_keeps_forcing:
  assumes "\<not> IsActive (dn_fsm d)" "\<not> dn_startup_active d" "\<not> dn_engaged d" "\<not> dn_emergency_stop d"
    "ps_external_enable (dn_stage d)" "\<not> ps_enable_lock (dn_stage d)"
    "dispatch_all env [NeCommand COMMAND_START_STARTUP_AID [], NeCommand COMMAND_ABORT []] d = Some d'"
  shows "isr_force_duty_active (dn_isr (SpinStartup d'))"
    "dn_engaged (release_outputs (SpinStartup d')) \<and> isr_force_duty_active (dn_isr (release_outputs (SpinStartup d')))"
proof -
  have h: "Handles COMMAND_START_STARTUP_AID" "Handles COMMAND_ABORT" "COMMAND_ABORT \<noteq> COMMAND_START_STARTUP_AID"
    "COMMAND_ABORT \<noteq> COMMAND_CONTINUE" "COMMAND_ABORT \<noteq> COMMAND_SET_READING" by code_simp+
  define w where "w = snd (RequestRun (dn_bring d))"
  have s: "snd (cm_OnCommand (dn_engaged d) (dn_emergency_stop d) COMMAND_START_STARTUP_AID [] (dn_bring d)) = w"
    using assms(3,4) by (simp add: cm_OnCommand_def cm_Start_def Let_def split_beta w_def)
  have d': "d' = d\<lparr>dn_bring := RequestAbort SfAborted w\<rparr>"
    using assms(7) h s by (auto simp: OnCommand_def Let_def split_beta cm_OnCommand_def)
  define v where "v = force_all kNeutralDuty (on_cc ClearTrips (clear_fault_state (on_fsm (fresh_run (oc_limit_of (dn_bring d))) (dn_bring d))))"
  obtain ok u where u: "enable_stage v = (ok, u)" by fastforce
  have "bu_stage v = (if GetPowerStageState (dn_stage d) = kFault then PowerStageClearFault (dn_stage d) else dn_stage d)"
    by (simp add: v_def force_all_def clear_fault_state_def)
  then have "fst (Enable (bu_stage v)) \<and> ps_external_enable (snd (Enable (bu_stage v))) \<and> \<not> ps_enable_lock (snd (Enable (bu_stage v)))"
    using assms(5,6) by (auto simp: power_stage_defs split: if_splits)
  then have us: "ok" "ps_external_enable (bu_stage u)" "\<not> ps_enable_lock (bu_stage u)"
    using u by (auto simp: enable_stage_def split_beta)
  have w: "w = on_fsm (\<lambda>h. TransitionTo FsmPwmDisable (h\<lparr>hs_started := True\<rparr>)) u"
    using assms(1) u us(1) by (simp add: w_def RequestRun_def Let_def v_def)
  have e: "RequestAbort SfAborted w = EnterFault SfAborted w" unfolding w by (simp add: RequestAbort_def TransitionTo_def IsActive_def)
  have st: "SpinStartup d' = d'" "isr_force_duty_active (dn_isr d')" "ps_external_enable (dn_stage d')" "\<not> ps_enable_lock (dn_stage d')"
    using assms(2) us unfolding d' e by (simp_all add: SpinStartup_def IsActive_def) (simp_all add: w EnterFault_def force_all_def PowerStageDisable_def)
  then show "isr_force_duty_active (dn_isr (SpinStartup d'))" by simp
  have "isr_force_duty_active (dn_isr (release_outputs x)) = isr_force_duty_active (dn_isr x)" for x :: "'a DriveNode"
    unfolding release_outputs_def Let_def split_beta by (simp add: dn_ClearFaults_def ClearTrips_def)
  then show "dn_engaged (release_outputs (SpinStartup d')) \<and> isr_force_duty_active (dn_isr (release_outputs (SpinStartup d')))"
    using release_grants(1) [OF st(3,4)] st by simp
qed

end
