(* ===== verification/Timing_Statistics.thy ===== *)
theory Timing_Statistics
  imports Commissioning Register_Provider
begin

text \<open>
  The execution times of the interrupts, \<open>src/hardware/hot_path_timing.hpp\<close>, and the registers of a drive that only report:
  \<open>src/src/drive/timing_registers.hpp\<close> and \<open>.cpp\<close> and \<open>DriveInfoRegisters\<close> of \<open>src/src/drive/drive_node.cpp\<close>. A probe is written by
  one interrupt and read by a thread that the interrupt may preempt at every access: its sequence number tells the reader of an overlap,
  so that it takes a consistent copy however records fall into its read.
\<close>

section \<open>The statistics of one section\<close>

record Stats =
  sx_min_cycles :: u32
  sx_max_cycles :: u32
  sx_sum_cycles :: u64
  sx_count :: u32

definition Stats_init :: Stats where
  "Stats_init = \<lparr>sx_min_cycles = - 1, sx_max_cycles = 0, sx_sum_cycles = 0, sx_count = 0\<rparr>"

definition MeanCycles :: "Stats \<Rightarrow> u32" where
  "MeanCycles s = (if sx_count s = 0 then 0 else ucast (sx_sum_cycles s div ucast (sx_count s)))"

record Probe =
  pr_accumulator :: Stats
  pr_published :: Stats
  pr_sequence :: u32
  pr_reset_requested :: bool

definition Probe_init :: Probe where
  "Probe_init = \<lparr>pr_accumulator = Stats_init, pr_published = Stats_init, pr_sequence = 0, pr_reset_requested = False\<rparr>"

definition add_record :: "u32 \<Rightarrow> Stats \<Rightarrow> Stats" where
  "add_record cycles s = \<lparr>sx_min_cycles = min (sx_min_cycles s) cycles, sx_max_cycles = max (sx_max_cycles s) cycles,
     sx_sum_cycles = sx_sum_cycles s + ucast cycles, sx_count = sx_count s + 1\<rparr>"

definition pr_Record :: "u32 \<Rightarrow> Probe \<Rightarrow> Probe" where
  "pr_Record cycles p = (let
     p = (if pr_reset_requested p then p\<lparr>pr_reset_requested := False, pr_accumulator := Stats_init\<rparr> else p);
     p = p\<lparr>pr_accumulator := add_record cycles (pr_accumulator p)\<rparr>;
     sequence = pr_sequence p;
     p = p\<lparr>pr_sequence := sequence + 1\<rparr>;
     p = p\<lparr>pr_published := pr_accumulator p\<rparr>
   in p\<lparr>pr_sequence := sequence + 2\<rparr>)"

definition pr_Reset :: "Probe \<Rightarrow> Probe" where
  "pr_Reset p = p\<lparr>pr_reset_requested := True\<rparr>"

text \<open>
  \<open>Read\<close> runs in a thread that the writer preempts between any two of its accesses and then finishes, and any context may ask for a reset.
  A pass of its loop makes seven accesses: it loads the sequence number, copies the minimum, the maximum, the two words of the sum and the
  number, and loads the sequence number again; the function of a pass gives what happens before each. The passes that the schedule
  leaves are the bound of the loop.
\<close>

datatype ProbeOp = OpRecord u32 | OpReset

fun probe_op :: "ProbeOp \<Rightarrow> Probe \<Rightarrow> Probe" where
  "probe_op (OpRecord cycles) p = pr_Record cycles p"
| "probe_op OpReset p = pr_Reset p"

abbreviation probe_ops :: "ProbeOp list \<Rightarrow> Probe \<Rightarrow> Probe" where "probe_ops ops p \<equiv> fold probe_op ops p"

fun pr_Read :: "(nat \<Rightarrow> ProbeOp list) list \<Rightarrow> Probe \<Rightarrow> Stats option" where
  "pr_Read [] p = None"
| "pr_Read (g # gs) p = (let p0 = probe_ops (g 0) p; before = pr_sequence p0 in
     if before AND 1 \<noteq> 0 then pr_Read gs p0
     else let
       p1 = probe_ops (g 1) p0; p2 = probe_ops (g 2) p1; p3 = probe_ops (g 3) p2; p4 = probe_ops (g 4) p3; p5 = probe_ops (g 5) p4;
       p6 = probe_ops (g 6) p5;
       copy = \<lparr>sx_min_cycles = sx_min_cycles (pr_published p1), sx_max_cycles = sx_max_cycles (pr_published p2),
         sx_sum_cycles = (sx_sum_cycles (pr_published p3) AND mask 32) OR (sx_sum_cycles (pr_published p4) AND NOT (mask 32)),
         sx_count = sx_count (pr_published p5)\<rparr>
     in if pr_sequence p6 = before then Some copy else pr_Read gs p6)"

section \<open>The registers\<close>

datatype Section = ScSampleIsr | ScControlCycle | ScObserver

definition kTimingNames :: "string list" where
  "kTimingNames = [''unimoc.timing.sample_isr'', ''unimoc.timing.control_cycle'', ''unimoc.timing.observer'', ''unimoc.timing.overruns'',
     ''unimoc.timing.clock_hz'']"

definition tr_Count :: nat where "tr_Count = length kTimingNames"

definition tr_Name :: "nat \<Rightarrow> string" where
  "tr_Name index = (if index < length kTimingNames then kTimingNames ! index else [])"

definition SetStats :: "Stats \<Rightarrow> RegisterValue" where
  "SetStats s = RvNatural32 [if sx_count s = 0 then 0 else sx_min_cycles s, MeanCycles s, sx_max_cycles s, sx_count s]"

text \<open>The statistics come as they were read, with the two overrun counters and the clock of the platform.\<close>

definition tr_Read :: "(Section \<Rightarrow> Stats) \<Rightarrow> u32 \<Rightarrow> u32 \<Rightarrow> u32 \<Rightarrow> nat \<Rightarrow> RegisterFlags \<times> RegisterValue" where
  "tr_Read read duty_overruns observer_overruns clock_hz index = (\<lparr>rf_mutable = False, rf_persistent = False\<rparr>,
     if index = 0 then SetStats (read ScSampleIsr)
     else if index = 1 then SetStats (read ScControlCycle)
     else if index = 2 then SetStats (read ScObserver)
     else if index = 3 then RvNatural32 [duty_overruns, observer_overruns]
     else if index = 4 then SetNatural32 clock_hz
     else SetEmpty)"

definition tr_Write :: "nat \<Rightarrow> RegisterValue \<Rightarrow> RegisterWriteResult" where
  "tr_Write index v = RwReadOnly"

definition ResetStatistics :: "(Section \<Rightarrow> Probe) \<Rightarrow> Section \<Rightarrow> Probe" where
  "ResetStatistics probes s = pr_Reset (probes s)"

subsection \<open>\<open>DriveInfoRegisters\<close>\<close>

definition kInfoRegisters :: "(string \<times> string) list" where
  "kInfoRegisters = [
     (''uavcan.sub.readiness.type'', ''reg.udral.service.common.Readiness.0.1''),
     (''uavcan.sub.current_setpoint.type'', ''unimoc.drive.CurrentSetpoint.0.1''),
     (''uavcan.sub.torque_setpoint.type'', ''uavcan.si.unit.torque.Scalar.1.0''),
     (''uavcan.sub.speed_setpoint.type'', ''uavcan.si.unit.angular_velocity.Scalar.1.0''),
     (''uavcan.sub.position_setpoint.type'', ''uavcan.si.unit.angle.Scalar.1.0''),
     (''uavcan.sub.servo_setpoint.type'', ''reg.udral.physics.dynamics.rotation.Planar.0.1''),
     (''uavcan.pub.telemetry.type'', ''unimoc.drive.Telemetry.0.1''),
     (''uavcan.sub.wheel_command.type'', ''unimoc.cart.WheelCommand.0.1''),
     (''uavcan.sub.pedal_state.type'', ''unimoc.cart.PedalState.0.1''),
     (''uavcan.sub.battery_status.type'', ''unimoc.cart.BatteryStatus.0.1''),
     (''uavcan.pub.drive_status.type'', ''unimoc.cart.DriveStatus.0.1''),
     (''uavcan.pub.commissioning.type'', ''unimoc.drive.CommissioningStatus.0.1''),
     (''uavcan.pub.homing_state.type'', ''uavcan.primitive.scalar.Natural8.1.0''),
     (''uavcan.srv.cymon_variables.type'', ''cymon.GetVariableList.0.1''),
     (''uavcan.srv.cymon_buffer_info.type'', ''cymon.GetBufferInfo.0.1''),
     (''uavcan.srv.cymon_setup.type'', ''cymon.SetupCapture.0.1''),
     (''uavcan.srv.cymon_arm.type'', ''cymon.ArmTrigger.0.1''),
     (''uavcan.srv.cymon_read.type'', ''cymon.ReadSamples.0.1''),
     (''uavcan.pub.cymon_trigger.type'', ''cymon.TriggerEvent.0.1''),
     (''uavcan.sub.cymon_trigger.type'', ''cymon.TriggerEvent.0.1''),
     (''uavcan.node.unique_id'', [])]"

definition info_Count :: nat where "info_Count = length kInfoRegisters + 2"

definition info_Name :: "nat \<Rightarrow> string" where
  "info_Name index = (if index = length kInfoRegisters then ''unimoc.settings.pending''
     else if index = length kInfoRegisters + 1 then ''unimoc.can.bus_off_count''
     else if index < length kInfoRegisters then fst (kInfoRegisters ! index) else [])"

definition info_Read :: "nat \<Rightarrow> u8 list \<Rightarrow> bool \<Rightarrow> u32 \<Rightarrow> nat \<Rightarrow> RegisterFlags \<times> RegisterValue" where
  "info_Read capacity unique_id settings_pending bus_off_count index = (let report = \<lparr>rf_mutable = False, rf_persistent = False\<rparr> in
     if index = length kInfoRegisters then (report, SetBit settings_pending)
     else if index = length kInfoRegisters + 1 then (report, SetNatural32 bus_off_count)
     else if index \<ge> length kInfoRegisters then (report, SetEmpty)
     else if snd (kInfoRegisters ! index) = [] then (\<lparr>rf_mutable = False, rf_persistent = True\<rparr>, SetUnstructured capacity unique_id)
     else (report, SetString capacity (text_of (snd (kInfoRegisters ! index)))))"

definition info_Write :: "nat \<Rightarrow> RegisterValue \<Rightarrow> RegisterWriteResult" where
  "info_Write index v = RwReadOnly"

section \<open>The statistics are exact\<close>

text \<open>The records that count: those since the last reset, which the next record carries out.\<close>

fun counts :: "ProbeOp \<Rightarrow> u32 list \<times> bool \<Rightarrow> u32 list \<times> bool" where
  "counts (OpRecord cycles) (rs, reset) = (if reset then [cycles] else rs @ [cycles], False)"
| "counts OpReset (rs, reset) = (rs, True)"

definition counted_records :: "ProbeOp list \<Rightarrow> u32 list" where
  "counted_records ops = fst (fold counts ops ([], False))"

definition stats_of :: "u32 list \<Rightarrow> Stats" where
  "stats_of rs = fold add_record rs Stats_init"

lemma probe_refines:
  "pr_published (fold probe_op ops Probe_init) = stats_of (fst (fold counts ops ([], False)))
   \<and> pr_accumulator (fold probe_op ops Probe_init) = stats_of (fst (fold counts ops ([], False)))
   \<and> pr_reset_requested (fold probe_op ops Probe_init) = snd (fold counts ops ([], False))
   \<and> pr_sequence (fold probe_op ops Probe_init) AND 1 = 0"
proof (induction ops rule: rev_induct)
  case Nil
  then show ?case by (simp add: Probe_init_def stats_of_def)
next
  case (snoc x ops)
  obtain rs r where c: "fold counts ops ([], False) = (rs, r)" by fastforce
  have even: "(s + 2) AND 1 = 0" if "s AND 1 = 0" for s :: u32
  proof -
    have "even s" using that by (simp add: and_one_eq even_iff_mod_2_eq_zero)
    then have "even (s + 2)" by (rule dvd_add) simp
    then show ?thesis unfolding and_one_eq by (rule even_iff_mod_2_eq_zero [THEN iffD1])
  qed
  show ?case using snoc c even by (cases x) (simp_all add: pr_Record_def pr_Reset_def stats_of_def Let_def)
qed

lemma unat_widen: "unat (ucast c :: u64) = unat c" for c :: u32
  using unsigned_less [of c, where 'a = nat] by (simp add: unsigned_ucast_eq take_bit_nat_eq_self)

lemma stats_of_exact:
  assumes "length rs < 2 ^ 32"
  shows "sx_min_cycles (stats_of rs) = fold min rs (- 1) \<and> sx_max_cycles (stats_of rs) = fold max rs 0
    \<and> unat (sx_sum_cycles (stats_of rs)) = sum_list (map unat rs) \<and> unat (sx_count (stats_of rs)) = length rs
    \<and> sum_list (map unat rs) \<le> length rs * (2 ^ 32 - 1)"
  using assms
proof (induction rs rule: rev_induct)
  case Nil
  then show ?case by (simp add: stats_of_def Stats_init_def)
next
  case (snoc c rs)
  have step: "stats_of (rs @ [c]) = add_record c (stats_of rs)" by (simp add: stats_of_def)
  have len: "length rs < 2 ^ 32 - 1" "length rs < 2 ^ 32" using snoc.prems by simp_all
  note IH = snoc.IH [OF len(2)]
  have c: "unat c \<le> 2 ^ 32 - 1" using unsigned_less [of c, where 'a = nat] by simp
  have "length rs * (2 ^ 32 - 1) \<le> (2 ^ 32 - 1) * (2 ^ 32 - 1)" using len(1) by (intro mult_right_mono) auto
  then have "sum_list (map unat rs) + unat c < 2 ^ 64" using IH c by simp
  moreover have "unat (ucast c :: u64) = unat c" by (rule unat_widen)
  ultimately have "unat (sx_sum_cycles (stats_of rs) + ucast c) = sum_list (map unat rs) + unat c"
    using IH by (subst unat_add_lem [THEN iffD1]) simp_all
  moreover have "unat (sx_count (stats_of rs) + 1) = length rs + 1"
    using IH len by (subst unat_add_lem [THEN iffD1]) simp_all
  moreover have "sum_list (map unat rs) + unat c \<le> (length rs + 1) * (2 ^ 32 - 1)" using IH c by simp
  ultimately show ?case using IH unfolding step by (simp add: add_record_def min.commute max.commute)
qed

lemma unat_back: "of_nat (unat w) = w" for w :: "'a::len word"
  by simp

lemma unat_inject: "unat w = unat v \<Longrightarrow> w = v" for w v :: "'a::len word"
  by (simp add: word_unat_eq_iff)

lemma fold_min_Min: "rs \<noteq> [] \<Longrightarrow> fold min rs (- 1 :: u32) = Lattices_Big.Min (set rs)"
proof -
  assume "rs \<noteq> []"
  have "fold min rs (- 1 :: u32) = Lattices_Big.Min (set ((- 1) # rs))" by (simp only: Min.set_eq_fold)
  also have "\<dots> = min (- 1) (Lattices_Big.Min (set rs))" using \<open>rs \<noteq> []\<close> by simp
  finally show ?thesis by (simp add: min_absorb2)
qed

lemma fold_max_Max: "rs \<noteq> [] \<Longrightarrow> fold max rs (0 :: u32) = Lattices_Big.Max (set rs)"
proof -
  assume "rs \<noteq> []"
  have "fold max rs (0 :: u32) = Lattices_Big.Max (set (0 # rs))" by (simp only: Max.set_eq_fold)
  also have "\<dots> = max 0 (Lattices_Big.Max (set rs))" using \<open>rs \<noteq> []\<close> by simp
  finally show ?thesis by (simp add: max_absorb2)
qed

text \<open>What the register reports of a list of execution times.\<close>

definition timing_report :: "u32 list \<Rightarrow> RegisterValue" where
  "timing_report rs = RvNatural32 (if rs = [] then [0, 0, 0, 0]
     else [Lattices_Big.Min (set rs), of_nat (sum_list (map unat rs) div length rs), Lattices_Big.Max (set rs), of_nat (length rs)])"

lemma stats_report:
  assumes "length rs < 2 ^ 32"
  shows "SetStats (stats_of rs) = timing_report rs"
proof (cases "rs = []")
  case True
  then show ?thesis by (simp add: SetStats_def stats_of_def Stats_init_def MeanCycles_def timing_report_def)
next
  case False
  note E = stats_of_exact [OF assms]
  have n: "sx_count (stats_of rs) \<noteq> 0" using E False by (metis length_0_conv unat_0)
  have count: "sx_count (stats_of rs) = of_nat (length rs)" using E assms by (intro unat_inject) (simp add: unsigned_of_nat take_bit_nat_eq_self)
  have "unat (sx_sum_cycles (stats_of rs) div ucast (sx_count (stats_of rs))) = sum_list (map unat rs) div length rs"
    using E by (simp add: unat_div_distrib unat_widen)
  then have "unat (ucast (sx_sum_cycles (stats_of rs) div ucast (sx_count (stats_of rs))) :: u32)
      = unat (of_nat (sum_list (map unat rs) div length rs) :: u32)"
    by (simp only: unsigned_ucast_eq unsigned_of_nat) simp
  then have "MeanCycles (stats_of rs) = of_nat (sum_list (map unat rs) div length rs)"
    unfolding MeanCycles_def using n unat_inject by auto
  then show ?thesis using n False E count fold_min_Min [OF False] fold_max_Max [OF False] by (simp add: SetStats_def timing_report_def)
qed

section \<open>A read that records overlap\<close>

definition records :: "ProbeOp list \<Rightarrow> nat" where
  "records ops = length (filter (\<lambda>x. x \<noteq> OpReset) ops)"

definition pass_ops :: "(nat \<Rightarrow> ProbeOp list) \<Rightarrow> ProbeOp list" where
  "pass_ops g = g 0 @ g 1 @ g 2 @ g 3 @ g 4 @ g 5 @ g 6"

lemma records_append [simp]: "records (xs @ ys) = records xs + records ys"
  by (simp add: records_def)

lemma sequence_records: "pr_sequence (probe_ops ops p) = pr_sequence p + 2 * of_nat (records ops)"
proof (induction ops arbitrary: p)
  case (Cons x ops)
  then show ?case by (cases x) (simp_all add: pr_Record_def pr_Reset_def records_def Let_def)
qed (simp add: records_def)

lemma no_records: "records ops = 0 \<Longrightarrow> pr_published (probe_ops ops p) = pr_published p"
proof (induction ops arbitrary: p)
  case (Cons x ops)
  then show ?case by (cases x) (simp_all add: pr_Reset_def records_def)
qed simp

lemma sequence_returns:
  fixes s :: u32
  assumes "n < 2 ^ 31"
  shows "s + 2 * of_nat n = s \<longleftrightarrow> n = 0"
proof -
  have "of_nat (2 * n) = (0 :: u32) \<longleftrightarrow> 2 ^ 32 dvd 2 * n" by (subst word_of_nat_eq_0_iff) simp
  also have "\<dots> \<longleftrightarrow> n = 0" using assms by (auto dest: dvd_imp_le)
  finally show ?thesis by simp
qed

lemma counted_length: "length (counted_records ops) \<le> records ops"
proof (induction ops rule: rev_induct)
  case (snoc x ops)
  then show ?case by (cases x; cases "fold counts ops ([], False)") (auto simp: counted_records_def records_def)
qed (simp add: counted_records_def)

lemma words_join: "(w AND mask 32) OR (w AND NOT (mask 32)) = w" for w :: u64
  by (rule bit_word_eqI) (auto simp: bit_simps)

text \<open>A pass that meets fewer records than the sequence number tells apart: it ends the read exactly when it met none after its first access.\<close>

lemma read_pass:
  assumes "pr_sequence (probe_ops (g 0) p) AND 1 = 0" "records (pass_ops g) < 2 ^ 31"
  shows "pr_Read (g # gs) p = (if records (g 1 @ g 2 @ g 3 @ g 4 @ g 5 @ g 6) = 0 then Some (pr_published (probe_ops (pass_ops g) p))
    else pr_Read gs (probe_ops (pass_ops g) p))"
proof -
  define n where "n = records (g 1 @ g 2 @ g 3 @ g 4 @ g 5 @ g 6)"
  have n: "n < 2 ^ 31" using assms(2) by (simp add: n_def pass_ops_def)
  have s: "pr_sequence (probe_ops (pass_ops g) p) = pr_sequence (probe_ops (g 0) p) + 2 * of_nat n"
    using sequence_records [of "g 1 @ g 2 @ g 3 @ g 4 @ g 5 @ g 6" "probe_ops (g 0) p"] by (simp add: pass_ops_def n_def)
  have e: "pr_sequence (probe_ops (pass_ops g) p) = pr_sequence (probe_ops (g 0) p) \<longleftrightarrow> n = 0" unfolding s by (rule sequence_returns [OF n])
  show ?thesis
  proof (cases "n = 0")
    case True
    then have r: "records (g 1) = 0" "records (g 2) = 0" "records (g 3) = 0" "records (g 4) = 0" "records (g 5) = 0" "records (g 6) = 0"
      by (simp_all add: n_def)
    show ?thesis using assms(1) e True by (simp add: pass_ops_def Let_def no_records r words_join del: One_nat_def)
  next
    case False
    then show ?thesis using assms(1) e unfolding n_def [symmetric] by (simp add: pass_ops_def Let_def)
  qed
qed

text \<open>The sequence number is even whenever the writer is not at work, and what was published then is the statistics of the counted records.\<close>

lemma published_counted: "pr_published (probe_ops ops Probe_init) = stats_of (counted_records ops)"
  using probe_refines [of ops] by (simp add: counted_records_def)

lemma sequence_even: "pr_sequence (probe_ops ops Probe_init) AND 1 = 0"
  using probe_refines [of ops] by simp

lemma read_counted:
  assumes "\<forall>g\<in>set gs. records (pass_ops g) < 2 ^ 31" "\<exists>g\<in>set gs. records (pass_ops g) = 0"
  shows "\<exists>n. pr_Read gs (probe_ops ops Probe_init) = Some (stats_of (counted_records (ops @ concat (map pass_ops (take n gs)))))"
  using assms
proof (induction gs arbitrary: ops)
  case (Cons g gs)
  have even: "pr_sequence (probe_ops (g 0) (probe_ops ops Probe_init)) AND 1 = 0" using sequence_even [of "ops @ g 0"] by simp
  have less: "records (pass_ops g) < 2 ^ 31" using Cons.prems(1) by simp
  have after: "probe_ops (pass_ops g) (probe_ops ops Probe_init) = probe_ops (ops @ pass_ops g) Probe_init" by simp
  show ?case
  proof (cases "records (g 1 @ g 2 @ g 3 @ g 4 @ g 5 @ g 6) = 0")
    case True
    then have "pr_Read (g # gs) (probe_ops ops Probe_init) = Some (stats_of (counted_records (ops @ pass_ops g)))"
      unfolding read_pass [OF even less] after published_counted by simp
    then show ?thesis by (intro exI [of _ 1]) simp
  next
    case False
    then have "records (pass_ops g) \<noteq> 0" by (auto simp: pass_ops_def)
    then have "\<exists>g\<in>set gs. records (pass_ops g) = 0" using Cons.prems(2) by auto
    then obtain n where n: "pr_Read gs (probe_ops (ops @ pass_ops g) Probe_init)
        = Some (stats_of (counted_records ((ops @ pass_ops g) @ concat (map pass_ops (take n gs)))))"
      using Cons.IH [of "ops @ pass_ops g"] Cons.prems(1) by auto
    have "pr_Read (g # gs) (probe_ops ops Probe_init) = pr_Read gs (probe_ops (ops @ pass_ops g) Probe_init)"
      unfolding read_pass [OF even less] after if_not_P [OF False] ..
    then show ?thesis using n by (intro exI [of _ "Suc n"]) simp
  qed
qed simp

text \<open>C40. The timing statistics are exact: whatever records and resets came before and come between the accesses of the reader, the
  read returns as soon as no record overlaps a pass, and the register reports the least, the mean rounded down, the greatest and the number
  of the execution times since the last reset that a record carried out, as they were at one moment of the read; neither the 64-bit sum
  nor the 32-bit mean overflows. A pass may meet fewer records than the sequence number tells apart, and fewer than 2^32 came in all.\<close>

theorem timing_statistics_exact:
  assumes "\<forall>g\<in>set gs. records (pass_ops g) < 2 ^ 31" "\<exists>g\<in>set gs. records (pass_ops g) = 0"
    "records (ops @ concat (map pass_ops gs)) < 2 ^ 32"
  shows "\<exists>n. map_option SetStats (pr_Read gs (probe_ops ops Probe_init))
    = Some (timing_report (counted_records (ops @ concat (map pass_ops (take n gs)))))"
proof -
  obtain n where n: "pr_Read gs (probe_ops ops Probe_init) = Some (stats_of (counted_records (ops @ concat (map pass_ops (take n gs)))))"
    using read_counted [OF assms(1,2)] by blast
  have "records (concat (map pass_ops (take n gs))) \<le> records (concat (map pass_ops gs))"
    by (subst (2) append_take_drop_id [of n gs, symmetric]) (simp del: append_take_drop_id)
  then have "length (counted_records (ops @ concat (map pass_ops (take n gs)))) < 2 ^ 32"
    using counted_length [of "ops @ concat (map pass_ops (take n gs))"] assms(3) by simp
  then show ?thesis using n stats_report by auto
qed

text \<open>A record falls into the first pass, between the minimum and the maximum.\<close>

definition example_passes :: "(nat \<Rightarrow> ProbeOp list) list" where
  "example_passes = [\<lambda>k. if k = 2 then [OpRecord 4] else [], \<lambda>_. []]"

theorem timing_statistics_exact_witness:
  "\<exists>n. map_option SetStats (pr_Read example_passes (probe_ops [OpRecord 7, OpReset, OpRecord 9] Probe_init))
     = Some (timing_report (counted_records ([OpRecord 7, OpReset, OpRecord 9] @ concat (map pass_ops (take n example_passes)))))
   \<and> pr_Read (take 1 example_passes) (probe_ops [OpRecord 7, OpReset, OpRecord 9] Probe_init) = None
   \<and> timing_report (counted_records ([OpRecord 7, OpReset, OpRecord 9] @ concat (map pass_ops example_passes))) = RvNatural32 [4, 6, 9, 2]"
proof -
  have "\<forall>g\<in>set example_passes. records (pass_ops g) < 2 ^ 31" "\<exists>g\<in>set example_passes. records (pass_ops g) = 0"
    "records ([OpRecord 7, OpReset, OpRecord 9] @ concat (map pass_ops example_passes)) < 2 ^ 32" by (simp_all add: example_passes_def pass_ops_def records_def)
  note t = timing_statistics_exact [OF this]
  have "counted_records ([OpRecord 7, OpReset, OpRecord 9] @ concat (map pass_ops example_passes)) = [9, 4]"
    by (simp add: example_passes_def pass_ops_def counted_records_def)
  moreover have "timing_report [9, 4] = RvNatural32 [4, 6, 9, 2]" by code_simp
  moreover have "pr_Read (take 1 example_passes) (probe_ops [OpRecord 7, OpReset, OpRecord 9] Probe_init) = None"
    by (simp add: example_passes_def pr_Record_def pr_Reset_def Probe_init_def)
  ultimately show ?thesis using t by simp
qed

end
