(* ===== verification/Spec2Isabelle.thy ===== *)
theory Spec2Isabelle
  imports Hall_Capture Sin_Cos_Circle Settings_Persistence Handover Cart_Control Kunteng Edge_Uart
    Foc_System Outer_Loop_Safety Cyphal_Bus Hw_Startup_Safety Commissioning Ebike_Safety Drive_Requests Timing_Statistics
begin

text \<open>
  UNIMOC is a field-oriented motor controller. This library models its C++ sources under \<open>src/\<close> and proves what makes them correct.

  \<^bold>\<open>How the program works, and which theory models which part.\<close>

  \<^item> Every PWM period an interrupt samples currents and DC-link voltage, checks the trips, and runs the current controller for the sub-steps of the
    period (\<open>src/src/current_control/current_control_isr\<close>: \<open>Current_Control\<close>). It needs the sine and cosine of the rotor angle
    (\<open>lib/motor_control/src/sin_cos.hpp\<close>, \<open>rotor_angle.hpp\<close>: \<open>Rotor_Angle\<close>, \<open>Sin_Cos_Circle\<close>), the frame transforms (\<open>stator_system\<close>,
    \<open>rotor_system\<close>, \<open>three_phase_system\<close>: \<open>Frames\<close>), the d/q controller (\<open>current_controller.hpp\<close>: \<open>Current_Controller\<close>) and the
    modulator with dead-time compensation (\<open>svm.hpp\<close>, \<open>dead_time_compensation.hpp\<close>: \<open>Modulation\<close>).
  \<^item> Behind it an observer run estimates angle and speed and prepares the angles of the next cycle in the other half of a double buffer
    (\<open>slow_update\<close>: \<open>Slow_Update\<close>), from the mechanical Kalman observer (\<open>Mechanical_Observer\<close>), the Hall sensors
    (\<open>hall_capture.hpp\<close>, \<open>hall_decoder.hpp\<close>, \<open>hall_fusion.hpp\<close>: \<open>Hall_Capture\<close>, \<open>Hall_Fusion\<close>), injection and the flux observer
    (\<open>hfi.hpp\<close>, \<open>pmsm_flux_observer.hpp\<close>: \<open>Angle_Sources\<close>). \<open>Foc_System\<close> composes cycle, observer and commands.
  \<^item> The control thread runs speed, position and homing and hands a current reference to the interrupt (\<open>outer_loop\<close>: \<open>Outer_Loop\<close>, proofs
    in \<open>Outer_Loop_Safety\<close>) with the slow controllers of \<open>Motion_Control\<close> (proofs in \<open>Motion_Limits\<close>, \<open>Vector_Limit\<close>). Values pass between the
    contexts through mailboxes and sequence locks (\<open>mailbox.hpp\<close>: \<open>Handover\<close>), and the outputs are released and blocked by the power stage
    (\<open>power_stage\<close>: \<open>Power_Stage\<close>).
  \<^item> The settings are a struct with a table of registers (\<open>lib/settings\<close>: \<open>Nvm_Settings\<close>, \<open>Settings_Registers\<close>), a validation
    (\<open>Settings_Validate\<close>) and a store with persistence behind the save gate (\<open>Settings_Store\<close>, \<open>Settings_Persistence\<close>).
  \<^item> On the bus (\<open>lib/cyphal\<close>) the node of \<open>Cyphal_Node\<close> (proofs in \<open>Cyphal_Bus\<close>) dispatches transfers of the transport
    (\<open>Canard_Transport\<close>), and the settings are registers of it (\<open>register_value\<close>, \<open>settings_register_provider\<close>: \<open>Register_Value\<close>,
    \<open>Register_Provider\<close>).
  \<^item> Vehicles: the cart drive (\<open>cart_control\<close>: \<open>Cart_Control\<close>) and the e-bike display protocol with its software UART (\<open>lib/ebike\<close>:
    \<open>Kunteng\<close>, \<open>Edge_Uart\<close>), the crank observer and the assist law (\<open>pedal_observer.hpp\<close>, \<open>assist_controller.hpp\<close>: \<open>Pedal_Assist\<close>) and the
    control of the e-bike with engagement on demand (\<open>ebike_control\<close>: \<open>Ebike_Control\<close>, proofs in \<open>Ebike_Safety\<close>).
  \<^item> The bring-up of new hardware is a state machine over the control cycle, the power stage and the settings (\<open>src/src/startup/hw_startup\<close>:
    \<open>Hw_Startup\<close>, proofs over all orders of events in \<open>Hw_Startup_Safety\<close>), controlled over the bus (\<open>src/src/drive/commissioning\<close>:
    \<open>Commissioning\<close>). Its statistics are sums of doubles (\<open>Float64\<close>); its log texts are left out.
  \<^item> One drive on the bus joins them (\<open>src/src/drive/drive_node\<close>, \<open>current_control_runtime.hpp\<close> and the handlers of \<open>src/src/main.cpp\<close>:
    \<open>Drive_Node\<close>): its spin dispatches messages, commands and register writes, engages and disengages, applies or tunes settings, follows the
    e-bike, the cart and the startup aid, and publishes. Its state is one record over the states of the other theories. \<open>Drive_Safety\<close>
    proves who owns the outputs over every order of spins, interrupts and threads, \<open>Drive_Engagement\<close> how the engagement ends and what a fault
    asks for, \<open>Drive_Requests\<close> that requests are granted and that a spin returns, on a concrete drive too.
  \<^item> The execution times of the interrupts and the registers that only report are in \<open>Timing_Statistics\<close> (\<open>hardware/hot_path_timing.hpp\<close>,
    \<open>timing_registers\<close>, \<open>DriveInfoRegisters\<close>), with the reads that a record overlaps.

  \<^bold>\<open>Conventions.\<close> A struct is a record with a short prefix per field, an enumeration a datatype, machine integers are words, \<open>float\<close>
  is the type \<open>f32\<close> of \<open>Float32\<close>: a rational rounded to binary32 after every operation, with both zeros, infinities and one NaN, and the
  comparisons of C++. Every multiplication and addition of the sources is one rounding, so fused operations of an optimising compiler are not
  modelled, nor are the physical dimensions of \<open>lib/units\<close> (\<open>Units\<close> has its numeric operations). Member functions are functions from the old
  to the new record; hardware calls are returned as a list in the order they are made; \<open>None\<close> stands for a loop that does not return or for an
  operation whose behaviour is undefined. Fuel is used only where the source has a bound of its own: 32 transfers per spin, 64 frames per
  reception, 16 Hall events per run.

  \<^bold>\<open>What the lemma groups show.\<close> \<open>Float_Bounds\<close>, \<open>Float_Error\<close>, \<open>Float_Relative\<close>, \<open>Float_Sqrt\<close>, \<open>Float_Bits\<close> carry the rounding arguments:
  monotonicity, absolute and relative errors, the square root, the binary encoding. On them rest the bounds (angles in range, duties and
  voltages in their limits, the current reference in the current limit) and the invariants that hold for every input, NaN included. The
  concurrent parts are step relations over single shared accesses, with invariants by rule induction over reachable states (the Hall event
  queue, mailbox, sequence lock, power stage). Contracts between parts are locales: ending loops and the bounded queue (\<open>Prelude\<close>), the
  table of registers and the storage behind the store (\<open>Settings_Registers\<close>, \<open>Settings_Store\<close>), the transport below the node and the
  environment of the node (\<open>Canard_Transport\<close>, \<open>Cyphal_Bus\<close>), each interpreted on the model. The startup aid, the e-bike and the whole
  drive are runs of a step function over lists of events or inputs, with an invariant kept by every step, and so are the speed loop, whose
  bounds may be others in every step, and the calls of the mechanical observer; each operation of the drive has one lemma per view of the
  state it keeps. Refinements: the modulator against exact duties, homing against its state machine, the register
  tables of the node against one list.

  \<^bold>\<open>Not modelled.\<close> Code outside the sources is a parameter: libcanard, its heap and the serialization code generated from the bus standard, the
  non-volatile storage below the store, the CAN drivers, the exponential function of the assist law (with its range as a hypothesis). The drive
  takes the messages, commands, writes and allocated node-ID of a spin as a list, so its spin is not composed with that of the node. Not modelled
  at all are the hardware drivers under \<open>src/hardware\<close> (register access and Zephyr calls), the creation of threads and interrupts, traces,
  the simulator, shells, and the parts that the manifest lists as not modelled; a
  callback that calls back into the node, and the tearing of values inside the outer loop's mailboxes (\<open>Handover\<close> proves that there is none).
\<close>

end
